(* ===== verification/Prelude.thy ===== *)
theory Prelude
  imports Main "HOL-Library.Word"
begin

section \<open>Prelude: results, state with exceptions, shared list facts\<close>

text \<open>
  What every component shares.  A Python function that may raise is a function into
  \<open>'e + 'a\<close>: \<open>Inl\<close> is the exception, \<open>Inr\<close> the returned value, and \<open>bindE\<close> is
  sequencing (\<open>;\<close> in the source: an exception skips the rest).  A Python function
  that also mutates an object is a function \<open>'s \<Rightarrow> ('e + 'a) \<times> 's\<close>; \<open>bindS\<close> sequences
  two of them and keeps the mutations made before an exception, as the code does.
\<close>

named_theorems result_simps \<open>elimination and evaluation rules for \<open>bindE\<close> and \<open>guardE\<close>\<close>
named_theorems state_simps \<open>elimination and evaluation rules for \<open>bindS\<close>\<close>

type_synonym byte = "8 word"

type_synonym ('e, 's, 'a) action = "'s \<Rightarrow> ('e + 'a) \<times> 's"

subsection \<open>Results: exceptions without state\<close>

definition bindE :: "'e + 'a \<Rightarrow> ('a \<Rightarrow> 'e + 'b) \<Rightarrow> 'e + 'b" where
  "bindE m f = (case m of Inl e \<Rightarrow> Inl e | Inr a \<Rightarrow> f a)"

definition guardE :: "bool \<Rightarrow> 'e \<Rightarrow> 'e + unit" where
  "guardE ok e = (if ok then Inr () else Inl e)"

lemma bindE_Inl [simp]: "bindE (Inl e) f = Inl e"
  by (simp add: bindE_def)

lemma bindE_Inr [simp]: "bindE (Inr a) f = f a"
  by (simp add: bindE_def)

lemma guardE_True [simp]: "guardE True e = Inr ()"
  by (simp add: guardE_def)

lemma guardE_False [simp]: "guardE False e = Inl e"
  by (simp add: guardE_def)

lemma bindE_eq_Inr [result_simps]:
  "bindE m f = Inr b \<longleftrightarrow> (\<exists>a. m = Inr a \<and> f a = Inr b)"
  by (cases m) auto

lemma bindE_eq_Inl [result_simps]:
  "bindE m f = Inl e \<longleftrightarrow> m = Inl e \<or> (\<exists>a. m = Inr a \<and> f a = Inl e)"
  by (cases m) auto

lemma guardE_eq_Inr [result_simps]: "guardE ok e = Inr u \<longleftrightarrow> ok"
  by (simp add: guardE_def)

lemma guardE_eq_Inl [result_simps]: "guardE ok e = Inl e' \<longleftrightarrow> \<not> ok \<and> e' = e"
  by (auto simp: guardE_def)

lemma bindE_guardE: "bindE (guardE ok e) f = (if ok then f () else Inl e)"
  by (simp add: guardE_def)

lemma bindE_assoc: "bindE (bindE m f) g = bindE m (\<lambda>a. bindE (f a) g)"
  by (cases m) simp_all

lemma bindE_cong [fundef_cong]:
  "m = m' \<Longrightarrow> (\<And>a. m' = Inr a \<Longrightarrow> f a = f' a) \<Longrightarrow> bindE m f = bindE m' f'"
  by (cases m') simp_all

subsection \<open>Actions: exceptions with state\<close>

definition returnS :: "'a \<Rightarrow> ('e, 's, 'a) action" where
  "returnS a = (\<lambda>s. (Inr a, s))"

definition raiseS :: "'e \<Rightarrow> ('e, 's, 'a) action" where
  "raiseS e = (\<lambda>s. (Inl e, s))"

definition liftS :: "'e + 'a \<Rightarrow> ('e, 's, 'a) action" where
  "liftS r = (\<lambda>s. (r, s))"

definition bindS :: "('e, 's, 'a) action \<Rightarrow> ('a \<Rightarrow> ('e, 's, 'b) action) \<Rightarrow> ('e, 's, 'b) action" where
  "bindS m f = (\<lambda>s. case m s of (Inl e, s') \<Rightarrow> (Inl e, s') | (Inr a, s') \<Rightarrow> f a s')"

lemma returnS_apply [simp]: "returnS a s = (Inr a, s)"
  by (simp add: returnS_def)

lemma raiseS_apply [simp]: "raiseS e s = (Inl e, s)"
  by (simp add: raiseS_def)

lemma liftS_apply [simp]: "liftS r s = (r, s)"
  by (simp add: liftS_def)

lemma bindS_apply:
  "bindS m f s = (case m s of (Inl e, s') \<Rightarrow> (Inl e, s') | (Inr a, s') \<Rightarrow> f a s')"
  by (simp add: bindS_def)

lemma bindS_step [simp]: "m s = (Inr a, s') \<Longrightarrow> bindS m f s = f a s'"
  by (simp add: bindS_def)

lemma bindS_raise [simp]: "m s = (Inl e, s') \<Longrightarrow> bindS m f s = (Inl e, s')"
  by (simp add: bindS_def)

lemma bindS_eq_Inr [state_simps]:
  "bindS m f s = (Inr b, t) \<longleftrightarrow> (\<exists>a s'. m s = (Inr a, s') \<and> f a s' = (Inr b, t))"
  by (auto simp: bindS_def split: prod.splits sum.splits)

lemma bindS_eq_Inl [state_simps]:
  "bindS m f s = (Inl e, t) \<longleftrightarrow>
     m s = (Inl e, t) \<or> (\<exists>a s'. m s = (Inr a, s') \<and> f a s' = (Inl e, t))"
  by (auto simp: bindS_def split: prod.splits sum.splits)

lemma case_option_run [state_simps]:
  "(case x of None \<Rightarrow> a | Some v \<Rightarrow> f v) s = q \<longleftrightarrow>
     x = None \<and> a s = q \<or> (\<exists>v. x = Some v \<and> f v s = q)"
  by (cases x) auto

lemma if_run [state_simps]:
  "(if c then a else b) s = q \<longleftrightarrow> c \<and> a s = q \<or> \<not> c \<and> b s = q"
  by simp

lemma bindS_assoc: "bindS (bindS m f) g = bindS m (\<lambda>a. bindS (f a) g)"
  by (auto simp: bindS_def fun_eq_iff split: prod.splits sum.splits)

text \<open>\<open>try ... except\<close> and \<open>try ... finally\<close>\<close>

definition tryS :: "('e, 's, 'a) action \<Rightarrow> ('e \<Rightarrow> ('e, 's, 'a) action) \<Rightarrow> ('e, 's, 'a) action" where
  "tryS m h = (\<lambda>s. case m s of (Inl e, s') \<Rightarrow> h e s' | (Inr a, s') \<Rightarrow> (Inr a, s'))"

definition finallyS :: "('e, 's, 'a) action \<Rightarrow> ('e, 's, unit) action \<Rightarrow> ('e, 's, 'a) action" where
  "finallyS m c = (\<lambda>s. case m s of (r, s') \<Rightarrow>
     (case c s' of (Inl e, s'') \<Rightarrow> (Inl e, s'') | (Inr u, s'') \<Rightarrow> (r, s'')))"

text \<open>Reading the state, and running an action on a part of it.\<close>

definition readS :: "('s \<Rightarrow> 'a) \<Rightarrow> ('e, 's, 'a) action" where
  "readS f = (\<lambda>s. (Inr (f s), s))"

definition updateS :: "('s \<Rightarrow> 's) \<Rightarrow> ('e, 's, unit) action" where
  "updateS f = (\<lambda>s. (Inr (), f s))"

definition partS :: "('s \<Rightarrow> 't) \<Rightarrow> ('t \<Rightarrow> 's \<Rightarrow> 's) \<Rightarrow> ('e, 't, 'a) action \<Rightarrow> ('e, 's, 'a) action" where
  "partS get put act = (\<lambda>s. case act (get s) of (r, t) \<Rightarrow> (r, put t s))"

text \<open>A \<open>return\<close> in the middle of a function skips the rest of it, as an exception does.\<close>

datatype ('r, 'a) flow = Return 'r | Proceed 'a

definition bindF :: "('e, 's, ('r, 'a) flow) action \<Rightarrow> ('a \<Rightarrow> ('e, 's, ('r, 'b) flow) action) \<Rightarrow> ('e, 's, ('r, 'b) flow) action" where
  "bindF m f = bindS m (\<lambda>x. case x of Return res \<Rightarrow> returnS (Return res) | Proceed a \<Rightarrow> f a)"

fun flow_result :: "('r, 'r) flow \<Rightarrow> 'r" where
  "flow_result (Return res) = res"
| "flow_result (Proceed res) = res"

lemma read_update_run [simp]: "readS f s = (r, t) \<longleftrightarrow> r = Inr (f s) \<and> t = s"
  "updateS g s = (q, t) \<longleftrightarrow> q = Inr () \<and> t = g s"
  by (auto simp: readS_def updateS_def)

lemma bindF_Inr [state_simps]:
  "bindF m f s = (Inr x, t) \<longleftrightarrow>
     (\<exists>res. m s = (Inr (Return res), t) \<and> x = Return res)
     \<or> (\<exists>a s'. m s = (Inr (Proceed a), s') \<and> f a s' = (Inr x, t))"
proof -
  obtain r s' where m: "m s = (r, s')" by fastforce
  show ?thesis
  proof (cases r)
    case (Inl e)
    with m show ?thesis by (simp add: bindF_def)
  next
    case (Inr v)
    with m show ?thesis by (cases v) (auto simp: bindF_def)
  qed
qed

subsection \<open>Relations between the state before and after\<close>

text \<open>
  A reflexive and transitive relation that every step of a piece of code respects is respected
  by the code: the rules follow its structure.
\<close>

locale step_relation =
  fixes R :: "'s \<Rightarrow> 's \<Rightarrow> bool"
  assumes R_refl: "R s s"
    and R_trans: "R s t \<Longrightarrow> R t u \<Longrightarrow> R s u"
begin

definition keeps :: "('e, 's, 'a) action \<Rightarrow> bool" where
  "keeps a \<longleftrightarrow> (\<forall>s. R s (snd (a s)))"

lemma keepsI: "(\<And>s r t. a s = (r, t) \<Longrightarrow> R s t) \<Longrightarrow> keeps a"
  by (simp add: keeps_def) (metis prod.collapse)

lemma keepsD: "keeps a \<Longrightarrow> a s = (r, t) \<Longrightarrow> R s t"
  by (metis keeps_def snd_conv)

lemma keeps_return: "keeps (returnS v)" and keeps_raise: "keeps (raiseS e)"
  and keeps_lift: "keeps (liftS x)" and keeps_read: "keeps (readS f)"
  by (simp_all add: keeps_def R_refl readS_def)

lemma keeps_bind: "keeps m \<Longrightarrow> (\<And>v. keeps (f v)) \<Longrightarrow> keeps (bindS m f)"
  by (rule keepsI) (auto simp: bindS_def split: prod.splits sum.splits intro: R_trans keepsD)

lemma keeps_try: "keeps m \<Longrightarrow> (\<And>e. keeps (h e)) \<Longrightarrow> keeps (tryS m h)"
  by (rule keepsI) (auto simp: tryS_def split: prod.splits sum.splits intro: R_trans keepsD)

lemma keeps_finally: "keeps m \<Longrightarrow> keeps c \<Longrightarrow> keeps (finallyS m c)"
  by (rule keepsI) (auto simp: finallyS_def split: prod.splits sum.splits intro: R_trans keepsD)

lemma keeps_if: "(c \<Longrightarrow> keeps a) \<Longrightarrow> (\<not> c \<Longrightarrow> keeps b) \<Longrightarrow> keeps (if c then a else b)"
  by simp

lemma keeps_option: "keeps a \<Longrightarrow> (\<And>v. keeps (f v)) \<Longrightarrow> keeps (case x of None \<Rightarrow> a | Some v \<Rightarrow> f v)"
  by (cases x) simp_all

lemma keeps_sum: "(\<And>v. keeps (f v)) \<Longrightarrow> (\<And>v. keeps (g v)) \<Longrightarrow> keeps (case x of Inl v \<Rightarrow> f v | Inr v \<Rightarrow> g v)"
  by (cases x) simp_all

lemma keeps_prod: "(\<And>x y. keeps (f x y)) \<Longrightarrow> keeps (case p of (x, y) \<Rightarrow> f x y)"
  by (cases p) simp

lemma keeps_flow:
  "(\<And>res. keeps (f res)) \<Longrightarrow> (\<And>a. keeps (g a)) \<Longrightarrow> keeps (case x of Return res \<Rightarrow> f res | Proceed a \<Rightarrow> g a)"
  by (cases x) simp_all

lemma keeps_bindF: "keeps m \<Longrightarrow> (\<And>a. keeps (f a)) \<Longrightarrow> keeps (bindF m f)"
  unfolding bindF_def by (intro keeps_bind keeps_flow keeps_return)

lemmas keep_intros = keeps_bindF keeps_bind keeps_return keeps_raise keeps_lift keeps_read keeps_try keeps_finally
  keeps_if keeps_option keeps_sum keeps_prod keeps_flow

end

subsection \<open>Labelled runs and simulation\<close>

text \<open>
  A step carries the list of actions its surroundings see, empty for an internal one; a run
  carries them in order.  An implementation whose every step is a step of the specification,
  under an abstraction and an invariant, has no run the specification has not.
\<close>

inductive runs :: "('s \<Rightarrow> 'l list \<Rightarrow> 's \<Rightarrow> bool) \<Rightarrow> 's \<Rightarrow> 'l list \<Rightarrow> 's \<Rightarrow> bool" for step s where
  runs_none: "runs step s [] s"
| runs_snoc: "runs step s tr t \<Longrightarrow> step t ls u \<Longrightarrow> runs step s (tr @ ls) u"

locale forward_simulation =
  fixes concrete :: "'c \<Rightarrow> 'l list \<Rightarrow> 'c \<Rightarrow> bool"
    and abstract :: "'a \<Rightarrow> 'l list \<Rightarrow> 'a \<Rightarrow> bool"
    and abstraction :: "'c \<Rightarrow> 'a"
    and wf :: "'c \<Rightarrow> bool"
  assumes simulates: "wf c \<Longrightarrow> concrete c ls d \<Longrightarrow> abstract (abstraction c) ls (abstraction d)"
    and keeps_wf: "wf c \<Longrightarrow> concrete c ls d \<Longrightarrow> wf d"
begin

lemma runs_simulate:
  "runs concrete c tr d \<Longrightarrow> wf c \<Longrightarrow> wf d \<and> runs abstract (abstraction c) tr (abstraction d)"
  by (induction rule: runs.induct) (blast intro: runs.intros simulates keeps_wf)+

end

subsection \<open>Weakest preconditions of actions\<close>

text \<open>
  \<open>wp a Q E s\<close>: run from \<open>s\<close>, the action ends with a value and a state in \<open>Q\<close>, or with an
  exception and a state in \<open>E\<close>.  The equations compute it along the structure of the code.
\<close>

named_theorems wp_simps \<open>the weakest precondition of each construct\<close>

definition wp :: "('e, 's, 'a) action \<Rightarrow> ('a \<Rightarrow> 's \<Rightarrow> bool) \<Rightarrow> ('e \<Rightarrow> 's \<Rightarrow> bool) \<Rightarrow> 's \<Rightarrow> bool" where
  "wp a Q E s = (case a s of (Inr v, t) \<Rightarrow> Q v t | (Inl e, t) \<Rightarrow> E e t)"

lemma wp_return [wp_simps]: "wp (returnS v) Q E s = Q v s"
  by (simp add: wp_def)

lemma wp_raise [wp_simps]: "wp (raiseS e) Q E s = E e s"
  by (simp add: wp_def)

lemma wp_lift [wp_simps]: "wp (liftS r) Q E s = (case r of Inr v \<Rightarrow> Q v s | Inl e \<Rightarrow> E e s)"
  by (simp add: wp_def)

lemma wp_bind [wp_simps]: "wp (bindS m f) Q E s = wp m (\<lambda>v. wp (f v) Q E) E s"
  by (auto simp: wp_def bindS_def split: prod.split sum.split)

lemma wp_try [wp_simps]: "wp (tryS m h) Q E s = wp m Q (\<lambda>e. wp (h e) Q E) s"
  by (auto simp: wp_def tryS_def split: prod.split sum.split)

lemma wp_finally [wp_simps]:
  "wp (finallyS m c) Q E s = wp m (\<lambda>v. wp c (\<lambda>_. Q v) E) (\<lambda>e. wp c (\<lambda>_. E e) E) s"
  by (auto simp: wp_def finallyS_def split: prod.split sum.split)

lemma wp_read [wp_simps]: "wp (readS f) Q E s = Q (f s) s"
  by (simp add: wp_def readS_def)

lemma wp_update [wp_simps]: "wp (updateS f) Q E s = Q () (f s)"
  by (simp add: wp_def updateS_def)

lemma wp_part [wp_simps]:
  "wp (partS get put act) Q E s = wp act (\<lambda>v t. Q v (put t s)) (\<lambda>e t. E e (put t s)) (get s)"
  by (simp add: wp_def partS_def split: prod.split sum.split)

lemma wp_if [wp_simps]: "wp (if c then a else b) Q E s = (if c then wp a Q E s else wp b Q E s)"
  by simp

lemma wp_case_option [wp_simps]:
  "wp (case x of None \<Rightarrow> a | Some v \<Rightarrow> f v) Q E s = (case x of None \<Rightarrow> wp a Q E s | Some v \<Rightarrow> wp (f v) Q E s)"
  by (cases x) simp_all

lemma wp_case_prod [wp_simps]:
  "wp (case p of (x, y) \<Rightarrow> f x y) Q E s = (case p of (x, y) \<Rightarrow> wp (f x y) Q E s)"
  by (cases p) simp

lemma wp_mono:
  "wp a Q E s \<Longrightarrow> (\<And>v t. Q v t \<Longrightarrow> Q' v t) \<Longrightarrow> (\<And>e t. E e t \<Longrightarrow> E' e t) \<Longrightarrow> wp a Q' E' s"
  by (auto simp: wp_def split: prod.splits sum.splits)

lemma wp_conj:
  "wp a Q E s \<Longrightarrow> wp a Q' E' s \<Longrightarrow> wp a (\<lambda>v t. Q v t \<and> Q' v t) (\<lambda>e t. E e t \<and> E' e t) s"
  by (auto simp: wp_def split: prod.splits sum.splits)

lemma wpD: "wp a Q E s \<Longrightarrow> a s = (r, t) \<Longrightarrow> (case r of Inr v \<Rightarrow> Q v t | Inl e \<Rightarrow> E e t)"
  by (auto simp: wp_def split: sum.split)

lemma wpI: "(\<And>r t. a s = (r, t) \<Longrightarrow> (case r of Inr v \<Rightarrow> Q v t | Inl e \<Rightarrow> E e t)) \<Longrightarrow> wp a Q E s"
  by (auto simp: wp_def split: prod.splits sum.splits)

subsection \<open>Simulation of actions\<close>

text \<open>
  \<open>simulates ok view a b\<close>: on states that satisfy \<open>ok\<close>, the action \<open>a\<close> returns what
  \<open>b\<close> returns on the abstract state, keeps \<open>ok\<close> and ends in a state with \<open>b\<close>'s
  final abstract state.  The introduction rules follow the shape of the code.
\<close>

definition simulates ::
  "('s \<Rightarrow> bool) \<Rightarrow> ('s \<Rightarrow> 't) \<Rightarrow> ('e, 's, 'a) action \<Rightarrow> ('e, 't, 'a) action \<Rightarrow> bool" where
  "simulates ok view a b \<longleftrightarrow>
     (\<forall>s. ok s \<longrightarrow> ok (snd (a s)) \<and> b (view s) = (fst (a s), view (snd (a s))))"

named_theorems sim_intros \<open>introduction rules for \<open>simulates\<close>\<close>

lemma simulatesD:
  "simulates ok view a b \<Longrightarrow> ok s \<Longrightarrow> a s = (r, s') \<Longrightarrow> ok s' \<and> b (view s) = (r, view s')"
  unfolding simulates_def by (metis fst_conv snd_conv)

lemma simulates_return [sim_intros]: "simulates ok view (returnS v) (returnS v)"
  by (simp add: simulates_def)

lemma simulates_raise [sim_intros]: "simulates ok view (raiseS e) (raiseS e)"
  by (simp add: simulates_def)

lemma simulates_lift [sim_intros]: "simulates ok view (liftS r) (liftS r)"
  by (simp add: simulates_def)

lemma simulates_bind [sim_intros]:
  assumes "simulates ok view a b" and "\<And>v. simulates ok view (f v) (g v)"
  shows "simulates ok view (bindS a f) (bindS b g)"
proof -
  have "ok (snd (bindS a f s)) \<and>
      bindS b g (view s) = (fst (bindS a f s), view (snd (bindS a f s)))" if s: "ok s" for s
  proof (cases "a s")
    case (Pair q t)
    with simulatesD [OF assms(1) s Pair] have t: "ok t" "b (view s) = (q, view t)" by simp_all
    show ?thesis
    proof (cases q)
      case (Inl e)
      with Pair t show ?thesis by (simp add: bindS_def)
    next
      case (Inr v)
      with Pair t assms(2) [of v] show ?thesis
        by (simp add: bindS_def simulates_def)
    qed
  qed
  then show ?thesis by (simp add: simulates_def)
qed

lemma simulates_if [sim_intros]:
  "(c \<Longrightarrow> simulates ok view a b) \<Longrightarrow> (\<not> c \<Longrightarrow> simulates ok view a' b') \<Longrightarrow>
     simulates ok view (if c then a else a') (if c then b else b')"
  by simp

lemma simulates_option [sim_intros]:
  "simulates ok view a b \<Longrightarrow> (\<And>v. simulates ok view (f v) (g v)) \<Longrightarrow>
     simulates ok view (case x of None \<Rightarrow> a | Some v \<Rightarrow> f v) (case x of None \<Rightarrow> b | Some v \<Rightarrow> g v)"
  by (cases x) simp_all

subsection \<open>Lists\<close>

lemma take_append_length [simp]: "n = length xs \<Longrightarrow> take n (xs @ ys) = xs"
  by simp

lemma drop_append_length [simp]: "n = length xs \<Longrightarrow> drop n (xs @ ys) = ys"
  by simp

lemma take_drop_split: "n \<le> length xs \<Longrightarrow> xs = take n xs @ drop n xs"
  by simp

end
