(* ===== verification/Bytes.thy ===== *)
theory Bytes
  imports Prelude
begin

section \<open>Bytes: big-endian integers\<close>

text \<open>
  \<open>struct.Struct("!H")\<close>, \<open>"!I"\<close> and \<open>"!Q"\<close> of the source write an unsigned integer
  in 2, 4 or 8 bytes, most significant byte first, and raise \<open>struct.error\<close> outside
  the range.  \<open>be_bytes k v\<close> is the k-byte big-endian image of \<open>v\<close> and \<open>be_value\<close> reads
  it back; the round trips, and the bounds, are proved for every width.  The locale
  \<open>fixed_width\<close> is the contract a field codec has: its clients read a field off the
  front of a payload.
\<close>

fun be_bytes :: "nat \<Rightarrow> nat \<Rightarrow> byte list" where
  "be_bytes 0 v = []"
| "be_bytes (Suc k) v = of_nat (v div 256 ^ k) # be_bytes k v"

fun be_value :: "byte list \<Rightarrow> nat" where
  "be_value [] = 0"
| "be_value (b # bs) = unat b * 256 ^ length bs + be_value bs"

lemma length_be_bytes [simp]: "length (be_bytes k v) = k"
  by (induction k) auto

lemma unat_of_nat_byte: "unat (of_nat n :: byte) = n mod 256"
  by (simp add: unat_of_nat)

lemma unat_byte_less [simp]: "unat (b :: byte) < 256"
  using unsigned_less [of b] by simp

lemma be_value_less: "be_value bs < 256 ^ length bs"
proof (induction bs)
  case Nil
  then show ?case by simp
next
  case (Cons b bs)
  have "Suc (unat b) \<le> 256"
    using unat_byte_less [of b] by (simp only: Suc_le_eq)
  then have "Suc (unat b) * 256 ^ length bs \<le> 256 * 256 ^ length bs"
    by (rule mult_le_mono1)
  then have "be_value bs + unat b * 256 ^ length bs < 256 * 256 ^ length bs"
    using Cons.IH by (simp only: mult_Suc)
  then show ?case by (simp add: add.commute)
qed

lemma be_value_be_bytes_mod: "be_value (be_bytes k v) = v mod 256 ^ k"
proof (induction k)
  case 0
  then show ?case by simp
next
  case (Suc k)
  have "v mod 256 ^ Suc k = 256 ^ k * (v div 256 ^ k mod 256) + v mod 256 ^ k"
    by (metis mod_mult2_eq mult.commute power_Suc)
  with Suc show ?case by (simp add: unat_of_nat_byte mult.commute)
qed

lemma be_value_be_bytes: "v < 256 ^ k \<Longrightarrow> be_value (be_bytes k v) = v"
  by (simp add: be_value_be_bytes_mod)

lemma be_bytes_add_high: "be_bytes k (n * 256 ^ k + v) = be_bytes k v" for n v :: nat
proof -
  have "be_bytes j (n * 256 ^ k + v) = be_bytes j v" if "j \<le> k" for j
    using that
  proof (induction j)
    case 0
    then show ?case by simp
  next
    case (Suc j)
    then obtain d where k: "k = Suc j + d"
      by (metis le_Suc_ex)
    have "n * 256 ^ k + v = v + (n * 256 ^ d * 256) * 256 ^ j"
      by (simp add: k power_add mult_ac)
    then have "(n * 256 ^ k + v) div 256 ^ j = n * 256 ^ d * 256 + v div 256 ^ j"
      by (simp only: div_mult_self1 power_not_zero zero_neq_numeral not_False_eq_True add.commute)
    then have "(of_nat ((n * 256 ^ k + v) div 256 ^ j) :: byte) = of_nat (v div 256 ^ j)"
      by (simp add: word_unat_eq_iff unat_of_nat_byte del: of_nat_add of_nat_mult)
    with Suc show ?case by simp
  qed
  then show ?thesis by simp
qed

lemma be_bytes_be_value: "be_bytes (length bs) (be_value bs) = bs"
proof (induction bs)
  case Nil
  then show ?case by simp
next
  case (Cons b bs)
  have "(unat b * 256 ^ length bs + be_value bs) div 256 ^ length bs = unat b"
    using be_value_less [of bs] by (simp add: div_add1_eq)
  with Cons show ?case by (simp add: be_bytes_add_high)
qed

lemma be_bytes_be_value': "length bs = k \<Longrightarrow> be_bytes k (be_value bs) = bs"
  using be_bytes_be_value by blast

subsection \<open>The contract of a fixed-width field\<close>

locale fixed_width =
  fixes width :: nat
    and enc :: "'a \<Rightarrow> byte list"
    and dec :: "byte list \<Rightarrow> 'a"
    and valid :: "'a \<Rightarrow> bool"
  assumes length_enc: "valid v \<Longrightarrow> length (enc v) = width"
    and dec_enc: "valid v \<Longrightarrow> dec (enc v) = v"
    and enc_dec: "length bs = width \<Longrightarrow> enc (dec bs) = bs"
    and valid_dec: "length bs = width \<Longrightarrow> valid (dec bs)"
begin

lemma enc_inject: "valid v \<Longrightarrow> valid w \<Longrightarrow> enc v = enc w \<longleftrightarrow> v = w"
  by (metis dec_enc)

lemma read_front: "valid v \<Longrightarrow> dec (take width (enc v @ rest)) = v"
  by (simp add: length_enc dec_enc)

lemma skip_front: "valid v \<Longrightarrow> drop width (enc v @ rest) = rest"
  by (simp add: length_enc)

lemma front_unique:
  "width \<le> length bs \<Longrightarrow> bs = enc (dec (take width bs)) @ drop width bs"
  by (simp add: enc_dec)

end

subsection \<open>\<open>struct.pack\<close> and \<open>struct.unpack\<close> on Python integers\<close>

definition pack_uint :: "nat \<Rightarrow> int \<Rightarrow> byte list" where
  "pack_uint k v = be_bytes k (nat v)"

definition unpack_uint :: "byte list \<Rightarrow> int" where
  "unpack_uint bs = int (be_value bs)"

definition uint_fits :: "nat \<Rightarrow> int \<Rightarrow> bool" where
  "uint_fits k v \<longleftrightarrow> 0 \<le> v \<and> v < 256 ^ k"

lemma length_pack_uint [simp]: "length (pack_uint k v) = k"
  by (simp add: pack_uint_def)

lemma unpack_uint_bounds: "0 \<le> unpack_uint bs" "unpack_uint bs < 256 ^ length bs"
  using be_value_less [of bs] by (simp_all add: unpack_uint_def)

lemma be_bytes_numeral: "be_bytes (numeral k) v
    = of_nat (v div 256 ^ pred_numeral k) # be_bytes (pred_numeral k) v"
  by (simp add: numeral_eq_Suc)

lemmas eval_bytes = pack_uint_def unpack_uint_def be_bytes_numeral

lemma fixed_width_uint: "fixed_width k (pack_uint k) unpack_uint (uint_fits k)"
proof
  fix v bs
  show "length (pack_uint k v) = k" by simp
  show "unpack_uint (pack_uint k v) = v" if "uint_fits k v"
    using that by (simp add: pack_uint_def unpack_uint_def uint_fits_def be_value_be_bytes
        nat_less_iff)
  show "pack_uint k (unpack_uint bs) = bs" if "length bs = k"
    using that by (simp add: pack_uint_def unpack_uint_def be_bytes_be_value')
  show "uint_fits k (unpack_uint bs)" if "length bs = k"
    using that unpack_uint_bounds [of bs] by (simp add: uint_fits_def)
qed

interpretation u16: fixed_width 2 "pack_uint 2" unpack_uint "uint_fits 2"
  by (rule fixed_width_uint)

interpretation u32: fixed_width 4 "pack_uint 4" unpack_uint "uint_fits 4"
  by (rule fixed_width_uint)

interpretation u64: fixed_width 8 "pack_uint 8" unpack_uint "uint_fits 8"
  by (rule fixed_width_uint)

lemma unpack_pack_uint [simp]: "uint_fits k v \<Longrightarrow> unpack_uint (pack_uint k v) = v"
  by (rule fixed_width.dec_enc [OF fixed_width_uint])

lemma pack_unpack_uint [simp]: "length bs = k \<Longrightarrow> pack_uint k (unpack_uint bs) = bs"
  by (rule fixed_width.enc_dec [OF fixed_width_uint])

lemma uint_fits_unpack [simp]: "length bs = k \<Longrightarrow> uint_fits k (unpack_uint bs)"
  by (rule fixed_width.valid_dec [OF fixed_width_uint])

end
