(* ===== verification/Utf8.thy ===== *)
theory Utf8
  imports Bytes
begin

section \<open>Text: Python strings and strict UTF-8\<close>

text \<open>
  A Python \<open>str\<close> is the list of its code points (a \<open>nat list\<close>), so \<open>len\<close>, \<open>in\<close>
  and comparison count and compare code points as Python does; a lone surrogate is an
  element of such a list and is what makes \<open>str.encode("utf-8")\<close> raise
  \<open>UnicodeEncodeError\<close>.  \<open>utf8_encode\<close> and \<open>utf8_decode\<close> are Python's strict codec:
  shortest form only, no surrogates, nothing above \<open>0x10FFFF\<close>; \<open>None\<close> is the
  \<open>UnicodeError\<close>.  The two are exact inverses (locale \<open>text_codec\<close>).
\<close>

type_synonym pystr = "nat list"

definition lit :: "string \<Rightarrow> pystr" where
  "lit s = map of_char s"

fun dec_nat :: "nat \<Rightarrow> pystr" where
  "dec_nat n = (if n < 10 then [48 + n] else dec_nat (n div 10) @ [48 + n mod 10])"

declare dec_nat.simps [simp del]

definition dec_int :: "int \<Rightarrow> pystr" where
  "dec_int i = (if i < 0 then lit ''-'' @ dec_nat (nat (- i)) else dec_nat (nat i))"

subsection \<open>Encoding\<close>

definition is_surrogate :: "nat \<Rightarrow> bool" where
  "is_surrogate c \<longleftrightarrow> 0xD800 \<le> c \<and> c \<le> 0xDFFF"

definition utf8_char :: "nat \<Rightarrow> nat list option" where
  "utf8_char c =
    (if c < 0x80 then Some [c]
     else if c < 0x800 then Some [0xC0 + c div 64, 0x80 + c mod 64]
     else if is_surrogate c then None
     else if c < 0x10000 then
       Some [0xE0 + c div 4096, 0x80 + c div 64 mod 64, 0x80 + c mod 64]
     else if c < 0x110000 then
       Some [0xF0 + c div 262144, 0x80 + c div 4096 mod 64, 0x80 + c div 64 mod 64,
             0x80 + c mod 64]
     else None)"

fun utf8_codes :: "pystr \<Rightarrow> nat list option" where
  "utf8_codes [] = Some []"
| "utf8_codes (c # cs) =
     (case utf8_char c of None \<Rightarrow> None
      | Some xs \<Rightarrow> map_option (\<lambda>ys. xs @ ys) (utf8_codes cs))"

definition utf8_encode :: "pystr \<Rightarrow> byte list option" where
  "utf8_encode s = map_option (map of_nat) (utf8_codes s)"

subsection \<open>Decoding\<close>

definition is_cont :: "nat \<Rightarrow> bool" where
  "is_cont b \<longleftrightarrow> 0x80 \<le> b \<and> b < 0xC0"

fun utf8_next :: "nat list \<Rightarrow> (nat \<times> nat list) option" where
  "utf8_next [] = None"
| "utf8_next (b # r) =
     (if b < 0x80 then Some (b, r)
      else if 0xC2 \<le> b \<and> b \<le> 0xDF then
        (case r of
           c1 # r' \<Rightarrow> (if is_cont c1 then Some ((b - 0xC0) * 64 + (c1 - 0x80), r') else None)
         | _ \<Rightarrow> None)
      else if 0xE0 \<le> b \<and> b \<le> 0xEF then
        (case r of
           c1 # c2 # r' \<Rightarrow>
             (let c = (b - 0xE0) * 4096 + (c1 - 0x80) * 64 + (c2 - 0x80) in
              if is_cont c1 \<and> is_cont c2 \<and> 0x800 \<le> c \<and> \<not> is_surrogate c
              then Some (c, r') else None)
         | _ \<Rightarrow> None)
      else if 0xF0 \<le> b \<and> b \<le> 0xF4 then
        (case r of
           c1 # c2 # c3 # r' \<Rightarrow>
             (let c = (b - 0xF0) * 262144 + (c1 - 0x80) * 4096 + (c2 - 0x80) * 64 + (c3 - 0x80) in
              if is_cont c1 \<and> is_cont c2 \<and> is_cont c3 \<and> 0x10000 \<le> c \<and> c < 0x110000
              then Some (c, r') else None)
         | _ \<Rightarrow> None)
      else None)"

lemma utf8_next_shrinks [termination_simp]:
  "utf8_next bs = Some (c, r) \<Longrightarrow> length r < length bs"
  by (cases bs) (auto simp: Let_def split: if_splits list.splits)

function utf8_points :: "nat list \<Rightarrow> pystr option" where
  "utf8_points bs =
     (if bs = [] then Some []
      else case utf8_next bs of None \<Rightarrow> None
           | Some (c, r) \<Rightarrow> map_option ((#) c) (utf8_points r))"
  by pat_completeness auto
termination
  by (relation "measure length") (auto simp: utf8_next_shrinks)

declare utf8_points.simps [simp del]

definition utf8_decode :: "byte list \<Rightarrow> pystr option" where
  "utf8_decode bs = utf8_points (map unat bs)"

subsection \<open>The two are inverses\<close>

lemma div_mod_64: "c = (c div 64) * 64 + c mod 64" for c :: nat
  by simp

lemma div_mod_split3: "c = (c div 4096) * 4096 + (c div 64 mod 64) * 64 + c mod 64" for c :: nat
proof -
  have "c div 64 = (c div 4096) * 64 + c div 64 mod 64"
    using div_mod_64 [of "c div 64"] by (simp flip: div_mult2_eq)
  then show ?thesis using div_mod_64 [of c] by linarith
qed

lemma div_mod_split4: "c = (c div 262144) * 262144 + (c div 4096 mod 64) * 4096
     + (c div 64 mod 64) * 64 + c mod 64" for c :: nat
proof -
  have "c div 4096 = (c div 262144) * 64 + c div 4096 mod 64"
    using div_mod_64 [of "c div 4096"] by (simp flip: div_mult2_eq)
  then show ?thesis using div_mod_split3 [of c] by linarith
qed

text \<open>Reading one code point back, case by case of its encoded width.\<close>

lemma utf8_next2:
  assumes "2 \<le> a" "a \<le> 31" "b < 64"
  shows "utf8_next ((0xC0 + a) # (0x80 + b) # r) = Some (a * 64 + b, r)"
  using assms by (simp add: is_cont_def)

lemma utf8_next3:
  assumes "a \<le> 15" "b < 64" "d < 64" and c: "c = a * 4096 + b * 64 + d"
    and "0x800 \<le> c" "\<not> is_surrogate c"
  shows "utf8_next ((0xE0 + a) # (0x80 + b) # (0x80 + d) # r) = Some (c, r)"
  using assms by (simp add: is_cont_def Let_def)

lemma utf8_next4:
  assumes "a \<le> 4" "b < 64" "d < 64" "e < 64"
    and c: "c = a * 262144 + b * 4096 + d * 64 + e"
    and "0x10000 \<le> c" "c < 0x110000"
  shows "utf8_next ((0xF0 + a) # (0x80 + b) # (0x80 + d) # (0x80 + e) # r) = Some (c, r)"
  using assms by (simp add: is_cont_def Let_def)

lemma utf8_next_char:
  assumes "utf8_char c = Some xs"
  shows "utf8_next (xs @ r) = Some (c, r)"
proof -
  consider (one) "c < 0x80" | (two) "0x80 \<le> c" "c < 0x800"
    | (three) "0x800 \<le> c" "c < 0x10000" "\<not> is_surrogate c"
    | (four) "0x10000 \<le> c" "c < 0x110000" "\<not> is_surrogate c"
    using assms unfolding utf8_char_def by (metis linorder_not_less option.distinct(1))
  then show ?thesis
  proof cases
    case one
    with assms show ?thesis by (auto simp: utf8_char_def)
  next
    case two
    then have xs: "xs = [0xC0 + c div 64, 0x80 + c mod 64]"
      using assms by (simp add: utf8_char_def)
    have "2 \<le> c div 64" "c div 64 \<le> 31" using two by linarith+
    then have "utf8_next (xs @ r) = Some (c div 64 * 64 + c mod 64, r)"
      unfolding xs append_Cons append_Nil by (rule utf8_next2) simp
    then show ?thesis using div_mod_64 [of c] by (simp only:)
  next
    case three
    then have xs: "xs = [0xE0 + c div 4096, 0x80 + c div 64 mod 64, 0x80 + c mod 64]"
      using assms by (simp add: utf8_char_def)
    have "c div 4096 \<le> 15" using three(2) by linarith
    then show ?thesis unfolding xs append_Cons append_Nil
      by (rule utf8_next3) (use three div_mod_split3 [of c] in simp_all)
  next
    case four
    then have xs: "xs = [0xF0 + c div 262144, 0x80 + c div 4096 mod 64,
        0x80 + c div 64 mod 64, 0x80 + c mod 64]"
      using assms by (simp add: utf8_char_def)
    have "c div 262144 \<le> 4" using four(2) by linarith
    then show ?thesis unfolding xs append_Cons append_Nil
      by (rule utf8_next4) (use four div_mod_split4 [of c] in simp_all)
  qed
qed

lemma utf8_char_nonempty: "utf8_char c = Some xs \<Longrightarrow> xs \<noteq> []"
  by (auto simp: utf8_char_def split: if_splits)

lemma utf8_points_codes: "utf8_codes s = Some xs \<Longrightarrow> utf8_points xs = Some s"
proof (induction s arbitrary: xs)
  case Nil
  then show ?case by (simp add: utf8_points.simps [of "[]"])
next
  case (Cons c s)
  then obtain cs ys where c: "utf8_char c = Some cs" and s: "utf8_codes s = Some ys"
    and xs: "xs = cs @ ys"
    by (auto split: option.splits)
  have "utf8_next xs = Some (c, ys)" using c by (simp add: xs utf8_next_char)
  moreover have "xs \<noteq> []" using c by (simp add: xs utf8_char_nonempty)
  ultimately show ?case using Cons.IH [OF s] by (simp add: utf8_points.simps [of xs])
qed

lemma div_mod_place: "z < 64 \<Longrightarrow> (n * 64 + z) div 64 = n" "z < 64 \<Longrightarrow> (n * 64 + z) mod 64 = z"
  for n z :: nat
  by simp_all

lemma is_contE:
  assumes "is_cont c"
  obtains y where "c = 0x80 + y" "y < 64"
  using assms by (fastforce simp: is_cont_def dest: le_Suc_ex)

lemma utf8_char_next:
  assumes "utf8_next bs = Some (c, r)"
  shows "\<exists>xs. utf8_char c = Some xs \<and> bs = xs @ r"
proof (cases bs)
  case Nil
  with assms show ?thesis by simp
next
  case (Cons b t)
  consider (one) "b < 0x80" | (two) "0xC2 \<le> b" "b \<le> 0xDF"
    | (three) "0xE0 \<le> b" "b \<le> 0xEF" | (four) "0xF0 \<le> b" "b \<le> 0xF4"
    using assms unfolding Cons utf8_next.simps by (metis option.distinct(1))
  then show ?thesis
  proof cases
    case one
    with assms show ?thesis by (simp add: Cons utf8_char_def)
  next
    case two
    with assms obtain c1 where t: "t = c1 # r" "is_cont c1"
      and c: "c = (b - 0xC0) * 64 + (c1 - 0x80)"
      by (auto simp: Cons split: list.splits if_splits)
    obtain x y where x: "b = 0xC0 + x" "2 \<le> x" "x < 32" and y: "c1 = 0x80 + y" "y < 64"
      using t(2) two by (auto simp: is_cont_def nat_le_iff_add)
    have "c div 64 = b - 0xC0" "c mod 64 = c1 - 0x80" "0x80 \<le> c" "c < 0x800"
      using x y by (auto simp: c)
    with two t show ?thesis by (simp add: Cons utf8_char_def is_cont_def)
  next
    case three
    with assms obtain c1 c2 where t: "t = c1 # c2 # r" "is_cont c1" "is_cont c2"
      and c: "c = (b - 0xE0) * 4096 + (c1 - 0x80) * 64 + (c2 - 0x80)"
      and ok: "0x800 \<le> c" "\<not> is_surrogate c"
      by (auto simp: Cons Let_def split: list.splits if_splits)
    obtain y z where y: "c1 = 0x80 + y" "y < 64" and z: "c2 = 0x80 + z" "z < 64"
      using t(2,3) by (metis is_contE)
    obtain x where x: "b = 0xE0 + x" "x \<le> 15"
      using three by (fastforce dest: le_Suc_ex)
    have c': "c = (x * 64 + y) * 64 + z" by (simp add: c x y z)
    have d: "c div 64 = x * 64 + y" "c mod 64 = z" unfolding c' using z by (simp_all only: div_mod_place)
    have "c div 4096 = c div 64 div 64" by (simp flip: div_mult2_eq)
    then have "c div 4096 = x" "c div 64 mod 64 = y" "c < 0x10000"
      unfolding d using x y z by (simp_all add: div_mod_place c')
    with three t d ok x y z show ?thesis by (simp add: Cons utf8_char_def)
  next
    case four
    with assms obtain c1 c2 c3 where t: "t = c1 # c2 # c3 # r"
        "is_cont c1" "is_cont c2" "is_cont c3"
      and c: "c = (b - 0xF0) * 262144 + (c1 - 0x80) * 4096 + (c2 - 0x80) * 64 + (c3 - 0x80)"
      and ok: "0x10000 \<le> c" "c < 0x110000"
      by (auto simp: Cons Let_def split: list.splits if_splits)
    obtain x y z where x: "c1 = 0x80 + x" "x < 64" and y: "c2 = 0x80 + y" "y < 64"
      and z: "c3 = 0x80 + z" "z < 64"
      using t(2-4) by (metis is_contE)
    obtain w where w: "b = 0xF0 + w" "w \<le> 4"
      using four by (fastforce dest: le_Suc_ex)
    have c': "c = ((w * 64 + x) * 64 + y) * 64 + z" by (simp add: c w x y z)
    have d: "c div 64 = (w * 64 + x) * 64 + y" "c mod 64 = z"
      unfolding c' using z by (simp_all only: div_mod_place)
    have "c div 4096 = c div 64 div 64" by (simp flip: div_mult2_eq)
    then have e: "c div 4096 = w * 64 + x" "c div 64 mod 64 = y"
      unfolding d using y by (simp_all only: div_mod_place)
    have "c div 262144 = c div 4096 div 64" by (simp flip: div_mult2_eq)
    then have "c div 262144 = w" "c div 4096 mod 64 = x"
      unfolding e using x by (simp_all only: div_mod_place)
    with four t d e ok w x y z show ?thesis
      by (simp add: Cons utf8_char_def is_surrogate_def)
  qed
qed

lemma utf8_codes_points: "utf8_points bs = Some s \<Longrightarrow> utf8_codes s = Some bs"
proof (induction bs arbitrary: s rule: utf8_points.induct)
  case (1 bs)
  show ?case
  proof (cases "bs = []")
    case True
    with "1.prems" show ?thesis by (simp add: utf8_points.simps [of "[]"])
  next
    case False
    with "1.prems" obtain c r s' where n: "utf8_next bs = Some (c, r)"
      and s': "utf8_points r = Some s'" and s: "s = c # s'"
      by (auto simp: utf8_points.simps [of bs] split: option.splits)
    obtain xs where "utf8_char c = Some xs" "bs = xs @ r"
      using utf8_char_next [OF n] by blast
    with "1.IH" [OF False n refl s'] s show ?thesis by simp
  qed
qed

lemma utf8_char_bytes: "utf8_char c = Some xs \<Longrightarrow> x \<in> set xs \<Longrightarrow> x < 256"
proof -
  have m: "n mod 64 < 64" for n :: nat by simp
  assume "utf8_char c = Some xs" "x \<in> set xs"
  then show "x < 256"
    using m [of c] m [of "c div 64"] m [of "c div 4096"]
    by (auto simp: utf8_char_def split: if_splits)
qed

lemma utf8_codes_bytes: "utf8_codes s = Some xs \<Longrightarrow> x \<in> set xs \<Longrightarrow> x < 256"
  by (induction s arbitrary: xs) (auto split: option.splits dest: utf8_char_bytes)

lemma map_unat_of_nat: "(\<And>x. x \<in> set xs \<Longrightarrow> x < 256) \<Longrightarrow> map unat (map (of_nat :: nat \<Rightarrow> byte) xs) = xs"
  by (induction xs) (auto simp: unat_of_nat_byte)

lemma map_of_nat_unat: "map of_nat (map unat bs) = (bs :: byte list)"
  by (induction bs) auto

subsection \<open>The contract of a text codec\<close>

locale text_codec =
  fixes encode :: "pystr \<Rightarrow> byte list option"
    and decode :: "byte list \<Rightarrow> pystr option"
  assumes decode_encode: "encode s = Some bs \<Longrightarrow> decode bs = Some s"
    and encode_decode: "decode bs = Some s \<Longrightarrow> encode s = Some bs"
begin

lemma encode_iff_decode: "encode s = Some bs \<longleftrightarrow> decode bs = Some s"
  using decode_encode encode_decode by blast

lemma encode_inject: "encode s = Some bs \<Longrightarrow> encode t = Some bs \<Longrightarrow> s = t"
  by (metis decode_encode option.inject)

lemma decode_inject: "decode bs = Some s \<Longrightarrow> decode cs = Some s \<Longrightarrow> bs = cs"
  by (metis encode_decode option.inject)

end

interpretation utf8: text_codec utf8_encode utf8_decode
proof
  fix s bs
  assume "utf8_encode s = Some bs"
  then obtain xs where xs: "utf8_codes s = Some xs" "bs = map of_nat xs"
    by (auto simp: utf8_encode_def)
  then have "map unat bs = xs"
    using map_unat_of_nat [of xs] utf8_codes_bytes by blast
  with xs(1) show "utf8_decode bs = Some s"
    by (simp add: utf8_decode_def utf8_points_codes)
next
  fix bs s
  assume "utf8_decode bs = Some s"
  then have "utf8_codes s = Some (map unat bs)"
    by (simp add: utf8_decode_def utf8_codes_points)
  then show "utf8_encode s = Some bs"
    by (simp add: utf8_encode_def map_of_nat_unat del: map_map)
qed

subsection \<open>ASCII text is its own encoding\<close>

lemma utf8_codes_ascii: "(\<And>c. c \<in> set s \<Longrightarrow> c < 0x80) \<Longrightarrow> utf8_codes s = Some s"
  by (induction s) (auto simp: utf8_char_def)

lemma utf8_encode_ascii:
  "(\<And>c. c \<in> set s \<Longrightarrow> c < 0x80) \<Longrightarrow> utf8_encode s = Some (map of_nat s)"
  by (simp add: utf8_encode_def utf8_codes_ascii)

lemma utf8_encode_Nil [simp]: "utf8_encode [] = Some []"
  by (simp add: utf8_encode_def)

lemma utf8_encode_eq_Nil [simp]: "utf8_encode s = Some [] \<longleftrightarrow> s = []"
  using utf8.encode_inject [of s "[]" "[]"] by auto

subsection \<open>\<open>repr\<close> of a string\<close>

text \<open>
  Python's \<open>repr\<close>: the quote is \<open>'\<close> unless only \<open>"\<close> is free; the quote, the backslash and
  ASCII control characters are escaped.  (Characters above ASCII are kept; Python escapes the
  non-printable ones among them.)
\<close>

definition repr_hex :: "nat \<Rightarrow> nat" where
  "repr_hex d = (if d < 10 then 48 + d else 87 + d)"

definition repr_char :: "nat \<Rightarrow> nat \<Rightarrow> pystr" where
  "repr_char quote c =
     (if c = quote \<or> c = 92 then [92, c]
      else if c = 9 then [92, 116] else if c = 10 then [92, 110] else if c = 13 then [92, 114]
      else if c < 32 \<or> c = 127 then [92, 120, repr_hex (c div 16), repr_hex (c mod 16)]
      else [c])"

definition py_repr :: "pystr \<Rightarrow> pystr" where
  "py_repr s =
     (let quote = if 39 \<in> set s \<and> 34 \<notin> set s then 34 else 39 in
      quote # concat (map (repr_char quote) s) @ [quote])"

end
