(* ===== verification/Protocol.thy ===== *)
theory Protocol
  imports Utf8
begin

section \<open>Protocol constants, opcodes, error codes, exceptions, frames\<close>

text \<open>
  \<open>src/hcmus_socket/protocol.py\<close>.  \<open>Opcode\<close> and \<open>ErrorCode\<close> are \<open>IntEnum\<close>s: the
  datatypes \<open>opcode\<close> and \<open>error_code\<close> with their wire values; calling the class on
  an integer (\<open>Opcode(raw)\<close>) is \<open>opcode_of\<close>, \<open>None\<close> standing for the \<open>ValueError\<close>.
  \<open>exc\<close> collects the exceptions the modelled code raises or catches, \<open>ProtocolError\<close>
  with its four attributes.  \<open>Frame\<close> is the dataclass constructor with the checks of
  \<open>__post_init__\<close>.
\<close>

subsection \<open>Constants\<close>

definition MAGIC :: int where "MAGIC = 0x48434D55"
definition VERSION :: int where "VERSION = 2"
definition USER_ID :: int where "USER_ID = 0"
definition MIN_USER_ID :: int where "MIN_USER_ID = 1"
definition MAX_USER_ID :: int where "MAX_USER_ID = 2 ^ 16 - 1"
definition MAX_USERNAME_BYTES :: int where "MAX_USERNAME_BYTES = 32"
definition PREFACE_SIZE_BYTES :: int where "PREFACE_SIZE_BYTES = 4 + 2 + 2"
definition LENGTH_SIZE_BYTES :: int where "LENGTH_SIZE_BYTES = 4"
definition FRAME_BODY_HEADER_SIZE_BYTES :: int where "FRAME_BODY_HEADER_SIZE_BYTES = 2 + 2"
definition MAX_PAYLOAD_BYTES :: int where "MAX_PAYLOAD_BYTES = 1024 * 1024"
definition MAX_FILENAME_BYTES :: int where "MAX_FILENAME_BYTES = 255"
definition SHA256_DIGEST_SIZE_BYTES :: int where "SHA256_DIGEST_SIZE_BYTES = 32"
definition MIN_CHUNK_SIZE_BYTES :: int where "MIN_CHUNK_SIZE_BYTES = 4 * 1024"
definition CHUNK_SIZE_BYTES :: int where "CHUNK_SIZE_BYTES = 32 * 1024"
definition MAX_CHUNK_SIZE_BYTES :: int where "MAX_CHUNK_SIZE_BYTES = 64 * 1024"
definition CHUNK_OFFSET_SIZE_BYTES :: int where "CHUNK_OFFSET_SIZE_BYTES = 8"

lemmas protocol_constants =
  MAGIC_def VERSION_def USER_ID_def MIN_USER_ID_def MAX_USER_ID_def MAX_USERNAME_BYTES_def
  PREFACE_SIZE_BYTES_def LENGTH_SIZE_BYTES_def FRAME_BODY_HEADER_SIZE_BYTES_def
  MAX_PAYLOAD_BYTES_def MAX_FILENAME_BYTES_def SHA256_DIGEST_SIZE_BYTES_def
  MIN_CHUNK_SIZE_BYTES_def CHUNK_SIZE_BYTES_def MAX_CHUNK_SIZE_BYTES_def
  CHUNK_OFFSET_SIZE_BYTES_def

subsection \<open>\<open>Opcode\<close>\<close>

datatype opcode =
    LOGIN | DISCONNECT
  | FILE_LIST | FILE_LIST_RESP | FILE_UPLOAD | FILE_DOWNLOAD | FILE_CHUNK | FILE_DELETE
  | FILE_INFO | FILE_CHECKSUM
  | ACK | ERROR

fun opcode_value :: "opcode \<Rightarrow> int" where
  "opcode_value LOGIN = 0x0001"
| "opcode_value DISCONNECT = 0x0002"
| "opcode_value FILE_LIST = 0x0010"
| "opcode_value FILE_LIST_RESP = 0x0011"
| "opcode_value FILE_UPLOAD = 0x0012"
| "opcode_value FILE_DOWNLOAD = 0x0013"
| "opcode_value FILE_CHUNK = 0x0014"
| "opcode_value FILE_DELETE = 0x0015"
| "opcode_value FILE_INFO = 0x0016"
| "opcode_value FILE_CHECKSUM = 0x0017"
| "opcode_value ACK = 0x0020"
| "opcode_value ERROR = 0x00FF"

definition all_opcodes :: "opcode list" where
  "all_opcodes = [LOGIN, DISCONNECT, FILE_LIST, FILE_LIST_RESP, FILE_UPLOAD, FILE_DOWNLOAD,
     FILE_CHUNK, FILE_DELETE, FILE_INFO, FILE_CHECKSUM, ACK, ERROR]"

definition opcode_of :: "int \<Rightarrow> opcode option" where
  "opcode_of raw = find (\<lambda>x. opcode_value x = raw) all_opcodes"

fun opcode_name :: "opcode \<Rightarrow> pystr" where
  "opcode_name LOGIN = lit ''LOGIN''"
| "opcode_name DISCONNECT = lit ''DISCONNECT''"
| "opcode_name FILE_LIST = lit ''FILE_LIST''"
| "opcode_name FILE_LIST_RESP = lit ''FILE_LIST_RESP''"
| "opcode_name FILE_UPLOAD = lit ''FILE_UPLOAD''"
| "opcode_name FILE_DOWNLOAD = lit ''FILE_DOWNLOAD''"
| "opcode_name FILE_CHUNK = lit ''FILE_CHUNK''"
| "opcode_name FILE_DELETE = lit ''FILE_DELETE''"
| "opcode_name FILE_INFO = lit ''FILE_INFO''"
| "opcode_name FILE_CHECKSUM = lit ''FILE_CHECKSUM''"
| "opcode_name ACK = lit ''ACK''"
| "opcode_name ERROR = lit ''ERROR''"

subsection \<open>\<open>ErrorCode\<close>\<close>

datatype error_code =
    INVALID_FRAME | UNSUPPORTED_OPCODE | INVALID_PAYLOAD | INVALID_STATE | PAYLOAD_TOO_LARGE
  | INVALID_USER_ID | AUTHENTICATION_REQUIRED | INVALID_USERNAME | USERNAME_IN_USE | SERVER_BUSY
  | FILE_NOT_FOUND | FILE_EXISTS | INVALID_FILENAME | ACCESS_DENIED | FILE_IO_ERROR
  | SIZE_MISMATCH | CHECKSUM_MISMATCH | OFFSET_MISMATCH | TRANSFER_IN_PROGRESS | LIST_TOO_LARGE
  | RESUME_METADATA_MISMATCH
  | INTERNAL_ERROR

fun error_value :: "error_code \<Rightarrow> int" where
  "error_value INVALID_FRAME = 0x0001"
| "error_value UNSUPPORTED_OPCODE = 0x0002"
| "error_value INVALID_PAYLOAD = 0x0003"
| "error_value INVALID_STATE = 0x0004"
| "error_value PAYLOAD_TOO_LARGE = 0x0005"
| "error_value INVALID_USER_ID = 0x0006"
| "error_value AUTHENTICATION_REQUIRED = 0x0007"
| "error_value INVALID_USERNAME = 0x0008"
| "error_value USERNAME_IN_USE = 0x0009"
| "error_value SERVER_BUSY = 0x000A"
| "error_value FILE_NOT_FOUND = 0x0010"
| "error_value FILE_EXISTS = 0x0011"
| "error_value INVALID_FILENAME = 0x0012"
| "error_value ACCESS_DENIED = 0x0013"
| "error_value FILE_IO_ERROR = 0x0014"
| "error_value SIZE_MISMATCH = 0x0015"
| "error_value CHECKSUM_MISMATCH = 0x0016"
| "error_value OFFSET_MISMATCH = 0x0017"
| "error_value TRANSFER_IN_PROGRESS = 0x0018"
| "error_value LIST_TOO_LARGE = 0x0019"
| "error_value RESUME_METADATA_MISMATCH = 0x001A"
| "error_value INTERNAL_ERROR = 0x00FF"

definition all_error_codes :: "error_code list" where
  "all_error_codes = [INVALID_FRAME, UNSUPPORTED_OPCODE, INVALID_PAYLOAD, INVALID_STATE,
     PAYLOAD_TOO_LARGE, INVALID_USER_ID, AUTHENTICATION_REQUIRED, INVALID_USERNAME,
     USERNAME_IN_USE, SERVER_BUSY, FILE_NOT_FOUND, FILE_EXISTS, INVALID_FILENAME,
     ACCESS_DENIED, FILE_IO_ERROR, SIZE_MISMATCH, CHECKSUM_MISMATCH, OFFSET_MISMATCH,
     TRANSFER_IN_PROGRESS, LIST_TOO_LARGE, RESUME_METADATA_MISMATCH, INTERNAL_ERROR]"

definition error_of :: "int \<Rightarrow> error_code option" where
  "error_of raw = find (\<lambda>x. error_value x = raw) all_error_codes"

subsection \<open>The enumerations are injective and their lookups exact\<close>

locale int_enum =
  fixes val :: "'e \<Rightarrow> int"
    and members :: "'e list"
  assumes val_inject: "val x = val y \<Longrightarrow> x = y"
    and all_members: "x \<in> set members"
    and val_bounds: "0 \<le> val x \<and> val x < 256 ^ 2"
begin

lemma find_val: "find (\<lambda>x. val x = raw) members = Some y \<longleftrightarrow> val y = raw"
proof
  assume "find (\<lambda>x. val x = raw) members = Some y"
  then show "val y = raw" by (auto simp: find_Some_iff)
next
  assume y: "val y = raw"
  have "find (\<lambda>x. val x = raw) members \<noteq> None"
    using y all_members [of y] by (auto simp: find_None_iff)
  then obtain z where z: "find (\<lambda>x. val x = raw) members = Some z" by blast
  then have "val z = raw" by (auto simp: find_Some_iff)
  with y val_inject z show "find (\<lambda>x. val x = raw) members = Some y" by auto
qed

lemma val_fits: "uint_fits 2 (val x)"
  using val_bounds by (simp add: uint_fits_def)

end

interpretation opcode_enum: int_enum opcode_value all_opcodes
proof
  fix x y :: opcode
  show "x = y" if "opcode_value x = opcode_value y"
    using that by (cases x; cases y; simp)
  show "x \<in> set all_opcodes" by (cases x) (simp_all add: all_opcodes_def)
  show "0 \<le> opcode_value x \<and> opcode_value x < 256 ^ 2" by (cases x) simp_all
qed

interpretation error_enum: int_enum error_value all_error_codes
proof
  fix x y :: error_code
  show "x = y" if "error_value x = error_value y"
    using that by (cases x; cases y; simp)
  show "x \<in> set all_error_codes" by (cases x) (simp_all add: all_error_codes_def)
  show "0 \<le> error_value x \<and> error_value x < 256 ^ 2" by (cases x) simp_all
qed

lemma opcode_of_iff: "opcode_of raw = Some x \<longleftrightarrow> opcode_value x = raw"
  by (simp add: opcode_of_def opcode_enum.find_val)

lemma opcode_of_value [simp]: "opcode_of (opcode_value x) = Some x"
  by (simp add: opcode_of_iff)

lemma error_of_iff: "error_of raw = Some x \<longleftrightarrow> error_value x = raw"
  by (simp add: error_of_def error_enum.find_val)

lemma error_of_value [simp]: "error_of (error_value x) = Some x"
  by (simp add: error_of_iff)

text \<open>An \<open>IntEnum\<close> compares by value.\<close>

instantiation opcode :: linorder
begin

definition less_eq_opcode :: "opcode \<Rightarrow> opcode \<Rightarrow> bool" where
  "less_eq_opcode x y \<longleftrightarrow> opcode_value x \<le> opcode_value y"

definition less_opcode :: "opcode \<Rightarrow> opcode \<Rightarrow> bool" where
  "less_opcode x y \<longleftrightarrow> opcode_value x < opcode_value y"

instance
  by standard
    (auto simp: less_eq_opcode_def less_opcode_def intro: opcode_enum.val_inject)

end

subsection \<open>Exceptions\<close>

datatype exc =
    ProtocolError error_code pystr "int option" bool
      \<comment> \<open>code, message, raw_opcode, stream_synchronized\<close>
  | PeerDisconnected pystr
  | FatalFramingError pystr
  | SessionError pystr
  | AuthenticationError error_code pystr
  | ConnectionError pystr
  | TimeoutError pystr
  | PermissionError pystr
  | FileNotFoundError pystr
  | FileExistsError pystr
  | OSError pystr
  | ValueError pystr
  | TypeError pystr
  | RuntimeError pystr
  | AttributeError pystr
  | StructError pystr
  | UnknownSessionError pystr
  | SessionAlreadyAuthenticatedError pystr
  | UsernameInUseError pystr
  | UserIdCapacityError pystr
  | ConfigError pystr
  | CommandSyntaxError pystr

abbreviation protocol_error :: "error_code \<Rightarrow> pystr \<Rightarrow> exc" where
  "protocol_error code text \<equiv> ProtocolError code text None False"

fun is_protocol_error :: "exc \<Rightarrow> bool" where
  "is_protocol_error (ProtocolError _ _ _ _) = True"
| "is_protocol_error _ = False"

text \<open>\<open>except ProtocolError as error\<close>: the handler sees the code and the message.\<close>

fun protocol_parts :: "exc \<Rightarrow> (error_code \<times> pystr) option" where
  "protocol_parts (ProtocolError code text _ _) = Some (code, text)"
| "protocol_parts _ = None"

definition except_protocol ::
  "exc + 'a \<Rightarrow> (error_code \<Rightarrow> pystr \<Rightarrow> (exc, 's, 'b) action) \<Rightarrow> ('a \<Rightarrow> (exc, 's, 'b) action) \<Rightarrow>
     (exc, 's, 'b) action" where
  "except_protocol r handler continue =
     (case r of
        Inr a \<Rightarrow> continue a
      | Inl e \<Rightarrow>
          (case protocol_parts e of
             None \<Rightarrow> raiseS e
           | Some (code, text) \<Rightarrow> handler code text))"

lemma except_protocol_Inr [state_simps]:
  "except_protocol r h k s = (Inr x, t) \<longleftrightarrow>
     (\<exists>a. r = Inr a \<and> k a s = (Inr x, t))
     \<or> (\<exists>e code message. r = Inl e \<and> protocol_parts e = Some (code, message) \<and> h code message s = (Inr x, t))"
  by (cases r) (auto simp: except_protocol_def split: option.split)

text \<open>The class hierarchy: which \<open>except\<close> clauses catch what.\<close>

fun is_connection_error :: "exc \<Rightarrow> bool" where
  "is_connection_error (ConnectionError _) = True"
| "is_connection_error (PeerDisconnected _) = True"
| "is_connection_error (FatalFramingError _) = True"
| "is_connection_error (SessionError _) = True"
| "is_connection_error (AuthenticationError _ _) = True"
| "is_connection_error _ = False"

fun is_timeout_error :: "exc \<Rightarrow> bool" where
  "is_timeout_error (TimeoutError _) = True"
| "is_timeout_error _ = False"

fun is_os_error :: "exc \<Rightarrow> bool" where
  "is_os_error (TimeoutError _) = True"
| "is_os_error (PermissionError _) = True"
| "is_os_error (FileNotFoundError _) = True"
| "is_os_error (FileExistsError _) = True"
| "is_os_error (OSError _) = True"
| "is_os_error e = is_connection_error e"

fun is_permission_error :: "exc \<Rightarrow> bool" where
  "is_permission_error (PermissionError _) = True"
| "is_permission_error _ = False"

fun is_file_exists_error :: "exc \<Rightarrow> bool" where
  "is_file_exists_error (FileExistsError _) = True"
| "is_file_exists_error _ = False"

fun exc_text :: "exc \<Rightarrow> pystr" where
  "exc_text (ProtocolError _ t _ _) = t"
| "exc_text (PeerDisconnected t) = t"
| "exc_text (FatalFramingError t) = t"
| "exc_text (SessionError t) = t"
| "exc_text (AuthenticationError _ t) = t"
| "exc_text (ConnectionError t) = t"
| "exc_text (TimeoutError t) = t"
| "exc_text (PermissionError t) = t"
| "exc_text (FileNotFoundError t) = t"
| "exc_text (FileExistsError t) = t"
| "exc_text (OSError t) = t"
| "exc_text (ValueError t) = t"
| "exc_text (TypeError t) = t"
| "exc_text (RuntimeError t) = t"
| "exc_text (AttributeError t) = t"
| "exc_text (StructError t) = t"
| "exc_text (UnknownSessionError t) = t"
| "exc_text (SessionAlreadyAuthenticatedError t) = t"
| "exc_text (UsernameInUseError t) = t"
| "exc_text (UserIdCapacityError t) = t"
| "exc_text (ConfigError t) = t"
| "exc_text (CommandSyntaxError t) = t"

subsection \<open>\<open>Frame\<close>\<close>

record frame =
  fr_opcode :: opcode
  fr_payload :: "byte list"
  fr_user_id :: int

definition make_frame_object :: "opcode \<Rightarrow> byte list \<Rightarrow> int \<Rightarrow> int \<Rightarrow> exc + frame" where
  "make_frame_object op payload user_id max_payload_bytes =
    bindE (guardE (0 \<le> user_id \<and> user_id \<le> MAX_USER_ID)
      (protocol_error INVALID_USER_ID
        (lit ''USER_ID must be an integer from 0 to '' @ dec_int MAX_USER_ID))) (\<lambda>_.
    bindE (guardE (int (length payload) \<le> max_payload_bytes)
      (protocol_error PAYLOAD_TOO_LARGE
        (lit ''Payload contains '' @ dec_nat (length payload) @ lit '' bytes; maximum is ''
          @ dec_int max_payload_bytes))) (\<lambda>_.
    Inr \<lparr>fr_opcode = op, fr_payload = payload, fr_user_id = user_id\<rparr>))"

text \<open>What the constructor guarantees of every frame object.\<close>

definition wf_frame :: "int \<Rightarrow> frame \<Rightarrow> bool" where
  "wf_frame max_payload_bytes fr \<longleftrightarrow>
     0 \<le> fr_user_id fr \<and> fr_user_id fr \<le> MAX_USER_ID
     \<and> int (length (fr_payload fr)) \<le> max_payload_bytes"

lemma make_frame_object_Inr:
  "make_frame_object op payload user_id maximum = Inr fr \<longleftrightarrow>
     fr = \<lparr>fr_opcode = op, fr_payload = payload, fr_user_id = user_id\<rparr> \<and> wf_frame maximum fr"
  by (auto simp: make_frame_object_def result_simps wf_frame_def)

lemma make_frame_object_Inl:
  "make_frame_object op payload user_id maximum = Inl e \<Longrightarrow> \<exists>c t. e = protocol_error c t"
  by (auto simp: make_frame_object_def result_simps)

lemma wf_frame_user_id: "wf_frame maximum fr \<Longrightarrow> uint_fits 2 (fr_user_id fr)"
  by (simp add: wf_frame_def uint_fits_def MAX_USER_ID_def)

end
