(* ===== verification/Framing.thy ===== *)
theory Framing
  imports Protocol
begin

section \<open>TCP framing: exact reads, complete writes, preface and frames\<close>

text \<open>
  \<open>src/hcmus_socket/framing.py\<close>.  A socket is what the peer has delivered, as the
  sequence of pieces \<open>recv\<close> will meet (\<open>Segment\<close>, or \<open>RecvFault\<close> where \<open>recv\<close>
  raises), the bytes written so far, and how much each coming \<open>send\<close> call accepts;
  the end of \<open>inbound\<close> is the peer's orderly close, where \<open>recv\<close> returns \<open>b""\<close>.
  Nothing is assumed about how the byte stream is cut into segments: the refinement to
  \<open>read_exact\<close> and \<open>parse_frame\<close>, which see only the concatenated bytes, says that the
  cut does not matter.
\<close>

subsection \<open>The socket\<close>

datatype sock_fault = ConnectionLost pystr | TimedOut pystr | SocketError pystr

fun sock_fault_exc :: "sock_fault \<Rightarrow> exc" where
  "sock_fault_exc (ConnectionLost t) = ConnectionError t"
| "sock_fault_exc (TimedOut t) = TimeoutError t"
| "sock_fault_exc (SocketError t) = OSError t"

datatype arrival = Segment "byte list" | RecvFault sock_fault

datatype send_reply = Accepts nat | SendFault sock_fault

record sock =
  inbound :: "arrival list"
  outbound :: "byte list"
  send_plan :: "send_reply list"

definition sock_recv :: "nat \<Rightarrow> (exc, sock, byte list) action" where
  "sock_recv n s =
     (case inbound s of
        [] \<Rightarrow> (Inr [], s)
      | RecvFault e # later \<Rightarrow> (Inl (sock_fault_exc e), s\<lparr>inbound := later\<rparr>)
      | Segment bs # later \<Rightarrow>
          (Inr (take n bs),
           s\<lparr>inbound := (if drop n bs = [] then later else Segment (drop n bs) # later)\<rparr>))"

definition sock_send :: "byte list \<Rightarrow> (exc, sock, nat) action" where
  "sock_send view s =
     (case send_plan s of
        [] \<Rightarrow> (Inr (length view), s\<lparr>outbound := outbound s @ view\<rparr>)
      | Accepts n # later \<Rightarrow>
          (Inr (length (take n view)), s\<lparr>outbound := outbound s @ take n view, send_plan := later\<rparr>)
      | SendFault e # later \<Rightarrow> (Inl (sock_fault_exc e), s\<lparr>send_plan := later\<rparr>))"

subsection \<open>\<open>send_all\<close> and \<open>recv_exact\<close>\<close>

function send_loop :: "byte list \<Rightarrow> nat \<Rightarrow> (exc, sock, unit) action" where
  "send_loop view bytes_sent s =
     (if bytes_sent < length view then
        (case sock_send (drop bytes_sent view) s of
           (Inl e, s') \<Rightarrow> (Inl e, s')
         | (Inr sent, s') \<Rightarrow>
             if sent = 0 then (Inl (ConnectionError (lit ''peer closed while sending data'')), s')
             else send_loop view (bytes_sent + sent) s')
      else (Inr (), s))"
  by pat_completeness auto
termination
  by (relation "measure (\<lambda>(view, n, s). length view - n)") auto

declare send_loop.simps [simp del]

definition send_all :: "byte list \<Rightarrow> (exc, sock, unit) action" where
  "send_all data = send_loop data 0"

definition truncated_error :: "nat \<Rightarrow> int \<Rightarrow> exc" where
  "truncated_error got wanted = protocol_error INVALID_FRAME
     (lit ''peer closed after '' @ dec_nat got @ lit '' of '' @ dec_int wanted @ lit '' bytes'')"

function recv_loop :: "nat \<Rightarrow> byte list \<Rightarrow> (exc, sock, byte list option) action" where
  "recv_loop wanted received s =
     (if length received < wanted then
        (case sock_recv (wanted - length received) s of
           (Inl e, s') \<Rightarrow> (Inl e, s')
         | (Inr chunk, s') \<Rightarrow>
             if chunk = [] then
               (if received = [] then (Inr None, s')
                else (Inl (truncated_error (length received) (int wanted)), s'))
             else recv_loop wanted (received @ chunk) s')
      else (Inr (Some received), s))"
  by pat_completeness auto
termination
  by (relation "measure (\<lambda>(wanted, received, s). wanted - length received)")
    (auto simp flip: length_greater_0_conv intro: diff_less_mono2)

declare recv_loop.simps [simp del]

definition recv_exact :: "int \<Rightarrow> (exc, sock, byte list option) action" where
  "recv_exact wanted s =
     (if wanted < 0 then (Inl (ValueError (lit ''receive size must not be negative'')), s)
      else if wanted = 0 then (Inr (Some []), s)
      else recv_loop (nat wanted) [] s)"

subsection \<open>Preface\<close>

definition encode_preface :: "byte list" where
  "encode_preface = pack_uint 4 MAGIC @ pack_uint 2 VERSION @ pack_uint 2 0"

definition decode_preface :: "byte list \<Rightarrow> exc + (int \<times> int \<times> int)" where
  "decode_preface data =
     (if int (length data) \<noteq> PREFACE_SIZE_BYTES then
        Inl (protocol_error INVALID_FRAME
          (lit ''preface must contain '' @ dec_int PREFACE_SIZE_BYTES @ lit '' bytes, got ''
            @ dec_nat (length data)))
      else Inr (unpack_uint (take 4 data), unpack_uint (take 2 (drop 4 data)),
                unpack_uint (drop 6 data)))"

definition validate_preface :: "int \<times> int \<times> int \<Rightarrow> exc + unit" where
  "validate_preface preface =
     (case preface of (magic, version, reserved) \<Rightarrow>
        if magic \<noteq> MAGIC then
          Inl (protocol_error INVALID_FRAME (lit ''invalid preface MAGIC''))
        else if version \<noteq> VERSION then
          Inl (protocol_error INVALID_FRAME
            (lit ''unsupported protocol version '' @ dec_int version))
        else if reserved \<noteq> 0 then
          Inl (protocol_error INVALID_FRAME (lit ''preface RESERVED must be zero''))
        else Inr ())"

subsection \<open>Frames\<close>

definition pack_struct :: "nat \<Rightarrow> int \<Rightarrow> exc + byte list" where
  "pack_struct k v =
     (if uint_fits k v then Inr (pack_uint k v)
      else Inl (StructError (lit ''argument out of range'')))"

definition serialize_frame :: "frame \<Rightarrow> int \<Rightarrow> exc + byte list" where
  "serialize_frame fr max_payload_bytes =
     (let payload_size = int (length (fr_payload fr)) in
      if max_payload_bytes < payload_size then
        Inl (protocol_error PAYLOAD_TOO_LARGE
          (lit ''payload contains '' @ dec_int payload_size @ lit '' bytes; maximum is ''
            @ dec_int max_payload_bytes))
      else
        let len = FRAME_BODY_HEADER_SIZE_BYTES + payload_size in
        bindE (pack_struct 4 len) (\<lambda>h1.
        bindE (pack_struct 2 (opcode_value (fr_opcode fr))) (\<lambda>h2.
        bindE (pack_struct 2 (fr_user_id fr)) (\<lambda>h3.
        Inr ((h1 @ h2 @ h3) @ fr_payload fr)))))"

definition send_frame :: "frame \<Rightarrow> int \<Rightarrow> (exc, sock, unit) action" where
  "send_frame fr max_payload_bytes =
     bindS (liftS (serialize_frame fr max_payload_bytes)) send_all"

fun hex_digit :: "nat \<Rightarrow> nat" where
  "hex_digit d = (if d < 10 then 48 + d else 55 + d)"

definition hex4 :: "int \<Rightarrow> pystr" where
  "hex4 v = lit ''0x'' @ map (\<lambda>k. hex_digit (nat v div 16 ^ k mod 16)) [3, 2, 1, 0]"

definition receive_frame_with ::
  "(int \<Rightarrow> (exc, 's, byte list option) action) \<Rightarrow> int \<Rightarrow> (exc, 's, frame option) action" where
  "receive_frame_with recv max_payload_bytes =
     bindS (recv LENGTH_SIZE_BYTES) (\<lambda>length_bytes_or_none.
     case length_bytes_or_none of
       None \<Rightarrow> returnS None
     | Some length_bytes \<Rightarrow>
         let len = unpack_uint length_bytes in
         if len < FRAME_BODY_HEADER_SIZE_BYTES then
           raiseS (protocol_error INVALID_FRAME
             (lit ''frame LENGTH must be at least '' @ dec_int FRAME_BODY_HEADER_SIZE_BYTES
               @ lit '', got '' @ dec_int len))
         else
           let payload_size = len - FRAME_BODY_HEADER_SIZE_BYTES in
           if max_payload_bytes < payload_size then
             raiseS (protocol_error PAYLOAD_TOO_LARGE
               (lit ''payload contains '' @ dec_int payload_size @ lit '' bytes; maximum is ''
                 @ dec_int max_payload_bytes))
           else
             bindS (recv FRAME_BODY_HEADER_SIZE_BYTES) (\<lambda>body_header_or_none.
             case body_header_or_none of
               None \<Rightarrow> raiseS (protocol_error INVALID_FRAME
                 (lit ''peer closed after LENGTH and before OPCODE/USER_ID''))
             | Some body_header \<Rightarrow>
                 bindS (recv payload_size) (\<lambda>payload_or_none.
                 case payload_or_none of
                   None \<Rightarrow> raiseS (protocol_error INVALID_FRAME
                     (lit ''peer closed before the '' @ dec_int payload_size
                       @ lit ''-byte payload''))
                 | Some payload \<Rightarrow>
                     let header = length_bytes @ body_header;
                         raw_opcode = unpack_uint (take 2 (drop 4 header));
                         user_id = unpack_uint (drop 6 header) in
                     (case opcode_of raw_opcode of
                        None \<Rightarrow> raiseS (ProtocolError UNSUPPORTED_OPCODE
                          (lit ''unsupported opcode '' @ hex4 raw_opcode)
                          (Some raw_opcode) True)
                      | Some op \<Rightarrow>
                          liftS (bindE (make_frame_object op payload user_id max_payload_bytes)
                            (\<lambda>fr. Inr (Some fr)))))))"

definition receive_frame :: "int \<Rightarrow> (exc, sock, frame option) action" where
  "receive_frame = receive_frame_with recv_exact"

subsection \<open>The byte stream a socket stands for\<close>

fun arrival_bytes :: "arrival \<Rightarrow> byte list" where
  "arrival_bytes (Segment bs) = bs"
| "arrival_bytes (RecvFault e) = []"

definition pending :: "sock \<Rightarrow> byte list" where
  "pending s = concat (map arrival_bytes (inbound s))"

definition delivers :: "sock \<Rightarrow> bool" where
  "delivers s = list_all (\<lambda>a. arrival_bytes a \<noteq> []) (inbound s)"

text \<open>The same read on plain bytes: what \<open>recv_exact\<close> promises.\<close>

definition read_exact :: "int \<Rightarrow> (exc, byte list, byte list option) action" where
  "read_exact n bs =
     (if n < 0 then (Inl (ValueError (lit ''receive size must not be negative'')), bs)
      else if n = 0 then (Inr (Some []), bs)
      else if bs = [] then (Inr None, [])
      else if int (length bs) < n then (Inl (truncated_error (length bs) n), [])
      else (Inr (Some (take (nat n) bs)), drop (nat n) bs))"

lemma delivers_cases:
  assumes "delivers s"
  obtains (closed) "inbound s = []"
    | (segment) bs later where "inbound s = Segment bs # later" "bs \<noteq> []"
  using assms unfolding delivers_def
  by (cases "inbound s"; cases "hd (inbound s)") auto

lemma sock_recv_delivers:
  assumes "delivers s" "sock_recv n s = (r, s')" "0 < n"
  shows "delivers s' \<and> outbound s' = outbound s \<and> send_plan s' = send_plan s \<and>
    (\<exists>chunk. r = Inr chunk \<and> pending s = chunk @ pending s' \<and> length chunk \<le> n
       \<and> (chunk = [] \<longleftrightarrow> pending s = []))"
  using assms(1)
proof (cases rule: delivers_cases)
  case closed
  with assms show ?thesis by (auto simp: sock_recv_def pending_def delivers_def)
next
  case (segment bs later)
  have r: "r = Inr (take n bs)" using assms(2) by (simp add: sock_recv_def segment)
  have s': "s' = s\<lparr>inbound := (if drop n bs = [] then later else Segment (drop n bs) # later)\<rparr>"
    using assms(2) by (simp add: sock_recv_def segment)
  have "pending s = take n bs @ pending s'"
    by (simp add: pending_def s' segment)
  then show ?thesis
    using assms(1,3) segment by (auto simp: r s' delivers_def pending_def)
qed

lemma recv_loop_delivers:
  assumes "delivers s" "recv_loop n got s = (r, s')"
  shows "delivers s' \<and> outbound s' = outbound s \<and> send_plan s' = send_plan s \<and>
    (if n \<le> length got then r = Inr (Some got) \<and> s' = s
     else if pending s = [] \<and> got = [] then r = Inr None \<and> pending s' = []
     else if length (pending s) < n - length got then
       r = Inl (truncated_error (length got + length (pending s)) (int n)) \<and> pending s' = []
     else r = Inr (Some (got @ take (n - length got) (pending s)))
       \<and> pending s' = drop (n - length got) (pending s))"
  using assms
proof (induction n got s rule: recv_loop.induct)
  case (1 n got s)
  show ?case
  proof (cases "length got < n")
    case False
    with "1.prems" show ?thesis by (simp add: recv_loop.simps [of n got s])
  next
    case True
    obtain q t where rc: "sock_recv (n - length got) s = (q, t)" by fastforce
    obtain chunk where q: "q = Inr chunk" and t: "delivers t" "outbound t = outbound s"
        "send_plan t = send_plan s" and pend: "pending s = chunk @ pending t"
      and len: "length chunk \<le> n - length got" and nil: "chunk = [] \<longleftrightarrow> pending s = []"
      using sock_recv_delivers [OF "1.prems"(1) rc] True by (metis zero_less_diff)
    show ?thesis
    proof (cases "chunk = []")
      case True
      with \<open>length got < n\<close> "1.prems"(2) t pend nil show ?thesis
        by (auto simp: recv_loop.simps [of n got s] rc q split: if_splits)
    next
      case False
      have "recv_loop n (got @ chunk) t = (r, s')"
        using "1.prems"(2) \<open>length got < n\<close> False
        by (simp add: recv_loop.simps [of n got s] rc q)
      note IH = "1.IH" [OF \<open>length got < n\<close> rc [symmetric] q False t(1) this]
      have ne: "pending s \<noteq> []" using nil False by simp
      have tk: "take (n - length got) (pending s) = chunk @ take (n - length (got @ chunk)) (pending t)"
        and dr: "drop (n - length got) (pending s) = drop (n - length (got @ chunk)) (pending t)"
        and ln: "length (pending s) = length chunk + length (pending t)"
        using len by (simp_all only: pend take_append drop_append length_append) simp_all
      show ?thesis
      proof (cases "n \<le> length (got @ chunk)")
        case True
        with IH t ne tk dr ln len \<open>length got < n\<close> show ?thesis by simp
      next
        case rest: False
        with IH t ne tk dr ln len False \<open>length got < n\<close> show ?thesis
          by (simp add: less_diff_conv2 add.assoc split: if_splits)
      qed
    qed
  qed
qed

lemma recv_exact_refines:
  assumes ok: "delivers s" and run: "recv_exact n s = (r, s')"
  shows "delivers s' \<and> outbound s' = outbound s \<and> send_plan s' = send_plan s
    \<and> read_exact n (pending s) = (r, pending s')"
proof (cases "n \<le> 0")
  case True
  with ok run show ?thesis by (auto simp: recv_exact_def read_exact_def split: if_splits)
next
  case False
  with run have "recv_loop (nat n) [] s = (r, s')" by (simp add: recv_exact_def)
  from recv_loop_delivers [OF ok this] False show ?thesis
    by (auto simp: read_exact_def nat_less_iff split: if_splits)
qed

subsection \<open>The contract of an exact reader, and its client \<open>receive_frame\<close>\<close>

locale exact_reader =
  fixes recv :: "int \<Rightarrow> (exc, 's, byte list option) action"
    and stream :: "'s \<Rightarrow> byte list"
    and ok :: "'s \<Rightarrow> bool"
  assumes recv_simulates: "simulates ok stream (recv n) (read_exact n)"
begin

lemma receive_frame_simulates:
  "simulates ok stream (receive_frame_with recv maximum) (receive_frame_with read_exact maximum)"
  unfolding receive_frame_with_def Let_def
  by (intro sim_intros recv_simulates)

lemma receive_frame_stream:
  "ok s \<Longrightarrow> receive_frame_with recv maximum s = (r, s') \<Longrightarrow>
     ok s' \<and> receive_frame_with read_exact maximum (stream s) = (r, stream s')"
  by (rule simulatesD [OF receive_frame_simulates])

end

interpretation sock_reader: exact_reader recv_exact pending delivers
proof
  show "simulates delivers pending (recv_exact n) (read_exact n)" for n
    unfolding simulates_def by (metis prod.collapse recv_exact_refines)
qed

definition parse_frame :: "int \<Rightarrow> (exc, byte list, frame option) action" where
  "parse_frame = receive_frame_with read_exact"

lemma receive_frame_parse:
  "delivers s \<Longrightarrow> receive_frame maximum s = (r, s') \<Longrightarrow>
     delivers s' \<and> parse_frame maximum (pending s) = (r, pending s')"
  unfolding receive_frame_def parse_frame_def by (rule sock_reader.receive_frame_stream)

subsection \<open>Reading from plain bytes\<close>

lemma read_exact_append:
  "v \<noteq> [] \<Longrightarrow> n = int (length v) \<Longrightarrow> read_exact n (v @ rest) = (Inr (Some v), rest)"
  by (auto simp: read_exact_def)

lemma read_exact_zero [simp]: "read_exact 0 bs = (Inr (Some []), bs)"
  by (simp add: read_exact_def)

lemma read_exact_Some:
  assumes "read_exact n bs = (Inr (Some v), rest)"
  shows "bs = v @ rest \<and> int (length v) = n"
  using assms by (auto simp: read_exact_def split: if_splits)

lemma read_exact_short:
  "bs \<noteq> [] \<Longrightarrow> int (length bs) < n \<Longrightarrow>
     read_exact n bs = (Inl (truncated_error (length bs) n), [])"
  by (auto simp: read_exact_def)

lemma read_exact_eof: "0 < n \<Longrightarrow> read_exact n [] = (Inr None, [])"
  by (simp add: read_exact_def)

text \<open>The header of a frame, as bytes.\<close>

definition frame_bytes :: "frame \<Rightarrow> byte list" where
  "frame_bytes fr = pack_uint 4 (4 + int (length (fr_payload fr)))
     @ pack_uint 2 (opcode_value (fr_opcode fr)) @ pack_uint 2 (fr_user_id fr) @ fr_payload fr"

lemma serialize_is_frame_bytes: "serialize_frame fr maximum = Inr bs \<Longrightarrow> bs = frame_bytes fr"
  by (auto simp: serialize_frame_def frame_bytes_def Let_def pack_struct_def FRAME_BODY_HEADER_SIZE_BYTES_def
      result_simps split: if_splits)

lemma serialize_frame_Inr:
  assumes "wf_frame maximum fr" "maximum < 2 ^ 32 - 4"
  shows "serialize_frame fr maximum = Inr (frame_bytes fr)"
proof -
  have "uint_fits 4 (4 + int (length (fr_payload fr)))"
    using assms by (simp add: uint_fits_def wf_frame_def)
  with assms show ?thesis
    using wf_frame_user_id [OF assms(1)] opcode_enum.val_fits
    by (simp add: serialize_frame_def pack_struct_def frame_bytes_def Let_def wf_frame_def
        FRAME_BODY_HEADER_SIZE_BYTES_def)
qed

lemma parse_frame_bytes:
  assumes wf: "wf_frame maximum fr" and small: "maximum < 2 ^ 32 - 4"
  shows "parse_frame maximum (frame_bytes fr @ rest) = (Inr (Some fr), rest)"
proof -
  let ?n = "int (length (fr_payload fr))"
  define lb where "lb = pack_uint 4 (4 + ?n)"
  define bh where "bh = pack_uint 2 (opcode_value (fr_opcode fr)) @ pack_uint 2 (fr_user_id fr)"
  have bytes: "frame_bytes fr = lb @ bh @ fr_payload fr"
    by (simp add: frame_bytes_def lb_def bh_def)
  have [simp]: "length lb = 4" "length bh = 4" by (simp_all add: lb_def bh_def)
  have len: "unpack_uint lb = 4 + ?n"
    using wf small by (simp add: lb_def uint_fits_def wf_frame_def)
  have fields: "unpack_uint (take 2 bh) = opcode_value (fr_opcode fr)"
      "unpack_uint (drop 2 bh) = fr_user_id fr"
    using wf_frame_user_id [OF wf] opcode_enum.val_fits by (simp_all add: bh_def)
  have "lb \<noteq> []" "bh \<noteq> []" by (simp_all flip: length_greater_0_conv)
  then have r1: "read_exact 4 (lb @ bh @ fr_payload fr @ rest)
        = (Inr (Some lb), bh @ fr_payload fr @ rest)"
      and r2: "read_exact 4 (bh @ fr_payload fr @ rest) = (Inr (Some bh), fr_payload fr @ rest)"
    by (simp_all add: read_exact_append)
  have r3: "read_exact ?n (fr_payload fr @ rest) = (Inr (Some (fr_payload fr)), rest)"
    by (cases "fr_payload fr = []") (simp_all add: read_exact_append del: append_Cons)
  have mk: "make_frame_object (fr_opcode fr) (fr_payload fr) (fr_user_id fr) maximum = Inr fr"
    using wf by (simp add: make_frame_object_Inr)
  show ?thesis
    using wf by (simp add: parse_frame_def receive_frame_with_def Let_def bindS_def bytes r1 r2 r3
        len fields mk wf_frame_def LENGTH_SIZE_BYTES_def FRAME_BODY_HEADER_SIZE_BYTES_def)
qed

text \<open>What a returned frame says about the bytes that were read.\<close>

lemma parse_frame_Some:
  assumes "parse_frame maximum bs = (Inr (Some fr), rest)"
  shows "wf_frame maximum fr \<and> bs = frame_bytes fr @ rest"
proof -
  let ?len = "\<lambda>lb. unpack_uint lb - 4"
  obtain lb bs1 bh bs2 pl where r1: "read_exact 4 bs = (Inr (Some lb), bs1)"
    and r2: "read_exact 4 bs1 = (Inr (Some bh), bs2)"
    and r3: "read_exact (?len lb) bs2 = (Inr (Some pl), rest)"
    and ge: "4 \<le> unpack_uint lb"
    and op: "opcode_of (unpack_uint (take 2 (drop 4 (lb @ bh)))) = Some (fr_opcode fr)"
    and fr: "fr = \<lparr>fr_opcode = fr_opcode fr, fr_payload = pl,
        fr_user_id = unpack_uint (drop 6 (lb @ bh))\<rparr>"
    and wf: "wf_frame maximum fr"
    using assms
    by (auto simp: parse_frame_def receive_frame_with_def Let_def state_simps result_simps
        make_frame_object_Inr LENGTH_SIZE_BYTES_def FRAME_BODY_HEADER_SIZE_BYTES_def
        simp del: take_append drop_append)
  have b: "bs = lb @ bh @ pl @ rest" "length lb = 4" "length bh = 4"
      "int (length pl) = unpack_uint lb - 4"
    using read_exact_Some [OF r1] read_exact_Some [OF r2] read_exact_Some [OF r3] by simp_all
  have flds: "fr_payload fr = pl" "fr_user_id fr = unpack_uint (drop 2 bh)"
    using b(2) by (simp_all add: fr [THEN arg_cong [where f = fr_payload]]
        fr [THEN arg_cong [where f = fr_user_id]])
  have "opcode_value (fr_opcode fr) = unpack_uint (take 2 bh)"
    using op b(2) by (simp add: opcode_of_iff)
  then have "pack_uint 2 (opcode_value (fr_opcode fr)) = take 2 bh"
      "pack_uint 2 (fr_user_id fr) = drop 2 bh"
      "pack_uint 4 (4 + int (length (fr_payload fr))) = lb"
    using b flds by simp_all
  then have "frame_bytes fr = lb @ take 2 bh @ drop 2 bh @ pl"
    unfolding frame_bytes_def flds(1) by simp
  with wf b show ?thesis by simp
qed

text \<open>
  One unfolding of \<open>parse_frame\<close> once the four bytes of LENGTH are there, shared by the
  error properties below.
\<close>

lemma parse_frame_length:
  assumes "length lb = 4"
  shows "parse_frame maximum (lb @ rest) =
    (let len = unpack_uint lb; n = len - 4 in
     if len < 4 then
       (Inl (protocol_error INVALID_FRAME (lit ''frame LENGTH must be at least ''
          @ dec_int 4 @ lit '', got '' @ dec_int len)), rest)
     else if maximum < n then
       (Inl (protocol_error PAYLOAD_TOO_LARGE (lit ''payload contains '' @ dec_int n
          @ lit '' bytes; maximum is '' @ dec_int maximum)), rest)
     else case read_exact 4 rest of
       (Inl e, r) \<Rightarrow> (Inl e, r)
     | (Inr None, r) \<Rightarrow> (Inl (protocol_error INVALID_FRAME
          (lit ''peer closed after LENGTH and before OPCODE/USER_ID'')), r)
     | (Inr (Some bh), r) \<Rightarrow>
         (case read_exact n r of
            (Inl e, r') \<Rightarrow> (Inl e, r')
          | (Inr None, r') \<Rightarrow> (Inl (protocol_error INVALID_FRAME
               (lit ''peer closed before the '' @ dec_int n @ lit ''-byte payload'')), r')
          | (Inr (Some pl), r') \<Rightarrow>
              (case opcode_of (unpack_uint (take 2 bh)) of
                 None \<Rightarrow> (Inl (ProtocolError UNSUPPORTED_OPCODE
                    (lit ''unsupported opcode '' @ hex4 (unpack_uint (take 2 bh)))
                    (Some (unpack_uint (take 2 bh))) True), r')
               | Some op \<Rightarrow>
                   (bindE (make_frame_object op pl (unpack_uint (drop 2 bh)) maximum)
                      (\<lambda>fr. Inr (Some fr)), r'))))"
proof -
  have "lb \<noteq> []" using assms by auto
  then have r1: "read_exact 4 (lb @ rest) = (Inr (Some lb), rest)"
    using assms by (simp add: read_exact_append)
  show ?thesis
    using assms
    by (auto simp: parse_frame_def receive_frame_with_def Let_def bindS_def r1
        LENGTH_SIZE_BYTES_def FRAME_BODY_HEADER_SIZE_BYTES_def
        split: prod.split sum.split option.split)
qed

lemma parse_frame_prefix:
  assumes wf: "wf_frame maximum fr" and small: "maximum < 2 ^ 32 - 4"
    and fb: "frame_bytes fr = bs @ missing" and missing: "missing \<noteq> []" and bs: "bs \<noteq> []"
  shows "\<exists>t. parse_frame maximum bs = (Inl (protocol_error INVALID_FRAME t), [])"
proof (cases "length bs < 4")
  case True
  with bs show ?thesis
    by (simp add: parse_frame_def receive_frame_with_def LENGTH_SIZE_BYTES_def read_exact_short
        truncated_error_def)
next
  case False
  let ?n = "int (length (fr_payload fr))"
  define lb where "lb = take 4 bs"
  define b2 where "b2 = drop 4 bs"
  have split: "bs = lb @ b2" and lb: "length lb = 4"
    using False by (simp_all add: lb_def b2_def)
  have "lb = take 4 (frame_bytes fr)" using fb lb split by simp
  then have len: "unpack_uint lb = 4 + ?n"
    using wf small by (simp add: frame_bytes_def uint_fits_def wf_frame_def)
  have total: "length b2 + length missing = 4 + length (fr_payload fr)"
    using arg_cong [OF fb, of length] lb by (simp add: split frame_bytes_def)
  have mx: "\<not> maximum < ?n" using wf by (simp add: wf_frame_def)
  note unfold = parse_frame_length [OF lb, of maximum b2, folded split, simplified len]
  consider (none) "b2 = []" | (part) "b2 \<noteq> []" "length b2 < 4" | (rest) "4 \<le> length b2"
    by linarith
  then show ?thesis
  proof cases
    case none
    with mx show ?thesis by (simp add: unfold Let_def read_exact_eof)
  next
    case part
    with mx show ?thesis
      by (simp add: unfold Let_def read_exact_short truncated_error_def)
  next
    case rest
    then have r2: "read_exact 4 b2 = (Inr (Some (take 4 b2)), drop 4 b2)"
      by (auto simp: read_exact_def)
    have "length (drop 4 b2) < length (fr_payload fr)"
      using total missing rest by (cases missing) auto
    then have r3: "read_exact ?n (drop 4 b2) = (Inr None, []) \<or>
        (\<exists>k. read_exact ?n (drop 4 b2) = (Inl (truncated_error k ?n), []))"
      by (auto simp: read_exact_def)
    with mx r2 show ?thesis
      by (auto simp: unfold Let_def truncated_error_def)
  qed
qed

lemma parse_frame_oversized:
  assumes "4 \<le> length bs" "maximum < unpack_uint (take 4 bs) - 4" "0 \<le> maximum"
  shows "\<exists>t. parse_frame maximum bs = (Inl (protocol_error PAYLOAD_TOO_LARGE t), drop 4 bs)"
  using parse_frame_length [of "take 4 bs" maximum "drop 4 bs"] assms
  by (simp add: Let_def)

lemma parse_frame_synchronized:
  assumes "parse_frame maximum bs = (Inl (ProtocolError c t raw True), rest)"
  shows "c = UNSUPPORTED_OPCODE \<and> (\<exists>op user payload. raw = Some op \<and> opcode_of op = None \<and>
     uint_fits 2 op \<and> bs = pack_uint 4 (4 + int (length payload)) @ pack_uint 2 op
       @ pack_uint 2 user @ payload @ rest)"
proof (cases "length bs < 4")
  case True
  with assms show ?thesis
    by (cases "bs = []") (simp_all add: parse_frame_def receive_frame_with_def
        LENGTH_SIZE_BYTES_def read_exact_short read_exact_eof truncated_error_def bindS_def)
next
  case False
  define lb where "lb = take 4 bs"
  have bs: "bs = lb @ drop 4 bs" and lb: "length lb = 4"
    using False by (simp_all add: lb_def)
  have trunc: "read_exact n x \<noteq> (Inl (ProtocolError c t raw True), r)" for n x r
    by (auto simp: read_exact_def truncated_error_def)
  obtain q1 r where q1: "read_exact 4 (drop 4 bs) = (q1, r)" by fastforce
  obtain q2 r' where q2: "read_exact (unpack_uint lb - 4) r = (q2, r')" by fastforce
  note run = assms [unfolded parse_frame_length [OF lb, of maximum "drop 4 bs", folded bs]
      Let_def q1 prod.case]
  obtain bh where bh: "q1 = Inr (Some bh)"
    using run trunc [of 4 "drop 4 bs"] q1 by (auto split: if_splits sum.splits option.splits)
  note run = run [unfolded bh sum.case option.case q2 prod.case]
  obtain pl where pl: "q2 = Inr (Some pl)"
    using run trunc [of "unpack_uint lb - 4" r] q2
    by (auto split: if_splits sum.splits option.splits)
  note run = run [unfolded pl sum.case option.case]
  have op: "opcode_of (unpack_uint (take 2 bh)) = None" "raw = Some (unpack_uint (take 2 bh))"
      "c = UNSUPPORTED_OPCODE" "r' = rest" and ge: "4 \<le> unpack_uint lb"
    using run by (auto simp: result_simps dest!: make_frame_object_Inl
        split: if_splits option.splits)
  note r2 = q1 [unfolded bh] and r3 = q2 [unfolded pl op(4)]
  have b: "drop 4 bs = bh @ pl @ rest" "length bh = 4" "int (length pl) = unpack_uint lb - 4"
    using read_exact_Some [OF r2] read_exact_Some [OF r3] by simp_all
  have "bs = lb @ bh @ pl @ rest" by (metis bs b(1))
  moreover have "lb = pack_uint 4 (4 + int (length pl))"
      "bh = pack_uint 2 (unpack_uint (take 2 bh)) @ pack_uint 2 (unpack_uint (drop 2 bh))"
    using lb b by simp_all
  ultimately have "bs = pack_uint 4 (4 + int (length pl)) @ pack_uint 2 (unpack_uint (take 2 bh))
      @ pack_uint 2 (unpack_uint (drop 2 bh)) @ pl @ rest"
    by (metis append_assoc)
  moreover have "uint_fits 2 (unpack_uint (take 2 bh))" using b(2) by simp
  ultimately show ?thesis using op by blast
qed

subsection \<open>What any read does to the socket, also when the stream breaks\<close>

definition reads_only :: "sock \<Rightarrow> sock \<Rightarrow> bool" where
  "reads_only s t \<longleftrightarrow> outbound t = outbound s \<and> send_plan t = send_plan s
     \<and> length (pending t) \<le> length (pending s)"

interpretation socket_reads: step_relation reads_only
  by unfold_locales (auto simp: reads_only_def)

lemma sock_recv_pending:
  "sock_recv n s = (r, s') \<Longrightarrow> outbound s' = outbound s \<and> send_plan s' = send_plan s
     \<and> (case r of Inl e \<Rightarrow> pending s' = pending s | Inr chunk \<Rightarrow> pending s = chunk @ pending s')"
  by (auto simp: sock_recv_def pending_def split: list.splits arrival.splits)

lemma recv_loop_pending:
  "recv_loop n got s = (r, s') \<Longrightarrow> reads_only s s'
     \<and> (\<forall>v. r = Inr (Some v) \<longrightarrow> got @ pending s = v @ pending s' \<and> n \<le> length v)"
proof (induction n got s rule: recv_loop.induct)
  case (1 n got s)
  show ?case
  proof (cases "length got < n")
    case False
    with "1.prems" show ?thesis by (auto simp: recv_loop.simps [of n got s] reads_only_def)
  next
    case True
    obtain q t where rc: "sock_recv (n - length got) s = (q, t)" by fastforce
    note t = sock_recv_pending [OF rc]
    show ?thesis
    proof (cases "\<exists>chunk. q = Inr chunk \<and> chunk \<noteq> []")
      case False
      with "1.prems" True t show ?thesis
        by (cases q) (auto simp: recv_loop.simps [of n got s] rc reads_only_def split: if_splits)
    next
      case again: True
      then obtain chunk where q: "q = Inr chunk" "chunk \<noteq> []" by blast
      with "1.prems" True have "recv_loop n (got @ chunk) t = (r, s')"
        by (simp add: recv_loop.simps [of n got s] rc)
      from "1.IH" [OF True rc [symmetric] q this] t q(1) show ?thesis by (auto simp: reads_only_def)
    qed
  qed
qed

lemma recv_exact_pending:
  "recv_exact n s = (r, s') \<Longrightarrow> reads_only s s'
     \<and> (\<forall>v. r = Inr (Some v) \<longrightarrow> pending s = v @ pending s' \<and> n \<le> int (length v))"
  using recv_loop_pending [of "nat n" "[]" s r s']
  by (auto simp: recv_exact_def socket_reads.R_refl split: if_splits)

lemma recv_error_not_synchronized:
  "recv_loop n got s = (Inl (ProtocolError c t raw b), s') \<Longrightarrow> \<not> b"
proof (induction n got s rule: recv_loop.induct)
  case (1 n got s)
  have fault: "sock_fault_exc f \<noteq> ProtocolError c t raw b" for f by (cases f) simp_all
  have recv: "fst (sock_recv m u) \<noteq> Inl (ProtocolError c t raw b)" for m u
    by (simp add: sock_recv_def fault split: list.split arrival.split)
  show ?case
    using "1.prems" "1.IH" recv [of "n - length got" s]
    by (auto simp: recv_loop.simps [of n got s] truncated_error_def split: if_splits prod.splits sum.splits)
qed

lemma recv_exact_not_synchronized: "recv_exact n s = (Inl (ProtocolError c t raw b), s') \<Longrightarrow> \<not> b"
  by (auto simp: recv_exact_def dest: recv_error_not_synchronized split: if_splits)

text \<open>A synchronized error is raised with a whole frame off the stream.\<close>

lemma synchronized_error_progress:
  assumes "receive_frame maximum s = (Inl (ProtocolError c t raw True), s')"
  shows "length (pending s') < length (pending s) \<and> c = UNSUPPORTED_OPCODE"
proof -
  have mk: "make_frame_object op payload user maximum \<noteq> Inl (ProtocolError c t raw True)" for op payload user
    by (auto simp: make_frame_object_def bindE_guardE)
  obtain lb s1 bh s2 pl where r: "recv_exact 4 s = (Inr (Some lb), s1)"
      "recv_exact 4 s1 = (Inr (Some bh), s2)" "recv_exact (unpack_uint lb - 4) s2 = (Inr (Some pl), s')"
    and c: "c = UNSUPPORTED_OPCODE"
    using assms mk
    by (auto simp: receive_frame_def receive_frame_with_def Let_def state_simps result_simps
        LENGTH_SIZE_BYTES_def FRAME_BODY_HEADER_SIZE_BYTES_def
        dest: recv_exact_not_synchronized split: option.splits)
  have "pending s = lb @ pending s1" "4 \<le> int (length lb)" "reads_only s1 s2" "reads_only s2 s'"
    using recv_exact_pending [OF r(1)] recv_exact_pending [OF r(2)] recv_exact_pending [OF r(3)] by auto
  with c show ?thesis by (auto simp: reads_only_def)
qed

lemma receive_frame_reads: "receive_frame maximum s = (r, s') \<Longrightarrow> reads_only s s'"
proof -
  have recv: "socket_reads.keeps (recv_exact n)" for n
    by (rule socket_reads.keepsI) (auto dest: recv_exact_pending)
  have "socket_reads.keeps (receive_frame maximum)"
    unfolding receive_frame_def receive_frame_with_def Let_def
    by (intro socket_reads.keep_intros recv)
  then show "receive_frame maximum s = (r, s') \<Longrightarrow> reads_only s s'" by (rule socket_reads.keepsD)
qed

lemma receive_frame_progress:
  assumes "receive_frame maximum s = (Inr (Some fr), s')"
  shows "length (pending s') < length (pending s) \<and> wf_frame maximum fr"
proof -
  obtain lb s1 bh s2 pl where r: "recv_exact 4 s = (Inr (Some lb), s1)"
      "recv_exact 4 s1 = (Inr (Some bh), s2)" "recv_exact (unpack_uint lb - 4) s2 = (Inr (Some pl), s')"
    and wf: "wf_frame maximum fr"
    using assms
    by (auto simp: receive_frame_def receive_frame_with_def Let_def state_simps result_simps
        make_frame_object_Inr LENGTH_SIZE_BYTES_def FRAME_BODY_HEADER_SIZE_BYTES_def)
  have "pending s = lb @ pending s1" "4 \<le> int (length lb)" "reads_only s1 s2" "reads_only s2 s'"
    using recv_exact_pending [OF r(1)] recv_exact_pending [OF r(2)] recv_exact_pending [OF r(3)] by auto
  with wf show ?thesis by (auto simp: reads_only_def)
qed

subsection \<open>Writing\<close>

lemma sock_send_prefix:
  assumes "sock_send view s = (r, s')"
  shows "inbound s' = inbound s \<and> (\<exists>k \<le> length view. outbound s' = outbound s @ take k view
     \<and> (\<forall>n. r = Inr n \<longrightarrow> n = k))"
proof -
  have cut: "take n view = take (min (length view) n) view" for n
    by (cases "n \<le> length view") simp_all
  show ?thesis
    using assms cut
    by (auto simp: sock_send_def split: list.splits send_reply.splits intro: exI [of _ 0])
qed

lemma send_loop_prefix:
  assumes "send_loop view n s = (r, s')" "n \<le> length view"
  shows "inbound s' = inbound s \<and> (\<exists>k. n + k \<le> length view \<and>
     outbound s' = outbound s @ take k (drop n view) \<and> (r = Inr () \<longrightarrow> n + k = length view))"
  using assms
proof (induction view n s rule: send_loop.induct)
  case (1 view n s)
  show ?case
  proof (cases "n < length view")
    case False
    with "1.prems" show ?thesis
      by (auto simp: send_loop.simps [of view n s] intro!: exI [of _ 0])
  next
    case True
    obtain q t where q: "sock_send (drop n view) s = (q, t)" by fastforce
    obtain k where t: "inbound t = inbound s" and k: "k \<le> length view - n"
      and out: "outbound t = outbound s @ take k (drop n view)" and qk: "\<forall>m. q = Inr m \<longrightarrow> m = k"
      using sock_send_prefix [OF q] by auto
    show ?thesis
    proof (cases "q = Inr k \<and> k \<noteq> 0")
      case False
      then have "s' = t \<and> r \<noteq> Inr ()"
        using "1.prems"(1) True qk
        by (cases q) (auto simp: send_loop.simps [of view n s] q split: if_splits)
      with True t k out show ?thesis by (intro conjI exI [of _ k]) simp_all
    next
      case more: True
      have rec: "send_loop view (n + k) t = (r, s')"
        using "1.prems"(1) True more by (simp add: send_loop.simps [of view n s] q)
      have "n + k \<le> length view" using k True by simp
      from "1.IH" [OF True q [symmetric] _ _ rec this] more
      obtain j where j: "inbound s' = inbound t" "n + k + j \<le> length view"
          "outbound s' = outbound t @ take j (drop (n + k) view)"
          "r = Inr () \<longrightarrow> n + k + j = length view"
        by (auto simp: add.assoc)
      have "take k (drop n view) @ take j (drop (n + k) view) = take (k + j) (drop n view)"
        by (simp only: take_add drop_drop add.commute [of n k])
      with j t out show ?thesis
        by (intro conjI exI [of _ "k + j"]) (simp_all add: add.assoc)
    qed
  qed
qed

lemma send_all_prefix:
  assumes "send_all data s = (r, s')"
  shows "inbound s' = inbound s \<and> (\<exists>k \<le> length data. outbound s' = outbound s @ take k data
     \<and> (r = Inr () \<longrightarrow> k = length data))"
  using send_loop_prefix [OF assms [unfolded send_all_def]] by auto

lemma send_frame_inbound: "send_frame fr maximum k = (r, k') \<Longrightarrow> inbound k' = inbound k"
  by (cases "serialize_frame fr maximum")
    (auto simp: send_frame_def bindS_def dest: send_all_prefix)

lemma send_frame_Inr:
  assumes "send_frame fr maximum s = (Inr (), s')"
  shows "\<exists>bs. serialize_frame fr maximum = Inr bs \<and> outbound s' = outbound s @ bs
     \<and> inbound s' = inbound s"
proof -
  obtain bs where bs: "serialize_frame fr maximum = Inr bs" "send_all bs s = (Inr (), s')"
    using assms by (auto simp: send_frame_def state_simps)
  with send_all_prefix [OF bs(2)] show ?thesis by auto
qed

subsection \<open>The properties of the wire layer\<close>

text \<open>
  C7. Framing round trip, whatever the cut: a frame serialized by \<open>serialize_frame\<close> and
  delivered by TCP in any segmentation, with any bytes after it, is received as the same
  frame, and the bytes after it stay unread for the next frame.
\<close>

theorem receive_serialized_frame:
  assumes "wf_frame maximum fr" and "maximum < 2 ^ 32 - 4"
    and "serialize_frame fr maximum = Inr bytes"
    and "delivers s" and "pending s = bytes @ rest"
  shows "\<exists>s'. receive_frame maximum s = (Inr (Some fr), s') \<and> delivers s' \<and> pending s' = rest"
proof -
  have bytes: "bytes = frame_bytes fr"
    using serialize_frame_Inr [OF assms(1,2)] assms(3) by simp
  obtain r s' where run: "receive_frame maximum s = (r, s')" by fastforce
  from receive_frame_parse [OF assms(4) run] parse_frame_bytes [OF assms(1,2), of rest]
  show ?thesis using run by (simp add: assms(5) bytes)
qed

definition example_frame :: frame where
  "example_frame = \<lparr>fr_opcode = ACK, fr_payload = [0, 1, 0, 0, 0, 0, 0, 0, 0, 0], fr_user_id = 7\<rparr>"

definition example_segments :: sock where
  "example_segments = \<lparr>inbound = [Segment [0, 0, 0], Segment [14, 0, 32, 0, 7, 0, 1],
      Segment [0, 0, 0, 0, 0, 0, 0, 0, 0xFF]], outbound = [], send_plan = []\<rparr>"

lemma serialize_example:
  "serialize_frame example_frame 100 = Inr [0, 0, 0, 14, 0, 32, 0, 7, 0, 1, 0, 0, 0, 0, 0, 0, 0, 0]"
  by (simp add: example_frame_def serialize_frame_def pack_struct_def Let_def uint_fits_def
      FRAME_BODY_HEADER_SIZE_BYTES_def eval_bytes)

theorem receive_serialized_frame_witness:
  "\<exists>s'. receive_frame 100 example_segments = (Inr (Some example_frame), s')
     \<and> delivers s' \<and> pending s' = [0xFF]"
  by (rule receive_serialized_frame [OF _ _ serialize_example])
    (simp_all add: wf_frame_def example_frame_def MAX_USER_ID_def delivers_def pending_def
      example_segments_def)

text \<open>
  C25. Nothing but a serialized frame is accepted: if \<open>receive_frame\<close> returns a frame, the
  bytes it consumed are exactly the serialization of that frame, which respects the payload
  limit and the user-id range.
\<close>

theorem received_frame_is_canonical:
  assumes "maximum < 2 ^ 32 - 4" and "delivers s"
    and "receive_frame maximum s = (Inr (Some fr), s')"
  shows "wf_frame maximum fr \<and> (\<exists>bytes. serialize_frame fr maximum = Inr bytes
     \<and> pending s = bytes @ pending s')"
  using parse_frame_Some [of maximum "pending s" fr "pending s'"]
    receive_frame_parse [OF assms(2,3)] serialize_frame_Inr [of maximum fr] assms(1)
  by blast

lemmas run_socket = receive_frame_def receive_frame_with_def bindS_def Let_def recv_exact_def
  recv_loop.simps sock_recv_def LENGTH_SIZE_BYTES_def FRAME_BODY_HEADER_SIZE_BYTES_def
  unpack_uint_def opcode_of_def all_opcodes_def make_frame_object_def MAX_USER_ID_def

definition received_example :: sock where
  "received_example = \<lparr>inbound = [Segment [0xFF]], outbound = [], send_plan = []\<rparr>"

lemma receive_example:
  "receive_frame 100 example_segments = (Inr (Some example_frame), received_example)"
  by (simp add: example_segments_def example_frame_def received_example_def run_socket)

theorem received_frame_is_canonical_witness:
  "\<exists>bytes. serialize_frame example_frame 100 = Inr bytes
     \<and> pending example_segments = bytes @ pending received_example"
  using received_frame_is_canonical [OF _ _ receive_example]
  by (simp add: delivers_def example_segments_def)

text \<open>
  A truncated frame is never accepted: when the peer closes after some but not all bytes
  of a frame, in any segmentation, \<open>receive_frame\<close> raises \<open>INVALID_FRAME\<close> and does not
  claim the stream to be synchronized.
\<close>

theorem truncated_frame_rejected:
  assumes "wf_frame maximum fr" and "maximum < 2 ^ 32 - 4"
    and "serialize_frame fr maximum = Inr (got @ missing)" and "missing \<noteq> []" and "got \<noteq> []"
    and "delivers s" and "pending s = got"
  shows "\<exists>t s'. receive_frame maximum s = (Inl (ProtocolError INVALID_FRAME t None False), s')
     \<and> pending s' = []"
proof -
  have fb: "frame_bytes fr = got @ missing"
    using serialize_frame_Inr [OF assms(1,2)] assms(3) by simp
  obtain r s' where run: "receive_frame maximum s = (r, s')" by fastforce
  from receive_frame_parse [OF assms(6) run] parse_frame_prefix [OF assms(1,2) fb assms(4,5)]
  show ?thesis using run by (auto simp: assms(7))
qed

definition truncated_example :: sock where
  "truncated_example = \<lparr>inbound = [Segment [0, 0, 0, 14, 0], Segment [32, 0]],
     outbound = [], send_plan = []\<rparr>"

theorem truncated_frame_rejected_witness:
  "\<exists>t s'. receive_frame 100 truncated_example
     = (Inl (ProtocolError INVALID_FRAME t None False), s') \<and> pending s' = []"
  by (rule truncated_frame_rejected [of 100 example_frame "[0, 0, 0, 14, 0, 32, 0]"
        "[7, 0, 1, 0, 0, 0, 0, 0, 0, 0, 0]"])
    (simp_all add: serialize_example, simp_all add: wf_frame_def example_frame_def MAX_USER_ID_def
      delivers_def pending_def truncated_example_def)

text \<open>
  C26. The \<open>stream_synchronized\<close> flag is truthful: an error that carries it is
  \<open>UNSUPPORTED_OPCODE\<close> for an undefined opcode, raised after one complete frame was
  consumed, so that reading can go on at the next frame.
\<close>

theorem synchronized_error_at_frame_boundary:
  assumes "delivers s"
    and "receive_frame maximum s = (Inl (ProtocolError c t raw True), s')"
  shows "c = UNSUPPORTED_OPCODE \<and> (\<exists>op user payload. raw = Some op \<and> opcode_of op = None \<and>
     pending s = pack_uint 4 (4 + int (length payload)) @ pack_uint 2 op
       @ pack_uint 2 user @ payload @ pending s')"
  using parse_frame_synchronized [of maximum "pending s" c t raw "pending s'"]
    receive_frame_parse [OF assms] by blast

definition unknown_opcode_example :: sock where
  "unknown_opcode_example = \<lparr>inbound = [Segment [0, 0, 0, 5], Segment [0, 3, 0, 0, 9, 0, 0]],
     outbound = [], send_plan = []\<rparr>"

definition unknown_opcode_rest :: sock where
  "unknown_opcode_rest = \<lparr>inbound = [Segment [0, 0]], outbound = [], send_plan = []\<rparr>"

lemma receive_unknown_opcode:
  "receive_frame 100 unknown_opcode_example =
     (Inl (ProtocolError UNSUPPORTED_OPCODE (lit ''unsupported opcode 0x0003'') (Some 3) True),
      unknown_opcode_rest)"
  by (simp add: unknown_opcode_example_def unknown_opcode_rest_def run_socket hex4_def lit_def)

theorem synchronized_error_at_frame_boundary_witness:
  "\<exists>op user payload. Some 3 = Some op \<and> opcode_of op = None \<and>
     pending unknown_opcode_example = pack_uint 4 (4 + int (length payload)) @ pack_uint 2 op
       @ pack_uint 2 user @ payload @ pending unknown_opcode_rest"
  using synchronized_error_at_frame_boundary [OF _ receive_unknown_opcode]
  by (simp add: delivers_def unknown_opcode_example_def)

text \<open>
  C27. The payload limit is enforced before the payload is read: a declared length above the
  limit raises \<open>PAYLOAD_TOO_LARGE\<close> when exactly the four LENGTH bytes have been consumed.
\<close>

theorem oversized_payload_not_read:
  assumes "delivers s" and "4 \<le> length (pending s)" and "0 \<le> maximum"
    and "maximum < unpack_uint (take 4 (pending s)) - 4"
  shows "\<exists>t s'. receive_frame maximum s = (Inl (ProtocolError PAYLOAD_TOO_LARGE t None False), s')
     \<and> pending s' = drop 4 (pending s)"
proof -
  obtain r s' where run: "receive_frame maximum s = (r, s')" by fastforce
  from receive_frame_parse [OF assms(1) run] parse_frame_oversized [OF assms(2,4,3)]
  show ?thesis using run by auto
qed

theorem oversized_payload_not_read_witness:
  "\<exists>t s'. receive_frame 9 example_segments
       = (Inl (ProtocolError PAYLOAD_TOO_LARGE t None False), s')
     \<and> pending s' = drop 4 (pending example_segments)"
  by (rule oversized_payload_not_read)
    (simp_all add: delivers_def pending_def example_segments_def unpack_uint_def)

text \<open>
  \<open>send_all\<close> writes everything or reports it: whatever each \<open>send\<close> call accepts, the
  bytes put on the wire are a prefix of the data, the whole of it when the call returns, and
  nothing is read.
\<close>

theorem send_all_complete_or_prefix:
  "\<exists>k \<le> length data. outbound (snd (send_all data s)) = outbound s @ take k data
     \<and> inbound (snd (send_all data s)) = inbound s
     \<and> (case fst (send_all data s) of Inr u \<Rightarrow> k = length data | Inl e \<Rightarrow> True)"
  using send_all_prefix [of data s "fst (send_all data s)" "snd (send_all data s)"]
  by (auto split: sum.split)

lemma preface_bytes_iff:
  "bindE (decode_preface data) validate_preface = Inr () \<longleftrightarrow> data = encode_preface"
proof
  assume "data = encode_preface"
  then show "bindE (decode_preface data) validate_preface = Inr ()"
    by (simp add: encode_preface_def decode_preface_def validate_preface_def uint_fits_def
        MAGIC_def VERSION_def PREFACE_SIZE_BYTES_def)
next
  assume acc: "bindE (decode_preface data) validate_preface = Inr ()"
  then have len: "length data = 8"
    by (simp add: decode_preface_def PREFACE_SIZE_BYTES_def split: if_splits)
  with acc have "unpack_uint (take 4 data) = MAGIC" "unpack_uint (take 2 (drop 4 data)) = VERSION"
      "unpack_uint (drop 6 data) = 0"
    by (auto simp: decode_preface_def validate_preface_def PREFACE_SIZE_BYTES_def split: if_splits)
  then have "pack_uint 4 MAGIC = take 4 data" "pack_uint 2 VERSION = take 2 (drop 4 data)"
      "pack_uint 2 0 = drop 6 data"
    using len pack_unpack_uint [of "take 4 data" 4] pack_unpack_uint [of "take 2 (drop 4 data)" 2]
      pack_unpack_uint [of "drop 6 data" 2] by simp_all
  then have "encode_preface = take 4 data @ take 2 (drop 4 data) @ drop 2 (drop 4 data)"
    by (simp add: encode_preface_def)
  also have "\<dots> = data"
    by (simp only: append_take_drop_id)
  finally show "data = encode_preface" by simp
qed

text \<open>
  The preface check is exact: eight bytes pass \<open>decode_preface\<close> and
  \<open>validate_preface\<close> precisely when they are the bytes \<open>encode_preface\<close> writes.
\<close>

theorem preface_accepted_iff:
  "bindE (decode_preface data) validate_preface = Inr () \<longleftrightarrow> data = encode_preface"
  by (rule preface_bytes_iff)

end
