(* ===== verification/Messages.thy ===== *)
theory Messages
  imports Framing
begin

section \<open>Message models and payload codecs\<close>

text \<open>
  \<open>src/hcmus_socket/messages.py\<close>.  One record per dataclass, the \<open>_PayloadReader\<close> as a
  record of payload and offset threaded through the parsers, one \<open>make\<close> and one \<open>parse\<close>
  function per message with the checks in the source's order.  The dataclass field types
  are the model's types, so the \<open>isinstance\<close> checks of the source cannot fail here; every
  range, length and character check is kept.  Integer fields are \<open>int\<close>: they may be
  negative or too large until \<open>_validate_uint\<close> has seen them.
\<close>

subsection \<open>Message dataclasses\<close>

record login_request =
  lr_username :: pystr

record file_entry =
  fe_filename :: pystr
  fe_file_size :: int

record file_upload =
  fu_filename :: pystr
  fu_total_size :: int
  fu_start_offset :: int

record file_download =
  fd_filename :: pystr
  fd_requested_offset :: int

record file_info =
  fi_filename :: pystr
  fi_total_size :: int
  fi_start_offset :: int

record file_chunk =
  fc_offset :: int
  fc_data :: "byte list"

record file_checksum =
  fk_final_size :: int
  fk_sha256_digest :: "byte list"

record acknowledgement =
  ak_acknowledged_opcode :: opcode
  ak_next_offset :: int

text \<open>\<open>failed_opcode: Opcode | int\<close>: a defined opcode, or a raw value.\<close>

datatype opcode_or_raw = Known opcode | Raw int

record error_message =
  em_failed_opcode :: opcode_or_raw
  em_error_code :: error_code
  em_message :: pystr

fun failed_value :: "opcode_or_raw \<Rightarrow> int" where
  "failed_value (Known x) = opcode_value x"
| "failed_value (Raw v) = v"

definition UINT16_MAX :: int where "UINT16_MAX = 2 ^ 16 - 1"
definition UINT32_MAX :: int where "UINT32_MAX = 2 ^ 32 - 1"
definition UINT64_MAX :: int where "UINT64_MAX = 2 ^ 64 - 1"

lemmas uint_max_defs = UINT16_MAX_def UINT32_MAX_def UINT64_MAX_def

subsection \<open>\<open>_PayloadReader\<close>\<close>

record payload_reader =
  rd_payload :: "byte list"
  rd_offset :: nat

definition payload_reader :: "byte list \<Rightarrow> payload_reader" where
  "payload_reader payload = \<lparr>rd_payload = payload, rd_offset = 0\<rparr>"

definition rd_read :: "nat \<Rightarrow> pystr \<Rightarrow> payload_reader \<Rightarrow> exc + byte list \<times> payload_reader" where
  "rd_read count field r =
     (let end_offset = rd_offset r + count in
      if end_offset > length (rd_payload r) then
        Inl (protocol_error INVALID_PAYLOAD (lit ''payload is truncated while reading '' @ field))
      else Inr (take count (drop (rd_offset r) (rd_payload r)), r\<lparr>rd_offset := end_offset\<rparr>))"

definition rd_uint :: "nat \<Rightarrow> pystr \<Rightarrow> payload_reader \<Rightarrow> exc + int \<times> payload_reader" where
  "rd_uint k field r = bindE (rd_read k field r) (\<lambda>(b, r'). Inr (unpack_uint b, r'))"

definition rd_uint16 :: "pystr \<Rightarrow> payload_reader \<Rightarrow> exc + int \<times> payload_reader" where
  "rd_uint16 = rd_uint 2"

definition rd_uint32 :: "pystr \<Rightarrow> payload_reader \<Rightarrow> exc + int \<times> payload_reader" where
  "rd_uint32 = rd_uint 4"

definition rd_uint64 :: "pystr \<Rightarrow> payload_reader \<Rightarrow> exc + int \<times> payload_reader" where
  "rd_uint64 = rd_uint 8"

definition rd_remaining :: "payload_reader \<Rightarrow> byte list \<times> payload_reader" where
  "rd_remaining r = (drop (rd_offset r) (rd_payload r), r\<lparr>rd_offset := length (rd_payload r)\<rparr>)"

definition rd_finish :: "payload_reader \<Rightarrow> exc + unit" where
  "rd_finish r =
     guardE (rd_offset r = length (rd_payload r))
       (protocol_error INVALID_PAYLOAD
         (lit ''payload has '' @ dec_int (int (length (rd_payload r)) - int (rd_offset r))
           @ lit '' trailing bytes''))"

subsection \<open>Validation helpers\<close>

definition validate_uint :: "int \<Rightarrow> int \<Rightarrow> pystr \<Rightarrow> exc + unit" where
  "validate_uint value maximum field =
     guardE (0 \<le> value \<and> value \<le> maximum)
       (protocol_error INVALID_PAYLOAD
         (field @ lit '' must be an integer from 0 to '' @ dec_int maximum))"

definition validate_payload_size :: "byte list \<Rightarrow> int \<Rightarrow> exc + unit" where
  "validate_payload_size payload max_payload_bytes =
     guardE (int (length payload) \<le> max_payload_bytes)
       (protocol_error PAYLOAD_TOO_LARGE
         (lit ''payload contains '' @ dec_nat (length payload) @ lit '' bytes; maximum is ''
           @ dec_int max_payload_bytes))"

definition opcode_repr :: "opcode \<Rightarrow> pystr" where
  "opcode_repr x = lit ''<Opcode.'' @ opcode_name x @ lit '': '' @ dec_int (opcode_value x) @ lit ''>''"

definition validate_frame :: "frame \<Rightarrow> opcode \<Rightarrow> int \<Rightarrow> exc + unit" where
  "validate_frame fr op max_payload_bytes =
     bindE (guardE (fr_opcode fr = op)
       (protocol_error INVALID_PAYLOAD
         (lit ''expected '' @ opcode_name op @ lit '' frame, got '' @ opcode_repr (fr_opcode fr)))) (\<lambda>_.
     validate_payload_size (fr_payload fr) max_payload_bytes)"

definition is_username_byte :: "byte \<Rightarrow> bool" where
  "is_username_byte b \<longleftrightarrow>
     (let n = unat b in 65 \<le> n \<and> n \<le> 90 \<or> 97 \<le> n \<and> n \<le> 122 \<or> 48 \<le> n \<and> n \<le> 57 \<or> n = 95 \<or> n = 45)"

definition username_pattern_fullmatch :: "byte list \<Rightarrow> bool" where
  "username_pattern_fullmatch bs \<longleftrightarrow> bs \<noteq> [] \<and> list_all is_username_byte bs"

definition encode_username :: "pystr \<Rightarrow> exc + byte list" where
  "encode_username username =
     (case utf8_encode username of
        None \<Rightarrow> Inl (protocol_error INVALID_USERNAME (lit ''username is not valid UTF-8 text''))
      | Some encoded \<Rightarrow>
          bindE (guardE (1 \<le> length encoded \<and> int (length encoded) \<le> MAX_USERNAME_BYTES)
            (protocol_error INVALID_USERNAME
              (lit ''username must contain 1 to '' @ dec_int MAX_USERNAME_BYTES
                @ lit '' UTF-8 bytes''))) (\<lambda>_.
          bindE (guardE (username_pattern_fullmatch encoded)
            (protocol_error INVALID_USERNAME
              (lit ''username may contain only A-Z, a-z, 0-9, underscore, and hyphen''))) (\<lambda>_.
          Inr encoded)))"

definition decode_username :: "payload_reader \<Rightarrow> exc + pystr" where
  "decode_username reader =
     bindE (rd_uint16 (lit ''username_length'') reader) (\<lambda>(size16, r1).
     bindE (rd_read (nat size16) (lit ''username'') r1) (\<lambda>(encoded, r2).
     bindE (rd_finish r2) (\<lambda>_.
     case utf8_decode encoded of
       None \<Rightarrow> Inl (protocol_error INVALID_USERNAME (lit ''username is not valid UTF-8''))
     | Some username \<Rightarrow> bindE (encode_username username) (\<lambda>_. Inr username))))"

definition encode_filename :: "pystr \<Rightarrow> exc + byte list" where
  "encode_filename filename =
     (case utf8_encode filename of
        None \<Rightarrow> Inl (protocol_error INVALID_FILENAME (lit ''filename is not valid UTF-8 text''))
      | Some encoded \<Rightarrow>
          bindE (guardE (encoded \<noteq> [])
            (protocol_error INVALID_FILENAME (lit ''filename must not be empty''))) (\<lambda>_.
          bindE (guardE (int (length encoded) \<le> MAX_FILENAME_BYTES)
            (protocol_error INVALID_FILENAME
              (lit ''filename exceeds '' @ dec_int MAX_FILENAME_BYTES @ lit '' UTF-8 bytes''))) (\<lambda>_.
          bindE (guardE (filename \<noteq> lit ''.'' \<and> filename \<noteq> lit ''..'')
            (protocol_error INVALID_FILENAME
              (lit ''filename must not be a directory traversal component''))) (\<lambda>_.
          bindE (guardE (0 \<notin> set filename)
            (protocol_error INVALID_FILENAME (lit ''filename contains NUL''))) (\<lambda>_.
          bindE (guardE (of_char CHR ''/'' \<notin> set filename \<and> of_char CHR 0x5C \<notin> set filename)
            (protocol_error INVALID_FILENAME
              (lit ''filename must be a basename without path separators''))) (\<lambda>_.
          Inr encoded))))))"

definition decode_filename :: "payload_reader \<Rightarrow> exc + pystr \<times> payload_reader" where
  "decode_filename reader =
     bindE (rd_uint16 (lit ''filename_length'') reader) (\<lambda>(size16, r1).
     bindE (rd_read (nat size16) (lit ''filename'') r1) (\<lambda>(encoded, r2).
     case utf8_decode encoded of
       None \<Rightarrow> Inl (protocol_error INVALID_FILENAME (lit ''filename is not valid UTF-8''))
     | Some filename \<Rightarrow> bindE (encode_filename filename) (\<lambda>_. Inr (filename, r2))))"

definition filename_payload :: "pystr \<Rightarrow> exc + byte list" where
  "filename_payload filename =
     bindE (encode_filename filename) (\<lambda>encoded.
     Inr (pack_uint 2 (int (length encoded)) @ encoded))"

definition make_frame :: "opcode \<Rightarrow> byte list \<Rightarrow> int \<Rightarrow> int \<Rightarrow> exc + frame" where
  "make_frame op payload max_payload_bytes user_id =
     bindE (validate_payload_size payload max_payload_bytes) (\<lambda>_.
     make_frame_object op payload user_id max_payload_bytes)"

subsection \<open>LOGIN, DISCONNECT, FILE_LIST\<close>

definition login_user_id_error :: exc where
  "login_user_id_error = protocol_error INVALID_USER_ID (lit ''LOGIN frame USER_ID must be zero'')"

definition make_login_frame :: "login_request \<Rightarrow> int \<Rightarrow> int \<Rightarrow> exc + frame" where
  "make_login_frame message max_payload_bytes user_id =
     bindE (guardE (user_id = USER_ID) login_user_id_error) (\<lambda>_.
     bindE (encode_username (lr_username message)) (\<lambda>encoded.
     make_frame LOGIN (pack_uint 2 (int (length encoded)) @ encoded) max_payload_bytes user_id))"

definition parse_login :: "frame \<Rightarrow> int \<Rightarrow> exc + login_request" where
  "parse_login fr max_payload_bytes =
     bindE (validate_frame fr LOGIN max_payload_bytes) (\<lambda>_.
     bindE (guardE (fr_user_id fr = USER_ID) login_user_id_error) (\<lambda>_.
     bindE (decode_username (payload_reader (fr_payload fr))) (\<lambda>username.
     Inr \<lparr>lr_username = username\<rparr>)))"

definition parse_empty :: "frame \<Rightarrow> opcode \<Rightarrow> int \<Rightarrow> exc + unit" where
  "parse_empty fr op max_payload_bytes =
     bindE (validate_frame fr op max_payload_bytes) (\<lambda>_.
     guardE (fr_payload fr = [])
       (protocol_error INVALID_PAYLOAD (opcode_name op @ lit '' payload must be empty'')))"

definition make_disconnect_frame :: "int \<Rightarrow> int \<Rightarrow> exc + frame" where
  "make_disconnect_frame max_payload_bytes user_id =
     make_frame DISCONNECT [] max_payload_bytes user_id"

definition parse_disconnect :: "frame \<Rightarrow> int \<Rightarrow> exc + unit" where
  "parse_disconnect fr max_payload_bytes = parse_empty fr DISCONNECT max_payload_bytes"

definition make_file_list_frame :: "int \<Rightarrow> int \<Rightarrow> exc + frame" where
  "make_file_list_frame max_payload_bytes user_id =
     make_frame FILE_LIST [] max_payload_bytes user_id"

definition parse_file_list :: "frame \<Rightarrow> int \<Rightarrow> exc + unit" where
  "parse_file_list fr max_payload_bytes = parse_empty fr FILE_LIST max_payload_bytes"

subsection \<open>FILE_LIST_RESP\<close>

fun encode_entries :: "file_entry list \<Rightarrow> exc + byte list" where
  "encode_entries [] = Inr []"
| "encode_entries (entry # entries) =
     bindE (validate_uint (fe_file_size entry) UINT64_MAX (lit ''file_size'')) (\<lambda>_.
     bindE (filename_payload (fe_filename entry)) (\<lambda>name.
     bindE (encode_entries entries) (\<lambda>parts.
     Inr (name @ pack_uint 8 (fe_file_size entry) @ parts))))"

definition make_file_list_response_frame :: "file_entry list \<Rightarrow> int \<Rightarrow> int \<Rightarrow> exc + frame" where
  "make_file_list_response_frame entries max_payload_bytes user_id =
     bindE (validate_uint (int (length entries)) UINT32_MAX (lit ''file_count'')) (\<lambda>_.
     bindE (encode_entries entries) (\<lambda>parts.
     make_frame FILE_LIST_RESP (pack_uint 4 (int (length entries)) @ parts)
       max_payload_bytes user_id))"

fun decode_entries :: "nat \<Rightarrow> payload_reader \<Rightarrow> exc + file_entry list \<times> payload_reader" where
  "decode_entries 0 reader = Inr ([], reader)"
| "decode_entries (Suc n) reader =
     bindE (decode_filename reader) (\<lambda>(filename, r1).
     bindE (rd_uint64 (lit ''file_size'') r1) (\<lambda>(file_size, r2).
     bindE (decode_entries n r2) (\<lambda>(entries, r3).
     Inr (\<lparr>fe_filename = filename, fe_file_size = file_size\<rparr> # entries, r3))))"

definition parse_file_list_response :: "frame \<Rightarrow> int \<Rightarrow> exc + file_entry list" where
  "parse_file_list_response fr max_payload_bytes =
     bindE (validate_frame fr FILE_LIST_RESP max_payload_bytes) (\<lambda>_.
     bindE (rd_uint32 (lit ''file_count'') (payload_reader (fr_payload fr))) (\<lambda>(count, r1).
     bindE (decode_entries (nat count) r1) (\<lambda>(entries, r2).
     bindE (rd_finish r2) (\<lambda>_. Inr entries))))"

subsection \<open>FILE_UPLOAD, FILE_DOWNLOAD, FILE_INFO\<close>

definition make_file_upload_frame :: "file_upload \<Rightarrow> int \<Rightarrow> int \<Rightarrow> exc + frame" where
  "make_file_upload_frame message max_payload_bytes user_id =
     bindE (validate_uint (fu_total_size message) UINT64_MAX (lit ''total_size'')) (\<lambda>_.
     bindE (validate_uint (fu_start_offset message) UINT64_MAX (lit ''start_offset'')) (\<lambda>_.
     bindE (filename_payload (fu_filename message)) (\<lambda>name.
     make_frame FILE_UPLOAD
       (name @ pack_uint 8 (fu_total_size message) @ pack_uint 8 (fu_start_offset message))
       max_payload_bytes user_id)))"

definition parse_file_upload :: "frame \<Rightarrow> int \<Rightarrow> exc + file_upload" where
  "parse_file_upload fr max_payload_bytes =
     bindE (validate_frame fr FILE_UPLOAD max_payload_bytes) (\<lambda>_.
     bindE (decode_filename (payload_reader (fr_payload fr))) (\<lambda>(filename, r1).
     bindE (rd_uint64 (lit ''total_size'') r1) (\<lambda>(total_size, r2).
     bindE (rd_uint64 (lit ''start_offset'') r2) (\<lambda>(start_offset, r3).
     bindE (rd_finish r3) (\<lambda>_.
     Inr \<lparr>fu_filename = filename, fu_total_size = total_size, fu_start_offset = start_offset\<rparr>)))))"

definition make_file_download_frame :: "file_download \<Rightarrow> int \<Rightarrow> int \<Rightarrow> exc + frame" where
  "make_file_download_frame message max_payload_bytes user_id =
     bindE (validate_uint (fd_requested_offset message) UINT64_MAX (lit ''requested_offset'')) (\<lambda>_.
     bindE (filename_payload (fd_filename message)) (\<lambda>name.
     make_frame FILE_DOWNLOAD (name @ pack_uint 8 (fd_requested_offset message))
       max_payload_bytes user_id))"

definition parse_file_download :: "frame \<Rightarrow> int \<Rightarrow> exc + file_download" where
  "parse_file_download fr max_payload_bytes =
     bindE (validate_frame fr FILE_DOWNLOAD max_payload_bytes) (\<lambda>_.
     bindE (decode_filename (payload_reader (fr_payload fr))) (\<lambda>(filename, r1).
     bindE (rd_uint64 (lit ''requested_offset'') r1) (\<lambda>(requested_offset, r2).
     bindE (rd_finish r2) (\<lambda>_.
     Inr \<lparr>fd_filename = filename, fd_requested_offset = requested_offset\<rparr>))))"

definition make_file_info_frame :: "file_info \<Rightarrow> int \<Rightarrow> int \<Rightarrow> exc + frame" where
  "make_file_info_frame message max_payload_bytes user_id =
     bindE (validate_uint (fi_total_size message) UINT64_MAX (lit ''total_size'')) (\<lambda>_.
     bindE (validate_uint (fi_start_offset message) UINT64_MAX (lit ''start_offset'')) (\<lambda>_.
     bindE (filename_payload (fi_filename message)) (\<lambda>name.
     make_frame FILE_INFO
       (name @ pack_uint 8 (fi_total_size message) @ pack_uint 8 (fi_start_offset message))
       max_payload_bytes user_id)))"

definition parse_file_info :: "frame \<Rightarrow> int \<Rightarrow> exc + file_info" where
  "parse_file_info fr max_payload_bytes =
     bindE (validate_frame fr FILE_INFO max_payload_bytes) (\<lambda>_.
     bindE (decode_filename (payload_reader (fr_payload fr))) (\<lambda>(filename, r1).
     bindE (rd_uint64 (lit ''total_size'') r1) (\<lambda>(total_size, r2).
     bindE (rd_uint64 (lit ''start_offset'') r2) (\<lambda>(start_offset, r3).
     bindE (rd_finish r3) (\<lambda>_.
     Inr \<lparr>fi_filename = filename, fi_total_size = total_size, fi_start_offset = start_offset\<rparr>)))))"

subsection \<open>FILE_CHUNK, FILE_CHECKSUM\<close>

definition validate_chunk_data :: "byte list \<Rightarrow> int \<Rightarrow> exc + unit" where
  "validate_chunk_data data chunk_size_bytes =
     bindE (guardE (data \<noteq> [])
       (protocol_error INVALID_PAYLOAD (lit ''FILE_CHUNK data must contain at least one byte''))) (\<lambda>_.
     guardE (int (length data) \<le> chunk_size_bytes)
       (protocol_error INVALID_PAYLOAD
         (lit ''chunk data contains '' @ dec_nat (length data) @ lit '' bytes; maximum is ''
           @ dec_int chunk_size_bytes)))"

definition make_file_chunk_frame :: "file_chunk \<Rightarrow> int \<Rightarrow> int \<Rightarrow> int \<Rightarrow> exc + frame" where
  "make_file_chunk_frame message chunk_size_bytes max_payload_bytes user_id =
     bindE (validate_uint (fc_offset message) UINT64_MAX (lit ''offset'')) (\<lambda>_.
     bindE (validate_chunk_data (fc_data message) chunk_size_bytes) (\<lambda>_.
     make_frame FILE_CHUNK (pack_uint 8 (fc_offset message) @ fc_data message)
       max_payload_bytes user_id))"

definition parse_file_chunk :: "frame \<Rightarrow> int \<Rightarrow> int \<Rightarrow> exc + file_chunk" where
  "parse_file_chunk fr chunk_size_bytes max_payload_bytes =
     bindE (validate_frame fr FILE_CHUNK max_payload_bytes) (\<lambda>_.
     bindE (rd_uint64 (lit ''offset'') (payload_reader (fr_payload fr))) (\<lambda>(off, r1).
     case rd_remaining r1 of (data, r2) \<Rightarrow>
       bindE (validate_chunk_data data chunk_size_bytes) (\<lambda>_.
       Inr \<lparr>fc_offset = off, fc_data = data\<rparr>)))"

definition make_file_checksum_frame :: "file_checksum \<Rightarrow> int \<Rightarrow> int \<Rightarrow> exc + frame" where
  "make_file_checksum_frame message max_payload_bytes user_id =
     bindE (validate_uint (fk_final_size message) UINT64_MAX (lit ''final_size'')) (\<lambda>_.
     bindE (guardE (int (length (fk_sha256_digest message)) = SHA256_DIGEST_SIZE_BYTES)
       (protocol_error INVALID_PAYLOAD
         (lit ''sha256_digest must contain exactly '' @ dec_int SHA256_DIGEST_SIZE_BYTES
           @ lit '' raw bytes''))) (\<lambda>_.
     make_frame FILE_CHECKSUM (pack_uint 8 (fk_final_size message) @ fk_sha256_digest message)
       max_payload_bytes user_id))"

definition parse_file_checksum :: "frame \<Rightarrow> int \<Rightarrow> exc + file_checksum" where
  "parse_file_checksum fr max_payload_bytes =
     bindE (validate_frame fr FILE_CHECKSUM max_payload_bytes) (\<lambda>_.
     let expected_size = 8 + SHA256_DIGEST_SIZE_BYTES in
     bindE (guardE (int (length (fr_payload fr)) = expected_size)
       (protocol_error INVALID_PAYLOAD
         (lit ''FILE_CHECKSUM payload must contain exactly '' @ dec_int expected_size
           @ lit '' bytes''))) (\<lambda>_.
     Inr \<lparr>fk_final_size = unpack_uint (take 8 (fr_payload fr)),
          fk_sha256_digest = drop 8 (fr_payload fr)\<rparr>))"

subsection \<open>ACK, ERROR\<close>

definition decode_opcode :: "int \<Rightarrow> pystr \<Rightarrow> exc + opcode" where
  "decode_opcode raw_opcode field =
     (case opcode_of raw_opcode of
        Some x \<Rightarrow> Inr x
      | None \<Rightarrow> Inl (protocol_error INVALID_PAYLOAD
          (lit ''undefined '' @ field @ lit '' '' @ hex4 raw_opcode)))"

definition decode_opcode_or_raw :: "int \<Rightarrow> opcode_or_raw" where
  "decode_opcode_or_raw raw_opcode =
     (case opcode_of raw_opcode of Some x \<Rightarrow> Known x | None \<Rightarrow> Raw raw_opcode)"

definition make_acknowledgement_frame :: "acknowledgement \<Rightarrow> int \<Rightarrow> int \<Rightarrow> exc + frame" where
  "make_acknowledgement_frame message max_payload_bytes user_id =
     bindE (validate_uint (ak_next_offset message) UINT64_MAX (lit ''next_offset'')) (\<lambda>_.
     make_frame ACK (pack_uint 2 (opcode_value (ak_acknowledged_opcode message))
       @ pack_uint 8 (ak_next_offset message)) max_payload_bytes user_id)"

definition parse_acknowledgement :: "frame \<Rightarrow> int \<Rightarrow> exc + acknowledgement" where
  "parse_acknowledgement fr max_payload_bytes =
     bindE (validate_frame fr ACK max_payload_bytes) (\<lambda>_.
     bindE (guardE (length (fr_payload fr) = 10)
       (protocol_error INVALID_PAYLOAD
         (lit ''ACK payload must contain exactly '' @ dec_nat 10 @ lit '' bytes''))) (\<lambda>_.
     let raw_opcode = unpack_uint (take 2 (fr_payload fr));
         next_offset = unpack_uint (drop 2 (fr_payload fr)) in
     bindE (decode_opcode raw_opcode (lit ''acknowledged_opcode'')) (\<lambda>op.
     Inr \<lparr>ak_acknowledged_opcode = op, ak_next_offset = next_offset\<rparr>)))"

definition make_error_frame :: "error_message \<Rightarrow> int \<Rightarrow> int \<Rightarrow> exc + frame" where
  "make_error_frame message max_payload_bytes user_id =
     bindE (guardE (0 \<le> failed_value (em_failed_opcode message)
                    \<and> failed_value (em_failed_opcode message) \<le> UINT16_MAX)
       (protocol_error INVALID_PAYLOAD
         (lit ''failed_opcode must be an integer from 0 to '' @ dec_int UINT16_MAX))) (\<lambda>_.
     case utf8_encode (em_message message) of
       None \<Rightarrow> Inl (protocol_error INVALID_PAYLOAD (lit ''ERROR message is not valid UTF-8 text''))
     | Some encoded \<Rightarrow>
         bindE (guardE (int (length encoded) \<le> UINT16_MAX)
           (protocol_error INVALID_PAYLOAD
             (lit ''ERROR message exceeds uint16 message_length''))) (\<lambda>_.
         make_frame ERROR (pack_uint 2 (failed_value (em_failed_opcode message))
           @ pack_uint 2 (error_value (em_error_code message))
           @ pack_uint 2 (int (length encoded)) @ encoded) max_payload_bytes user_id))"

definition parse_error :: "frame \<Rightarrow> int \<Rightarrow> exc + error_message" where
  "parse_error fr max_payload_bytes =
     bindE (validate_frame fr ERROR max_payload_bytes) (\<lambda>_.
     bindE (rd_uint16 (lit ''failed_opcode'') (payload_reader (fr_payload fr))) (\<lambda>(raw_failed, r1).
     bindE (rd_uint16 (lit ''error_code'') r1) (\<lambda>(raw_error_code, r2).
     bindE (rd_uint16 (lit ''message_length'') r2) (\<lambda>(message_size, r3).
     bindE (rd_read (nat message_size) (lit ''message'') r3) (\<lambda>(encoded, r4).
     bindE (rd_finish r4) (\<lambda>_.
     case error_of raw_error_code of
       None \<Rightarrow> Inl (protocol_error INVALID_PAYLOAD
         (lit ''undefined error_code '' @ hex4 raw_error_code))
     | Some code \<Rightarrow>
         (case utf8_decode encoded of
            None \<Rightarrow> Inl (protocol_error INVALID_PAYLOAD (lit ''ERROR message is not valid UTF-8''))
          | Some msg \<Rightarrow> Inr \<lparr>em_failed_opcode = decode_opcode_or_raw raw_failed,
              em_error_code = code, em_message = msg\<rparr>)))))))"

subsection \<open>\<open>decode_message\<close>\<close>

text \<open>The object \<open>decode_message\<close> returns; the empty payloads parse to \<open>None\<close>.\<close>

datatype message =
    NoMessage
  | LoginRequest login_request
  | FileListResponse "file_entry list"
  | FileUpload file_upload
  | FileDownload file_download
  | FileInfo file_info
  | FileChunk file_chunk
  | FileChecksum file_checksum
  | Acknowledgement acknowledgement
  | ErrorMessage error_message

definition map_res :: "('a \<Rightarrow> 'b) \<Rightarrow> exc + 'a \<Rightarrow> exc + 'b" where
  "map_res f m = bindE m (\<lambda>a. Inr (f a))"

fun parser_for :: "opcode \<Rightarrow> (frame \<Rightarrow> int \<Rightarrow> exc + message) option" where
  "parser_for LOGIN = Some (\<lambda>fr n. map_res LoginRequest (parse_login fr n))"
| "parser_for DISCONNECT = Some (\<lambda>fr n. map_res (\<lambda>_. NoMessage) (parse_disconnect fr n))"
| "parser_for FILE_LIST = Some (\<lambda>fr n. map_res (\<lambda>_. NoMessage) (parse_file_list fr n))"
| "parser_for FILE_LIST_RESP = Some (\<lambda>fr n. map_res FileListResponse (parse_file_list_response fr n))"
| "parser_for FILE_UPLOAD = Some (\<lambda>fr n. map_res FileUpload (parse_file_upload fr n))"
| "parser_for FILE_DOWNLOAD = Some (\<lambda>fr n. map_res FileDownload (parse_file_download fr n))"
| "parser_for FILE_INFO = Some (\<lambda>fr n. map_res FileInfo (parse_file_info fr n))"
| "parser_for FILE_CHECKSUM = Some (\<lambda>fr n. map_res FileChecksum (parse_file_checksum fr n))"
| "parser_for ACK = Some (\<lambda>fr n. map_res Acknowledgement (parse_acknowledgement fr n))"
| "parser_for ERROR = Some (\<lambda>fr n. map_res ErrorMessage (parse_error fr n))"
| "parser_for _ = None"

definition decode_message :: "frame \<Rightarrow> int \<Rightarrow> int \<Rightarrow> exc + message" where
  "decode_message fr max_payload_bytes chunk_size_bytes =
     (if fr_opcode fr = FILE_CHUNK then
        map_res FileChunk (parse_file_chunk fr chunk_size_bytes max_payload_bytes)
      else
        let parser = parser_for (fr_opcode fr) in
        if fr_opcode fr = FILE_DELETE \<or> parser = None then
          Inl (protocol_error UNSUPPORTED_OPCODE
            (lit ''opcode '' @ hex4 (opcode_value (fr_opcode fr)) @ lit '' is not supported''))
        else the parser fr max_payload_bytes)"

definition validate_message :: "frame \<Rightarrow> int \<Rightarrow> int \<Rightarrow> exc + unit" where
  "validate_message fr max_payload_bytes chunk_size_bytes =
     bindE (decode_message fr max_payload_bytes chunk_size_bytes) (\<lambda>_. Inr ())"

lemma map_res_Inr [result_simps]: "map_res f m = Inr b \<longleftrightarrow> (\<exists>a. m = Inr a \<and> b = f a)"
  by (auto simp: map_res_def result_simps)

lemma map_res_Inl [result_simps]: "map_res f m = Inl e \<longleftrightarrow> m = Inl e"
  by (auto simp: map_res_def result_simps)

lemma map_res_simps [simp]: "map_res f (Inr a) = Inr (f a)" "map_res f (Inl e) = Inl e"
  by (simp_all add: map_res_def)

end
