(* ===== verification/Codecs.thy ===== *)
theory Codecs
  imports Messages
begin

section \<open>Every message codec is exact\<close>

text \<open>
  The proofs about \<open>messages.py\<close>.  A reader step is described by \<open>field_codec\<close>: started
  at a position of the payload it succeeds exactly when the unread bytes begin with an
  encoding of the value, and stops right after it.  Each \<open>parse\<close> function is then the
  inverse of its \<open>make\<close> function in both directions (locale \<open>message_codec\<close>): what is made
  is parsed back, and what is parsed is the encoding of exactly one message.
\<close>

subsection \<open>Reader steps\<close>

definition reader_at :: "byte list \<Rightarrow> byte list \<Rightarrow> payload_reader" where
  "reader_at d s = \<lparr>rd_payload = d @ s, rd_offset = length d\<rparr>"

definition field_codec ::
  "(payload_reader \<Rightarrow> exc + 'a \<times> payload_reader) \<Rightarrow> ('a \<Rightarrow> byte list \<Rightarrow> bool) \<Rightarrow> bool" where
  "field_codec m enc \<longleftrightarrow>
     (\<forall>d s v r. m (reader_at d s) = Inr (v, r) \<longleftrightarrow>
        (\<exists>b post. enc v b \<and> s = b @ post \<and> r = reader_at (d @ b) post))"

named_theorems field_codecs \<open>the encodings that reader steps invert\<close>

lemma payload_reader_at: "payload_reader p = reader_at [] p"
  by (simp add: payload_reader_def reader_at_def)

lemma rd_finish_at: "rd_finish (reader_at d s) = Inr u \<longleftrightarrow> s = []"
  by (auto simp: rd_finish_def reader_at_def result_simps)

lemma rd_remaining_at: "rd_remaining (reader_at d s) = (s, reader_at (d @ s) [])"
  by (simp add: rd_remaining_def reader_at_def)

lemma field_codecD:
  "field_codec m enc \<Longrightarrow> m (reader_at d s) = Inr (v, r) \<longleftrightarrow>
     (\<exists>b post. enc v b \<and> s = b @ post \<and> r = reader_at (d @ b) post)"
  by (simp add: field_codec_def)

lemma read_codec: "field_codec (rd_read n field) (\<lambda>v b. length v = n \<and> b = v)"
proof -
  have "rd_read n field (reader_at d s) = Inr (v, r) \<longleftrightarrow>
      (\<exists>post. length v = n \<and> s = v @ post \<and> r = reader_at (d @ v) post)" for d s v r
    unfolding rd_read_def reader_at_def Let_def
    by (auto intro: exI [of _ "drop n s"] dest: sym)
  then show ?thesis by (auto simp: field_codec_def)
qed

lemma uint_codec: "field_codec (rd_uint k field) (\<lambda>v b. uint_fits k v \<and> b = pack_uint k v)"
  unfolding field_codec_def rd_uint_def result_simps
  by (auto simp: field_codecD [OF read_codec] split: prod.splits)
    (metis length_pack_uint uint_fits_unpack pack_unpack_uint unpack_pack_uint)+

lemmas uint_codecs = uint_codec [of 2, folded rd_uint16_def] uint_codec [of 4, folded rd_uint32_def]
  uint_codec [of 8, folded rd_uint64_def]

text \<open>Sequencing: the second step starts where the first one stopped.\<close>

lemma bind_codec:
  assumes "field_codec m enc"
  shows "bindE (m (reader_at d s)) (\<lambda>(v, r). f v r) = Inr x \<longleftrightarrow>
    (\<exists>v b post. enc v b \<and> s = b @ post \<and> f v (reader_at (d @ b) post) = Inr x)"
  unfolding result_simps using field_codecD [OF assms] by (auto split: prod.splits)

lemmas bind_uint16 = bind_codec [OF uint_codecs(1)]
  and bind_uint32 = bind_codec [OF uint_codecs(2)]
  and bind_uint64 = bind_codec [OF uint_codecs(3)]
  and bind_read = bind_codec [OF read_codec]

subsection \<open>Names\<close>

lemma encode_username_Inr:
  "encode_username name = Inr b \<longleftrightarrow> utf8_encode name = Some b
     \<and> 1 \<le> length b \<and> length b \<le> 32 \<and> username_pattern_fullmatch b"
  by (auto simp: encode_username_def result_simps MAX_USERNAME_BYTES_def split: option.splits)

lemma encode_filename_Inr:
  "encode_filename name = Inr b \<longleftrightarrow> utf8_encode name = Some b \<and> b \<noteq> [] \<and> length b \<le> 255
     \<and> name \<noteq> lit ''.'' \<and> name \<noteq> lit ''..'' \<and> 0 \<notin> set name
     \<and> of_char CHR ''/'' \<notin> set name \<and> of_char CHR 0x5C \<notin> set name"
  by (auto simp: encode_filename_def result_simps MAX_FILENAME_BYTES_def split: option.splits)

lemma fits_length: "length b \<le> 255 \<Longrightarrow> uint_fits 2 (int (length b))"
  by (simp add: uint_fits_def)

lemma filename_payload_Inr:
  "filename_payload name = Inr b \<longleftrightarrow>
     (\<exists>enc. encode_filename name = Inr enc \<and> b = pack_uint 2 (int (length enc)) @ enc)"
  by (auto simp: filename_payload_def result_simps)

lemma uint16_length: "uint_fits 2 n \<Longrightarrow> length b = nat n \<Longrightarrow> n = int (length b)"
  by (simp add: uint_fits_def)

lemma filename_codec: "field_codec decode_filename (\<lambda>name b. filename_payload name = Inr b)"
proof -
  have "decode_filename (reader_at d s) = Inr (name, r) \<longleftrightarrow>
      (\<exists>b post. filename_payload name = Inr b \<and> s = b @ post \<and> r = reader_at (d @ b) post)"
    for d s name r
  proof
    assume "decode_filename (reader_at d s) = Inr (name, r)"
    then obtain n enc post e' where n: "uint_fits 2 n" "length enc = nat n"
      and s: "s = pack_uint 2 n @ enc @ post" and dec: "utf8_decode enc = Some name"
      and e': "encode_filename name = Inr e'" and r: "r = reader_at ((d @ pack_uint 2 n) @ enc) post"
      unfolding decode_filename_def bind_uint16 bind_read
      by (auto simp: result_simps split: option.splits)
    have "e' = enc" using dec e' by (simp add: encode_filename_Inr utf8.encode_iff_decode [symmetric])
    have len: "n = int (length enc)" using n by (rule uint16_length)
    show "\<exists>b post. filename_payload name = Inr b \<and> s = b @ post \<and> r = reader_at (d @ b) post"
    proof (intro exI conjI)
      show "filename_payload name = Inr (pack_uint 2 n @ enc)"
        using e' \<open>e' = enc\<close> by (simp add: filename_payload_Inr len)
      show "s = (pack_uint 2 n @ enc) @ post" using s by simp
      show "r = reader_at (d @ pack_uint 2 n @ enc) post" using r by simp
    qed
  next
    assume "\<exists>b post. filename_payload name = Inr b \<and> s = b @ post \<and> r = reader_at (d @ b) post"
    then obtain enc post where enc: "encode_filename name = Inr enc"
      and s: "s = pack_uint 2 (int (length enc)) @ enc @ post"
      and r: "r = reader_at (d @ pack_uint 2 (int (length enc)) @ enc) post"
      by (auto simp: filename_payload_Inr)
    have "utf8_decode enc = Some name" "length enc \<le> 255"
      using enc by (simp_all add: encode_filename_Inr utf8.encode_iff_decode)
    with enc s r show "decode_filename (reader_at d s) = Inr (name, r)"
      unfolding decode_filename_def bind_uint16 bind_read
      by (intro exI [of _ "int (length enc)"] exI conjI) (auto intro: fits_length)
  qed
  then show ?thesis by (simp add: field_codec_def)
qed

lemmas bind_filename = bind_codec [OF filename_codec]

lemma validate_uint64: "validate_uint v UINT64_MAX field = Inr u \<longleftrightarrow> uint_fits 8 v"
  by (simp add: validate_uint_def result_simps UINT64_MAX_def uint_fits_def) linarith

lemma validate_uint32: "validate_uint v UINT32_MAX field = Inr u \<longleftrightarrow> uint_fits 4 v"
  by (simp add: validate_uint_def result_simps UINT32_MAX_def uint_fits_def) linarith

lemma entries_codec:
  "field_codec (decode_entries n) (\<lambda>es b. length es = n \<and> encode_entries es = Inr b)"
proof (induction n)
  case 0
  then show ?case by (auto simp: field_codec_def)
next
  case (Suc n)
  have "decode_entries (Suc n) (reader_at d s) = Inr (es, r) \<longleftrightarrow>
      (\<exists>b post. (length es = Suc n \<and> encode_entries es = Inr b) \<and> s = b @ post
         \<and> r = reader_at (d @ b) post)" (is "?run \<longleftrightarrow> ?enc") for d s es r
  proof -
    have run: "?run \<longleftrightarrow> (\<exists>name size64 es' nb eb post. es = \<lparr>fe_filename = name, fe_file_size = size64\<rparr> # es'
        \<and> filename_payload name = Inr nb \<and> uint_fits 8 size64 \<and> length es' = n
        \<and> encode_entries es' = Inr eb \<and> s = nb @ pack_uint 8 size64 @ eb @ post
        \<and> r = reader_at (d @ nb @ pack_uint 8 size64 @ eb) post)" (is "_ \<longleftrightarrow> ?R")
    proof
      assume ?run
      then show ?R
        unfolding decode_entries.simps bind_filename bind_uint64 bind_codec [OF Suc] by auto
    next
      assume ?R
      then obtain name size64 es' nb eb post where
          es: "es = \<lparr>fe_filename = name, fe_file_size = size64\<rparr> # es'"
        and parts: "filename_payload name = Inr nb" "uint_fits 8 size64" "length es' = n"
          "encode_entries es' = Inr eb"
        and s: "s = nb @ pack_uint 8 size64 @ eb @ post"
        and r: "r = reader_at (d @ nb @ pack_uint 8 size64 @ eb) post"
        by blast
      show ?run
        unfolding decode_entries.simps bind_filename bind_uint64 bind_codec [OF Suc]
        by (intro exI [of _ name] exI [of _ size64] exI [of _ es'] exI [of _ nb] exI [of _ eb]
            exI conjI) (rule parts refl | simp add: es s r)+
    qed
    have enc: "?enc \<longleftrightarrow> (\<exists>name size64 es' nb eb post. es = \<lparr>fe_filename = name, fe_file_size = size64\<rparr> # es'
        \<and> filename_payload name = Inr nb \<and> uint_fits 8 size64 \<and> length es' = n
        \<and> encode_entries es' = Inr eb \<and> s = nb @ pack_uint 8 size64 @ eb @ post
        \<and> r = reader_at (d @ nb @ pack_uint 8 size64 @ eb) post)"
      by (cases es; cases "hd es") (auto simp: result_simps validate_uint64)
    show ?thesis unfolding run enc by (rule refl)
  qed
  then show ?case by (simp add: field_codec_def)
qed

lemmas bind_entries = bind_codec [OF entries_codec]

subsection \<open>The contract of a message codec\<close>

lemma make_frame_Inr:
  "make_frame op payload maximum user = Inr fr \<longleftrightarrow>
     fr = \<lparr>fr_opcode = op, fr_payload = payload, fr_user_id = user\<rparr> \<and> wf_frame maximum fr"
  by (auto simp: make_frame_def validate_payload_size_def result_simps make_frame_object_Inr
      wf_frame_def)

lemma validate_frame_Inr:
  "wf_frame maximum fr \<Longrightarrow> validate_frame fr op maximum = Inr u \<longleftrightarrow> fr_opcode fr = op"
  by (simp add: validate_frame_def validate_payload_size_def result_simps wf_frame_def)

text \<open>
  \<open>body m b\<close>: the bytes \<open>b\<close> are a payload of the message \<open>m\<close>.  \<open>user\<close> says which
  \<open>USER_ID\<close>s the message may carry and \<open>canonical\<close> which of the objects with the same
  payload the parser returns (only \<open>ERROR\<close> has two: a raw value of a defined opcode).
\<close>

locale message_codec =
  fixes make :: "'m \<Rightarrow> int \<Rightarrow> int \<Rightarrow> exc + frame"
    and parse :: "frame \<Rightarrow> int \<Rightarrow> exc + 'm"
    and op :: opcode
    and user :: "int \<Rightarrow> bool"
    and body :: "'m \<Rightarrow> byte list \<Rightarrow> bool"
    and canonical :: "'m \<Rightarrow> bool"
  assumes make_Inr: "make m mx u = Inr fr \<longleftrightarrow>
      user u \<and> body m (fr_payload fr) \<and> fr_opcode fr = op \<and> fr_user_id fr = u \<and> wf_frame mx fr"
    and parse_Inr: "wf_frame mx fr \<Longrightarrow> parse fr mx = Inr m \<longleftrightarrow>
      user (fr_user_id fr) \<and> body m (fr_payload fr) \<and> fr_opcode fr = op \<and> canonical m"
begin

lemma make_wf: "make m mx u = Inr fr \<Longrightarrow> wf_frame mx fr \<and> fr_opcode fr = op \<and> fr_user_id fr = u"
  by (simp add: make_Inr)

lemma parse_make: "make m mx u = Inr fr \<Longrightarrow> canonical m \<Longrightarrow> parse fr mx = Inr m"
  using make_wf parse_Inr make_Inr by blast

lemma parse_iff_make:
  "wf_frame mx fr \<Longrightarrow> parse fr mx = Inr m \<longleftrightarrow> canonical m \<and> make m mx (fr_user_id fr) = Inr fr"
  by (auto simp: parse_Inr make_Inr)

lemma parse_inject:
  assumes "wf_frame mx f" "wf_frame mx g" "parse f mx = Inr m" "parse g mx = Inr m"
    "fr_user_id f = fr_user_id g"
  shows "f = g"
proof -
  have "make m mx (fr_user_id f) = Inr f" "make m mx (fr_user_id f) = Inr g"
    using assms by (simp_all add: parse_iff_make)
  then show ?thesis by simp
qed

lemma over_the_wire:
  assumes "make m mx u = Inr fr" "canonical m" "mx < 2 ^ 32 - 4"
    and "delivers s" "pending s = frame_bytes fr @ rest"
  shows "\<exists>fr s'. receive_frame mx s = (Inr (Some fr), s') \<and> pending s' = rest
    \<and> fr_user_id fr = u \<and> parse fr mx = Inr m"
proof -
  obtain r s' where run: "receive_frame mx s = (r, s')" by fastforce
  from receive_frame_parse [OF assms(4) run] parse_frame_bytes [of mx fr rest] assms(3,5)
    make_wf [OF assms(1)]
  have "r = Inr (Some fr)" "pending s' = rest" by simp_all
  with run make_wf [OF assms(1)] parse_make [OF assms(1,2)] show ?thesis by blast
qed

end

lemma bind_validate_frame:
  "wf_frame maximum fr \<Longrightarrow>
     bindE (validate_frame fr op maximum) f = Inr x \<longleftrightarrow> fr_opcode fr = op \<and> f () = Inr x"
  by (simp add: bindE_eq_Inr validate_frame_Inr)

lemma bind_guard_Inr: "bindE (guardE c e) f = Inr x \<longleftrightarrow> c \<and> f () = Inr x"
  by (simp add: bindE_guardE)

lemma bind_finish_at: "bindE (rd_finish (reader_at d s)) f = Inr x \<longleftrightarrow> s = [] \<and> f () = Inr x"
  by (simp add: bindE_eq_Inr rd_finish_at)

lemmas parse_steps = bind_guard_Inr bind_finish_at payload_reader_at bind_filename bind_entries
  bind_uint16 bind_uint32 bind_uint64 bind_read

lemmas make_steps = bindE_eq_Inr guardE_eq_Inr validate_uint64 validate_uint32 make_frame_Inr

subsection \<open>The payload of each message\<close>

definition login_body :: "login_request \<Rightarrow> byte list \<Rightarrow> bool" where
  "login_body m b \<longleftrightarrow> (\<exists>enc. encode_username (lr_username m) = Inr enc
     \<and> b = pack_uint 2 (int (length enc)) @ enc)"

definition list_body :: "file_entry list \<Rightarrow> byte list \<Rightarrow> bool" where
  "list_body es b \<longleftrightarrow> uint_fits 4 (int (length es)) \<and>
     (\<exists>parts. encode_entries es = Inr parts \<and> b = pack_uint 4 (int (length es)) @ parts)"

definition upload_body :: "file_upload \<Rightarrow> byte list \<Rightarrow> bool" where
  "upload_body m b \<longleftrightarrow> uint_fits 8 (fu_total_size m) \<and> uint_fits 8 (fu_start_offset m) \<and>
     (\<exists>name. filename_payload (fu_filename m) = Inr name
        \<and> b = name @ pack_uint 8 (fu_total_size m) @ pack_uint 8 (fu_start_offset m))"

definition download_body :: "file_download \<Rightarrow> byte list \<Rightarrow> bool" where
  "download_body m b \<longleftrightarrow> uint_fits 8 (fd_requested_offset m) \<and>
     (\<exists>name. filename_payload (fd_filename m) = Inr name
        \<and> b = name @ pack_uint 8 (fd_requested_offset m))"

definition info_body :: "file_info \<Rightarrow> byte list \<Rightarrow> bool" where
  "info_body m b \<longleftrightarrow> uint_fits 8 (fi_total_size m) \<and> uint_fits 8 (fi_start_offset m) \<and>
     (\<exists>name. filename_payload (fi_filename m) = Inr name
        \<and> b = name @ pack_uint 8 (fi_total_size m) @ pack_uint 8 (fi_start_offset m))"

definition chunk_body :: "int \<Rightarrow> file_chunk \<Rightarrow> byte list \<Rightarrow> bool" where
  "chunk_body chunk m b \<longleftrightarrow> uint_fits 8 (fc_offset m) \<and> fc_data m \<noteq> []
     \<and> int (length (fc_data m)) \<le> chunk \<and> b = pack_uint 8 (fc_offset m) @ fc_data m"

definition checksum_body :: "file_checksum \<Rightarrow> byte list \<Rightarrow> bool" where
  "checksum_body m b \<longleftrightarrow> uint_fits 8 (fk_final_size m) \<and> length (fk_sha256_digest m) = 32
     \<and> b = pack_uint 8 (fk_final_size m) @ fk_sha256_digest m"

definition ack_body :: "acknowledgement \<Rightarrow> byte list \<Rightarrow> bool" where
  "ack_body m b \<longleftrightarrow> uint_fits 8 (ak_next_offset m)
     \<and> b = pack_uint 2 (opcode_value (ak_acknowledged_opcode m)) @ pack_uint 8 (ak_next_offset m)"

definition error_body :: "error_message \<Rightarrow> byte list \<Rightarrow> bool" where
  "error_body m b \<longleftrightarrow> uint_fits 2 (failed_value (em_failed_opcode m)) \<and>
     (\<exists>enc. utf8_encode (em_message m) = Some enc \<and> uint_fits 2 (int (length enc))
        \<and> b = pack_uint 2 (failed_value (em_failed_opcode m))
            @ pack_uint 2 (error_value (em_error_code m)) @ pack_uint 2 (int (length enc)) @ enc)"

definition canonical_error :: "error_message \<Rightarrow> bool" where
  "canonical_error m \<longleftrightarrow> (case em_failed_opcode m of Known x \<Rightarrow> True | Raw v \<Rightarrow> opcode_of v = None)"

subsection \<open>Every message is such a codec\<close>

interpretation upload: message_codec make_file_upload_frame parse_file_upload FILE_UPLOAD
  "\<lambda>u. True" upload_body "\<lambda>m. True"
proof
  fix m mx u fr
  show "make_file_upload_frame m mx u = Inr fr \<longleftrightarrow> True \<and> upload_body m (fr_payload fr)
      \<and> fr_opcode fr = FILE_UPLOAD \<and> fr_user_id fr = u \<and> wf_frame mx fr"
    unfolding make_file_upload_frame_def make_steps upload_body_def by (cases fr) auto
  assume wf: "wf_frame mx fr"
  show "parse_file_upload fr mx = Inr m \<longleftrightarrow> True \<and> upload_body m (fr_payload fr)
      \<and> fr_opcode fr = FILE_UPLOAD \<and> True"
    unfolding parse_file_upload_def bind_validate_frame [OF wf] parse_steps upload_body_def
    by (cases m) auto
qed

interpretation download: message_codec make_file_download_frame parse_file_download FILE_DOWNLOAD
  "\<lambda>u. True" download_body "\<lambda>m. True"
proof
  fix m mx u fr
  show "make_file_download_frame m mx u = Inr fr \<longleftrightarrow> True \<and> download_body m (fr_payload fr)
      \<and> fr_opcode fr = FILE_DOWNLOAD \<and> fr_user_id fr = u \<and> wf_frame mx fr"
    unfolding make_file_download_frame_def make_steps download_body_def by (cases fr) auto
  assume wf: "wf_frame mx fr"
  show "parse_file_download fr mx = Inr m \<longleftrightarrow> True \<and> download_body m (fr_payload fr)
      \<and> fr_opcode fr = FILE_DOWNLOAD \<and> True"
    unfolding parse_file_download_def bind_validate_frame [OF wf] parse_steps download_body_def
    by (cases m) auto
qed

interpretation info: message_codec make_file_info_frame parse_file_info FILE_INFO
  "\<lambda>u. True" info_body "\<lambda>m. True"
proof
  fix m mx u fr
  show "make_file_info_frame m mx u = Inr fr \<longleftrightarrow> True \<and> info_body m (fr_payload fr)
      \<and> fr_opcode fr = FILE_INFO \<and> fr_user_id fr = u \<and> wf_frame mx fr"
    unfolding make_file_info_frame_def make_steps info_body_def by (cases fr) auto
  assume wf: "wf_frame mx fr"
  show "parse_file_info fr mx = Inr m \<longleftrightarrow> True \<and> info_body m (fr_payload fr)
      \<and> fr_opcode fr = FILE_INFO \<and> True"
    unfolding parse_file_info_def bind_validate_frame [OF wf] parse_steps info_body_def
    by (cases m) auto
qed

lemma decode_username_Inr:
  "decode_username (reader_at [] s) = Inr name \<longleftrightarrow>
     (\<exists>enc. encode_username name = Inr enc \<and> s = pack_uint 2 (int (length enc)) @ enc)"
proof
  assume run: "decode_username (reader_at [] s) = Inr name"
  obtain n enc where n: "uint_fits 2 n" "length enc = nat n" and s: "s = pack_uint 2 n @ enc"
    and name: "(case utf8_decode enc of
       None \<Rightarrow> Inl (protocol_error INVALID_USERNAME (lit ''username is not valid UTF-8''))
     | Some username \<Rightarrow> bindE (encode_username username) (\<lambda>_. Inr username)) = Inr name"
    using run unfolding decode_username_def parse_steps by auto
  obtain e' where dec: "utf8_decode enc = Some name" and e': "encode_username name = Inr e'"
    using name by (cases "utf8_decode enc") (auto simp: bindE_eq_Inr)
  have "e' = enc" using dec e' by (simp add: encode_username_Inr utf8.encode_iff_decode [symmetric])
  with e' s uint16_length [OF n]
  show "\<exists>enc. encode_username name = Inr enc \<and> s = pack_uint 2 (int (length enc)) @ enc" by blast
next
  assume "\<exists>enc. encode_username name = Inr enc \<and> s = pack_uint 2 (int (length enc)) @ enc"
  then obtain enc where enc: "encode_username name = Inr enc"
    and s: "s = pack_uint 2 (int (length enc)) @ enc" by blast
  have "utf8_decode enc = Some name" "length enc \<le> 255"
    using enc by (simp_all add: encode_username_Inr utf8.encode_iff_decode)
  with enc s show "decode_username (reader_at [] s) = Inr name"
    unfolding decode_username_def parse_steps
    by (intro exI [of _ "int (length enc)"] exI [of _ enc] exI conjI)
      (auto intro: fits_length)
qed

interpretation login: message_codec make_login_frame parse_login LOGIN
  "\<lambda>u. u = 0" login_body "\<lambda>m. True"
proof
  fix m mx u fr
  show "make_login_frame m mx u = Inr fr \<longleftrightarrow> u = 0 \<and> login_body m (fr_payload fr)
      \<and> fr_opcode fr = LOGIN \<and> fr_user_id fr = u \<and> wf_frame mx fr"
    unfolding make_login_frame_def make_steps login_body_def USER_ID_def by (cases fr) auto
  assume wf: "wf_frame mx fr"
  show "parse_login fr mx = Inr m \<longleftrightarrow> fr_user_id fr = 0 \<and> login_body m (fr_payload fr)
      \<and> fr_opcode fr = LOGIN \<and> True"
    unfolding parse_login_def bind_validate_frame [OF wf] bind_guard_Inr payload_reader_at
      bindE_eq_Inr decode_username_Inr guardE_eq_Inr validate_frame_Inr [OF wf] login_body_def
      USER_ID_def
    by (cases m) auto
qed

lemma parse_empty_Inr:
  "wf_frame mx fr \<Longrightarrow> parse_empty fr op mx = Inr u \<longleftrightarrow> fr_opcode fr = op \<and> fr_payload fr = []"
  by (simp add: parse_empty_def bind_validate_frame guardE_eq_Inr)

interpretation disconnect: message_codec "\<lambda>_ :: unit. make_disconnect_frame" parse_disconnect
  DISCONNECT "\<lambda>u. True" "\<lambda>m b. b = []" "\<lambda>m. True"
  by unfold_locales
    (auto simp: make_disconnect_frame_def make_frame_Inr parse_disconnect_def parse_empty_Inr)

interpretation listing: message_codec "\<lambda>_ :: unit. make_file_list_frame" parse_file_list
  FILE_LIST "\<lambda>u. True" "\<lambda>m b. b = []" "\<lambda>m. True"
  by unfold_locales
    (auto simp: make_file_list_frame_def make_frame_Inr parse_file_list_def parse_empty_Inr)

lemma list_count: "uint_fits 4 n \<Longrightarrow> length es = nat n \<longleftrightarrow> n = int (length es)"
  by (auto simp: uint_fits_def)

interpretation entries: message_codec make_file_list_response_frame parse_file_list_response
  FILE_LIST_RESP "\<lambda>u. True" list_body "\<lambda>m. True"
proof
  fix m mx u fr
  show "make_file_list_response_frame m mx u = Inr fr \<longleftrightarrow> True \<and> list_body m (fr_payload fr)
      \<and> fr_opcode fr = FILE_LIST_RESP \<and> fr_user_id fr = u \<and> wf_frame mx fr"
    unfolding make_file_list_response_frame_def make_steps list_body_def by (cases fr) auto
  assume wf: "wf_frame mx fr"
  show "parse_file_list_response fr mx = Inr m \<longleftrightarrow> True \<and> list_body m (fr_payload fr)
      \<and> fr_opcode fr = FILE_LIST_RESP \<and> True"
    unfolding parse_file_list_response_def bind_validate_frame [OF wf] parse_steps list_body_def
    by (auto simp: list_count)
qed

lemma validate_chunk_data_Inr:
  "validate_chunk_data data chunk = Inr u \<longleftrightarrow> data \<noteq> [] \<and> int (length data) \<le> chunk"
  by (simp add: validate_chunk_data_def result_simps)

interpretation chunk: message_codec "\<lambda>m. make_file_chunk_frame m chunk"
  "\<lambda>fr. parse_file_chunk fr chunk" FILE_CHUNK "\<lambda>u. True" "chunk_body chunk" "\<lambda>m. True" for chunk
proof
  fix m mx u fr
  show "make_file_chunk_frame m chunk mx u = Inr fr \<longleftrightarrow> True \<and> chunk_body chunk m (fr_payload fr)
      \<and> fr_opcode fr = FILE_CHUNK \<and> fr_user_id fr = u \<and> wf_frame mx fr"
    unfolding make_file_chunk_frame_def make_steps validate_chunk_data_Inr chunk_body_def
    by (cases fr) auto
  assume wf: "wf_frame mx fr"
  show "parse_file_chunk fr chunk mx = Inr m \<longleftrightarrow> True \<and> chunk_body chunk m (fr_payload fr)
      \<and> fr_opcode fr = FILE_CHUNK \<and> True"
    unfolding parse_file_chunk_def bind_validate_frame [OF wf] parse_steps chunk_body_def
    unfolding rd_remaining_at prod.case bindE_eq_Inr validate_chunk_data_Inr
    by (cases m) auto
qed

lemma bind_let_Inr: "(let x = a in bindE (f x) g) = Inr y \<longleftrightarrow> bindE (f a) g = Inr y"
  by simp

interpretation checksum: message_codec make_file_checksum_frame parse_file_checksum FILE_CHECKSUM
  "\<lambda>u. True" checksum_body "\<lambda>m. True"
proof
  fix m mx u fr
  show "make_file_checksum_frame m mx u = Inr fr \<longleftrightarrow> True \<and> checksum_body m (fr_payload fr)
      \<and> fr_opcode fr = FILE_CHECKSUM \<and> fr_user_id fr = u \<and> wf_frame mx fr"
    unfolding make_file_checksum_frame_def make_steps checksum_body_def SHA256_DIGEST_SIZE_BYTES_def
    by (cases fr) auto
  assume wf: "wf_frame mx fr"
  have "parse_file_checksum fr mx = Inr m \<longleftrightarrow> fr_opcode fr = FILE_CHECKSUM
      \<and> length (fr_payload fr) = 40
      \<and> m = \<lparr>fk_final_size = unpack_uint (take 8 (fr_payload fr)),
              fk_sha256_digest = drop 8 (fr_payload fr)\<rparr>"
    by (auto simp: parse_file_checksum_def bind_validate_frame [OF wf] Let_def bind_guard_Inr
        SHA256_DIGEST_SIZE_BYTES_def)
  also have "\<dots> \<longleftrightarrow> checksum_body m (fr_payload fr) \<and> fr_opcode fr = FILE_CHECKSUM"
    by (cases m) (auto simp: checksum_body_def)
  finally show "parse_file_checksum fr mx = Inr m \<longleftrightarrow> True \<and> checksum_body m (fr_payload fr)
      \<and> fr_opcode fr = FILE_CHECKSUM \<and> True" by simp
qed

lemma decode_opcode_Inr: "decode_opcode raw field = Inr x \<longleftrightarrow> opcode_value x = raw"
  by (auto simp: decode_opcode_def split: option.splits simp flip: opcode_of_iff)

interpretation ack: message_codec make_acknowledgement_frame parse_acknowledgement ACK
  "\<lambda>u. True" ack_body "\<lambda>m. True"
proof
  fix m mx u fr
  show "make_acknowledgement_frame m mx u = Inr fr \<longleftrightarrow> True \<and> ack_body m (fr_payload fr)
      \<and> fr_opcode fr = ACK \<and> fr_user_id fr = u \<and> wf_frame mx fr"
    unfolding make_acknowledgement_frame_def make_steps ack_body_def
    by (cases fr) auto
  assume wf: "wf_frame mx fr"
  have "parse_acknowledgement fr mx = Inr m \<longleftrightarrow> fr_opcode fr = ACK \<and> length (fr_payload fr) = 10
      \<and> opcode_value (ak_acknowledged_opcode m) = unpack_uint (take 2 (fr_payload fr))
      \<and> ak_next_offset m = unpack_uint (drop 2 (fr_payload fr))"
    unfolding parse_acknowledgement_def bind_validate_frame [OF wf] Let_def
      bindE_eq_Inr guardE_eq_Inr validate_frame_Inr [OF wf] decode_opcode_Inr
    by (cases m) auto
  also have "\<dots> \<longleftrightarrow> ack_body m (fr_payload fr) \<and> fr_opcode fr = ACK"
    using opcode_enum.val_fits [of "ak_acknowledged_opcode m"] by (auto simp: ack_body_def)
  finally show "parse_acknowledgement fr mx = Inr m \<longleftrightarrow> True \<and> ack_body m (fr_payload fr)
      \<and> fr_opcode fr = ACK \<and> True" by simp
qed

lemma decode_opcode_or_raw_eq:
  "decode_opcode_or_raw v = x \<longleftrightarrow> failed_value x = v
     \<and> (case x of Known y \<Rightarrow> True | Raw w \<Rightarrow> opcode_of w = None)"
  by (cases x) (auto simp: decode_opcode_or_raw_def opcode_of_iff intro: opcode_enum.val_inject
      split: option.splits)

lemma error_result_Inr:
  "(case error_of raw of
      None \<Rightarrow> Inl e1
    | Some code \<Rightarrow> (case utf8_decode enc of None \<Rightarrow> Inl e2
        | Some msg \<Rightarrow> Inr \<lparr>em_failed_opcode = decode_opcode_or_raw v, em_error_code = code,
            em_message = msg\<rparr>)) = Inr m \<longleftrightarrow>
   error_value (em_error_code m) = raw \<and> utf8_encode (em_message m) = Some enc
     \<and> failed_value (em_failed_opcode m) = v \<and> canonical_error m"
proof -
  have "decode_opcode_or_raw v = em_failed_opcode m \<longleftrightarrow>
      failed_value (em_failed_opcode m) = v \<and> canonical_error m"
    by (simp add: decode_opcode_or_raw_eq canonical_error_def)
  then show ?thesis
    by (cases m) (auto simp: utf8.encode_iff_decode error_of_iff split: option.splits
        simp flip: error_of_iff)
qed

interpretation error: message_codec make_error_frame parse_error ERROR
  "\<lambda>u. True" error_body canonical_error
proof
  fix m mx u fr
  show "make_error_frame m mx u = Inr fr \<longleftrightarrow> True \<and> error_body m (fr_payload fr)
      \<and> fr_opcode fr = ERROR \<and> fr_user_id fr = u \<and> wf_frame mx fr"
    unfolding make_error_frame_def error_body_def bind_guard_Inr UINT16_MAX_def uint_fits_def
    by (cases fr; cases "utf8_encode (em_message m)")
      (auto simp: bind_guard_Inr make_frame_Inr)
  assume wf: "wf_frame mx fr"
  show "parse_error fr mx = Inr m \<longleftrightarrow> True \<and> error_body m (fr_payload fr)
      \<and> fr_opcode fr = ERROR \<and> canonical_error m"
  proof
    assume "parse_error fr mx = Inr m"
    then have "\<exists>n enc. length enc = nat n \<and> uint_fits 2 n \<and> fr_opcode fr = ERROR
        \<and> fr_payload fr = pack_uint 2 (failed_value (em_failed_opcode m))
            @ pack_uint 2 (error_value (em_error_code m)) @ pack_uint 2 n @ enc
        \<and> uint_fits 2 (failed_value (em_failed_opcode m)) \<and> canonical_error m
        \<and> utf8_encode (em_message m) = Some enc"
      unfolding parse_error_def bind_validate_frame [OF wf] parse_steps error_result_Inr
      by (elim exE conjE, intro exI conjI) (assumption | simp)+
    then show "True \<and> error_body m (fr_payload fr) \<and> fr_opcode fr = ERROR \<and> canonical_error m"
      by (auto simp: error_body_def dest: uint16_length)
  next
    assume "True \<and> error_body m (fr_payload fr) \<and> fr_opcode fr = ERROR \<and> canonical_error m"
    then show "parse_error fr mx = Inr m"
      unfolding parse_error_def bind_validate_frame [OF wf] parse_steps error_result_Inr
        error_body_def
      using error_enum.val_fits [of "em_error_code m"] by fastforce
  qed
qed

subsection \<open>All messages at once\<close>

text \<open>
  The sender's side as one function: which \<open>make_...\<close> function the code calls to send a
  message under an opcode.  \<open>NoMessage\<close> is the empty payload of \<open>DISCONNECT\<close> and
  \<open>FILE_LIST\<close>; no other pair of opcode and message can be built.
\<close>

definition message_frame :: "opcode \<Rightarrow> message \<Rightarrow> int \<Rightarrow> int \<Rightarrow> int \<Rightarrow> (exc + frame) option" where
  "message_frame op msg mx chunk u = (case op of
       LOGIN \<Rightarrow> (case msg of LoginRequest m \<Rightarrow> Some (make_login_frame m mx u) | _ \<Rightarrow> None)
    | DISCONNECT \<Rightarrow> (case msg of NoMessage \<Rightarrow> Some (make_disconnect_frame mx u) | _ \<Rightarrow> None)
    | FILE_LIST \<Rightarrow> (case msg of NoMessage \<Rightarrow> Some (make_file_list_frame mx u) | _ \<Rightarrow> None)
    | FILE_LIST_RESP \<Rightarrow> (case msg of FileListResponse m \<Rightarrow> Some (make_file_list_response_frame m mx u) | _ \<Rightarrow> None)
    | FILE_UPLOAD \<Rightarrow> (case msg of FileUpload m \<Rightarrow> Some (make_file_upload_frame m mx u) | _ \<Rightarrow> None)
    | FILE_DOWNLOAD \<Rightarrow> (case msg of FileDownload m \<Rightarrow> Some (make_file_download_frame m mx u) | _ \<Rightarrow> None)
    | FILE_INFO \<Rightarrow> (case msg of FileInfo m \<Rightarrow> Some (make_file_info_frame m mx u) | _ \<Rightarrow> None)
    | FILE_CHUNK \<Rightarrow> (case msg of FileChunk m \<Rightarrow> Some (make_file_chunk_frame m chunk mx u) | _ \<Rightarrow> None)
    | FILE_CHECKSUM \<Rightarrow> (case msg of FileChecksum m \<Rightarrow> Some (make_file_checksum_frame m mx u) | _ \<Rightarrow> None)
    | ACK \<Rightarrow> (case msg of Acknowledgement m \<Rightarrow> Some (make_acknowledgement_frame m mx u) | _ \<Rightarrow> None)
    | ERROR \<Rightarrow> (case msg of ErrorMessage m \<Rightarrow> Some (make_error_frame m mx u) | _ \<Rightarrow> None)
    | FILE_DELETE \<Rightarrow> None)"

fun canonical_message :: "message \<Rightarrow> bool" where
  "canonical_message (ErrorMessage m) = canonical_error m"
| "canonical_message _ = True"

lemma message_frame_opcode:
  assumes "message_frame op m mx chunk u = Some (Inr fr)"
  shows "fr_opcode fr = op \<and> fr_user_id fr = u \<and> wf_frame mx fr"
  using assms
  by (cases op; cases m) (simp_all add: message_frame_def login.make_wf upload.make_wf download.make_wf info.make_wf
      chunk.make_wf checksum.make_wf ack.make_wf error.make_wf entries.make_wf
      disconnect.make_wf listing.make_wf)

lemma decode_message_iff:
  assumes wf: "wf_frame mx fr"
  shows "decode_message fr mx chunk = Inr m \<longleftrightarrow>
    canonical_message m \<and> message_frame (fr_opcode fr) m mx chunk (fr_user_id fr) = Some (Inr fr)"
  by (cases "fr_opcode fr"; cases m)
    (auto simp: decode_message_def message_frame_def Let_def map_res_Inr login.parse_iff_make [OF wf]
      upload.parse_iff_make [OF wf] download.parse_iff_make [OF wf] info.parse_iff_make [OF wf]
      chunk.parse_iff_make [OF wf] checksum.parse_iff_make [OF wf] ack.parse_iff_make [OF wf]
      error.parse_iff_make [OF wf] entries.parse_iff_make [OF wf]
      disconnect.parse_iff_make [OF wf] listing.parse_iff_make [OF wf])

subsection \<open>Decoding fails only with \<open>ProtocolError\<close>\<close>

definition fails_as_protocol :: "exc + 'a \<Rightarrow> bool" where
  "fails_as_protocol r \<longleftrightarrow> (\<forall>e. r = Inl e \<longrightarrow> (\<exists>c t. e = protocol_error c t))"

named_theorems protocol_intros \<open>introduction rules for \<open>fails_as_protocol\<close>\<close>

lemma fails_basic [protocol_intros]:
  "fails_as_protocol (Inr a)"
  "fails_as_protocol (Inl (protocol_error c t))"
  "fails_as_protocol (guardE ok (protocol_error c t))"
  by (auto simp: fails_as_protocol_def result_simps)

lemma fails_bind [protocol_intros]:
  "fails_as_protocol m \<Longrightarrow> (\<And>a. fails_as_protocol (f a)) \<Longrightarrow> fails_as_protocol (bindE m f)"
  by (auto simp: fails_as_protocol_def result_simps)

lemma fails_case [protocol_intros]:
  "(\<And>a b. fails_as_protocol (f a b)) \<Longrightarrow> fails_as_protocol (case p of (a, b) \<Rightarrow> f a b)"
  "fails_as_protocol r \<Longrightarrow> (\<And>x. fails_as_protocol (g x)) \<Longrightarrow>
     fails_as_protocol (case q of None \<Rightarrow> r | Some x \<Rightarrow> g x)"
  by (auto split: prod.split option.split)

lemma fails_if [protocol_intros]:
  "fails_as_protocol a \<Longrightarrow> fails_as_protocol b \<Longrightarrow> fails_as_protocol (if c then a else b)"
  by simp

lemma fails_map_res [protocol_intros]: "fails_as_protocol r \<Longrightarrow> fails_as_protocol (map_res f r)"
  by (auto simp: fails_as_protocol_def result_simps)

lemma fails_readers [protocol_intros]:
  "fails_as_protocol (rd_uint k field r)" "fails_as_protocol (rd_uint16 field r)"
  "fails_as_protocol (rd_uint32 field r)" "fails_as_protocol (rd_uint64 field r)"
  "fails_as_protocol (rd_read n field r)" "fails_as_protocol (rd_finish r)"
  unfolding rd_uint16_def rd_uint32_def rd_uint64_def rd_uint_def rd_read_def rd_finish_def Let_def
  by (intro protocol_intros)+

lemma fails_checks [protocol_intros]:
  "fails_as_protocol (validate_frame fr op mx)" "fails_as_protocol (encode_filename name)"
  "fails_as_protocol (encode_username name)" "fails_as_protocol (validate_chunk_data data chunk)"
  "fails_as_protocol (decode_opcode raw field)"
  unfolding validate_frame_def validate_payload_size_def encode_filename_def encode_username_def
    validate_chunk_data_def decode_opcode_def
  by (intro protocol_intros)+

lemma fails_names [protocol_intros]:
  "fails_as_protocol (decode_filename r)" "fails_as_protocol (decode_username r)"
  unfolding decode_filename_def decode_username_def by (intro protocol_intros)+

lemma fails_entries [protocol_intros]: "fails_as_protocol (decode_entries n r)"
  by (induction n arbitrary: r) (auto intro!: protocol_intros)

lemma fails_parsers [protocol_intros]:
  "fails_as_protocol (parse_login fr mx)" "fails_as_protocol (parse_empty fr op mx)"
  "fails_as_protocol (parse_file_list_response fr mx)" "fails_as_protocol (parse_file_upload fr mx)"
  "fails_as_protocol (parse_file_download fr mx)" "fails_as_protocol (parse_file_info fr mx)"
  "fails_as_protocol (parse_file_chunk fr chunk mx)" "fails_as_protocol (parse_file_checksum fr mx)"
  "fails_as_protocol (parse_acknowledgement fr mx)" "fails_as_protocol (parse_error fr mx)"
  unfolding parse_login_def parse_empty_def parse_file_list_response_def parse_file_upload_def
    parse_file_download_def parse_file_info_def parse_file_chunk_def parse_file_checksum_def
    parse_acknowledgement_def parse_error_def Let_def login_user_id_error_def
  by (intro protocol_intros)+

lemma fails_parser_for:
  "fails_as_protocol (case parser_for op of None \<Rightarrow> Inl (protocol_error c t) | Some p \<Rightarrow> p fr mx)"
  by (cases op) (auto intro!: protocol_intros simp: parse_disconnect_def parse_file_list_def)

lemma fails_decode_message: "fails_as_protocol (decode_message fr mx chunk)"
  using fails_parser_for [where op = "fr_opcode fr" and c = UNSUPPORTED_OPCODE and fr = fr
      and mx = mx and t = "lit ''opcode '' @ hex4 (opcode_value (fr_opcode fr)) @ lit '' is not supported''"]
  by (auto simp: decode_message_def Let_def intro: protocol_intros split: option.splits)

subsection \<open>The properties of the message layer\<close>

text \<open>
  C9. Decoding is the exact inverse of encoding, for every message of the protocol: a frame
  decodes to a message precisely when it is the frame that the \<open>make\<close> function of its opcode
  builds for that message, and every field of it, the message being in the one form the decoder
  uses (an \<open>ERROR\<close> about a defined opcode holds that opcode and not its number).  So nothing
  malformed or padded is accepted, and two frames of a user with the same opcode that decode to
  the same message are the same frame.
\<close>

theorem decode_message_exact:
  assumes "wf_frame max_payload fr"
  shows "(decode_message fr max_payload chunk_size = Inr m \<longleftrightarrow> canonical_message m
      \<and> message_frame (fr_opcode fr) m max_payload chunk_size (fr_user_id fr) = Some (Inr fr))
    \<and> (\<forall>fr'. wf_frame max_payload fr' \<and> fr_opcode fr' = fr_opcode fr \<and> fr_user_id fr' = fr_user_id fr
        \<and> decode_message fr max_payload chunk_size = Inr m \<and> decode_message fr' max_payload chunk_size = Inr m
        \<longrightarrow> fr' = fr)"
  by (simp add: decode_message_iff [OF assms]) (auto simp: decode_message_iff)

definition example_chunk_frame :: frame where
  "example_chunk_frame = \<lparr>fr_opcode = FILE_CHUNK, fr_payload = [0, 0, 0, 0, 0, 0, 1, 2, 65, 66],
     fr_user_id = 7\<rparr>"

definition example_chunk :: message where
  "example_chunk = FileChunk \<lparr>fc_offset = 258, fc_data = [65, 66]\<rparr>"

lemma make_example_chunk: "message_frame FILE_CHUNK example_chunk 100 50 7 = Some (Inr example_chunk_frame)"
  by (simp add: message_frame_def example_chunk_def example_chunk_frame_def
      make_file_chunk_frame_def validate_uint_def validate_chunk_data_def make_frame_def
      validate_payload_size_def make_frame_object_def uint_max_defs MAX_USER_ID_def eval_bytes)

theorem decode_message_exact_witness:
  "decode_message example_chunk_frame 100 50 = Inr example_chunk"
  using decode_message_exact [of 100 example_chunk_frame 50 example_chunk] make_example_chunk
  by (simp add: wf_frame_def example_chunk_frame_def example_chunk_def MAX_USER_ID_def)

text \<open>
  C8. End to end: a message that one side builds, frames and sends completely is received
  and decoded by the other side as the same message with the same \<open>USER_ID\<close>, whatever the
  partial sends and the segmentation on the way.
\<close>

theorem message_sent_is_received:
  assumes "message_frame op m max_payload chunk_size user = Some (Inr fr)"
    and "canonical_message m" and "max_payload < 2 ^ 32 - 4"
    and "send_frame fr max_payload s = (Inr (), s')" and "outbound s = []"
    and "delivers t" and "pending t = outbound s' @ rest"
  shows "\<exists>fr' t'. receive_frame max_payload t = (Inr (Some fr'), t') \<and> pending t' = rest
    \<and> fr_opcode fr' = op \<and> fr_user_id fr' = user
    \<and> decode_message fr' max_payload chunk_size = Inr m"
proof -
  have fr: "fr_opcode fr = op" "fr_user_id fr = user" "wf_frame max_payload fr"
    using message_frame_opcode [OF assms(1)] by simp_all
  have "outbound s' = frame_bytes fr"
    using send_frame_Inr [OF assms(4)] serialize_frame_Inr [OF fr(3) assms(3)] assms(5) by auto
  moreover obtain r t' where run: "receive_frame max_payload t = (r, t')" by fastforce
  ultimately have "r = Inr (Some fr)" "pending t' = rest"
    using receive_frame_parse [OF assms(6) run] parse_frame_bytes [OF fr(3) assms(3), of rest]
      assms(7) by simp_all
  moreover have "decode_message fr max_payload chunk_size = Inr m"
    using assms(1,2) fr by (simp add: decode_message_iff)
  ultimately show ?thesis using run fr by blast
qed

definition example_sender :: sock where
  "example_sender = \<lparr>inbound = [], outbound = [], send_plan = [Accepts 3, Accepts 10]\<rparr>"

definition example_wire :: "byte list" where
  "example_wire = [0, 0, 0, 14, 0, 20, 0, 7, 0, 0, 0, 0, 0, 0, 1, 2, 65, 66]"

lemma send_example_chunk:
  "send_frame example_chunk_frame 100 example_sender
     = (Inr (), \<lparr>inbound = [], outbound = example_wire, send_plan = []\<rparr>)"
  by (simp add: send_frame_def bindS_def serialize_frame_def example_chunk_frame_def Let_def
      FRAME_BODY_HEADER_SIZE_BYTES_def pack_struct_def uint_fits_def eval_bytes send_all_def
      send_loop.simps sock_send_def example_sender_def example_wire_def)

theorem message_sent_is_received_witness:
  "\<exists>fr' t'. receive_frame 100 \<lparr>inbound = [Segment example_wire], outbound = [], send_plan = []\<rparr>
       = (Inr (Some fr'), t') \<and> pending t' = [] \<and> fr_opcode fr' = FILE_CHUNK \<and> fr_user_id fr' = 7
     \<and> decode_message fr' 100 50 = Inr example_chunk"
  by (rule message_sent_is_received [OF make_example_chunk _ _ send_example_chunk])
    (simp_all add: example_chunk_def example_sender_def delivers_def pending_def example_wire_def)

text \<open>
  A hostile frame cannot raise anything but a \<open>ProtocolError\<close> in the decoder: whatever
  the payload bytes, \<open>decode_message\<close> either returns a message or a \<open>ProtocolError\<close> (which the
  session answers with an \<open>ERROR\<close> frame), and \<open>FILE_DELETE\<close> is always \<open>UNSUPPORTED_OPCODE\<close>.
\<close>

theorem decode_message_error_is_protocol_error:
  "if fr_opcode fr = FILE_DELETE
   then \<exists>text. decode_message fr max_payload chunk_size = Inl (ProtocolError UNSUPPORTED_OPCODE text None False)
   else case decode_message fr max_payload chunk_size of
     Inr m \<Rightarrow> True
   | Inl e \<Rightarrow> \<exists>code text. e = ProtocolError code text None False"
  using fails_decode_message [of fr max_payload chunk_size]
  by (auto simp: fails_as_protocol_def decode_message_def Let_def split: sum.split)

definition safe_basename :: "pystr \<Rightarrow> bool" where
  "safe_basename name \<longleftrightarrow> (\<exists>b. utf8_encode name = Some b \<and> b \<noteq> [] \<and> length b \<le> 255)
     \<and> name \<noteq> lit ''.'' \<and> name \<noteq> lit ''..'' \<and> set name \<inter> {0, 47, 92} = {}"

fun names_of :: "message \<Rightarrow> pystr set" where
  "names_of (FileUpload m) = {fu_filename m}"
| "names_of (FileDownload m) = {fd_filename m}"
| "names_of (FileInfo m) = {fi_filename m}"
| "names_of (FileListResponse es) = fe_filename ` set es"
| "names_of _ = {}"

lemma filename_payload_safe: "filename_payload name = Inr b \<Longrightarrow> safe_basename name"
  by (auto simp: filename_payload_Inr encode_filename_Inr safe_basename_def)

lemma encode_entries_safe: "encode_entries es = Inr b \<Longrightarrow> name \<in> fe_filename ` set es \<Longrightarrow> safe_basename name"
  by (induction es arbitrary: b) (auto simp: result_simps dest: filename_payload_safe)

text \<open>
  C38. Accepted names are safe path components: every filename that comes out of the decoder
  of an upload, a download or a listing is non-empty UTF-8 of at most 255 bytes, is not
  \<open>"."\<close> or \<open>".."\<close>, and has no slash, backslash or NUL.
\<close>

theorem decoded_names_are_safe:
  assumes "wf_frame max_payload fr" and "decode_message fr max_payload chunk_size = Inr m"
    and "name \<in> names_of m"
  shows "safe_basename name"
proof -
  have "message_frame (fr_opcode fr) m max_payload chunk_size (fr_user_id fr) = Some (Inr fr)"
    using assms(1,2) by (simp add: decode_message_iff)
  then show ?thesis
    using assms(3)
    by (cases m; cases "fr_opcode fr")
      (auto simp: message_frame_def upload.make_Inr upload_body_def download.make_Inr
        download_body_def info.make_Inr info_body_def entries.make_Inr list_body_def
        dest: filename_payload_safe encode_entries_safe)
qed

definition example_download_frame :: frame where
  "example_download_frame = \<lparr>fr_opcode = FILE_DOWNLOAD,
     fr_payload = [0, 2, 97, 46, 0, 0, 0, 0, 0, 0, 0, 0], fr_user_id = 7\<rparr>"

lemma example_name: "utf8_encode [97, 46] = Some [97, 46]" "utf8_decode [97, 46] = Some [97, 46]"
proof -
  show "utf8_encode [97, 46] = Some [97, 46]" by (subst utf8_encode_ascii) auto
  then show "utf8_decode [97, 46] = Some [97, 46]" by (simp add: utf8.encode_iff_decode)
qed

lemma decode_example_download:
  "decode_message example_download_frame 100 50
     = Inr (FileDownload \<lparr>fd_filename = [97, 46], fd_requested_offset = 0\<rparr>)"
  by (simp add: decode_message_def example_download_frame_def Let_def parse_file_download_def
      validate_frame_def validate_payload_size_def decode_filename_def rd_uint16_def rd_uint64_def
      rd_uint_def rd_read_def rd_finish_def payload_reader_def unpack_uint_def example_name
      encode_filename_def lit_def MAX_FILENAME_BYTES_def)

theorem decoded_names_are_safe_witness: "safe_basename [97, 46]"
  by (rule decoded_names_are_safe [OF _ decode_example_download])
    (simp_all add: wf_frame_def example_download_frame_def MAX_USER_ID_def)

end
