(* ===== verification/Registry.thy ===== *)
theory Registry
  imports Protocol "HOL-Library.AList" "HOL-Library.Multiset"
begin

section \<open>Active sessions, usernames and user ids\<close>

text \<open>
  \<open>src/hcmus_socket/server/registry.py\<close>.  A Python \<open>dict\<close> is an association list in
  insertion order: \<open>d[k] = v\<close> is \<open>AList.update\<close> (an existing key keeps its place, a new one
  goes to the end), \<open>d.pop(k, None)\<close> is \<open>AList.delete\<close> and \<open>d.get(k)\<close> is \<open>map_of\<close>.  Every
  public method holds the registry's \<open>RLock\<close> for its whole body, so concurrent sessions
  are a sequence of whole calls (\<open>run_calls\<close>).  The free list is a \<open>heapq\<close> heap, of which
  the code uses only what the locale \<open>min_queue\<close> states; it is modelled by the sorted list
  of its items.
\<close>

subsection \<open>The heap of free ids\<close>

locale min_queue =
  fixes push :: "'a :: linorder \<Rightarrow> 'q \<Rightarrow> 'q"
    and pop :: "'q \<Rightarrow> 'a \<times> 'q"
    and items :: "'q \<Rightarrow> 'a multiset"
    and ok :: "'q \<Rightarrow> bool"
  assumes push_items: "ok q \<Longrightarrow> ok (push x q) \<and> items (push x q) = add_mset x (items q)"
    and pop_items: "ok q \<Longrightarrow> items q \<noteq> {#} \<Longrightarrow> pop q = (x, q') \<Longrightarrow>
      ok q' \<and> items q = add_mset x (items q') \<and> (\<forall>y \<in># items q. x \<le> y)"
begin

text \<open>On a set of ids that are all different, popping takes out the least one.\<close>

definition holds :: "'q \<Rightarrow> 'a set \<Rightarrow> bool" where
  "holds q A \<longleftrightarrow> ok q \<and> finite A \<and> items q = mset_set A"

lemma holds_push: "holds q A \<Longrightarrow> x \<notin> A \<Longrightarrow> holds (push x q) (insert x A)"
  using push_items by (simp add: holds_def)

lemma holds_pop:
  assumes "holds q A" "A \<noteq> {}" "pop q = (x, q')"
  shows "holds q' (A - {x}) \<and> x \<in> A \<and> (\<forall>y \<in> A. x \<le> y)"
proof -
  have A: "ok q" "items q = mset_set A" "finite A" "items q \<noteq> {#}"
    using assms(1,2) by (auto simp: holds_def mset_set_empty_iff)
  then have q: "ok q'" "mset_set A = add_mset x (items q')" "\<forall>y \<in># mset_set A. x \<le> y" "finite A"
    unfolding A(2) [symmetric] using pop_items [OF A(1,4) assms(3)] by blast+
  then have x: "x \<in> A" by (metis elem_mset_set union_single_eq_member)
  have "items q' = mset_set A - {#x#}" using q(2) by simp
  then have "items q' = mset_set (A - {x})" using x q(4) by (simp add: mset_set_Diff)
  with q x show ?thesis by (simp add: holds_def)
qed

end

definition heappush :: "int \<Rightarrow> int list \<Rightarrow> int list" where
  "heappush x heap = insort x heap"

definition heappop :: "int list \<Rightarrow> int \<times> int list" where
  "heappop heap = (hd heap, tl heap)"

interpretation heap: min_queue heappush heappop mset sorted
proof
  show "sorted (heappush x q) \<and> mset (heappush x q) = add_mset x (mset q)" if "sorted q" for x q
    using that by (simp add: heappush_def sorted_insort)
  show "sorted q' \<and> mset q = add_mset x (mset q') \<and> (\<forall>y \<in># mset q. x \<le> y)"
    if "sorted q" "mset q \<noteq> {#}" "heappop q = (x, q')" for x q q'
    using that by (cases q) (auto simp: heappop_def)
qed

subsection \<open>State\<close>

type_synonym address = "pystr \<times> int"

record session_snapshot =
  sn_session_id :: int
  sn_peer_address :: address
  sn_username :: "pystr option"
  sn_user_id :: "int option"

record registry =
  rg_maximum_user_id :: int
  rg_sessions :: "(int \<times> session_snapshot) list"
  rg_username_owners :: "(pystr \<times> int) list"
  rg_next_session_id :: int
  rg_next_user_id :: int
  rg_free_user_ids :: "int list"

definition make_registry :: "int \<Rightarrow> exc + registry" where
  "make_registry maximum_user_id =
     bindE (guardE (MIN_USER_ID \<le> maximum_user_id \<and> maximum_user_id \<le> MAX_USER_ID)
       (ValueError (lit ''maximum_user_id must be from '' @ dec_int MIN_USER_ID @ lit '' to ''
          @ dec_int MAX_USER_ID))) (\<lambda>_.
     Inr \<lparr>rg_maximum_user_id = maximum_user_id, rg_sessions = [], rg_username_owners = [],
       rg_next_session_id = 1, rg_next_user_id = MIN_USER_ID, rg_free_user_ids = []\<rparr>)"

subsection \<open>Operations\<close>

definition register_session :: "address \<Rightarrow> (exc, registry, session_snapshot) action" where
  "register_session peer_address reg =
     (let session_id = rg_next_session_id reg;
          rec = \<lparr>sn_session_id = session_id, sn_peer_address = peer_address,
                 sn_username = None, sn_user_id = None\<rparr> in
      (Inr rec, reg\<lparr>rg_next_session_id := session_id + 1,
         rg_sessions := AList.update session_id rec (rg_sessions reg)\<rparr>))"

definition require_session :: "int \<Rightarrow> (exc, registry, session_snapshot) action" where
  "require_session session_id reg =
     (case map_of (rg_sessions reg) session_id of
        Some rec \<Rightarrow> (Inr rec, reg)
      | None \<Rightarrow> (Inl (UnknownSessionError
          (lit ''session '' @ dec_int session_id @ lit '' is not active'')), reg))"

definition allocate_user_id :: "(exc, registry, int) action" where
  "allocate_user_id reg =
     (if rg_free_user_ids reg \<noteq> [] then
        (case heappop (rg_free_user_ids reg) of
           (user_id, free) \<Rightarrow> (Inr user_id, reg\<lparr>rg_free_user_ids := free\<rparr>))
      else if rg_next_user_id reg > rg_maximum_user_id reg then
        (Inl (UserIdCapacityError (lit ''no USER_ID remains available'')), reg)
      else (Inr (rg_next_user_id reg), reg\<lparr>rg_next_user_id := rg_next_user_id reg + 1\<rparr>))"

definition store_claim ::
  "int \<Rightarrow> pystr \<Rightarrow> session_snapshot \<Rightarrow> (exc, registry, session_snapshot) action" where
  "store_claim session_id username claimed reg =
     (Inr claimed, reg\<lparr>rg_sessions := AList.update session_id claimed (rg_sessions reg),
        rg_username_owners := AList.update username session_id (rg_username_owners reg)\<rparr>)"

definition claim_username :: "int \<Rightarrow> pystr \<Rightarrow> (exc, registry, session_snapshot) action" where
  "claim_username session_id username =
     (if username = [] then raiseS (ValueError (lit ''username must be non-empty text''))
      else
        bindS (require_session session_id) (\<lambda>current.
        case sn_username current of
          Some owned \<Rightarrow>
            if owned = username then returnS current
            else raiseS (SessionAlreadyAuthenticatedError
              (lit ''session '' @ dec_int session_id @ lit '' already owns username '' @ py_repr owned))
        | None \<Rightarrow> (\<lambda>reg.
            case map_of (rg_username_owners reg) username of
              Some owner \<Rightarrow> (Inl (UsernameInUseError
                (lit ''username '' @ py_repr username @ lit '' is already owned by session ''
                  @ dec_int owner)), reg)
            | None \<Rightarrow>
                bindS allocate_user_id (\<lambda>user_id.
                store_claim session_id username
                  \<lparr>sn_session_id = sn_session_id current,
                   sn_peer_address = sn_peer_address current,
                   sn_username = Some username, sn_user_id = Some user_id\<rparr>) reg)))"

definition release_session :: "int \<Rightarrow> (exc, registry, session_snapshot option) action" where
  "release_session session_id reg =
     (case map_of (rg_sessions reg) session_id of
        None \<Rightarrow> (Inr None, reg)
      | Some rec \<Rightarrow>
          let reg1 = reg\<lparr>rg_sessions := AList.delete session_id (rg_sessions reg)\<rparr>;
              reg2 = (case sn_username rec of
                 None \<Rightarrow> reg1
               | Some name \<Rightarrow>
                   reg1\<lparr>rg_username_owners := AList.delete name (rg_username_owners reg1)\<rparr>);
              reg3 = (case sn_user_id rec of
                 None \<Rightarrow> reg2
               | Some user_id \<Rightarrow>
                   reg2\<lparr>rg_free_user_ids := heappush user_id (rg_free_user_ids reg2)\<rparr>) in
          (Inr (Some rec), reg3))"

definition get_session :: "int \<Rightarrow> (exc, registry, session_snapshot) action" where
  "get_session session_id = require_session session_id"

definition owner_of :: "pystr \<Rightarrow> registry \<Rightarrow> session_snapshot option" where
  "owner_of username reg =
     (case map_of (rg_username_owners reg) username of
        Some session_id \<Rightarrow> map_of (rg_sessions reg) session_id
      | None \<Rightarrow> None)"

definition registry_snapshot :: "registry \<Rightarrow> session_snapshot list" where
  "registry_snapshot reg = map snd (rg_sessions reg)"

definition active_count :: "registry \<Rightarrow> nat" where
  "active_count reg = length (rg_sessions reg)"

definition authenticated_count :: "registry \<Rightarrow> nat" where
  "authenticated_count reg = length (rg_username_owners reg)"

text \<open>The calls concurrent sessions make, in the order they take the lock.\<close>

datatype registry_call = Register address | Claim int pystr | Release int

fun run_call :: "registry_call \<Rightarrow> registry \<Rightarrow> registry" where
  "run_call (Register peer) reg = snd (register_session peer reg)"
| "run_call (Claim session_id username) reg = snd (claim_username session_id username reg)"
| "run_call (Release session_id) reg = snd (release_session session_id reg)"

definition run_calls :: "registry_call list \<Rightarrow> registry \<Rightarrow> registry" where
  "run_calls calls reg = fold run_call calls reg"

subsection \<open>What a registry is: the invariant\<close>

definition session_at :: "registry \<Rightarrow> int \<Rightarrow> session_snapshot option" where
  "session_at reg = map_of (rg_sessions reg)"

definition active_ids :: "registry \<Rightarrow> int set" where
  "active_ids reg = {i. \<exists>s \<in> ran (session_at reg). sn_user_id s = Some i}"

definition active_names :: "registry \<Rightarrow> pystr set" where
  "active_names reg = {u. \<exists>s \<in> ran (session_at reg). sn_username s = Some u}"

definition sessions_ok :: "registry \<Rightarrow> bool" where
  "sessions_ok reg \<longleftrightarrow> 1 \<le> rg_next_session_id reg \<and>
     (\<forall>k s. session_at reg k = Some s \<longrightarrow> sn_session_id s = k \<and> 1 \<le> k \<and> k < rg_next_session_id reg
        \<and> (sn_username s = None \<longleftrightarrow> sn_user_id s = None))"

definition owners_ok :: "registry \<Rightarrow> bool" where
  "owners_ok reg \<longleftrightarrow>
     (\<forall>u k. map_of (rg_username_owners reg) u = Some k \<longleftrightarrow>
        (\<exists>s. session_at reg k = Some s \<and> sn_username s = Some u))"

definition ids_ok :: "registry \<Rightarrow> bool" where
  "ids_ok reg \<longleftrightarrow>
     1 \<le> rg_next_user_id reg \<and> rg_next_user_id reg \<le> rg_maximum_user_id reg + 1
     \<and> rg_maximum_user_id reg \<le> MAX_USER_ID
     \<and> active_ids reg \<subseteq> {1..<rg_next_user_id reg}
     \<and> heap.holds (rg_free_user_ids reg) ({1..<rg_next_user_id reg} - active_ids reg)
     \<and> (\<forall>k k' s s' i. session_at reg k = Some s \<longrightarrow> session_at reg k' = Some s' \<longrightarrow>
          sn_user_id s = Some i \<longrightarrow> sn_user_id s' = Some i \<longrightarrow> k = k')"

definition registry_ok :: "registry \<Rightarrow> bool" where
  "registry_ok reg \<longleftrightarrow> sessions_ok reg \<and> owners_ok reg \<and> ids_ok reg"

lemma active_ids_iff: "i \<in> active_ids reg \<longleftrightarrow> (\<exists>k s. session_at reg k = Some s \<and> sn_user_id s = Some i)"
  by (auto simp: active_ids_def ran_def)

lemma active_names_iff:
  "u \<in> active_names reg \<longleftrightarrow> (\<exists>k s. session_at reg k = Some s \<and> sn_username s = Some u)"
  by (auto simp: active_names_def ran_def)

lemma registry_okD:
  assumes "registry_ok reg"
  shows "session_at reg k = Some s \<Longrightarrow> sn_session_id s = k \<and> 1 \<le> k \<and> k < rg_next_session_id reg"
    and "session_at reg k = Some s \<Longrightarrow> sn_username s = None \<longleftrightarrow> sn_user_id s = None"
    and "map_of (rg_username_owners reg) u = Some k \<longleftrightarrow>
        (\<exists>s. session_at reg k = Some s \<and> sn_username s = Some u)"
    and "session_at reg k = Some s \<Longrightarrow> session_at reg k' = Some s' \<Longrightarrow>
        sn_user_id s = Some i \<Longrightarrow> sn_user_id s' = Some i \<Longrightarrow> k = k'"
  using assms by (auto simp: registry_ok_def sessions_ok_def owners_ok_def ids_ok_def)

lemma names_inject:
  "registry_ok reg \<Longrightarrow> session_at reg k = Some s \<Longrightarrow> session_at reg k' = Some s' \<Longrightarrow>
     sn_username s = Some u \<Longrightarrow> sn_username s' = Some u \<Longrightarrow> k = k'"
  using registry_okD(3) [of reg u k] registry_okD(3) [of reg u k'] by auto

lemma id_range:
  "registry_ok reg \<Longrightarrow> i \<in> active_ids reg \<Longrightarrow> 1 \<le> i \<and> i \<le> rg_maximum_user_id reg"
  by (auto simp: registry_ok_def ids_ok_def)

lemma no_owner_iff:
  "registry_ok reg \<Longrightarrow> map_of (rg_username_owners reg) u = None \<longleftrightarrow> u \<notin> active_names reg"
  using registry_okD(3) [of reg u] by (auto simp: active_names_def ran_def not_Some_eq [symmetric] simp del: not_Some_eq)

lemma make_registry_ok: "make_registry maximum = Inr reg \<Longrightarrow> registry_ok reg"
  by (auto simp: make_registry_def result_simps registry_ok_def sessions_ok_def owners_ok_def
      ids_ok_def session_at_def active_ids_def heap.holds_def MIN_USER_ID_def)

subsection \<open>What each operation does to the sessions\<close>

lemma register_session_at:
  "session_at (snd (register_session peer reg)) = (session_at reg)(rg_next_session_id reg \<mapsto>
     \<lparr>sn_session_id = rg_next_session_id reg, sn_peer_address = peer, sn_username = None,
      sn_user_id = None\<rparr>)"
  by (simp add: register_session_def Let_def session_at_def AList.update_conv')

lemma register_session_ok:
  assumes "registry_ok reg"
  shows "registry_ok (snd (register_session peer reg))"
proof -
  let ?n = "rg_next_session_id reg" and ?r = "snd (register_session peer reg)"
  have fields: "rg_username_owners ?r = rg_username_owners reg"
      "rg_next_user_id ?r = rg_next_user_id reg" "rg_free_user_ids ?r = rg_free_user_ids reg"
      "rg_maximum_user_id ?r = rg_maximum_user_id reg" "rg_next_session_id ?r = ?n + 1"
    by (simp_all add: register_session_def Let_def)
  have new: "session_at reg ?n = None"
    using registry_okD(1) [OF assms, of ?n] by (cases "session_at reg ?n") auto
  have ids: "active_ids ?r = active_ids reg"
    using new by (auto simp: active_ids_def register_session_at ran_map_upd)
  have "owners_ok ?r"
    using assms new by (auto simp: registry_ok_def owners_ok_def register_session_at fields)
  moreover have "sessions_ok ?r"
    using assms by (auto simp: registry_ok_def sessions_ok_def register_session_at fields)
      (smt (verit))+
  moreover have "ids_ok ?r"
    using assms new
    by (auto simp: registry_ok_def ids_ok_def register_session_at fields ids)
  ultimately show ?thesis by (simp add: registry_ok_def)
qed

lemma holds_Nil: "heap.holds [] A \<Longrightarrow> A = {}"
  by (metis heap.holds_def mset.simps(1) mset_set_empty_iff)

lemma allocate_user_id_Inr:
  assumes "registry_ok reg" "allocate_user_id reg = (Inr i, reg')"
  shows "i \<notin> active_ids reg \<and> 1 \<le> i \<and> i \<le> rg_maximum_user_id reg
    \<and> (\<forall>j. 1 \<le> j \<longrightarrow> j \<notin> active_ids reg \<longrightarrow> i \<le> j)
    \<and> (\<exists>n free. reg' = reg\<lparr>rg_next_user_id := n, rg_free_user_ids := free\<rparr>
        \<and> rg_next_user_id reg \<le> n \<and> n \<le> rg_maximum_user_id reg + 1 \<and> i < n
        \<and> heap.holds free ({1..<n} - insert i (active_ids reg)))"
proof (cases "rg_free_user_ids reg = []")
  case True
  let ?n = "rg_next_user_id reg"
  have i: "i = ?n" "?n \<le> rg_maximum_user_id reg"
    and reg': "reg' = reg\<lparr>rg_next_user_id := ?n + 1, rg_free_user_ids := []\<rparr>"
    using assms(2) True by (auto simp: allocate_user_id_def split: if_splits)
  have n: "1 \<le> ?n" "active_ids reg \<subseteq> {1..<?n}" and free: "heap.holds [] ({1..<?n} - active_ids reg)"
    using assms(1) True by (auto simp: registry_ok_def ids_ok_def)
  then have none: "{1..<?n} - active_ids reg = {}" by (auto dest: holds_Nil)
  moreover have "{1..<?n + 1} - insert ?n (active_ids reg) = {1..<?n} - active_ids reg" by auto
  ultimately have "heap.holds [] ({1..<?n + 1} - insert ?n (active_ids reg))" using free by simp
  moreover have "?n \<le> j" if "1 \<le> j" "j \<notin> active_ids reg" for j
    using none that by (cases "j < ?n") auto
  ultimately show ?thesis using i reg' n by (auto intro!: exI [of _ "?n + 1"] exI [of _ "[]"])
next
  case False
  let ?n = "rg_next_user_id reg" and ?A = "{1..<rg_next_user_id reg} - active_ids reg"
  obtain free where pop: "heappop (rg_free_user_ids reg) = (i, free)"
    and reg': "reg' = reg\<lparr>rg_next_user_id := ?n, rg_free_user_ids := free\<rparr>"
    using assms(2) False by (auto simp: allocate_user_id_def split: prod.splits)
  have h: "heap.holds (rg_free_user_ids reg) ?A" and n: "?n \<le> rg_maximum_user_id reg + 1"
    using assms(1) by (simp_all add: registry_ok_def ids_ok_def)
  have "?A \<noteq> {}"
  proof
    assume "?A = {}"
    with h have "mset (rg_free_user_ids reg) = {#}" by (simp only: heap.holds_def mset_set.empty)
    with False show False by simp
  qed
  from heap.holds_pop [OF h this pop]
  have free: "heap.holds free (?A - {i})" and i: "i \<in> ?A" "\<forall>j \<in> ?A. i \<le> j" by simp_all
  have "?A - {i} = {1..<?n} - insert i (active_ids reg)" by auto
  then have "heap.holds free ({1..<?n} - insert i (active_ids reg))" using free by simp
  moreover have "i \<le> j" if "1 \<le> j" "j \<notin> active_ids reg" for j
    using i that by (cases "j < ?n") auto
  ultimately show ?thesis
    using i n unfolding reg' by (intro conjI exI [of _ ?n] exI [of _ free]) auto
qed

lemma allocate_user_id_Inl:
  assumes "registry_ok reg" "allocate_user_id reg = (Inl e, reg')"
  shows "reg' = reg \<and> (\<exists>t. e = UserIdCapacityError t)
    \<and> {1..rg_maximum_user_id reg} \<subseteq> active_ids reg"
proof -
  let ?n = "rg_next_user_id reg"
  have run: "rg_free_user_ids reg = []" "rg_maximum_user_id reg < ?n" "reg' = reg"
      "\<exists>t. e = UserIdCapacityError t"
    using assms(2) by (auto simp: allocate_user_id_def split: if_splits prod.splits)
  have "heap.holds [] ({1..<?n} - active_ids reg)"
    using assms(1) run(1) by (auto simp: registry_ok_def ids_ok_def)
  then have "{1..<?n} - active_ids reg = {}" by (rule holds_Nil)
  with run show ?thesis by auto
qed

text \<open>
  A successful first claim, in one record: what \<open>claim_username\<close> stores and returns.
\<close>

lemma claim_username_cases:
  assumes "registry_ok reg" "claim_username k u reg = (r, reg')"
  obtains (empty) t where "u = []" "r = Inl (ValueError t)" "reg' = reg"
    | (unknown) t where "u \<noteq> []" "session_at reg k = None" "r = Inl (UnknownSessionError t)" "reg' = reg"
    | (again) s where "u \<noteq> []" "session_at reg k = Some s" "sn_username s = Some u" "r = Inr s" "reg' = reg"
    | (second) s v t where "u \<noteq> []" "session_at reg k = Some s" "sn_username s = Some v" "v \<noteq> u"
        "r = Inl (SessionAlreadyAuthenticatedError t)" "reg' = reg"
    | (taken) s t where "u \<noteq> []" "session_at reg k = Some s" "sn_username s = None"
        "u \<in> active_names reg" "r = Inl (UsernameInUseError t)" "reg' = reg"
    | (full) s t where "u \<noteq> []" "session_at reg k = Some s" "sn_username s = None"
        "u \<notin> active_names reg" "{1..rg_maximum_user_id reg} \<subseteq> active_ids reg"
        "r = Inl (UserIdCapacityError t)" "reg' = reg"
    | (claimed) s i reg1 where "u \<noteq> []" "session_at reg k = Some s" "sn_username s = None"
        "u \<notin> active_names reg" "allocate_user_id reg = (Inr i, reg1)"
        "r = Inr (s\<lparr>sn_username := Some u, sn_user_id := Some i\<rparr>)"
        "reg' = reg1\<lparr>rg_sessions := AList.update k (s\<lparr>sn_username := Some u, sn_user_id := Some i\<rparr>)
            (rg_sessions reg1),
          rg_username_owners := AList.update u k (rg_username_owners reg1)\<rparr>"
proof (cases "u = []")
  case True
  with assms(2) show ?thesis by (intro empty) (auto simp: claim_username_def)
next
  case u: False
  show ?thesis
  proof (cases "session_at reg k")
    case None
    with u assms(2) show ?thesis
      by (intro unknown) (auto simp: claim_username_def bindS_def require_session_def session_at_def)
  next
    case (Some s)
    then have req: "require_session k reg = (Inr s, reg)"
      by (simp add: require_session_def session_at_def)
    note run = assms(2) [unfolded claim_username_def if_not_P [OF u] bindS_def req prod.case sum.case]
    show ?thesis
    proof (cases "sn_username s")
      case (Some v)
      with run show ?thesis
        using again [OF u \<open>session_at reg k = Some s\<close>] second [OF u \<open>session_at reg k = Some s\<close>]
        by (cases "v = u") auto
    next
      case None
      note first = u \<open>session_at reg k = Some s\<close> None
      show ?thesis
      proof (cases "map_of (rg_username_owners reg) u")
        case (Some owner)
        then have "u \<in> active_names reg" using no_owner_iff [OF assms(1), of u] by auto
        with Some None run show ?thesis by (intro taken [OF first]) auto
      next
        case free: None
        then have fresh: "u \<notin> active_names reg" using no_owner_iff [OF assms(1), of u] by simp
        obtain q reg1 where al: "allocate_user_id reg = (q, reg1)" by fastforce
        show ?thesis
        proof (cases q)
          case (Inl e)
          with al allocate_user_id_Inl [OF assms(1), of e reg1] None free run show ?thesis
            by (auto intro: full [OF first fresh])
        next
          case (Inr i)
          have "\<lparr>sn_session_id = sn_session_id s, sn_peer_address = sn_peer_address s,
              sn_username = Some u, sn_user_id = Some i\<rparr> = s\<lparr>sn_username := Some u, sn_user_id := Some i\<rparr>"
            by (cases s) simp
          with Inr al None free run show ?thesis
            by (intro claimed [OF first fresh, of i reg1]) (auto simp: store_claim_def)
        qed
      qed
    qed
  qed
qed

lemma claim_stored:
  assumes ok: "registry_ok reg" and s: "session_at reg k = Some s" "sn_username s = None"
    and u: "u \<notin> active_names reg" and al: "allocate_user_id reg = (Inr i, reg1)"
    and s': "s' = s\<lparr>sn_username := Some u, sn_user_id := Some i\<rparr>"
    and reg': "reg' = reg1\<lparr>rg_sessions := AList.update k s' (rg_sessions reg1),
        rg_username_owners := AList.update u k (rg_username_owners reg1)\<rparr>"
  shows "registry_ok reg' \<and> session_at reg' = (session_at reg)(k \<mapsto> s')
    \<and> active_ids reg' = insert i (active_ids reg)"
proof -
  obtain n free where i: "i \<notin> active_ids reg" "1 \<le> i" "i < n"
    and reg1: "reg1 = reg\<lparr>rg_next_user_id := n, rg_free_user_ids := free\<rparr>"
    and n: "rg_next_user_id reg \<le> n" "n \<le> rg_maximum_user_id reg + 1"
    and free: "heap.holds free ({1..<n} - insert i (active_ids reg))"
    using allocate_user_id_Inr [OF ok al] by blast
  have at: "session_at reg' = (session_at reg)(k \<mapsto> s')"
    by (simp add: session_at_def reg' reg1 AList.update_conv')
  have owners: "map_of (rg_username_owners reg') = (map_of (rg_username_owners reg))(u \<mapsto> k)"
    by (simp add: reg' reg1 AList.update_conv')
  have fields: "rg_next_user_id reg' = n" "rg_free_user_ids reg' = free"
      "rg_next_session_id reg' = rg_next_session_id reg"
      "rg_maximum_user_id reg' = rg_maximum_user_id reg"
    by (simp_all add: reg' reg1)
  have noid: "sn_user_id s = None" using registry_okD(2) [OF ok s(1)] s(2) by simp
  have ids: "active_ids reg' = insert i (active_ids reg)"
  proof (rule set_eqI)
    fix j
    have "(\<exists>k' x. ((session_at reg)(k \<mapsto> s')) k' = Some x \<and> sn_user_id x = Some j) \<longleftrightarrow>
        j = i \<or> (\<exists>k' x. session_at reg k' = Some x \<and> sn_user_id x = Some j)"
      using s(1) noid by (auto simp: s') (metis option.distinct(1) option.inject)
    then show "j \<in> active_ids reg' \<longleftrightarrow> j \<in> insert i (active_ids reg)"
      by (simp add: active_ids_iff at)
  qed
  have names: "v \<noteq> u" if "session_at reg j = Some x" "sn_username x = Some v" for j x v
    using u that by (auto simp: active_names_def ran_def)
  have "sessions_ok reg'"
    using ok s(1) unfolding registry_ok_def sessions_ok_def at fields by (auto simp: s')
  moreover have "owners_ok reg'"
    using ok s names unfolding registry_ok_def owners_ok_def at owners
    by (auto simp: s')
  moreover have "ids_ok reg'"
  proof -
    have "j \<noteq> i" if "session_at reg k' = Some x" "sn_user_id x = Some j" for k' x j
      using i(1) that by (auto simp: active_ids_def ran_def)
    moreover have "\<forall>k k' s s' i. session_at reg k = Some s \<longrightarrow> session_at reg k' = Some s' \<longrightarrow>
          sn_user_id s = Some i \<longrightarrow> sn_user_id s' = Some i \<longrightarrow> k = k'"
      using ok by (auto simp: registry_ok_def ids_ok_def)
    ultimately have "\<forall>k k' s s' i. session_at reg' k = Some s \<longrightarrow> session_at reg' k' = Some s' \<longrightarrow>
          sn_user_id s = Some i \<longrightarrow> sn_user_id s' = Some i \<longrightarrow> k = k'"
      unfolding at by (auto simp: s')
    then show ?thesis
      using ok i n free unfolding ids_ok_def ids registry_ok_def fields by auto
  qed
  ultimately show ?thesis using at ids by (simp add: registry_ok_def)
qed

lemma claim_username_ok:
  assumes "registry_ok reg"
  shows "registry_ok (snd (claim_username k u reg))"
proof (cases "claim_username k u reg")
  case (Pair r reg')
  with assms show ?thesis
    by (cases rule: claim_username_cases [OF assms Pair]) (auto dest: claim_stored)
qed

lemma release_session_at:
  "session_at (snd (release_session k reg)) = (session_at reg)(k := None)"
  by (auto simp: release_session_def session_at_def Let_def AList.delete_conv' fun_eq_iff
      split: option.split)

lemma release_session_ok:
  assumes ok: "registry_ok reg"
  shows "registry_ok (snd (release_session k reg))"
proof (cases "session_at reg k")
  case None
  then show ?thesis using ok by (simp add: release_session_def session_at_def)
next
  case (Some s)
  let ?r = "snd (release_session k reg)"
  note at = release_session_at [of k reg]
  have fields: "rg_next_user_id ?r = rg_next_user_id reg" "rg_next_session_id ?r = rg_next_session_id reg"
      "rg_maximum_user_id ?r = rg_maximum_user_id reg"
    by (simp_all add: release_session_def Let_def split: option.split)
  have owners: "map_of (rg_username_owners ?r) = (case sn_username s of
      None \<Rightarrow> map_of (rg_username_owners reg) | Some v \<Rightarrow> (map_of (rg_username_owners reg))(v := None))"
    using Some by (simp add: release_session_def session_at_def Let_def AList.delete_conv' split: option.split)
  have heap: "rg_free_user_ids ?r = (case sn_user_id s of None \<Rightarrow> rg_free_user_ids reg
      | Some i \<Rightarrow> heappush i (rg_free_user_ids reg))"
    using Some by (simp add: release_session_def session_at_def Let_def split: option.split)
  have uniq: "j = k" if "session_at reg j = Some x" "sn_user_id x = sn_user_id s" "sn_user_id s \<noteq> None" for j x
    using registry_okD(4) [OF ok that(1) Some] that by auto
  have ids: "active_ids ?r = active_ids reg - {i. sn_user_id s = Some i}"
  proof (rule set_eqI)
    fix i
    have "(\<exists>j x. ((session_at reg)(k := None)) j = Some x \<and> sn_user_id x = Some i) \<longleftrightarrow>
        (\<exists>j x. session_at reg j = Some x \<and> sn_user_id x = Some i) \<and> sn_user_id s \<noteq> Some i"
      using uniq Some by auto (metis option.inject)+
    then show "i \<in> active_ids ?r \<longleftrightarrow> i \<in> active_ids reg - {i. sn_user_id s = Some i}"
      by (simp add: active_ids_iff at)
  qed
  have "sessions_ok ?r"
    using ok by (auto simp: registry_ok_def sessions_ok_def at fields)
  moreover have "owners_ok ?r"
    using ok Some registry_okD(3) [OF ok] unfolding owners_ok_def at owners
    by (auto split: option.split if_splits dest: names_inject [OF ok Some])
  moreover have "ids_ok ?r"
  proof (cases "sn_user_id s")
    case None
    then show ?thesis using ok ids heap by (auto simp: registry_ok_def ids_ok_def at fields)
  next
    case id: (Some i)
    then have i: "i \<in> active_ids reg" using Some by (auto simp: active_ids_def ran_def)
    let ?A = "{1..<rg_next_user_id reg} - active_ids reg"
    have "heap.holds (heappush i (rg_free_user_ids reg)) (insert i ?A)"
      using ok i by (intro heap.holds_push) (auto simp: registry_ok_def ids_ok_def)
    moreover have "insert i ?A = {1..<rg_next_user_id reg} - (active_ids reg - {i})"
      using ok i by (auto simp: registry_ok_def ids_ok_def)
    ultimately show ?thesis using ok ids heap id by (auto simp: registry_ok_def ids_ok_def at fields)
  qed
  ultimately show ?thesis by (simp add: registry_ok_def)
qed

lemma run_calls_ok: "registry_ok reg \<Longrightarrow> registry_ok (run_calls calls reg)"
proof (induction calls arbitrary: reg)
  case Nil
  then show ?case by (simp add: run_calls_def)
next
  case (Cons c calls)
  have "registry_ok (run_call c reg)"
    using Cons.prems by (cases c) (simp_all add: register_session_ok claim_username_ok release_session_ok)
  from Cons.IH [OF this] show ?case by (simp add: run_calls_def)
qed

lemma run_call_maximum: "rg_maximum_user_id (run_call c reg) = rg_maximum_user_id reg"
proof (cases c)
  case (Claim k u)
  have "rg_maximum_user_id (snd (allocate_user_id reg)) = rg_maximum_user_id reg"
    by (auto simp: allocate_user_id_def split: prod.split)
  with Claim show ?thesis
    by (auto simp: claim_username_def bindS_def require_session_def store_claim_def
        split: option.split prod.split sum.split)
qed (simp_all add: register_session_def release_session_def Let_def split: option.split)

lemma run_calls_maximum: "rg_maximum_user_id (run_calls calls reg) = rg_maximum_user_id reg"
  unfolding run_calls_def by (induction calls arbitrary: reg) (simp_all add: run_call_maximum)

lemma owner_of_iff:
  "registry_ok reg \<Longrightarrow>
     owner_of u reg = Some s \<longleftrightarrow> (\<exists>k. session_at reg k = Some s \<and> sn_username s = Some u)"
  using registry_okD(3) [of reg u] unfolding owner_of_def session_at_def [symmetric]
  by (auto split: option.split) (metis names_inject option.inject)

subsection \<open>The properties of the registry\<close>

text \<open>
  C12. Identities are unique at all times: after any sequence of register, claim and release
  calls that concurrent sessions make, two different active sessions have different session
  ids, never share a username or a wire \<open>USER_ID\<close>, and every \<open>USER_ID\<close> in use lies between 1
  and the configured maximum.
\<close>

theorem registry_identities_unique:
  assumes "make_registry maximum = Inr reg0" and "reg = run_calls calls reg0"
    and "session_at reg k = Some s" and "session_at reg k' = Some s'" and "k \<noteq> k'"
  shows "sn_session_id s \<noteq> sn_session_id s'
    \<and> (\<forall>u. sn_username s = Some u \<longrightarrow> sn_username s' \<noteq> Some u)
    \<and> (\<forall>i. sn_user_id s = Some i \<longrightarrow> 1 \<le> i \<and> i \<le> maximum \<and> sn_user_id s' \<noteq> Some i)"
proof -
  have ok: "registry_ok reg"
    using make_registry_ok [OF assms(1)] by (simp add: assms(2) run_calls_ok)
  have "rg_maximum_user_id reg = maximum"
    using assms(1) by (auto simp: assms(2) run_calls_maximum make_registry_def result_simps)
  then have range: "i \<in> active_ids reg \<Longrightarrow> 1 \<le> i \<and> i \<le> maximum" for i
    using id_range [OF ok] by simp
  have "sn_user_id s = Some i \<Longrightarrow> 1 \<le> i \<and> i \<le> maximum" for i
    using range assms(3) active_ids_iff by blast
  then show ?thesis
    using registry_okD(1) [OF ok] registry_okD(4) [OF ok assms(3,4)] names_inject [OF ok assms(3,4)]
      assms(3-5) by auto
qed

definition example_peer :: address where "example_peer = (lit ''127.0.0.1'', 5000)"

definition example_calls :: "registry_call list" where
  "example_calls = [Register example_peer, Register example_peer, Claim 1 [97], Claim 2 [97],
     Claim 2 [98], Release 1, Register example_peer, Claim 3 [97]]"

definition example_snapshot :: "int \<Rightarrow> pystr \<Rightarrow> int \<Rightarrow> session_snapshot" where
  "example_snapshot k u i = \<lparr>sn_session_id = k, sn_peer_address = example_peer,
     sn_username = Some u, sn_user_id = Some i\<rparr>"

definition example_registry0 :: registry where
  "example_registry0 = \<lparr>rg_maximum_user_id = 2, rg_sessions = [], rg_username_owners = [],
     rg_next_session_id = 1, rg_next_user_id = 1, rg_free_user_ids = []\<rparr>"

definition example_registry :: registry where
  "example_registry = \<lparr>rg_maximum_user_id = 2,
     rg_sessions = [(2, example_snapshot 2 [98] 2), (3, example_snapshot 3 [97] 1)],
     rg_username_owners = [([98], 2), ([97], 3)],
     rg_next_session_id = 4, rg_next_user_id = 3, rg_free_user_ids = []\<rparr>"

lemma make_example_registry: "make_registry 2 = Inr example_registry0"
  by (simp add: make_registry_def example_registry0_def MIN_USER_ID_def MAX_USER_ID_def)

lemmas registry_steps = run_calls_def register_session_def claim_username_def release_session_def
  require_session_def allocate_user_id_def store_claim_def heappush_def heappop_def bindS_def Let_def

lemma example_run: "run_calls example_calls example_registry0 = example_registry"
  by (simp add: registry_steps example_calls_def example_registry0_def example_registry_def
      example_snapshot_def)

theorem registry_identities_unique_witness:
  "sn_username (example_snapshot 2 [98] 2) \<noteq> sn_username (example_snapshot 3 [97] 1)
   \<and> sn_user_id (example_snapshot 2 [98] 2) \<noteq> sn_user_id (example_snapshot 3 [97] 1)"
  using registry_identities_unique [OF make_example_registry example_run [symmetric],
      of 2 "example_snapshot 2 [98] 2" 3 "example_snapshot 3 [97] 1"]
  by (simp add: session_at_def example_registry_def) (simp add: example_snapshot_def)

text \<open>
  C21. What \<open>claim_username\<close> does, on every branch: a first claim of a free name binds it with
  the least \<open>USER_ID\<close> that no session uses; repeating one's own claim changes nothing; every
  other case raises its own exception, changes nothing, and the capacity error is raised only
  when every id up to the maximum is in use.
\<close>

theorem claim_username_outcome:
  assumes "registry_ok reg"
  shows "case claim_username k u reg of
     (Inr s', reg') \<Rightarrow> u \<noteq> [] \<and> session_at reg' = (session_at reg)(k \<mapsto> s') \<and>
       (\<exists>s. session_at reg k = Some s \<and>
         (sn_username s = Some u \<and> s' = s \<and> reg' = reg
          \<or> sn_username s = None \<and> u \<notin> active_names reg \<and>
            (\<exists>i. s' = s\<lparr>sn_username := Some u, sn_user_id := Some i\<rparr>
               \<and> 1 \<le> i \<and> i \<le> rg_maximum_user_id reg \<and> i \<notin> active_ids reg
               \<and> (\<forall>j. 1 \<le> j \<longrightarrow> j \<notin> active_ids reg \<longrightarrow> i \<le> j))))
   | (Inl e, reg') \<Rightarrow> reg' = reg \<and>
       (u = [] \<and> (\<exists>t. e = ValueError t)
        \<or> u \<noteq> [] \<and> session_at reg k = None \<and> (\<exists>t. e = UnknownSessionError t)
        \<or> (\<exists>s v t. session_at reg k = Some s \<and> sn_username s = Some v \<and> v \<noteq> u
             \<and> e = SessionAlreadyAuthenticatedError t)
        \<or> u \<in> active_names reg \<and> (\<exists>t. e = UsernameInUseError t)
        \<or> {1..rg_maximum_user_id reg} \<subseteq> active_ids reg \<and> (\<exists>t. e = UserIdCapacityError t))"
proof (cases "claim_username k u reg")
  case (Pair r reg')
  from assms Pair show ?thesis
  proof (cases rule: claim_username_cases)
    case (again s)
    then show ?thesis by (auto simp: Pair fun_upd_idem)
  next
    case (claimed s i reg1)
    from allocate_user_id_Inr [OF assms claimed(5)] claim_stored [OF assms claimed(2,3,4,5) refl claimed(7)]
    show ?thesis using claimed(1-4,6) Pair by auto
  next
    case (empty t)
    then show ?thesis using Pair by simp
  qed (simp_all add: Pair)
qed

lemma example_registry_ok: "registry_ok example_registry"
  using run_calls_ok [OF make_registry_ok [OF make_example_registry], of example_calls]
  by (simp add: example_run)

theorem claim_username_outcome_witness:
  "registry_ok example_registry \<and> (case claim_username 3 [98] example_registry of
     (Inr s', reg') \<Rightarrow> False
   | (Inl e, reg') \<Rightarrow> reg' = example_registry)"
  using claim_username_outcome [OF example_registry_ok, where k = 3 and u = "[98]"] example_registry_ok
  by (simp add: registry_steps example_registry_def example_snapshot_def)

text \<open>
  Releasing a session gives everything back: its username can be claimed at once by any
  other unauthenticated session, whatever the load, and the new owner's \<open>USER_ID\<close> is not above
  the released one (so ids stay dense and the capacity is never leaked).
\<close>

theorem released_name_can_be_claimed:
  assumes "registry_ok reg" and "session_at reg k = Some s" and "sn_username s = Some u"
    and "sn_user_id s = Some i" and "u \<noteq> []"
    and "session_at reg k' = Some w" and "sn_username w = None"
  shows "\<exists>w' reg'. claim_username k' u (snd (release_session k reg)) = (Inr w', reg')
    \<and> sn_username w' = Some u \<and> (\<exists>j. sn_user_id w' = Some j \<and> 1 \<le> j \<and> j \<le> i)
    \<and> session_at reg' k = None \<and> owner_of u reg' = Some w'"
proof -
  let ?reg = "snd (release_session k reg)"
  have ok: "registry_ok ?reg" by (rule release_session_ok [OF assms(1)])
  note at = release_session_at [of k reg]
  have ne: "k' \<noteq> k" using assms by auto
  have name: "u \<notin> active_names ?reg"
    using names_inject [OF assms(1,2) _ assms(3)] by (auto simp: active_names_iff at)
  have free: "i \<notin> active_ids ?reg"
    using registry_okD(4) [OF assms(1,2) _ assms(4)] by (auto simp: active_ids_iff at)
  have i: "1 \<le> i" "i \<le> rg_maximum_user_id ?reg"
    using id_range [OF assms(1), of i] assms(2,4) run_call_maximum [of "Release k" reg]
    by (auto simp: active_ids_iff)
  obtain r reg' where run: "claim_username k' u ?reg = (r, reg')" by fastforce
  from ok run show ?thesis
  proof (cases rule: claim_username_cases)
    case (claimed x j reg1)
    note st = claim_stored [OF ok claimed(2-5) refl claimed(7)]
    have "x = w" using claimed(2) ne assms(6) by (simp add: at)
    have "j \<le> i" "1 \<le> j" using allocate_user_id_Inr [OF ok claimed(5)] free i by auto
    moreover have "owner_of u reg' = Some (x\<lparr>sn_username := Some u, sn_user_id := Some j\<rparr>)"
      using st by (subst owner_of_iff) (auto intro!: exI [of _ k'])
    ultimately show ?thesis using run claimed(6) st ne by (auto simp: at)
  qed (use assms ne name free i in \<open>auto simp: at subset_eq\<close>)
qed

theorem released_name_can_be_claimed_witness:
  "\<exists>w' reg'. claim_username 4 [98] (snd (release_session 2
       (snd (register_session example_peer example_registry)))) = (Inr w', reg')
    \<and> sn_username w' = Some [98] \<and> (\<exists>j. sn_user_id w' = Some j \<and> 1 \<le> j \<and> j \<le> 2)
    \<and> session_at reg' 2 = None \<and> owner_of [98] reg' = Some w'"
  by (rule released_name_can_be_claimed [OF register_session_ok [OF example_registry_ok]])
    (simp_all add: register_session_at, simp_all add: session_at_def example_registry_def,
      simp_all add: example_snapshot_def)

end
