(* ===== verification/Throttling.thy ===== *)
theory Throttling
  imports Complex_Main Protocol
begin

section \<open>The token bucket\<close>

text \<open>
  \<open>src/hcmus_socket/throttling.py\<close>.  Python floats are modelled as exact reals (rounding is not
  modelled, and \<open>isfinite\<close> is always true of a real).  Every block under \<open>self._lock\<close> is one
  atomic section that reads the clock once, so it takes the reading as its argument \<open>now\<close>:
  concurrent consumers of one bucket are a sequence of sections, with any readings.
  \<open>consume\<close> itself runs against an environment: the clock, and the extra time that passes
  before each reading.  \<open>time.sleep(w)\<close> returns after at least \<open>w\<close> seconds, so a sleep moves
  the clock by \<open>w\<close>, and whatever it oversleeps is part of the next extra delay.
\<close>

subsection \<open>State\<close>

record token_bucket =
  tb_rate_bytes_per_second :: real
  tb_burst_bytes :: real
  tb_tokens :: real
  tb_last_refill :: real
  tb_total_bytes_consumed :: real
  tb_total_wait_seconds :: real

definition positive_number :: "real \<Rightarrow> pystr \<Rightarrow> exc + real" where
  "positive_number number name =
     bindE (guardE (0 < number) (ValueError (name @ lit '' must be greater than zero''))) (\<lambda>_. Inr number)"

definition nonnegative_number :: "real \<Rightarrow> pystr \<Rightarrow> exc + real" where
  "nonnegative_number number name =
     bindE (guardE (0 \<le> number) (ValueError (name @ lit '' must not be negative''))) (\<lambda>_. Inr number)"

definition make_token_bucket :: "real \<Rightarrow> real \<Rightarrow> real option \<Rightarrow> real \<Rightarrow> exc + token_bucket" where
  "make_token_bucket rate burst initial_tokens now =
     bindE (positive_number rate (lit ''rate_bytes_per_second'')) (\<lambda>rate.
     bindE (positive_number burst (lit ''burst_bytes'')) (\<lambda>burst.
     bindE (case initial_tokens of
              None \<Rightarrow> Inr burst
            | Some tokens \<Rightarrow> nonnegative_number tokens (lit ''initial_tokens'')) (\<lambda>starting_tokens.
     bindE (guardE (starting_tokens \<le> burst)
       (ValueError (lit ''initial_tokens must not exceed burst_bytes''))) (\<lambda>_.
     Inr \<lparr>tb_rate_bytes_per_second = rate, tb_burst_bytes = burst, tb_tokens = starting_tokens,
       tb_last_refill = now, tb_total_bytes_consumed = 0, tb_total_wait_seconds = 0\<rparr>))))"

definition byte_amount :: "int \<Rightarrow> exc + int" where
  "byte_amount amount =
     bindE (guardE (0 \<le> amount) (ValueError (lit ''amount must not be negative''))) (\<lambda>_. Inr amount)"

subsection \<open>The locked sections\<close>

definition refill_locked :: "real \<Rightarrow> token_bucket \<Rightarrow> token_bucket" where
  "refill_locked now b =
     (let elapsed = now - tb_last_refill b in
      if elapsed \<le> 0 then b
      else b\<lparr>tb_tokens := min (tb_burst_bytes b) (tb_tokens b + elapsed * tb_rate_bytes_per_second b),
             tb_last_refill := now\<rparr>)"

text \<open>One turn of the loop of \<open>consume\<close>: what remains, and how long to sleep if anything does.\<close>

definition consume_section :: "real \<Rightarrow> real \<Rightarrow> token_bucket \<Rightarrow> (real \<times> real option) \<times> token_bucket" where
  "consume_section now remaining b =
     (let b1 = refill_locked now b;
          consumed = min (tb_tokens b1) remaining;
          b2 = b1\<lparr>tb_tokens := tb_tokens b1 - consumed,
                  tb_total_bytes_consumed := tb_total_bytes_consumed b1 + consumed\<rparr>;
          remaining' = remaining - consumed in
      if remaining' \<le> 0 then ((remaining', None), b2)
      else ((remaining', Some (min remaining' (tb_burst_bytes b2) / tb_rate_bytes_per_second b2)), b2))"

definition wait_section :: "real \<Rightarrow> token_bucket \<Rightarrow> token_bucket" where
  "wait_section wait_seconds b = b\<lparr>tb_total_wait_seconds := tb_total_wait_seconds b + wait_seconds\<rparr>"

definition try_consume :: "real \<Rightarrow> int \<Rightarrow> token_bucket \<Rightarrow> (exc + bool) \<times> token_bucket" where
  "try_consume now amount b =
     (case byte_amount amount of
        Inl e \<Rightarrow> (Inl e, b)
      | Inr requested \<Rightarrow>
          let b1 = refill_locked now b in
          if real_of_int requested > tb_tokens b1 then (Inr False, b1)
          else (Inr True, b1\<lparr>tb_tokens := tb_tokens b1 - real_of_int requested,
                  tb_total_bytes_consumed := tb_total_bytes_consumed b1 + real_of_int requested\<rparr>))"

definition bucket_snapshot :: "real \<Rightarrow> token_bucket \<Rightarrow> token_bucket" where
  "bucket_snapshot now b = refill_locked now b"

datatype bucket_call = ConsumeTurn real real | Waited real | TryConsume real int | Snapshot real

fun run_section :: "bucket_call \<Rightarrow> token_bucket \<Rightarrow> token_bucket" where
  "run_section (ConsumeTurn now remaining) b = (if 0 < remaining then snd (consume_section now remaining b) else b)"
| "run_section (Waited w) b = wait_section w b"
| "run_section (TryConsume now amount) b = snd (try_consume now amount b)"
| "run_section (Snapshot now) b = bucket_snapshot now b"

subsection \<open>\<open>consume\<close> against a clock\<close>

record timing =
  tm_now :: real
  tm_delays :: "real list"

definition read_clock :: "timing \<Rightarrow> real \<times> timing" where
  "read_clock tm =
     (case tm_delays tm of
        [] \<Rightarrow> (tm_now tm, tm)
      | d # ds \<Rightarrow> (tm_now tm + d, \<lparr>tm_now = tm_now tm + d, tm_delays = ds\<rparr>))"

definition sleep_for :: "real \<Rightarrow> timing \<Rightarrow> timing" where
  "sleep_for w tm = tm\<lparr>tm_now := tm_now tm + w\<rparr>"

text \<open>\<open>None\<close>: the loop has not returned after that many turns.\<close>

fun consume_loop ::
  "nat \<Rightarrow> real \<Rightarrow> real \<Rightarrow> token_bucket \<Rightarrow> timing \<Rightarrow> (real \<times> token_bucket \<times> timing) option" where
  "consume_loop 0 remaining waited b tm = (if remaining > 0 then None else Some (waited, b, tm))"
| "consume_loop (Suc fuel) remaining waited b tm =
     (if remaining > 0 then
        (case read_clock tm of (now, tm1) \<Rightarrow>
         case consume_section now remaining b of
           ((remaining', None), b1) \<Rightarrow> Some (waited, b1, tm1)
         | ((remaining', Some w), b1) \<Rightarrow>
             consume_loop fuel remaining' (waited + w) (wait_section w b1) (sleep_for w tm1))
      else Some (waited, b, tm))"

definition consume ::
  "nat \<Rightarrow> int \<Rightarrow> token_bucket \<Rightarrow> timing \<Rightarrow> (exc + real \<times> token_bucket \<times> timing) option" where
  "consume fuel amount b tm =
     (case byte_amount amount of
        Inl e \<Rightarrow> Some (Inl e)
      | Inr n \<Rightarrow> map_option Inr (consume_loop fuel (real_of_int n) 0 b tm))"

subsection \<open>The invariant and the rate bound\<close>

definition bucket_ok :: "token_bucket \<Rightarrow> bool" where
  "bucket_ok b \<longleftrightarrow> 0 < tb_rate_bytes_per_second b \<and> 0 < tb_burst_bytes b
     \<and> 0 \<le> tb_tokens b \<and> tb_tokens b \<le> tb_burst_bytes b"

text \<open>
  \<open>paid_for b b'\<close>: from \<open>b\<close> to \<open>b'\<close> the bucket has spent at most what it had and what the
  time between the two refills earns.
\<close>

definition paid_for :: "token_bucket \<Rightarrow> token_bucket \<Rightarrow> bool" where
  "paid_for b b' \<longleftrightarrow> bucket_ok b' \<and> tb_rate_bytes_per_second b' = tb_rate_bytes_per_second b
     \<and> tb_burst_bytes b' = tb_burst_bytes b \<and> tb_last_refill b \<le> tb_last_refill b'
     \<and> tb_total_bytes_consumed b \<le> tb_total_bytes_consumed b'
     \<and> tb_total_bytes_consumed b' - tb_total_bytes_consumed b + tb_tokens b'
         \<le> tb_tokens b + tb_rate_bytes_per_second b * (tb_last_refill b' - tb_last_refill b)"

lemma paid_for_refl: "bucket_ok b \<Longrightarrow> paid_for b b"
  by (simp add: paid_for_def)

lemma paid_for_trans:
  assumes "paid_for a b" "paid_for b c"
  shows "paid_for a c"
proof -
  have "tb_rate_bytes_per_second a * (tb_last_refill b - tb_last_refill a)
      + tb_rate_bytes_per_second a * (tb_last_refill c - tb_last_refill b)
      = tb_rate_bytes_per_second a * (tb_last_refill c - tb_last_refill a)"
    by (simp add: algebra_simps)
  with assms show ?thesis by (auto simp: paid_for_def)
qed

lemma refill_paid_for: "bucket_ok b \<Longrightarrow> paid_for b (refill_locked now b)"
  by (auto simp: paid_for_def refill_locked_def bucket_ok_def Let_def min_def mult.commute)

lemma spend_paid_for:
  "bucket_ok b \<Longrightarrow> 0 \<le> c \<Longrightarrow> c \<le> tb_tokens b \<Longrightarrow>
     paid_for b (b\<lparr>tb_tokens := tb_tokens b - c, tb_total_bytes_consumed := tb_total_bytes_consumed b + c\<rparr>)"
  by (simp add: paid_for_def bucket_ok_def)

lemma paid_for_ok: "paid_for b b' \<Longrightarrow> bucket_ok b'"
  by (simp add: paid_for_def)

lemma consume_section_paid_for:
  assumes "bucket_ok b" "0 \<le> remaining"
  shows "paid_for b (snd (consume_section now remaining b))"
proof -
  note r = refill_paid_for [OF assms(1), of now]
  have "paid_for (refill_locked now b) (snd (consume_section now remaining b))"
    using spend_paid_for [OF paid_for_ok [OF r], of "min (tb_tokens (refill_locked now b)) remaining"]
      paid_for_ok [OF r] assms(2)
    by (auto simp: consume_section_def Let_def bucket_ok_def min_def split: if_splits)
  with r show ?thesis by (rule paid_for_trans)
qed

lemma try_consume_paid_for:
  assumes "bucket_ok b"
  shows "paid_for b (snd (try_consume now amount b))"
proof (cases "byte_amount amount")
  case (Inl e)
  then show ?thesis by (simp add: try_consume_def paid_for_refl assms)
next
  case (Inr n)
  note r = refill_paid_for [OF assms, of now]
  have "0 \<le> n" using Inr by (auto simp: byte_amount_def result_simps)
  then have "paid_for (refill_locked now b) (snd (try_consume now amount b))"
    using spend_paid_for [OF paid_for_ok [OF r], of "real_of_int n"] paid_for_refl [OF paid_for_ok [OF r]] Inr
    by (simp add: try_consume_def Let_def)
  with r show ?thesis by (rule paid_for_trans)
qed

lemma run_section_paid_for: "bucket_ok b \<Longrightarrow> paid_for b (run_section c b)"
proof (cases c)
  case (Waited w)
  assume "bucket_ok b"
  with Waited show ?thesis by (simp add: wait_section_def paid_for_def bucket_ok_def)
qed (simp_all add: consume_section_paid_for try_consume_paid_for refill_paid_for bucket_snapshot_def paid_for_refl)

lemma sections_paid_for: "bucket_ok b \<Longrightarrow> paid_for b (fold run_section calls b)"
proof (induction calls arbitrary: b)
  case Nil
  then show ?case by (simp add: paid_for_refl)
next
  case (Cons c calls)
  have "paid_for b (run_section c b)" using Cons.prems by (rule run_section_paid_for)
  moreover from Cons.IH [OF paid_for_ok [OF this]]
  have "paid_for (run_section c b) (fold run_section calls (run_section c b))" .
  ultimately show ?case using paid_for_trans by simp
qed

lemma make_token_bucket_ok: "make_token_bucket rate burst initial now = Inr b \<Longrightarrow> bucket_ok b"
  by (auto simp: make_token_bucket_def positive_number_def nonnegative_number_def result_simps
      bucket_ok_def split: option.splits)

subsection \<open>\<open>consume\<close> returns\<close>

definition clock_ok :: "token_bucket \<Rightarrow> timing \<Rightarrow> bool" where
  "clock_ok b tm \<longleftrightarrow> tb_last_refill b \<le> tm_now tm \<and> (\<forall>d \<in> set (tm_delays tm). 0 \<le> d)"

definition earned :: "real \<Rightarrow> token_bucket \<Rightarrow> real" where
  "earned now b = min (tb_burst_bytes b) (tb_tokens b + (now - tb_last_refill b) * tb_rate_bytes_per_second b)"

lemma consume_section_turn:
  assumes "bucket_ok b" "tb_last_refill b \<le> now" "0 < remaining"
  obtains b1 where
    "consume_section now remaining b =
       (let r = remaining - min (earned now b) remaining in
        ((r, if r \<le> 0 then None else Some (min r (tb_burst_bytes b) / tb_rate_bytes_per_second b)), b1))"
    "bucket_ok b1" "tb_rate_bytes_per_second b1 = tb_rate_bytes_per_second b"
    "tb_burst_bytes b1 = tb_burst_bytes b" "tb_last_refill b1 = now"
    "tb_total_bytes_consumed b1 = tb_total_bytes_consumed b + min (earned now b) remaining"
proof -
  let ?r = "refill_locked now b" and ?b1 = "snd (consume_section now remaining b)"
  have r: "tb_tokens ?r = earned now b" "tb_last_refill ?r = now"
      "tb_rate_bytes_per_second ?r = tb_rate_bytes_per_second b" "tb_burst_bytes ?r = tb_burst_bytes b"
      "tb_total_bytes_consumed ?r = tb_total_bytes_consumed b"
    using assms(1,2) by (auto simp: refill_locked_def Let_def earned_def bucket_ok_def min_def)
  have "bucket_ok ?b1"
    using consume_section_paid_for [OF assms(1), of remaining now] assms(3) by (simp add: paid_for_ok)
  then show thesis
    by (intro that [of ?b1]) (simp_all add: consume_section_def Let_def r)
qed

lemma read_clock_cases:
  assumes "\<forall>d \<in> set (tm_delays tm). 0 \<le> d" "read_clock tm = (now, tm1)"
  shows "tm_now tm \<le> now \<and> tm_now tm1 = now \<and> (\<forall>d \<in> set (tm_delays tm1). 0 \<le> d)"
  using assms by (auto simp: read_clock_def split: list.splits)

lemma earned_mono:
  assumes "bucket_ok b" "t \<le> now"
  shows "earned t b \<le> earned now b"
proof -
  have "(t - tb_last_refill b) * tb_rate_bytes_per_second b
      \<le> (now - tb_last_refill b) * tb_rate_bytes_per_second b"
    using assms by (intro mult_right_mono) (simp_all add: bucket_ok_def)
  then show ?thesis by (simp add: earned_def min_def)
qed

text \<open>One turn: it finishes, or it sleeps long enough to pay for the next turn.\<close>

lemma consume_loop_turn:
  assumes "bucket_ok b" "clock_ok b tm" and pos: "0 < remaining"
  obtains (finished) b1 tm1 where
      "\<And>fuel waited. consume_loop (Suc fuel) remaining waited b tm = Some (waited, b1, tm1)"
      "bucket_ok b1" "clock_ok b1 tm1"
      "tb_total_bytes_consumed b1 = tb_total_bytes_consumed b + remaining"
    | (slept) r w b1 tm1 where
      "\<And>fuel waited. consume_loop (Suc fuel) remaining waited b tm
         = consume_loop fuel r (waited + w) b1 tm1"
      "0 < r" "r \<le> remaining - min (earned (tm_now tm) b) remaining"
      "bucket_ok b1" "clock_ok b1 tm1"
      "tb_rate_bytes_per_second b1 = tb_rate_bytes_per_second b" "tb_burst_bytes b1 = tb_burst_bytes b"
      "tb_total_bytes_consumed b1 + r = tb_total_bytes_consumed b + remaining"
      "min r (tb_burst_bytes b) \<le> earned (tm_now tm1) b1"
      "0 \<le> w" "w * tb_rate_bytes_per_second b = min r (tb_burst_bytes b)"
proof -
  obtain now tm1 where rd: "read_clock tm = (now, tm1)" by fastforce
  have last0: "tb_last_refill b \<le> tm_now tm" and delays: "\<forall>d \<in> set (tm_delays tm). 0 \<le> d"
    using assms(2) by (simp_all add: clock_ok_def)
  note tm1 = read_clock_cases [OF delays rd]
  have last: "tb_last_refill b \<le> now" using last0 tm1 by linarith
  define r where "r = remaining - min (earned now b) remaining"
  obtain b1 where turn: "consume_section now remaining b =
      ((r, if r \<le> 0 then None else Some (min r (tb_burst_bytes b) / tb_rate_bytes_per_second b)), b1)"
    and b1: "bucket_ok b1" "tb_rate_bytes_per_second b1 = tb_rate_bytes_per_second b"
      "tb_burst_bytes b1 = tb_burst_bytes b" "tb_last_refill b1 = now"
      "tb_total_bytes_consumed b1 = tb_total_bytes_consumed b + min (earned now b) remaining"
    using consume_section_turn [OF assms(1) last pos] by (metis (no_types, lifting) r_def)
  show thesis
  proof (cases "r \<le> 0")
    case True
    then have "min (earned now b) remaining = remaining" by (simp add: r_def)
    then show ?thesis using True pos turn rd b1 tm1
      by (intro finished [of b1 tm1]) (simp_all add: clock_ok_def)
  next
    case False
    let ?w = "min r (tb_burst_bytes b) / tb_rate_bytes_per_second b"
    let ?b = "wait_section ?w b1" and ?tm = "sleep_for ?w tm1"
    have posb: "0 < tb_rate_bytes_per_second b" "0 < tb_burst_bytes b" "0 \<le> tb_tokens b1"
      using assms(1) b1(1) by (simp_all add: bucket_ok_def)
    have w: "0 \<le> ?w" "?w * tb_rate_bytes_per_second b = min r (tb_burst_bytes b)"
      using False posb by simp_all
    have less: "r \<le> remaining - min (earned (tm_now tm) b) remaining"
      using earned_mono [OF assms(1), of "tm_now tm" now] tm1 by (auto simp: r_def)
    have fields: "bucket_ok ?b" "tb_last_refill ?b = now" "tm_now ?tm = now + ?w"
        "tb_rate_bytes_per_second ?b = tb_rate_bytes_per_second b" "tb_burst_bytes ?b = tb_burst_bytes b"
        "tb_total_bytes_consumed ?b = tb_total_bytes_consumed b1" "tb_tokens ?b = tb_tokens b1"
        "\<forall>d \<in> set (tm_delays ?tm). 0 \<le> d"
      using b1 tm1 by (simp_all add: wait_section_def sleep_for_def bucket_ok_def)
    show ?thesis
    proof (rule slept [of r ?w ?b ?tm])
      show "consume_loop (Suc fuel) remaining waited b tm = consume_loop fuel r (waited + ?w) ?b ?tm"
        for fuel waited
        using pos turn rd False by simp
      show "0 < r" using False by simp
      show "min r (tb_burst_bytes b) \<le> earned (tm_now ?tm) ?b"
        using w(2) posb by (simp only: earned_def fields) simp
      show "clock_ok ?b ?tm" using w(1) fields(8) by (simp only: clock_ok_def fields) simp
      show "tb_total_bytes_consumed ?b + r = tb_total_bytes_consumed b + remaining"
        using b1(5) r_def unfolding fields by linarith
    qed (use less w fields in \<open>simp_all only:\<close>)
  qed
qed

text \<open>Once a sleep has paid for the next turn, every turn takes a full burst or the rest.\<close>

lemma consume_loop_paid:
  assumes "bucket_ok b" "clock_ok b tm" and "0 \<le> remaining" "remaining \<le> real fuel * tb_burst_bytes b"
    and "min remaining (tb_burst_bytes b) \<le> earned (tm_now tm) b"
  shows "\<exists>x b' tm'. consume_loop fuel remaining waited b tm = Some (waited + x, b', tm')
    \<and> 0 \<le> x \<and> x * tb_rate_bytes_per_second b \<le> max 0 (remaining - tb_burst_bytes b)
    \<and> tb_total_bytes_consumed b' = tb_total_bytes_consumed b + remaining \<and> bucket_ok b' \<and> clock_ok b' tm'"
  using assms
proof (induction fuel arbitrary: remaining waited b tm)
  case 0
  then have "remaining = 0" by simp
  with 0 show ?case by auto
next
  case (Suc fuel)
  show ?case
  proof (cases "remaining = 0")
    case True
    then show ?thesis using Suc.prems by auto
  next
    case False
    then have "0 < remaining" using Suc.prems(3) by simp
    with Suc.prems(1,2) show ?thesis
    proof (cases rule: consume_loop_turn)
      case (finished b1 tm1)
      then show ?thesis by (intro exI [of _ 0] exI [of _ b1] exI [of _ tm1]) simp
    next
      case (slept r w b1 tm1)
      have r: "r \<le> remaining - tb_burst_bytes b"
        using slept(2,3) Suc.prems(5) by (auto simp: min_def split: if_splits)
      then have "r \<le> real fuel * tb_burst_bytes b1"
        using Suc.prems(4) slept(7) by (simp add: algebra_simps)
      then obtain x b' tm' where rec: "consume_loop fuel r (waited + w) b1 tm1 = Some (waited + w + x, b', tm')"
        and x: "0 \<le> x" "x * tb_rate_bytes_per_second b \<le> max 0 (r - tb_burst_bytes b)"
        and b': "tb_total_bytes_consumed b' = tb_total_bytes_consumed b1 + r" "bucket_ok b'" "clock_ok b' tm'"
        using Suc.IH [of b1 tm1 r "waited + w"] slept by auto
      have "(w + x) * tb_rate_bytes_per_second b \<le> max 0 (remaining - tb_burst_bytes b)"
        using slept(11) x(2) r slept(2) by (simp add: distrib_right min_def max_def split: if_splits)
      then show ?thesis
        using slept(1,8,10) rec x(1) b' by (intro exI [of _ "w + x"] exI [of _ b'] exI [of _ tm']) simp
    qed
  qed
qed

lemma consume_loop_returns:
  assumes "bucket_ok b" "clock_ok b tm" and "0 \<le> remaining" "remaining \<le> real fuel * tb_burst_bytes b"
  shows "\<exists>w b' tm'. consume_loop (Suc fuel) remaining 0 b tm = Some (w, b', tm')
    \<and> 0 \<le> w \<and> w * tb_rate_bytes_per_second b \<le> remaining
    \<and> tb_total_bytes_consumed b' = tb_total_bytes_consumed b + remaining \<and> bucket_ok b' \<and> clock_ok b' tm'"
proof (cases "remaining = 0")
  case True
  then show ?thesis using assms by auto
next
  case False
  then have "0 < remaining" using assms(3) by simp
  with assms(1,2) show ?thesis
  proof (cases rule: consume_loop_turn)
    case (finished b1 tm1)
    then show ?thesis using assms(3) by auto
  next
    case (slept r w b1 tm1)
    have tk: "0 \<le> earned (tm_now tm) b"
      using assms(1,2) by (simp add: earned_def bucket_ok_def clock_ok_def)
    then have r: "r \<le> remaining" using slept(3) \<open>0 < remaining\<close> by (auto simp: min_def split: if_splits)
    obtain x b' tm' where rec: "consume_loop fuel r (0 + w) b1 tm1 = Some (0 + w + x, b', tm')"
      and x: "0 \<le> x" "x * tb_rate_bytes_per_second b \<le> max 0 (r - tb_burst_bytes b)"
      and b': "tb_total_bytes_consumed b' = tb_total_bytes_consumed b1 + r" "bucket_ok b'" "clock_ok b' tm'"
      using consume_loop_paid [of b1 tm1 r fuel "0 + w"] slept assms(4) r by auto
    have "(w + x) * tb_rate_bytes_per_second b \<le> remaining"
      using slept(2,11) x(2) r by (simp add: distrib_right min_def max_def split: if_splits)
    then show ?thesis
      using slept(1,8,10) rec x(1) b' by (intro exI [of _ "w + x"] exI [of _ b'] exI [of _ tm']) simp
  qed
qed

subsection \<open>The properties of the limiter\<close>

text \<open>
  C28. The rate limit holds: over any sequence of locked sections, from any number of
  consumers and with any clock readings (even a clock that jumps back), the bytes admitted are
  at most one burst plus the rate times the clock time that passed, and the tokens always stay
  between zero and the burst size.
\<close>

theorem token_bucket_rate_bound:
  assumes "bucket_ok b" and "b' = fold run_section calls b"
  shows "tb_total_bytes_consumed b' - tb_total_bytes_consumed b
      \<le> tb_burst_bytes b + tb_rate_bytes_per_second b * (tb_last_refill b' - tb_last_refill b)
    \<and> 0 \<le> tb_tokens b' \<and> tb_tokens b' \<le> tb_burst_bytes b"
proof -
  have "paid_for b b'" using sections_paid_for [OF assms(1), of calls] by (simp add: assms(2))
  then show ?thesis using assms(1) by (auto simp: paid_for_def bucket_ok_def)
qed

definition example_bucket :: token_bucket where
  "example_bucket = \<lparr>tb_rate_bytes_per_second = 10, tb_burst_bytes = 20, tb_tokens = 20,
     tb_last_refill = 0, tb_total_bytes_consumed = 0, tb_total_wait_seconds = 0\<rparr>"

lemma example_bucket_ok: "make_token_bucket 10 20 None 0 = Inr example_bucket" "bucket_ok example_bucket"
  by (simp_all add: make_token_bucket_def positive_number_def example_bucket_def bucket_ok_def)

theorem token_bucket_rate_bound_witness:
  "tb_total_bytes_consumed (fold run_section [ConsumeTurn 0 50, Waited 2, ConsumeTurn 1 30, TryConsume 1 5]
     example_bucket) \<le> 30"
  using token_bucket_rate_bound [OF example_bucket_ok(2) refl,
      of "[ConsumeTurn 0 50, Waited 2, ConsumeTurn 1 30, TryConsume 1 5]"]
  by (simp add: example_bucket_def consume_section_def wait_section_def try_consume_def
      refill_locked_def Let_def byte_amount_def)

text \<open>
  C29. \<open>consume\<close> returns, and is neither too generous nor too slow: for any amount (also one
  larger than the bucket), with sleeps that last at least as long as asked, the loop ends after
  at most \<open>amount / burst\<close> sleeps, exactly \<open>amount\<close> bytes have been admitted, and the total
  requested wait is at most \<open>amount / rate\<close>.
\<close>

theorem consume_returns:
  assumes "bucket_ok b" and "clock_ok b tm"
    and "0 \<le> amount" and "real_of_int amount \<le> real turns * tb_burst_bytes b"
  shows "\<exists>w b' tm'. consume (Suc turns) amount b tm = Some (Inr (w, b', tm'))
    \<and> 0 \<le> w \<and> w \<le> real_of_int amount / tb_rate_bytes_per_second b
    \<and> tb_total_bytes_consumed b' = tb_total_bytes_consumed b + real_of_int amount \<and> bucket_ok b' \<and> clock_ok b' tm'"
proof -
  have "byte_amount amount = Inr amount" using assms(3) by (simp add: byte_amount_def)
  moreover obtain w b' tm' where "consume_loop (Suc turns) (real_of_int amount) 0 b tm = Some (w, b', tm')"
    "0 \<le> w" "w * tb_rate_bytes_per_second b \<le> real_of_int amount"
    "tb_total_bytes_consumed b' = tb_total_bytes_consumed b + real_of_int amount" "bucket_ok b'" "clock_ok b' tm'"
    using consume_loop_returns [OF assms(1,2) _ assms(4)] assms(3) by auto
  moreover have "0 < tb_rate_bytes_per_second b" using assms(1) by (simp add: bucket_ok_def)
  ultimately show ?thesis
    by (simp add: consume_def pos_le_divide_eq del: consume_loop.simps)
qed

theorem consume_returns_witness:
  "\<exists>w b' tm'. consume (Suc 3) 50 example_bucket \<lparr>tm_now = 0, tm_delays = [1, 2]\<rparr> = Some (Inr (w, b', tm'))
    \<and> 0 \<le> w \<and> w \<le> 5 \<and> tb_total_bytes_consumed b' = 50 \<and> bucket_ok b'"
  using consume_returns [OF example_bucket_ok(2), of "\<lparr>tm_now = 0, tm_delays = [1, 2]\<rparr>" 50 3]
  by (auto simp: example_bucket_def clock_ok_def)

end
