(* ===== verification/FileSystem.thy ===== *)
theory FileSystem
  imports Complex_Main Protocol "HOL-Library.AList"
begin

section \<open>The file system the server works on\<close>

text \<open>
  The operations of \<open>pathlib\<close>, \<open>os\<close> and \<open>tempfile\<close> that the server uses.  A path is the list
  of its components from the root; the file system is an association list from paths to
  nodes, in the order in which \<open>iterdir\<close> meets them.  A symbolic link holds the absolute path
  it points to.  Every call that can raise \<open>OSError\<close> first consumes an entry of \<open>fs_faults\<close>:
  \<open>Some\<close> makes this call fail without effect, \<open>None\<close> (or the end of the list) lets it run, so
  a property proved for every fault list covers an error at any call.  Names are looked up
  with the directories of the path taken as they are: only \<open>resolve\<close> follows links in the
  middle of a path, and the server calls it before it opens anything.  The tests \<open>exists\<close>, \<open>is_file\<close>,
  \<open>is_dir\<close> and \<open>is_symlink\<close> are functions of the tree: they are taken not to raise, except in the
  clean-up of partial files, where \<open>path_test\<close> (\<open>PartialTransfer\<close>) schedules their errors too.
\<close>

type_synonym path = "pystr list"

datatype node =
    Directory
  | RegularFile "byte list" real \<comment> \<open>contents, modification time\<close>
  | Symlink path

datatype fault = Denied pystr | IoFault pystr

record file_system =
  fs_nodes :: "(path \<times> node) list"
  fs_faults :: "fault option list"
  fs_now :: real
  fs_random :: "pystr list" \<comment> \<open>candidate names of \<open>mkstemp\<close>\<close>

type_synonym 'a fs_action = "(exc, file_system, 'a) action"

fun fault_exc :: "fault \<Rightarrow> exc" where
  "fault_exc (Denied t) = PermissionError t"
| "fault_exc (IoFault t) = OSError t"

definition os_call :: "'a fs_action \<Rightarrow> 'a fs_action" where
  "os_call act fs =
     (case fs_faults fs of
        [] \<Rightarrow> act fs
      | None # later \<Rightarrow> act (fs\<lparr>fs_faults := later\<rparr>)
      | Some f # later \<Rightarrow> (Inl (fault_exc f), fs\<lparr>fs_faults := later\<rparr>))"

subsection \<open>Looking up\<close>

definition node_at :: "file_system \<Rightarrow> path \<Rightarrow> node option" where
  "node_at fs p = map_of (fs_nodes fs) p"

text \<open>\<open>Path.resolve\<close>: every link on the way is replaced by its target, 40 times at most.\<close>

function resolve_from :: "file_system \<Rightarrow> nat \<Rightarrow> path \<Rightarrow> path \<Rightarrow> path option" where
  "resolve_from fs fuel done [] = Some done"
| "resolve_from fs fuel done (c # cs) =
     (case node_at fs (done @ [c]) of
        Some (Symlink target) \<Rightarrow>
          (case fuel of 0 \<Rightarrow> None | Suc n \<Rightarrow> resolve_from fs n [] (target @ cs))
      | _ \<Rightarrow> resolve_from fs fuel (done @ [c]) cs)"
  by pat_completeness auto
termination
  by (relation "(\<lambda>(fs, fuel, d, cs). fuel) <*mlex*> (\<lambda>(fs, fuel, d, cs). length cs) <*mlex*> {}")
    (auto simp: mlex_prod_def)

definition MAX_LINKS :: nat where "MAX_LINKS = 40"

definition resolve :: "file_system \<Rightarrow> path \<Rightarrow> path option" where
  "resolve fs p = resolve_from fs MAX_LINKS [] p"

definition is_symlink :: "file_system \<Rightarrow> path \<Rightarrow> bool" where
  "is_symlink fs p = (case node_at fs p of Some (Symlink t) \<Rightarrow> True | _ \<Rightarrow> False)"

text \<open>The node a path names when the links are followed; \<open>None\<close> when there is none.\<close>

definition followed :: "file_system \<Rightarrow> path \<Rightarrow> node option" where
  "followed fs p = (case resolve fs p of None \<Rightarrow> None | Some q \<Rightarrow> node_at fs q)"

definition path_exists :: "file_system \<Rightarrow> path \<Rightarrow> bool" where
  "path_exists fs p = (followed fs p \<noteq> None)"

definition is_file :: "file_system \<Rightarrow> path \<Rightarrow> bool" where
  "is_file fs p = (case followed fs p of Some (RegularFile d t) \<Rightarrow> True | _ \<Rightarrow> False)"

definition is_dir :: "file_system \<Rightarrow> path \<Rightarrow> bool" where
  "is_dir fs p = (followed fs p = Some Directory)"

definition not_found :: exc where
  "not_found = FileNotFoundError (lit ''[Errno 2] No such file or directory'')"

definition is_directory_error :: exc where
  "is_directory_error = OSError (lit ''[Errno 21] Is a directory'')"

definition exists_error :: exc where
  "exists_error = FileExistsError (lit ''[Errno 17] File exists'')"

text \<open>\<open>stat().st_size\<close> and \<open>stat().st_mtime\<close>; a directory counts with size and time 0.\<close>

definition stat_size :: "path \<Rightarrow> nat fs_action" where
  "stat_size p = os_call (\<lambda>fs.
     case followed fs p of
       None \<Rightarrow> (Inl not_found, fs)
     | Some (RegularFile d t) \<Rightarrow> (Inr (length d), fs)
     | Some _ \<Rightarrow> (Inr 0, fs))"

definition stat_mtime :: "path \<Rightarrow> real fs_action" where
  "stat_mtime p = os_call (\<lambda>fs.
     case followed fs p of
       None \<Rightarrow> (Inl not_found, fs)
     | Some (RegularFile d t) \<Rightarrow> (Inr t, fs)
     | Some _ \<Rightarrow> (Inr 0, fs))"

subsection \<open>Changing\<close>

definition set_node :: "path \<Rightarrow> node \<Rightarrow> file_system \<Rightarrow> file_system" where
  "set_node p x fs = fs\<lparr>fs_nodes := AList.update p x (fs_nodes fs)\<rparr>"

definition drop_node :: "path \<Rightarrow> file_system \<Rightarrow> file_system" where
  "drop_node p fs = fs\<lparr>fs_nodes := AList.delete p (fs_nodes fs)\<rparr>"

definition unlink :: "bool \<Rightarrow> path \<Rightarrow> unit fs_action" where
  "unlink missing_ok p = os_call (\<lambda>fs.
     case node_at fs p of
       None \<Rightarrow> (if missing_ok then Inr () else Inl not_found, fs)
     | Some Directory \<Rightarrow> (Inl is_directory_error, fs)
     | Some _ \<Rightarrow> (Inr (), drop_node p fs))"

text \<open>\<open>mkdir(parents=True, exist_ok=True)\<close>\<close>

fun make_dirs :: "path \<Rightarrow> path \<Rightarrow> file_system \<Rightarrow> (exc + unit) \<times> file_system" where
  "make_dirs done [] fs = (Inr (), fs)"
| "make_dirs done (c # cs) fs =
     (case followed fs (done @ [c]) of
        None \<Rightarrow>
          if node_at fs (done @ [c]) \<noteq> None then (Inl exists_error, fs)
          else make_dirs (done @ [c]) cs (set_node (done @ [c]) Directory fs)
      | Some Directory \<Rightarrow> make_dirs (done @ [c]) cs fs
      | Some _ \<Rightarrow> (Inl exists_error, fs))"

definition mkdir_parents :: "path \<Rightarrow> unit fs_action" where
  "mkdir_parents p = os_call (make_dirs [] p)"

text \<open>
  \<open>open(p, "r+b")\<close>, \<open>open(p, "w+b")\<close> and \<open>open(p, "rb")\<close> return a handle: the path of the file
  that was opened, with links followed.
\<close>

definition open_existing :: "path \<Rightarrow> path fs_action" where
  "open_existing p = os_call (\<lambda>fs.
     case resolve fs p of
       None \<Rightarrow> (Inl (OSError (lit ''[Errno 40] Too many levels of symbolic links'')), fs)
     | Some q \<Rightarrow>
         (case node_at fs q of
            None \<Rightarrow> (Inl not_found, fs)
          | Some (RegularFile d t) \<Rightarrow> (Inr q, fs)
          | Some _ \<Rightarrow> (Inl is_directory_error, fs)))"

definition open_truncating :: "path \<Rightarrow> path fs_action" where
  "open_truncating p = os_call (\<lambda>fs.
     case resolve fs p of
       None \<Rightarrow> (Inl (OSError (lit ''[Errno 40] Too many levels of symbolic links'')), fs)
     | Some q \<Rightarrow>
         (case node_at fs q of
            Some Directory \<Rightarrow> (Inl is_directory_error, fs)
          | _ \<Rightarrow> (Inr q, set_node q (RegularFile [] (fs_now fs)) fs)))"

definition file_data :: "file_system \<Rightarrow> path \<Rightarrow> byte list" where
  "file_data fs q = (case node_at fs q of Some (RegularFile d t) \<Rightarrow> d | _ \<Rightarrow> [])"

definition truncate_handle :: "path \<Rightarrow> nat \<Rightarrow> unit fs_action" where
  "truncate_handle q n = os_call (\<lambda>fs.
     let d = file_data fs q in
     (Inr (), set_node q (RegularFile (take n d @ replicate (n - length d) 0) (fs_now fs)) fs))"

definition write_handle :: "path \<Rightarrow> nat \<Rightarrow> byte list \<Rightarrow> unit fs_action" where
  "write_handle q pos new = os_call (\<lambda>fs.
     let d = file_data fs q in
     (Inr (), set_node q (RegularFile (take pos d @ replicate (pos - length d) 0 @ new
        @ drop (pos + length new) d) (fs_now fs)) fs))"

definition read_handle :: "path \<Rightarrow> nat \<Rightarrow> nat \<Rightarrow> byte list fs_action" where
  "read_handle q pos n = os_call (\<lambda>fs. (Inr (take n (drop pos (file_data fs q))), fs))"

definition flush_handle :: "path \<Rightarrow> unit fs_action" where
  "flush_handle q = os_call (\<lambda>fs. (Inr (), fs))"

text \<open>\<open>os.fstat(handle.fileno()).st_size\<close>\<close>

definition fstat_size :: "path \<Rightarrow> int fs_action" where
  "fstat_size q = os_call (\<lambda>fs. (Inr (int (length (file_data fs q))), fs))"

text \<open>\<open>open(p, "ab")\<close> creates a missing file; every write goes to its end.\<close>

definition open_appending :: "path \<Rightarrow> path fs_action" where
  "open_appending p = os_call (\<lambda>fs.
     case resolve fs p of
       None \<Rightarrow> (Inl (OSError (lit ''[Errno 40] Too many levels of symbolic links'')), fs)
     | Some q \<Rightarrow>
         (case node_at fs q of
            None \<Rightarrow> (Inr q, set_node q (RegularFile [] (fs_now fs)) fs)
          | Some (RegularFile d t) \<Rightarrow> (Inr q, fs)
          | Some _ \<Rightarrow> (Inl is_directory_error, fs)))"

definition append_handle :: "path \<Rightarrow> byte list \<Rightarrow> unit fs_action" where
  "append_handle q new = os_call (\<lambda>fs.
     (Inr (), set_node q (RegularFile (file_data fs q @ new) (fs_now fs)) fs))"

text \<open>\<open>os.link\<close> and \<open>os.replace\<close>\<close>

definition hard_link :: "path \<Rightarrow> path \<Rightarrow> unit fs_action" where
  "hard_link source target = os_call (\<lambda>fs.
     case node_at fs source of
       None \<Rightarrow> (Inl not_found, fs)
     | Some Directory \<Rightarrow> (Inl (PermissionError (lit ''[Errno 1] Operation not permitted'')), fs)
     | Some x \<Rightarrow>
         if node_at fs target \<noteq> None then (Inl exists_error, fs)
         else (Inr (), set_node target x fs))"

definition replace_file :: "path \<Rightarrow> path \<Rightarrow> unit fs_action" where
  "replace_file source target = os_call (\<lambda>fs.
     case node_at fs source of
       None \<Rightarrow> (Inl not_found, fs)
     | Some x \<Rightarrow>
         if node_at fs target = Some Directory then (Inl is_directory_error, fs)
         else (Inr (), set_node target x (drop_node source fs)))"

text \<open>\<open>mkstemp\<close>: the first candidate name that is not taken.\<close>

fun pick_temporary :: "path \<Rightarrow> pystr \<Rightarrow> pystr \<Rightarrow> pystr list \<Rightarrow> file_system \<Rightarrow> (exc + path) \<times> file_system" where
  "pick_temporary dir prefix suffix [] fs =
     (Inl (FileExistsError (lit ''No usable temporary file name found'')), fs\<lparr>fs_random := []\<rparr>)"
| "pick_temporary dir prefix suffix (name # names) fs =
     (let p = dir @ [prefix @ name @ suffix] in
      if node_at fs p = None then
        (Inr p, set_node p (RegularFile [] (fs_now fs)) (fs\<lparr>fs_random := names\<rparr>))
      else pick_temporary dir prefix suffix names fs)"

definition mkstemp :: "path \<Rightarrow> pystr \<Rightarrow> pystr \<Rightarrow> path fs_action" where
  "mkstemp dir prefix suffix = os_call (\<lambda>fs. pick_temporary dir prefix suffix (fs_random fs) fs)"

text \<open>The children of a directory, in directory order.\<close>

definition iterdir :: "path \<Rightarrow> path list fs_action" where
  "iterdir p = os_call (\<lambda>fs.
     case resolve fs p of
       None \<Rightarrow> (Inl (OSError (lit ''[Errno 40] Too many levels of symbolic links'')), fs)
     | Some q \<Rightarrow>
         (case node_at fs q of
            None \<Rightarrow> (Inl not_found, fs)
          | Some Directory \<Rightarrow>
              (Inr (map (\<lambda>c. p @ [last c]) (filter (\<lambda>c. c \<noteq> [] \<and> butlast c = q) (map fst (fs_nodes fs)))), fs)
          | Some _ \<Rightarrow> (Inl (OSError (lit ''[Errno 20] Not a directory'')), fs)))"

definition parent :: "path \<Rightarrow> path" where "parent p = butlast p"
definition path_name :: "path \<Rightarrow> pystr" where "path_name p = (if p = [] then [] else last p)"
definition with_name :: "path \<Rightarrow> pystr \<Rightarrow> path" where "with_name p name = butlast p @ [name]"

subsection \<open>Facts about the nodes\<close>

lemma node_at_set [simp]: "node_at (set_node p x fs) q = (if q = p then Some x else node_at fs q)"
  by (simp add: node_at_def set_node_def AList.update_conv')

lemma node_at_drop [simp]: "node_at (drop_node p fs) q = (if q = p then None else node_at fs q)"
  by (simp add: node_at_def drop_node_def AList.delete_conv')

lemma node_at_fields [simp]:
  "node_at (fs\<lparr>fs_faults := l\<rparr>) q = node_at fs q" "node_at (fs\<lparr>fs_random := r\<rparr>) q = node_at fs q"
  by (simp_all add: node_at_def)

lemma set_node_fields [simp]:
  "fs_faults (set_node p x fs) = fs_faults fs" "fs_now (set_node p x fs) = fs_now fs"
  "fs_random (set_node p x fs) = fs_random fs"
  "fs_faults (drop_node p fs) = fs_faults fs" "fs_now (drop_node p fs) = fs_now fs"
  "fs_random (drop_node p fs) = fs_random fs"
  by (simp_all add: set_node_def drop_node_def)

lemma file_data_node: "node_at fs q = Some (RegularFile d t) \<Longrightarrow> file_data fs q = d"
  by (simp add: file_data_def)

subsection \<open>What each call can do\<close>

text \<open>
  \<open>same_nodes\<close>: nothing but the fault list and the supply of temporary names has changed.
  \<open>only_changes A\<close>: all nodes outside \<open>A\<close> are as before.
\<close>

definition only_changes :: "path set \<Rightarrow> file_system \<Rightarrow> file_system \<Rightarrow> bool" where
  "only_changes A fs fs' \<longleftrightarrow> fs_now fs' = fs_now fs \<and> (\<forall>q. q \<notin> A \<longrightarrow> node_at fs' q = node_at fs q)"

definition same_nodes :: "file_system \<Rightarrow> file_system \<Rightarrow> bool" where
  "same_nodes fs fs' \<longleftrightarrow> only_changes {} fs fs'"

lemma only_changes_refl [simp]: "only_changes A fs fs"
  by (simp add: only_changes_def)

lemma only_changes_trans: "only_changes A a b \<Longrightarrow> only_changes A b c \<Longrightarrow> only_changes A a c"
  by (simp add: only_changes_def)

lemma only_changes_mono: "only_changes A a b \<Longrightarrow> A \<subseteq> B \<Longrightarrow> only_changes B a b"
  by (auto simp: only_changes_def)

lemma only_changes_at: "only_changes A fs fs' \<Longrightarrow> q \<notin> A \<Longrightarrow> node_at fs' q = node_at fs q"
  by (simp add: only_changes_def)

lemma same_nodes_at: "same_nodes fs fs' \<Longrightarrow> node_at fs' = node_at fs"
  by (auto simp: same_nodes_def only_changes_def)

lemma same_nodes_only: "same_nodes fs fs' \<Longrightarrow> only_changes A fs fs'"
  by (simp add: same_nodes_def only_changes_def)

lemma same_nodes_refl [simp]: "same_nodes fs fs"
  by (simp add: same_nodes_def)

lemma same_nodes_fields [simp]:
  "same_nodes fs (fs\<lparr>fs_faults := l\<rparr>)" "same_nodes fs (fs\<lparr>fs_random := r\<rparr>)"
  by (simp_all add: same_nodes_def only_changes_def)

text \<open>
  A call either fails with an \<open>OSError\<close> and changes nothing, or runs on a state that differs
  only in the fault list.
\<close>

lemma fault_exc_os [simp]: "is_os_error (fault_exc f)"
  by (cases f) simp_all

lemma os_callE:
  assumes "os_call act fs = (r, fs')"
  obtains (fault) f where "r = Inl (fault_exc f)" "same_nodes fs fs'"
    | (run) fs1 where "same_nodes fs fs1" "act fs1 = (r, fs')" "fs_random fs1 = fs_random fs"
        "fs_faults fs = [] \<Longrightarrow> fs1 = fs"
proof (cases "fs_faults fs")
  case Nil
  then show ?thesis using assms run [of fs] by (simp add: os_call_def)
next
  case (Cons f later)
  then show ?thesis
    using assms run [of "fs\<lparr>fs_faults := later\<rparr>"] fault
    by (cases f) (auto simp: os_call_def)
qed

lemma resolve_from_cong:
  "node_at fs' = node_at fs \<Longrightarrow> resolve_from fs' fuel p cs = resolve_from fs fuel p cs"
proof (induction fs fuel p cs rule: resolve_from.induct)
  case (1 fs fuel p)
  then show ?case by simp
next
  case (2 fs fuel p c cs)
  then show ?case by (simp split: option.split node.split nat.split)
qed

lemma lookup_same_nodes:
  assumes "same_nodes fs fs'"
  shows "resolve fs' p = resolve fs p" "followed fs' p = followed fs p"
    "is_symlink fs' p = is_symlink fs p" "path_exists fs' p = path_exists fs p"
    "is_file fs' p = is_file fs p" "is_dir fs' p = is_dir fs p" "file_data fs' p = file_data fs p"
proof -
  note at = same_nodes_at [OF assms]
  show res: "resolve fs' p = resolve fs p"
    unfolding resolve_def by (rule resolve_from_cong [OF at])
  show fol: "followed fs' p = followed fs p"
    by (simp add: followed_def res at split: option.split)
  show "is_symlink fs' p = is_symlink fs p" "path_exists fs' p = path_exists fs p"
    "is_file fs' p = is_file fs p" "is_dir fs' p = is_dir fs p" "file_data fs' p = file_data fs p"
    by (simp_all add: is_symlink_def path_exists_def is_file_def is_dir_def file_data_def at fol)
qed

lemma not_found_os [simp]: "is_os_error not_found"
  and is_directory_os [simp]: "is_os_error is_directory_error"
  and exists_os [simp]: "is_os_error exists_error"
  by (simp_all add: not_found_def is_directory_error_def exists_error_def)

lemma unlinkE:
  assumes "unlink missing_ok p fs = (r, fs')"
  obtains (failed) e where "r = Inl e" "is_os_error e" "same_nodes fs fs'"
    | (removed) "r = Inr ()" "node_at fs p \<noteq> Some Directory" "node_at fs' p = None" "only_changes {p} fs fs'"
  using assms unfolding unlink_def
proof (cases rule: os_callE)
  case (fault f)
  then show ?thesis using failed by simp
next
  case (run fs1)
  have at: "node_at fs1 = node_at fs" and now: "fs_now fs1 = fs_now fs"
    using run(1) by (auto simp: same_nodes_def only_changes_def)
  show ?thesis
  proof (cases "node_at fs p")
    case None
    then show ?thesis
      using run at failed [of not_found] removed same_nodes_only [OF run(1)]
      by (cases missing_ok) (auto simp: same_nodes_def)
  next
    case (Some x)
    then show ?thesis
      using run at now failed [of is_directory_error] removed
      by (cases x) (auto simp: only_changes_def)
  qed
qed

lemma stat_mtimeE:
  assumes "stat_mtime p fs = (r, fs')"
  obtains (failed) e where "r = Inl e" "is_os_error e" "same_nodes fs fs'"
    | (found) t where "r = Inr t" "same_nodes fs fs'" "followed fs p \<noteq> None"
        "\<And>d t'. followed fs p = Some (RegularFile d t') \<Longrightarrow> t = t'"
  using assms unfolding stat_mtime_def
proof (cases rule: os_callE)
  case (fault f)
  then show ?thesis using failed by simp
next
  case (run fs1)
  note fol = lookup_same_nodes(2) [OF run(1), of p]
  show ?thesis
  proof (cases "followed fs p")
    case None
    then show ?thesis using run fol failed [of not_found] by simp
  next
    case (Some x)
    then show ?thesis using run fol found by (cases x) auto
  qed
qed

lemma read_handle_Inr:
  assumes "read_handle source pos n fs = (Inr chunk, fs')"
  shows "chunk = take n (drop pos (file_data fs source)) \<and> same_nodes fs fs'"
  using assms unfolding read_handle_def
  by (auto elim!: os_callE simp: lookup_same_nodes)

lemma read_handle_same: "read_handle source pos n fs = (r, fs') \<Longrightarrow> same_nodes fs fs'"
  unfolding read_handle_def by (auto elim!: os_callE)

end
