(* ===== verification/Config.thy ===== *)
theory Config
  imports FileSystem
begin

section \<open>Configuration objects\<close>

text \<open>
  The dataclasses of \<open>src/hcmus_socket/config.py\<close> with the values the rest of the program
  reads, and \<open>environment\<close>: what a session cannot change, namely its configuration and the
  library functions whose results the code only compares or stores (SHA-256 and the JSON
  codec, whose laws are hypotheses where a property needs them).
\<close>

record server_config =
  sc_bind_address :: pystr
  sc_port :: int
  sc_storage_directory :: path
  sc_max_clients :: int
  sc_partial_ttl_seconds :: int

record client_config =
  cc_server_address :: pystr
  cc_server_port :: int
  cc_connect_timeout_ms :: int
  cc_download_directory :: path

record network_config =
  nc_max_payload_bytes :: int
  nc_chunk_size_bytes :: int
  nc_bandwidth_limit_kib_per_second :: int

record auth_config =
  ac_max_username_bytes :: int

record app_config =
  cf_server :: server_config
  cf_client :: client_config
  cf_network :: network_config
  cf_auth :: auth_config

definition MAX_CONFIG_PAYLOAD_BYTES :: int where
  "MAX_CONFIG_PAYLOAD_BYTES = 16 * 1024 * 1024"

datatype json =
    JNull | JBool bool | JInt int | JFloat real | JStr pystr | JList "json list"
  | JDict "(pystr \<times> json) list"

record environment =
  ev_config :: app_config
  ev_sha256 :: "byte list \<Rightarrow> byte list"
  ev_json_dumps :: "json \<Rightarrow> byte list"
  ev_json_loads :: "byte list \<Rightarrow> json option"

definition max_payload :: "environment \<Rightarrow> int" where
  "max_payload ev = nc_max_payload_bytes (cf_network (ev_config ev))"

definition chunk_size :: "environment \<Rightarrow> int" where
  "chunk_size ev = nc_chunk_size_bytes (cf_network (ev_config ev))"

definition storage_root :: "environment \<Rightarrow> path" where
  "storage_root ev = sc_storage_directory (cf_server (ev_config ev))"

definition partial_ttl :: "environment \<Rightarrow> int" where
  "partial_ttl ev = sc_partial_ttl_seconds (cf_server (ev_config ev))"

end
