(* ===== verification/Namespace.thy ===== *)
theory Namespace
  imports FileSystem
begin

section \<open>User namespaces and path security\<close>

text \<open>
  \<open>src/hcmus_socket/server/namespace.py\<close>.  \<open>resolve_namespace_path\<close> checks the name, resolves
  the namespace directory and the target, and refuses a target outside the directory.  A loop
  of links makes \<open>resolve\<close> raise \<open>RuntimeError\<close> (Python 3.11 and 3.12).
\<close>

definition ends_with :: "pystr \<Rightarrow> pystr \<Rightarrow> bool" where
  "ends_with s t \<longleftrightarrow> length t \<le> length s \<and> drop (length s - length t) s = t"

definition INTERNAL_EXACT_NAMES :: "pystr list" where
  "INTERNAL_EXACT_NAMES = [lit ''.hcmus_socket.lock'', lit ''.hcmus_socket.log'', lit ''server.log'',
     lit ''.DS_Store'', lit ''Thumbs.db'']"

definition ensure_user_namespace :: "path \<Rightarrow> pystr \<Rightarrow> path fs_action" where
  "ensure_user_namespace storage_root username =
     (if username = [] then
        raiseS (protocol_error AUTHENTICATION_REQUIRED (lit ''username is required for namespace access''))
      else
        let namespace_dir = storage_root @ [username] in
        tryS (bindS (mkdir_parents namespace_dir) (\<lambda>_. returnS namespace_dir))
          (\<lambda>error.
             if is_permission_error error then
               raiseS (protocol_error ACCESS_DENIED
                 (lit ''cannot create user namespace directory: '' @ exc_text error))
             else if is_os_error error then
               raiseS (protocol_error FILE_IO_ERROR
                 (lit ''cannot create user namespace directory: '' @ exc_text error))
             else raiseS error))"

definition is_internal_file :: "pystr \<Rightarrow> bool" where
  "is_internal_file filename \<longleftrightarrow> ends_with filename (lit ''.part'') \<or> ends_with filename (lit ''.part.meta'')
     \<or> filename \<in> set INTERNAL_EXACT_NAMES"

definition check_namespace_name :: "pystr \<Rightarrow> bool \<Rightarrow> exc + unit" where
  "check_namespace_name filename allow_internal =
     bindE (guardE (filename \<noteq> [] \<and> filename \<noteq> lit ''.'' \<and> filename \<noteq> lit ''..'')
       (protocol_error INVALID_FILENAME
         (lit ''filename must not be empty or a traversal component''))) (\<lambda>_.
     bindE (guardE (47 \<notin> set filename \<and> 92 \<notin> set filename \<and> 0 \<notin> set filename)
       (protocol_error INVALID_FILENAME
         (lit ''filename must be a simple basename without path separators''))) (\<lambda>_.
     guardE (allow_internal \<or> \<not> is_internal_file filename)
       (protocol_error INVALID_FILENAME (lit ''filename is reserved for server-internal use''))))"

definition relative_to :: "path \<Rightarrow> path \<Rightarrow> bool" where
  "relative_to target base \<longleftrightarrow> take (length base) target = base"

definition resolve_or_raise :: "file_system \<Rightarrow> path \<Rightarrow> exc + path" where
  "resolve_or_raise fs p =
     (case resolve fs p of None \<Rightarrow> Inl (RuntimeError (lit ''Symlink loop'')) | Some q \<Rightarrow> Inr q)"

definition resolve_namespace_path ::
  "file_system \<Rightarrow> path \<Rightarrow> pystr \<Rightarrow> bool \<Rightarrow> bool \<Rightarrow> exc + path" where
  "resolve_namespace_path fs namespace_dir filename allow_internal must_exist =
     bindE (check_namespace_name filename allow_internal) (\<lambda>_.
     bindE (resolve_or_raise fs namespace_dir) (\<lambda>base.
     bindE (resolve_or_raise fs (namespace_dir @ [filename])) (\<lambda>target.
     bindE (guardE (relative_to target base)
       (protocol_error ACCESS_DENIED (lit ''file path escapes the user namespace directory''))) (\<lambda>_.
     bindE (guardE (\<not> is_symlink fs target
          \<or> (\<exists>real_path \<in> set_option (resolve fs target). node_at fs real_path \<noteq> None
               \<and> relative_to real_path base))
       (protocol_error ACCESS_DENIED (lit ''symlink escapes the user namespace directory''))) (\<lambda>_.
     bindE (guardE (\<not> must_exist \<or> path_exists fs target \<and> is_file fs target)
       (protocol_error FILE_NOT_FOUND (lit ''file '' @ py_repr filename @ lit '' not found''))) (\<lambda>_.
     Inr target))))))"

subsection \<open>Resolved paths are free of links\<close>

definition canonical :: "file_system \<Rightarrow> path \<Rightarrow> bool" where
  "canonical fs p \<longleftrightarrow> (\<forall>k \<le> length p. k > 0 \<longrightarrow> \<not> is_symlink fs (take k p))"

lemma canonical_Nil [simp]: "canonical fs []"
  by (auto simp: canonical_def)

lemma canonical_snoc:
  "canonical fs (p @ [c]) \<longleftrightarrow> canonical fs p \<and> \<not> is_symlink fs (p @ [c])"
proof -
  have "(\<forall>k \<le> Suc (length p). k > 0 \<longrightarrow> \<not> is_symlink fs (take k (p @ [c]))) \<longleftrightarrow>
      (\<forall>k \<le> length p. k > 0 \<longrightarrow> \<not> is_symlink fs (take k p)) \<and> \<not> is_symlink fs (p @ [c])"
    by (auto simp: le_Suc_eq)
  then show ?thesis by (simp add: canonical_def)
qed

lemma resolve_from_canonical:
  "resolve_from fs fuel p cs = Some q \<Longrightarrow> canonical fs p \<Longrightarrow> canonical fs q"
proof (induction fs fuel p cs rule: resolve_from.induct)
  case (1 fs fuel p)
  then show ?case by simp
next
  case (2 fs fuel p c cs)
  show ?case
  proof (cases "is_symlink fs (p @ [c])")
    case True
    then obtain target n where "node_at fs (p @ [c]) = Some (Symlink target)" "fuel = Suc n"
      "resolve_from fs n [] (target @ cs) = Some q"
      using "2.prems"(1) by (auto simp: is_symlink_def split: option.splits node.splits nat.splits)
    then show ?thesis using "2.IH" by simp
  next
    case False
    then have "resolve_from fs fuel (p @ [c]) cs = Some q"
      using "2.prems"(1) by (auto simp: is_symlink_def split: option.splits node.splits)
    moreover have "canonical fs (p @ [c])" using False "2.prems"(2) by (simp add: canonical_snoc)
    ultimately show ?thesis
      using "2.IH" False by (auto simp: is_symlink_def split: option.splits node.splits)
  qed
qed

lemma resolve_canonical: "resolve fs p = Some q \<Longrightarrow> canonical fs q"
  unfolding resolve_def by (erule resolve_from_canonical) simp

lemma canonical_append: "canonical fs (p @ cs) \<Longrightarrow> canonical fs p"
  by (induction cs rule: rev_induct) (simp_all add: canonical_snoc flip: append_assoc)

lemma canonical_resolve_from:
  "canonical fs (p @ cs) \<Longrightarrow> resolve_from fs fuel p cs = Some (p @ cs)"
proof (induction cs arbitrary: p)
  case Nil
  then show ?case by simp
next
  case (Cons c cs)
  have "canonical fs (p @ [c])" using canonical_append [of fs "p @ [c]" cs] Cons.prems by simp
  then have "\<not> is_symlink fs (p @ [c])" by (simp add: canonical_snoc)
  then show ?case
    using Cons.IH [of "p @ [c]"] Cons.prems
    by (auto simp: is_symlink_def split: option.split node.split)
qed

lemma canonical_resolve: "canonical fs p \<Longrightarrow> resolve fs p = Some p"
  using canonical_resolve_from [of fs "[]" p] by (simp add: resolve_def)

lemma canonical_followed: "canonical fs p \<Longrightarrow> followed fs p = node_at fs p"
  by (simp add: followed_def canonical_resolve)

lemma canonical_not_symlink: "canonical fs p \<Longrightarrow> p \<noteq> [] \<Longrightarrow> \<not> is_symlink fs p"
  by (auto simp: canonical_def dest: spec [of _ "length p"])

lemma resolve_namespace_path_Inr:
  "resolve_namespace_path fs namespace_dir filename ai me = Inr target \<Longrightarrow>
     check_namespace_name filename ai = Inr ()
     \<and> (\<exists>base. resolve fs namespace_dir = Some base \<and> relative_to target base)
     \<and> resolve fs (namespace_dir @ [filename]) = Some target \<and> (me \<longrightarrow> is_file fs target)"
  by (auto simp: resolve_namespace_path_def resolve_or_raise_def result_simps split: option.splits)

text \<open>
  C18. No request reaches outside the user's own directory: a path that
  \<open>resolve_namespace_path\<close> returns lies at or below the resolved namespace directory, no
  component of it is a symbolic link (so opening it cannot be redirected), and the name is
  neither internal to the server nor a traversal.
\<close>

theorem resolved_path_stays_inside:
  assumes "resolve_namespace_path fs namespace_dir filename False must_exist = Inr target"
  shows "\<exists>base. resolve fs namespace_dir = Some base \<and> take (length base) target = base
     \<and> (\<forall>k \<le> length target. k > 0 \<longrightarrow> \<not> is_symlink fs (take k target))
     \<and> \<not> is_internal_file filename \<and> 47 \<notin> set filename \<and> filename \<noteq> lit ''..''
     \<and> (must_exist \<longrightarrow> (\<exists>data t. node_at fs target = Some (RegularFile data t)))"
proof -
  from resolve_namespace_path_Inr [OF assms] obtain base where
    base: "resolve fs namespace_dir = Some base" "relative_to target base"
    and res: "resolve fs (namespace_dir @ [filename]) = Some target"
    and name: "check_namespace_name filename False = Inr ()" and me: "must_exist \<longrightarrow> is_file fs target"
    by blast
  have can: "canonical fs target" by (rule resolve_canonical [OF res])
  have "is_file fs target \<longrightarrow> (\<exists>data t. node_at fs target = Some (RegularFile data t))"
    using can by (auto simp: is_file_def canonical_followed split: option.splits node.splits)
  with base can name me show ?thesis
    by (auto simp: relative_to_def canonical_def check_namespace_name_def result_simps)
qed

definition example_files :: file_system where
  "example_files = \<lparr>fs_nodes = [([[115]], Directory), ([[115], [97]], Directory),
       ([[115], [97], [102]], RegularFile [1, 2, 3] 0),
       ([[115], [97], [108]], Symlink [[101], [120]])],
     fs_faults = [], fs_now = 0, fs_random = []\<rparr>"

lemma example_nodes: "node_at example_files p =
    (if p = [[115]] then Some Directory else if p = [[115], [97]] then Some Directory
     else if p = [[115], [97], [102]] then Some (RegularFile [1, 2, 3] 0)
     else if p = [[115], [97], [108]] then Some (Symlink [[101], [120]]) else None)"
  by (simp add: node_at_def example_files_def)

lemma example_resolves:
  "resolve example_files [[115], [97]] = Some [[115], [97]]"
  "resolve example_files [[115], [97], [102]] = Some [[115], [97], [102]]"
  "resolve example_files [[115], [97], [108]] = Some [[101], [120]]"
  by (simp_all add: resolve_def MAX_LINKS_def example_nodes numeral_eq_Suc)

lemma resolve_example:
  "resolve_namespace_path example_files [[115], [97]] [102] False True = Inr [[115], [97], [102]]"
proof -
  have "check_namespace_name [102] False = Inr ()"
    by (simp add: check_namespace_name_def is_internal_file_def ends_with_def
        INTERNAL_EXACT_NAMES_def lit_def)
  then show ?thesis
    by (simp add: resolve_namespace_path_def resolve_or_raise_def relative_to_def is_symlink_def
        path_exists_def is_file_def followed_def example_resolves example_nodes)
qed

theorem resolved_path_stays_inside_witness:
  "\<exists>data t. node_at example_files [[115], [97], [102]] = Some (RegularFile data t)"
  using resolved_path_stays_inside [OF resolve_example] by blast

end
