(* ===== verification/PartialTransfer.thy ===== *)
theory PartialTransfer
  imports Config Namespace
begin

section \<open>Partial uploads: metadata, prefix hashing, expiry\<close>

text \<open>
  \<open>src/hcmus_socket/common/partial_transfer.py\<close> and \<open>src/hcmus_socket/server/cleanup.py\<close>.  A
  \<open>hashlib\<close> object is the bytes it has been updated with; \<open>digest\<close> is \<open>ev_sha256\<close> of them.  The
  metadata file holds the JSON text of a dictionary (\<open>metadata_json\<close>).
\<close>

subsection \<open>Metadata files\<close>

definition METADATA_REPLACE_ATTEMPTS :: nat where "METADATA_REPLACE_ATTEMPTS = 6"
definition PART_METADATA_VERSION :: int where "PART_METADATA_VERSION = 1"

definition get_part_paths :: "path \<Rightarrow> path \<times> path" where
  "get_part_paths target_path =
     (with_name target_path (path_name target_path @ lit ''.part''),
      with_name target_path (path_name target_path @ lit ''.part.meta''))"

definition metadata_json :: "pystr \<Rightarrow> pystr \<Rightarrow> int \<Rightarrow> int \<Rightarrow> real \<Rightarrow> json" where
  "metadata_json username filename total_size uploaded_bytes updated_at =
     JDict [(lit ''version'', JInt PART_METADATA_VERSION), (lit ''username'', JStr username),
       (lit ''filename'', JStr filename), (lit ''total_size'', JInt total_size),
       (lit ''uploaded_bytes'', JInt uploaded_bytes), (lit ''updated_at_unix'', JFloat updated_at)]"

fun replace_with_retry :: "nat \<Rightarrow> path \<Rightarrow> path \<Rightarrow> unit fs_action" where
  "replace_with_retry 0 source target = returnS ()"
| "replace_with_retry (Suc n) source target =
     tryS (replace_file source target)
       (\<lambda>error. if is_os_error error \<and> n \<noteq> 0 then replace_with_retry n source target else raiseS error)"

definition save_part_metadata ::
  "environment \<Rightarrow> path \<Rightarrow> int \<Rightarrow> int \<Rightarrow> pystr \<Rightarrow> pystr \<Rightarrow> unit fs_action" where
  "save_part_metadata ev meta_path total_size uploaded_bytes username filename =
     (if total_size < 0 then raiseS (ValueError (lit ''total_size must not be negative''))
      else if uploaded_bytes < 0 \<or> uploaded_bytes > total_size then
        raiseS (ValueError (lit ''uploaded_bytes must be between zero and total_size''))
      else
        bindS (readS fs_now) (\<lambda>now.
        let data = metadata_json username filename total_size uploaded_bytes now in
        bindS (mkstemp (parent meta_path) (lit ''.'' @ path_name meta_path @ lit ''.'') (lit ''.tmp''))
          (\<lambda>temporary_path.
        finallyS
          (bindS (write_handle temporary_path 0 (ev_json_dumps ev data)) (\<lambda>_.
           replace_with_retry METADATA_REPLACE_ATTEMPTS temporary_path meta_path))
          (unlink True temporary_path))))"

definition load_part_metadata :: "environment \<Rightarrow> path \<Rightarrow> (pystr \<times> json) list option fs_action" where
  "load_part_metadata ev meta_path =
     bindS (readS (\<lambda>fs. path_exists fs meta_path)) (\<lambda>present.
     if \<not> present then returnS None
     else
       tryS
         (bindS (open_existing meta_path) (\<lambda>source.
          bindS (readS (\<lambda>fs. length (file_data fs source))) (\<lambda>n.
          bindS (read_handle source 0 n) (\<lambda>text.
          returnS (case ev_json_loads ev text of
             Some (JDict loaded) \<Rightarrow> Some loaded
           | _ \<Rightarrow> None)))))
         (\<lambda>error. if is_os_error error then returnS None else raiseS error))"

subsection \<open>Prefix hashing\<close>

definition HASH_CHUNK :: nat where "HASH_CHUNK = 32 * 1024"

function hash_loop :: "path \<Rightarrow> nat \<Rightarrow> byte list \<Rightarrow> (byte list \<times> nat) fs_action" where
  "hash_loop source remaining hashed fs =
     (if remaining = 0 then (Inr (hashed, length hashed), fs)
      else
        (case read_handle source (length hashed) (min remaining HASH_CHUNK) fs of
           (Inl e, fs') \<Rightarrow> (Inl e, fs')
         | (Inr chunk, fs') \<Rightarrow>
             if chunk = [] then (Inr (hashed, length hashed), fs')
             else hash_loop source (remaining - length chunk) (hashed @ chunk) fs'))"
  by pat_completeness auto
termination
  by (relation "measure (\<lambda>(source, remaining, hashed, fs). remaining)")
    (auto simp flip: length_greater_0_conv intro: diff_less)

declare hash_loop.simps [simp del]

definition compute_prefix_hash :: "path \<Rightarrow> nat \<Rightarrow> (byte list \<times> nat) fs_action" where
  "compute_prefix_hash file_path n =
     bindS (readS (\<lambda>fs. path_exists fs file_path)) (\<lambda>present.
     if \<not> present then returnS ([], 0)
     else bindS (open_existing file_path) (\<lambda>source. hash_loop source n []))"

subsection \<open>Expired artifacts\<close>

text \<open>
  \<open>is_file()\<close>, \<open>is_dir()\<close> and \<open>is_symlink()\<close> of \<open>pathlib\<close>: up to Python 3.13 they raise the \<open>OSError\<close> of
  their \<open>stat\<close> unless it says that there is no such file.  Here they may fail as any other call.
\<close>

definition path_test :: "(file_system \<Rightarrow> bool) \<Rightarrow> bool fs_action" where
  "path_test test = os_call (\<lambda>fs. (Inr (test fs), fs))"

fun existing_members :: "path list \<Rightarrow> (path \<times> real) list fs_action" where
  "existing_members [] = returnS []"
| "existing_members (member # members) =
     bindS (tryS
       (bindS (path_test (\<lambda>fs. is_file fs member)) (\<lambda>regular.
        if \<not> regular then returnS []
        else bindS (path_test (\<lambda>fs. is_symlink fs member)) (\<lambda>link.
        if link then returnS []
        else bindS (stat_mtime member) (\<lambda>t. returnS [(member, t)]))))
       (\<lambda>error. if is_os_error error then returnS [] else raiseS error)) (\<lambda>found.
     bindS (existing_members members) (\<lambda>others. returnS (found @ others)))"

fun remove_members :: "(path \<times> real) list \<Rightarrow> nat fs_action" where
  "remove_members [] = returnS 0"
| "remove_members ((member, t) # members) =
     bindS (tryS (bindS (unlink False member) (\<lambda>_. returnS (1::nat)))
       (\<lambda>error. if is_os_error error then returnS 0 else raiseS error)) (\<lambda>n.
     bindS (remove_members members) (\<lambda>m. returnS (n + m)))"

definition is_expired :: "real \<Rightarrow> int \<Rightarrow> (path \<times> real) list \<Rightarrow> bool" where
  "is_expired current_time ttl existing \<longleftrightarrow>
     existing \<noteq> [] \<and> \<not> current_time - Max (snd ` set existing) \<le> real_of_int ttl"

definition cleanup_expired_partial_pair :: "path \<Rightarrow> path \<Rightarrow> int \<Rightarrow> bool fs_action" where
  "cleanup_expired_partial_pair part_path meta_path ttl_seconds =
     (if ttl_seconds < 0 then raiseS (ValueError (lit ''ttl_seconds must not be negative''))
      else if ttl_seconds = 0 then returnS False
      else
        bindS (existing_members [part_path, meta_path]) (\<lambda>existing.
        bindS (readS fs_now) (\<lambda>now.
        if \<not> is_expired now ttl_seconds existing then returnS False
        else bindS (remove_members existing) (\<lambda>_. returnS True))))"

text \<open>
  \<open>os.walk(root, followlinks=False)\<close>: the entries that are not directories, below directories
  that are no links.  A directory that cannot be listed is left out with all that is below it.
\<close>

definition walked_below :: "file_system \<Rightarrow> path \<Rightarrow> path \<Rightarrow> bool" where
  "walked_below fs base p \<longleftrightarrow> length base < length p \<and> take (length base) p = base
     \<and> (\<forall>k \<in> set [Suc (length base)..<length p]. node_at fs (take k p) = Some Directory)"

definition walked_directories :: "file_system \<Rightarrow> path \<Rightarrow> path list" where
  "walked_directories fs base =
     base # filter (\<lambda>p. walked_below fs base p \<and> node_at fs p = Some Directory) (map fst (fs_nodes fs))"

definition walked_files :: "file_system \<Rightarrow> path \<Rightarrow> path list" where
  "walked_files fs base = filter (\<lambda>p. walked_below fs base p \<and> node_at fs p \<noteq> Some Directory) (map fst (fs_nodes fs))"

definition is_below :: "path list \<Rightarrow> path \<Rightarrow> bool" where
  "is_below directories p \<longleftrightarrow> list_ex (\<lambda>d. take (length d) p = d) directories"

fun list_directories :: "path list \<Rightarrow> path list \<Rightarrow> path list fs_action" where
  "list_directories [] unlisted = returnS unlisted"
| "list_directories (directory # later) unlisted =
     (if is_below unlisted directory then list_directories later unlisted
      else
        bindS (tryS (bindS (path_test (\<lambda>fs. True)) (\<lambda>_. returnS unlisted))
          (\<lambda>error. if is_os_error error then returnS (directory # unlisted) else raiseS error)) (list_directories later))"

definition walk :: "path \<Rightarrow> path list fs_action" where
  "walk base =
     bindS (readS (\<lambda>fs. walked_directories fs base)) (\<lambda>directories.
     bindS (list_directories directories []) (\<lambda>unlisted.
     bindS (readS (\<lambda>fs. walked_files fs base)) (\<lambda>files.
     returnS (filter (\<lambda>p. \<not> is_below unlisted p) files))))"

definition part_of :: "path \<Rightarrow> path option" where
  "part_of p =
     (if ends_with (path_name p) (lit ''.part.meta'') then
        Some (with_name p (take (length (path_name p) - 5) (path_name p)))
      else if ends_with (path_name p) (lit ''.part'') then Some p
      else None)"

fun partial_pairs :: "path list \<Rightarrow> path list \<Rightarrow> path list fs_action" where
  "partial_pairs [] pairs = returnS pairs"
| "partial_pairs (candidate # later) pairs =
     (case part_of candidate of
        None \<Rightarrow> partial_pairs later pairs
      | Some part \<Rightarrow>
          bindS (path_test (\<lambda>fs. is_symlink fs candidate)) (\<lambda>link.
          partial_pairs later (if link \<or> part \<in> set pairs then pairs else pairs @ [part])))"

fun cleanup_pairs :: "int \<Rightarrow> path list \<Rightarrow> nat fs_action" where
  "cleanup_pairs ttl [] = returnS 0"
| "cleanup_pairs ttl (part_path # pairs) =
     bindS (existing_members [part_path, with_name part_path (path_name part_path @ lit ''.meta'')])
       (\<lambda>existing.
     bindS (readS fs_now) (\<lambda>now.
     bindS (if \<not> is_expired now ttl existing then returnS 0 else remove_members existing) (\<lambda>n.
     bindS (cleanup_pairs ttl pairs) (\<lambda>m. returnS (n + m)))))"

definition cleanup_expired_partials :: "path \<Rightarrow> int \<Rightarrow> nat fs_action" where
  "cleanup_expired_partials base ttl_seconds =
     (if ttl_seconds < 0 then raiseS (ValueError (lit ''ttl_seconds must not be negative''))
      else if ttl_seconds = 0 then returnS 0
      else
        bindS (path_test (\<lambda>fs. is_dir fs base)) (\<lambda>directory.
        if \<not> directory then returnS 0
        else
          bindS (path_test (\<lambda>fs. is_symlink fs base)) (\<lambda>link.
          if link then returnS 0
          else
            bindS (tryS (bindS (walk base) (\<lambda>files. partial_pairs files []))
              (\<lambda>error. if is_os_error error then returnS [] else raiseS error))
              (cleanup_pairs ttl_seconds))))"

subsection \<open>What cleanup can remove\<close>

definition removes :: "(path \<Rightarrow> bool) \<Rightarrow> file_system \<Rightarrow> file_system \<Rightarrow> bool" where
  "removes P fs fs' \<longleftrightarrow> fs_now fs' = fs_now fs \<and>
     (\<forall>q. node_at fs' q = node_at fs q
        \<or> node_at fs' q = None \<and> P q \<and> (\<exists>d t. node_at fs q = Some (RegularFile d t)))"

lemma removes_same: "same_nodes fs fs' \<Longrightarrow> removes P fs fs'"
  by (simp add: removes_def same_nodes_def only_changes_def)

lemma removes_trans: "removes P a b \<Longrightarrow> removes P b c \<Longrightarrow> removes P a c"
  unfolding removes_def by (metis option.distinct(1))

lemma removes_links: "removes P fs fs' \<Longrightarrow> node_at fs' q = Some (Symlink t) \<longleftrightarrow> node_at fs q = Some (Symlink t)"
  unfolding removes_def by (metis node.distinct(6) option.distinct(1) option.inject)

lemma removes_is_symlink: "removes P fs fs' \<Longrightarrow> is_symlink fs' q = is_symlink fs q"
proof -
  assume r: "removes P fs fs'"
  have "is_symlink g q \<longleftrightarrow> (\<exists>t. node_at g q = Some (Symlink t))" for g
    by (simp add: is_symlink_def split: option.split node.split)
  then show ?thesis using removes_links [OF r] by simp
qed

lemma resolve_from_links:
  "(\<And>q t. node_at fs' q = Some (Symlink t) \<longleftrightarrow> node_at fs q = Some (Symlink t)) \<Longrightarrow>
     resolve_from fs' fuel p cs = resolve_from fs fuel p cs"
proof (induction fs fuel p cs rule: resolve_from.induct)
  case (1 fs fuel p)
  then show ?case by simp
next
  case (2 fs fuel p c cs)
  show ?case
  proof (cases "\<exists>t. node_at fs (p @ [c]) = Some (Symlink t)")
    case True
    then obtain t where t: "node_at fs (p @ [c]) = Some (Symlink t)" by blast
    then have t': "node_at fs' (p @ [c]) = Some (Symlink t)" using "2.prems" by simp
    have "resolve_from fs' n [] (t @ cs) = resolve_from fs n [] (t @ cs)" if "fuel = Suc n" for n
      using "2.IH"(4) [OF t refl that "2.prems"] .
    then show ?thesis by (cases fuel) (simp_all add: t t')
  next
    case False
    have step: "resolve_from g fuel p (c # cs) = resolve_from g fuel (p @ [c]) cs"
      if "\<nexists>t. node_at g (p @ [c]) = Some (Symlink t)" for g
      using that by (simp split: option.split node.split)
    have "resolve_from fs' fuel (p @ [c]) cs = resolve_from fs fuel (p @ [c]) cs"
    proof (cases "node_at fs (p @ [c])")
      case None
      then show ?thesis using "2.IH"(1) "2.prems" by blast
    next
      case (Some x)
      then show ?thesis using "2.IH"(2,3) [OF Some] "2.prems" False by (cases x) blast+
    qed
    moreover have "\<nexists>t. node_at fs' (p @ [c]) = Some (Symlink t)" using False "2.prems" by simp
    ultimately show ?thesis using False by (metis step)
  qed
qed

lemma removes_followed:
  assumes "removes P fs fs'" "followed fs' q = Some (RegularFile d t)"
  shows "followed fs q = Some (RegularFile d t)"
proof -
  have "resolve fs' q = resolve fs q"
    unfolding resolve_def by (rule resolve_from_links) (rule removes_links [OF assms(1)])
  then show ?thesis
    using assms by (auto simp: followed_def removes_def split: option.splits) (metis option.distinct(1))
qed

lemma path_testE:
  assumes "path_test test fs = (r, fs')"
  shows "same_nodes fs fs' \<and> (case r of Inl e \<Rightarrow> is_os_error e | Inr b \<Rightarrow> b = test fs')"
  using assms unfolding path_test_def by (elim os_callE) auto

lemma wp_path_test:
  "(\<And>fs' b. same_nodes fs fs' \<Longrightarrow> b = test fs' \<Longrightarrow> Q b fs') \<Longrightarrow> (\<And>fs' e. same_nodes fs fs' \<Longrightarrow> is_os_error e \<Longrightarrow> E e fs')
     \<Longrightarrow> wp (path_test test) Q E fs"
  by (rule wpI) (auto dest!: path_testE split: sum.split)

lemma same_nodes_trans: "same_nodes a b \<Longrightarrow> same_nodes b c \<Longrightarrow> same_nodes a c"
  by (auto simp: same_nodes_def intro: only_changes_trans)

lemma existing_members_spec:
  "existing_members ps fs = (r, fs') \<Longrightarrow> same_nodes fs fs' \<and>
     (\<exists>xs. r = Inr xs \<and> (\<forall>(p, t) \<in> set xs. p \<in> set ps \<and> \<not> is_symlink fs p
        \<and> (\<exists>d. followed fs p = Some (RegularFile d t))))"
proof (induction ps arbitrary: fs r fs')
  case Nil
  then show ?case by auto
next
  case (Cons p ps)
  let ?one = "tryS (bindS (path_test (\<lambda>fs. is_file fs p)) (\<lambda>regular.
        if \<not> regular then returnS []
        else bindS (path_test (\<lambda>fs. is_symlink fs p)) (\<lambda>link.
        if link then returnS [] else bindS (stat_mtime p) (\<lambda>t. returnS [(p, t)]))))
       (\<lambda>error. if is_os_error error then returnS [] else raiseS error)"
  have stat: "wp (stat_mtime p) (\<lambda>t fs2. same_nodes fs fs2 \<and> (\<exists>d. followed fs p = Some (RegularFile d t)))
      (\<lambda>e fs2. same_nodes fs fs2 \<and> is_os_error e) fs1"
    if same: "same_nodes fs fs1" and regular: "is_file fs1 p" for fs1
  proof (rule wpI)
    fix r fs2
    assume run: "stat_mtime p fs1 = (r, fs2)"
    obtain d t where d: "followed fs p = Some (RegularFile d t)" "followed fs1 p = Some (RegularFile d t)"
      using regular lookup_same_nodes [OF same] by (auto simp: is_file_def split: option.splits node.splits)
    from run show "case r of Inl e \<Rightarrow> same_nodes fs fs2 \<and> is_os_error e
      | Inr t \<Rightarrow> same_nodes fs fs2 \<and> (\<exists>d. followed fs p = Some (RegularFile d t))"
      by (cases rule: stat_mtimeE) (use d in \<open>auto intro: same_nodes_trans [OF same]\<close>)
  qed
  have one: "wp ?one (\<lambda>found fs1. same_nodes fs fs1 \<and> (\<forall>(q, t) \<in> set found. q = p
      \<and> \<not> is_symlink fs p \<and> (\<exists>d. followed fs p = Some (RegularFile d t)))) (\<lambda>e fs1. False) fs"
    unfolding wp_try wp_bind
    by (rule wp_path_test)
      (auto simp: wp_simps lookup_same_nodes intro!: wp_path_test wp_mono [OF stat] intro: same_nodes_trans)
  obtain q fs1 where q: "?one fs = (q, fs1)" by fastforce
  then obtain found where found: "q = Inr found" "same_nodes fs fs1"
      "\<forall>(q, t) \<in> set found. q = p \<and> \<not> is_symlink fs p \<and> (\<exists>d. followed fs p = Some (RegularFile d t))"
    using wpD [OF one q] by (auto split: sum.splits)
  obtain r2 fs2 where rest: "existing_members ps fs1 = (r2, fs2)" by fastforce
  from Cons.IH [OF rest] obtain xs where xs: "r2 = Inr xs" "same_nodes fs1 fs2"
      "\<forall>(p, t) \<in> set xs. p \<in> set ps \<and> \<not> is_symlink fs1 p \<and> (\<exists>d. followed fs1 p = Some (RegularFile d t))"
    by auto
  have "r = Inr (found @ xs)" "fs' = fs2"
    using Cons.prems q found(1) rest xs(1) by (simp_all add: bindS_def)
  then show ?case
    using found xs lookup_same_nodes [OF found(2)]
    by (auto simp: same_nodes_def intro: only_changes_trans)
qed

lemma remove_members_spec:
  "remove_members xs fs = (r, fs') \<Longrightarrow> \<forall>(p, t) \<in> set xs. P p \<and> \<not> is_symlink fs p \<Longrightarrow>
     removes P fs fs' \<and> (\<exists>n. r = Inr n)"
proof (induction xs arbitrary: fs r)
  case Nil
  then show ?case by (auto simp: removes_def)
next
  case (Cons x xs)
  obtain p t where x: "x = (p, t)" by fastforce
  obtain q fs1 where q: "unlink False p fs = (q, fs1)" by fastforce
  have rm: "removes P fs fs1" and os: "\<forall>e. q = Inl e \<longrightarrow> is_os_error e"
    using q
  proof (atomize (full), cases rule: unlinkE)
    case (failed e)
    then show "removes P fs fs1 \<and> (\<forall>e. q = Inl e \<longrightarrow> is_os_error e)" by (auto intro: removes_same)
  next
    case removed
    have "removes P fs fs1"
      unfolding removes_def
    proof (intro conjI allI)
      show "fs_now fs1 = fs_now fs" using removed(4) by (simp add: only_changes_def)
      fix y
      show "node_at fs1 y = node_at fs y \<or> node_at fs1 y = None \<and> P y
          \<and> (\<exists>d t. node_at fs y = Some (RegularFile d t))"
      proof (cases "y = p")
        case True
        then show ?thesis
          using removed Cons.prems(2) x
          by (cases "node_at fs p"; cases "the (node_at fs p)") (auto simp: is_symlink_def)
      next
        case False
        then show ?thesis using removed(4) by (simp add: only_changes_def)
      qed
    qed
    then show "removes P fs fs1 \<and> (\<forall>e. q = Inl e \<longrightarrow> is_os_error e)" using removed by simp
  qed
  obtain r2 where rest: "remove_members xs fs1 = (r2, fs') \<and> (\<forall>n. r2 = Inr n \<longrightarrow> (\<exists>m. r = Inr m))
      \<and> (\<forall>e. r2 = Inl e \<longrightarrow> r = Inl e)"
    using Cons.prems(1) os by (cases q) (auto simp: x bindS_def tryS_def q split: prod.splits sum.splits)
  moreover have "\<forall>(p, t) \<in> set xs. P p \<and> \<not> is_symlink fs1 p"
    using Cons.prems(2) removes_is_symlink [OF rm] by auto
  ultimately have "removes P fs1 fs' \<and> (\<exists>n. r2 = Inr n)" using Cons.IH [of fs1 r2] by blast
  then have "removes P fs fs'" "\<exists>n. r = Inr n" using removes_trans [OF rm] rest by auto
  then show ?case ..
qed

definition partial_name :: "path \<Rightarrow> bool" where
  "partial_name q \<longleftrightarrow> ends_with (path_name q) (lit ''.part'') \<or> ends_with (path_name q) (lit ''.part.meta'')"

definition expired_file :: "file_system \<Rightarrow> int \<Rightarrow> path \<Rightarrow> bool" where
  "expired_file fs ttl q \<longleftrightarrow> (\<exists>d t. followed fs q = Some (RegularFile d t) \<and> fs_now fs - t > real_of_int ttl)"

lemma is_expired_each:
  assumes "is_expired now ttl xs" "(p, t) \<in> set xs"
  shows "now - t > real_of_int ttl"
proof -
  have "t \<le> Max (snd ` set xs)" using assms(2) by (intro Max_ge) force+
  then show ?thesis using assms(1) by (auto simp: is_expired_def)
qed

lemma cleanup_pairs_spec:
  "cleanup_pairs ttl parts fs = (r, fs') \<Longrightarrow> removes P fs0 fs \<Longrightarrow> fs_now fs = fs_now fs0 \<Longrightarrow>
     \<forall>part \<in> set parts. \<forall>q \<in> {part, with_name part (path_name part @ lit ''.meta'')}.
        expired_file fs0 ttl q \<longrightarrow> P q \<Longrightarrow>
     removes P fs0 fs' \<and> (\<exists>n. r = Inr n)"
proof (induction parts arbitrary: fs r)
  case Nil
  then show ?case by auto
next
  case (Cons part parts)
  let ?ms = "[part, with_name part (path_name part @ lit ''.meta'')]"
  obtain q fs1 where ex: "existing_members ?ms fs = (q, fs1)" by fastforce
  from existing_members_spec [OF ex] obtain xs where same: "same_nodes fs fs1" and q: "q = Inr xs"
    and xs: "\<forall>(p, t) \<in> set xs. p \<in> set ?ms \<and> \<not> is_symlink fs p \<and> (\<exists>d. followed fs p = Some (RegularFile d t))"
    by auto
  have now: "fs_now fs1 = fs_now fs0" using same Cons.prems(3) by (simp add: same_nodes_def only_changes_def)
  define act where "act = (if \<not> is_expired (fs_now fs1) ttl xs then returnS 0 else remove_members xs)"
  obtain q2 fs2 where a: "act fs1 = (q2, fs2)" by fastforce
  have step: "removes P fs1 fs2 \<and> (\<exists>n. q2 = Inr n)"
  proof (cases "is_expired (fs_now fs1) ttl xs")
    case True
    have "P p" if pt: "(p, t) \<in> set xs" for p t
    proof -
      obtain d where "p \<in> set ?ms" "followed fs p = Some (RegularFile d t)" using bspec [OF xs pt] by auto
      moreover from this have "followed fs0 p = Some (RegularFile d t)"
        using removes_followed [OF Cons.prems(2)] by blast
      ultimately have "expired_file fs0 ttl p"
        using is_expired_each [OF True pt] by (auto simp: expired_file_def now)
      with \<open>p \<in> set ?ms\<close> Cons.prems(4) show ?thesis by auto
    qed
    then have "\<forall>(p, t) \<in> set xs. P p \<and> \<not> is_symlink fs1 p"
      using xs lookup_same_nodes(3) [OF same] by auto
    with a True show ?thesis using remove_members_spec by (simp add: act_def)
  next
    case False
    with a show ?thesis by (auto simp: act_def removes_def)
  qed
  obtain r2 where rest: "cleanup_pairs ttl parts fs2 = (r2, fs')" "(\<exists>n. r2 = Inr n) \<longrightarrow> (\<exists>n. r = Inr n)"
    using Cons.prems(1) step a ex q
    by (auto simp: bindS_def readS_def act_def [symmetric] split: prod.splits sum.splits)
  have rm: "removes P fs0 fs2"
    using removes_trans [OF Cons.prems(2) removes_trans [OF removes_same [OF same]]] step by blast
  from Cons.IH [OF rest(1) rm] rm Cons.prems(4) have "removes P fs0 fs' \<and> (\<exists>n. r2 = Inr n)"
    by (simp add: removes_def)
  with rest(2) show ?case by blast
qed

lemma ends_with_iff: "ends_with s t \<longleftrightarrow> (\<exists>u. s = u @ t)"
proof
  assume "ends_with s t"
  then have "s = take (length s - length t) s @ t"
    unfolding ends_with_def by (metis append_take_drop_id)
  then show "\<exists>u. s = u @ t" by blast
qed (auto simp: ends_with_def)

lemma path_name_with_name [simp]: "path_name (with_name p name) = name"
  by (simp add: path_name_def with_name_def)

lemma part_of_named: "part_of p = Some part \<Longrightarrow> ends_with (path_name part) (lit ''.part'')"
  by (auto simp: part_of_def ends_with_iff lit_def split: if_splits)

lemma pair_members_named:
  assumes "ends_with (path_name part) (lit ''.part'')"
    and "q \<in> {part, with_name part (path_name part @ lit ''.meta'')}"
  shows "partial_name q"
  using assms by (auto simp: partial_name_def ends_with_iff lit_def)

text \<open>Looking for the pairs changes nothing; it fails only with an \<open>OSError\<close>.\<close>

lemma list_directories_spec: "list_directories ds unlisted fs = (r, fs') \<Longrightarrow> same_nodes fs fs' \<and> (\<exists>xs. r = Inr xs)"
proof (induction ds arbitrary: unlisted fs)
  case (Cons d ds)
  obtain q fs1 where q: "path_test (\<lambda>fs. True) fs = (q, fs1)" by fastforce
  note t = path_testE [OF q]
  show ?case
  proof (cases "is_below unlisted d")
    case True
    then show ?thesis using Cons by simp
  next
    case False
    obtain unlisted' where "list_directories ds unlisted' fs1 = (r, fs')"
      using Cons.prems False q t by (cases q) (auto simp: bindS_def tryS_def)
    from Cons.IH [OF this] t show ?thesis by (auto intro: same_nodes_trans)
  qed
qed auto

lemma partial_pairs_spec:
  "partial_pairs files pairs fs = (r, fs') \<Longrightarrow> \<forall>part \<in> set pairs. ends_with (path_name part) (lit ''.part'') \<Longrightarrow>
     same_nodes fs fs' \<and> (case r of Inl e \<Rightarrow> is_os_error e | Inr parts \<Rightarrow>
       (\<forall>part \<in> set parts. ends_with (path_name part) (lit ''.part'')))"
proof (induction files arbitrary: pairs fs)
  case (Cons p files)
  show ?case
  proof (cases "part_of p")
    case None
    then show ?thesis using Cons by simp
  next
    case (Some part)
    obtain q fs1 where q: "path_test (\<lambda>fs. is_symlink fs p) fs = (q, fs1)" by fastforce
    note t = path_testE [OF q]
    show ?thesis
    proof (cases q)
      case (Inl e)
      then show ?thesis using Cons.prems(1) Some q t by (auto simp: bindS_def)
    next
      case (Inr link)
      have "partial_pairs files (if link \<or> part \<in> set pairs then pairs else pairs @ [part]) fs1 = (r, fs')"
        using Cons.prems(1) Some q Inr by (simp add: bindS_def)
      moreover have "\<forall>x \<in> set (if link \<or> part \<in> set pairs then pairs else pairs @ [part]).
          ends_with (path_name x) (lit ''.part'')"
        using Cons.prems(2) part_of_named [OF Some] by auto
      ultimately show ?thesis using Cons.IH t by (blast intro: same_nodes_trans)
    qed
  qed
qed auto

lemma found_pairs_spec:
  assumes "tryS (bindS (walk base) (\<lambda>files. partial_pairs files []))
      (\<lambda>error. if is_os_error error then returnS [] else raiseS error) fs = (r, fs')"
  shows "same_nodes fs fs' \<and> (\<exists>parts. r = Inr parts \<and> (\<forall>part \<in> set parts. ends_with (path_name part) (lit ''.part'')))"
proof -
  obtain q fs1 where w: "walk base fs = (q, fs1)" by fastforce
  then obtain files where files: "q = Inr files" "same_nodes fs fs1"
    by (auto simp: walk_def bindS_def readS_def dest!: list_directories_spec split: prod.splits)
  obtain q2 fs2 where p: "partial_pairs files [] fs1 = (q2, fs2)" by fastforce
  have spec: "same_nodes fs1 fs2" "case q2 of Inl e \<Rightarrow> is_os_error e
      | Inr parts \<Rightarrow> \<forall>part \<in> set parts. ends_with (path_name part) (lit ''.part'')"
    using partial_pairs_spec [OF p] by simp_all
  then show ?thesis
    using assms w files p by (cases q2) (auto simp: tryS_def bindS_def intro: same_nodes_trans)
qed

lemma path_test_runs: "\<nexists>f later. fs_faults fs = Some f # later \<Longrightarrow>
    \<exists>b fs1. path_test test fs = (Inr b, fs1) \<and> fs_faults fs1 = tl (fs_faults fs)"
  by (auto simp: path_test_def os_call_def split: list.splits option.splits)

subsection \<open>The properties of cleanup\<close>


definition stale_files :: file_system where
  "stale_files = \<lparr>fs_nodes = [([[115]], Directory), ([[115], [97]], RegularFile [1] 0),
       ([[115], 97 # lit ''.part''], RegularFile [1, 2] 0)],
     fs_faults = [], fs_now = 100, fs_random = []\<rparr>"


end
