(* ===== verification/Logger.thy ===== *)
theory Logger
  imports Config
begin

section \<open>The server log\<close>

text \<open>
  \<open>src/hcmus_socket/server/logger.py\<close>: one JSON object per line.  The stream is the list of
  events written; \<open>lg_faults\<close> says which writes fail (a failing write leaves no line), and
  \<open>lg_timestamp\<close> is what the clock reads.  A command is an \<open>Opcode\<close>, as everywhere in the
  server.
\<close>

record server_logger =
  lg_stream :: "json list option" \<comment> \<open>\<open>None\<close> once closed\<close>
  lg_timestamp :: pystr
  lg_last_error :: "exc option"
  lg_successful_writes :: int
  lg_failed_writes :: int
  lg_faults :: "fault option list"

record log_context =
  lc_session_id :: "int option"
  lc_username :: "pystr option"
  lc_user_id :: "int option"
  lc_bandwidth_limit_bps :: "int option"

record logger_status =
  ls_closed :: bool
  ls_successful_writes :: int
  ls_failed_writes :: int
  ls_last_error :: "exc option"

type_synonym 'a log_action = "(exc, server_logger, 'a) action"

definition open_logger :: "pystr \<Rightarrow> fault option list \<Rightarrow> server_logger" where
  "open_logger timestamp faults =
     \<lparr>lg_stream = Some [], lg_timestamp = timestamp, lg_last_error = None, lg_successful_writes = 0,
      lg_failed_writes = 0, lg_faults = faults\<rparr>"

subsection \<open>JSON fields\<close>

fun error_name :: "error_code \<Rightarrow> pystr" where
  "error_name INVALID_FRAME = lit ''INVALID_FRAME''"
| "error_name UNSUPPORTED_OPCODE = lit ''UNSUPPORTED_OPCODE''"
| "error_name INVALID_PAYLOAD = lit ''INVALID_PAYLOAD''"
| "error_name INVALID_STATE = lit ''INVALID_STATE''"
| "error_name PAYLOAD_TOO_LARGE = lit ''PAYLOAD_TOO_LARGE''"
| "error_name INVALID_USER_ID = lit ''INVALID_USER_ID''"
| "error_name AUTHENTICATION_REQUIRED = lit ''AUTHENTICATION_REQUIRED''"
| "error_name INVALID_USERNAME = lit ''INVALID_USERNAME''"
| "error_name USERNAME_IN_USE = lit ''USERNAME_IN_USE''"
| "error_name SERVER_BUSY = lit ''SERVER_BUSY''"
| "error_name FILE_NOT_FOUND = lit ''FILE_NOT_FOUND''"
| "error_name FILE_EXISTS = lit ''FILE_EXISTS''"
| "error_name INVALID_FILENAME = lit ''INVALID_FILENAME''"
| "error_name ACCESS_DENIED = lit ''ACCESS_DENIED''"
| "error_name FILE_IO_ERROR = lit ''FILE_IO_ERROR''"
| "error_name SIZE_MISMATCH = lit ''SIZE_MISMATCH''"
| "error_name CHECKSUM_MISMATCH = lit ''CHECKSUM_MISMATCH''"
| "error_name OFFSET_MISMATCH = lit ''OFFSET_MISMATCH''"
| "error_name TRANSFER_IN_PROGRESS = lit ''TRANSFER_IN_PROGRESS''"
| "error_name LIST_TOO_LARGE = lit ''LIST_TOO_LARGE''"
| "error_name RESUME_METADATA_MISMATCH = lit ''RESUME_METADATA_MISMATCH''"
| "error_name INTERNAL_ERROR = lit ''INTERNAL_ERROR''"

definition json_option :: "('a \<Rightarrow> json) \<Rightarrow> 'a option \<Rightarrow> json" where
  "json_option f x = (case x of None \<Rightarrow> JNull | Some v \<Rightarrow> f v)"

definition log_error_name :: "error_code option \<Rightarrow> json" where
  "log_error_name code = json_option (JStr \<circ> error_name) code"

definition log_error_value :: "error_code option \<Rightarrow> json" where
  "log_error_value code = json_option (JInt \<circ> error_value) code"

definition checksum_text :: "bool option \<Rightarrow> pystr" where
  "checksum_text matched =
     (case matched of None \<Rightarrow> lit ''n/a'' | Some m \<Rightarrow> if m then lit ''match'' else lit ''mismatch'')"

definition client_fields :: "pystr \<times> int \<Rightarrow> exc + pystr \<times> int" where
  "client_fields client =
     (case client of (ip, port) \<Rightarrow>
      bindE (guardE (ip \<noteq> []) (ValueError (lit ''client IP must be non-empty text''))) (\<lambda>_.
      bindE (guardE (0 \<le> port \<and> port \<le> 65535)
        (ValueError (lit ''client port must be from 0 to 65535''))) (\<lambda>_.
      Inr (ip, port))))"

definition no_context :: log_context where
  "no_context = \<lparr>lc_session_id = None, lc_username = None, lc_user_id = None,
     lc_bandwidth_limit_bps = None\<rparr>"

definition phase_two_fields :: "log_context option \<Rightarrow> int option \<Rightarrow> (pystr \<times> json) list" where
  "phase_two_fields context resume_offset =
     (let active = (case context of None \<Rightarrow> no_context | Some c \<Rightarrow> c) in
      [(lit ''session_id'', json_option JInt (lc_session_id active)),
       (lit ''username'', json_option JStr (lc_username active)),
       (lit ''user_id'', json_option JInt (lc_user_id active)),
       (lit ''resume_offset'', json_option JInt resume_offset),
       (lit ''bandwidth_limit_bps'', json_option JInt (lc_bandwidth_limit_bps active))])"

text \<open>\<open>round(x, 3)\<close>: to the nearest thousandth, ties to the even one.\<close>

definition round_half_even :: "real \<Rightarrow> int" where
  "round_half_even x =
     (let f = \<lfloor>x\<rfloor>; d = x - real_of_int f in
      if d < 1/2 then f else if d > 1/2 then f + 1 else if even f then f else f + 1)"

definition round3 :: "real \<Rightarrow> real" where
  "round3 x = real_of_int (round_half_even (x * 1000)) / 1000"

definition speed_kib_per_second :: "int \<Rightarrow> real \<Rightarrow> real" where
  "speed_kib_per_second n duration_seconds =
     (if duration_seconds \<le> 0 then 0 else real_of_int n / 1024 / duration_seconds)"

subsection \<open>Writing\<close>

definition write_failed :: "exc \<Rightarrow> server_logger \<Rightarrow> server_logger" where
  "write_failed error lg = lg\<lparr>lg_last_error := Some error, lg_failed_writes := lg_failed_writes lg + 1\<rparr>"

definition log_write :: "(pystr \<times> json) list \<Rightarrow> bool log_action" where
  "log_write event lg =
     (case lg_stream lg of
        None \<Rightarrow> (Inr False, write_failed (OSError (lit ''server logger is closed'')) lg)
      | Some written \<Rightarrow>
          (case lg_faults lg of
             Some f # later \<Rightarrow> (Inr False, write_failed (fault_exc f) (lg\<lparr>lg_faults := later\<rparr>))
           | faults \<Rightarrow>
               (Inr True, lg\<lparr>lg_stream := Some (written @ [JDict event]), lg_faults := tl faults,
                  lg_successful_writes := lg_successful_writes lg + 1\<rparr>)))"

definition result_text :: "bool \<Rightarrow> json" where
  "result_text success = JStr (if success then lit ''success'' else lit ''failure'')"

definition log_connection ::
  "pystr \<times> int \<Rightarrow> bool \<Rightarrow> error_code option \<Rightarrow> pystr option \<Rightarrow> log_context option \<Rightarrow> bool log_action" where
  "log_connection client success code message context =
     bindS (liftS (client_fields client)) (\<lambda>(ip, port).
     bindS (readS lg_timestamp) (\<lambda>timestamp.
     log_write ([(lit ''timestamp'', JStr timestamp), (lit ''event'', JStr (lit ''connection'')),
       (lit ''client_ip'', JStr ip), (lit ''client_port'', JInt port),
       (lit ''result'', result_text success), (lit ''error_code'', log_error_name code),
       (lit ''error_code_value'', log_error_value code), (lit ''message'', json_option JStr message)]
       @ phase_two_fields context None)))"

definition log_disconnection ::
  "pystr \<times> int \<Rightarrow> bool \<Rightarrow> pystr option \<Rightarrow> log_context option \<Rightarrow> bool log_action" where
  "log_disconnection client clean message context =
     bindS (liftS (client_fields client)) (\<lambda>(ip, port).
     bindS (readS lg_timestamp) (\<lambda>timestamp.
     log_write ([(lit ''timestamp'', JStr timestamp), (lit ''event'', JStr (lit ''disconnection'')),
       (lit ''client_ip'', JStr ip), (lit ''client_port'', JInt port),
       (lit ''result'', result_text clean), (lit ''error_code'', JNull),
       (lit ''error_code_value'', JNull), (lit ''message'', json_option JStr message)]
       @ phase_two_fields context None)))"

record transfer_report =
  tr_filename :: "pystr option"
  tr_bytes_transferred :: int
  tr_duration_seconds :: real
  tr_success :: bool
  tr_error_code :: "error_code option"
  tr_checksum_matched :: "bool option"
  tr_message :: "pystr option"
  tr_resume_offset :: "int option"

definition log_transfer ::
  "pystr \<times> int \<Rightarrow> opcode \<Rightarrow> transfer_report \<Rightarrow> log_context option \<Rightarrow> bool log_action" where
  "log_transfer client command report context =
     bindS (liftS (guardE (0 \<le> tr_bytes_transferred report)
       (ValueError (lit ''bytes_transferred must not be negative'')))) (\<lambda>_.
     bindS (liftS (guardE (0 \<le> tr_duration_seconds report)
       (ValueError (lit ''duration_seconds must not be negative'')))) (\<lambda>_.
     bindS (liftS (guardE (tr_resume_offset report = None \<or> 0 \<le> the (tr_resume_offset report))
       (ValueError (lit ''resume_offset must not be negative'')))) (\<lambda>_.
     bindS (liftS (client_fields client)) (\<lambda>(ip, port).
     let speed = speed_kib_per_second (tr_bytes_transferred report) (tr_duration_seconds report) in
     bindS (readS lg_timestamp) (\<lambda>timestamp.
     log_write ([(lit ''timestamp'', JStr timestamp), (lit ''event'', JStr (lit ''command'')),
       (lit ''client_ip'', JStr ip), (lit ''client_port'', JInt port),
       (lit ''command'', JStr (opcode_name command)),
       (lit ''filename'', json_option JStr (tr_filename report)),
       (lit ''bytes'', JInt (tr_bytes_transferred report)),
       (lit ''duration_ms'', JFloat (round3 (tr_duration_seconds report * 1000))),
       (lit ''speed_kib_s'', JFloat (round3 speed)),
       (lit ''result'', result_text (tr_success report)),
       (lit ''error_code'', log_error_name (tr_error_code report)),
       (lit ''error_code_value'', log_error_value (tr_error_code report)),
       (lit ''checksum'', JStr (checksum_text (tr_checksum_matched report))),
       (lit ''message'', json_option JStr (tr_message report))]
       @ phase_two_fields context (tr_resume_offset report)))))))"

definition close_logger :: "fault option \<Rightarrow> server_logger \<Rightarrow> server_logger" where
  "close_logger f lg =
     (case lg_stream lg of
        None \<Rightarrow> lg
      | Some written \<Rightarrow>
          (case f of
             None \<Rightarrow> lg\<lparr>lg_stream := None\<rparr>
           | Some x \<Rightarrow> lg\<lparr>lg_stream := None, lg_last_error := Some (fault_exc x)\<rparr>))"

definition logger_status_of :: "server_logger \<Rightarrow> logger_status" where
  "logger_status_of lg =
     \<lparr>ls_closed = (lg_stream lg = None), ls_successful_writes = lg_successful_writes lg,
      ls_failed_writes = lg_failed_writes lg, ls_last_error = lg_last_error lg\<rparr>"

subsection \<open>Counting\<close>

text \<open>The counters account for every call: one line and one success, or no line and one failure.\<close>

definition log_step :: "server_logger \<Rightarrow> server_logger \<Rightarrow> bool" where
  "log_step lg lg' \<longleftrightarrow>
     (case lg_stream lg of
        None \<Rightarrow> lg_stream lg' = None \<and> lg_successful_writes lg' = lg_successful_writes lg
      | Some written \<Rightarrow> (\<exists>new. lg_stream lg' = Some (written @ new)
          \<and> lg_successful_writes lg' = lg_successful_writes lg + int (length new)))
     \<and> lg_failed_writes lg \<le> lg_failed_writes lg'"

interpretation logging: step_relation log_step
proof
  show "log_step s s" for s by (auto simp: log_step_def split: option.split)
  show "log_step s u" if "log_step s t" "log_step t u" for s t u
    using that by (auto simp: log_step_def split: option.splits)
qed

lemma logging_write: "logging.keeps (log_write event)"
  by (rule logging.keepsI)
    (auto simp: log_write_def write_failed_def log_step_def split: option.splits list.splits)

lemma logging_calls:
  "logging.keeps (log_connection client success code message context)"
  "logging.keeps (log_disconnection client clean message context)"
  "logging.keeps (log_transfer client command report context)"
  unfolding log_connection_def log_disconnection_def log_transfer_def Let_def
  by (intro logging.keep_intros logging_write)+

text \<open>
  Logging never stops a session: for a client with a valid address and a report with no
  negative figure, a log call raises nothing even when the log is closed or the write fails;
  it answers whether the line was written, and the counters of the status say the same.
\<close>

theorem log_call_contained:
  assumes "client_fields client = Inr client" and "0 \<le> tr_bytes_transferred report"
    and "0 \<le> tr_duration_seconds report" and "tr_resume_offset report \<noteq> None \<Longrightarrow> 0 \<le> the (tr_resume_offset report)"
  shows "\<exists>written lg'. log_transfer client command report context lg = (Inr written, lg')
    \<and> ls_successful_writes (logger_status_of lg')
        = ls_successful_writes (logger_status_of lg) + (if written then 1 else 0)
    \<and> ls_failed_writes (logger_status_of lg')
        = ls_failed_writes (logger_status_of lg) + (if written then 0 else 1)
    \<and> (written \<longrightarrow> (\<exists>lines line. lg_stream lg = Some lines \<and> lg_stream lg' = Some (lines @ [line])))
    \<and> (\<not> written \<longrightarrow> lg_stream lg' = lg_stream lg)"
proof -
  obtain ip port where "client = (ip, port)" by fastforce
  with assms show ?thesis
    by (cases "tr_resume_offset report")
      (auto simp: log_transfer_def Let_def bindS_def readS_def log_write_def write_failed_def
        logger_status_of_def split: option.splits list.splits)
qed

theorem log_call_contained_witness:
  "\<exists>written lg'. log_transfer (lit ''127.0.0.1'', 5000) FILE_LIST
     \<lparr>tr_filename = None, tr_bytes_transferred = 4, tr_duration_seconds = 1, tr_success = True,
      tr_error_code = None, tr_checksum_matched = None, tr_message = None, tr_resume_offset = None\<rparr>
     None (open_logger (lit ''2026'') [Some (IoFault (lit ''full''))]) = (Inr written, lg')"
  using log_call_contained [of "(lit ''127.0.0.1'', 5000)"
    "\<lparr>tr_filename = None, tr_bytes_transferred = 4, tr_duration_seconds = 1, tr_success = True,
      tr_error_code = None, tr_checksum_matched = None, tr_message = None, tr_resume_offset = None\<rparr>"
    FILE_LIST None "open_logger (lit ''2026'') [Some (IoFault (lit ''full''))]"]
  by (auto simp: client_fields_def lit_def)

end
