(* ===== verification/ServerSession.thy ===== *)
theory ServerSession
  imports Codecs Registry Throttling PartialTransfer Logger
begin

section \<open>A server session: state, sending and receiving\<close>

text \<open>
  The object \<open>ServerSession\<close> of \<open>src/hcmus_socket/server/session.py\<close> and the three methods the
  transfer handlers call on it: \<open>send\<close>, \<open>receive\<close> and \<open>consume_bandwidth\<close>.  The session record
  also holds what the object points to (the registry, the file system, the socket, the clock);
  a session runs alone on them, which the filename locks and the registry's own lock see to.
  The dispatcher, login and shutdown are in \<open>Session\<close>.
\<close>

subsection \<open>State\<close>

datatype session_state =
    CONNECTED | AUTHENTICATING | IDLE | RECEIVING_UPLOAD | SENDING_DOWNLOAD | CLOSING | CLOSED

record session =
  ss_socket :: sock
  ss_socket_open :: bool
  ss_registry :: registry
  ss_owns_registry_session :: bool
  ss_registry_session_id :: int
  ss_bandwidth_limiter :: "token_bucket option"
  ss_timing :: timing
  ss_state :: session_state
  ss_username :: "pystr option"
  ss_user_id :: int
  ss_authenticated :: bool
  ss_clean_disconnect :: bool
  ss_peer_address :: address
  ss_logger :: "server_logger option"
  ss_has_filename_locks :: bool
  ss_elapsed :: real \<comment> \<open>what the next \<open>perf_counter() - started\<close> gives\<close>
  ss_files :: file_system

type_synonym 'a session_action = "(exc, session, 'a) action"

definition on_socket :: "(exc, sock, 'a) action \<Rightarrow> 'a session_action" where
  "on_socket = partS ss_socket (\<lambda>x s. s\<lparr>ss_socket := x\<rparr>)"

definition on_files :: "'a fs_action \<Rightarrow> 'a session_action" where
  "on_files = partS ss_files (\<lambda>x s. s\<lparr>ss_files := x\<rparr>)"

definition make_limiter :: "environment \<Rightarrow> real \<Rightarrow> exc + token_bucket option" where
  "make_limiter ev now =
     (let limit_kib = nc_bandwidth_limit_kib_per_second (cf_network (ev_config ev)) in
      if limit_kib = 0 then Inr None
      else map_res Some (make_token_bucket (real_of_int (limit_kib * 1024))
             (real_of_int (chunk_size ev)) None now))"

definition make_session ::
  "environment \<Rightarrow> sock \<Rightarrow> address \<Rightarrow> server_logger option \<Rightarrow> registry \<Rightarrow> int option \<Rightarrow> bool \<Rightarrow>
     timing \<Rightarrow> file_system \<Rightarrow> exc + session" where
  "make_session ev accepted_socket peer_address logger reg registry_session_id filename_locks tm files =
     (case (case registry_session_id of
              None \<Rightarrow> (case register_session peer_address reg of
                 (Inr rec, reg') \<Rightarrow> (sn_session_id rec, reg')
               | (Inl e, reg') \<Rightarrow> (0, reg'))
            | Some k \<Rightarrow> (k, reg)) of
        (session_id, reg1) \<Rightarrow>
          (case read_clock tm of (now, tm1) \<Rightarrow>
           bindE (make_limiter ev now) (\<lambda>limiter.
           Inr \<lparr>ss_socket = accepted_socket, ss_socket_open = True, ss_registry = reg1,
             ss_owns_registry_session = (registry_session_id = None),
             ss_registry_session_id = session_id, ss_bandwidth_limiter = limiter,
             ss_timing = tm1, ss_state = CONNECTED, ss_username = None, ss_user_id = USER_ID,
             ss_authenticated = False, ss_clean_disconnect = False, ss_peer_address = peer_address,
             ss_logger = logger, ss_has_filename_locks = filename_locks, ss_elapsed = 0,
             ss_files = files\<rparr>)))"

subsection \<open>\<open>send\<close> and \<open>receive\<close>\<close>

definition session_send :: "environment \<Rightarrow> frame \<Rightarrow> unit session_action" where
  "session_send ev fr =
     bindS (readS ss_user_id) (\<lambda>user_id.
     if fr_user_id fr \<noteq> user_id then
       raiseS (protocol_error INVALID_USER_ID
         (lit ''outgoing '' @ opcode_name (fr_opcode fr) @ lit '' USER_ID does not match the session''))
     else on_socket (send_frame fr (max_payload ev)))"

definition receive_failure :: "exc \<Rightarrow> session_state \<Rightarrow> exc" where
  "receive_failure error state =
     (case error of
        ProtocolError code message raw_opcode stream_synchronized \<Rightarrow>
          if (state = RECEIVING_UPLOAD \<or> state = SENDING_DOWNLOAD)
             \<and> (code = INVALID_FRAME \<or> code = PAYLOAD_TOO_LARGE) \<and> \<not> stream_synchronized
          then FatalFramingError message
          else error
      | _ \<Rightarrow> error)"

definition session_receive :: "environment \<Rightarrow> frame session_action" where
  "session_receive ev =
     bindS (readS ss_state) (\<lambda>state.
     bindS (tryS (on_socket (receive_frame (max_payload ev)))
              (\<lambda>error. raiseS (receive_failure error state))) (\<lambda>frame_or_none.
     case frame_or_none of
       None \<Rightarrow> raiseS (PeerDisconnected (lit ''peer closed the connection''))
     | Some fr \<Rightarrow>
         bindS (readS ss_user_id) (\<lambda>user_id.
         let expected_user_id = (if state = AUTHENTICATING then USER_ID else user_id) in
         if fr_user_id fr \<noteq> expected_user_id then
           raiseS (ProtocolError INVALID_USER_ID
             (lit ''incoming '' @ opcode_name (fr_opcode fr) @ lit '' USER_ID does not match the session'')
             (Some (opcode_value (fr_opcode fr))) True)
         else returnS fr)))"

text \<open>
  \<open>consume_bandwidth\<close>: the turns given to \<open>consume\<close> are those it needs
  (\<open>consume_bandwidth_returns\<close> below), so the last branch is never taken.
\<close>

definition turns_for :: "int \<Rightarrow> token_bucket \<Rightarrow> nat" where
  "turns_for amount b = nat \<lceil>real_of_int amount / tb_burst_bytes b\<rceil>"

definition consume_bandwidth :: "int \<Rightarrow> real session_action" where
  "consume_bandwidth amount s =
     (case ss_bandwidth_limiter s of
        None \<Rightarrow> (Inr 0, s)
      | Some b \<Rightarrow>
          (case consume (Suc (turns_for amount b)) amount b (ss_timing s) of
             Some (Inl e) \<Rightarrow> (Inl e, s)
           | Some (Inr (w, b', tm')) \<Rightarrow>
               (Inr w, s\<lparr>ss_bandwidth_limiter := Some b', ss_timing := tm'\<rparr>)
           | None \<Rightarrow> (Inr 0, s)))"

definition session_storage_directory :: "environment \<Rightarrow> path session_action" where
  "session_storage_directory ev =
     bindS (readS ss_username) (\<lambda>username.
     case username of
       None \<Rightarrow> raiseS (protocol_error AUTHENTICATION_REQUIRED
         (lit ''authenticated username is required for storage access''))
     | Some name \<Rightarrow> returnS (storage_root ev @ [name]))"

definition limiter_ok :: "session \<Rightarrow> bool" where
  "limiter_ok s \<longleftrightarrow>
     (\<forall>b. ss_bandwidth_limiter s = Some b \<longrightarrow> bucket_ok b \<and> clock_ok b (ss_timing s))"

lemma consume_bandwidth_returns:
  assumes "limiter_ok s" "ss_bandwidth_limiter s = Some b" "0 \<le> amount"
  shows "\<exists>w b' tm'. consume (Suc (turns_for amount b)) amount b (ss_timing s) = Some (Inr (w, b', tm'))
    \<and> consume_bandwidth amount s = (Inr w, s\<lparr>ss_bandwidth_limiter := Some b', ss_timing := tm'\<rparr>)
    \<and> tb_total_bytes_consumed b' = tb_total_bytes_consumed b + real_of_int amount
    \<and> limiter_ok (snd (consume_bandwidth amount s))"
proof -
  have b: "bucket_ok b" "clock_ok b (ss_timing s)"
    using assms(1,2) by (simp_all add: limiter_ok_def)
  have "0 < tb_burst_bytes b" using b(1) by (simp add: bucket_ok_def)
  then have "real_of_int amount \<le> real (turns_for amount b) * tb_burst_bytes b"
    using assms(3) by (simp add: turns_for_def flip: pos_divide_le_eq)
  moreover have "byte_amount amount = Inr amount" using assms(3) by (simp add: byte_amount_def)
  moreover obtain w b' tm' where "consume_loop (Suc (turns_for amount b)) (real_of_int amount) 0 b (ss_timing s)
      = Some (w, b', tm')" "tb_total_bytes_consumed b' = tb_total_bytes_consumed b + real_of_int amount"
      "bucket_ok b'" "clock_ok b' tm'"
    using consume_loop_returns [of b "ss_timing s" "real_of_int amount" "turns_for amount b"] b assms
      calculation(1) by auto
  ultimately show ?thesis
    using assms(2) by (simp add: consume_def consume_bandwidth_def limiter_ok_def del: consume_loop.simps)
qed

subsection \<open>What \<open>send\<close> and \<open>receive\<close> do to the session\<close>

lemma on_socket_apply: "on_socket a s = (case a (ss_socket s) of (r, k) \<Rightarrow> (r, s\<lparr>ss_socket := k\<rparr>))"
  by (simp add: on_socket_def partS_def)

lemma on_files_apply: "on_files a s = (case a (ss_files s) of (r, fs) \<Rightarrow> (r, s\<lparr>ss_files := fs\<rparr>))"
  by (simp add: on_files_def partS_def)

lemma session_sendE:
  assumes "session_send ev fr s = (r, s')"
  obtains k where "s' = s\<lparr>ss_socket := k\<rparr>" "inbound k = inbound (ss_socket s)"
    "r = Inr () \<Longrightarrow> fr_user_id fr = ss_user_id s \<and>
       (\<exists>bs. serialize_frame fr (max_payload ev) = Inr bs \<and> outbound k = outbound (ss_socket s) @ bs)"
proof (cases "fr_user_id fr = ss_user_id s")
  case False
  then show ?thesis using assms that [of "ss_socket s"] by (auto simp: session_send_def bindS_def readS_def)
next
  case True
  obtain k where k: "send_frame fr (max_payload ev) (ss_socket s) = (r, k)" "s' = s\<lparr>ss_socket := k\<rparr>"
    using assms True by (auto simp: session_send_def bindS_def readS_def on_socket_apply split: prod.splits)
  then show ?thesis using that [of k] send_frame_inbound [OF k(1)]
      send_frame_Inr [of fr "max_payload ev" "ss_socket s" k] True by blast
qed

lemma session_receiveE:
  assumes "session_receive ev s = (r, s')"
  obtains k where "s' = s\<lparr>ss_socket := k\<rparr>" "reads_only (ss_socket s) k"
    "\<And>fr. r = Inr fr \<Longrightarrow> receive_frame (max_payload ev) (ss_socket s) = (Inr (Some fr), k)
       \<and> fr_user_id fr = (if ss_state s = AUTHENTICATING then USER_ID else ss_user_id s)"
proof -
  obtain q k where rf: "receive_frame (max_payload ev) (ss_socket s) = (q, k)" by fastforce
  have "s' = s\<lparr>ss_socket := k\<rparr> \<and> (\<forall>fr. r = Inr fr \<longrightarrow> q = Inr (Some fr)
      \<and> fr_user_id fr = (if ss_state s = AUTHENTICATING then USER_ID else ss_user_id s))"
    using assms rf
    by (cases q) (auto simp: session_receive_def bindS_def readS_def tryS_def on_socket_apply Let_def
        split: option.splits if_splits)
  then show ?thesis using that [of k] rf receive_frame_reads [OF rf] by auto
qed

lemma session_receive_progress:
  assumes "session_receive ev s = (Inr fr, s')"
  shows "length (pending (ss_socket s')) < length (pending (ss_socket s)) \<and> wf_frame (max_payload ev) fr"
  using assms by (rule session_receiveE) (auto dest: receive_frame_progress)

subsection \<open>What a transfer leaves alone\<close>

text \<open>
  Sending, receiving, throttling and file access never touch the identity or the state of the
  session, and never put bytes back into the stream.
\<close>

definition transfer_step :: "session \<Rightarrow> session \<Rightarrow> bool" where
  "transfer_step s t \<longleftrightarrow> ss_state t = ss_state s \<and> ss_username t = ss_username s
     \<and> ss_user_id t = ss_user_id s \<and> ss_authenticated t = ss_authenticated s
     \<and> ss_registry t = ss_registry s \<and> ss_registry_session_id t = ss_registry_session_id s
     \<and> ss_owns_registry_session t = ss_owns_registry_session s
     \<and> ss_socket_open t = ss_socket_open s \<and> ss_clean_disconnect t = ss_clean_disconnect s
     \<and> ss_peer_address t = ss_peer_address s \<and> ss_logger t = ss_logger s
     \<and> ss_has_filename_locks t = ss_has_filename_locks s
     \<and> length (pending (ss_socket t)) \<le> length (pending (ss_socket s))"

interpretation transfer: step_relation transfer_step
  by unfold_locales (auto simp: transfer_step_def)

lemma transfer_files: "transfer.keeps (on_files act)"
  by (rule transfer.keepsI) (auto simp: on_files_apply transfer_step_def split: prod.splits)

lemma transfer_send: "transfer.keeps (session_send ev fr)"
  by (rule transfer.keepsI, erule session_sendE) (simp add: transfer_step_def pending_def)

lemma transfer_receive: "transfer.keeps (session_receive ev)"
  by (rule transfer.keepsI, erule session_receiveE) (simp add: transfer_step_def reads_only_def)

lemma transfer_bandwidth: "transfer.keeps (consume_bandwidth amount)"
  by (rule transfer.keepsI)
    (auto simp: consume_bandwidth_def transfer_step_def split: option.splits sum.splits prod.splits)

lemma transfer_storage: "transfer.keeps (session_storage_directory ev)"
  unfolding session_storage_directory_def by (intro transfer.keep_intros)

lemmas transfer_intros = transfer.keep_intros transfer_files transfer_send transfer_receive
  transfer_bandwidth transfer_storage

end
