(* ===== verification/Upload.thy ===== *)
theory Upload
  imports ServerSession
begin

section \<open>FILE_UPLOAD\<close>

text \<open>
  \<open>src/hcmus_socket/server/upload.py\<close>.  \<open>handle_upload\<close> is one long function; its parts are
  definitions of their own, in the order of the source: the request and its target
  (\<open>up_prepare\<close>), the decision about a partial upload (\<open>up_resume\<close>), opening it (\<open>up_open\<close>), the
  first acknowledgement (\<open>up_start\<close>), one turn of the receive loop (\<open>up_chunk\<close>, \<open>up_checksum\<close>,
  \<open>up_turn\<close>), the loop, publication (\<open>up_publish\<close>) and the cleanup of the \<open>finally\<close> block.  A
  \<open>return\<close> in the middle of the function is the value \<open>Return\<close> of \<open>Prelude\<close>.  The local variables that the
  \<open>try\<close> and \<open>finally\<close> blocks share are the fields of \<open>upload_state\<close>, so that they keep their
  values when an exception leaves the block.  The hash object is the bytes hashed so far.
  Durations are not modelled.
\<close>

record upload_result =
  ur_filename :: pystr
  ur_bytes_received :: int
  ur_success :: bool
  ur_checksum_matched :: "bool option"
  ur_error_code :: "error_code option"

record upload_state =
  us_session :: session
  us_received :: int
  us_digest :: "byte list"
  us_published :: bool
  us_clean :: bool \<comment> \<open>clean_partial_on_failure\<close>

type_synonym 'a upload_flow = "(upload_result, 'a) flow"

type_synonym 'a upload_action = "(exc, upload_state, 'a) action"

definition in_session :: "'a session_action \<Rightarrow> 'a upload_action" where
  "in_session = partS us_session (\<lambda>x s. s\<lparr>us_session := x\<rparr>)"

subsection \<open>Small helpers\<close>

definition up_result :: "pystr \<Rightarrow> int \<Rightarrow> bool \<Rightarrow> bool option \<Rightarrow> error_code option \<Rightarrow> upload_result" where
  "up_result filename bytes_received success checksum_matched code =
     \<lparr>ur_filename = filename, ur_bytes_received = bytes_received, ur_success = success,
      ur_checksum_matched = checksum_matched, ur_error_code = code\<rparr>"

definition up_fail ::
  "environment \<Rightarrow> pystr \<Rightarrow> int \<Rightarrow> opcode \<Rightarrow> error_code \<Rightarrow> pystr \<Rightarrow> bool option \<Rightarrow> upload_result session_action" where
  "up_fail ev filename bytes_received failed_opcode code message checksum_matched =
     bindS (readS ss_user_id) (\<lambda>user_id.
     bindS (liftS (make_error_frame
       \<lparr>em_failed_opcode = Known failed_opcode, em_error_code = code, em_message = message\<rparr>
       (max_payload ev) user_id)) (\<lambda>fr.
     bindS (session_send ev fr) (\<lambda>_.
     returnS (up_result filename bytes_received False checksum_matched (Some code)))))"

definition os_error_code :: "exc \<Rightarrow> error_code" where
  "os_error_code error = (if is_permission_error error then ACCESS_DENIED else FILE_IO_ERROR)"

definition up_file_failure ::
  "environment \<Rightarrow> pystr \<Rightarrow> int \<Rightarrow> opcode \<Rightarrow> pystr \<Rightarrow> exc \<Rightarrow> upload_result session_action" where
  "up_file_failure ev filename bytes_received failed_opcode context_text error =
     up_fail ev filename bytes_received failed_opcode (os_error_code error)
       (context_text @ lit '': '' @ exc_text error) None"

definition remove_quietly :: "path \<Rightarrow> unit session_action" where
  "remove_quietly p =
     tryS (on_files (unlink True p)) (\<lambda>error. if is_os_error error then returnS () else raiseS error)"

definition send_ack :: "environment \<Rightarrow> opcode \<Rightarrow> int \<Rightarrow> unit session_action" where
  "send_ack ev acknowledged next_offset =
     bindS (readS ss_user_id) (\<lambda>user_id.
     bindS (liftS (make_acknowledgement_frame
       \<lparr>ak_acknowledged_opcode = acknowledged, ak_next_offset = next_offset\<rparr> (max_payload ev) user_id))
       (session_send ev))"

text \<open>\<open>try: act except OSError as error: return _file_failure(...)\<close>\<close>

definition or_file_failure ::
  "environment \<Rightarrow> pystr \<Rightarrow> int \<Rightarrow> opcode \<Rightarrow> pystr \<Rightarrow> 'a session_action \<Rightarrow> 'a upload_flow session_action" where
  "or_file_failure ev filename bytes_received failed_opcode context_text act =
     tryS (bindS act (\<lambda>a. returnS (Proceed a)))
       (\<lambda>error. if is_os_error error
          then bindS (up_file_failure ev filename bytes_received failed_opcode context_text error)
                 (\<lambda>res. returnS (Return res))
          else raiseS error)"

definition fail_with ::
  "environment \<Rightarrow> pystr \<Rightarrow> int \<Rightarrow> opcode \<Rightarrow> error_code \<Rightarrow> pystr \<Rightarrow> bool option \<Rightarrow> 'a upload_flow session_action" where
  "fail_with ev filename bytes_received failed_opcode code message checksum_matched =
     bindS (up_fail ev filename bytes_received failed_opcode code message checksum_matched)
       (\<lambda>res. returnS (Return res))"

fun dict_get :: "(pystr \<times> json) list \<Rightarrow> pystr \<Rightarrow> json option" where
  "dict_get d k = map_of (rev d) k"

fun is_json_int :: "json option \<Rightarrow> bool" where
  "is_json_int (Some (JInt n)) = True"
| "is_json_int _ = False"

fun is_json_str :: "json option \<Rightarrow> bool" where
  "is_json_str (Some (JStr t)) = True"
| "is_json_str _ = False"

fun json_nonnegative :: "json option \<Rightarrow> bool" where
  "json_nonnegative (Some (JInt n)) = (0 \<le> n)"
| "json_nonnegative (Some (JFloat x)) = (0 \<le> x)"
| "json_nonnegative _ = False"

definition json_version_ok :: "json option \<Rightarrow> bool" where
  "json_version_ok v \<longleftrightarrow> v = Some (JInt PART_METADATA_VERSION)
     \<or> v = Some (JFloat (real_of_int PART_METADATA_VERSION))
     \<or> v = Some (JBool True)"

definition valid_metadata_shape :: "(pystr \<times> json) list \<Rightarrow> bool" where
  "valid_metadata_shape metadata \<longleftrightarrow>
     json_version_ok (dict_get metadata (lit ''version''))
     \<and> is_json_str (dict_get metadata (lit ''username''))
     \<and> is_json_str (dict_get metadata (lit ''filename''))
     \<and> is_json_int (dict_get metadata (lit ''total_size''))
     \<and> is_json_int (dict_get metadata (lit ''uploaded_bytes''))
     \<and> json_nonnegative (dict_get metadata (lit ''uploaded_bytes''))
     \<and> json_nonnegative (dict_get metadata (lit ''updated_at_unix''))"

fun json_int :: "json option \<Rightarrow> int" where
  "json_int (Some (JInt n)) = n"
| "json_int _ = 0"

definition metadata_identity_matches :: "(pystr \<times> json) list \<Rightarrow> pystr \<Rightarrow> pystr \<Rightarrow> int \<Rightarrow> bool" where
  "metadata_identity_matches metadata username filename total_size \<longleftrightarrow>
     dict_get metadata (lit ''username'') = Some (JStr username)
     \<and> dict_get metadata (lit ''filename'') = Some (JStr filename)
     \<and> dict_get metadata (lit ''total_size'') = Some (JInt total_size)
     \<and> json_int (dict_get metadata (lit ''uploaded_bytes'')) \<le> total_size"

subsection \<open>Before the transfer\<close>

record upload_plan =
  up_filename :: pystr
  up_total_size :: int
  up_start_offset :: int
  up_target :: path
  up_partial :: path
  up_meta :: path
  up_username :: pystr

definition up_prepare :: "environment \<Rightarrow> frame \<Rightarrow> upload_plan upload_flow session_action" where
  "up_prepare ev fr =
     bindS (liftS (parse_file_upload fr (max_payload ev))) (\<lambda>request.
     let filename = fu_filename request in
     bindS (session_storage_directory ev) (\<lambda>storage.
     bindS (readS ss_files) (\<lambda>fs.
     except_protocol (resolve_namespace_path fs storage filename False False)
       (\<lambda>code message. fail_with ev filename 0 FILE_UPLOAD code message None)
       (\<lambda>target.
         (case get_part_paths target of (partial, meta_path) \<Rightarrow>
          bindF (or_file_failure ev filename 0 FILE_UPLOAD
            (lit ''cannot create the server storage directory'') (on_files (mkdir_parents storage))) (\<lambda>_.
          bindS (readS (\<lambda>s. path_exists (ss_files s) target)) (\<lambda>present.
          if present then
            fail_with ev filename 0 FILE_UPLOAD FILE_EXISTS (lit ''destination file already exists'') None
          else
            bindS (on_files (cleanup_expired_partial_pair partial meta_path (partial_ttl ev))) (\<lambda>_.
            bindS (readS ss_username) (\<lambda>username.
            returnS (Proceed \<lparr>up_filename = filename, up_total_size = fu_total_size request,
              up_start_offset = fu_start_offset request, up_target = target, up_partial = partial,
              up_meta = meta_path,
              up_username = (case username of None \<Rightarrow> [] | Some u \<Rightarrow> u)\<rparr>))))))))))"

definition discard_partial :: "upload_plan \<Rightarrow> unit session_action" where
  "discard_partial plan = bindS (remove_quietly (up_partial plan)) (\<lambda>_. remove_quietly (up_meta plan))"

definition restart_upload :: "upload_plan \<Rightarrow> (int \<times> byte list) upload_flow session_action" where
  "restart_upload plan = bindS (discard_partial plan) (\<lambda>_. returnS (Proceed (0, [])))"

definition mismatch ::
  "environment \<Rightarrow> upload_plan \<Rightarrow> pystr \<Rightarrow> 'a upload_flow session_action" where
  "mismatch ev plan message =
     fail_with ev (up_filename plan) 0 FILE_UPLOAD RESUME_METADATA_MISMATCH message None"

text \<open>The metadata belongs to this request: how much of the partial file can be kept.\<close>

definition up_resume_matching ::
  "environment \<Rightarrow> upload_plan \<Rightarrow> int \<Rightarrow> (int \<times> byte list) upload_flow session_action" where
  "up_resume_matching ev plan meta_bytes =
     bindF (or_file_failure ev (up_filename plan) 0 FILE_UPLOAD (lit ''cannot inspect the partial upload'')
       (on_files (stat_size (up_partial plan)))) (\<lambda>actual_bytes.
     if int actual_bytes > up_total_size plan \<or> meta_bytes > int actual_bytes then
       bindS (discard_partial plan) (\<lambda>_.
       mismatch ev plan (lit ''partial upload size is inconsistent with its metadata''))
     else if meta_bytes = 0 then returnS (Proceed (0, []))
     else
       bindF (or_file_failure ev (up_filename plan) 0 FILE_UPLOAD (lit ''cannot hash the partial upload'')
         (on_files (compute_prefix_hash (up_partial plan) (nat meta_bytes)))) (\<lambda>(hashed, bytes_hashed).
       if int bytes_hashed \<noteq> meta_bytes then
         bindS (discard_partial plan) (\<lambda>_.
         mismatch ev plan (lit ''partial upload prefix is shorter than its metadata''))
       else returnS (Proceed (meta_bytes, hashed))))"

definition up_resume :: "environment \<Rightarrow> upload_plan \<Rightarrow> (int \<times> byte list) upload_flow session_action" where
  "up_resume ev plan =
     bindS (readS ss_files) (\<lambda>fs.
     if is_symlink fs (up_partial plan) \<or> is_symlink fs (up_meta plan) then restart_upload plan
     else if path_exists fs (up_partial plan) \<noteq> path_exists fs (up_meta plan) then restart_upload plan
     else if path_exists fs (up_partial plan) then
       bindS (on_files (load_part_metadata ev (up_meta plan))) (\<lambda>loaded.
       case loaded of
         None \<Rightarrow> restart_upload plan
       | Some meta \<Rightarrow>
           if \<not> valid_metadata_shape meta then restart_upload plan
           else if \<not> metadata_identity_matches meta (up_username plan) (up_filename plan)
                     (up_total_size plan) then
             (if up_start_offset plan \<noteq> 0 then
                mismatch ev plan (lit ''partial upload metadata does not match the request'')
              else restart_upload plan)
           else up_resume_matching ev plan (json_int (dict_get meta (lit ''uploaded_bytes''))))
     else returnS (Proceed (0, [])))"

definition up_open :: "environment \<Rightarrow> upload_plan \<Rightarrow> int \<Rightarrow> path upload_flow session_action" where
  "up_open ev plan received =
     or_file_failure ev (up_filename plan) received FILE_UPLOAD (lit ''cannot open the partial upload file'')
       (bindS (readS (\<lambda>s. path_exists (ss_files s) (up_partial plan))) (\<lambda>present.
        on_files (if present then open_existing (up_partial plan) else open_truncating (up_partial plan))))"

subsection \<open>The transfer\<close>

definition save_progress :: "environment \<Rightarrow> upload_plan \<Rightarrow> int \<Rightarrow> unit session_action" where
  "save_progress ev plan received =
     on_files (save_part_metadata ev (up_meta plan) (up_total_size plan) received
       (up_username plan) (up_filename plan))"

definition up_start :: "environment \<Rightarrow> upload_plan \<Rightarrow> path \<Rightarrow> int \<Rightarrow> unit session_action" where
  "up_start ev plan output resume_offset =
     bindS (on_files (truncate_handle output (nat resume_offset))) (\<lambda>_.
     bindS (save_progress ev plan resume_offset) (\<lambda>_.
     send_ack ev FILE_UPLOAD resume_offset))"

datatype turn = Again | Complete

definition set_clean :: "unit upload_action" where
  "set_clean = updateS (\<lambda>s. s\<lparr>us_clean := True\<rparr>)"

definition up_abort ::
  "environment \<Rightarrow> upload_plan \<Rightarrow> opcode \<Rightarrow> error_code \<Rightarrow> pystr \<Rightarrow> bool option \<Rightarrow> 'a upload_flow upload_action" where
  "up_abort ev plan failed_opcode code message checksum_matched =
     bindS (readS us_received) (\<lambda>received.
     in_session (fail_with ev (up_filename plan) received failed_opcode code message checksum_matched))"

definition up_clean_abort ::
  "environment \<Rightarrow> upload_plan \<Rightarrow> opcode \<Rightarrow> error_code \<Rightarrow> pystr \<Rightarrow> bool option \<Rightarrow> 'a upload_flow upload_action" where
  "up_clean_abort ev plan failed_opcode code message checksum_matched =
     bindS set_clean (\<lambda>_. up_abort ev plan failed_opcode code message checksum_matched)"

definition or_up_failure ::
  "environment \<Rightarrow> upload_plan \<Rightarrow> opcode \<Rightarrow> pystr \<Rightarrow> 'a session_action \<Rightarrow> 'a upload_flow upload_action" where
  "or_up_failure ev plan failed_opcode context_text act =
     bindS (readS us_received) (\<lambda>received.
     in_session (or_file_failure ev (up_filename plan) received failed_opcode context_text act))"

definition up_chunk :: "environment \<Rightarrow> upload_plan \<Rightarrow> path \<Rightarrow> frame \<Rightarrow> turn upload_flow upload_action" where
  "up_chunk ev plan output fr =
     except_protocol (parse_file_chunk fr (chunk_size ev) (max_payload ev))
       (\<lambda>code message. up_clean_abort ev plan FILE_CHUNK code message None)
       (\<lambda>chunk.
          bindS (readS us_received) (\<lambda>received.
          let data = fc_data chunk; size64 = int (length data) in
          if fc_offset chunk \<noteq> received then
            up_abort ev plan FILE_CHUNK OFFSET_MISMATCH
              (lit ''expected chunk offset '' @ dec_int received @ lit '', got ''
                @ dec_int (fc_offset chunk)) None
          else if received + size64 > up_total_size plan then
            up_clean_abort ev plan FILE_CHUNK SIZE_MISMATCH
              (lit ''chunk data exceeds the declared upload size'') None
          else
            bindF (or_up_failure ev plan FILE_CHUNK (lit ''cannot write the partial upload'')
              (bindS (on_files (write_handle output (nat received) data)) (\<lambda>_.
               on_files (flush_handle output)))) (\<lambda>_.
            bindS (updateS (\<lambda>s. s\<lparr>us_digest := us_digest s @ data, us_received := us_received s + size64\<rparr>)) (\<lambda>_.
            bindS (in_session (consume_bandwidth size64)) (\<lambda>_.
            bindS (in_session (save_progress ev plan (received + size64))) (\<lambda>_.
            returnS (Proceed Again)))))))"

definition up_checksum :: "environment \<Rightarrow> upload_plan \<Rightarrow> path \<Rightarrow> frame \<Rightarrow> turn upload_flow upload_action" where
  "up_checksum ev plan output fr =
     except_protocol (parse_file_checksum fr (max_payload ev))
       (\<lambda>code message. up_clean_abort ev plan FILE_CHECKSUM code message None)
       (\<lambda>checksum.
          bindS (readS (\<lambda>s. (us_received s, us_digest s))) (\<lambda>(received, hashed).
          if received \<noteq> up_total_size plan \<or> fk_final_size checksum \<noteq> up_total_size plan then
            up_clean_abort ev plan FILE_CHECKSUM SIZE_MISMATCH
              (lit ''received and declared upload sizes do not match'') None
          else if fk_sha256_digest checksum \<noteq> ev_sha256 ev hashed then
            up_clean_abort ev plan FILE_CHECKSUM CHECKSUM_MISMATCH
              (lit ''upload SHA-256 does not match'') (Some False)
          else
            bindF (or_up_failure ev plan FILE_CHECKSUM (lit ''cannot flush the partial upload'')
              (bindS (on_files (flush_handle output)) (\<lambda>_. on_files (flush_handle output)))) (\<lambda>_.
            returnS (Proceed Complete))))"

definition up_turn :: "environment \<Rightarrow> upload_plan \<Rightarrow> path \<Rightarrow> turn upload_flow upload_action" where
  "up_turn ev plan output =
     bindS (in_session (session_receive ev)) (\<lambda>fr.
     if fr_opcode fr = FILE_CHUNK then up_chunk ev plan output fr
     else if fr_opcode fr = FILE_CHECKSUM then up_checksum ev plan output fr
     else up_clean_abort ev plan (fr_opcode fr) INVALID_STATE
       (lit ''unexpected '' @ opcode_name (fr_opcode fr) @ lit '' during UPLOAD'') None)"

subsection \<open>The loop ends\<close>

definition upload_step :: "upload_state \<Rightarrow> upload_state \<Rightarrow> bool" where
  "upload_step s t \<longleftrightarrow> transfer_step (us_session s) (us_session t)"

interpretation upload: step_relation upload_step
  by unfold_locales (auto simp: upload_step_def intro: transfer.R_refl transfer.R_trans)

lemma upload_in_session: "transfer.keeps a \<Longrightarrow> upload.keeps (in_session a)"
  by (rule upload.keepsI)
    (auto simp: in_session_def partS_def upload_step_def split: prod.splits dest: transfer.keepsD)

lemma upload_locals:
  "upload.keeps set_clean"
  "upload.keeps (updateS (\<lambda>s. s\<lparr>us_digest := us_digest s @ data, us_received := us_received s + n\<rparr>))"
  by (simp_all add: upload.keeps_def set_clean_def updateS_def upload_step_def transfer.R_refl)

lemma transfer_helpers:
  "transfer.keeps (up_fail ev name n op code msg m)" "transfer.keeps (remove_quietly p)"
  "transfer.keeps (fail_with ev name n op code msg m)" "transfer.keeps (save_progress ev plan n)"
  "transfer.keeps (send_ack ev op n)" "transfer.keeps (discard_partial plan)"
  unfolding up_fail_def remove_quietly_def fail_with_def save_progress_def send_ack_def discard_partial_def
  by (intro transfer_intros)+

lemma transfer_or_file_failure:
  "transfer.keeps act \<Longrightarrow> transfer.keeps (or_file_failure ev name n op txt act)"
  unfolding or_file_failure_def up_file_failure_def by (intro transfer_intros transfer_helpers)

lemma except_keeps:
  "(\<And>c t. upload.keeps (h c t)) \<Longrightarrow> (\<And>a. upload.keeps (k a)) \<Longrightarrow>
     upload.keeps (except_protocol r h k)"
  unfolding except_protocol_def by (intro upload.keep_intros)

lemma upload_abort_keeps:
  "upload.keeps (up_abort ev plan op code msg m)" "upload.keeps (up_clean_abort ev plan op code msg m)"
  unfolding up_abort_def up_clean_abort_def
  by (intro upload.keep_intros upload_in_session upload_locals transfer_helpers)+

lemma upload_failure_keeps: "transfer.keeps act \<Longrightarrow> upload.keeps (or_up_failure ev plan op txt act)"
  unfolding or_up_failure_def
  by (intro upload.keep_intros upload_in_session transfer_or_file_failure)

lemmas upload_intros = upload.keep_intros except_keeps upload_in_session upload_locals
  upload_abort_keeps upload_failure_keeps transfer_helpers transfer_intros

lemma up_chunk_keeps: "upload.keeps (up_chunk ev plan output fr)"
  unfolding up_chunk_def Let_def by (intro upload_intros)

lemma up_checksum_keeps: "upload.keeps (up_checksum ev plan output fr)"
  unfolding up_checksum_def Let_def by (intro upload_intros)

lemma up_turn_keeps: "upload.keeps (up_turn ev plan output)"
  unfolding up_turn_def by (intro upload_intros up_chunk_keeps up_checksum_keeps)

lemma up_turn_consumes:
  assumes "up_turn ev plan output s = (Inr x, t)"
  shows "length (pending (ss_socket (us_session t))) < length (pending (ss_socket (us_session s)))"
proof -
  define act where "act = (\<lambda>fr. if fr_opcode fr = FILE_CHUNK then up_chunk ev plan output fr
      else if fr_opcode fr = FILE_CHECKSUM then up_checksum ev plan output fr
      else up_clean_abort ev plan (fr_opcode fr) INVALID_STATE
        (lit ''unexpected '' @ opcode_name (fr_opcode fr) @ lit '' during UPLOAD'') None)"
  have keeps: "upload.keeps (act fr)" for fr
    unfolding act_def by (intro upload_intros up_chunk_keeps up_checksum_keeps)
  obtain fr s1 where rc: "session_receive ev (us_session s) = (Inr fr, s1)"
    and rest: "act fr (s\<lparr>us_session := s1\<rparr>) = (Inr x, t)"
    using assms unfolding up_turn_def act_def [symmetric]
    by (auto simp: bindS_eq_Inr in_session_def partS_def split: prod.splits)
  have "upload_step (s\<lparr>us_session := s1\<rparr>) t" by (rule upload.keepsD [OF keeps rest])
  then show ?thesis
    using session_receive_progress [OF rc] by (simp add: upload_step_def transfer_step_def)
qed

function upload_loop :: "environment \<Rightarrow> upload_plan \<Rightarrow> path \<Rightarrow> unit upload_flow upload_action" where
  "upload_loop ev plan output s =
     (case up_turn ev plan output s of
        (Inl e, t) \<Rightarrow> (Inl e, t)
      | (Inr (Return res), t) \<Rightarrow> (Inr (Return res), t)
      | (Inr (Proceed Complete), t) \<Rightarrow> (Inr (Proceed ()), t)
      | (Inr (Proceed Again), t) \<Rightarrow> upload_loop ev plan output t)"
  by pat_completeness auto
termination
  by (relation "measure (\<lambda>(ev, plan, output, s). length (pending (ss_socket (us_session s))))")
    (simp, simp, metis up_turn_consumes)

declare upload_loop.simps [simp del]

subsection \<open>Publication and the whole handler\<close>

definition set_published :: "bool \<Rightarrow> unit upload_action" where
  "set_published b = updateS (\<lambda>s. s\<lparr>us_published := b\<rparr>)"

definition up_withdraw :: "upload_plan \<Rightarrow> unit upload_action" where
  "up_withdraw plan =
     bindS (readS us_published) (\<lambda>published.
     if published then
       bindS (in_session (remove_quietly (up_target plan))) (\<lambda>_. set_published False)
     else returnS ())"

definition publish_rest :: "upload_plan \<Rightarrow> unit upload_flow upload_action" where
  "publish_rest plan =
     bindS (set_published True) (\<lambda>_.
     bindS (in_session (on_files (unlink False (up_partial plan)))) (\<lambda>_.
     bindS (in_session (remove_quietly (up_meta plan))) (\<lambda>_.
     returnS (Proceed ()))))"

text \<open>The \<open>except\<close> clauses of the publication.\<close>

definition publish_failure :: "environment \<Rightarrow> upload_plan \<Rightarrow> exc \<Rightarrow> unit upload_flow upload_action" where
  "publish_failure ev plan error =
     (if is_file_exists_error error then
        bindS (up_withdraw plan) (\<lambda>_.
        up_clean_abort ev plan FILE_CHECKSUM FILE_EXISTS
          (lit ''destination appeared while the upload was in progress'') None)
      else if is_os_error error then
        bindS (up_withdraw plan) (\<lambda>_.
        bindS (readS us_received) (\<lambda>received.
        bindS (in_session (up_file_failure ev (up_filename plan) received FILE_CHECKSUM
          (lit ''cannot publish the completed upload'') error)) (\<lambda>res. returnS (Return res))))
      else raiseS error)"

definition up_publish :: "environment \<Rightarrow> upload_plan \<Rightarrow> unit upload_flow upload_action" where
  "up_publish ev plan =
     tryS
       (bindS (in_session (on_files (hard_link (up_partial plan) (up_target plan)))) (\<lambda>_. publish_rest plan))
       (publish_failure ev plan)"

definition up_transfer ::
  "environment \<Rightarrow> upload_plan \<Rightarrow> path \<Rightarrow> int \<Rightarrow> upload_result upload_flow upload_action" where
  "up_transfer ev plan output resume_offset =
     bindS (in_session (up_start ev plan output resume_offset)) (\<lambda>_.
     bindF (upload_loop ev plan output) (\<lambda>_.
     bindF (up_publish ev plan) (\<lambda>_.
     bindS (readS us_received) (\<lambda>received.
     bindS (in_session (send_ack ev FILE_CHECKSUM received)) (\<lambda>_.
     returnS (Proceed (up_result (up_filename plan) received True (Some True) None)))))))"

definition up_finally :: "upload_plan \<Rightarrow> unit upload_action" where
  "up_finally plan =
     bindS (readS (\<lambda>s. us_published s \<or> us_clean s)) (\<lambda>discard.
     if discard then in_session (discard_partial plan) else returnS ())"

definition with_locals :: "(session \<Rightarrow> upload_state) \<Rightarrow> 'a upload_action \<Rightarrow> 'a session_action" where
  "with_locals init act s = (case act (init s) of (r, t) \<Rightarrow> (r, us_session t))"

definition start_locals :: "int \<Rightarrow> byte list \<Rightarrow> session \<Rightarrow> upload_state" where
  "start_locals resume_offset hashed s =
     \<lparr>us_session = s, us_received = resume_offset, us_digest = hashed, us_published = False,
      us_clean = False\<rparr>"

definition handle_upload :: "environment \<Rightarrow> frame \<Rightarrow> upload_result session_action" where
  "handle_upload ev fr =
     bindS
       (bindF (up_prepare ev fr) (\<lambda>plan.
        bindF (up_resume ev plan) (\<lambda>(resume_offset, hashed).
        bindF (up_open ev plan resume_offset) (\<lambda>output.
        with_locals (start_locals resume_offset hashed)
          (finallyS (up_transfer ev plan output resume_offset) (up_finally plan))))))
       (\<lambda>x. returnS (flow_result x))"

subsection \<open>What an upload leaves alone\<close>

lemma upload_loop_keeps: "upload.keeps (upload_loop ev plan output)"
proof (rule upload.keepsI)
  show "upload_loop ev plan output s = (r, t) \<Longrightarrow> upload_step s t" for s r t
  proof (induction ev plan "output" s arbitrary: r t rule: upload_loop.induct)
    case (1 ev plan "output" s)
    obtain q u where turn: "up_turn ev plan output s = (q, u)" by fastforce
    have su: "upload_step s u" by (rule upload.keepsD [OF up_turn_keeps turn])
    show ?case
    proof (cases "q = Inr (Proceed Again)")
      case True
      then have "upload_loop ev plan output u = (r, t)"
        using "1.prems" turn by (simp add: upload_loop.simps [of ev plan "output" s])
      from "1.IH" [OF turn [symmetric] True _ _ this] su show ?thesis
        using upload.R_trans by blast
    next
      case False
      then have "t = u"
        using "1.prems" turn
        by (auto simp: upload_loop.simps [of ev plan "output" s] split: sum.splits flow.splits turn.splits)
      with su show ?thesis by simp
    qed
  qed
qed

lemma upload_set_published: "upload.keeps (set_published b)"
  by (simp add: upload.keeps_def set_published_def updateS_def upload_step_def transfer.R_refl)

lemma transfer_up_file_failure: "transfer.keeps (up_file_failure ev name n op txt error)"
  unfolding up_file_failure_def by (intro transfer_helpers)

lemma up_transfer_keeps:
  "upload.keeps (up_transfer ev plan output off)" "upload.keeps (up_finally plan)"
  unfolding up_transfer_def up_start_def up_publish_def publish_rest_def publish_failure_def up_withdraw_def up_finally_def
  by (intro upload_intros upload_loop_keeps upload_set_published transfer_up_file_failure)+

lemma with_locals_keeps:
  assumes "upload.keeps act" "\<And>s. us_session (init s) = s"
  shows "transfer.keeps (with_locals init act)"
proof (rule transfer.keepsI)
  fix s r t
  assume "with_locals init act s = (r, t)"
  then obtain u where "act (init s) = (r, u)" "t = us_session u"
    by (auto simp: with_locals_def split: prod.splits)
  with upload.keepsD [OF assms(1) this(1)] assms(2) show "transfer_step s t"
    by (simp add: upload_step_def)
qed

lemma transfer_except:
  "(\<And>c t. transfer.keeps (h c t)) \<Longrightarrow> (\<And>a. transfer.keeps (k a)) \<Longrightarrow> transfer.keeps (except_protocol r h k)"
  unfolding except_protocol_def by (intro transfer.keep_intros)

lemma handle_upload_keeps: "transfer.keeps (handle_upload ev fr)"
  unfolding handle_upload_def up_prepare_def up_resume_def up_resume_matching_def up_open_def
    restart_upload_def mismatch_def Let_def
  by (intro transfer_intros transfer_except transfer_helpers transfer_or_file_failure with_locals_keeps
      upload.keep_intros up_transfer_keeps) (simp_all add: start_locals_def)

end
