(* ===== verification/Examples.thy ===== *)
theory Examples
  imports ServerSession
begin

section \<open>Example states for the witnesses\<close>

text \<open>
  A configuration, an environment with a concrete digest function, a registry with one user and a
  session of that user on the files of \<open>example_files\<close>.
\<close>

definition example_config :: app_config where
  "example_config = \<lparr>
     cf_server = \<lparr>sc_bind_address = lit ''127.0.0.1'', sc_port = 9000, sc_storage_directory = [[115]],
       sc_max_clients = 4, sc_partial_ttl_seconds = 60\<rparr>,
     cf_client = \<lparr>cc_server_address = lit ''127.0.0.1'', cc_server_port = 9000,
       cc_connect_timeout_ms = 1000, cc_download_directory = [[100]]\<rparr>,
     cf_network = \<lparr>nc_max_payload_bytes = 1024, nc_chunk_size_bytes = 512,
       nc_bandwidth_limit_kib_per_second = 0\<rparr>,
     cf_auth = \<lparr>ac_max_username_bytes = 32\<rparr>\<rparr>"

definition example_environment :: environment where
  "example_environment = \<lparr>ev_config = example_config, ev_sha256 = (\<lambda>d. replicate 31 0 @ [of_nat (length d)]),
     ev_json_dumps = (\<lambda>j. [123, 125]), ev_json_loads = (\<lambda>d. None)\<rparr>"

definition example_registry_of :: registry where
  "example_registry_of = \<lparr>rg_maximum_user_id = 9,
     rg_sessions = [(1, \<lparr>sn_session_id = 1, sn_peer_address = example_peer, sn_username = Some [97],
       sn_user_id = Some 1\<rparr>)],
     rg_username_owners = [([97], 1)], rg_next_session_id = 2, rg_next_user_id = 2, rg_free_user_ids = []\<rparr>"

definition example_session :: "session_state \<Rightarrow> arrival list \<Rightarrow> session" where
  "example_session st arrivals = \<lparr>ss_socket = \<lparr>inbound = arrivals, outbound = [], send_plan = []\<rparr>,
     ss_socket_open = True, ss_registry = example_registry_of, ss_owns_registry_session = False,
     ss_registry_session_id = 1, ss_bandwidth_limiter = None,
     ss_timing = \<lparr>tm_now = 0, tm_delays = []\<rparr>, ss_state = st,
     ss_username = Some [97], ss_user_id = 1, ss_authenticated = True, ss_clean_disconnect = False,
     ss_peer_address = example_peer, ss_logger = None, ss_has_filename_locks = False, ss_elapsed = 0,
     ss_files = example_files\<rparr>"

lemma example_environment_simps [simp]:
  "max_payload example_environment = 1024" "chunk_size example_environment = 512"
  "storage_root example_environment = [[115]]" "partial_ttl example_environment = 60"
  by (simp_all add: max_payload_def chunk_size_def storage_root_def partial_ttl_def
      example_environment_def example_config_def)

lemma example_session_fields [simp]:
  "ss_state (example_session st arrivals) = st" "ss_files (example_session st arrivals) = example_files"
  "ss_logger (example_session st arrivals) = None" "\<not> ss_clean_disconnect (example_session st arrivals)"
  "\<not> ss_has_filename_locks (example_session st arrivals)" "ss_username (example_session st arrivals) = Some [97]"
  "ss_user_id (example_session st arrivals) = 1" "ss_authenticated (example_session st arrivals)"
  by (simp_all add: example_session_def)

subsection \<open>Whole frames on an undisturbed connection\<close>

lemma send_unlimited:
  assumes "send_plan k = []"
  shows "send_all data k = (Inr (), k\<lparr>outbound := outbound k @ data\<rparr>)"
  by (cases "data = []") (use assms in \<open>simp_all add: send_all_def send_loop.simps sock_send_def\<close>)

definition arriving :: "byte list \<Rightarrow> arrival list \<Rightarrow> arrival list" where
  "arriving bs later = (if bs = [] then later else Segment bs # later)"

lemma recv_exact_arriving:
  assumes "v \<noteq> []" "n = int (length v)"
  shows "recv_exact n (k\<lparr>inbound := arriving (v @ rest) later\<rparr>) = (Inr (Some v), k\<lparr>inbound := arriving rest later\<rparr>)"
  using assms by (simp add: recv_exact_def arriving_def recv_loop.simps sock_recv_def)

lemma receive_arriving:
  assumes wf: "wf_frame maximum fr" and small: "maximum < 2 ^ 32 - 4"
  shows "receive_frame maximum (k\<lparr>inbound := arriving (frame_bytes fr @ rest) later\<rparr>)
     = (Inr (Some fr), k\<lparr>inbound := arriving rest later\<rparr>)"
proof -
  let ?n = "int (length (fr_payload fr))"
  define lb where "lb = pack_uint 4 (4 + ?n)"
  define bh where "bh = pack_uint 2 (opcode_value (fr_opcode fr)) @ pack_uint 2 (fr_user_id fr)"
  have bytes: "frame_bytes fr @ rest = lb @ bh @ fr_payload fr @ rest"
    by (simp add: frame_bytes_def lb_def bh_def)
  have len: "unpack_uint lb = 4 + ?n"
    using wf small by (simp add: lb_def uint_fits_def wf_frame_def)
  have fields: "unpack_uint (take 2 bh) = opcode_value (fr_opcode fr)"
      "unpack_uint (drop 2 bh) = fr_user_id fr"
    using wf_frame_user_id [OF wf] opcode_enum.val_fits by (simp_all add: bh_def)
  have [simp]: "length lb = 4" "length bh = 4" by (simp_all add: lb_def bh_def)
  have "lb \<noteq> []" "bh \<noteq> []" by (simp_all flip: length_greater_0_conv)
  then have r: "recv_exact 4 (k\<lparr>inbound := arriving (lb @ x) later\<rparr>) = (Inr (Some lb), k\<lparr>inbound := arriving x later\<rparr>)"
      "recv_exact 4 (k\<lparr>inbound := arriving (bh @ x) later\<rparr>) = (Inr (Some bh), k\<lparr>inbound := arriving x later\<rparr>)" for x
    by (simp_all add: recv_exact_arriving)
  have r3: "recv_exact ?n (k\<lparr>inbound := arriving (fr_payload fr @ rest) later\<rparr>)
      = (Inr (Some (fr_payload fr)), k\<lparr>inbound := arriving rest later\<rparr>)"
    by (cases "fr_payload fr = []") (simp_all add: recv_exact_arriving, simp add: recv_exact_def)
  have mk: "make_frame_object (fr_opcode fr) (fr_payload fr) (fr_user_id fr) maximum = Inr fr"
    using wf by (simp add: make_frame_object_Inr)
  show ?thesis
    using wf by (simp add: receive_frame_def receive_frame_with_def Let_def bindS_def bytes r r3
        len fields mk wf_frame_def LENGTH_SIZE_BYTES_def FRAME_BODY_HEADER_SIZE_BYTES_def)
qed

text \<open>A session, or a client, that finds whole frames in its stream.\<close>

definition frames_socket :: "frame list \<Rightarrow> byte list \<Rightarrow> sock" where
  "frames_socket frames out = \<lparr>inbound = map (\<lambda>fr. Segment (frame_bytes fr)) frames, outbound = out, send_plan = []\<rparr>"

lemma frame_bytes_ne: "frame_bytes fr \<noteq> []"
  by (simp add: frame_bytes_def flip: length_greater_0_conv)

lemma frames_receive:
  "wf_frame maximum fr \<Longrightarrow> maximum < 2 ^ 32 - 4 \<Longrightarrow>
     receive_frame maximum (frames_socket (fr # frames) out) = (Inr (Some fr), frames_socket frames out)"
  using receive_arriving [where maximum = maximum and fr = fr and k = "frames_socket frames out" and rest = "[]" and later = "inbound (frames_socket frames out)"]
  by (simp add: frames_socket_def arriving_def frame_bytes_ne)

lemma frames_send:
  "wf_frame maximum fr \<Longrightarrow> maximum < 2 ^ 32 - 4 \<Longrightarrow>
     send_frame fr maximum (frames_socket frames out) = (Inr (), frames_socket frames (out @ frame_bytes fr))"
  by (simp add: send_frame_def bindS_def serialize_frame_Inr send_unlimited) (simp add: frames_socket_def send_unlimited)

definition frames_session :: "session_state \<Rightarrow> frame list \<Rightarrow> byte list \<Rightarrow> session" where
  "frames_session st frames out = (example_session st [])\<lparr>ss_socket := frames_socket frames out\<rparr>"

lemma frames_session_fields [simp]:
  "ss_state (frames_session st frames out) = st" "ss_files (frames_session st frames out) = example_files"
  "ss_user_id (frames_session st frames out) = 1" "ss_username (frames_session st frames out) = Some [97]"
  "ss_socket (frames_session st frames out) = frames_socket frames out"
  "ss_bandwidth_limiter (frames_session st frames out) = None"
  by (simp_all add: frames_session_def example_session_def)

lemma frames_session_run:
  assumes "wf_frame 1024 fr" "fr_user_id fr = 1"
  shows "session_send example_environment fr (frames_session st frames out)
      = (Inr (), frames_session st frames (out @ frame_bytes fr))"
    and "st \<noteq> AUTHENTICATING \<Longrightarrow> session_receive example_environment (frames_session st (fr # frames) out)
      = (Inr fr, frames_session st frames out)"
  using assms
  by (simp_all add: session_send_def session_receive_def bindS_def readS_def tryS_def on_socket_apply Let_def
      frames_send frames_receive) (simp_all add: frames_session_def)

end
