(* ===== verification/FileSteps.thy ===== *)
theory FileSteps
  imports Namespace
begin

section \<open>What file operations leave alone\<close>

text \<open>
  Facts the transfer proofs of server and client share: which nodes a call can change, that
  a path free of symbolic links stays so, and what opening, linking and \<open>mkdir\<close> do.
\<close>

subsection \<open>Operations that spare some nodes\<close>

text \<open>\<open>spares A\<close>: nodes outside \<open>A\<close> are unchanged and no symbolic link appears.\<close>

definition spares :: "path set \<Rightarrow> file_system \<Rightarrow> file_system \<Rightarrow> bool" where
  "spares A fs fs' \<longleftrightarrow> (\<forall>q. q \<notin> A \<longrightarrow> node_at fs' q = node_at fs q)
     \<and> (\<forall>q. is_symlink fs' q \<longrightarrow> is_symlink fs q)"

interpretation sparing: step_relation "spares A" for A
  by unfold_locales (auto simp: spares_def)

lemma spares_same: "same_nodes fs fs' \<Longrightarrow> spares A fs fs'"
  by (simp add: spares_def same_nodes_at lookup_same_nodes)

lemma spares_mono: "spares A fs fs' \<Longrightarrow> A \<subseteq> B \<Longrightarrow> spares B fs fs'"
  by (auto simp: spares_def)

lemma spares_set:
  "\<forall>target. x \<noteq> Symlink target \<Longrightarrow> p \<in> A \<Longrightarrow> spares A fs (set_node p x fs)"
  by (cases x) (auto simp: spares_def is_symlink_def)

lemma spares_drop: "p \<in> A \<Longrightarrow> spares A fs (drop_node p fs)"
  by (auto simp: spares_def is_symlink_def)

lemma spares_after: "same_nodes fs fs1 \<Longrightarrow> spares A fs1 fs2 \<Longrightarrow> spares A fs fs2"
  using spares_same sparing.R_trans by blast

lemma spares_os_call:
  assumes "\<And>fs. spares A fs (snd (act fs))"
  shows "sparing.keeps A (os_call act)"
proof (rule sparing.keepsI)
  fix fs r fs'
  assume "os_call act fs = (r, fs')"
  then show "spares A fs fs'"
  proof (cases rule: os_callE)
    case (fault f)
    then show ?thesis by (simp add: spares_same)
  next
    case (run fs1)
    then show ?thesis using spares_after [OF run(1)] assms [of fs1] by simp
  qed
qed

lemma sparing_unlink: "p \<in> A \<Longrightarrow> sparing.keeps A (unlink missing_ok p)"
  unfolding unlink_def
  by (rule spares_os_call) (auto simp: spares_drop sparing.R_refl split: option.split node.split)

lemma sparing_truncate: "p \<in> A \<Longrightarrow> sparing.keeps A (truncate_handle p n)"
  unfolding truncate_handle_def by (rule spares_os_call) (simp add: Let_def spares_set)

lemma sparing_write: "p \<in> A \<Longrightarrow> sparing.keeps A (write_handle p n data)"
  unfolding write_handle_def by (rule spares_os_call) (simp add: Let_def spares_set)

lemma sparing_readers:
  "sparing.keeps A (stat_size p)" "sparing.keeps A (stat_mtime p)" "sparing.keeps A (open_existing p)"
  "sparing.keeps A (read_handle p n m)" "sparing.keeps A (flush_handle p)"
  unfolding stat_size_def stat_mtime_def open_existing_def read_handle_def flush_handle_def
  by (rule spares_os_call, auto simp: sparing.R_refl split: option.split node.split)+

lemma canonical_spared: "spares A fs fs' \<Longrightarrow> canonical fs p \<Longrightarrow> canonical fs' p"
  by (auto simp: canonical_def spares_def)

lemma open_existing_canonical:
  assumes "open_existing p fs = (Inr q, fs')" "canonical fs p"
  shows "q = p \<and> same_nodes fs fs'"
  using assms(1) unfolding open_existing_def
proof (cases rule: os_callE)
  case (fault f)
  then show ?thesis by simp
next
  case (run fs1)
  have "resolve fs1 p = Some p"
    using lookup_same_nodes(1) [OF run(1), of p] canonical_resolve [OF assms(2)] by simp
  with run show ?thesis by (auto split: option.splits node.splits)
qed

lemma open_existing_Inr:
  "open_existing p fs = (Inr q, fs') \<Longrightarrow> resolve fs p = Some q \<and> same_nodes fs fs'
     \<and> (\<exists>d t. node_at fs q = Some (RegularFile d t))"
  unfolding open_existing_def
  by (auto elim!: os_callE simp: lookup_same_nodes(1) same_nodes_at split: option.splits node.splits)

subsection \<open>Linking and making directories\<close>

lemma hard_link_Inr:
  assumes "hard_link source target fs = (Inr u, fs')" "node_at fs source = Some (RegularFile d t)"
  shows "node_at fs target = None \<and> node_at fs' target = Some (RegularFile d t)"
  using assms(1) unfolding hard_link_def
proof (cases rule: os_callE)
  case (fault f)
  then show ?thesis by simp
next
  case (run fs1)
  then show ?thesis using assms(2) by (auto simp: same_nodes_at [OF run(1)] split: if_splits)
qed

lemma hard_link_Inl: "hard_link source target fs = (Inl e, fs') \<Longrightarrow> same_nodes fs fs'"
  unfolding hard_link_def
  by (elim os_callE) (auto split: option.splits node.splits if_splits)

text \<open>\<open>mkdir\<close> only turns missing nodes into directories.\<close>

definition grows :: "file_system \<Rightarrow> file_system \<Rightarrow> bool" where
  "grows fs fs' \<longleftrightarrow> (\<forall>q. node_at fs' q = node_at fs q \<or> node_at fs q = None \<and> node_at fs' q = Some Directory)"

interpretation growing: step_relation grows
proof
  show "grows s s" for s by (simp add: grows_def)
  show "grows s u" if "grows s t" "grows t u" for s t u
    unfolding grows_def
  proof
    fix q
    from that show "node_at u q = node_at s q \<or> node_at s q = None \<and> node_at u q = Some Directory"
      unfolding grows_def by (elim allE [of _ q]) auto
  qed
qed

lemma make_dirs_grows: "make_dirs d cs fs = (r, fs') \<Longrightarrow> grows fs fs'"
proof (induction d cs fs rule: make_dirs.induct)
  case (1 d fs)
  then show ?case by (simp add: growing.R_refl)
next
  case (2 d c cs fs)
  show ?case
  proof (cases "followed fs (d @ [c])")
    case None
    show ?thesis
    proof (cases "node_at fs (d @ [c])")
      case (Some x)
      then show ?thesis using "2.prems" None by (simp add: growing.R_refl)
    next
      case None': None
      have "grows fs (set_node (d @ [c]) Directory fs)" using None' by (simp add: grows_def)
      moreover have "grows (set_node (d @ [c]) Directory fs) fs'"
        using "2.IH"(1) "2.prems" None None' by simp
      ultimately show ?thesis by (rule growing.R_trans)
    qed
  next
    case (Some x)
    then show ?thesis using "2.IH"(2) "2.prems" by (cases x) (auto simp: growing.R_refl)
  qed
qed

lemma grows_same: "same_nodes fs fs' \<Longrightarrow> grows fs fs'"
  by (simp add: grows_def same_nodes_at)

lemma mkdir_parents_grows: "mkdir_parents p fs = (r, fs') \<Longrightarrow> grows fs fs'"
  unfolding mkdir_parents_def
  by (elim os_callE) (auto intro: grows_same growing.R_trans make_dirs_grows)

lemma canonical_grows: "grows fs fs' \<Longrightarrow> canonical fs p \<Longrightarrow> canonical fs' p"
proof -
  assume g: "grows fs fs'"
  have "is_symlink fs' q \<Longrightarrow> is_symlink fs q" for q
    using g by (auto simp: grows_def is_symlink_def dest: spec [of _ q])
  then show "canonical fs p \<Longrightarrow> canonical fs' p" by (auto simp: canonical_def)
qed

lemma hard_link_spares:
  assumes "hard_link source target fs = (Inr u, fs')" "node_at fs source = Some (RegularFile d t)"
  shows "spares {target} fs fs'"
  using assms(1) unfolding hard_link_def
proof (cases rule: os_callE)
  case (fault f)
  then show ?thesis by simp
next
  case (run fs1)
  have "spares {target} fs1 fs'"
    using run(2) assms(2) by (auto simp: same_nodes_at [OF run(1)] intro: spares_set split: if_splits)
  then show ?thesis by (rule spares_after [OF run(1)])
qed

text \<open>\<open>open(p, "ab")\<close> keeps what is there.\<close>

lemma open_appending_canonical:
  assumes "open_appending p fs = (Inr q, fs')" "canonical fs p"
  shows "q = p \<and> spares {p} fs fs' \<and> (\<exists>t. node_at fs' p = Some (RegularFile (file_data fs p) t))"
  using assms(1) unfolding open_appending_def
proof (cases rule: os_callE)
  case (fault f)
  then show ?thesis by simp
next
  case (run fs1)
  have res: "resolve fs1 p = Some p" "node_at fs1 p = node_at fs p"
    using lookup_same_nodes(1) [OF run(1), of p] canonical_resolve [OF assms(2)] by (simp_all add: same_nodes_at [OF run(1)])
  have "q = p \<and> spares {p} fs1 fs' \<and> (\<exists>t. node_at fs' p = Some (RegularFile (file_data fs p) t))"
    using run(2) res
    by (auto simp: file_data_def spares_set sparing.R_refl split: option.splits node.splits)
  then show ?thesis using spares_after [OF run(1)] by blast
qed

text \<open>\<open>retains A\<close>: what existed outside \<open>A\<close> is as it was.\<close>

definition retains :: "path set \<Rightarrow> file_system \<Rightarrow> file_system \<Rightarrow> bool" where
  "retains A fs fs' \<longleftrightarrow> (\<forall>p. p \<notin> A \<longrightarrow> node_at fs p \<noteq> None \<longrightarrow> node_at fs' p = node_at fs p)"

interpretation retaining: step_relation "retains A" for A
  by unfold_locales (auto simp: retains_def)

lemma retains_grows: "grows fs fs' \<Longrightarrow> retains A fs fs'"
  by (auto simp: grows_def retains_def)

lemma retains_spares: "spares A fs fs' \<Longrightarrow> A \<subseteq> B \<Longrightarrow> retains B fs fs'"
  by (auto simp: spares_def retains_def)

end
