(* ===== verification/UploadSafety.thy ===== *)
theory UploadSafety
  imports Upload Examples FileSteps
begin

section \<open>An upload publishes only verified data\<close>

text \<open>
  The proof that \<open>handle_upload\<close> never lets an unverified or partial file appear under the
  target name, whatever the peer sends, wherever the stream breaks and whichever file operation
  fails.  It follows the code by weakest preconditions.
\<close>

subsection \<open>Names of one upload\<close>

definition temporary_of :: "path \<Rightarrow> path set" where
  "temporary_of meta = {q. \<exists>x. q = parent meta @ [(lit ''.'' @ path_name meta @ lit ''.'') @ x @ lit ''.tmp'']}"

lemma part_paths_distinct:
  assumes "get_part_paths target = (partial, meta)"
  shows "partial \<noteq> target" "meta \<noteq> target" "meta \<noteq> partial"
    "target \<notin> temporary_of meta" "partial \<notin> temporary_of meta"
    "path_name meta = path_name target @ lit ''.part.meta''"
    "path_name partial = path_name target @ lit ''.part''"
    "butlast partial = butlast target" "butlast meta = butlast target" "meta \<noteq> []" "partial \<noteq> []"
proof -
  have p: "partial = with_name target (path_name target @ lit ''.part'')"
    and m: "meta = with_name target (path_name target @ lit ''.part.meta'')"
    using assms by (simp_all add: get_part_paths_def)
  show names: "path_name meta = path_name target @ lit ''.part.meta''"
      "path_name partial = path_name target @ lit ''.part''"
    by (simp_all add: p m)
  have lens: "length (path_name partial) > length (path_name target)"
      "length (path_name meta) > length (path_name partial)"
    by (simp_all add: names lit_def)
  then show "partial \<noteq> target" "meta \<noteq> target" "meta \<noteq> partial" by auto
  have "q \<in> temporary_of meta \<Longrightarrow> length (path_name q) > length (path_name meta)" for q
    by (auto simp: temporary_of_def path_name_def lit_def)
  with lens show "target \<notin> temporary_of meta" "partial \<notin> temporary_of meta" by fastforce+
  show "butlast partial = butlast target" "butlast meta = butlast target" "meta \<noteq> []" "partial \<noteq> []"
    by (simp_all add: p m with_name_def)
qed

subsection \<open>File operations that spare some nodes\<close>

lemma sparing_hash_loop: "sparing.keeps A (hash_loop p n hashed)"
proof (rule sparing.keepsI)
  show "hash_loop p n hashed fs = (r, fs') \<Longrightarrow> spares A fs fs'" for fs r fs'
  proof (induction p n hashed fs arbitrary: r fs' rule: hash_loop.induct)
    case (1 p n hashed fs)
    obtain q fs1 where rd: "read_handle p (length hashed) (min n HASH_CHUNK) fs = (q, fs1)" by fastforce
    have s1: "spares A fs fs1" using sparing.keepsD [OF sparing_readers(4) rd] .
    show ?case
    proof (cases "n = 0 \<or> (\<exists>e. q = Inl e) \<or> q = Inr []")
      case True
      then show ?thesis
        using "1.prems" s1 rd by (auto simp: hash_loop.simps [of p n hashed fs] sparing.R_refl split: if_splits)
    next
      case False
      then obtain chunk where q: "q = Inr chunk" "chunk \<noteq> []" "n \<noteq> 0" by (cases q) auto
      then have "hash_loop p (n - length chunk) (hashed @ chunk) fs1 = (r, fs')"
        using "1.prems" rd by (simp add: hash_loop.simps [of p n hashed fs])
      from "1.IH" [OF q(3) rd [symmetric] q(1,2) this] s1 show ?thesis by (rule sparing.R_trans [rotated])
    qed
  qed
qed

lemma sparing_hash: "sparing.keeps A (compute_prefix_hash p n)"
  unfolding compute_prefix_hash_def by (intro sparing.keep_intros sparing_readers sparing_hash_loop)

lemma sparing_load: "sparing.keeps A (load_part_metadata ev p)"
  unfolding load_part_metadata_def by (intro sparing.keep_intros sparing_readers)

lemma sparing_remove: "fst ` set xs \<subseteq> A \<Longrightarrow> sparing.keeps A (remove_members xs)"
proof (induction xs)
  case Nil
  show ?case unfolding remove_members.simps by (rule sparing.keeps_return)
next
  case (Cons x xs)
  obtain p t where "x = (p, t)" by fastforce
  with Cons show ?case
    by (simp only: remove_members.simps) (intro sparing.keep_intros sparing_unlink, auto)
qed

lemma sparing_cleanup_pair:
  assumes "p \<in> A" "m \<in> A"
  shows "sparing.keeps A (cleanup_expired_partial_pair p m ttl)"
proof (rule sparing.keepsI)
  fix fs r fs'
  assume run: "cleanup_expired_partial_pair p m ttl fs = (r, fs')"
  obtain q fs1 where ex: "existing_members [p, m] fs = (q, fs1)" by fastforce
  from existing_members_spec [OF ex] obtain xs where xs: "q = Inr xs" "same_nodes fs fs1"
      "\<forall>(p', t) \<in> set xs. p' \<in> set [p, m]"
    by fast
  have "fst ` set xs \<subseteq> A" using xs(3) assms by auto
  then have rm: "spares A fs1 (snd (remove_members xs fs1))"
    using sparing_remove by (simp add: sparing.keeps_def)
  have "fs' = fs \<or> fs' = fs1 \<or> fs' = snd (remove_members xs fs1)"
    using run ex xs(1)
    by (auto simp: cleanup_expired_partial_pair_def bindS_def readS_def split: if_splits prod.splits sum.splits)
  then show "spares A fs fs'"
    using spares_same [OF xs(2)] rm sparing.R_refl sparing.R_trans by metis
qed

subsection \<open>Saving the metadata\<close>

lemma pick_temporary_spec:
  "pick_temporary dir pre suf names fs = (r, fs') \<Longrightarrow>
     (case r of Inl e \<Rightarrow> spares A fs fs'
      | Inr p \<Rightarrow> (\<exists>x. p = dir @ [pre @ x @ suf]) \<and> node_at fs p = None
          \<and> node_at fs' p = Some (RegularFile [] (fs_now fs)) \<and> spares {p} fs fs')"
proof (induction names)
  case Nil
  then show ?case by (auto simp: spares_def is_symlink_def)
next
  case (Cons name names)
  then show ?case
    by (auto simp: Let_def spares_def is_symlink_def split: if_splits)
qed

lemma mkstemp_spec:
  assumes "mkstemp dir pre suf fs = (r, fs')"
  shows "case r of Inl e \<Rightarrow> spares A fs fs'
      | Inr p \<Rightarrow> (\<exists>x. p = dir @ [pre @ x @ suf])
          \<and> (\<exists>t. node_at fs' p = Some (RegularFile [] t)) \<and> spares {p} fs fs'"
  using assms unfolding mkstemp_def
proof (cases rule: os_callE)
  case (fault f)
  then show ?thesis by (simp add: spares_same)
next
  case (run fs1)
  from pick_temporary_spec [OF run(2), of A] show ?thesis
    using spares_after [OF run(1)] by (auto split: sum.splits)
qed

lemma replace_file_spec:
  assumes "replace_file source target fs = (r, fs')" "node_at fs source = Some (RegularFile d t)"
    and "source \<noteq> target"
  shows "spares {source, target} fs fs'
    \<and> (case r of Inl e \<Rightarrow> node_at fs' source = Some (RegularFile d t)
       | Inr u \<Rightarrow> node_at fs' target = Some (RegularFile d t))"
  using assms(1) unfolding replace_file_def
proof (cases rule: os_callE)
  case (fault f)
  then show ?thesis using assms(2) by (simp add: spares_same same_nodes_at)
next
  case (run fs1)
  have src: "node_at fs1 source = Some (RegularFile d t)" using assms(2) by (simp add: same_nodes_at [OF run(1)])
  then have "spares {source, target} fs1 fs' \<and> (case r of Inl e \<Rightarrow> node_at fs' source = Some (RegularFile d t)
       | Inr u \<Rightarrow> node_at fs' target = Some (RegularFile d t))"
    using run(2) assms(3) by (auto simp: spares_def is_symlink_def split: if_splits)
  then show ?thesis using spares_after [OF run(1)] by blast
qed

lemma replace_with_retry_spec:
  "replace_with_retry n source target fs = (r, fs') \<Longrightarrow> node_at fs source = Some (RegularFile d t) \<Longrightarrow>
     source \<noteq> target \<Longrightarrow> spares {source, target} fs fs'
     \<and> (n \<noteq> 0 \<longrightarrow> r = Inr () \<longrightarrow> node_at fs' target = Some (RegularFile d t))"
proof (induction n arbitrary: fs r)
  case 0
  then show ?case by (simp add: sparing.R_refl)
next
  case (Suc n)
  obtain q fs1 where rp: "replace_file source target fs = (q, fs1)" by fastforce
  note sp = replace_file_spec [OF rp Suc.prems(2,3)]
  show ?case
  proof (cases "\<exists>e. q = Inl e \<and> is_os_error e \<and> n \<noteq> 0")
    case True
    then have "replace_with_retry n source target fs1 = (r, fs')"
      using Suc.prems(1) rp by (auto simp: tryS_def)
    from Suc.IH [OF this] sp True Suc.prems(3) show ?thesis
      by (auto split: sum.splits intro: sparing.R_trans)
  next
    case False
    then have "(q, fs1) = (r, fs')"
      using Suc.prems(1) rp by (cases q) (auto simp: tryS_def split: if_splits)
    with sp show ?thesis by (auto split: sum.splits)
  qed
qed

lemma save_part_metadata_spares:
  assumes run: "save_part_metadata ev meta n up user file fs = (r, fs')"
    and fresh: "meta \<notin> temporary_of meta"
  shows "spares (insert meta (temporary_of meta)) fs fs'"
proof -
  let ?A = "insert meta (temporary_of meta)"
  let ?mk = "mkstemp (parent meta) (lit ''.'' @ path_name meta @ lit ''.'') (lit ''.tmp'')"
  obtain q fs1 where mk: "?mk fs = (q, fs1)" by fastforce
  note mks = mkstemp_spec [OF mk, of ?A]
  show ?thesis
  proof (cases q)
    case (Inl e)
    then have "fs' = fs \<or> fs' = fs1"
      using run mk by (auto simp: save_part_metadata_def bindS_def readS_def Let_def split: if_splits)
    then show ?thesis using mks Inl sparing.R_refl by auto
  next
    case (Inr tmp)
    obtain t where tmp: "tmp \<in> temporary_of meta" "node_at fs1 tmp = Some (RegularFile [] t)" "spares ?A fs fs1"
      using mks Inr by (auto simp: temporary_of_def intro: spares_mono)
    let ?data = "metadata_json user file n up (fs_now fs)"
    obtain q2 fs2 where wr: "write_handle tmp 0 (ev_json_dumps ev ?data) fs1 = (q2, fs2)" by fastforce
    have s2: "spares ?A fs1 fs2" and reg: "\<exists>d t. node_at fs2 tmp = Some (RegularFile d t)"
      using wr unfolding write_handle_def
      by (auto elim!: os_callE simp: Let_def same_nodes_at tmp spares_set spares_same
          intro: spares_after)
    let ?rp = "replace_with_retry METADATA_REPLACE_ATTEMPTS tmp meta"
    have s3: "spares ?A fs2 (snd (?rp fs2))"
      using reg replace_with_retry_spec [of _ tmp meta fs2 "fst (?rp fs2)" "snd (?rp fs2)"] tmp(1) fresh
      by (auto intro: spares_mono)
    have un: "spares ?A x (snd (unlink True tmp x))" for x
      using sparing_unlink [of tmp ?A] tmp(1) by (simp add: sparing.keeps_def)
    have "fs' = fs \<or> fs' = snd (unlink True tmp fs2) \<or> fs' = snd (unlink True tmp (snd (?rp fs2)))"
      using run mk Inr wr
      by (auto simp: save_part_metadata_def bindS_def readS_def Let_def finallyS_def
          split: if_splits prod.splits sum.splits)
    then show ?thesis
      using sparing.R_refl un sparing.R_trans [OF sparing.R_trans [OF tmp(3) s2]]
        sparing.R_trans [OF s3] by metis
  qed
qed

subsection \<open>Steps of a session that spare some nodes\<close>

definition stream_step :: "sock \<Rightarrow> sock \<Rightarrow> bool" where
  "stream_step k k' \<longleftrightarrow> (delivers k \<longrightarrow> delivers k' \<and> (\<exists>pre. pending k = pre @ pending k'))"

lemma stream_step_trans: "stream_step a b \<Longrightarrow> stream_step b c \<Longrightarrow> stream_step a c"
  unfolding stream_step_def by (metis append.assoc)

lemma stream_same: "inbound k' = inbound k \<Longrightarrow> stream_step k k'"
  by (simp add: stream_step_def delivers_def pending_def)

definition drops_front :: "byte list \<Rightarrow> byte list \<Rightarrow> bool" where
  "drops_front a b \<longleftrightarrow> (\<exists>pre. a = pre @ b)"

interpretation front: step_relation drops_front
  by unfold_locales (auto simp: drops_front_def)

lemma read_exact_front: "front.keeps (read_exact n)"
proof (rule front.keepsI)
  fix bs r bs'
  assume "read_exact n bs = (r, bs')"
  then show "drops_front bs bs'"
    by (auto simp: read_exact_def drops_front_def split: if_splits intro: exI [of _ "take (nat n) bs"])
qed

lemma receive_stream: "receive_frame maximum k = (r, k') \<Longrightarrow> stream_step k k'"
proof -
  assume run: "receive_frame maximum k = (r, k')"
  have "front.keeps (parse_frame maximum)"
    unfolding parse_frame_def receive_frame_with_def Let_def
    by (intro front.keep_intros read_exact_front)
  then show ?thesis
    using receive_frame_parse [OF _ run] front.keepsD by (fastforce simp: stream_step_def drops_front_def)
qed

definition quiet :: "path set \<Rightarrow> session \<Rightarrow> session \<Rightarrow> bool" where
  "quiet A s t \<longleftrightarrow> spares A (ss_files s) (ss_files t) \<and> stream_step (ss_socket s) (ss_socket t)"

interpretation quieting: step_relation "quiet A" for A
proof
  show "quiet A s s" for s by (simp add: quiet_def sparing.R_refl stream_step_def)
  show "quiet A s u" if "quiet A s t" "quiet A t u" for s t u
    using that unfolding quiet_def by (blast intro: sparing.R_trans stream_step_trans)
qed

lemma quiet_files: "sparing.keeps A act \<Longrightarrow> quieting.keeps A (on_files act)"
  by (rule quieting.keepsI)
    (auto simp: on_files_apply quiet_def stream_step_def split: prod.splits dest: sparing.keepsD)

lemma quiet_send: "quieting.keeps A (session_send ev fr)"
  by (rule quieting.keepsI, erule session_sendE)
    (simp add: quiet_def sparing.R_refl stream_same)

lemma quiet_bandwidth: "quieting.keeps A (consume_bandwidth n)"
  by (rule quieting.keepsI)
    (auto simp: consume_bandwidth_def quiet_def sparing.R_refl stream_step_def
      split: option.splits sum.splits prod.splits)

lemma quiet_receive: "quieting.keeps A (session_receive ev)"
proof (rule quieting.keepsI)
  fix s r t
  assume run: "session_receive ev s = (r, t)"
  obtain q k where rf: "receive_frame (max_payload ev) (ss_socket s) = (q, k)" by fastforce
  then have "t = s\<lparr>ss_socket := k\<rparr>"
    using run by (auto simp: session_receive_def bindS_def readS_def tryS_def on_socket_apply Let_def
        split: option.splits if_splits sum.splits prod.splits)
  then show "quiet A s t" by (simp add: quiet_def sparing.R_refl receive_stream [OF rf])
qed

lemma quiet_helpers:
  "quieting.keeps A (up_fail ev name n op code msg m)"
  "quieting.keeps A (fail_with ev name n op code msg m)"
  "quieting.keeps A (send_ack ev op n)" "quieting.keeps A (session_storage_directory ev)"
  "p \<in> A \<Longrightarrow> quieting.keeps A (remove_quietly p)"
  unfolding up_fail_def fail_with_def send_ack_def session_storage_directory_def remove_quietly_def
  by (intro quieting.keep_intros quiet_send quiet_files sparing_unlink | assumption)+

lemma quiet_discard: "up_partial plan \<in> A \<Longrightarrow> up_meta plan \<in> A \<Longrightarrow> quieting.keeps A (discard_partial plan)"
  unfolding discard_partial_def by (intro quieting.keep_intros quiet_helpers)

lemma quiet_or_file_failure:
  "quieting.keeps A act \<Longrightarrow> quieting.keeps A (or_file_failure ev name n op txt act)"
  unfolding or_file_failure_def up_file_failure_def
  by (intro quieting.keep_intros quiet_helpers)

lemma quiet_save:
  assumes "insert (up_meta plan) (temporary_of (up_meta plan)) \<subseteq> A" "up_meta plan \<notin> temporary_of (up_meta plan)"
  shows "quieting.keeps A (save_progress ev plan n)"
  unfolding save_progress_def
  by (intro quiet_files sparing.keepsI)
    (rule spares_mono [OF save_part_metadata_spares [OF _ assms(2)] assms(1)])

subsection \<open>The receive loop\<close>

definition uquiet :: "path set \<Rightarrow> upload_state \<Rightarrow> upload_state \<Rightarrow> bool" where
  "uquiet A s t \<longleftrightarrow> quiet A (us_session s) (us_session t) \<and> us_published t = us_published s"

interpretation uquieting: step_relation "uquiet A" for A
  by unfold_locales (auto simp: uquiet_def intro: quieting.R_refl quieting.R_trans)

lemma uquiet_session: "quieting.keeps A a \<Longrightarrow> uquieting.keeps A (in_session a)"
  by (rule uquieting.keepsI)
    (auto simp: in_session_def partS_def uquiet_def split: prod.splits dest: quieting.keepsD)

lemma uquiet_locals:
  "uquieting.keeps A set_clean"
  "uquieting.keeps A (updateS (\<lambda>s. s\<lparr>us_digest := us_digest s @ data, us_received := us_received s + n\<rparr>))"
  by (simp_all add: uquieting.keeps_def set_clean_def updateS_def uquiet_def quieting.R_refl)

lemma uquiet_except:
  "(\<And>c t. uquieting.keeps A (h c t)) \<Longrightarrow> (\<And>a. uquieting.keeps A (k a)) \<Longrightarrow>
     uquieting.keeps A (except_protocol r h k)"
  unfolding except_protocol_def by (intro uquieting.keep_intros)

lemma uquiet_aborts:
  "uquieting.keeps A (up_abort ev plan op code msg m)"
  "uquieting.keeps A (up_clean_abort ev plan op code msg m)"
  unfolding up_abort_def up_clean_abort_def
  by (intro uquieting.keep_intros uquiet_session uquiet_locals quiet_helpers)+

lemma uquiet_or_failure: "quieting.keeps A act \<Longrightarrow> uquieting.keeps A (or_up_failure ev plan op txt act)"
  unfolding or_up_failure_def
  by (intro uquieting.keep_intros uquiet_session quiet_or_file_failure)

definition upload_area :: "upload_plan \<Rightarrow> path set" where
  "upload_area plan = insert (up_partial plan) (insert (up_meta plan) (temporary_of (up_meta plan)))"

definition paths_ok :: "upload_plan \<Rightarrow> bool" where
  "paths_ok plan \<longleftrightarrow> get_part_paths (up_target plan) = (up_partial plan, up_meta plan)"

lemma paths_okD:
  assumes "paths_ok plan"
  shows "up_target plan \<notin> upload_area plan" "up_partial plan \<in> upload_area plan"
    "up_meta plan \<in> upload_area plan" "up_meta plan \<notin> temporary_of (up_meta plan)"
    "up_partial plan \<notin> insert (up_meta plan) (temporary_of (up_meta plan))"
    "insert (up_meta plan) (temporary_of (up_meta plan)) \<subseteq> upload_area plan"
    "up_partial plan \<noteq> up_target plan"
proof -
  note d = part_paths_distinct [OF assms [unfolded paths_ok_def]]
  have "length (path_name q) > length (path_name (up_meta plan))" if "q \<in> temporary_of (up_meta plan)" for q
    using that by (auto simp: temporary_of_def path_name_def lit_def)
  then show "up_meta plan \<notin> temporary_of (up_meta plan)" by blast
  then show "up_target plan \<notin> upload_area plan" "up_partial plan \<in> upload_area plan"
    "up_meta plan \<in> upload_area plan" "up_partial plan \<noteq> up_target plan"
    "up_partial plan \<notin> insert (up_meta plan) (temporary_of (up_meta plan))"
    "insert (up_meta plan) (temporary_of (up_meta plan)) \<subseteq> upload_area plan"
    using d by (auto simp: upload_area_def)
qed

lemma quiet_save_area: "paths_ok plan \<Longrightarrow> quieting.keeps (upload_area plan) (save_progress ev plan n)"
  by (rule quiet_save [OF paths_okD(6,4)])

lemma up_turn_quiet:
  assumes "paths_ok plan"
  shows "uquieting.keeps (upload_area plan) (up_turn ev plan (up_partial plan))"
  unfolding up_turn_def up_chunk_def up_checksum_def Let_def
  by (intro uquieting.keep_intros uquiet_except uquiet_session uquiet_locals uquiet_aborts
      uquiet_or_failure quieting.keep_intros quiet_files quiet_bandwidth quiet_receive
      quiet_save_area sparing_write sparing_readers paths_okD(2) assms)

definition uploading :: "upload_plan \<Rightarrow> upload_state \<Rightarrow> bool" where
  "uploading plan s \<longleftrightarrow> us_received s = int (length (us_digest s)) \<and> us_published s = False
     \<and> (\<exists>t. node_at (ss_files (us_session s)) (up_partial plan) = Some (RegularFile (us_digest s) t))"

lemma fail_with_return: "fail_with ev name n op code msg m s = (Inr x, t) \<Longrightarrow> \<exists>res. x = Return res"
  by (auto simp: fail_with_def state_simps)

lemma in_session_Inr [state_simps]:
  "in_session a s = (Inr x, t) \<longleftrightarrow> (\<exists>u. a (us_session s) = (Inr x, u) \<and> t = s\<lparr>us_session := u\<rparr>)"
  by (cases "a (us_session s)") (auto simp: in_session_def partS_def)

lemma aborts_return:
  "up_abort ev plan op code msg m s = (Inr x, t) \<Longrightarrow> \<exists>res. x = Return res"
  "up_clean_abort ev plan op code msg m s = (Inr x, t) \<Longrightarrow> \<exists>res. x = Return res"
  by (auto simp: up_clean_abort_def up_abort_def state_simps dest: fail_with_return)

lemma or_up_failure_Proceed:
  assumes "or_up_failure ev plan op txt act s = (Inr (Proceed a), t)"
  shows "act (us_session s) = (Inr a, us_session t) \<and> t = s\<lparr>us_session := us_session t\<rparr>"
proof -
  obtain u where u: "or_file_failure ev (up_filename plan) (us_received s) op txt act (us_session s)
      = (Inr (Proceed a), u)" "t = s\<lparr>us_session := u\<rparr>"
    using assms by (auto simp: or_up_failure_def bindS_def readS_def in_session_def partS_def split: prod.splits)
  then have "act (us_session s) = (Inr a, u)"
    by (auto simp: or_file_failure_def tryS_def bindS_def returnS_def raiseS_def
        split: prod.splits sum.splits if_splits)
  with u(2) show ?thesis by simp
qed

lemma write_handle_Inr:
  assumes "write_handle p n data fs = (Inr u, fs')" "node_at fs p = Some (RegularFile d t)" "n = length d"
  shows "\<exists>t. node_at fs' p = Some (RegularFile (d @ data) t)"
  using assms(1) unfolding write_handle_def
proof (cases rule: os_callE)
  case (fault f)
  then show ?thesis by simp
next
  case (run fs1)
  have "file_data fs1 p = d" using assms(2) by (simp add: file_data_def same_nodes_at [OF run(1)])
  with run(2) assms(3) show ?thesis by (auto simp: Let_def)
qed

lemma node_spared: "quiet A s t \<Longrightarrow> q \<notin> A \<Longrightarrow> node_at (ss_files t) q = node_at (ss_files s) q"
  by (simp add: quiet_def spares_def)

lemma write_flush_Inr:
  assumes "bindS (on_files (write_handle p n data)) (\<lambda>_. on_files (flush_handle p)) s = (Inr u, t)"
    and "node_at (ss_files s) p = Some (RegularFile d tm)" "n = length d"
  shows "\<exists>tm. node_at (ss_files t) p = Some (RegularFile (d @ data) tm)"
proof -
  obtain fs1 fs2 v where w: "write_handle p n data (ss_files s) = (Inr v, fs1)"
    and f: "flush_handle p fs1 = (Inr u, fs2)" "ss_files t = fs2"
    using assms(1) by (auto simp: state_simps on_files_apply split: prod.splits)
  from f(1) have "node_at fs2 p = node_at fs1 p"
    unfolding flush_handle_def by (auto elim!: os_callE dest: same_nodes_at)
  with write_handle_Inr [OF w assms(2,3)] f(2) show ?thesis by simp
qed

lemma up_chunk_Again:
  assumes ok: "paths_ok plan" and up: "uploading plan s"
    and run: "up_chunk ev plan (up_partial plan) fr s = (Inr (Proceed x), t)"
  shows "x = Again \<and> uploading plan t"
proof -
  obtain chunk :: file_chunk and s1 :: upload_state and w u1 u2 where
    wr: "or_up_failure ev plan FILE_CHUNK (lit ''cannot write the partial upload'')
         (bindS (on_files (write_handle (up_partial plan) (nat (us_received s)) (fc_data chunk)))
            (\<lambda>_. on_files (flush_handle (up_partial plan)))) s = (Inr (Proceed ()), s1)"
    and bw: "consume_bandwidth (int (length (fc_data chunk))) (us_session s1) = (Inr w, u1)"
    and sv: "save_progress ev plan (us_received s + int (length (fc_data chunk))) u1 = (Inr (), u2)"
    and x: "x = Again"
    and t: "t = s1\<lparr>us_digest := us_digest s1 @ fc_data chunk,
              us_received := us_received s1 + int (length (fc_data chunk)), us_session := u2\<rparr>"
    using run unfolding up_chunk_def Let_def
    by (auto simp: state_simps dest!: aborts_return)
  note wr' = or_up_failure_Proceed [OF wr]
  obtain tm where tm: "node_at (ss_files (us_session s)) (up_partial plan) = Some (RegularFile (us_digest s) tm)"
    and n: "nat (us_received s) = length (us_digest s)"
    using up by (auto simp: uploading_def)
  have kept: "quiet (insert (up_meta plan) (temporary_of (up_meta plan))) (us_session s1) u2"
    using quieting.keepsD [OF quiet_bandwidth bw]
      quieting.keepsD [OF quiet_save [OF order_refl paths_okD(4) [OF ok]] sv]
    by (rule quieting.R_trans)
  from write_flush_Inr [OF conjunct1 [OF wr'] tm n] node_spared [OF kept paths_okD(5) [OF ok]]
  have "\<exists>tm. node_at (ss_files u2) (up_partial plan) = Some (RegularFile (us_digest s @ fc_data chunk) tm)"
    by simp
  moreover have "us_received s1 = us_received s \<and> us_digest s1 = us_digest s \<and> us_published s1 = us_published s"
    using conjunct2 [OF wr'] by (metis upload_state.select_convs(2-4) upload_state.surjective upload_state.update_convs(1))
  ultimately show ?thesis using up x t by (simp add: uploading_def)
qed

text \<open>What the verified bytes have to do with the stream: a FILE_CHECKSUM frame announced them.\<close>

definition announced :: "environment \<Rightarrow> int \<Rightarrow> byte list \<Rightarrow> byte list \<Rightarrow> bool" where
  "announced ev total_size stream d \<longleftrightarrow> int (length d) = total_size
     \<and> (\<exists>pre fr post checksum. stream = pre @ frame_bytes fr @ post \<and> fr_opcode fr = FILE_CHECKSUM
          \<and> parse_file_checksum fr (max_payload ev) = Inr checksum
          \<and> fk_final_size checksum = total_size \<and> fk_sha256_digest checksum = ev_sha256 ev d)"

lemma announced_earlier: "announced ev n stream d \<Longrightarrow> announced ev n (pre @ stream) d"
  unfolding announced_def by (metis append.assoc)

lemma up_checksum_Complete:
  assumes ok: "paths_ok plan" and up: "uploading plan s"
    and run: "up_checksum ev plan (up_partial plan) fr s = (Inr (Proceed x), t)"
    and fr: "fr_opcode fr = FILE_CHECKSUM"
  shows "x = Complete \<and> uploading plan t \<and> us_digest t = us_digest s
    \<and> announced ev (up_total_size plan) (frame_bytes fr @ rest) (us_digest s)"
proof -
  obtain checksum u where
    parsed: "parse_file_checksum fr (max_payload ev) = Inr checksum"
    and sizes: "us_received s = up_total_size plan" "fk_final_size checksum = up_total_size plan"
    and digest: "fk_sha256_digest checksum = ev_sha256 ev (us_digest s)"
    and flush: "or_up_failure ev plan FILE_CHECKSUM (lit ''cannot flush the partial upload'')
         (bindS (on_files (flush_handle (up_partial plan))) (\<lambda>_. on_files (flush_handle (up_partial plan)))) s
       = (Inr (Proceed u), t)"
    and x: "x = Complete"
    using run unfolding up_checksum_def Let_def
    by (auto simp: state_simps dest!: aborts_return split: prod.splits)
  note fl = or_up_failure_Proceed [OF flush]
  have "quieting.keeps {} (bindS (on_files (flush_handle (up_partial plan))) (\<lambda>_. on_files (flush_handle (up_partial plan))))"
    by (intro quieting.keep_intros quiet_files sparing_readers)
  from node_spared [OF quieting.keepsD [OF this conjunct1 [OF fl]]]
  have same: "node_at (ss_files (us_session t)) q = node_at (ss_files (us_session s)) q" for q by simp
  have locals: "us_received t = us_received s \<and> us_digest t = us_digest s \<and> us_published t = us_published s"
    using conjunct2 [OF fl] by (metis upload_state.select_convs(2-4) upload_state.surjective upload_state.update_convs(1))
  have "announced ev (up_total_size plan) (frame_bytes fr @ rest) (us_digest s)"
    unfolding announced_def using up sizes digest parsed fr
    by (intro conjI exI [of _ "[]"] exI [of _ fr] exI [of _ rest] exI [of _ checksum])
      (simp_all add: uploading_def)
  then show ?thesis using up x same locals by (simp add: uploading_def)
qed

definition stream_of :: "upload_state \<Rightarrow> byte list" where
  "stream_of s = pending (ss_socket (us_session s))"

lemma up_turn_Proceed:
  assumes ok: "paths_ok plan" and up: "uploading plan s"
    and run: "up_turn ev plan (up_partial plan) s = (Inr (Proceed x), t)"
  shows "uploading plan t \<and> (x = Complete \<longrightarrow>
     int (length (us_digest t)) = up_total_size plan
     \<and> (delivers (ss_socket (us_session s)) \<longrightarrow> announced ev (up_total_size plan) (stream_of s) (us_digest t)))"
proof -
  obtain fr u where rc: "session_receive ev (us_session s) = (Inr fr, u)"
    and rest: "(if fr_opcode fr = FILE_CHUNK then up_chunk ev plan (up_partial plan) fr
      else if fr_opcode fr = FILE_CHECKSUM then up_checksum ev plan (up_partial plan) fr
      else up_clean_abort ev plan (fr_opcode fr) INVALID_STATE
        (lit ''unexpected '' @ opcode_name (fr_opcode fr) @ lit '' during UPLOAD'') None)
       (s\<lparr>us_session := u\<rparr>) = (Inr (Proceed x), t)"
    using run unfolding up_turn_def by (auto simp: bindS_eq_Inr in_session_Inr)
  from rc obtain k where k: "u = (us_session s)\<lparr>ss_socket := k\<rparr>"
      "receive_frame (max_payload ev) (ss_socket (us_session s)) = (Inr (Some fr), k)"
    by (elim session_receiveE) simp
  have stream: "stream_of s = frame_bytes fr @ pending k" if "delivers (ss_socket (us_session s))"
    using receive_frame_parse [OF that k(2)] parse_frame_Some by (fastforce simp: stream_of_def)
  have up': "uploading plan (s\<lparr>us_session := u\<rparr>)" using up k(1) by (simp add: uploading_def)
  show ?thesis
  proof (cases "fr_opcode fr = FILE_CHECKSUM")
    case True
    then have "up_checksum ev plan (up_partial plan) fr (s\<lparr>us_session := u\<rparr>) = (Inr (Proceed x), t)"
      using rest by simp
    from up_checksum_Complete [OF ok up' this True] stream show ?thesis by (simp add: announced_def)
  next
    case False
    then have "up_chunk ev plan (up_partial plan) fr (s\<lparr>us_session := u\<rparr>) = (Inr (Proceed x), t)"
      using rest by (auto split: if_splits dest: aborts_return)
    from up_chunk_Again [OF ok up' this] show ?thesis by simp
  qed
qed

text \<open>The loop: whatever its end, only the upload's own files change; it completes only with verified bytes.\<close>

lemma upload_loop_safe:
  assumes "paths_ok plan" "partial = up_partial plan"
  shows "uploading plan s \<Longrightarrow> upload_loop ev plan partial s = (r, t) \<Longrightarrow> uquiet (upload_area plan) s t
    \<and> (r = Inr (Proceed ()) \<longrightarrow> uploading plan t \<and> int (length (us_digest t)) = up_total_size plan
        \<and> (delivers (ss_socket (us_session s)) \<longrightarrow> announced ev (up_total_size plan) (stream_of s) (us_digest t)))"
  using assms
proof (induction ev plan partial s arbitrary: r t rule: upload_loop.induct)
  case (1 ev plan partial s)
  obtain q u where turn: "up_turn ev plan partial s = (q, u)" by fastforce
  have su: "uquiet (upload_area plan) s u"
    using uquieting.keepsD [OF up_turn_quiet [OF "1.prems"(3)]] turn "1.prems"(4) by simp
  show ?case
  proof (cases "q = Inr (Proceed Again)")
    case True
    then have rest: "upload_loop ev plan partial u = (r, t)"
      using "1.prems"(2) turn by (simp add: upload_loop.simps [of ev plan partial s])
    have "uploading plan u"
      using up_turn_Proceed [OF "1.prems"(3,1)] turn True "1.prems"(4) by blast
    note ih = "1.IH" [OF turn [symmetric] True refl refl this rest "1.prems"(3,4)]
    have later: "delivers (ss_socket (us_session s)) \<Longrightarrow>
        delivers (ss_socket (us_session u)) \<and> (\<exists>pre. stream_of s = pre @ stream_of u)"
      using su by (auto simp: uquiet_def quiet_def stream_step_def stream_of_def)
    show ?thesis using ih uquieting.R_trans [OF su] later announced_earlier by metis
  next
    case False
    then have t: "t = u" "r = Inr (Proceed ()) \<Longrightarrow> q = Inr (Proceed Complete)"
      using "1.prems"(2) turn
      by (auto simp: upload_loop.simps [of ev plan partial s] split: sum.splits flow.splits turn.splits)
    then show ?thesis
      using su up_turn_Proceed [OF "1.prems"(3,1)] turn "1.prems"(4) by blast
  qed
qed

subsection \<open>Publication\<close>

definition target_node :: "upload_plan \<Rightarrow> session \<Rightarrow> node option" where
  "target_node plan s = node_at (ss_files s) (up_target plan)"

text \<open>After the link is made, the target can only stay or be withdrawn.\<close>

definition may_vanish :: "upload_plan \<Rightarrow> upload_state \<Rightarrow> upload_state \<Rightarrow> bool" where
  "may_vanish plan s t \<longleftrightarrow> target_node plan (us_session t) = target_node plan (us_session s)
     \<or> target_node plan (us_session t) = None"

interpretation vanishing: step_relation "may_vanish plan" for plan
  by unfold_locales (auto simp: may_vanish_def)

lemma vanishing_uquiet:
  "paths_ok plan \<Longrightarrow> uquieting.keeps (upload_area plan) a \<Longrightarrow> vanishing.keeps plan a"
  by (rule vanishing.keepsI)
    (auto dest!: uquieting.keepsD simp: uquiet_def may_vanish_def target_node_def node_spared paths_okD)

lemma vanishing_published: "vanishing.keeps plan (set_published b)"
  by (simp add: vanishing.keeps_def set_published_def updateS_def may_vanish_def)

lemma vanishing_remove_target: "vanishing.keeps plan (in_session (remove_quietly (up_target plan)))"
proof (rule vanishing.keepsI)
  fix s r t
  assume run: "in_session (remove_quietly (up_target plan)) s = (r, t)"
  obtain q fs where un: "unlink True (up_target plan) (ss_files (us_session s)) = (q, fs)" by fastforce
  have "ss_files (us_session t) = fs"
    using run un by (auto simp: in_session_def partS_def remove_quietly_def tryS_def on_files_apply
        split: prod.splits sum.splits if_splits)
  with un show "may_vanish plan s t"
    by (auto elim!: unlinkE simp: may_vanish_def target_node_def same_nodes_at)
qed

lemma vanishing_withdraw: "vanishing.keeps plan (up_withdraw plan)"
  unfolding up_withdraw_def
  by (intro vanishing.keep_intros vanishing_remove_target vanishing_published)

lemma quiet_up_file_failure: "quieting.keeps A (up_file_failure ev name n op txt error)"
  unfolding up_file_failure_def by (rule quiet_helpers)

lemma vanishing_failure: "paths_ok plan \<Longrightarrow> vanishing.keeps plan (publish_failure ev plan error)"
  unfolding publish_failure_def
  by (intro vanishing.keep_intros vanishing_withdraw vanishing_uquiet uquiet_aborts uquiet_session
      quiet_up_file_failure)

lemma publish_failure_unpublished:
  assumes "us_published s = False" "publish_failure ev plan error s = (r, t)" "paths_ok plan"
  shows "target_node plan (us_session t) = target_node plan (us_session s)"
proof -
  have "uquieting.keeps (upload_area plan) (up_clean_abort ev plan FILE_CHECKSUM FILE_EXISTS
      (lit ''destination appeared while the upload was in progress'') None :: unit upload_flow upload_action)"
    "uquieting.keeps (upload_area plan) (bindS (readS us_received) (\<lambda>received.
        bindS (in_session (up_file_failure ev (up_filename plan) received FILE_CHECKSUM
          (lit ''cannot publish the completed upload'') error)) (\<lambda>res. returnS (Return res)))
          :: unit upload_flow upload_action)"
    by (intro uquieting.keep_intros uquiet_aborts uquiet_session quiet_up_file_failure)+
  moreover have "up_withdraw plan s = (Inr (), s)"
    using assms(1) by (simp add: up_withdraw_def bindS_def readS_def)
  ultimately have "uquiet (upload_area plan) s t"
    using assms(2) by (auto simp: publish_failure_def uquieting.R_refl split: if_splits dest: uquieting.keepsD)
  then show ?thesis by (auto simp: uquiet_def target_node_def node_spared paths_okD [OF assms(3)])
qed

lemma vanishing_rest: "paths_ok plan \<Longrightarrow> vanishing.keeps plan (publish_rest plan)"
  unfolding publish_rest_def
  by (intro vanishing.keep_intros vanishing_published vanishing_uquiet uquiet_session quiet_files
      sparing_unlink quiet_helpers paths_okD)

definition settles :: "(byte list \<Rightarrow> bool) \<Rightarrow> node option \<Rightarrow> node option \<Rightarrow> bool" where
  "settles P before after \<longleftrightarrow> after = before
     \<or> before = None \<and> (\<exists>d t. after = Some (RegularFile d t) \<and> P d)"

lemma up_publish_settles:
  assumes ok: "paths_ok plan" and up: "uploading plan s"
    and run: "up_publish ev plan s = (r, t)" and P: "P (us_digest s)"
  shows "settles P (target_node plan (us_session s)) (target_node plan (us_session t))"
proof -
  obtain q fs where hl: "hard_link (up_partial plan) (up_target plan) (ss_files (us_session s)) = (q, fs)"
    by fastforce
  define s1 where "s1 = s\<lparr>us_session := (us_session s)\<lparr>ss_files := fs\<rparr>\<rparr>"
  have step: "in_session (on_files (hard_link (up_partial plan) (up_target plan))) s = (q, s1)"
    using hl by (simp add: in_session_def partS_def on_files_apply s1_def)
  show ?thesis
  proof (cases q)
    case (Inl e)
    have unp: "us_published s1 = False" using up by (simp add: s1_def uploading_def)
    have "publish_failure ev plan e s1 = (r, t)"
      using run step Inl by (simp add: up_publish_def tryS_def)
    from publish_failure_unpublished [OF unp this ok] hl Inl show ?thesis
      by (auto simp: settles_def target_node_def s1_def dest!: hard_link_Inl same_nodes_at)
  next
    case (Inr v)
    obtain tm where tm: "node_at (ss_files (us_session s)) (up_partial plan) = Some (RegularFile (us_digest s) tm)"
      using up by (auto simp: uploading_def)
    have link: "target_node plan (us_session s) = None"
      "target_node plan (us_session s1) = Some (RegularFile (us_digest s) tm)"
      using hard_link_Inr [OF hl [unfolded Inr] tm] by (simp_all add: target_node_def s1_def)
    have "tryS (publish_rest plan) (publish_failure ev plan) s1 = (r, t)"
      using run step Inr by (simp add: up_publish_def tryS_def)
    moreover have "vanishing.keeps plan (tryS (publish_rest plan) (publish_failure ev plan))"
      by (intro vanishing.keep_intros vanishing_rest vanishing_failure ok)
    ultimately have "may_vanish plan s1 t" by (rule vanishing.keepsD [rotated])
    with link P show ?thesis by (auto simp: may_vanish_def settles_def)
  qed
qed

subsection \<open>The whole transfer\<close>

definition verified :: "environment \<Rightarrow> int \<Rightarrow> sock \<Rightarrow> byte list \<Rightarrow> bool" where
  "verified ev total_size k d \<longleftrightarrow> int (length d) = total_size
     \<and> (delivers k \<longrightarrow> announced ev total_size (pending k) d)"

lemma verified_earlier: "stream_step k k' \<Longrightarrow> verified ev n k' d \<Longrightarrow> verified ev n k d"
  by (auto simp: verified_def stream_step_def announced_earlier)

lemma settles_mono: "settles P a b \<Longrightarrow> (\<And>d. P d \<Longrightarrow> Q d) \<Longrightarrow> settles Q a b"
  by (auto simp: settles_def)

lemma target_quiet: "paths_ok plan \<Longrightarrow> quiet (upload_area plan) s t \<Longrightarrow> target_node plan t = target_node plan s"
  by (simp add: target_node_def node_spared paths_okD)

lemma up_start_quiet: "paths_ok plan \<Longrightarrow> quieting.keeps (upload_area plan) (up_start ev plan (up_partial plan) n)"
  unfolding up_start_def
  by (intro quieting.keep_intros quiet_files sparing_truncate quiet_save_area quiet_helpers paths_okD)

lemma truncate_handle_Inr:
  assumes "truncate_handle p n fs = (Inr u, fs')"
  shows "\<exists>t. node_at fs' p = Some (RegularFile (take n (file_data fs p) @ replicate (n - length (file_data fs p)) 0) t)"
  using assms unfolding truncate_handle_def
proof (cases rule: os_callE)
  case (fault f)
  then show ?thesis by simp
next
  case (run fs1)
  have "file_data fs1 p = file_data fs p" by (rule lookup_same_nodes(7) [OF run(1)])
  with run(2) show ?thesis by (auto simp: Let_def)
qed

lemma up_start_contents:
  assumes ok: "paths_ok plan"
    and prefix: "take (length hashed) (file_data (ss_files s) (up_partial plan)) = hashed"
    and run: "up_start ev plan (up_partial plan) (int (length hashed)) s = (Inr u, t)"
  shows "\<exists>tm. node_at (ss_files t) (up_partial plan) = Some (RegularFile hashed tm)"
proof -
  obtain fs v s2 w where tr: "truncate_handle (up_partial plan) (length hashed) (ss_files s) = (Inr v, fs)"
    and sv: "save_progress ev plan (int (length hashed)) (s\<lparr>ss_files := fs\<rparr>) = (Inr w, s2)"
    and ack: "send_ack ev FILE_UPLOAD (int (length hashed)) s2 = (Inr u, t)"
    using run by (auto simp: up_start_def state_simps on_files_apply split: prod.splits)
  let ?d = "file_data (ss_files s) (up_partial plan)"
  have "length hashed - length ?d = 0"
    using arg_cong [OF prefix, of length] by simp
  then have "\<exists>tm. node_at fs (up_partial plan) = Some (RegularFile hashed tm)"
    using truncate_handle_Inr [OF tr] prefix by simp
  moreover have "quiet (insert (up_meta plan) (temporary_of (up_meta plan))) (s\<lparr>ss_files := fs\<rparr>) t"
    using quieting.keepsD [OF quiet_save [OF order_refl paths_okD(4) [OF ok]] sv]
      quieting.keepsD [OF quiet_helpers(3) ack] by (rule quieting.R_trans)
  ultimately show ?thesis using node_spared paths_okD(5) [OF ok] by simp
qed

lemma up_ending_quiet:
  "uquieting.keeps (upload_area plan)
     (bindS (readS us_received) (\<lambda>received.
      bindS (in_session (send_ack ev FILE_CHECKSUM received)) (\<lambda>_. returnS (f received))))"
  by (intro uquieting.keep_intros uquiet_session quiet_helpers)

lemma up_transfer_settles:
  assumes ok: "paths_ok plan" and locals: "us_received s = int (length (us_digest s))" "us_published s = False"
    and prefix: "take (length (us_digest s)) (file_data (ss_files (us_session s)) (up_partial plan)) = us_digest s"
    and run: "up_transfer ev plan (up_partial plan) (int (length (us_digest s))) s = (r, t)"
  shows "settles (verified ev (up_total_size plan) (ss_socket (us_session s)))
    (target_node plan (us_session s)) (target_node plan (us_session t))"
proof -
  let ?P = "verified ev (up_total_size plan) (ss_socket (us_session s))"
  obtain q1 x1 where st: "up_start ev plan (up_partial plan) (int (length (us_digest s))) (us_session s) = (q1, x1)"
    by fastforce
  define s1 where "s1 = s\<lparr>us_session := x1\<rparr>"
  have k1: "quiet (upload_area plan) (us_session s) (us_session s1)"
    using quieting.keepsD [OF up_start_quiet [OF ok] st] by (simp add: s1_def)
  have step1: "in_session (up_start ev plan (up_partial plan) (int (length (us_digest s)))) s = (q1, s1)"
    using st by (simp add: in_session_def partS_def s1_def)
  obtain q2 s2 where lp: "upload_loop ev plan (up_partial plan) s1 = (q2, s2)" by fastforce
  obtain q3 s3 where pb: "up_publish ev plan s2 = (q3, s3)" by fastforce
  show ?thesis
  proof (cases q1)
    case (Inl e)
    then have "t = s1" using run step1 by (simp add: up_transfer_def)
    then show ?thesis using target_quiet [OF ok k1] by (simp add: settles_def)
  next
    case (Inr v)
    have up1: "uploading plan s1"
      using up_start_contents [OF ok prefix] st Inr locals by (auto simp: uploading_def s1_def)
    note safe = upload_loop_safe [OF ok refl up1 lp]
    have k2: "quiet (upload_area plan) (us_session s) (us_session s2)"
      using safe quieting.R_trans [OF k1] by (simp add: uquiet_def)
    show ?thesis
    proof (cases "q2 = Inr (Proceed ())")
      case False
      then have "t = s2" using run step1 Inr lp
        by (cases q2) (auto simp: up_transfer_def bindF_def split: flow.splits)
      then show ?thesis using target_quiet [OF ok k2] by (simp add: settles_def)
    next
      case True
      have ver: "verified ev (up_total_size plan) (ss_socket (us_session s)) (us_digest s2)"
      proof (rule verified_earlier)
      show "stream_step (ss_socket (us_session s)) (ss_socket (us_session s1))"
        using k1 by (simp add: quiet_def)
      show "verified ev (up_total_size plan) (ss_socket (us_session s1)) (us_digest s2)"
        using safe True by (simp add: verified_def stream_of_def)
    qed
      from safe True have "uploading plan s2" by simp
      from up_publish_settles [where P = ?P, OF ok this pb ver]
      have pub: "settles ?P (target_node plan (us_session s)) (target_node plan (us_session s3))"
        by (simp add: target_quiet [OF ok k2])
      have "uquiet (upload_area plan) s3 t"
        using run step1 Inr lp True pb uquieting.keepsD [OF up_ending_quiet]
        by (cases q3) (auto simp: up_transfer_def bindF_def uquieting.R_refl split: flow.splits)
      then have "target_node plan (us_session t) = target_node plan (us_session s3)"
        using target_quiet [OF ok] by (simp add: uquiet_def)
      with pub show ?thesis by simp
    qed
  qed
qed

subsection \<open>Opening and resuming\<close>

lemma canonical_quiet: "quiet A s t \<Longrightarrow> canonical (ss_files s) p \<Longrightarrow> canonical (ss_files t) p"
  by (auto simp: quiet_def intro: canonical_spared)

lemma run_first: "bindS (readS f) g s = g (f s) s" "bindS (liftS (Inr a)) g s = g a s"
    "bindS (bindS (readS f) h) g s = bindS (h (f s)) g s" "bindS (returnS a) g s = g a s"
  by (simp_all add: bindS_def readS_def)

lemma or_file_failure_run:
  fixes r :: "exc + 'a upload_flow"
  assumes "or_file_failure ev name n op txt act s = (r, t)"
  obtains q s1 where "act s = (q, s1)" "quiet {} s1 t" "\<And>a. r = Inr (Proceed a) \<Longrightarrow> q = Inr a \<and> t = s1"
proof -
  obtain q s1 where act: "act s = (q, s1)" by fastforce
  show ?thesis
  proof (cases q)
    case (Inr a)
    then have "r = Inr (Proceed a) \<and> t = s1" using assms act by (simp add: or_file_failure_def tryS_def)
    then show ?thesis using that [OF act] Inr by (simp add: quieting.R_refl)
  next
    case (Inl e)
    define h :: "'a upload_flow session_action" where "h = (if is_os_error e
        then bindS (up_file_failure ev name n op txt e) (\<lambda>res. returnS (Return res)) else raiseS e)"
    have run: "h s1 = (r, t)" using assms act Inl by (simp add: or_file_failure_def tryS_def h_def)
    have "quieting.keeps {} h"
      unfolding h_def by (intro quieting.keep_intros quiet_up_file_failure)
    then have "quiet {} s1 t" using run by (rule quieting.keepsD)
    moreover have "r \<noteq> Inr (Proceed a)" for a
      using run by (auto simp: h_def state_simps split: if_splits)
    ultimately show ?thesis using that [OF act] by simp
  qed
qed

lemma open_truncating_canonical:
  assumes "open_truncating p fs = (r, fs')" "canonical fs p"
  shows "spares {p} fs fs' \<and> (\<forall>q. r = Inr q \<longrightarrow> q = p \<and> file_data fs' p = [])"
  using assms(1) unfolding open_truncating_def
proof (cases rule: os_callE)
  case (fault f)
  then show ?thesis by (simp add: spares_same)
next
  case (run fs1)
  have res: "resolve fs1 p = Some p"
    using lookup_same_nodes(1) [OF run(1), of p] canonical_resolve [OF assms(2)] by simp
  have "spares {p} fs1 fs' \<and> (\<forall>q. r = Inr q \<longrightarrow> q = p \<and> file_data fs' p = [])"
    using run(2) res by (auto simp: spares_set file_data_def sparing.R_refl split: option.splits node.splits)
  then show ?thesis using spares_after [OF run(1)] by blast
qed

lemma up_open_safe:
  assumes ok: "paths_ok plan" and can: "canonical (ss_files s) (up_partial plan)"
    and prefix: "take (length hashed) (file_data (ss_files s) (up_partial plan)) = hashed"
    and run: "up_open ev plan n s = (r, t)"
  shows "quiet (upload_area plan) s t \<and> (\<forall>out. r = Inr (Proceed out) \<longrightarrow> out = up_partial plan
    \<and> take (length hashed) (file_data (ss_files t) (up_partial plan)) = hashed)"
proof -
  let ?p = "up_partial plan"
  let ?open = "\<lambda>present. if present then open_existing ?p else open_truncating ?p"
  obtain q s1 where op: "bindS (readS (\<lambda>s. path_exists (ss_files s) ?p)) (\<lambda>present. on_files (?open present)) s = (q, s1)"
    and rest: "quiet {} s1 t" "\<And>a. r = Inr (Proceed a) \<Longrightarrow> q = Inr a \<and> t = s1"
    using run unfolding up_open_def by (rule or_file_failure_run) blast
  define present where "present = path_exists (ss_files s) ?p"
  have "on_files (?open present) s = (q, s1)" using op by (simp add: run_first present_def)
  then obtain fs1 where "?open present (ss_files s) = (q, fs1)" "s1 = s\<lparr>ss_files := fs1\<rparr>"
    unfolding on_files_apply by (cases "?open present (ss_files s)") simp
  then have fs: "?open present (ss_files s) = (q, ss_files s1)" and s1: "s1 = s\<lparr>ss_files := ss_files s1\<rparr>"
    by simp_all
  have "spares {?p} (ss_files s) (ss_files s1) \<and> (\<forall>out. q = Inr out \<longrightarrow> out = ?p
      \<and> take (length hashed) (file_data (ss_files s1) ?p) = hashed)"
  proof (cases present)
    case True
    then have op: "open_existing ?p (ss_files s) = (q, ss_files s1)" using fs by simp
    have "spares {?p} (ss_files s) (ss_files s1)" by (rule sparing.keepsD [OF sparing_readers(3) op])
    moreover have "out = ?p \<and> file_data (ss_files s1) ?p = file_data (ss_files s) ?p" if "q = Inr out" for out
      using open_existing_canonical [OF op [unfolded that] can] lookup_same_nodes(7) by blast
    ultimately show ?thesis using prefix by metis
  next
    case False
    have "hashed = []"
      using False prefix canonical_followed [OF can]
      by (simp add: present_def path_exists_def file_data_def)
    then show ?thesis using False fs open_truncating_canonical [OF _ can] by auto
  qed
  then have opened: "spares {?p} (ss_files s) (ss_files s1)" "\<forall>out. q = Inr out \<longrightarrow> out = ?p
      \<and> take (length hashed) (file_data (ss_files s1) ?p) = hashed" by blast+
  have "ss_socket s1 = ss_socket s" by (subst s1) simp
  then have "quiet (upload_area plan) s s1"
    using paths_okD(2) [OF ok] spares_mono [OF opened(1)] by (simp add: quiet_def stream_same)
  moreover have "quiet (upload_area plan) s1 t" using rest(1) spares_mono by (auto simp: quiet_def)
  ultimately show ?thesis using quieting.R_trans rest(2) opened(2) by blast
qed

lemma take_further:
  assumes "take (length xs) ys = xs"
  shows "take (length (xs @ take k (drop (length xs) ys))) ys = xs @ take k (drop (length xs) ys)"
proof -
  have "ys = xs @ drop (length xs) ys" using assms by (metis append_take_drop_id)
  then obtain zs where "ys = xs @ zs" by blast
  then show ?thesis by (simp add: min_def)
qed

lemma hash_loop_prefix:
  "hash_loop source remaining hashed fs = (Inr (h, n), fs') \<Longrightarrow>
     take (length hashed) (file_data fs source) = hashed \<Longrightarrow>
     n = length h \<and> same_nodes fs fs' \<and> take (length h) (file_data fs source) = h"
proof (induction source remaining hashed fs arbitrary: h n fs' rule: hash_loop.induct)
  case (1 source remaining hashed fs)
  obtain q fs1 where rd: "read_handle source (length hashed) (min remaining HASH_CHUNK) fs = (q, fs1)"
    by fastforce
  have same: "same_nodes fs fs1" by (rule read_handle_same [OF rd])
  show ?case
  proof (cases "remaining = 0 \<or> (\<exists>e. q = Inl e) \<or> q = Inr []")
    case True
    then show ?thesis
      using "1.prems" rd same by (auto simp: hash_loop.simps [of source remaining hashed fs] split: if_splits)
  next
    case False
    then obtain chunk where q: "remaining \<noteq> 0" "q = Inr chunk" "chunk \<noteq> []" by (cases q) auto
    then have rest: "hash_loop source (remaining - length chunk) (hashed @ chunk) fs1 = (Inr (h, n), fs')"
      using "1.prems"(1) rd by (simp add: hash_loop.simps [of source remaining hashed fs])
    have data: "file_data fs1 source = file_data fs source" by (rule lookup_same_nodes(7) [OF same])
    have chunk: "chunk = take (min remaining HASH_CHUNK) (drop (length hashed) (file_data fs source))"
      using read_handle_Inr [of source _ _ fs chunk fs1] rd q(2) by simp
    have "take (length (hashed @ chunk)) (file_data fs source) = hashed @ chunk"
      using take_further [OF "1.prems"(2)] chunk by simp
    then have "take (length (hashed @ chunk)) (file_data fs1 source) = hashed @ chunk" by (simp only: data)
    from "1.IH" [OF q(1) rd [symmetric] q(2,3) rest this] same data show ?thesis
      by (auto simp: same_nodes_def intro: only_changes_trans)
  qed
qed

lemma compute_prefix_hash_canonical:
  assumes "compute_prefix_hash p n fs = (Inr (h, m), fs')" "canonical fs p"
  shows "m = length h \<and> same_nodes fs fs' \<and> take (length h) (file_data fs p) = h"
proof (cases "path_exists fs p")
  case False
  then show ?thesis using assms(1) by (simp add: compute_prefix_hash_def bindS_def readS_def)
next
  case True
  then obtain source fs1 where op: "open_existing p fs = (Inr source, fs1)"
    and hl: "hash_loop source n [] fs1 = (Inr (h, m), fs')"
    using assms(1) by (auto simp: compute_prefix_hash_def state_simps)
  have src: "source = p" "same_nodes fs fs1" using open_existing_canonical [OF op assms(2)] by simp_all
  have "m = length h \<and> same_nodes fs1 fs' \<and> take (length h) (file_data fs1 source) = h"
    by (rule hash_loop_prefix [OF hl]) simp
  then show ?thesis
    using src lookup_same_nodes(7) [OF src(2), of p] by (auto simp: same_nodes_def intro: only_changes_trans)
qed

definition kept_prefix :: "upload_plan \<Rightarrow> session \<Rightarrow> int \<times> byte list \<Rightarrow> bool" where
  "kept_prefix plan t p \<longleftrightarrow> fst p = int (length (snd p))
     \<and> take (length (snd p)) (file_data (ss_files t) (up_partial plan)) = snd p"

lemma kept_prefix_nothing: "kept_prefix plan t (0, [])"
  by (simp add: kept_prefix_def)

lemma fail_not_Proceed:
  "bindS act (\<lambda>_. mismatch ev plan msg) s \<noteq> (Inr (Proceed a), t)" "mismatch ev plan msg s \<noteq> (Inr (Proceed a), t)"
  by (auto simp: state_simps mismatch_def dest: fail_with_return)

lemma up_resume_matching_prefix:
  assumes can: "canonical (ss_files s) (up_partial plan)"
    and run: "up_resume_matching ev plan n s = (Inr (Proceed p), t)"
  shows "kept_prefix plan t p"
proof -
  obtain size64 s1 where st: "or_file_failure ev (up_filename plan) 0 FILE_UPLOAD (lit ''cannot inspect the partial upload'')
       (on_files (stat_size (up_partial plan))) s = (Inr (Proceed size64), s1)"
    and rest: "(if n = 0 then returnS (Proceed (0, []))
       else bindF (or_file_failure ev (up_filename plan) 0 FILE_UPLOAD (lit ''cannot hash the partial upload'')
         (on_files (compute_prefix_hash (up_partial plan) (nat n)))) (\<lambda>(hashed, bytes_hashed).
       if int bytes_hashed \<noteq> n then
         bindS (discard_partial plan) (\<lambda>_.
         mismatch ev plan (lit ''partial upload prefix is shorter than its metadata''))
       else returnS (Proceed (n, hashed)))) s1 = (Inr (Proceed p), t)"
    using run unfolding up_resume_matching_def
    by (auto simp: bindF_Inr fail_not_Proceed split: if_splits)
  obtain q s2 where "on_files (stat_size (up_partial plan)) s = (q, s2)" "s1 = s2"
    using st by (rule or_file_failure_run) blast
  then have "quiet {} s s1"
    using quieting.keepsD [OF quiet_files [OF sparing_readers(1)]] by blast
  then have can1: "canonical (ss_files s1) (up_partial plan)" using can by (rule canonical_quiet)
  show ?thesis
  proof (cases "n = 0")
    case True
    with rest show ?thesis by (auto simp: kept_prefix_nothing)
  next
    case False
    then obtain hashed m s3 where
      hs: "or_file_failure ev (up_filename plan) 0 FILE_UPLOAD (lit ''cannot hash the partial upload'')
         (on_files (compute_prefix_hash (up_partial plan) (nat n))) s1 = (Inr (Proceed (hashed, m)), s3)"
      and p: "int m = n" "p = (n, hashed)" "t = s3"
      using rest by (auto simp: bindF_Inr fail_not_Proceed split: if_splits)
    obtain q s4 where "on_files (compute_prefix_hash (up_partial plan) (nat n)) s1 = (q, s4)"
        "q = Inr (hashed, m)" "s3 = s4"
      using hs by (rule or_file_failure_run) blast
    then obtain fs where "compute_prefix_hash (up_partial plan) (nat n) (ss_files s1) = (Inr (hashed, m), fs)"
        "ss_files t = fs"
      using p(3) by (auto simp: on_files_apply split: prod.splits)
    with compute_prefix_hash_canonical [OF this(1) can1] p show ?thesis
      using lookup_same_nodes(7) [of "ss_files s1" fs] by (auto simp: kept_prefix_def)
  qed
qed

lemma up_resume_prefix:
  assumes can: "canonical (ss_files s) (up_partial plan)"
    and run: "up_resume ev plan s = (Inr (Proceed p), t)"
  shows "kept_prefix plan t p"
proof -
  have restart: "kept_prefix plan v p" if "restart_upload plan u = (Inr (Proceed p), v)" for u v
    using that by (auto simp: restart_upload_def state_simps kept_prefix_nothing)
  have matching: "kept_prefix plan t p"
    if ld: "load_part_metadata ev (up_meta plan) (ss_files s) = (q, fs)"
      and m: "up_resume_matching ev plan n (s\<lparr>ss_files := fs\<rparr>) = (Inr (Proceed p), t)" for q fs n
  proof (rule up_resume_matching_prefix [OF _ m])
    have "spares {} (ss_files s) fs" by (rule sparing.keepsD [OF sparing_load ld])
    with can show "canonical (ss_files (s\<lparr>ss_files := fs\<rparr>)) (up_partial plan)"
      by (simp add: canonical_spared)
  qed
  show ?thesis
    using run matching unfolding up_resume_def
    by (auto simp: state_simps on_files_apply kept_prefix_nothing fail_not_Proceed dest: restart
        split: if_splits option.splits prod.splits)
qed

lemma up_resume_quiet:
  assumes "paths_ok plan"
  shows "quieting.keeps (upload_area plan) (up_resume ev plan)"
  unfolding up_resume_def up_resume_matching_def restart_upload_def mismatch_def Let_def
  by (intro quieting.keep_intros quiet_discard quiet_files sparing_load sparing_readers sparing_hash
      quiet_or_file_failure quiet_helpers paths_okD assms)

subsection \<open>Before the transfer\<close>

text \<open>A file can appear at \<open>target\<close> with verified contents; a file that is there stays.\<close>

definition file_fate :: "(byte list \<Rightarrow> bool) \<Rightarrow> path \<Rightarrow> file_system \<Rightarrow> file_system \<Rightarrow> bool" where
  "file_fate P target fs fs' \<longleftrightarrow>
     (node_at fs target \<noteq> None \<longrightarrow> node_at fs' target = node_at fs target)
     \<and> (\<forall>d t. node_at fs target = None \<longrightarrow> node_at fs' target = Some (RegularFile d t) \<longrightarrow> P d)"

lemma fate_grows: "grows fs fs' \<Longrightarrow> file_fate P target fs fs'"
  by (auto simp: grows_def file_fate_def dest: spec [of _ target])

lemma fate_settles:
  "grows fs fs1 \<Longrightarrow> settles P (node_at fs1 target) (node_at fs' target) \<Longrightarrow> file_fate P target fs fs'"
  by (auto simp: grows_def settles_def file_fate_def dest: spec [of _ target])

lemma up_prepare_safe:
  assumes parsed: "parse_file_upload fr (max_payload ev) = Inr request" and user: "ss_username s = Some name"
    and target: "resolve_namespace_path (ss_files s) (storage_root ev @ [name]) (fu_filename request) False False
      = Inr target"
    and paths: "get_part_paths target = (partial, meta)"
    and run: "up_prepare ev fr s = (r, t)"
  obtains s1 where "grows (ss_files s) (ss_files s1)" "ss_socket s1 = ss_socket s"
    "quiet {partial, meta} s1 t"
    "\<And>plan. r = Inr (Proceed plan) \<Longrightarrow> up_target plan = target \<and> up_partial plan = partial
       \<and> up_meta plan = meta \<and> up_total_size plan = fu_total_size request"
proof -
  let ?mk = "or_file_failure ev (fu_filename request) 0 FILE_UPLOAD
    (lit ''cannot create the server storage directory'') (on_files (mkdir_parents (storage_root ev @ [name])))"
  define next_part :: "upload_plan upload_flow session_action" where
    "next_part = bindS (readS (\<lambda>s. path_exists (ss_files s) target)) (\<lambda>present.
          if present then
            fail_with ev (fu_filename request) 0 FILE_UPLOAD FILE_EXISTS (lit ''destination file already exists'') None
          else
            bindS (on_files (cleanup_expired_partial_pair partial meta (partial_ttl ev))) (\<lambda>_.
            bindS (readS ss_username) (\<lambda>username.
            returnS (Proceed \<lparr>up_filename = fu_filename request, up_total_size = fu_total_size request,
              up_start_offset = fu_start_offset request, up_target = target, up_partial = partial,
              up_meta = meta,
              up_username = (case username of None \<Rightarrow> [] | Some u \<Rightarrow> u)\<rparr>))))"
  have run': "bindF ?mk (\<lambda>_. next_part) s = (r, t)"
    using run unfolding up_prepare_def next_part_def
    by (simp add: run_first parsed user target paths session_storage_directory_def except_protocol_def
        Let_def)
  have quiet_next: "quieting.keeps {partial, meta} next_part"
    unfolding next_part_def
    by (intro quieting.keep_intros quiet_helpers quiet_files sparing_cleanup_pair) simp_all
  have planned: "r' = Inr (Proceed plan) \<Longrightarrow> up_target plan = target \<and> up_partial plan = partial
       \<and> up_meta plan = meta \<and> up_total_size plan = fu_total_size request"
    if "next_part s' = (r', t')" for s' r' t' plan
    using that by (auto simp: next_part_def state_simps dest: fail_with_return split: if_splits)
  obtain q s2 where mk: "?mk s = (q, s2)" by fastforce
  obtain q0 s0 where mk0: "on_files (mkdir_parents (storage_root ev @ [name])) s = (q0, s0)" "quiet {} s0 s2"
      "\<And>a. q = Inr (Proceed a) \<Longrightarrow> s2 = s0"
    using mk by (rule or_file_failure_run) blast
  have s0: "grows (ss_files s) (ss_files s0)" "ss_socket s0 = ss_socket s"
    using mk0(1) by (auto simp: on_files_apply dest: mkdir_parents_grows split: prod.splits)
  show ?thesis
  proof (cases "\<exists>a. q = Inr (Proceed a)")
    case True
    then obtain a where q: "q = Inr (Proceed a)" by blast
    then have "next_part s0 = (r, t)" using run' mk mk0(3) by (simp add: bindF_def)
    with that [OF s0] quieting.keepsD [OF quiet_next this] planned show ?thesis by blast
  next
    case False
    then have "t = s2" "r \<noteq> Inr (Proceed plan)" for plan
      using run' mk by (cases q; auto simp: bindF_def split: flow.splits)+
    moreover have "quiet {partial, meta} s0 s2" using mk0(2) spares_mono by (auto simp: quiet_def)
    ultimately show ?thesis using that [OF s0] by auto
  qed
qed

subsection \<open>The property\<close>

lemma with_locals_run: "with_locals init act s = (r, t) \<longleftrightarrow> (\<exists>u. act (init s) = (r, u) \<and> t = us_session u)"
  by (auto simp: with_locals_def split: prod.splits)

lemma up_finally_quiet: "paths_ok plan \<Longrightarrow> uquieting.keeps (upload_area plan) (up_finally plan)"
  unfolding up_finally_def
  by (intro uquieting.keep_intros uquiet_session quiet_discard paths_okD)

lemma transfer_and_cleanup_settles:
  assumes ok: "paths_ok plan" and kept: "kept_prefix plan s (off, hashed)"
    and run: "with_locals (start_locals off hashed)
      (finallyS (up_transfer ev plan (up_partial plan) off) (up_finally plan)) s = (r, t)"
  shows "settles (verified ev (up_total_size plan) (ss_socket s)) (target_node plan s) (target_node plan t)"
proof -
  let ?s = "start_locals off hashed s"
  obtain u where fin: "finallyS (up_transfer ev plan (up_partial plan) off) (up_finally plan) ?s = (r, u)"
    and t: "t = us_session u" using run by (auto simp: with_locals_run)
  obtain q v where tr: "up_transfer ev plan (up_partial plan) off ?s = (q, v)" by fastforce
  have "settles (verified ev (up_total_size plan) (ss_socket (us_session ?s)))
      (target_node plan (us_session ?s)) (target_node plan (us_session v))"
    using up_transfer_settles [OF ok, of ?s ev q v] kept tr
    by (simp add: start_locals_def kept_prefix_def)
  moreover obtain w where "up_finally plan v = (w, u)"
    using fin tr by (auto simp: finallyS_def split: prod.splits sum.splits)
  then have "uquiet (upload_area plan) v u" by (rule uquieting.keepsD [OF up_finally_quiet [OF ok]])
  then have "target_node plan (us_session u) = target_node plan (us_session v)"
    using target_quiet [OF ok] by (simp add: uquiet_def)
  ultimately show ?thesis by (simp add: t start_locals_def)
qed

lemma after_prepare_settles:
  assumes ok: "paths_ok plan" and can: "canonical (ss_files s) (up_partial plan)"
    and run: "bindF (up_resume ev plan) (\<lambda>(resume_offset, hashed).
        bindF (up_open ev plan resume_offset) (\<lambda>output.
        with_locals (start_locals resume_offset hashed)
          (finallyS (up_transfer ev plan output resume_offset) (up_finally plan)))) s = (r, t)"
  shows "settles (verified ev (up_total_size plan) (ss_socket s)) (target_node plan s) (target_node plan t)"
proof -
  obtain q s1 where rs: "up_resume ev plan s = (q, s1)" by fastforce
  have k1: "quiet (upload_area plan) s s1" by (rule quieting.keepsD [OF up_resume_quiet [OF ok] rs])
  show ?thesis
  proof (cases "\<exists>p. q = Inr (Proceed p)")
    case False
    then have "t = s1" using run rs by (cases q) (auto simp: bindF_def split: flow.splits)
    then show ?thesis using target_quiet [OF ok k1] by (simp add: settles_def)
  next
    case True
    then obtain off hashed where q: "q = Inr (Proceed (off, hashed))" by auto
    have kept: "kept_prefix plan s1 (off, hashed)" using up_resume_prefix [OF can] rs q by blast
    obtain q2 s2 where op: "up_open ev plan off s1 = (q2, s2)" by fastforce
    have "quiet (upload_area plan) s1 s2 \<and> (\<forall>out. q2 = Inr (Proceed out) \<longrightarrow> out = up_partial plan
        \<and> take (length hashed) (file_data (ss_files s2) (up_partial plan)) = hashed)"
      by (rule up_open_safe [OF ok canonical_quiet [OF k1 can] _ op]) (use kept in \<open>simp add: kept_prefix_def\<close>)
    then have k2: "quiet (upload_area plan) s s2"
      and out: "\<And>out. q2 = Inr (Proceed out) \<Longrightarrow> out = up_partial plan \<and> kept_prefix plan s2 (off, hashed)"
      using quieting.R_trans [OF k1] kept by (auto simp: kept_prefix_def)
    show ?thesis
    proof (cases "\<exists>out. q2 = Inr (Proceed out)")
      case False
      then have "t = s2" using run rs q op by (cases q2) (auto simp: bindF_def split: flow.splits)
      then show ?thesis using target_quiet [OF ok k2] by (simp add: settles_def)
    next
      case True
      then have q2: "q2 = Inr (Proceed (up_partial plan))" and kept2: "kept_prefix plan s2 (off, hashed)"
        using out by auto
      have rest: "with_locals (start_locals off hashed)
          (finallyS (up_transfer ev plan (up_partial plan) off) (up_finally plan)) s2 = (r, t)"
        using run rs q op q2 by (simp add: bindF_def)
      have "stream_step (ss_socket s) (ss_socket s2)" using k2 by (simp add: quiet_def)
      from settles_mono [OF transfer_and_cleanup_settles [OF ok kept2 rest] verified_earlier [OF this]]
      show ?thesis by (simp add: target_quiet [OF ok k2])
    qed
  qed
qed

lemma partial_canonical:
  assumes "canonical fs target" "get_part_paths target = (partial, meta)" "\<not> is_symlink fs partial"
  shows "canonical fs partial"
proof -
  note d = part_paths_distinct [OF assms(2)]
  have "canonical fs (butlast target)"
    using canonical_append [of fs "butlast target" "[last target]"] assms(1)
    by (cases "target = []") simp_all
  moreover have "partial = butlast target @ [last partial]"
    using d append_butlast_last_id [of partial] by simp
  ultimately show ?thesis using assms(3) canonical_snoc by metis
qed

text \<open>
  C1. An upload never overwrites and publishes only verified data: whatever frames the client
  sends, wherever the connection breaks and whichever file operation fails, a node that was at
  the target name is untouched; and a file that appears there has exactly the announced
  size and, on a stream that delivers, a well-formed \<open>FILE_CHECKSUM\<close> frame on the
  stream carries its SHA-256 digest and its size.  (The \<open>.part\<close> file must not be a symbolic
  link at the start, which only someone with access to the server's disk could make.)
\<close>

theorem upload_publishes_only_verified:
  assumes "parse_file_upload fr (max_payload ev) = Inr request" and "ss_username s = Some name"
    and "resolve_namespace_path (ss_files s) (storage_root ev @ [name]) (fu_filename request) False False
      = Inr target"
    and "get_part_paths target = (partial, meta)" and "\<not> is_symlink (ss_files s) partial"
    and "handle_upload ev fr s = (r, t)"
  shows "(node_at (ss_files s) target \<noteq> None \<longrightarrow> node_at (ss_files t) target = node_at (ss_files s) target)
    \<and> (\<forall>d tm. node_at (ss_files s) target = None \<longrightarrow> node_at (ss_files t) target = Some (RegularFile d tm) \<longrightarrow>
        int (length d) = fu_total_size request
        \<and> (delivers (ss_socket s) \<longrightarrow> announced ev (fu_total_size request) (pending (ss_socket s)) d))"
proof -
  obtain q u where pr: "up_prepare ev fr s = (q, u)" by fastforce
  obtain s1 where s1: "grows (ss_files s) (ss_files s1)" "ss_socket s1 = ss_socket s" "quiet {partial, meta} s1 u"
    and plan: "\<And>plan. q = Inr (Proceed plan) \<Longrightarrow> up_target plan = target \<and> up_partial plan = partial
       \<and> up_meta plan = meta \<and> up_total_size plan = fu_total_size request"
    by (rule up_prepare_safe [OF assms(1-4) pr]) blast
  have "canonical (ss_files s) target"
    using resolve_namespace_path_Inr [OF assms(3)] resolve_canonical by blast
  from canonical_grows [OF s1(1) partial_canonical [OF this assms(4,5)]]
  have can: "canonical (ss_files u) partial" by (rule canonical_quiet [OF s1(3)])
  note distinct = part_paths_distinct [OF assms(4)]
  have same: "node_at (ss_files u) target = node_at (ss_files s1) target"
    using node_spared [OF s1(3)] distinct(1,2) by auto
  have "settles (verified ev (fu_total_size request) (ss_socket u)) (node_at (ss_files u) target) (node_at (ss_files t) target)"
  proof (cases "\<exists>plan. q = Inr (Proceed plan)")
    case False
    then have "t = u" using assms(6) pr
      by (cases q) (auto simp: handle_upload_def bindF_def bindS_def split: flow.splits)
    then show ?thesis by (simp add: settles_def)
  next
    case True
    then obtain plan where q: "q = Inr (Proceed plan)" by blast
    note p = plan [OF q]
    obtain q3 where "bindF (up_resume ev plan) (\<lambda>(resume_offset, hashed).
        bindF (up_open ev plan resume_offset) (\<lambda>output.
        with_locals (start_locals resume_offset hashed)
          (finallyS (up_transfer ev plan output resume_offset) (up_finally plan)))) u = (q3, t)"
      using assms(6) pr q
      by (auto simp: handle_upload_def bindF_def [of "up_prepare ev fr"] bindS_def split: prod.splits sum.splits)
    from after_prepare_settles [OF _ _ this] show ?thesis
      using p can assms(4) by (simp add: paths_ok_def target_node_def)
  qed
  then have "settles (verified ev (fu_total_size request) (ss_socket s)) (node_at (ss_files s1) target) (node_at (ss_files t) target)"
    unfolding same using s1(2,3) by (auto intro: settles_mono verified_earlier simp: quiet_def)
  from fate_settles [OF s1(1) this] show ?thesis by (auto simp: file_fate_def verified_def)
qed

definition example_upload_frame :: frame where
  "example_upload_frame = \<lparr>fr_opcode = FILE_UPLOAD,
     fr_payload = [0, 1, 102, 0, 0, 0, 0, 0, 0, 0, 3, 0, 0, 0, 0, 0, 0, 0, 0], fr_user_id = 1\<rparr>"

lemma parse_example_upload:
  "parse_file_upload example_upload_frame (max_payload example_environment)
     = Inr \<lparr>fu_filename = [102], fu_total_size = 3, fu_start_offset = 0\<rparr>"
proof -
  have name: "utf8_encode [102] = Some [102]" "utf8_decode [102] = Some [102]"
  proof -
    show "utf8_encode [102] = Some [102]" by (subst utf8_encode_ascii) auto
    then show "utf8_decode [102] = Some [102]" by (simp add: utf8.encode_iff_decode)
  qed
  show ?thesis
    by (simp add: example_upload_frame_def parse_file_upload_def validate_frame_def
        validate_payload_size_def decode_filename_def rd_uint16_def rd_uint64_def
        rd_uint_def rd_read_def rd_finish_def payload_reader_def unpack_uint_def name
        encode_filename_def lit_def MAX_FILENAME_BYTES_def eval_bytes)
qed

lemma resolve_example_upload:
  "resolve_namespace_path example_files [[115], [97]] [102] False False = Inr [[115], [97], [102]]"
  using resolve_example by (auto simp: resolve_namespace_path_def result_simps)

theorem upload_publishes_only_verified_witness:
  "node_at (ss_files (snd (handle_upload example_environment example_upload_frame
      (example_session RECEIVING_UPLOAD [])))) [[115], [97], [102]] = Some (RegularFile [1, 2, 3] 0)"
proof -
  let ?s = "example_session RECEIVING_UPLOAD []"
  obtain r t where run: "handle_upload example_environment example_upload_frame ?s = (r, t)" by fastforce
  have files: "ss_files ?s = example_files" and name: "ss_username ?s = Some [97]"
    by (simp_all add: example_session_def)
  obtain partial meta where paths: "get_part_paths [[115], [97], [102]] = (partial, meta)" by fastforce
  have link: "\<not> is_symlink example_files partial"
    using paths by (auto simp: get_part_paths_def with_name_def path_name_def is_symlink_def example_nodes lit_def)
  from upload_publishes_only_verified [OF parse_example_upload name _ paths _ run]
  have "node_at (ss_files t) [[115], [97], [102]] = node_at example_files [[115], [97], [102]]"
    using resolve_example_upload link by (simp add: files example_nodes)
  then show ?thesis by (simp add: run example_nodes)
qed

end
