(* ===== verification/Download.thy ===== *)
theory Download
  imports Upload
begin

section \<open>FILE_DOWNLOAD\<close>

text \<open>
  \<open>src/hcmus_socket/server/download.py\<close>.  \<open>handle_download\<close> is one function; its parts are
  definitions of their own in the order of the source: the checks of the request
  (\<open>dl_check_request\<close>), the path (\<open>resolve_download_path\<close>), opening it (\<open>dl_open\<close>), the offer
  (\<open>dl_offer\<close>), the digest of the whole file, the chunk loop and the end of the transfer
  (\<open>dl_finish\<close>).  \<open>dl_guard\<close> is the \<open>except OSError\<close> clause: it names \<open>request.offset\<close>, which
  \<open>FileDownload\<close> does not have, so it raises \<open>AttributeError\<close> where it means to answer with an
  \<open>ERROR\<close> frame.
\<close>

record download_result =
  dr_filename :: pystr
  dr_bytes_sent :: int
  dr_success :: bool
  dr_checksum_matched :: "bool option"
  dr_error_code :: "error_code option"

type_synonym 'a download_flow = "(download_result, 'a) flow"

subsection \<open>Small helpers\<close>

definition dl_result :: "pystr \<Rightarrow> int \<Rightarrow> bool \<Rightarrow> bool option \<Rightarrow> error_code option \<Rightarrow> download_result" where
  "dl_result filename bytes_sent success checksum_matched code =
     \<lparr>dr_filename = filename, dr_bytes_sent = bytes_sent, dr_success = success,
      dr_checksum_matched = checksum_matched, dr_error_code = code\<rparr>"

definition dl_send_error :: "environment \<Rightarrow> opcode \<Rightarrow> error_code \<Rightarrow> pystr \<Rightarrow> unit session_action" where
  "dl_send_error ev failed_opcode code message =
     bindS (readS ss_user_id) (\<lambda>user_id.
     bindS (liftS (make_error_frame
       \<lparr>em_failed_opcode = Known failed_opcode, em_error_code = code, em_message = message\<rparr>
       (max_payload ev) user_id))
       (session_send ev))"

definition dl_fail ::
  "environment \<Rightarrow> pystr \<Rightarrow> int \<Rightarrow> error_code \<Rightarrow> pystr \<Rightarrow> opcode \<Rightarrow> 'a download_flow session_action" where
  "dl_fail ev filename bytes_sent code message failed_opcode =
     bindS (dl_send_error ev failed_opcode code message) (\<lambda>_.
     returnS (Return (dl_result filename bytes_sent False None (Some code))))"

definition resolve_download_path ::
  "file_system \<Rightarrow> path \<Rightarrow> pystr \<Rightarrow> exc + path \<times> (error_code \<times> pystr) option" where
  "resolve_download_path fs storage_directory filename =
     (if is_internal_file filename then
        Inr (storage_directory @ [filename],
          Some (FILE_NOT_FOUND, lit ''internal files are not available for download''))
      else
        (case resolve_namespace_path fs storage_directory filename False True of
           Inr candidate \<Rightarrow> Inr (candidate, None)
         | Inl error \<Rightarrow>
             (case protocol_parts error of
                None \<Rightarrow> Inl error
              | Some (code, message) \<Rightarrow>
                  Inr (storage_directory @ [filename],
                    Some (if code = FILE_NOT_FOUND \<or> code = INVALID_FILENAME then FILE_NOT_FOUND
                          else code, message)))))"

definition validate_ack :: "frame \<Rightarrow> opcode \<Rightarrow> int \<Rightarrow> int \<Rightarrow> exc + (error_code \<times> pystr) option" where
  "validate_ack fr expected_opcode expected_offset max_payload_bytes =
     (if fr_opcode fr = ERROR then
        bindE (parse_error fr max_payload_bytes) (\<lambda>remote.
        Inr (Some (em_error_code remote, em_message remote)))
      else if fr_opcode fr \<noteq> ACK then
        Inr (Some (INVALID_STATE, lit ''expected ACK, got '' @ opcode_name (fr_opcode fr)))
      else
        (case parse_acknowledgement fr max_payload_bytes of
           Inl error \<Rightarrow>
             (case protocol_parts error of
                None \<Rightarrow> Inl error
              | Some (code, message) \<Rightarrow> Inr (Some (code, message)))
         | Inr ack \<Rightarrow>
             if ak_acknowledged_opcode ack \<noteq> expected_opcode then
               Inr (Some (INVALID_STATE, lit ''expected ACK for '' @ opcode_name expected_opcode
                 @ lit '', got '' @ opcode_name (ak_acknowledged_opcode ack)))
             else if ak_next_offset ack \<noteq> expected_offset then
               Inr (Some (OFFSET_MISMATCH, lit ''expected next_offset '' @ dec_int expected_offset
                 @ lit '', got '' @ dec_int (ak_next_offset ack)))
             else Inr None))"

subsection \<open>Before the transfer\<close>

definition dl_check_request :: "environment \<Rightarrow> file_download \<Rightarrow> unit download_flow session_action" where
  "dl_check_request ev request =
     bindS (readS ss_user_id) (\<lambda>user_id.
     except_protocol (make_file_download_frame request (max_payload ev) user_id)
       (\<lambda>code message. dl_fail ev (fd_filename request) 0 code message FILE_DOWNLOAD)
       (\<lambda>_. returnS (Proceed ())))"

definition dl_open :: "environment \<Rightarrow> file_download \<Rightarrow> path \<Rightarrow> path download_flow session_action" where
  "dl_open ev request p =
     tryS (bindS (on_files (open_existing p)) (\<lambda>source. returnS (Proceed source)))
       (\<lambda>error.
          case error of
            FileNotFoundError _ \<Rightarrow>
              dl_fail ev (fd_filename request) 0 FILE_NOT_FOUND (lit ''file not found'') FILE_DOWNLOAD
          | _ \<Rightarrow>
              if is_permission_error error then
                dl_fail ev (fd_filename request) 0 ACCESS_DENIED
                  (lit ''cannot open file for reading'') FILE_DOWNLOAD
              else if is_os_error error then
                dl_fail ev (fd_filename request) 0 FILE_IO_ERROR
                  (lit ''cannot open file: '' @ exc_text error) FILE_DOWNLOAD
              else raiseS error)"

text \<open>The offer: \<open>FILE_INFO\<close> and the client's answer to it.\<close>

definition dl_offer ::
  "environment \<Rightarrow> file_download \<Rightarrow> int \<Rightarrow> unit download_flow session_action" where
  "dl_offer ev request total_size =
     (let filename = fd_filename request; off = fd_requested_offset request in
      bindS (readS ss_user_id) (\<lambda>user_id.
      bindS (liftS (make_file_info_frame
        \<lparr>fi_filename = filename, fi_total_size = total_size, fi_start_offset = off\<rparr>
        (max_payload ev) user_id)) (\<lambda>info.
      bindS (session_send ev info) (\<lambda>_.
      bindS (session_receive ev) (\<lambda>response.
      bindS (liftS (validate_ack response FILE_INFO off (max_payload ev))) (\<lambda>response_error.
      case response_error of
        None \<Rightarrow> returnS (Proceed ())
      | Some (code, message) \<Rightarrow>
          bindS (if fr_opcode response \<noteq> ERROR then dl_send_error ev FILE_INFO code message
                 else returnS ()) (\<lambda>_.
          returnS (Return (dl_result filename 0 False None (Some code))))))))))"

subsection \<open>Reading and sending\<close>

text \<open>The digest is taken over everything the file holds: reads of 65536 bytes up to the end.\<close>

definition READ_SIZE :: nat where "READ_SIZE = 65536"

lemma read_handle_progress:
  assumes "read_handle source pos n fs = (Inr (b # bs), fs')"
  shows "length (file_data fs' source) - (pos + length (b # bs)) < length (file_data fs source) - pos"
proof -
  from read_handle_Inr [OF assms] have c: "b # bs = take n (drop pos (file_data fs source))"
    and d: "file_data fs' source = file_data fs source" by (auto simp: lookup_same_nodes)
  have "pos < length (file_data fs source)" using c by (cases "pos < length (file_data fs source)") auto
  then show ?thesis by (simp add: d)
qed

function read_all_loop :: "path \<Rightarrow> byte list \<Rightarrow> byte list fs_action" where
  "read_all_loop source got fs =
     (case read_handle source (length got) READ_SIZE fs of
        (Inl e, fs') \<Rightarrow> (Inl e, fs')
      | (Inr [], fs') \<Rightarrow> (Inr got, fs')
      | (Inr chunk, fs') \<Rightarrow> read_all_loop source (got @ chunk) fs')"
  by pat_completeness auto

termination
  by (relation "measure (\<lambda>(source, got, fs). length (file_data fs source) - length got)")
    (auto dest!: read_handle_progress [OF sym])

declare read_all_loop.simps [simp del]

definition dl_send_chunk :: "environment \<Rightarrow> int \<Rightarrow> byte list \<Rightarrow> unit session_action" where
  "dl_send_chunk ev sent data =
     bindS (consume_bandwidth (int (length data))) (\<lambda>_.
     bindS (readS ss_user_id) (\<lambda>user_id.
     bindS (liftS (make_file_chunk_frame \<lparr>fc_offset = sent, fc_data = data\<rparr>
       (chunk_size ev) (max_payload ev) user_id))
       (session_send ev)))"

lemma dl_send_chunk_files: "dl_send_chunk ev sent data s = (r, t) \<Longrightarrow> ss_files t = ss_files s"
  by (auto simp: dl_send_chunk_def bindS_def readS_def liftS_def consume_bandwidth_def
      split: prod.splits sum.splits option.splits elim!: session_sendE)

lemma send_loop_progress:
  assumes "on_files (read_handle source (nat sent) n) s = (Inr (b # bs), t)"
    and "dl_send_chunk ev sent data t = (r, u)"
  shows "sent < int (length (file_data (ss_files s) source))
    \<and> file_data (ss_files u) source = file_data (ss_files s) source"
proof -
  obtain fs where rd: "read_handle source (nat sent) n (ss_files s) = (Inr (b # bs), fs)" "ss_files u = fs"
    using assms by (auto simp: on_files_apply split: prod.splits dest!: dl_send_chunk_files)
  have "b # bs = take n (drop (nat sent) (file_data (ss_files s) source))"
    and same: "file_data (ss_files u) source = file_data (ss_files s) source"
    using read_handle_Inr [OF rd(1)] rd(2) by (auto simp: lookup_same_nodes)
  then have "nat sent < length (file_data (ss_files s) source)"
    by (cases "nat sent < length (file_data (ss_files s) source)") auto
  then show ?thesis by (simp add: same)
qed

text \<open>\<open>source.read(-1)\<close> would read everything; the configuration keeps the chunk size positive.\<close>

function send_loop_from :: "environment \<Rightarrow> path \<Rightarrow> int \<Rightarrow> int session_action" where
  "send_loop_from ev source sent s =
     (case on_files (read_handle source (nat sent) (nat (chunk_size ev))) s of
        (Inl e, t) \<Rightarrow> (Inl e, t)
      | (Inr [], t) \<Rightarrow> (Inr sent, t)
      | (Inr (b # bs), t) \<Rightarrow>
          (case dl_send_chunk ev sent (b # bs) t of
             (Inl e, u) \<Rightarrow> (Inl e, u)
           | (Inr _, u) \<Rightarrow> send_loop_from ev source (sent + int (length (b # bs))) u))"
  by pat_completeness auto

termination
  by (relation "measure (\<lambda>(ev, source, sent, s). nat (int (length (file_data (ss_files s) source)) - sent))")
    (auto dest!: send_loop_progress [OF sym sym])

declare send_loop_from.simps [simp del]

subsection \<open>The end of the transfer\<close>

definition dl_finish ::
  "environment \<Rightarrow> file_download \<Rightarrow> int \<Rightarrow> byte list \<Rightarrow> int \<Rightarrow> download_result download_flow session_action" where
  "dl_finish ev request total_size content sent =
     (let filename = fd_filename request; n = sent - fd_requested_offset request in
      if sent \<noteq> total_size then
        dl_fail ev filename n SIZE_MISMATCH (lit ''file size changed while being read'') FILE_CHECKSUM
      else
        bindS (readS ss_user_id) (\<lambda>user_id.
        bindS (liftS (make_file_checksum_frame
          \<lparr>fk_final_size = total_size, fk_sha256_digest = ev_sha256 ev content\<rparr> (max_payload ev) user_id)) (\<lambda>fr.
        bindS (session_send ev fr) (\<lambda>_.
        bindS (session_receive ev) (\<lambda>response.
        bindS (liftS (validate_ack response FILE_CHECKSUM total_size (max_payload ev))) (\<lambda>response_error.
        case response_error of
          None \<Rightarrow> returnS (Proceed (dl_result filename n True (Some True) None))
        | Some (code, message) \<Rightarrow>
            if fr_opcode response = ERROR then
              bindS (liftS (parse_error response (max_payload ev))) (\<lambda>remote.
              returnS (Return (dl_result filename n False
                (if em_error_code remote = CHECKSUM_MISMATCH then Some False else None)
                (Some (em_error_code remote)))))
            else
              bindS (dl_send_error ev FILE_CHECKSUM code message) (\<lambda>_.
              returnS (Return (dl_result filename n False None (Some code))))))))))"

definition dl_transfer ::
  "environment \<Rightarrow> file_download \<Rightarrow> path \<Rightarrow> download_result download_flow session_action" where
  "dl_transfer ev request source =
     bindS (on_files (fstat_size source)) (\<lambda>total_size.
     let off = fd_requested_offset request in
     if off < 0 \<or> off > total_size then
       dl_fail ev (fd_filename request) 0 INVALID_PAYLOAD
         (lit ''invalid resume offset '' @ dec_int off @ lit '' for file size '' @ dec_int total_size)
         FILE_DOWNLOAD
     else
       bindF (dl_offer ev request total_size) (\<lambda>_.
       bindS (on_files (read_all_loop source [])) (\<lambda>content.
       bindS (send_loop_from ev source off) (\<lambda>sent.
       dl_finish ev request total_size content sent))))"

definition dl_guard :: "exc \<Rightarrow> 'a session_action" where
  "dl_guard error =
     (if is_os_error error \<and> \<not> (is_connection_error error \<or> is_timeout_error error) then
        raiseS (AttributeError ([39] @ lit ''FileDownload'' @ [39] @ lit '' object has no attribute '' @ [39]
         @ lit ''offset'' @ [39]))
      else raiseS error)"

definition handle_download :: "environment \<Rightarrow> file_download \<Rightarrow> download_result session_action" where
  "handle_download ev request =
     bindS
       (bindF (dl_check_request ev request) (\<lambda>_.
        bindS (session_storage_directory ev) (\<lambda>storage.
        bindS (readS ss_files) (\<lambda>fs.
        bindS (liftS (resolve_download_path fs storage (fd_filename request))) (\<lambda>(p, path_error).
        case path_error of
          Some (code, message) \<Rightarrow> dl_fail ev (fd_filename request) 0 code message FILE_DOWNLOAD
        | None \<Rightarrow>
            bindF (dl_open ev request p) (\<lambda>source.
            tryS (dl_transfer ev request source) dl_guard))))))
       (\<lambda>x. returnS (flow_result x))"

definition handle_download_frame :: "environment \<Rightarrow> frame \<Rightarrow> download_result session_action" where
  "handle_download_frame ev fr =
     bindS (liftS (parse_file_download fr (max_payload ev))) (\<lambda>request. handle_download ev request)"

subsection \<open>What a download leaves alone\<close>

lemma download_replies:
  "transfer.keeps (dl_send_error ev op code message)"
  "transfer.keeps (dl_fail ev name n code message op)"
  "transfer.keeps (dl_send_chunk ev sent data)" "transfer.keeps (dl_guard error)"
  unfolding dl_fail_def dl_send_error_def dl_send_chunk_def dl_guard_def by (intro transfer_intros)+

lemma download_send_loop: "transfer.keeps (send_loop_from ev source sent)"
proof (rule transfer.keepsI)
  show "send_loop_from ev source sent s = (r, t) \<Longrightarrow> transfer_step s t" for s r t
  proof (induction ev source sent s arbitrary: r t rule: send_loop_from.induct)
    case (1 ev source sent s)
    obtain q s1 where rd: "on_files (read_handle source (nat sent) (nat (chunk_size ev))) s = (q, s1)"
      by fastforce
    have t1: "transfer_step s s1" by (rule transfer.keepsD [OF transfer_files rd])
    show ?case
    proof (cases "\<exists>b bs. q = Inr (b # bs)")
      case False
      then have "t = s1"
        using "1.prems" rd by (auto simp: send_loop_from.simps [of ev source sent s] split: sum.splits list.splits)
      with t1 show ?thesis by simp
    next
      case True
      then obtain b bs where q: "q = Inr (b # bs)" by blast
      obtain q2 s2 where sd: "dl_send_chunk ev sent (b # bs) s1 = (q2, s2)" by fastforce
      have t2: "transfer_step s s2"
        using t1 transfer.keepsD [OF download_replies(3) sd] by (rule transfer.R_trans)
      show ?thesis
      proof (cases q2)
        case (Inl e)
        then show ?thesis
          using "1.prems" rd q sd t2 by (simp add: send_loop_from.simps [of ev source sent s])
      next
        case (Inr v)
        then have "send_loop_from ev source (sent + int (length (b # bs))) s2 = (r, t)"
          using "1.prems" rd q sd by (simp add: send_loop_from.simps [of ev source sent s])
        from "1.IH" [OF rd [symmetric] q refl sd [symmetric] Inr this] t2 show ?thesis
          using transfer.R_trans by simp
      qed
    qed
  qed
qed

lemma dl_open_cases:
  "(case error of FileNotFoundError x \<Rightarrow> a | _ \<Rightarrow> b) = (if \<exists>x. error = FileNotFoundError x then a else b)"
  by (cases error) auto

lemma handle_download_keeps: "transfer.keeps (handle_download_frame ev fr)"
  unfolding handle_download_frame_def handle_download_def dl_check_request_def dl_open_def dl_open_cases
    dl_transfer_def dl_offer_def dl_finish_def Let_def
  by (intro transfer_intros transfer_except download_replies download_send_loop)

end
