(* ===== verification/Listing.thy ===== *)
theory Listing
  imports ServerSession "HOL-Library.List_Lexorder"
begin

section \<open>FILE_LIST\<close>

text \<open>
  \<open>src/hcmus_socket/server/listing.py\<close>.  \<open>list_storage\<close> walks the directory in the order the
  file system gives, skips internal names, symbolic links and everything but regular files,
  and sorts the entries by name (Python compares strings by code points, as the
  lexicographic order on lists does; both sorts are stable).
\<close>

text \<open>\<open>path.stat()\<close>: the node with links followed; \<open>S_ISREG\<close> and \<open>st_size\<close> read it.\<close>

definition stat_node :: "path \<Rightarrow> node fs_action" where
  "stat_node p = os_call (\<lambda>fs.
     case followed fs p of None \<Rightarrow> (Inl not_found, fs) | Some x \<Rightarrow> (Inr x, fs))"

definition regular_entry :: "path \<Rightarrow> node \<Rightarrow> file_entry list" where
  "regular_entry p x =
     (case x of
        RegularFile d t \<Rightarrow> [\<lparr>fe_filename = path_name p, fe_file_size = int (length d)\<rparr>]
      | _ \<Rightarrow> [])"

fun collect_entries :: "path list \<Rightarrow> file_entry list fs_action" where
  "collect_entries [] = returnS []"
| "collect_entries (p # ps) =
     bindS (readS (\<lambda>fs. is_internal_file (path_name p) \<or> is_symlink fs p)) (\<lambda>skip.
     if skip then collect_entries ps
     else
       bindS (stat_node p) (\<lambda>metadata.
       bindS (collect_entries ps) (\<lambda>entries.
       returnS (regular_entry p metadata @ entries))))"

definition list_storage :: "path \<Rightarrow> file_entry list fs_action" where
  "list_storage storage_directory =
     bindS (iterdir storage_directory) (\<lambda>children.
     bindS (collect_entries children) (\<lambda>entries.
     returnS (sort_key fe_filename entries)))"

definition listing_error :: "environment \<Rightarrow> error_code \<Rightarrow> pystr \<Rightarrow> frame session_action" where
  "listing_error ev code message =
     bindS (readS ss_user_id) (\<lambda>user_id.
     liftS (make_error_frame
       \<lparr>em_failed_opcode = Known FILE_LIST, em_error_code = code, em_message = message\<rparr>
       (max_payload ev) user_id))"

definition handle_file_list :: "environment \<Rightarrow> frame \<Rightarrow> frame session_action" where
  "handle_file_list ev fr =
     bindS (liftS (parse_file_list fr (max_payload ev))) (\<lambda>_.
     bindS
       (tryS
         (bindS (session_storage_directory ev) (\<lambda>storage.
          bindS (on_files (list_storage storage)) (\<lambda>entries.
          bindS (readS ss_user_id) (\<lambda>user_id.
          liftS (make_file_list_response_frame entries (max_payload ev) user_id)))))
         (\<lambda>error.
            if is_permission_error error then listing_error ev ACCESS_DENIED (exc_text error)
            else if is_os_error error then listing_error ev FILE_IO_ERROR (exc_text error)
            else
              (case protocol_parts error of
                 None \<Rightarrow> raiseS error
               | Some (code, _) \<Rightarrow>
                   if code \<noteq> PAYLOAD_TOO_LARGE then raiseS error
                   else listing_error ev LIST_TOO_LARGE (lit ''file list exceeds the configured payload limit''))))
       (\<lambda>response.
          bindS (session_send ev response) (\<lambda>_. returnS response)))"

lemma transfer_listing_error: "transfer.keeps (listing_error ev code message)"
  unfolding listing_error_def by (intro transfer_intros)

lemma handle_file_list_keeps: "transfer.keeps (handle_file_list ev fr)"
  unfolding handle_file_list_def by (intro transfer_intros transfer_listing_error)

end
