(* ===== verification/FilenameLocks.thy ===== *)
theory FilenameLocks
  imports Protocol "HOL-Library.AList"
begin

section \<open>Reference-counted filename locks\<close>

text \<open>
  \<open>src/hcmus_socket/server/filename_locks.py\<close>.  \<open>hold\<close> is four atomic pieces that the threads
  of the server interleave freely: \<open>hold_enter\<close> (the first \<open>with self._guard\<close> block),
  \<open>hold_acquire\<close> (\<open>entry.lock.acquire\<close>, which blocks while the lock is taken), \<open>hold_release\<close>
  (\<open>entry.lock.release\<close> in the \<open>finally\<close>) and \<open>hold_leave\<close> (the second guarded block).  The
  \<open>_LockEntry\<close> objects live in a store, because a thread keeps the object it found while the
  dictionary may already map the key to nothing or to a newer one.  A thread whose \<open>acquire\<close>
  raises goes straight to \<open>hold_leave\<close>, as the \<open>finally\<close> does with \<open>acquired = False\<close>.
\<close>

subsection \<open>State and the four pieces of \<open>hold\<close>\<close>

type_synonym filename_key = "pystr \<times> pystr"

record lock_entry =
  le_locked :: bool
  le_references :: int

record lock_registry =
  lk_entries :: "(filename_key \<times> nat) list"
  lk_store :: "nat \<Rightarrow> lock_entry"
  lk_next :: nat

definition empty_locks :: lock_registry where
  "empty_locks = \<lparr>lk_entries = [], lk_store = (\<lambda>_. \<lparr>le_locked = False, le_references = 0\<rparr>),
     lk_next = 0\<rparr>"

definition validate_key :: "pystr \<Rightarrow> pystr \<Rightarrow> exc + filename_key" where
  "validate_key namespace filename =
     (if filename = [] then Inl (ValueError (lit ''filename must be non-empty text''))
      else Inr (namespace, filename))"

definition add_reference :: "int \<Rightarrow> nat \<Rightarrow> lock_registry \<Rightarrow> lock_registry" where
  "add_reference d a reg = reg\<lparr>lk_store := (lk_store reg)(a :=
     (lk_store reg a)\<lparr>le_references := le_references (lk_store reg a) + d\<rparr>)\<rparr>"

definition set_locked :: "bool \<Rightarrow> nat \<Rightarrow> lock_registry \<Rightarrow> lock_registry" where
  "set_locked b a reg = reg\<lparr>lk_store := (lk_store reg)(a := (lk_store reg a)\<lparr>le_locked := b\<rparr>)\<rparr>"

definition hold_enter :: "filename_key \<Rightarrow> lock_registry \<Rightarrow> nat \<times> lock_registry" where
  "hold_enter key reg =
     (case map_of (lk_entries reg) key of
        Some a \<Rightarrow> (a, add_reference 1 a reg)
      | None \<Rightarrow>
          let a = lk_next reg;
              reg1 = reg\<lparr>lk_store := (lk_store reg)(a := \<lparr>le_locked = False, le_references = 0\<rparr>),
                         lk_next := a + 1,
                         lk_entries := AList.update key a (lk_entries reg)\<rparr> in
          (a, add_reference 1 a reg1))"

definition hold_acquire :: "nat \<Rightarrow> lock_registry \<Rightarrow> lock_registry option" where
  "hold_acquire a reg = (if le_locked (lk_store reg a) then None else Some (set_locked True a reg))"

definition hold_release :: "nat \<Rightarrow> lock_registry \<Rightarrow> lock_registry" where
  "hold_release a reg = set_locked False a reg"

definition hold_leave :: "filename_key \<Rightarrow> nat \<Rightarrow> lock_registry \<Rightarrow> lock_registry" where
  "hold_leave key a reg =
     (let reg1 = add_reference (- 1) a reg in
      if le_references (lk_store reg1 a) = 0 then
        reg1\<lparr>lk_entries := AList.delete key (lk_entries reg1)\<rparr>
      else reg1)"

definition locks_snapshot :: "lock_registry \<Rightarrow> filename_key list" where
  "locks_snapshot reg = map fst (lk_entries reg)"

definition active_key_count :: "lock_registry \<Rightarrow> nat" where
  "active_key_count reg = length (lk_entries reg)"

subsection \<open>Threads\<close>

datatype hold_state =
    Outside
  | Waiting filename_key nat \<comment> \<open>counted, before or blocked in \<open>acquire\<close>\<close>
  | Inside filename_key nat  \<comment> \<open>in the body of the \<open>with\<close> statement\<close>
  | Leaving filename_key nat \<comment> \<open>in the \<open>finally\<close>, lock not held\<close>

type_synonym lock_world = "lock_registry \<times> (nat \<Rightarrow> hold_state)"

inductive hold_step :: "lock_world \<Rightarrow> lock_world \<Rightarrow> bool" where
  enter: "pcs t = Outside \<Longrightarrow> validate_key namespace filename = Inr key \<Longrightarrow>
    hold_enter key reg = (a, reg') \<Longrightarrow> hold_step (reg, pcs) (reg', pcs(t := Waiting key a))"
| acquire: "pcs t = Waiting key a \<Longrightarrow> hold_acquire a reg = Some reg' \<Longrightarrow>
    hold_step (reg, pcs) (reg', pcs(t := Inside key a))"
| interrupted: "pcs t = Waiting key a \<Longrightarrow> hold_step (reg, pcs) (reg, pcs(t := Leaving key a))"
| release: "pcs t = Inside key a \<Longrightarrow>
    hold_step (reg, pcs) (hold_release a reg, pcs(t := Leaving key a))"
| leave: "pcs t = Leaving key a \<Longrightarrow>
    hold_step (reg, pcs) (hold_leave key a reg, pcs(t := Outside))"

inductive hold_reachable :: "lock_world \<Rightarrow> bool" where
  start: "hold_reachable (empty_locks, \<lambda>_. Outside)"
| step: "hold_reachable w \<Longrightarrow> hold_step w w' \<Longrightarrow> hold_reachable w'"

subsection \<open>The invariant\<close>

declare split_paired_All [simp del] split_paired_Ex [simp del]

fun user_of :: "hold_state \<Rightarrow> (filename_key \<times> nat) option" where
  "user_of Outside = None"
| "user_of (Waiting k a) = Some (k, a)"
| "user_of (Inside k a) = Some (k, a)"
| "user_of (Leaving k a) = Some (k, a)"

definition users :: "(nat \<Rightarrow> hold_state) \<Rightarrow> nat \<Rightarrow> nat set" where
  "users pcs a = {t. \<exists>k. user_of (pcs t) = Some (k, a)}"

definition holders :: "(nat \<Rightarrow> hold_state) \<Rightarrow> nat \<Rightarrow> nat set" where
  "holders pcs a = {t. \<exists>k. pcs t = Inside k a}"

definition dict_ok :: "lock_registry \<Rightarrow> (nat \<Rightarrow> hold_state) \<Rightarrow> bool" where
  "dict_ok reg pcs \<longleftrightarrow>
     (\<forall>k a. map_of (lk_entries reg) k = Some a \<longrightarrow> users pcs a \<noteq> {} \<and> a < lk_next reg)
     \<and> (\<forall>t k a. user_of (pcs t) = Some (k, a) \<longrightarrow> map_of (lk_entries reg) k = Some a)
     \<and> (\<forall>k k' a. map_of (lk_entries reg) k = Some a \<longrightarrow> map_of (lk_entries reg) k' = Some a \<longrightarrow> k = k')"

definition counts_ok :: "lock_registry \<Rightarrow> (nat \<Rightarrow> hold_state) \<Rightarrow> bool" where
  "counts_ok reg pcs \<longleftrightarrow> (\<forall>a < lk_next reg.
     finite (users pcs a) \<and> le_references (lk_store reg a) = int (card (users pcs a)))"

definition exclusive :: "lock_registry \<Rightarrow> (nat \<Rightarrow> hold_state) \<Rightarrow> bool" where
  "exclusive reg pcs \<longleftrightarrow> (\<forall>a < lk_next reg.
     if le_locked (lk_store reg a) then \<exists>t. holders pcs a = {t} else holders pcs a = {})"

definition locks_ok :: "lock_world \<Rightarrow> bool" where
  "locks_ok w \<longleftrightarrow> (case w of (reg, pcs) \<Rightarrow> dict_ok reg pcs \<and> counts_ok reg pcs \<and> exclusive reg pcs)"

lemma users_upd: "users (pcs(t := s)) a =
    (if \<exists>k. user_of s = Some (k, a) then insert t (users pcs a) else users pcs a - {t})"
  by (auto simp: users_def)

lemma holders_upd: "holders (pcs(t := s)) a =
    (if \<exists>k. s = Inside k a then insert t (holders pcs a) else holders pcs a - {t})"
  by (auto simp: holders_def)

lemma holders_users: "holders pcs a \<subseteq> users pcs a"
  by (auto simp: holders_def users_def)

lemma user_known: "dict_ok reg pcs \<Longrightarrow> user_of (pcs t) = Some (k, a) \<Longrightarrow> a < lk_next reg"
  unfolding dict_ok_def by blast

lemma same_user:
  assumes "user_of (pcs t) = user_of s"
  shows "users (pcs(t := s)) a = users pcs a"
proof -
  have "user_of ((pcs(t := s)) u) = user_of (pcs u)" for u using assms by simp
  then show ?thesis by (simp only: users_def)
qed

text \<open>Pieces that only move the lock: the dictionary and the counts do not change.\<close>

lemma same_user_dict:
  "user_of (pcs t) = user_of s \<Longrightarrow> lk_entries reg' = lk_entries reg \<Longrightarrow> lk_next reg' = lk_next reg \<Longrightarrow>
     dict_ok reg pcs \<Longrightarrow> dict_ok reg' (pcs(t := s))"
  unfolding dict_ok_def by (simp add: same_user) (metis fun_upd_apply)

lemma same_user_counts:
  "user_of (pcs t) = user_of s \<Longrightarrow> lk_next reg' = lk_next reg \<Longrightarrow>
     (\<And>a. le_references (lk_store reg' a) = le_references (lk_store reg a)) \<Longrightarrow>
     counts_ok reg pcs \<Longrightarrow> counts_ok reg' (pcs(t := s))"
  by (simp add: counts_ok_def same_user)

lemma step_acquire:
  assumes "locks_ok (reg, pcs)" "pcs t = Waiting k a" "hold_acquire a reg = Some reg'"
  shows "locks_ok (reg', pcs(t := Inside k a))"
proof -
  have reg': "reg' = set_locked True a reg" "\<not> le_locked (lk_store reg a)"
    using assms(3) by (auto simp: hold_acquire_def split: if_splits)
  have a: "a < lk_next reg" using assms(1,2) user_known [of reg pcs t k a] by (auto simp: locks_ok_def)
  then have "holders pcs a = {}" using assms(1) reg'(2) by (auto simp: locks_ok_def exclusive_def)
  then have "exclusive reg' (pcs(t := Inside k a))"
    using assms(1,2) by (auto simp: locks_ok_def exclusive_def reg'(1) set_locked_def holders_upd)
      (auto simp: holders_def)
  moreover have "dict_ok reg' (pcs(t := Inside k a))" "counts_ok reg' (pcs(t := Inside k a))"
    using assms(1,2) same_user_dict [of pcs t "Inside k a" reg' reg]
      same_user_counts [of pcs t "Inside k a" reg' reg]
    by (simp_all add: locks_ok_def reg'(1) set_locked_def)
  ultimately show ?thesis by (simp add: locks_ok_def)
qed

lemma step_interrupted:
  assumes "locks_ok (reg, pcs)" "pcs t = Waiting k a"
  shows "locks_ok (reg, pcs(t := Leaving k a))"
proof -
  have "holders (pcs(t := Leaving k a)) b = holders pcs b" for b
    using assms(2) by (auto simp: holders_def)
  moreover have "dict_ok reg (pcs(t := Leaving k a))" "counts_ok reg (pcs(t := Leaving k a))"
    using assms same_user_dict [of pcs t "Leaving k a" reg reg]
      same_user_counts [of pcs t "Leaving k a" reg reg] by (simp_all add: locks_ok_def)
  ultimately show ?thesis using assms by (simp add: locks_ok_def exclusive_def)
qed

lemma step_release:
  assumes "locks_ok (reg, pcs)" "pcs t = Inside k a"
  shows "locks_ok (hold_release a reg, pcs(t := Leaving k a))"
proof -
  have a: "a < lk_next reg" using assms(1,2) user_known [of reg pcs t k a] by (auto simp: locks_ok_def)
  have t: "t \<in> holders pcs a" using assms(2) by (auto simp: holders_def)
  with a assms(1) have "holders pcs a = {t}"
    by (auto simp: locks_ok_def exclusive_def split: if_splits)
  moreover have "t \<notin> holders pcs b" if "b \<noteq> a" for b using assms(2) that by (auto simp: holders_def)
  ultimately have "exclusive (hold_release a reg) (pcs(t := Leaving k a))"
    using assms(1) by (auto simp: locks_ok_def exclusive_def hold_release_def set_locked_def holders_upd)
  moreover have "dict_ok (hold_release a reg) (pcs(t := Leaving k a))"
      "counts_ok (hold_release a reg) (pcs(t := Leaving k a))"
    using assms same_user_dict [of pcs t "Leaving k a" "hold_release a reg" reg]
      same_user_counts [of pcs t "Leaving k a" "hold_release a reg" reg]
    by (simp_all add: locks_ok_def hold_release_def set_locked_def)
  ultimately show ?thesis by (simp add: locks_ok_def)
qed

lemma not_user: "pcs t = Outside \<Longrightarrow> t \<notin> users pcs a"
  by (simp add: users_def)

lemma step_enter_found:
  assumes ok: "locks_ok (reg, pcs)" and t: "pcs t = Outside" and k: "map_of (lk_entries reg) k = Some a"
  shows "locks_ok (add_reference 1 a reg, pcs(t := Waiting k a))"
proof -
  let ?reg = "add_reference 1 a reg" and ?pcs = "pcs(t := Waiting k a)"
  have fields: "lk_entries ?reg = lk_entries reg" "lk_next ?reg = lk_next reg"
      "le_locked (lk_store ?reg b) = le_locked (lk_store reg b)" for b
    by (simp_all add: add_reference_def)
  have out: "t \<notin> users pcs b" for b using t by (rule not_user)
  then have users: "users ?pcs b = (if b = a then insert t (users pcs a) else users pcs b)" for b
    by (auto simp: users_upd)
  have holders: "holders ?pcs b = holders pcs b" for b
    using t by (auto simp: holders_def)
  have "dict_ok ?reg ?pcs"
    using ok k unfolding locks_ok_def dict_ok_def fields users prod.case by auto
  moreover have "counts_ok ?reg ?pcs"
    using ok out [of a] unfolding locks_ok_def counts_ok_def fields users prod.case
    by (auto simp: add_reference_def)
  moreover have "exclusive ?reg ?pcs"
    using ok unfolding locks_ok_def exclusive_def fields holders prod.case by blast
  ultimately show ?thesis by (simp add: locks_ok_def)
qed

lemma step_enter_new:
  assumes ok: "locks_ok (reg, pcs)" and t: "pcs t = Outside" and k: "map_of (lk_entries reg) k = None"
    and reg': "hold_enter k reg = (a, reg')"
  shows "locks_ok (reg', pcs(t := Waiting k a))"
proof -
  let ?pcs = "pcs(t := Waiting k a)"
  have a: "a = lk_next reg" and fields: "lk_next reg' = a + 1"
      "map_of (lk_entries reg') = (map_of (lk_entries reg))(k \<mapsto> a)"
      "le_references (lk_store reg' a) = 1" "\<not> le_locked (lk_store reg' a)"
    and old: "b \<noteq> a \<Longrightarrow> lk_store reg' b = lk_store reg b" for b
    using reg' k by (auto simp: hold_enter_def Let_def add_reference_def AList.update_conv')
  have dict: "dict_ok reg pcs" using ok by (simp add: locks_ok_def)
  have fresh: "user_of (pcs u) \<noteq> Some (k', a)" for u k'
    using user_known [OF dict, of u k' a] a by auto
  then have none: "users pcs a = {}" by (simp add: users_def)
  have out: "t \<notin> users pcs b" for b using t by (rule not_user)
  then have users: "users ?pcs b = (if b = a then {t} else users pcs b)" for b
    using none by (auto simp: users_upd)
  have holders: "holders ?pcs b = holders pcs b" for b using t by (auto simp: holders_def)
  have "holders pcs a = {}" using holders_users [of pcs a] none by simp
  then have "exclusive reg' ?pcs"
    using ok fields(4) unfolding locks_ok_def exclusive_def fields(1) holders prod.case
    by (auto simp: a less_Suc_eq old)
  moreover have "counts_ok reg' ?pcs"
    using ok fields(3) unfolding locks_ok_def counts_ok_def fields(1) users prod.case
    by (auto simp: a less_Suc_eq old)
  moreover have "dict_ok reg' ?pcs"
  proof -
    have "map_of (lk_entries reg) k' = Some b \<Longrightarrow> users pcs b \<noteq> {} \<and> b < a"
        "user_of (pcs v) = Some (k', b) \<Longrightarrow> map_of (lk_entries reg) k' = Some b"
        "map_of (lk_entries reg) k' = Some b \<Longrightarrow> map_of (lk_entries reg) k'' = Some b \<Longrightarrow> k' = k''"
      for k' k'' b v
      using dict a unfolding dict_ok_def by blast+
    moreover from this(2) k have "user_of (pcs v) \<noteq> Some (k, b)" for v b
      by (metis option.distinct(1))
    ultimately show ?thesis
      using k t unfolding dict_ok_def fields users
      by (auto simp: less_Suc_eq split: if_splits)
  qed
  ultimately show ?thesis by (simp add: locks_ok_def)
qed

lemma step_leave:
  assumes ok: "locks_ok (reg, pcs)" and t: "pcs t = Leaving k a"
  shows "locks_ok (hold_leave k a reg, pcs(t := Outside))"
proof -
  let ?reg = "hold_leave k a reg" and ?pcs = "pcs(t := Outside)"
  have dict: "dict_ok reg pcs" using ok by (simp add: locks_ok_def)
  have u: "user_of (pcs t) = Some (k, a)" using t by simp
  have k: "map_of (lk_entries reg) k = Some a" using dict u unfolding dict_ok_def by blast
  have a: "a < lk_next reg" by (rule user_known [OF dict u])
  have mem: "t \<in> users pcs a" using u by (auto simp: users_def)
  have fin: "finite (users pcs a)" and refs: "le_references (lk_store reg a) = int (card (users pcs a))"
    using ok a by (auto simp: locks_ok_def counts_ok_def)
  have card: "int (card (users pcs a - {t})) = int (card (users pcs a)) - 1"
    using mem fin by (simp add: card_Diff_singleton card_gt_0_iff of_nat_diff)
      (metis One_nat_def Suc_leI card_gt_0_iff empty_iff of_nat_1 of_nat_diff)
  have users: "users ?pcs b = (if b = a then users pcs a - {t} else users pcs b)" for b
    using u by (auto simp: users_upd users_def)
  have holders: "holders ?pcs b = holders pcs b" for b using t by (auto simp: holders_def)
  have fields: "lk_next ?reg = lk_next reg" "le_locked (lk_store ?reg b) = le_locked (lk_store reg b)"
      "le_references (lk_store ?reg b) = le_references (lk_store reg b) - (if b = a then 1 else 0)"
      "map_of (lk_entries ?reg) = (if users pcs a - {t} = {} then (map_of (lk_entries reg))(k := None)
         else map_of (lk_entries reg))" for b
  proof -
    have "int (card (users pcs a)) - 1 = 0 \<longleftrightarrow> users pcs a - {t} = {}"
    proof -
      have "int (card (users pcs a)) - 1 = 0 \<longleftrightarrow> card (users pcs a - {t}) = 0"
        using card by linarith
      then show ?thesis using fin by simp
    qed
    then show "map_of (lk_entries ?reg) = (if users pcs a - {t} = {}
        then (map_of (lk_entries reg))(k := None) else map_of (lk_entries reg))"
      by (simp add: hold_leave_def add_reference_def Let_def AList.delete_conv' refs)
  qed (simp_all add: hold_leave_def add_reference_def Let_def)
  have "counts_ok ?reg ?pcs"
    using ok card fin refs unfolding locks_ok_def counts_ok_def fields users prod.case by auto
  moreover have "exclusive ?reg ?pcs"
    using ok unfolding locks_ok_def exclusive_def fields holders prod.case by blast
  moreover have "dict_ok ?reg ?pcs"
  proof (cases "users pcs a - {t} = {}")
    case False
    then show ?thesis using dict unfolding dict_ok_def fields users by auto
  next
    case True
    then have "user_of (pcs v) \<noteq> Some (k', a)" if "v \<noteq> t" for v k'
      using that by (auto simp: users_def)
    then have "map_of (lk_entries reg) k' = Some b \<Longrightarrow> k' \<noteq> k \<Longrightarrow> b \<noteq> a" for k' b
      using dict k unfolding dict_ok_def by blast
    moreover have "user_of (pcs v) = Some (k', b) \<Longrightarrow> v \<noteq> t \<Longrightarrow> k' \<noteq> k" for v k' b
      using dict k \<open>\<And>v k'. v \<noteq> t \<Longrightarrow> user_of (pcs v) \<noteq> Some (k', a)\<close> unfolding dict_ok_def
      by (metis option.inject)
    ultimately show ?thesis
      using dict True unfolding dict_ok_def fields users by (auto split: if_splits)
  qed
  ultimately show ?thesis by (simp add: locks_ok_def)
qed

lemma hold_step_ok:
  assumes "hold_step w w'" "locks_ok w"
  shows "locks_ok w'"
  using assms
proof cases
  case (enter pcs t namespace filename key reg a reg')
  show ?thesis
  proof (cases "map_of (lk_entries reg) key")
    case None
    then show ?thesis using enter assms(2) step_enter_new by blast
  next
    case (Some b)
    then have "a = b" "reg' = add_reference 1 b reg" using enter(5) by (auto simp: hold_enter_def)
    with Some show ?thesis using enter assms(2) step_enter_found by blast
  qed
next
  case (acquire pcs t key a reg reg')
  with assms(2) show ?thesis using step_acquire by simp
next
  case (interrupted pcs t key a reg)
  with assms(2) show ?thesis using step_interrupted by simp
next
  case (release pcs t key a reg)
  with assms(2) show ?thesis using step_release by simp
next
  case (leave pcs t key a reg)
  with assms(2) show ?thesis using step_leave by simp
qed

lemma hold_reachable_ok: "hold_reachable w \<Longrightarrow> locks_ok w"
proof (induction rule: hold_reachable.induct)
  case start
  show ?case
    by (simp add: locks_ok_def dict_ok_def counts_ok_def exclusive_def empty_locks_def)
next
  case (step w w')
  then show ?case using hold_step_ok by blast
qed

lemma reachable_facts:
  assumes "hold_reachable (reg, pcs)"
  shows "user_of (pcs t) = Some (k, a) \<Longrightarrow> map_of (lk_entries reg) k = Some a \<and> a < lk_next reg"
    and "map_of (lk_entries reg) k = Some a \<Longrightarrow> \<exists>t. user_of (pcs t) = Some (k, a)"
    and "a < lk_next reg \<Longrightarrow>
      if le_locked (lk_store reg a) then \<exists>t. holders pcs a = {t} else holders pcs a = {}"
proof -
  have ok: "dict_ok reg pcs" "exclusive reg pcs"
    using hold_reachable_ok [OF assms] by (simp_all add: locks_ok_def)
  show known: "map_of (lk_entries reg) k = Some a \<and> a < lk_next reg"
    if "user_of (pcs t) = Some (k, a)" for t k a
    using ok(1) that unfolding dict_ok_def by blast
  show "\<exists>t. user_of (pcs t) = Some (k, a)" if "map_of (lk_entries reg) k = Some a"
  proof -
    have "users pcs a \<noteq> {}" using ok(1) that unfolding dict_ok_def by blast
    then obtain t k' where t: "user_of (pcs t) = Some (k', a)" by (auto simp: users_def)
    then have "k' = k" using ok(1) that known unfolding dict_ok_def by blast
    with t show ?thesis by blast
  qed
  show "if le_locked (lk_store reg a) then \<exists>t. holders pcs a = {t} else holders pcs a = {}"
    if "a < lk_next reg"
    using ok(2) that unfolding exclusive_def by blast
qed

subsection \<open>The properties of the filename locks\<close>

text \<open>
  C13. Mutual exclusion: whatever the interleaving of the threads, two threads are never both
  inside \<open>hold\<close> for the same namespace and filename, although entries are dropped and created
  again while others wait.
\<close>

theorem filename_lock_excludes:
  assumes "hold_reachable (reg, pcs)" and "pcs t = Inside key a" and "pcs t' = Inside key a'"
  shows "t = t'"
proof -
  have a: "map_of (lk_entries reg) key = Some a" "map_of (lk_entries reg) key = Some a'" "a < lk_next reg"
    using reachable_facts(1) [OF assms(1)] assms(2,3) by (metis user_of.simps(3))+
  then have "t \<in> holders pcs a" "t' \<in> holders pcs a" using assms(2,3) by (auto simp: holders_def)
  with reachable_facts(3) [OF assms(1) a(3)] show ?thesis by (auto split: if_splits)
qed

text \<open>
  C37. No thread waits for a lock nobody holds: when a thread waits for a filename, either its
  \<open>acquire\<close> can go ahead now, or another thread is inside \<open>hold\<close> for that very filename.
\<close>

theorem filename_lock_progress:
  assumes "hold_reachable (reg, pcs)" and "pcs t = Waiting key a"
  shows "(\<exists>w. hold_step (reg, pcs) w \<and> snd w t = Inside key a) \<or> (\<exists>t' a'. pcs t' = Inside key a')"
proof (cases "le_locked (lk_store reg a)")
  case False
  then have "hold_acquire a reg = Some (set_locked True a reg)" by (simp add: hold_acquire_def)
  then have "hold_step (reg, pcs) (set_locked True a reg, pcs(t := Inside key a))"
    using assms(2) by (intro hold_step.acquire)
  moreover have "snd (set_locked True a reg, pcs(t := Inside key a)) t = Inside key a" by simp
  ultimately show ?thesis by blast
next
  case True
  have a: "map_of (lk_entries reg) key = Some a" "a < lk_next reg"
    using reachable_facts(1) [OF assms(1)] assms(2) by (metis user_of.simps(2))+
  have "holders pcs a \<noteq> {}"
    using reachable_facts(3) [OF assms(1) a(2)] True by auto
  then obtain t' k where "pcs t' = Inside k a" by (auto simp: holders_def)
  moreover from this have "map_of (lk_entries reg) k = Some a"
    using reachable_facts(1) [OF assms(1)] by (metis user_of.simps(3))
  then have "k = key"
    using hold_reachable_ok [OF assms(1)] a(1) unfolding locks_ok_def dict_ok_def prod.case by blast
  ultimately show ?thesis by blast
qed

text \<open>
  The registry never leaks and never forgets: its keys are exactly the filenames some
  thread holds or waits for, so it is empty once every thread has left.
\<close>

theorem filename_lock_keys_exact:
  assumes "hold_reachable (reg, pcs)"
  shows "set (locks_snapshot reg) = {key. \<exists>t a. user_of (pcs t) = Some (key, a)}
    \<and> ((\<forall>t. pcs t = Outside) \<longrightarrow> active_key_count reg = 0)"
proof -
  have "key \<in> set (locks_snapshot reg) \<longleftrightarrow> (\<exists>a. map_of (lk_entries reg) key = Some a)" for key
    by (simp add: locks_snapshot_def flip: dom_map_of_conv_image_fst) (simp add: dom_def)
  then have keys: "set (locks_snapshot reg) = {key. \<exists>t a. user_of (pcs t) = Some (key, a)}"
    using reachable_facts(1,2) [OF assms] by blast
  moreover have "active_key_count reg = 0" if "\<forall>t. pcs t = Outside"
    using keys that by (simp add: active_key_count_def locks_snapshot_def)
  ultimately show ?thesis by blast
qed

subsubsection \<open>Two threads on one file\<close>

definition example_key :: filename_key where "example_key = ([117], [102])"

definition contended :: lock_registry where
  "contended = set_locked True 0 (add_reference 1 0 (snd (hold_enter example_key empty_locks)))"

definition contended_pcs :: "nat \<Rightarrow> hold_state" where
  "contended_pcs = (\<lambda>_. Outside)(0 := Inside example_key 0, 1 := Waiting example_key 0)"

lemma contended_reachable: "hold_reachable (contended, contended_pcs)"
proof -
  let ?r1 = "snd (hold_enter example_key empty_locks)" and ?p0 = "\<lambda>_ :: nat. Outside"
  have key: "validate_key [117] [102] = Inr example_key"
    by (simp add: validate_key_def example_key_def)
  have e1: "hold_enter example_key empty_locks = (0, ?r1)"
    by (simp add: hold_enter_def empty_locks_def Let_def)
  have e2: "hold_enter example_key ?r1 = (0, add_reference 1 0 ?r1)"
    by (simp add: hold_enter_def empty_locks_def Let_def add_reference_def)
  have acq: "hold_acquire 0 (add_reference 1 0 ?r1) = Some contended"
    by (simp add: contended_def hold_acquire_def hold_enter_def empty_locks_def Let_def add_reference_def)
  have "hold_reachable (?r1, ?p0(0 := Waiting example_key 0))"
    by (rule hold_reachable.step [OF hold_reachable.start hold_step.enter [OF _ key e1]]) simp
  then have "hold_reachable (add_reference 1 0 ?r1, ?p0(0 := Waiting example_key 0, 1 := Waiting example_key 0))"
    by (rule hold_reachable.step [OF _ hold_step.enter [OF _ key e2]]) simp
  then have "hold_reachable (contended,
      (?p0(0 := Waiting example_key 0, 1 := Waiting example_key 0))(0 := Inside example_key 0))"
    by (rule hold_reachable.step [OF _ hold_step.acquire [OF _ acq]]) simp
  then show ?thesis by (simp add: contended_pcs_def fun_upd_twist)
qed

theorem filename_lock_excludes_witness:
  "{t. \<exists>a. contended_pcs t = Inside example_key a} = {0}"
proof -
  have inside: "contended_pcs 0 = Inside example_key 0" by (simp add: contended_pcs_def)
  have "t = 0" if "contended_pcs t = Inside example_key a" for t a
    by (rule filename_lock_excludes [OF contended_reachable that inside])
  with inside show ?thesis by blast
qed

theorem filename_lock_progress_witness:
  "(\<exists>w. hold_step (contended, contended_pcs) w \<and> snd w 1 = Inside example_key 0)
     \<or> (\<exists>t' a'. contended_pcs t' = Inside example_key a')"
  by (rule filename_lock_progress [OF contended_reachable, of 1 example_key 0])
    (simp add: contended_pcs_def)

theorem filename_lock_keys_exact_witness:
  "set (locks_snapshot contended) = {key. \<exists>t a. user_of (contended_pcs t) = Some (key, a)}"
  using filename_lock_keys_exact [OF contended_reachable] by simp

declare split_paired_All [simp] split_paired_Ex [simp]

end
