(* ===== verification/Session.thy ===== *)
theory Session
  imports Download Listing FilenameLocks
begin

section \<open>The session: handshake, login, dispatcher, shutdown\<close>

text \<open>
  The rest of \<open>src/hcmus_socket/server/session.py\<close>, with the built-in handlers.  The dispatcher's
  loop (\<open>serve\<close>) ends because every turn takes a whole frame off the stream.  A log call is part
  of the step that makes it.  \<open>hold\<close> around a handler is modelled in \<open>FilenameLocks\<close>; here the
  guard computes its key, which is where it can raise.
\<close>

subsection \<open>Logging from a session\<close>

definition on_logger :: "bool log_action \<Rightarrow> unit session_action" where
  "on_logger act s =
     (case ss_logger s of
        None \<Rightarrow> (Inr (), s)
      | Some lg \<Rightarrow> (case act lg of (r, lg') \<Rightarrow> (bindE r (\<lambda>_. Inr ()), s\<lparr>ss_logger := Some lg'\<rparr>)))"

definition log_context_of :: "environment \<Rightarrow> session \<Rightarrow> log_context" where
  "log_context_of ev s =
     (let identity = (case get_session (ss_registry_session_id s) (ss_registry s) of
          (Inr record, _) \<Rightarrow> (sn_username record, sn_user_id record)
        | (Inl e, _) \<Rightarrow> (None, None)) in
      \<lparr>lc_session_id = Some (ss_registry_session_id s), lc_username = fst identity,
       lc_user_id = snd identity,
       lc_bandwidth_limit_bps =
         Some (nc_bandwidth_limit_kib_per_second (cf_network (ev_config ev)) * 1024)\<rparr>)"

fun error_code_of :: "exc option \<Rightarrow> error_code option" where
  "error_code_of None = None"
| "error_code_of (Some error) =
     (case protocol_parts error of Some (code, _) \<Rightarrow> Some code | None \<Rightarrow> Some INTERNAL_ERROR)"

definition none_if_malformed :: "exc + 'a \<Rightarrow> exc + 'a option" where
  "none_if_malformed r =
     (case r of
        Inr a \<Rightarrow> Inr (Some a)
      | Inl error \<Rightarrow> if is_protocol_error error then Inr None else Inl error)"

definition resume_offset_of :: "frame \<Rightarrow> int \<Rightarrow> exc + int option" where
  "resume_offset_of fr max_payload_bytes =
     (if fr_opcode fr = FILE_UPLOAD then
        none_if_malformed (bindE (parse_file_upload fr max_payload_bytes) (\<lambda>m. Inr (fu_start_offset m)))
      else if fr_opcode fr = FILE_DOWNLOAD then
        none_if_malformed (bindE (parse_file_download fr max_payload_bytes) (\<lambda>m. Inr (fd_requested_offset m)))
      else Inr None)"

datatype handler_result =
    NoResult
  | FrameResult frame
  | DownloadResult download_result
  | UploadResult upload_result

definition transfer_log ::
  "environment \<Rightarrow> frame \<Rightarrow> opcode \<Rightarrow> (real \<Rightarrow> int option \<Rightarrow> transfer_report) \<Rightarrow> unit session_action" where
  "transfer_log ev fr command report =
     bindS (readS (\<lambda>s. (ss_peer_address s, ss_elapsed s, log_context_of ev s))) (\<lambda>(client, elapsed, context).
     bindS (liftS (resume_offset_of fr (max_payload ev))) (\<lambda>off.
     on_logger (log_transfer client command (report elapsed off) (Some context))))"

definition report_download :: "download_result \<Rightarrow> real \<Rightarrow> int option \<Rightarrow> transfer_report" where
  "report_download res elapsed off =
     \<lparr>tr_filename = Some (dr_filename res), tr_bytes_transferred = dr_bytes_sent res,
      tr_duration_seconds = elapsed, tr_success = dr_success res, tr_error_code = dr_error_code res,
      tr_checksum_matched = dr_checksum_matched res, tr_message = None, tr_resume_offset = off\<rparr>"

definition report_upload :: "upload_result \<Rightarrow> real \<Rightarrow> int option \<Rightarrow> transfer_report" where
  "report_upload res elapsed off =
     \<lparr>tr_filename = Some (ur_filename res), tr_bytes_transferred = ur_bytes_received res,
      tr_duration_seconds = elapsed, tr_success = ur_success res, tr_error_code = ur_error_code res,
      tr_checksum_matched = ur_checksum_matched res, tr_message = None, tr_resume_offset = off\<rparr>"

fun response_error_of :: "environment \<Rightarrow> handler_result \<Rightarrow> exc + error_message option" where
  "response_error_of ev (FrameResult response) =
     (if fr_opcode response = ERROR then bindE (parse_error response (max_payload ev)) (\<lambda>m. Inr (Some m))
      else Inr None)"
| "response_error_of ev _ = Inr None"

fun result_bytes :: "handler_result \<Rightarrow> int" where
  "result_bytes (FrameResult response) = int (length (fr_payload response))"
| "result_bytes _ = 0"

definition report_frame ::
  "handler_result \<Rightarrow> error_message option \<Rightarrow> exc option \<Rightarrow> real \<Rightarrow> int option \<Rightarrow> transfer_report" where
  "report_frame result response_error error elapsed off =
     \<lparr>tr_filename = None, tr_bytes_transferred = result_bytes result, tr_duration_seconds = elapsed,
      tr_success = (error = None \<and> response_error = None),
      tr_error_code = (case response_error of Some m \<Rightarrow> Some (em_error_code m) | None \<Rightarrow> error_code_of error),
      tr_checksum_matched = None,
      tr_message = (case response_error of Some m \<Rightarrow> Some (em_message m) | None \<Rightarrow> map_option exc_text error),
      tr_resume_offset = off\<rparr>"

definition log_command ::
  "environment \<Rightarrow> frame \<Rightarrow> handler_result \<Rightarrow> exc option \<Rightarrow> unit session_action" where
  "log_command ev fr result error =
     bindS (readS (\<lambda>s. ss_logger s = None)) (\<lambda>silent.
     if silent then returnS ()
     else
       (case result of
          DownloadResult res \<Rightarrow> transfer_log ev fr FILE_DOWNLOAD (report_download res)
        | UploadResult res \<Rightarrow> transfer_log ev fr FILE_UPLOAD (report_upload res)
        | _ \<Rightarrow>
            bindS (liftS (response_error_of ev result)) (\<lambda>response_error.
            transfer_log ev fr (fr_opcode fr) (report_frame result response_error error))))"

subsection \<open>Changing the state\<close>

fun state_name :: "session_state \<Rightarrow> pystr" where
  "state_name CONNECTED = lit ''CONNECTED''"
| "state_name AUTHENTICATING = lit ''AUTHENTICATING''"
| "state_name IDLE = lit ''IDLE''"
| "state_name RECEIVING_UPLOAD = lit ''RECEIVING_UPLOAD''"
| "state_name SENDING_DOWNLOAD = lit ''SENDING_DOWNLOAD''"
| "state_name CLOSING = lit ''CLOSING''"
| "state_name CLOSED = lit ''CLOSED''"

definition set_state :: "session_state \<Rightarrow> unit session_action" where
  "set_state st = updateS (\<lambda>s. s\<lparr>ss_state := st\<rparr>)"

definition begin_request :: "opcode \<Rightarrow> unit session_action" where
  "begin_request op =
     bindS (readS ss_state) (\<lambda>state.
     if state \<noteq> IDLE then
       raiseS (protocol_error INVALID_STATE (lit ''cannot start '' @ opcode_name op
         @ lit '' in state '' @ state_name state))
     else if op = FILE_UPLOAD then set_state RECEIVING_UPLOAD
     else if op = FILE_DOWNLOAD then set_state SENDING_DOWNLOAD
     else returnS ())"

definition finish_request :: "unit session_action" where
  "finish_request =
     bindS (readS ss_state) (\<lambda>state.
     if state \<noteq> IDLE \<and> state \<noteq> RECEIVING_UPLOAD \<and> state \<noteq> SENDING_DOWNLOAD then
       raiseS (protocol_error INVALID_STATE (lit ''cannot finish a request in state '' @ state_name state))
     else set_state IDLE)"

definition session_send_error ::
  "environment \<Rightarrow> opcode_or_raw \<Rightarrow> error_code \<Rightarrow> pystr \<Rightarrow> unit session_action" where
  "session_send_error ev failed_opcode code message =
     bindS (readS ss_user_id) (\<lambda>user_id.
     bindS (liftS (make_error_frame
       \<lparr>em_failed_opcode = failed_opcode, em_error_code = code, em_message = message\<rparr>
       (max_payload ev) user_id))
       (session_send ev))"

definition closing :: "session_state \<Rightarrow> bool" where
  "closing st \<longleftrightarrow> st = CLOSING \<or> st = CLOSED"

subsection \<open>Handshake and login\<close>

definition perform_handshake :: "unit session_action" where
  "perform_handshake =
     bindS (readS ss_state) (\<lambda>state.
     if state \<noteq> CONNECTED then
       raiseS (protocol_error INVALID_STATE (lit ''handshake is invalid in state '' @ state_name state))
     else
       bindS (on_socket (recv_exact PREFACE_SIZE_BYTES)) (\<lambda>encoded_or_none.
       case encoded_or_none of
         None \<Rightarrow> raiseS (protocol_error INVALID_FRAME
           (lit ''peer closed before sending the connection preface''))
       | Some encoded \<Rightarrow>
           bindS (liftS (bindE (decode_preface encoded) validate_preface)) (\<lambda>_.
           bindS (on_socket (send_all encode_preface)) (\<lambda>_.
           set_state AUTHENTICATING))))"

fun claim_failure :: "exc \<Rightarrow> exc" where
  "claim_failure (UsernameInUseError text) = protocol_error USERNAME_IN_USE text"
| "claim_failure (UserIdCapacityError text) = protocol_error SERVER_BUSY text"
| "claim_failure error = error"

definition authenticate :: "environment \<Rightarrow> pystr \<Rightarrow> unit session_action" where
  "authenticate ev username =
     bindS (tryS (on_files (mkdir_parents (storage_root ev @ [username])))
       (\<lambda>error.
          if is_permission_error error then
            raiseS (protocol_error ACCESS_DENIED (lit ''cannot create user namespace: '' @ exc_text error))
          else if is_os_error error then
            raiseS (protocol_error FILE_IO_ERROR (lit ''cannot create user namespace: '' @ exc_text error))
          else raiseS error)) (\<lambda>_.
     bindS (readS ss_registry_session_id) (\<lambda>session_id.
     bindS (tryS (partS ss_registry (\<lambda>x s. s\<lparr>ss_registry := x\<rparr>) (claim_username session_id username))
       (\<lambda>error. raiseS (claim_failure error))) (\<lambda>identity.
     bindS (updateS (\<lambda>s. s\<lparr>ss_username := sn_username identity,
       ss_user_id := (case sn_user_id identity of None \<Rightarrow> USER_ID | Some i \<Rightarrow> i)\<rparr>)) (\<lambda>_.
     bindS (send_ack ev LOGIN 0) (\<lambda>_.
     updateS (\<lambda>s. s\<lparr>ss_authenticated := True, ss_state := IDLE\<rparr>))))))"

definition dispatch_authentication :: "environment \<Rightarrow> frame \<Rightarrow> unit session_action" where
  "dispatch_authentication ev fr =
     (if fr_opcode fr \<noteq> LOGIN then
        session_send_error ev (Known (fr_opcode fr)) AUTHENTICATION_REQUIRED
          (lit ''LOGIN is required before file commands'')
      else
        tryS
          (bindS (liftS (parse_login fr (max_payload ev))) (\<lambda>request.
           bindS (liftS (case utf8_encode (lr_username request) of
               None \<Rightarrow> Inl (ValueError (lit ''surrogates not allowed''))
             | Some encoded \<Rightarrow> guardE (int (length encoded) \<le> ac_max_username_bytes (cf_auth (ev_config ev)))
                 (protocol_error INVALID_USERNAME (lit ''username exceeds the configured byte limit'')))) (\<lambda>_.
           authenticate ev (lr_username request))))
          (\<lambda>error.
             case protocol_parts error of
               None \<Rightarrow> raiseS error
             | Some (code, message) \<Rightarrow> session_send_error ev (Known LOGIN) code message))"

subsection \<open>Commands\<close>

definition handle_disconnect :: "environment \<Rightarrow> frame \<Rightarrow> unit session_action" where
  "handle_disconnect ev fr =
     bindS (liftS (parse_disconnect fr (max_payload ev))) (\<lambda>_.
     bindS (send_ack ev DISCONNECT 0) (\<lambda>_.
     updateS (\<lambda>s. s\<lparr>ss_clean_disconnect := True, ss_state := CLOSING\<rparr>)))"

definition has_handler :: "opcode \<Rightarrow> bool" where
  "has_handler op \<longleftrightarrow> op \<in> {FILE_LIST, FILE_UPLOAD, FILE_DOWNLOAD, DISCONNECT}"

definition run_handler :: "environment \<Rightarrow> frame \<Rightarrow> handler_result session_action" where
  "run_handler ev fr =
     (if fr_opcode fr = FILE_LIST then bindS (handle_file_list ev fr) (\<lambda>x. returnS (FrameResult x))
      else if fr_opcode fr = FILE_UPLOAD then bindS (handle_upload ev fr) (\<lambda>x. returnS (UploadResult x))
      else if fr_opcode fr = FILE_DOWNLOAD then
        bindS (handle_download_frame ev fr) (\<lambda>x. returnS (DownloadResult x))
      else bindS (handle_disconnect ev fr) (\<lambda>_. returnS NoResult))"

definition filename_namespace :: "session \<Rightarrow> exc + pystr" where
  "filename_namespace s =
     bindE (fst (get_session (ss_registry_session_id s) (ss_registry s))) (\<lambda>record.
     Inr (case sn_username record of None \<Rightarrow> [] | Some name \<Rightarrow> name))"

definition filename_guard :: "environment \<Rightarrow> frame \<Rightarrow> session \<Rightarrow> exc + filename_key option" where
  "filename_guard ev fr s =
     (if \<not> ss_has_filename_locks s then Inr None
      else
        let guarded = (\<lambda>parsed. bindE parsed (\<lambda>filename.
              bindE (filename_namespace s) (\<lambda>namespace.
              bindE (validate_key namespace filename) (\<lambda>key. Inr (Some key))))) in
        if fr_opcode fr = FILE_UPLOAD then
          guarded (bindE (parse_file_upload fr (max_payload ev)) (\<lambda>m. Inr (fu_filename m)))
        else if fr_opcode fr = FILE_DOWNLOAD then
          guarded (bindE (parse_file_download fr (max_payload ev)) (\<lambda>m. Inr (fd_filename m)))
        else Inr None)"

definition dispatch_request :: "environment \<Rightarrow> frame \<Rightarrow> unit session_action" where
  "dispatch_request ev fr =
     bindS (liftS (validate_message fr (max_payload ev) (chunk_size ev))) (\<lambda>_.
     bindS (liftS (guardE (has_handler (fr_opcode fr)) (protocol_error UNSUPPORTED_OPCODE
       (opcode_name (fr_opcode fr) @ lit '' is not integrated on the server'')))) (\<lambda>_.
     bindS (begin_request (fr_opcode fr)) (\<lambda>_.
     bindS (readS (filename_guard ev fr)) (\<lambda>guard.
     bindS (liftS guard) (\<lambda>_.
     bindS (run_handler ev fr) (\<lambda>result.
     bindS (readS (\<lambda>s. closing (ss_state s))) (\<lambda>ending.
     bindS (if ending then returnS () else finish_request) (\<lambda>_.
     log_command ev fr result None))))))))"

definition dispatch_failure :: "environment \<Rightarrow> frame \<Rightarrow> exc \<Rightarrow> unit session_action" where
  "dispatch_failure ev fr error =
     (case protocol_parts error of
        Some (code, message) \<Rightarrow>
          bindS (readS (\<lambda>s. closing (ss_state s))) (\<lambda>ending.
          bindS (if ending then returnS () else set_state IDLE) (\<lambda>_.
          bindS (session_send_error ev (Known (fr_opcode fr)) code message) (\<lambda>_.
          log_command ev fr NoResult (Some error))))
      | None \<Rightarrow>
          if is_os_error error then
            bindS (log_command ev fr NoResult (Some error)) (\<lambda>_. raiseS error)
          else raiseS error)"

definition dispatch :: "environment \<Rightarrow> frame \<Rightarrow> unit session_action" where
  "dispatch ev fr =
     bindS (readS ss_state) (\<lambda>state.
     if state \<noteq> IDLE then
       session_send_error ev (Known (fr_opcode fr)) INVALID_STATE (lit ''session is not idle'')
     else tryS (dispatch_request ev fr) (dispatch_failure ev fr))"

subsection \<open>The loop of the dispatcher\<close>

fun is_peer_disconnected :: "exc \<Rightarrow> bool" where
  "is_peer_disconnected (PeerDisconnected _) = True"
| "is_peer_disconnected _ = False"

text \<open>An error after which the stream is still at a frame boundary: code, message, raw opcode.\<close>

fun answerable :: "exc \<Rightarrow> (error_code \<times> pystr \<times> int) option" where
  "answerable (ProtocolError code message (Some raw_opcode) True) = Some (code, message, raw_opcode)"
| "answerable _ = None"

definition serve_failure :: "environment \<Rightarrow> exc \<Rightarrow> bool session_action" where
  "serve_failure ev error =
     (if is_peer_disconnected error then bindS (set_state CLOSING) (\<lambda>_. returnS False)
      else
        (case answerable error of
           None \<Rightarrow> raiseS error
         | Some (code, message, raw_opcode) \<Rightarrow>
             bindS (session_send_error ev (Raw raw_opcode) code message) (\<lambda>_.
             if code = INVALID_USER_ID then bindS (set_state CLOSING) (\<lambda>_. returnS False)
             else returnS True)))"

text \<open>One turn of the loop; the value says whether the loop goes on.\<close>

definition serve_turn :: "environment \<Rightarrow> bool session_action" where
  "serve_turn ev =
     bindS
       (bindF (tryS (bindS (session_receive ev) (\<lambda>fr. returnS (Proceed fr)))
                 (\<lambda>error. bindS (serve_failure ev error) (\<lambda>go. returnS (Return go)))) (\<lambda>fr.
        bindS (readS ss_state) (\<lambda>state.
        bindS (if state = AUTHENTICATING then dispatch_authentication ev fr else dispatch ev fr) (\<lambda>_.
        returnS (Proceed True)))))
       (\<lambda>x. returnS (flow_result x))"

definition log_connected :: "environment \<Rightarrow> exc option \<Rightarrow> unit session_action" where
  "log_connected ev failure =
     bindS (readS (\<lambda>s. (ss_peer_address s, log_context_of ev s))) (\<lambda>(client, context).
     on_logger (log_connection client (failure = None) (error_code_of failure)
       (map_option exc_text failure) (Some context)))"

definition log_disconnected :: "environment \<Rightarrow> bool \<Rightarrow> exc option \<Rightarrow> unit session_action" where
  "log_disconnected ev handshake_completed failure =
     bindS (readS (\<lambda>s. (ss_peer_address s, ss_clean_disconnect s, log_context_of ev s))) (\<lambda>(client, clean, context).
     on_logger (log_disconnection client (handshake_completed \<and> clean)
       (map_option exc_text failure) (Some context)))"

text \<open>
  What a command does to the session: the relations that transfers, logging and the state changes
  of a command respect are respected by the dispatcher; those that login respects too are
  respected by a whole turn.
\<close>

locale command_relation = step_relation R for R :: "session \<Rightarrow> session \<Rightarrow> bool" +
  assumes R_transfer: "transfer_step s t \<Longrightarrow> R s t"
    and R_logger: "R s (s\<lparr>ss_logger := lg\<rparr>)"
    and R_command_state: "st \<in> {IDLE, RECEIVING_UPLOAD, SENDING_DOWNLOAD, CLOSING} \<Longrightarrow> R s (s\<lparr>ss_state := st\<rparr>)"
    and R_disconnect: "R s (s\<lparr>ss_clean_disconnect := True, ss_state := CLOSING\<rparr>)"
begin

lemma keeps_transfer: "transfer.keeps a \<Longrightarrow> keeps a"
  by (rule keepsI) (auto dest: transfer.keepsD intro: R_transfer)

lemma keeps_update: "(\<And>s. R s (f s)) \<Longrightarrow> keeps (updateS f)"
  by (simp add: keeps_def updateS_def)

lemma keeps_logger: "keeps (on_logger act)"
  by (rule keepsI) (auto simp: on_logger_def R_refl R_logger split: option.splits prod.splits)

lemma keeps_state: "st \<in> {IDLE, RECEIVING_UPLOAD, SENDING_DOWNLOAD, CLOSING} \<Longrightarrow> keeps (set_state st)"
  unfolding set_state_def by (rule keeps_update) (rule R_command_state)

lemma keeps_result:
  "(\<And>x. keeps (f x)) \<Longrightarrow> (\<And>x. keeps (g x)) \<Longrightarrow> keeps h \<Longrightarrow> (\<And>x. keeps (k x)) \<Longrightarrow>
     keeps (case res of NoResult \<Rightarrow> h | FrameResult x \<Rightarrow> k x | DownloadResult x \<Rightarrow> f x | UploadResult x \<Rightarrow> g x)"
  by (cases res) simp_all

lemma keeps_log_command: "keeps (log_command ev fr res error)"
  unfolding log_command_def transfer_log_def
  by (intro keep_intros keeps_result keeps_logger)

lemma keeps_send_error: "keeps (session_send_error ev op code message)"
  unfolding session_send_error_def by (intro keeps_transfer transfer_intros)

lemma keeps_handler: "keeps (run_handler ev fr)"
  unfolding run_handler_def handle_disconnect_def
  by (intro keep_intros keeps_transfer [OF handle_file_list_keeps] keeps_transfer [OF handle_upload_keeps]
      keeps_transfer [OF handle_download_keeps] keeps_transfer [OF transfer_helpers(5)]
      keeps_update R_disconnect)

lemma keeps_dispatch_parts:
  "keeps (dispatch_request ev fr)" "keeps (dispatch_failure ev fr error)" "keeps (dispatch ev fr)"
  unfolding dispatch_def dispatch_request_def dispatch_failure_def begin_request_def finish_request_def
  by (intro keep_intros keeps_state keeps_log_command keeps_send_error keeps_handler; simp)+

lemma keeps_serve_failure: "keeps (serve_failure ev error)"
  unfolding serve_failure_def by (intro keep_intros keeps_state keeps_send_error; simp)

lemma keeps_logs: "keeps (log_connected ev f)" "keeps (log_disconnected ev b f)"
  unfolding log_connected_def log_disconnected_def by (intro keep_intros keeps_logger)+

end

locale session_relation = command_relation +
  assumes R_registry: "R s (s\<lparr>ss_registry := reg\<rparr>)"
    and R_identity: "R s (s\<lparr>ss_username := name, ss_user_id := i\<rparr>)"
    and R_login: "R s (s\<lparr>ss_authenticated := True, ss_state := IDLE\<rparr>)"
    and R_authenticating: "R s (s\<lparr>ss_state := AUTHENTICATING\<rparr>)"
    and R_socket: "reads_only (ss_socket s) k \<or> inbound k = inbound (ss_socket s) \<Longrightarrow> R s (s\<lparr>ss_socket := k\<rparr>)"
begin

lemma keeps_registry: "keeps (partS ss_registry (\<lambda>x s. s\<lparr>ss_registry := x\<rparr>) act)"
  by (rule keepsI) (auto simp: partS_def R_registry split: prod.splits)

lemma keeps_authentication: "keeps (dispatch_authentication ev fr)"
  unfolding dispatch_authentication_def authenticate_def
  by (intro keep_intros keeps_registry keeps_update R_identity R_login keeps_send_error
      keeps_transfer [OF transfer_files] keeps_transfer [OF transfer_helpers(5)])

lemma keeps_turn: "keeps (serve_turn ev)"
  unfolding serve_turn_def
  by (intro keep_intros keeps_transfer [OF transfer_receive] keeps_serve_failure keeps_authentication
      keeps_dispatch_parts)

lemma keeps_handshake: "keeps perform_handshake"
proof -
  have "keeps (on_socket (recv_exact n))" for n
    by (rule keepsI) (auto simp: on_socket_apply dest: recv_exact_pending intro: R_socket split: prod.splits)
  moreover have "keeps (on_socket (send_all bs))" for bs
    by (rule keepsI)
      (auto simp: on_socket_apply dest: send_all_prefix intro: R_socket split: prod.splits)
  ultimately show ?thesis
    unfolding perform_handshake_def set_state_def
    by (intro keep_intros keeps_update R_authenticating)
qed

end

text \<open>The stream only gets shorter.\<close>

definition reading :: "session \<Rightarrow> session \<Rightarrow> bool" where
  "reading s t \<longleftrightarrow> length (pending (ss_socket t)) \<le> length (pending (ss_socket s))"

interpretation reading: session_relation reading
  by unfold_locales (auto simp: reading_def transfer_step_def reads_only_def pending_def)

lemma session_receive_answerable:
  assumes "session_receive ev s = (Inl e, t)" "answerable e = Some (code, message, raw)"
  shows "length (pending (ss_socket t)) < length (pending (ss_socket s))"
proof -
  obtain q k where rf: "receive_frame (max_payload ev) (ss_socket s) = (q, k)" by fastforce
  have e: "e = ProtocolError code message (Some raw) True"
    using assms(2) by (cases e rule: answerable.cases) simp_all
  have t: "t = s\<lparr>ss_socket := k\<rparr>"
    and q: "(\<exists>fr. q = Inr (Some fr)) \<or> q = Inl e"
    using assms(1) rf e
    by (auto simp: session_receive_def bindS_def readS_def tryS_def on_socket_apply Let_def receive_failure_def
        split: option.splits sum.splits if_splits exc.splits)
  then show ?thesis
    using rf e by (auto dest: receive_frame_progress synchronized_error_progress)
qed

lemma serve_turn_progress:
  assumes "serve_turn ev s = (Inr True, t)"
  shows "length (pending (ss_socket t)) < length (pending (ss_socket s))"
proof -
  obtain q u where rc: "session_receive ev s = (q, u)" by fastforce
  show ?thesis
  proof (cases q)
    case (Inr fr)
    then have "(if ss_state u = AUTHENTICATING then dispatch_authentication ev fr else dispatch ev fr) u = (Inr (), t)"
      using assms rc by (auto simp: serve_turn_def bindF_def bindS_def tryS_def readS_def split: prod.splits sum.splits)
    then have "reading u t" by (auto split: if_splits dest: reading.keepsD [OF reading.keeps_dispatch_parts(3)]
          reading.keepsD [OF reading.keeps_authentication])
    then show ?thesis using session_receive_progress [of ev s fr u] rc Inr by (simp add: reading_def)
  next
    case (Inl e)
    then have fail: "serve_failure ev e u = (Inr True, t)"
      using assms rc by (auto simp: serve_turn_def bindF_def bindS_def tryS_def split: prod.splits sum.splits)
    then obtain c m raw where a: "answerable e = Some (c, m, raw)"
      and sent: "session_send_error ev (Raw raw) c m u = (Inr (), t)"
      by (auto simp: serve_failure_def state_simps split: if_splits option.splits)
    have "reading u t" by (rule reading.keepsD [OF reading.keeps_send_error sent])
    with session_receive_answerable [OF _ a] rc Inl show ?thesis by (fastforce simp: reading_def)
  qed
qed

function serve_loop :: "environment \<Rightarrow> unit session_action" where
  "serve_loop ev s =
     (if ss_state s \<noteq> AUTHENTICATING \<and> ss_state s \<noteq> IDLE then (Inr (), s)
      else
        (case serve_turn ev s of
           (Inl e, t) \<Rightarrow> (Inl e, t)
         | (Inr False, t) \<Rightarrow> (Inr (), t)
         | (Inr True, t) \<Rightarrow> serve_loop ev t))"
  by pat_completeness auto
termination
  by (relation "measure (\<lambda>(ev, s). length (pending (ss_socket s)))")
    (auto dest!: serve_turn_progress [OF sym])

declare serve_loop.simps [simp del]

definition serve :: "environment \<Rightarrow> unit session_action" where
  "serve ev =
     bindS (readS ss_state) (\<lambda>state.
     if state \<noteq> AUTHENTICATING \<and> state \<noteq> IDLE then
       raiseS (protocol_error INVALID_STATE (lit ''dispatcher is invalid in state '' @ state_name state))
     else serve_loop ev)"

subsection \<open>A whole connection\<close>

definition close_session :: "unit session_action" where
  "close_session =
     bindS (readS (\<lambda>s. (ss_state s, ss_owns_registry_session s, ss_registry_session_id s))) (\<lambda>(state, owns, session_id).
     if state = CLOSED then returnS ()
     else
       bindS (set_state CLOSING) (\<lambda>_.
       bindS (if owns then bindS (partS ss_registry (\<lambda>x s. s\<lparr>ss_registry := x\<rparr>) (release_session session_id))
                            (\<lambda>_. returnS ())
              else returnS ()) (\<lambda>_.
       updateS (\<lambda>s. s\<lparr>ss_authenticated := False, ss_username := None, ss_user_id := USER_ID,
         ss_socket_open := False, ss_state := CLOSED\<rparr>))))"

definition connect :: "environment \<Rightarrow> unit session_action" where
  "connect ev =
     tryS (bindS perform_handshake (\<lambda>_. log_connected ev None))
       (\<lambda>error. bindS (log_connected ev (Some error)) (\<lambda>_. raiseS error))"

fun failure_of :: "exc + 'a \<Rightarrow> exc option" where
  "failure_of (Inl e) = Some e"
| "failure_of (Inr a) = None"

definition run :: "environment \<Rightarrow> unit session_action" where
  "run ev s =
     (let handshake_completed = (failure_of (fst (perform_handshake s)) = None) in
      case bindS (connect ev) (\<lambda>_. serve ev) s of
        (r, t) \<Rightarrow>
          (case bindS close_session (\<lambda>_. log_disconnected ev handshake_completed (failure_of r)) t of
             (Inl e, u) \<Rightarrow> (Inl e, u)
           | (Inr _, u) \<Rightarrow> (r, u)))"

end
