(* ===== verification/DownloadSafety.thy ===== *)
theory DownloadSafety
  imports Session Examples FileSteps
begin

section \<open>What a download puts on the wire\<close>

text \<open>
  A successful download sends the offer, the bytes of the file from the requested offset in
  consecutive chunks, and the digest of the whole file; it changes no file.
\<close>

subsection \<open>Bytes sent\<close>

definition sent :: "session \<Rightarrow> byte list \<Rightarrow> session \<Rightarrow> bool" where
  "sent s w t \<longleftrightarrow> same_nodes (ss_files s) (ss_files t) \<and> ss_user_id t = ss_user_id s
     \<and> outbound (ss_socket t) = outbound (ss_socket s) @ w"

lemma sent_refl [simp]: "sent s [] s"
  by (simp add: sent_def)

lemma sent_trans: "sent s v t \<Longrightarrow> sent t w u \<Longrightarrow> sent s (v @ w) u"
  by (auto simp: sent_def same_nodes_def intro: only_changes_trans)

lemma sent_then: "sent s v t \<Longrightarrow> sent t [] u \<Longrightarrow> sent s v u"
  using sent_trans [of s v t "[]" u] by simp

lemma sent_send: "session_send ev fr s = (Inr (), t) \<Longrightarrow> sent s (frame_bytes fr) t"
  by (erule session_sendE) (auto simp: sent_def dest: serialize_is_frame_bytes)

lemma sent_receive: "session_receive ev s = (r, t) \<Longrightarrow> sent s [] t"
  by (erule session_receiveE) (simp add: sent_def reads_only_def)

lemma sent_bandwidth: "consume_bandwidth n s = (r, t) \<Longrightarrow> sent s [] t"
  by (auto simp: consume_bandwidth_def sent_def split: option.splits sum.splits prod.splits)

lemma sent_files: "on_files act s = (r, t) \<Longrightarrow> (\<And>q fs. act (ss_files s) = (q, fs) \<Longrightarrow> same_nodes (ss_files s) fs) \<Longrightarrow> sent s [] t"
  by (auto simp: on_files_apply sent_def split: prod.splits)

lemma sent_data: "sent s w t \<Longrightarrow> file_data (ss_files t) p = file_data (ss_files s) p"
  by (simp add: sent_def lookup_same_nodes(7))

subsection \<open>The chunks\<close>

text \<open>The frames of a file cut into pieces, the first one at offset \<open>off\<close>.\<close>

definition chunk_frame :: "int \<Rightarrow> int \<Rightarrow> byte list \<Rightarrow> frame" where
  "chunk_frame user_id off piece =
     \<lparr>fr_opcode = FILE_CHUNK, fr_payload = pack_uint 8 off @ piece, fr_user_id = user_id\<rparr>"

fun chunk_wire :: "int \<Rightarrow> int \<Rightarrow> byte list list \<Rightarrow> byte list" where
  "chunk_wire user_id off [] = []"
| "chunk_wire user_id off (piece # pieces) =
     frame_bytes (chunk_frame user_id off piece) @ chunk_wire user_id (off + int (length piece)) pieces"

lemma make_chunk_frame: "make_file_chunk_frame \<lparr>fc_offset = off, fc_data = piece\<rparr> n mx u = Inr fr \<Longrightarrow> fr = chunk_frame u off piece"
  by (auto simp: make_file_chunk_frame_def make_steps chunk_frame_def)

lemma dl_send_chunk_sent:
  assumes "dl_send_chunk ev off piece s = (Inr (), t)"
  shows "sent s (frame_bytes (chunk_frame (ss_user_id s) off piece)) t"
proof -
  obtain w u fr where u: "consume_bandwidth (int (length piece)) s = (Inr w, u)"
    and fr: "make_file_chunk_frame \<lparr>fc_offset = off, fc_data = piece\<rparr> (chunk_size ev) (max_payload ev) (ss_user_id u) = Inr fr"
    and send: "session_send ev fr u = (Inr (), t)"
    using assms by (auto simp: dl_send_chunk_def state_simps)
  have "sent s [] u" by (rule sent_bandwidth [OF u])
  with sent_trans [OF this sent_send [OF send]] make_chunk_frame [OF fr] show ?thesis
    by (simp add: sent_def)
qed

lemma read_all_loop_Inr:
  "read_all_loop source got fs = (Inr content, fs') \<Longrightarrow> got = take (length got) (file_data fs source) \<Longrightarrow>
     content = file_data fs source \<and> same_nodes fs fs'"
proof (induction source got fs arbitrary: content fs' rule: read_all_loop.induct)
  case (1 source got fs)
  obtain chunk fs1 where rd: "read_handle source (length got) READ_SIZE fs = (Inr chunk, fs1)"
    using "1.prems"(1) by (auto simp: read_all_loop.simps [of source got fs] split: prod.splits sum.splits)
  note c = read_handle_Inr [OF rd]
  show ?case
  proof (cases chunk)
    case Nil
    then have "content = got \<and> fs' = fs1"
      using "1.prems"(1) rd by (simp add: read_all_loop.simps [of source got fs])
    moreover have "length (file_data fs source) \<le> length got" using c Nil by (auto simp: READ_SIZE_def)
    then have "got = file_data fs source" using "1.prems"(2) by simp
    ultimately show ?thesis using c by simp
  next
    case (Cons b bs)
    have "read_all_loop source (got @ chunk) fs1 = (Inr content, fs')"
      using "1.prems"(1) rd Cons by (auto simp: read_all_loop.simps [of source got fs])
    moreover have data: "file_data fs1 source = file_data fs source" using c by (simp add: lookup_same_nodes(7))
    moreover have "got @ chunk = take (length (got @ chunk)) (file_data fs source)"
      using c "1.prems"(2) by (metis append_eq_conv_conj append_take_drop_id take_add)
    ultimately have "content = file_data fs1 source \<and> same_nodes fs1 fs'"
      using "1.IH" [OF rd [symmetric]] Cons by simp
    then show ?thesis using c data by (auto simp: same_nodes_def intro: only_changes_trans)
  qed
qed

lemma send_loop_sent:
  "send_loop_from ev source off s = (Inr n, t) \<Longrightarrow> 0 \<le> off \<Longrightarrow> off \<le> int (length (file_data (ss_files s) source)) \<Longrightarrow>
     \<exists>pieces. sent s (chunk_wire (ss_user_id s) off pieces) t \<and> n = off + int (length (concat pieces))
       \<and> (\<exists>rest. drop (nat off) (file_data (ss_files s) source) = concat pieces @ rest)
       \<and> (\<forall>piece \<in> set pieces. piece \<noteq> [] \<and> int (length piece) \<le> chunk_size ev)"
proof (induction ev source off s arbitrary: n t rule: send_loop_from.induct)
  case (1 ev source off s)
  obtain piece s1 where rd: "on_files (read_handle source (nat off) (nat (chunk_size ev))) s = (Inr piece, s1)"
    using "1.prems"(1) by (auto simp: send_loop_from.simps [of ev source off s] split: prod.splits sum.splits)
  then have same: "sent s [] s1" by (rule sent_files) (auto dest: read_handle_same)
  have piece: "piece = take (nat (chunk_size ev)) (drop (nat off) (file_data (ss_files s) source))"
    using rd by (auto simp: on_files_apply split: prod.splits dest!: read_handle_Inr)
  show ?case
  proof (cases piece)
    case Nil
    then have "n = off \<and> t = s1" using "1.prems"(1) rd by (auto simp: send_loop_from.simps [of ev source off s])
    with same show ?thesis by (intro exI [of _ "[]"]) simp
  next
    case (Cons b bs)
    then obtain s2 where sd: "dl_send_chunk ev off piece s1 = (Inr (), s2)"
      and rec: "send_loop_from ev source (off + int (length piece)) s2 = (Inr n, t)"
      using "1.prems"(1) rd by (auto simp: send_loop_from.simps [of ev source off s] split: prod.splits sum.splits)
    note one = sent_trans [OF same dl_send_chunk_sent [OF sd]]
    have uid: "ss_user_id s1 = ss_user_id s" "ss_user_id s2 = ss_user_id s" using same one by (auto simp: sent_def)
    have data: "file_data (ss_files s2) source = file_data (ss_files s) source" using one by (rule sent_data)
    have fits: "nat off + length piece \<le> length (file_data (ss_files s) source)"
      using piece Cons "1.prems"(2,3) by (auto simp: min_def)
    then have "off + int (length piece) \<le> int (length (file_data (ss_files s) source))"
      using "1.prems"(2) by linarith
    then obtain pieces rest where ih: "sent s2 (chunk_wire (ss_user_id s) (off + int (length piece)) pieces) t"
      "n = off + int (length piece) + int (length (concat pieces))"
      "drop (nat (off + int (length piece))) (file_data (ss_files s) source) = concat pieces @ rest"
      "\<forall>piece \<in> set pieces. piece \<noteq> [] \<and> int (length piece) \<le> chunk_size ev"
      using "1.IH" [OF rd [symmetric] refl Cons sd [unfolded Cons, symmetric] refl rec [unfolded Cons]]
        Cons "1.prems"(2) uid data by auto
    have "drop (nat off) (file_data (ss_files s) source) = piece @ concat pieces @ rest"
      using ih(3) piece fits "1.prems"(2)
      by (metis append_take_drop_id drop_drop length_take nat_int_add nat_0_le append_eq_conv_conj drop_append_length add.commute)
    moreover have "int (length piece) \<le> chunk_size ev"
      using piece Cons by (cases "0 \<le> chunk_size ev") (auto simp: min_def)
    ultimately show ?thesis
      using sent_trans [OF one ih(1)] ih(2,4) Cons uid by (intro exI [of _ "piece # pieces"]) auto
  qed
qed

subsection \<open>The whole transfer\<close>

lemma dl_fail_not_Proceed: "dl_fail ev name n code message op s \<noteq> (Inr (Proceed a), t)"
  by (auto simp: dl_fail_def bindS_def split: prod.splits sum.splits)

lemma dl_fail_failed: "dl_fail ev name n code message op s = (Inr (Return res), t) \<Longrightarrow> \<not> dr_success res"
  by (auto simp: dl_fail_def dl_result_def bindS_def split: prod.splits sum.splits)

definition info_of :: "environment \<Rightarrow> file_download \<Rightarrow> int \<Rightarrow> int \<Rightarrow> exc + frame" where
  "info_of ev request tsize user_id = make_file_info_frame
     \<lparr>fi_filename = fd_filename request, fi_total_size = tsize, fi_start_offset = fd_requested_offset request\<rparr>
     (max_payload ev) user_id"

lemma dl_offer_Proceed:
  assumes "dl_offer ev request tsize s = (Inr (Proceed u), t)"
  shows "\<exists>info. info_of ev request tsize (ss_user_id s) = Inr info \<and> sent s (frame_bytes info) t"
proof -
  obtain info s1 where info: "info_of ev request tsize (ss_user_id s) = Inr info"
    and s1: "session_send ev info s = (Inr (), s1)"
    and "\<exists>r q. session_receive ev s1 = (Inr r, t) \<and> q = r"
    using assms by (auto simp: dl_offer_def Let_def info_of_def state_simps)
  then obtain r where "session_receive ev s1 = (Inr r, t)" by blast
  with info sent_then [OF sent_send [OF s1] sent_receive] show ?thesis by blast
qed

lemma dl_offer_Return: "dl_offer ev request tsize s = (Inr (Return res), t) \<Longrightarrow> \<not> dr_success res"
  by (auto simp: dl_offer_def Let_def state_simps dl_result_def)

lemma dl_finish_success:
  assumes "dl_finish ev request tsize content n s = (Inr x, t)" "dr_success (flow_result x)"
  shows "n = tsize \<and> dr_bytes_sent (flow_result x) = n - fd_requested_offset request
    \<and> sent s (frame_bytes \<lparr>fr_opcode = FILE_CHECKSUM, fr_payload = pack_uint 8 tsize @ ev_sha256 ev content,
         fr_user_id = ss_user_id s\<rparr>) t
    \<and> wf_frame (max_payload ev) \<lparr>fr_opcode = FILE_CHECKSUM, fr_payload = pack_uint 8 tsize @ ev_sha256 ev content,
         fr_user_id = ss_user_id s\<rparr>"
proof -
  have n: "n = tsize"
  proof (rule ccontr)
    assume "n \<noteq> tsize"
    with assms(1) have "dl_fail ev (fd_filename request) (n - fd_requested_offset request) SIZE_MISMATCH
        (lit ''file size changed while being read'') FILE_CHECKSUM s = (Inr x, t)"
      by (simp add: dl_finish_def Let_def)
    with assms(2) show False by (cases x) (auto simp: dl_fail_not_Proceed dest: dl_fail_failed)
  qed
  then obtain fr s1 where fr: "make_file_checksum_frame
      \<lparr>fk_final_size = tsize, fk_sha256_digest = ev_sha256 ev content\<rparr> (max_payload ev) (ss_user_id s) = Inr fr"
    and s1: "session_send ev fr s = (Inr (), s1)"
    and t: "\<exists>r. session_receive ev s1 = (Inr r, t)"
    and x: "dr_bytes_sent (flow_result x) = n - fd_requested_offset request"
    using assms by (auto simp: dl_finish_def Let_def state_simps dl_result_def split: if_splits)
  from t obtain r where "session_receive ev s1 = (Inr r, t)" by blast
  from sent_then [OF sent_send [OF s1] sent_receive [OF this]] n x fr checksum.make_wf [OF fr] show ?thesis
    by (auto simp: make_file_checksum_frame_def make_steps)
qed

definition checksum_frame :: "environment \<Rightarrow> int \<Rightarrow> byte list \<Rightarrow> frame" where
  "checksum_frame ev user_id data = \<lparr>fr_opcode = FILE_CHECKSUM,
     fr_payload = pack_uint 8 (int (length data)) @ ev_sha256 ev data, fr_user_id = user_id\<rparr>"

lemma dl_transfer_success:
  assumes "dl_transfer ev request source s = (Inr x, t)" "dr_success (flow_result x)"
  shows "\<exists>info pieces. let data = file_data (ss_files s) source; off = fd_requested_offset request in
    0 \<le> off \<and> off \<le> int (length data) \<and> info_of ev request (int (length data)) (ss_user_id s) = Inr info
    \<and> concat pieces = drop (nat off) data
    \<and> (\<forall>piece \<in> set pieces. piece \<noteq> [] \<and> int (length piece) \<le> chunk_size ev)
    \<and> dr_bytes_sent (flow_result x) = int (length data) - off
    \<and> wf_frame (max_payload ev) (checksum_frame ev (ss_user_id s) data)
    \<and> sent s (frame_bytes info @ chunk_wire (ss_user_id s) off pieces
        @ frame_bytes (checksum_frame ev (ss_user_id s) data)) t"
proof -
  define off where "off = fd_requested_offset request"
  define data where "data = file_data (ss_files s) source"
  obtain tsize s1 where st: "on_files (fstat_size source) s = (Inr tsize, s1)"
    and rest: "(if off < 0 \<or> off > tsize then
         dl_fail ev (fd_filename request) 0 INVALID_PAYLOAD
           (lit ''invalid resume offset '' @ dec_int off @ lit '' for file size '' @ dec_int tsize) FILE_DOWNLOAD
       else bindF (dl_offer ev request tsize) (\<lambda>_.
         bindS (on_files (read_all_loop source [])) (\<lambda>content.
         bindS (send_loop_from ev source off) (\<lambda>sent.
         dl_finish ev request tsize content sent)))) s1 = (Inr x, t)"
    using assms(1) unfolding dl_transfer_def Let_def off_def [symmetric]
    by (auto simp: bindS_def split: prod.splits sum.splits)
  have s1: "sent s [] s1" and tsize: "tsize = int (length data)"
    using st by (auto simp: on_files_apply fstat_size_def data_def sent_def lookup_same_nodes(7)
        split: prod.splits elim!: os_callE)
  have off: "0 \<le> off" "off \<le> tsize"
    using rest assms(2) by (cases x; auto simp: dl_fail_not_Proceed dest: dl_fail_failed split: if_splits)+
  with rest have "bindF (dl_offer ev request tsize) (\<lambda>_.
         bindS (on_files (read_all_loop source [])) (\<lambda>content.
         bindS (send_loop_from ev source off) (\<lambda>sent.
         dl_finish ev request tsize content sent))) s1 = (Inr x, t)" by simp
  then obtain u s2 content s3 n s4 where offer: "dl_offer ev request tsize s1 = (Inr (Proceed u), s2)"
    and hashed: "on_files (read_all_loop source []) s2 = (Inr content, s3)"
    and loop: "send_loop_from ev source off s3 = (Inr n, s4)"
    and fin: "dl_finish ev request tsize content n s4 = (Inr x, t)"
    using assms(2) by (auto simp: bindF_Inr bindS_eq_Inr dest: dl_offer_Return)
  obtain info where info: "info_of ev request tsize (ss_user_id s) = Inr info" "sent s (frame_bytes info) s2"
    using dl_offer_Proceed [OF offer] s1 sent_trans [OF s1] by (auto simp: sent_def)
  have d2: "file_data (ss_files s2) source = data" using sent_data [OF info(2)] by (simp add: data_def)
  have content: "content = data \<and> sent s2 [] s3"
    using hashed d2 by (auto simp: on_files_apply sent_def dest!: read_all_loop_Inr split: prod.splits)
  then have s3: "sent s (frame_bytes info) s3" using sent_then [OF info(2)] by simp
  have d3: "file_data (ss_files s3) source = data" and u3: "ss_user_id s3 = ss_user_id s"
    using sent_data [OF s3] s3 by (simp_all add: data_def sent_def)
  obtain pieces rest where pieces: "sent s3 (chunk_wire (ss_user_id s) off pieces) s4"
    "n = off + int (length (concat pieces))" "drop (nat off) data = concat pieces @ rest"
    "\<forall>piece \<in> set pieces. piece \<noteq> [] \<and> int (length piece) \<le> chunk_size ev"
    using send_loop_sent [OF loop] off tsize d3 u3 by auto
  note all = sent_trans [OF s3 pieces(1)]
  have u4: "ss_user_id s4 = ss_user_id s" using all by (simp add: sent_def)
  note ended = dl_finish_success [OF fin assms(2)]
  have "int (length (concat pieces)) = int (length data) - off" using ended pieces(2) tsize by simp
  then have "length (concat pieces) = length (drop (nat off) data)" using off tsize by auto
  then have "rest = []" using pieces(3) by simp
  then show ?thesis
    using off info(1) pieces(3,4) ended sent_trans [OF all, of _ t] content tsize u4
    unfolding off_def [symmetric] data_def [symmetric] Let_def checksum_frame_def
    by (intro exI [of _ info] exI [of _ pieces]) auto
qed

lemma dl_open_Proceed:
  assumes "dl_open ev request p s = (Inr (Proceed source), t)"
  shows "resolve (ss_files s) p = Some source \<and> sent s [] t
    \<and> (\<exists>d tm. node_at (ss_files s) source = Some (RegularFile d tm))"
proof -
  have "on_files (open_existing p) s = (Inr source, t)"
    using assms by (auto simp: dl_open_def dl_open_cases tryS_def bindS_def dl_fail_not_Proceed
        split: prod.splits sum.splits if_splits)
  then show ?thesis by (auto simp: on_files_apply sent_def split: prod.splits dest!: open_existing_Inr)
qed

lemma dl_open_Return:
  "dl_open ev request p s = (Inr (Return res), t) \<Longrightarrow> \<not> dr_success res"
  by (auto simp: dl_open_def dl_open_cases tryS_def bindS_def dest: dl_fail_failed
      split: prod.splits sum.splits if_splits)

lemma dl_guard_raises: "dl_guard e s \<noteq> (Inr a, t)"
  by (simp add: dl_guard_def)

lemma guarded_Inr: "tryS a dl_guard s = (Inr x, t) \<longleftrightarrow> a s = (Inr x, t)"
  by (simp add: tryS_def dl_guard_raises split: prod.split sum.split)

lemma handle_download_wire:
  assumes "handle_download ev request s = (Inr res, t)" and "dr_success res"
  shows "\<exists>name p data tm info pieces. let off = fd_requested_offset request; user_id = ss_user_id s in
    ss_username s = Some name
    \<and> resolve_namespace_path (ss_files s) (storage_root ev @ [name]) (fd_filename request) False True = Inr p
    \<and> node_at (ss_files s) p = Some (RegularFile data tm) \<and> 0 \<le> off \<and> off \<le> int (length data)
    \<and> info_of ev request (int (length data)) user_id = Inr info
    \<and> concat pieces = drop (nat off) data
    \<and> (\<forall>piece \<in> set pieces. piece \<noteq> [] \<and> int (length piece) \<le> chunk_size ev)
    \<and> outbound (ss_socket t) = outbound (ss_socket s) @ frame_bytes info @ chunk_wire user_id off pieces
        @ frame_bytes (checksum_frame ev user_id data)
    \<and> wf_frame (max_payload ev) (checksum_frame ev user_id data)
    \<and> node_at (ss_files t) = node_at (ss_files s) \<and> dr_bytes_sent res = int (length data) - off"
proof -
  obtain x where x: "res = flow_result x" and run: "bindF (dl_check_request ev request) (\<lambda>_.
        bindS (session_storage_directory ev) (\<lambda>storage.
        bindS (readS ss_files) (\<lambda>fs.
        bindS (liftS (resolve_download_path fs storage (fd_filename request))) (\<lambda>(p, path_error).
        case path_error of
          Some (code, message) \<Rightarrow> dl_fail ev (fd_filename request) 0 code message FILE_DOWNLOAD
        | None \<Rightarrow>
            bindF (dl_open ev request p) (\<lambda>source.
            tryS (dl_transfer ev request source) dl_guard))))) s = (Inr x, t)"
    using assms(1) by (auto simp: handle_download_def bindS_eq_Inr)
  have check: "dl_check_request ev request s = (Inr (Proceed u), s') \<Longrightarrow> s' = s" for u s'
    by (auto simp: dl_check_request_def except_protocol_def bindS_def readS_def dl_fail_not_Proceed
        split: sum.splits option.splits)
  have "\<not> dr_success r" if "dl_check_request ev request s = (Inr (Return r), s')" for r s'
    using that by (auto simp: dl_check_request_def except_protocol_def bindS_def readS_def
        split: sum.splits option.splits dest: dl_fail_failed)
  then obtain storage p path_error where st: "session_storage_directory ev s = (Inr storage, s)"
    and rp: "resolve_download_path (ss_files s) storage (fd_filename request) = Inr (p, path_error)"
    and rest: "(case path_error of
          Some (code, message) \<Rightarrow> dl_fail ev (fd_filename request) 0 code message FILE_DOWNLOAD
        | None \<Rightarrow>
            bindF (dl_open ev request p) (\<lambda>source.
            tryS (dl_transfer ev request source) dl_guard)) s = (Inr x, t)"
    using run assms(2) x
    by (auto simp: bindF_Inr bindS_eq_Inr session_storage_directory_def state_simps dest!: check split: option.splits)
  obtain name where name: "ss_username s = Some name" "storage = storage_root ev @ [name]"
    using st by (auto simp: session_storage_directory_def state_simps)
  have "path_error = None"
    using rest assms(2) x
    by (cases x) (auto simp: dl_fail_not_Proceed split: option.splits dest: dl_fail_failed)
  then have res: "resolve_namespace_path (ss_files s) storage (fd_filename request) False True = Inr p"
    using rp by (auto simp: resolve_download_path_def split: if_splits sum.splits option.splits)
  obtain source s1 where op: "dl_open ev request p s = (Inr (Proceed source), s1)"
    and tr: "dl_transfer ev request source s1 = (Inr x, t)"
    using rest \<open>path_error = None\<close> assms(2) x
    by (auto simp: bindF_Inr guarded_Inr dest: dl_open_Return)
  note opened = dl_open_Proceed [OF op]
  have "canonical (ss_files s) p"
    using resolve_namespace_path_Inr [OF res] resolve_canonical by blast
  then have source: "source = p" using opened canonical_resolve by fastforce
  then obtain data tm where node: "node_at (ss_files s) p = Some (RegularFile data tm)" using opened by blast
  have data: "file_data (ss_files s1) source = data" "ss_user_id s1 = ss_user_id s"
    using opened sent_data [of s "[]" s1 p] source by (auto simp: file_data_node [OF node] sent_def)
  from dl_transfer_success [OF tr] assms(2) x data obtain info pieces where
    *: "0 \<le> fd_requested_offset request" "fd_requested_offset request \<le> int (length data)"
      "info_of ev request (int (length data)) (ss_user_id s) = Inr info"
      "concat pieces = drop (nat (fd_requested_offset request)) data"
      "\<forall>piece \<in> set pieces. piece \<noteq> [] \<and> int (length piece) \<le> chunk_size ev"
      "dr_bytes_sent res = int (length data) - fd_requested_offset request"
      "wf_frame (max_payload ev) (checksum_frame ev (ss_user_id s) data)"
      "sent s1 (frame_bytes info @ chunk_wire (ss_user_id s) (fd_requested_offset request) pieces
        @ frame_bytes (checksum_frame ev (ss_user_id s) data)) t"
    by (auto simp: Let_def)
  have "sent s (frame_bytes info @ chunk_wire (ss_user_id s) (fd_requested_offset request) pieces
        @ frame_bytes (checksum_frame ev (ss_user_id s) data)) t"
    using sent_trans [of s "[]" s1, OF _ *(8)] opened by simp
  with name res node * show ?thesis
    unfolding Let_def
    by (intro exI [of _ name] exI [of _ p] exI [of _ data] exI [of _ tm] exI [of _ info] exI [of _ pieces])
      (simp add: sent_def same_nodes_at)
qed

text \<open>
  C19. A successful download is exact: the bytes the server adds to the connection are the
  \<open>FILE_INFO\<close> frame with the size of the file and the requested offset, \<open>FILE_CHUNK\<close> frames
  with consecutive offsets whose data are, joined, the contents of the file from that offset
  on (no piece empty or larger than the configured chunk), and a \<open>FILE_CHECKSUM\<close> frame with the
  SHA-256 of the whole file, which fits the payload limit; the file is the one the path resolution of the user's namespace
  gives, and no file has changed.
\<close>

theorem download_sends_the_file:
  assumes "handle_download ev request s = (Inr res, t)" and "dr_success res"
  shows "\<exists>name p data tm info pieces. let off = fd_requested_offset request; user_id = ss_user_id s in
    ss_username s = Some name
    \<and> resolve_namespace_path (ss_files s) (storage_root ev @ [name]) (fd_filename request) False True = Inr p
    \<and> node_at (ss_files s) p = Some (RegularFile data tm) \<and> 0 \<le> off \<and> off \<le> int (length data)
    \<and> info_of ev request (int (length data)) user_id = Inr info
    \<and> concat pieces = drop (nat off) data
    \<and> (\<forall>piece \<in> set pieces. piece \<noteq> [] \<and> int (length piece) \<le> chunk_size ev)
    \<and> outbound (ss_socket t) = outbound (ss_socket s) @ frame_bytes info @ chunk_wire user_id off pieces
        @ frame_bytes (checksum_frame ev user_id data)
    \<and> wf_frame (max_payload ev) (checksum_frame ev user_id data)
    \<and> node_at (ss_files t) = node_at (ss_files s) \<and> dr_bytes_sent res = int (length data) - off"
  using assms by (rule handle_download_wire)

subsection \<open>An example\<close>

text \<open>The user downloads the file \<open>f\<close>; the client acknowledges the offer and the digest.\<close>

definition example_download :: file_download where
  "example_download = \<lparr>fd_filename = [102], fd_requested_offset = 0\<rparr>"

definition ack_frame :: "byte \<Rightarrow> byte \<Rightarrow> frame" where
  "ack_frame op n = \<lparr>fr_opcode = ACK, fr_payload = [0, op, 0, 0, 0, 0, 0, 0, 0, n], fr_user_id = 1\<rparr>"

definition file_frame :: "opcode \<Rightarrow> byte list \<Rightarrow> frame" where
  "file_frame op payload = \<lparr>fr_opcode = op, fr_payload = payload, fr_user_id = 1\<rparr>"

lemma filename_payload_f: "filename_payload [102] = Inr [0, 1, 102]"
proof -
  have "utf8_encode [102] = Some [102]" by code_simp
  then show ?thesis
    by (simp add: filename_payload_def encode_filename_def lit_def MAX_FILENAME_BYTES_def eval_bytes)
qed

lemmas run_make = make_file_download_frame_def make_file_info_frame_def make_file_chunk_frame_def
  make_file_checksum_frame_def make_frame_def make_frame_object_def validate_payload_size_def
  validate_uint_def validate_chunk_data_def filename_payload_f uint_max_defs
  MAX_USER_ID_def eval_bytes SHA256_DIGEST_SIZE_BYTES_def
lemmas run_parse = parse_acknowledgement_def validate_frame_def rd_uint16_def rd_uint64_def
  rd_uint_def rd_read_def rd_finish_def payload_reader_def decode_opcode_def opcode_of_def all_opcodes_def

lemma example_frames:
  "make_file_download_frame \<lparr>fd_filename = [102], fd_requested_offset = 0\<rparr> 1024 1
     = Inr (file_frame FILE_DOWNLOAD [0, 1, 102, 0, 0, 0, 0, 0, 0, 0, 0])"
  "make_file_info_frame \<lparr>fi_filename = [102], fi_total_size = 3, fi_start_offset = 0\<rparr> 1024 1
     = Inr (file_frame FILE_INFO [0, 1, 102, 0, 0, 0, 0, 0, 0, 0, 3, 0, 0, 0, 0, 0, 0, 0, 0])"
  "make_file_chunk_frame \<lparr>fc_offset = 0, fc_data = [1, 2, 3]\<rparr> 512 1024 1
     = Inr (file_frame FILE_CHUNK [0, 0, 0, 0, 0, 0, 0, 0, 1, 2, 3])"
  "make_file_checksum_frame \<lparr>fk_final_size = 3, fk_sha256_digest = replicate 31 0 @ [3]\<rparr> 1024 1
     = Inr (file_frame FILE_CHECKSUM ([0, 0, 0, 0, 0, 0, 0, 3] @ replicate 31 0 @ [3]))"
  "parse_acknowledgement (ack_frame 22 0) 1024 = Inr \<lparr>ak_acknowledged_opcode = FILE_INFO, ak_next_offset = 0\<rparr>"
  "parse_acknowledgement (ack_frame 23 3) 1024 = Inr \<lparr>ak_acknowledged_opcode = FILE_CHECKSUM, ak_next_offset = 3\<rparr>"
  by (simp_all add: run_make run_parse ack_frame_def file_frame_def)

lemma example_frames_wf:
  "wf_frame 1024 (ack_frame op n)" "fr_user_id (ack_frame op n) = 1" "fr_opcode (ack_frame op n) = ACK"
  "length p \<le> 1024 \<Longrightarrow> wf_frame 1024 (file_frame oc p)" "fr_user_id (file_frame oc p) = 1"
  by (simp_all add: wf_frame_def ack_frame_def file_frame_def MAX_USER_ID_def)

lemma example_file:
  "file_data example_files [[115], [97], [102]] = [1, 2, 3]" "fs_faults example_files = []"
  by (simp add: file_data_def example_nodes) (simp add: example_files_def)

lemma read_example:
  "3 \<le> n \<Longrightarrow> read_handle [[115], [97], [102]] 0 n example_files = (Inr [1, 2, 3], example_files)"
  "3 \<le> pos \<Longrightarrow> read_handle [[115], [97], [102]] pos n example_files = (Inr [], example_files)"
  by (simp_all add: read_handle_def os_call_def example_file)

lemma read_all_example: "read_all_loop [[115], [97], [102]] [] example_files = (Inr [1, 2, 3], example_files)"
  by (simp add: read_all_loop.simps [of _ "[]"] read_all_loop.simps [of _ "[1, 2, 3]"] read_example READ_SIZE_def)

lemma files_session: "on_files act (frames_session st frames out) = (case act example_files of (r, fs) \<Rightarrow>
    (r, (frames_session st frames out)\<lparr>ss_files := fs\<rparr>))"
  by (simp add: on_files_apply)

lemma frames_session_same [simp]: "(frames_session st frames out)\<lparr>ss_files := example_files\<rparr> = frames_session st frames out"
  by (simp add: frames_session_def example_session_def)

lemma example_digest: "ev_sha256 example_environment [1, 2, 3] = replicate 31 0 @ [3]"
  by (simp add: example_environment_def)

lemma example_offer:
  "dl_offer example_environment example_download 3 (frames_session SENDING_DOWNLOAD [ack_frame 22 0, ack_frame 23 3] [])
     = (Inr (Proceed ()), frames_session SENDING_DOWNLOAD [ack_frame 23 3]
         (frame_bytes (file_frame FILE_INFO [0, 1, 102, 0, 0, 0, 0, 0, 0, 0, 3, 0, 0, 0, 0, 0, 0, 0, 0])))"
  by (simp add: dl_offer_def validate_ack_def example_download_def Let_def bindS_def readS_def
      example_frames example_frames_wf frames_session_run)

lemma example_loop:
  "send_loop_from example_environment [[115], [97], [102]] 0 (frames_session SENDING_DOWNLOAD frames out0)
     = (Inr 3, frames_session SENDING_DOWNLOAD frames
         (out0 @ frame_bytes (file_frame FILE_CHUNK [0, 0, 0, 0, 0, 0, 0, 0, 1, 2, 3])))"
proof -
  have "dl_send_chunk example_environment 0 [1, 2, 3] (frames_session SENDING_DOWNLOAD frames out0)
      = (Inr (), frames_session SENDING_DOWNLOAD frames (out0 @ frame_bytes (file_frame FILE_CHUNK [0, 0, 0, 0, 0, 0, 0, 0, 1, 2, 3])))"
    by (simp add: dl_send_chunk_def bindS_def readS_def consume_bandwidth_def example_frames example_frames_wf frames_session_run)
  then show ?thesis
    by (simp add: send_loop_from.simps [of _ _ 0] send_loop_from.simps [of _ _ 3] files_session read_example)
qed

definition digest_frame :: frame where
  "digest_frame = file_frame FILE_CHECKSUM ([0, 0, 0, 0, 0, 0, 0, 3] @ replicate 31 0 @ [3])"

lemma digest_frame_wf: "wf_frame 1024 digest_frame" "fr_user_id digest_frame = 1" "fr_opcode digest_frame = FILE_CHECKSUM"
  unfolding digest_frame_def by (simp_all add: example_frames_wf) (simp add: file_frame_def)

lemma example_finish:
  "dl_finish example_environment example_download 3 [1, 2, 3] 3 (frames_session SENDING_DOWNLOAD [ack_frame 23 3] out)
     = (Inr (Proceed (dl_result [102] 3 True (Some True) None)), frames_session SENDING_DOWNLOAD [] (out @ frame_bytes digest_frame))"
  using frames_session_run(1) [OF digest_frame_wf(1,2)]
  by (simp add: dl_finish_def validate_ack_def example_download_def Let_def bindS_def readS_def example_digest
      example_frames(4-6) [folded digest_frame_def] example_frames_wf frames_session_run)

text \<open>The frames of the transfer, as the server sends them.\<close>

definition offered_frames :: "frame list" where
  "offered_frames = [file_frame FILE_INFO [0, 1, 102, 0, 0, 0, 0, 0, 0, 0, 3, 0, 0, 0, 0, 0, 0, 0, 0],
     file_frame FILE_CHUNK [0, 0, 0, 0, 0, 0, 0, 0, 1, 2, 3], digest_frame]"

lemma example_transfer:
  "dl_transfer example_environment example_download [[115], [97], [102]]
      (frames_session SENDING_DOWNLOAD [ack_frame 22 0, ack_frame 23 3] [])
      = (Inr (Proceed (dl_result [102] 3 True (Some True) None)),
         frames_session SENDING_DOWNLOAD [] (concat (map frame_bytes offered_frames)))"
proof -
  have size: "fstat_size [[115], [97], [102]] example_files = (Inr 3, example_files)"
    by (simp add: fstat_size_def os_call_def example_file)
  have off: "fd_requested_offset example_download = 0" by (simp add: example_download_def)
  show ?thesis
    by (simp add: dl_transfer_def bindF_def bindS_def Let_def files_session size off example_offer read_all_example
        example_loop example_finish offered_frames_def)
qed

lemma example_request:
  "dl_check_request example_environment example_download (frames_session st frames out)
     = (Inr (Proceed ()), frames_session st frames out)"
  "resolve_download_path example_files [[115], [97]] [102] = Inr ([[115], [97], [102]], None)"
  "dl_open example_environment example_download [[115], [97], [102]] (frames_session st frames out)
     = (Inr (Proceed [[115], [97], [102]]), frames_session st frames out)"
proof -
  show "dl_check_request example_environment example_download (frames_session st frames out)
     = (Inr (Proceed ()), frames_session st frames out)"
    by (simp add: dl_check_request_def bindS_def readS_def except_protocol_def example_download_def example_frames)
  have "\<not> is_internal_file [102]"
    by (simp add: is_internal_file_def ends_with_def INTERNAL_EXACT_NAMES_def lit_def)
  then show "resolve_download_path example_files [[115], [97]] [102] = Inr ([[115], [97], [102]], None)"
    by (simp add: resolve_download_path_def resolve_example)
  have "open_existing [[115], [97], [102]] example_files = (Inr [[115], [97], [102]], example_files)"
    by (simp add: open_existing_def os_call_def example_file example_resolves example_nodes)
  then show "dl_open example_environment example_download [[115], [97], [102]] (frames_session st frames out)
     = (Inr (Proceed [[115], [97], [102]]), frames_session st frames out)"
    by (simp add: dl_open_def tryS_def bindS_def files_session)
qed

lemma example_served:
  "handle_download example_environment example_download (frames_session SENDING_DOWNLOAD [ack_frame 22 0, ack_frame 23 3] [])
     = (Inr (dl_result [102] 3 True (Some True) None),
        frames_session SENDING_DOWNLOAD [] (concat (map frame_bytes offered_frames)))"
proof -
  have "fd_filename example_download = [102]" by (simp add: example_download_def)
  then show ?thesis
    by (simp add: handle_download_def bindF_def bindS_def readS_def tryS_def session_storage_directory_def
        example_request example_transfer)
qed

theorem download_sends_the_file_witness:
  "\<exists>t info pieces. handle_download example_environment example_download
       (frames_session SENDING_DOWNLOAD [ack_frame 22 0, ack_frame 23 3] []) = (Inr (dl_result [102] 3 True (Some True) None), t)
     \<and> concat pieces = [1, 2, 3] \<and> outbound (ss_socket t) = frame_bytes info @ chunk_wire 1 0 pieces
         @ frame_bytes (checksum_frame example_environment 1 [1, 2, 3])"
proof -
  let ?t = "frames_session SENDING_DOWNLOAD [] (concat (map frame_bytes offered_frames))"
  from download_sends_the_file [OF example_served] have "\<exists>info pieces. concat pieces = [1, 2, 3]
      \<and> outbound (ss_socket ?t) = frame_bytes info @ chunk_wire 1 0 pieces
         @ frame_bytes (checksum_frame example_environment 1 [1, 2, 3])"
    by (auto simp: dl_result_def Let_def example_download_def resolve_example example_nodes frames_socket_def)
  with example_served show ?thesis by blast
qed

end
