(* ===== verification/SessionSafety.thy ===== *)
theory SessionSafety
  imports Session Examples
begin

section \<open>What a session guarantees\<close>

subsection \<open>The dispatcher's loop respects the session relations\<close>

context session_relation begin

lemma keeps_serve_loop: "keeps (serve_loop ev)"
proof (rule keepsI)
  show "serve_loop ev s = (r, t) \<Longrightarrow> R s t" for s r t
  proof (induction ev s arbitrary: r t rule: serve_loop.induct)
    case (1 ev s)
    obtain q u where turn: "serve_turn ev s = (q, u)" by fastforce
    have su: "R s u" by (rule keepsD [OF keeps_turn turn])
    show ?case
    proof (cases "(ss_state s = AUTHENTICATING \<or> ss_state s = IDLE) \<and> q = Inr True")
      case True
      then have "serve_loop ev u = (r, t)"
        using "1.prems" turn by (auto simp: serve_loop.simps [of ev s])
      with "1.IH" turn True have "R u t" by simp
      with su show ?thesis by (rule R_trans)
    next
      case False
      then have "t = u \<or> t = s"
        using "1.prems" turn
        by (auto simp: serve_loop.simps [of ev s] split: if_splits sum.splits bool.splits)
      with su show ?thesis by (auto simp: R_refl)
    qed
  qed
qed

lemma keeps_serve: "keeps (serve ev)"
  unfolding serve_def by (intro keep_intros keeps_serve_loop)

lemma keeps_connect: "keeps (connect ev)"
  unfolding connect_def by (intro keep_intros keeps_handshake keeps_logs)

end

subsection \<open>A connection ends closed\<close>

text \<open>What never changes before the session is closed.\<close>

definition surviving :: "session \<Rightarrow> session \<Rightarrow> bool" where
  "surviving s t \<longleftrightarrow> (ss_state s \<noteq> CLOSED \<longrightarrow> ss_state t \<noteq> CLOSED)
     \<and> ss_registry_session_id t = ss_registry_session_id s
     \<and> ss_owns_registry_session t = ss_owns_registry_session s"

interpretation surviving: session_relation surviving
  by unfold_locales (auto simp: surviving_def transfer_step_def)

lemma log_disconnected_fields:
  "log_disconnected ev b f s = (r, t) \<Longrightarrow> \<exists>lg. t = s\<lparr>ss_logger := lg\<rparr>"
  by (auto intro: exI [of _ "ss_logger s"] simp: log_disconnected_def bindS_def readS_def on_logger_def split: option.splits prod.splits)

lemma close_session_run:
  assumes "close_session s = (r, t)" "ss_state s \<noteq> CLOSED"
  shows "ss_state t = CLOSED \<and> \<not> ss_authenticated t \<and> ss_username t = None \<and> ss_user_id t = USER_ID
    \<and> \<not> ss_socket_open t \<and> ss_socket t = ss_socket s \<and> r = Inr ()
    \<and> ss_registry t = (if ss_owns_registry_session s then snd (release_session (ss_registry_session_id s) (ss_registry s))
        else ss_registry s)"
proof -
  obtain w reg where "release_session (ss_registry_session_id s) (ss_registry s) = (Inr w, reg)"
    by (cases "session_at (ss_registry s) (ss_registry_session_id s)")
      (auto simp: release_session_def session_at_def Let_def)
  then show ?thesis
    using assms by (auto simp: close_session_def bindS_def readS_def set_state_def updateS_def partS_def)
qed

text \<open>
  C16. Every connection ends with its resources released: however \<open>run\<close> ends (failed handshake,
  refused login, broken stream, failing handler, clean disconnect), the session is then
  \<open>CLOSED\<close>, not authenticated, without user name and with \<open>USER_ID\<close> 0, its socket is closed, and
  a session that registered itself is no longer in the registry.
\<close>

theorem run_ends_closed:
  assumes "ss_state s \<noteq> CLOSED" and "run ev s = (r, t)"
  shows "ss_state t = CLOSED \<and> \<not> ss_authenticated t \<and> ss_username t = None \<and> ss_user_id t = USER_ID
    \<and> \<not> ss_socket_open t
    \<and> (ss_owns_registry_session s \<longrightarrow> session_at (ss_registry t) (ss_registry_session_id s) = None)"
proof -
  obtain q u where served: "bindS (connect ev) (\<lambda>_. serve ev) s = (q, u)" by fastforce
  have "surviving.keeps (bindS (connect ev) (\<lambda>_. serve ev))"
    by (intro surviving.keep_intros surviving.keeps_connect surviving.keeps_serve)
  then have su: "surviving s u" using served by (rule surviving.keepsD)
  obtain q2 v where cl: "close_session u = (q2, v)" by fastforce
  have "ss_state u \<noteq> CLOSED" using su assms(1) by (simp add: surviving_def)
  note closed = close_session_run [OF cl this]
  obtain q3 b f where "log_disconnected ev b f v = (q3, t)"
    using assms(2) served cl closed
    by (auto simp: run_def Let_def bindS_def split: prod.splits sum.splits)
  then obtain lg where "t = v\<lparr>ss_logger := lg\<rparr>" using log_disconnected_fields by blast
  then show ?thesis
    using closed su by (auto simp: surviving_def release_session_at)
qed

theorem run_ends_closed_witness:
  "ss_state (snd (run example_environment (example_session CONNECTED []))) = CLOSED"
  using run_ends_closed [of "example_session CONNECTED []" example_environment]
  by (simp add: example_session_def [of CONNECTED]) (metis prod.collapse)


subsection \<open>Commands are served only to an authenticated user\<close>

definition registered :: "session \<Rightarrow> bool" where
  "registered s \<longleftrightarrow> (\<exists>identity name. session_at (ss_registry s) (ss_registry_session_id s) = Some identity
     \<and> ss_username s = Some name \<and> sn_username identity = Some name
     \<and> sn_user_id identity = Some (ss_user_id s))"

definition serving :: "session_state \<Rightarrow> bool" where
  "serving st \<longleftrightarrow> st \<in> {IDLE, RECEIVING_UPLOAD, SENDING_DOWNLOAD}"

definition session_ok :: "session \<Rightarrow> bool" where
  "session_ok s \<longleftrightarrow> registry_ok (ss_registry s)
     \<and> (ss_authenticated s \<longrightarrow> registered s)
     \<and> (serving (ss_state s) \<longrightarrow> ss_authenticated s)
     \<and> (ss_state s \<in> {CONNECTED, AUTHENTICATING} \<longrightarrow> \<not> ss_authenticated s)"

text \<open>What a command can change of identity and state.\<close>

definition command_step :: "session \<Rightarrow> session \<Rightarrow> bool" where
  "command_step s t \<longleftrightarrow> ss_registry t = ss_registry s \<and> ss_registry_session_id t = ss_registry_session_id s
     \<and> ss_username t = ss_username s \<and> ss_user_id t = ss_user_id s \<and> ss_authenticated t = ss_authenticated s
     \<and> (ss_state t = ss_state s \<or> serving (ss_state t) \<or> ss_state t = CLOSING)"

interpretation commanding: command_relation command_step
  by unfold_locales (auto simp: command_step_def transfer_step_def serving_def)

lemma command_keeps_ok: "command_step s t \<Longrightarrow> session_ok s \<Longrightarrow> ss_authenticated s \<or> \<not> serving (ss_state t) \<Longrightarrow> session_ok t"
  by (auto simp: command_step_def session_ok_def registered_def serving_def)

text \<open>Login: while it runs, the state is \<open>AUTHENTICATING\<close>; when it succeeds, the identity is the registry's.\<close>

definition login_step :: "session \<Rightarrow> session \<Rightarrow> bool" where
  "login_step s t \<longleftrightarrow> ss_registry t = ss_registry s \<and> ss_registry_session_id t = ss_registry_session_id s
     \<and> ss_username t = ss_username s \<and> ss_user_id t = ss_user_id s \<and> ss_authenticated t = ss_authenticated s
     \<and> ss_state t = ss_state s"

interpretation login_steps: step_relation login_step
  by unfold_locales (auto simp: login_step_def)

lemma login_transfer: "transfer.keeps a \<Longrightarrow> login_steps.keeps a"
  by (rule login_steps.keepsI) (auto dest: transfer.keepsD simp: login_step_def transfer_step_def)

lemma claim_gives_identity:
  assumes "registry_ok reg" "claim_username k u reg = (Inr identity, reg')"
  shows "registry_ok reg' \<and> session_at reg' k = Some identity \<and> sn_username identity = Some u
    \<and> (\<exists>i. sn_user_id identity = Some i)"
proof -
  have uid: "\<exists>i. sn_user_id s = Some i" if "session_at reg k = Some s" "sn_username s = Some v" for s v
  proof -
    have "(sn_username s = None) = (sn_user_id s = None)"
      using assms(1) that(1) unfolding registry_ok_def sessions_ok_def by blast
    with that(2) show ?thesis by auto
  qed
  from assms show ?thesis
  proof (cases rule: claim_username_cases)
    case (again s)
    then show ?thesis using assms(1) uid by auto
  next
    case (claimed s i reg1)
    from claim_stored [OF assms(1) claimed(2-5) refl claimed(7)] claimed(6) show ?thesis by auto
  qed simp_all
qed

lemma authenticate_ok:
  assumes ok: "session_ok s" "ss_state s = AUTHENTICATING" and run: "authenticate ev name s = (r, t)"
  shows "session_ok t \<and> (case r of
      Inr u \<Rightarrow> ss_state t = IDLE \<and> ss_authenticated t \<and> ss_username t = Some name
    | Inl e \<Rightarrow> ss_state t = AUTHENTICATING \<and> \<not> ss_authenticated t)"
proof -
  have mk: "login_steps.keeps (tryS (on_files (mkdir_parents (storage_root ev @ [name])))
       (\<lambda>error.
          if is_permission_error error then
            raiseS (protocol_error ACCESS_DENIED (lit ''cannot create user namespace: '' @ exc_text error))
          else if is_os_error error then
            raiseS (protocol_error FILE_IO_ERROR (lit ''cannot create user namespace: '' @ exc_text error))
          else raiseS error))" (is "login_steps.keeps ?mk")
    by (intro login_steps.keep_intros login_transfer [OF transfer_files])
  obtain q1 s1 where m: "?mk s = (q1, s1)" by fastforce
  have l1: "login_step s s1" by (rule login_steps.keepsD [OF mk m])
  have ok1: "session_ok s1" "ss_state s1 = AUTHENTICATING" "\<not> ss_authenticated s1"
    using l1 ok by (auto simp: login_step_def session_ok_def registered_def)
  show ?thesis
  proof (cases q1)
    case (Inl e)
    then have "r = Inl e \<and> t = s1" using run m by (simp add: authenticate_def)
    with ok1 show ?thesis by simp
  next
    case (Inr v)
    obtain q2 reg where cl: "claim_username (ss_registry_session_id s1) name (ss_registry s1) = (q2, reg)" by fastforce
    have reg: "registry_ok reg" using claim_username_ok [of "ss_registry s1"] cl ok1(1)
      by (metis session_ok_def snd_conv)
    define s2 where "s2 = s1\<lparr>ss_registry := reg\<rparr>"
    show ?thesis
    proof (cases q2)
      case (Inl e)
      then have "r = Inl (claim_failure e) \<and> t = s2"
        using run m Inr cl by (simp add: authenticate_def bindS_def readS_def partS_def tryS_def s2_def)
      with ok1 reg show ?thesis by (simp add: session_ok_def s2_def serving_def)
    next
      case identity: (Inr identity)
      from claim_gives_identity [OF _ cl [unfolded identity]] ok1(1) obtain i where
        id: "session_at reg (ss_registry_session_id s1) = Some identity" "sn_username identity = Some name"
          "sn_user_id identity = Some i" by (auto simp: session_ok_def)
      define s3 where "s3 = s2\<lparr>ss_username := Some name, ss_user_id := i\<rparr>"
      obtain q4 s4 where ack: "send_ack ev LOGIN 0 s3 = (q4, s4)" by fastforce
      have l4: "login_step s3 s4" by (rule login_steps.keepsD [OF login_transfer [OF transfer_helpers(5)] ack])
      have "bindS (send_ack ev LOGIN 0) (\<lambda>_. updateS (\<lambda>s. s\<lparr>ss_authenticated := True, ss_state := IDLE\<rparr>)) s3 = (r, t)"
        using run m Inr cl identity id
        by (simp add: authenticate_def bindS_def readS_def updateS_def partS_def tryS_def s2_def s3_def)
      then have "(\<exists>e. r = Inl e) \<and> t = s4 \<or> r = Inr () \<and> t = s4\<lparr>ss_authenticated := True, ss_state := IDLE\<rparr>"
        using ack by (cases q4) (auto simp: bindS_def updateS_def)
      then show ?thesis
        using l4 ok1 reg id
        by (auto simp: login_step_def s3_def s2_def session_ok_def registered_def serving_def)
    qed
  qed
qed

text \<open>Sending and receiving change neither the identity nor the state.\<close>

lemma transfer_keeps_ok: "transfer_step s t \<Longrightarrow> session_ok s \<Longrightarrow> session_ok t \<and> ss_state t = ss_state s"
  by (auto simp: transfer_step_def session_ok_def registered_def)

lemma send_error_ok:
  "session_send_error ev op code message s = (r, t) \<Longrightarrow> transfer_step s t"
  by (rule transfer.keepsD [of "session_send_error ev op code message"])
    (unfold session_send_error_def, intro transfer_intros)

lemma dispatch_authentication_ok:
  assumes ok: "session_ok s" "ss_state s = AUTHENTICATING"
    and run: "dispatch_authentication ev fr s = (r, t)"
  shows "session_ok t \<and> (ss_state t = AUTHENTICATING \<or> ss_state t = IDLE)"
proof (cases "fr_opcode fr = LOGIN")
  case False
  then have "transfer_step s t" using run by (auto simp: dispatch_authentication_def dest: send_error_ok)
  then show ?thesis using ok transfer_keeps_ok by simp
next
  case True
  have answer: "session_ok t \<and> (ss_state t = AUTHENTICATING \<or> ss_state t = IDLE)"
    if "session_ok u" "ss_state u = AUTHENTICATING"
      "(case protocol_parts e of None \<Rightarrow> raiseS e
        | Some (code, message) \<Rightarrow> session_send_error ev (Known LOGIN) code message) u = (r, t)" for e u
    using that by (auto split: option.splits prod.splits dest!: send_error_ok transfer_keeps_ok)
  show ?thesis
  proof (cases "parse_login fr (max_payload ev)")
    case (Inl e)
    with answer [OF ok, of e] True run show ?thesis
      by (simp add: dispatch_authentication_def bindS_def tryS_def liftS_def)
  next
    case (Inr request)
    define checked where "checked = (case utf8_encode (lr_username request) of
        None \<Rightarrow> Inl (ValueError (lit ''surrogates not allowed''))
      | Some encoded \<Rightarrow> guardE (int (length encoded) \<le> ac_max_username_bytes (cf_auth (ev_config ev)))
          (protocol_error INVALID_USERNAME (lit ''username exceeds the configured byte limit'')))"
    show ?thesis
    proof (cases checked)
      case (Inl e)
      with answer [OF ok, of e] True run \<open>parse_login fr (max_payload ev) = Inr request\<close> show ?thesis
        by (simp add: dispatch_authentication_def bindS_def tryS_def liftS_def checked_def)
    next
      case (Inr v)
      obtain q u where a: "authenticate ev (lr_username request) s = (q, u)" by fastforce
      note au = authenticate_ok [OF ok a]
      show ?thesis
      proof (cases q)
        case (Inl e)
        with au answer [of u e] a True run \<open>parse_login fr (max_payload ev) = Inr request\<close> \<open>checked = Inr v\<close>
        show ?thesis by (simp add: dispatch_authentication_def bindS_def tryS_def liftS_def checked_def)
      next
        case (Inr w)
        with au a True run \<open>parse_login fr (max_payload ev) = Inr request\<close> \<open>checked = Inr v\<close>
        show ?thesis by (simp add: dispatch_authentication_def bindS_def tryS_def liftS_def checked_def)
      qed
    qed
  qed
qed

lemma serve_failure_ok:
  assumes "serve_failure ev error s = (r, t)" "session_ok s"
  shows "session_ok t"
proof -
  have keep: "session_ok u \<and> session_ok (u\<lparr>ss_state := CLOSING\<rparr>)" if "transfer_step s u" for u
    using transfer_keeps_ok [OF that assms(2)] by (auto simp: session_ok_def registered_def serving_def)
  consider "is_peer_disconnected error" | "\<not> is_peer_disconnected error" "answerable error = None"
    | c m raw where "\<not> is_peer_disconnected error" "answerable error = Some (c, m, raw)"
    by (cases "answerable error") auto
  then show ?thesis
  proof cases
    case 3
    obtain q u where sent: "session_send_error ev (Raw raw) c m s = (q, u)" by fastforce
    have "t = u \<or> t = u\<lparr>ss_state := CLOSING\<rparr>"
      using assms(1) 3 sent
      by (auto simp: serve_failure_def bindS_def set_state_def updateS_def returnS_def split: if_splits sum.splits)
    with keep [OF send_error_ok [OF sent]] show ?thesis by auto
  qed (use assms(1) keep [OF transfer.R_refl] in \<open>auto simp: serve_failure_def set_state_def state_simps\<close>)
qed

lemma dispatch_ok:
  assumes "dispatch ev fr s = (r, t)" "session_ok s" "ss_authenticated s"
  shows "session_ok t"
  using commanding.keepsD [OF commanding.keeps_dispatch_parts(3) assms(1)] assms(2,3)
  by (blast intro: command_keeps_ok)

lemma serve_turn_ok:
  assumes turn: "serve_turn ev s = (r, t)" and ok: "session_ok s" and st: "ss_state s = AUTHENTICATING \<or> ss_state s = IDLE"
  shows "session_ok t"
proof -
  obtain q u where rc: "session_receive ev s = (q, u)" by fastforce
  have u: "session_ok u" "ss_state u = ss_state s"
    using transfer_keeps_ok [OF transfer.keepsD [OF transfer_receive rc] ok] by simp_all
  show ?thesis
  proof (cases q)
    case (Inl e)
    then obtain w where "serve_failure ev e u = (w, t)"
      using turn rc by (auto simp: serve_turn_def bindF_def bindS_def tryS_def split: prod.splits sum.splits)
    with u(1) show ?thesis by (rule serve_failure_ok [rotated])
  next
    case (Inr fr)
    then obtain w where
      d: "(if ss_state u = AUTHENTICATING then dispatch_authentication ev fr else dispatch ev fr) u = (w, t)"
      using turn rc
      by (auto simp: serve_turn_def bindF_def bindS_def tryS_def readS_def split: prod.splits sum.splits if_splits)
    show ?thesis
    proof (cases "ss_state u = AUTHENTICATING")
      case True
      with d u dispatch_authentication_ok [of u ev fr w t] show ?thesis by simp
    next
      case False
      then have "ss_authenticated u" using u st by (auto simp: session_ok_def serving_def)
      with d False u dispatch_ok show ?thesis by auto
    qed
  qed
qed

text \<open>
  The states a session is in at the top of its loop.  Between two of its turns the other threads
  of the server may register sessions, claim names, release sessions and change files.
\<close>

inductive serve_reaches :: "environment \<Rightarrow> session \<Rightarrow> session \<Rightarrow> bool" for ev s where
  serve_start: "serve_reaches ev s s"
| serve_turn: "serve_reaches ev s t \<Longrightarrow> ss_state t = AUTHENTICATING \<or> ss_state t = IDLE \<Longrightarrow>
    serve_turn ev t = (r, u) \<Longrightarrow> serve_reaches ev s u"
| other_registers: "serve_reaches ev s t \<Longrightarrow>
    serve_reaches ev s (t\<lparr>ss_registry := snd (register_session peer (ss_registry t))\<rparr>)"
| other_claims: "serve_reaches ev s t \<Longrightarrow> k \<noteq> ss_registry_session_id t \<Longrightarrow>
    serve_reaches ev s (t\<lparr>ss_registry := snd (claim_username k name (ss_registry t))\<rparr>)"
| other_releases: "serve_reaches ev s t \<Longrightarrow> k \<noteq> ss_registry_session_id t \<Longrightarrow>
    serve_reaches ev s (t\<lparr>ss_registry := snd (release_session k (ss_registry t))\<rparr>)"
| other_files: "serve_reaches ev s t \<Longrightarrow> serve_reaches ev s (t\<lparr>ss_files := fs\<rparr>)"

lemma registry_change_ok:
  assumes "session_ok s" "registry_ok reg"
    and "ss_authenticated s \<Longrightarrow> session_at reg (ss_registry_session_id s) = session_at (ss_registry s) (ss_registry_session_id s)"
  shows "session_ok (s\<lparr>ss_registry := reg\<rparr>)"
  using assms by (auto simp: session_ok_def registered_def)

lemma claim_other:
  assumes "registry_ok reg" "k' \<noteq> k"
  shows "session_at (snd (claim_username k u reg)) k' = session_at reg k'"
proof -
  obtain r reg' where c: "claim_username k u reg = (r, reg')" by fastforce
  with assms(1) have "session_at reg' k' = session_at reg k'"
  proof (cases rule: claim_username_cases)
    case (claimed s i reg1)
    from claim_stored [OF assms(1) claimed(2-5) refl claimed(7)] assms(2) show ?thesis by simp
  qed simp_all
  with c show ?thesis by simp
qed

lemma serve_reaches_ok: "serve_reaches ev s t \<Longrightarrow> session_ok s \<Longrightarrow> session_ok t"
proof (induction rule: serve_reaches.induct)
  case (serve_turn t r u)
  then show ?case using serve_turn_ok by blast
next
  case (other_registers t peer)
  then have reg: "registry_ok (ss_registry t)" by (simp add: session_ok_def)
  have "ss_registry_session_id t \<noteq> rg_next_session_id (ss_registry t)" if auth: "ss_authenticated t"
  proof -
    obtain identity where "session_at (ss_registry t) (ss_registry_session_id t) = Some identity"
      using other_registers auth by (auto simp: session_ok_def registered_def)
    then have "ss_registry_session_id t < rg_next_session_id (ss_registry t)"
      using reg unfolding registry_ok_def sessions_ok_def by blast
    then show ?thesis by simp
  qed
  with other_registers show ?case
    by (intro registry_change_ok) (auto simp: register_session_at register_session_ok [OF reg])
next
  case (other_claims t k name)
  then have reg: "registry_ok (ss_registry t)" by (simp add: session_ok_def)
  from other_claims show ?case
    by (intro registry_change_ok) (auto simp: claim_other [OF reg] claim_username_ok [OF reg])
next
  case (other_releases t k)
  then have reg: "registry_ok (ss_registry t)" by (simp add: session_ok_def)
  from other_releases show ?case
    by (intro registry_change_ok) (auto simp: release_session_at release_session_ok [OF reg])
qed (auto simp: session_ok_def registered_def)

text \<open>
  C11. No command without login: from the end of the handshake on, whatever the peer sends and
  whatever other sessions do in between, a session that takes a frame as a command (state
  \<open>IDLE\<close>) is authenticated, and the user name and the \<open>USER_ID\<close> it acts under are those the
  registry holds for it; no other session of the registry has that name or that number.
\<close>

theorem served_session_is_authenticated:
  assumes "registry_ok (ss_registry s)" "ss_state s = AUTHENTICATING" "\<not> ss_authenticated s"
    and "serve_reaches ev s t" "ss_state t = IDLE"
  shows "ss_authenticated t \<and> (\<exists>identity name.
     session_at (ss_registry t) (ss_registry_session_id t) = Some identity
     \<and> ss_username t = Some name \<and> sn_username identity = Some name
     \<and> sn_user_id identity = Some (ss_user_id t)
     \<and> (\<forall>k other. session_at (ss_registry t) k = Some other \<and> k \<noteq> ss_registry_session_id t \<longrightarrow>
          sn_username other \<noteq> Some name \<and> sn_user_id other \<noteq> Some (ss_user_id t)))"
proof -
  have "session_ok s" using assms(1-3) by (simp add: session_ok_def serving_def)
  from serve_reaches_ok [OF assms(4) this] assms(5)
  have reg: "registry_ok (ss_registry t)" and auth: "ss_authenticated t" and "registered t"
    by (auto simp: session_ok_def serving_def)
  then obtain identity name where at: "session_at (ss_registry t) (ss_registry_session_id t) = Some identity"
    "ss_username t = Some name" "sn_username identity = Some name" "sn_user_id identity = Some (ss_user_id t)"
    by (auto simp: registered_def)
  have "sn_username other \<noteq> Some name \<and> sn_user_id other \<noteq> Some (ss_user_id t)"
    if "session_at (ss_registry t) k = Some other" "k \<noteq> ss_registry_session_id t" for k other
    using names_inject [OF reg that(1) at(1)] registry_okD(4) [OF reg that(1) at(1)] at that(2) by blast
  with at auth show ?thesis by blast
qed

text \<open>A client that sends \<open>LOGIN\<close> with the name \<open>a\<close>.\<close>

definition fresh_registry :: registry where
  "fresh_registry = \<lparr>rg_maximum_user_id = 9, rg_sessions = [], rg_username_owners = [],
     rg_next_session_id = 1, rg_next_user_id = 1, rg_free_user_ids = []\<rparr>"

definition login_example :: session where
  "login_example =
     (example_session AUTHENTICATING [Segment [0, 0, 0, 7, 0, 1, 0, 0, 0, 1, 97]])
       \<lparr>ss_registry := snd (register_session example_peer fresh_registry),
        ss_username := None, ss_user_id := USER_ID, ss_authenticated := False\<rparr>"

definition login_received :: session where
  "login_received = login_example\<lparr>ss_socket := \<lparr>inbound = [], outbound = [], send_plan = []\<rparr>\<rparr>"

definition login_frame :: frame where
  "login_frame = \<lparr>fr_opcode = LOGIN, fr_payload = [0, 1, 97], fr_user_id = 0\<rparr>"

lemmas login_states = login_example_def login_received_def login_frame_def example_session_def
  fresh_registry_def example_files_def

text \<open>The definitions that running a session on concrete bytes unfolds.\<close>

lemmas run_frames = make_acknowledgement_frame_def make_frame_def validate_payload_size_def
  make_frame_object_def uint_max_defs MAX_USER_ID_def USER_ID_def eval_bytes serialize_frame_def
  FRAME_BODY_HEADER_SIZE_BYTES_def pack_struct_def uint_fits_def send_frame_def send_all_def
  send_loop.simps sock_send_def validate_uint_def
lemmas run_actions = bindS_def tryS_def readS_def updateS_def partS_def Let_def on_socket_apply on_files_apply
lemmas run_session = session_receive_def session_send_def send_ack_def authenticate_def
lemmas run_files = mkdir_parents_def os_call_def followed_def resolve_def node_at_def MAX_LINKS_def set_node_def
lemmas run_registry = claim_username_def allocate_user_id_def store_claim_def require_session_def
  session_at_def register_session_def

lemma login_receive:
  "session_receive example_environment login_example = (Inr login_frame, login_received)"
  by (simp add: run_actions run_session login_states run_socket USER_ID_def)

lemma login_authenticate:
  "fst (authenticate example_environment [97] login_received) = Inr ()"
  "ss_state (snd (authenticate example_environment [97] login_received)) = IDLE"
  by (simp_all add: run_frames run_actions run_session run_files run_registry login_states)

lemma parse_login_frame: "parse_login login_frame 1024 = Inr \<lparr>lr_username = [97]\<rparr>"
  by code_simp

lemma utf8_encode_a: "utf8_encode [97] = Some [97]"
  by code_simp

lemma login_example_turn:
  "ss_state (snd (serve_turn example_environment login_example)) = IDLE"
proof -
  obtain t where a: "authenticate example_environment [97] login_received = (Inr (), t)" "ss_state t = IDLE"
    using login_authenticate by (metis prod.collapse)
  have c: "ac_max_username_bytes (cf_auth (ev_config example_environment)) = 32"
    "ss_state login_received = AUTHENTICATING" "fr_opcode login_frame = LOGIN"
    by (simp_all add: example_environment_def example_config_def login_states)
  have "dispatch_authentication example_environment login_frame login_received = (Inr (), t)"
    using a(1) c parse_login_frame utf8_encode_a by (simp add: dispatch_authentication_def bindS_def tryS_def)
  then show ?thesis using login_receive c a(2)
    by (simp add: serve_turn_def bindF_def bindS_def tryS_def readS_def)
qed

theorem served_session_is_authenticated_witness:
  "ss_authenticated (snd (serve_turn example_environment login_example))"
proof -
  obtain r t where turn: "serve_turn example_environment login_example = (r, t)" by fastforce
  have "make_registry 9 = Inr fresh_registry"
    by (simp add: make_registry_def fresh_registry_def MIN_USER_ID_def MAX_USER_ID_def)
  then have reg: "registry_ok (ss_registry login_example)"
    by (simp add: login_example_def make_registry_ok register_session_ok)
  have start: "ss_state login_example = AUTHENTICATING" "\<not> ss_authenticated login_example"
    by (simp_all add: login_states)
  have "serve_reaches example_environment login_example t"
    by (rule serve_reaches.serve_turn [OF serve_start _ turn]) (simp add: start)
  from served_session_is_authenticated [OF reg start this] show ?thesis
    using login_example_turn turn by simp
qed

end
