(* ===== verification/SessionReplies.thy ===== *)
theory SessionReplies
  imports SessionSafety
begin

section \<open>What a session answers\<close>

text \<open>
  The outcome of one frame: the refusal of everything but \<open>LOGIN\<close> before login, the answer to a
  frame that cannot be decoded, and the state after a command.
\<close>

subsection \<open>Error replies\<close>

definition error_reply :: "environment \<Rightarrow> opcode_or_raw \<Rightarrow> error_code \<Rightarrow> pystr \<Rightarrow> int \<Rightarrow> byte list \<Rightarrow> bool" where
  "error_reply ev op code message user_id bytes \<longleftrightarrow>
     (\<exists>reply. make_error_frame \<lparr>em_failed_opcode = op, em_error_code = code, em_message = message\<rparr>
        (max_payload ev) user_id = Inr reply \<and> serialize_frame reply (max_payload ev) = Inr bytes)"

lemma send_error_replies:
  assumes "session_send_error ev op code message s = (r, t)"
  shows "\<exists>k. t = s\<lparr>ss_socket := k\<rparr> \<and> inbound k = inbound (ss_socket s) \<and> (r = Inr () \<longrightarrow>
     (\<exists>bytes. outbound k = outbound (ss_socket s) @ bytes \<and> error_reply ev op code message (ss_user_id s) bytes))"
proof (cases "make_error_frame \<lparr>em_failed_opcode = op, em_error_code = code, em_message = message\<rparr>
        (max_payload ev) (ss_user_id s)")
  case (Inl e)
  then show ?thesis using assms
    by (auto simp: session_send_error_def bindS_def readS_def intro: exI [of _ "ss_socket s"])
next
  case (Inr reply)
  then have "session_send ev reply s = (r, t)" using assms by (simp add: session_send_error_def bindS_def readS_def)
  then show ?thesis
    by (rule session_sendE) (use Inr in \<open>auto simp: error_reply_def\<close>)
qed

text \<open>
  C10. Nothing works before \<open>LOGIN\<close>: a well-formed frame with any other opcode changes nothing
  of the session but its socket (no file, no identity, no state), also when the answer cannot
  be sent; if it can, the answer is one \<open>ERROR\<close> frame for that opcode with the code
  \<open>AUTHENTICATION_REQUIRED\<close>, and the session goes on.
\<close>

theorem login_is_required:
  assumes "ss_state s = AUTHENTICATING" and "session_receive ev s = (Inr fr, u)"
    and "fr_opcode fr \<noteq> LOGIN" and "serve_turn ev s = (r, t)"
  shows "\<exists>k. t = s\<lparr>ss_socket := k\<rparr> \<and> (case r of Inl e \<Rightarrow> True | Inr go \<Rightarrow> go \<and>
     (\<exists>bytes. outbound k = outbound (ss_socket s) @ bytes
      \<and> error_reply ev (Known (fr_opcode fr)) AUTHENTICATION_REQUIRED
         (lit ''LOGIN is required before file commands'') (ss_user_id s) bytes))"
proof -
  from assms(2) obtain k where u: "u = s\<lparr>ss_socket := k\<rparr>" "reads_only (ss_socket s) k"
    by (rule session_receiveE) blast
  obtain q where sent: "session_send_error ev (Known (fr_opcode fr)) AUTHENTICATION_REQUIRED
      (lit ''LOGIN is required before file commands'') u = (q, t)"
    and r: "r = (case q of Inl e \<Rightarrow> Inl e | Inr v \<Rightarrow> Inr True)"
    using assms u
    by (auto simp: serve_turn_def bindF_def bindS_def tryS_def readS_def dispatch_authentication_def
        split: prod.splits sum.splits)
  from send_error_replies [OF sent] r u show ?thesis by (auto simp: reads_only_def split: sum.splits)
qed

definition early_example :: session where
  "early_example = login_example\<lparr>ss_socket := \<lparr>inbound = [Segment [0, 0, 0, 4, 0, 16, 0, 0]], outbound = [], send_plan = []\<rparr>\<rparr>"

theorem login_is_required_witness:
  "ss_files (snd (serve_turn example_environment early_example)) = example_files"
proof -
  obtain r t where turn: "serve_turn example_environment early_example = (r, t)" by fastforce
  have "fst (session_receive example_environment early_example)
      = Inr \<lparr>fr_opcode = FILE_LIST, fr_payload = [], fr_user_id = 0\<rparr>"
    by (simp add: early_example_def run_actions run_session login_states run_socket USER_ID_def)
  then obtain u where rc: "session_receive example_environment early_example
      = (Inr \<lparr>fr_opcode = FILE_LIST, fr_payload = [], fr_user_id = 0\<rparr>, u)" by (metis prod.collapse)
  have "ss_state early_example = AUTHENTICATING" "ss_files early_example = example_files"
    by (simp_all add: early_example_def login_states)
  with login_is_required [OF _ rc _ turn] turn show ?thesis by auto
qed

subsection \<open>The state after a command\<close>

definition in_command :: "opcode \<Rightarrow> session \<Rightarrow> bool" where
  "in_command op t \<longleftrightarrow> serving (ss_state t) \<and> \<not> ss_clean_disconnect t
     \<or> op = DISCONNECT \<and> ss_state t = CLOSING \<and> ss_clean_disconnect t"

definition after_command :: "opcode \<Rightarrow> session \<Rightarrow> bool" where
  "after_command op t \<longleftrightarrow> ss_state t = IDLE \<and> \<not> ss_clean_disconnect t
     \<or> op = DISCONNECT \<and> ss_state t = CLOSING \<and> ss_clean_disconnect t"

lemma after_in_command: "after_command op t \<Longrightarrow> in_command op t"
  by (auto simp: after_command_def in_command_def serving_def)

lemma wp_transfer:
  assumes "transfer.keeps a" "\<And>v t. transfer_step s t \<Longrightarrow> Q v t" "\<And>e t. transfer_step s t \<Longrightarrow> E e t"
  shows "wp a Q E s"
  by (rule wpI) (use assms in \<open>auto dest: transfer.keepsD split: sum.split\<close>)

lemma transfer_in_command: "transfer_step s t \<Longrightarrow> in_command op s \<Longrightarrow> in_command op t"
  by (simp add: in_command_def transfer_step_def)

lemma transfer_after_command: "transfer_step s t \<Longrightarrow> after_command op s \<Longrightarrow> after_command op t"
  by (simp add: after_command_def transfer_step_def)

definition logger_step :: "session \<Rightarrow> session \<Rightarrow> bool" where
  "logger_step s t \<longleftrightarrow> (\<exists>lg. t = s\<lparr>ss_logger := lg\<rparr>)"

lemma log_command_step: "log_command ev fr res error s = (r, t) \<Longrightarrow> logger_step s t"
  by (auto simp: log_command_def transfer_log_def on_logger_def bindS_def logger_step_def returnS_def readS_def liftS_def
      intro: exI [of _ "ss_logger s"]
      split: handler_result.splits option.splits prod.splits sum.splits if_splits)

lemma wp_log_command:
  assumes "\<And>lg r. Q r (s\<lparr>ss_logger := lg\<rparr>)" "\<And>lg e. E e (s\<lparr>ss_logger := lg\<rparr>)"
  shows "wp (log_command ev fr res error) Q E s"
  by (rule wpI) (use assms in \<open>auto dest!: log_command_step simp: logger_step_def split: sum.split\<close>)

lemma handler_in_command:
  assumes "in_command (fr_opcode fr) s" "\<not> closing (ss_state s)" "has_handler (fr_opcode fr)"
  shows "wp (run_handler ev fr) (\<lambda>_. in_command (fr_opcode fr)) (\<lambda>_. in_command (fr_opcode fr)) s"
  using assms
  by (auto simp: run_handler_def wp_simps handle_disconnect_def in_command_def closing_def serving_def has_handler_def transfer_step_def
      split: sum.split
      intro!: wp_transfer [OF handle_file_list_keeps] wp_transfer [OF handle_upload_keeps]
        wp_transfer [OF handle_download_keeps] wp_transfer [OF transfer_helpers(5)])

text \<open>One step of a sequence: what the first part establishes, the second may use.\<close>

lemma wp_seq: "wp m P E s \<Longrightarrow> (\<And>v t. P v t \<Longrightarrow> wp (f v) Q E t) \<Longrightarrow> wp (bindS m f) Q E s"
  unfolding wp_bind by (erule wp_mono) auto

lemma begin_in_command:
  assumes "ss_state s = IDLE" "\<not> ss_clean_disconnect s"
  shows "wp (begin_request op) (\<lambda>_ t. in_command op t \<and> \<not> closing (ss_state t)) (\<lambda>_. in_command op) s"
  using assms by (simp add: begin_request_def wp_simps set_state_def in_command_def closing_def serving_def)

lemma finish_after_command:
  assumes "in_command op s"
  shows "wp (bindS (readS (\<lambda>s. closing (ss_state s))) (\<lambda>ending. if ending then returnS () else finish_request))
    (\<lambda>_. after_command op) (\<lambda>_. in_command op) s"
  using assms
  by (auto simp: wp_simps finish_request_def set_state_def in_command_def after_command_def closing_def serving_def)

lemma log_after_command:
  assumes "after_command op s"
  shows "wp (log_command ev fr res error) (\<lambda>_. after_command op) (\<lambda>_. in_command op) s"
  by (rule wp_log_command) (use assms in \<open>auto simp: after_command_def in_command_def serving_def\<close>)

lemma request_in_command:
  assumes "ss_state s = IDLE" "\<not> ss_clean_disconnect s"
  shows "wp (dispatch_request ev fr) (\<lambda>_. after_command (fr_opcode fr)) (\<lambda>_. in_command (fr_opcode fr)) s"
    (is "wp _ ?Q ?E s")
proof -
  have s: "?E e s" for e :: exc using assms by (simp add: in_command_def serving_def)
  have step: "wp (bindS (readS (filename_guard ev fr)) (\<lambda>guard. bindS (liftS guard) (\<lambda>_.
      bindS (run_handler ev fr) (\<lambda>result. bindS (readS (\<lambda>s. closing (ss_state s))) (\<lambda>ending.
      bindS (if ending then returnS () else finish_request) (\<lambda>_. log_command ev fr result None)))))) ?Q ?E t"
    if t: "in_command (fr_opcode fr) t" "\<not> closing (ss_state t)" and h: "has_handler (fr_opcode fr)" for t
    unfolding bindS_assoc [symmetric, of "readS (\<lambda>s. closing (ss_state s))"]
    by (rule wp_seq [where P = "\<lambda>_ u. u = t"], simp add: wp_simps)
      (rule wp_seq [where P = "\<lambda>_ u. u = t"], use t in \<open>simp add: wp_simps split: sum.split\<close>,
        clarify, rule wp_seq [OF handler_in_command [OF t h]], rule wp_seq [OF finish_after_command], assumption,
        erule log_after_command)
  show ?thesis
    unfolding dispatch_request_def
    by (rule wp_seq [where P = "\<lambda>_ t. t = s"], use s in \<open>simp add: wp_simps split: sum.split\<close>)
      (rule wp_seq [where P = "\<lambda>_ t. t = s \<and> has_handler (fr_opcode fr)"], use s in \<open>simp add: wp_simps guardE_def\<close>,
        clarify, rule wp_seq [OF begin_in_command [OF assms]], blast intro: step)
qed

lemma failure_after_command:
  assumes "in_command (fr_opcode fr) s"
  shows "wp (dispatch_failure ev fr error) (\<lambda>_. after_command (fr_opcode fr)) (\<lambda>_ _. True) s"
proof (cases "protocol_parts error")
  case None
  then show ?thesis by (auto simp: dispatch_failure_def wp_simps intro!: wp_log_command)
next
  case (Some cm)
  obtain code message where "cm = (code, message)" by (cases cm)
  moreover have "wp (bindS (readS (\<lambda>s. closing (ss_state s))) (\<lambda>ending.
      bindS (if ending then returnS () else set_state IDLE) (\<lambda>_.
      bindS (session_send_error ev (Known (fr_opcode fr)) code message) (\<lambda>_.
      log_command ev fr NoResult (Some error))))) (\<lambda>_. after_command (fr_opcode fr)) (\<lambda>_ _. True) s"
    unfolding bindS_assoc [symmetric, of "readS (\<lambda>s. closing (ss_state s))"]
  proof (rule wp_seq)
    show "wp (bindS (readS (\<lambda>s. closing (ss_state s))) (\<lambda>ending. if ending then returnS () else set_state IDLE))
        (\<lambda>_. after_command (fr_opcode fr)) (\<lambda>_ _. True) s"
      using assms by (auto simp: wp_simps set_state_def in_command_def after_command_def closing_def serving_def)
  next
    fix v t
    assume t: "after_command (fr_opcode fr) t"
    have "wp (session_send_error ev (Known (fr_opcode fr)) code message) (\<lambda>_. after_command (fr_opcode fr)) (\<lambda>_ _. True) t"
      by (rule wpI) (use t in \<open>auto dest!: send_error_ok intro: transfer_after_command split: sum.split\<close>)
    then show "wp (bindS (session_send_error ev (Known (fr_opcode fr)) code message)
        (\<lambda>_. log_command ev fr NoResult (Some error))) (\<lambda>_. after_command (fr_opcode fr)) (\<lambda>_ _. True) t"
      by (rule wp_seq) (rule wp_mono [OF log_after_command], auto)
  qed
  ultimately show ?thesis using Some by (simp add: dispatch_failure_def)
qed

text \<open>
  C20. Every command ends where commands may start: when an idle session that has not been told to
  disconnect has dealt with a command frame without an exception (whatever the handler's outcome and
  the errors it had to report), it is \<open>IDLE\<close> again; only an acknowledged \<open>DISCONNECT\<close> leaves it
  \<open>CLOSING\<close>, with the disconnect marked clean.  This includes a transfer that meets a frame with a
  wrong \<open>USER_ID\<close>: the error is reported and the session stays open and \<open>IDLE\<close>, although sections
  6.3, 18 and 19 of \<open>docs/PHASE2_PROTOCOL.md\<close> close it.
\<close>

theorem command_returns_to_idle:
  assumes "ss_state s = IDLE" and "\<not> ss_clean_disconnect s" and "dispatch ev fr s = (Inr (), t)"
  shows "ss_state t = IDLE \<and> \<not> ss_clean_disconnect t
    \<or> fr_opcode fr = DISCONNECT \<and> ss_state t = CLOSING \<and> ss_clean_disconnect t"
proof -
  have "wp (tryS (dispatch_request ev fr) (dispatch_failure ev fr))
      (\<lambda>_. after_command (fr_opcode fr)) (\<lambda>_ _. True) s"
    unfolding wp_try
    by (rule wp_mono [OF request_in_command [OF assms(1,2)]]) (auto intro: failure_after_command)
  with assms(1,3) show ?thesis
    by (auto simp: dispatch_def bindS_def readS_def after_command_def dest!: wpD)
qed

definition disconnect_frame :: frame where
  "disconnect_frame = \<lparr>fr_opcode = DISCONNECT, fr_payload = [], fr_user_id = 1\<rparr>"

lemma parse_disconnect_frame: "parse_disconnect disconnect_frame 1024 = Inr ()"
  by code_simp

lemma disconnect_ack:
  "fst (send_ack example_environment DISCONNECT 0 (example_session IDLE [])) = Inr ()"
  "ss_logger (snd (send_ack example_environment DISCONNECT 0 (example_session IDLE []))) = None"
  by (simp_all add: run_frames run_actions run_session login_states)

lemma disconnect_example:
  "fst (dispatch example_environment disconnect_frame (example_session IDLE [])) = Inr ()"
proof -
  have op: "fr_opcode disconnect_frame = DISCONNECT" by (simp add: disconnect_frame_def)
  then have valid: "validate_message disconnect_frame 1024 512 = Inr ()"
    using parse_disconnect_frame by (simp add: validate_message_def decode_message_def Let_def)
  obtain t where ack: "send_ack example_environment DISCONNECT 0 (example_session IDLE []) = (Inr (), t)"
    "ss_logger t = None" using disconnect_ack by (metis prod.collapse)
  have "fst (dispatch_request example_environment disconnect_frame (example_session IDLE [])) = Inr ()"
    using valid parse_disconnect_frame ack
    by (simp add: op dispatch_request_def has_handler_def begin_request_def filename_guard_def run_handler_def
        handle_disconnect_def log_command_def closing_def bindS_def readS_def updateS_def)
  then show ?thesis by (auto simp: dispatch_def bindS_def tryS_def readS_def split: prod.splits sum.splits)
qed

theorem command_returns_to_idle_witness:
  "ss_state (snd (dispatch example_environment disconnect_frame (example_session IDLE []))) \<in> {IDLE, CLOSING}"
proof -
  obtain t where run: "dispatch example_environment disconnect_frame (example_session IDLE []) = (Inr (), t)"
    using disconnect_example by (metis prod.collapse)
  from command_returns_to_idle [OF _ _ run] show ?thesis by (auto simp: run)
qed

subsection \<open>Frames that cannot be decoded\<close>

text \<open>The errors of \<open>receive\<close> after which the session may go on: they name the raw opcode.\<close>

definition names_frame :: "exc \<Rightarrow> bool" where
  "names_frame e \<longleftrightarrow> (case answerable e of None \<Rightarrow> True
     | Some (code, message, raw) \<Rightarrow> code = UNSUPPORTED_OPCODE \<and> opcode_of raw = None \<or> code = INVALID_USER_ID)"

lemma names_frame_basic:
  "names_frame (sock_fault_exc f)" "names_frame (ValueError t)" "names_frame (protocol_error c t)"
  "names_frame (truncated_error got wanted)" "opcode_of raw = None \<Longrightarrow> names_frame (ProtocolError UNSUPPORTED_OPCODE t (Some raw) True)"
  by (cases f) (simp_all add: names_frame_def truncated_error_def)

lemma recv_loop_names: "recv_loop n got k = (Inl e, k') \<Longrightarrow> names_frame e"
proof (induction n got k rule: recv_loop.induct)
  case (1 n got k)
  show ?case
  proof (cases "length got < n")
    case False
    then show ?thesis using "1.prems" by (simp add: recv_loop.simps [of n got])
  next
    case True
    obtain q k1 where rv: "sock_recv (n - length got) k = (q, k1)" by fastforce
    show ?thesis
    proof (cases q)
      case (Inl x)
      moreover have "\<exists>f. x = sock_fault_exc f"
        using rv Inl by (auto simp: sock_recv_def split: list.splits arrival.splits)
      ultimately show ?thesis using "1.prems" True rv by (auto simp: recv_loop.simps [of n got] names_frame_basic)
    next
      case (Inr chunk)
      show ?thesis
      proof (cases "chunk = []")
        case True
        then show ?thesis
          using "1.prems" \<open>length got < n\<close> rv Inr
          by (auto simp: recv_loop.simps [of n got] names_frame_basic split: if_splits)
      next
        case False
        then have "recv_loop n (got @ chunk) k1 = (Inl e, k')"
          using "1.prems" True rv Inr by (simp add: recv_loop.simps [of n got])
        from "1.IH" [OF True rv [symmetric] Inr False this] show ?thesis .
      qed
    qed
  qed
qed

lemma recv_exact_names: "wp (recv_exact n) (\<lambda>_ _. True) (\<lambda>e _. names_frame e) k"
  by (rule wpI) (auto simp: recv_exact_def names_frame_basic dest: recv_loop_names split: sum.split if_splits)

lemma make_frame_names: "make_frame_object op payload user_id mx = Inl e \<Longrightarrow> names_frame e"
  by (auto simp: make_frame_object_def validate_payload_size_def result_simps guardE_def names_frame_basic split: if_splits)

lemma receive_frame_names: "wp (receive_frame mx) (\<lambda>_ _. True) (\<lambda>e _. names_frame e) k"
  unfolding receive_frame_def receive_frame_with_def Let_def
  by (auto simp: wp_simps names_frame_basic result_simps intro!: wp_mono [OF recv_exact_names]
      split: option.split sum.split) (erule make_frame_names)

lemma session_receive_names:
  assumes "session_receive ev s = (Inl e, u)"
  shows "names_frame e"
proof -
  obtain q k where rf: "receive_frame (max_payload ev) (ss_socket s) = (q, k)" by fastforce
  have named: "names_frame x" if "q = Inl x" for x using wpD [OF receive_frame_names rf] that by simp
  then have failed: "names_frame (receive_failure x (ss_state s))" if "q = Inl x" for x
    using that by (cases x) (auto simp: receive_failure_def names_frame_def)
  show ?thesis
    using assms rf failed
    by (cases q) (auto simp: session_receive_def bindS_def readS_def tryS_def on_socket_apply Let_def names_frame_def
        split: option.splits if_splits)
qed

text \<open>
  C35. What becomes of a frame that \<open>receive\<close> refuses while the session waits for a command.  An
  error that names the raw opcode and leaves the stream at a frame boundary is one of two: the
  opcode is unknown, or the \<open>USER_ID\<close> is wrong.  The session then changes nothing but its socket,
  sends one \<open>ERROR\<close> frame with that opcode, code and message, and goes on; after a wrong \<open>USER_ID\<close>
  it closes instead (when the answer itself cannot be sent, that exception leaves the dispatcher).
  A client that has left closes the session.  Every other error (an oversized or truncated frame, a
  \<open>LENGTH\<close> below the header, a socket error) leaves the dispatcher as it is: nothing is sent and
  nothing but the socket has changed.
\<close>

theorem undecodable_frame_answered:
  assumes "session_receive ev s = (Inl error, u)" and "serve_turn ev s = (r, t)"
  shows "case answerable error of
      Some (code, message, raw) \<Rightarrow>
        (code = UNSUPPORTED_OPCODE \<and> opcode_of raw = None \<or> code = INVALID_USER_ID)
        \<and> (\<exists>k. (case r of
            Inl e \<Rightarrow> t = s\<lparr>ss_socket := k\<rparr>
          | Inr go \<Rightarrow> (go \<longleftrightarrow> code \<noteq> INVALID_USER_ID)
              \<and> t = s\<lparr>ss_socket := k, ss_state := (if go then ss_state s else CLOSING)\<rparr>
              \<and> (\<exists>bytes. outbound k = outbound (ss_socket s) @ bytes
                 \<and> error_reply ev (Raw raw) code message (ss_user_id s) bytes)))
    | None \<Rightarrow> outbound (ss_socket t) = outbound (ss_socket s) \<and> (\<exists>k. u = s\<lparr>ss_socket := k\<rparr>)
        \<and> (if is_peer_disconnected error then r = Inr False \<and> t = u\<lparr>ss_state := CLOSING\<rparr> else r = Inl error \<and> t = u)"
proof -
  from assms(1) obtain k where u: "u = s\<lparr>ss_socket := k\<rparr>" "reads_only (ss_socket s) k"
    by (rule session_receiveE) blast
  have turn: "serve_turn ev s = serve_failure ev error u"
    using assms(1)
    by (cases "serve_failure ev error u"; cases "fst (serve_failure ev error u)")
      (auto simp: serve_turn_def bindF_def bindS_def tryS_def)
  show ?thesis
  proof (cases "answerable error")
    case None
    then show ?thesis
      using assms(2) turn u by (auto simp: serve_failure_def bindS_def set_state_def updateS_def reads_only_def)
  next
    case (Some a)
    obtain code message raw where a: "a = (code, message, raw)" by (cases a)
    then have names: "code = UNSUPPORTED_OPCODE \<and> opcode_of raw = None \<or> code = INVALID_USER_ID"
      using session_receive_names [OF assms(1)] Some by (simp add: names_frame_def)
    have no_peer: "\<not> is_peer_disconnected error" using Some by (cases error) simp_all
    obtain q v where sent: "session_send_error ev (Raw raw) code message u = (q, v)" by fastforce
    from send_error_replies [OF sent] obtain k' where v: "v = u\<lparr>ss_socket := k'\<rparr>"
      "q = Inr () \<Longrightarrow> \<exists>bytes. outbound k' = outbound (ss_socket u) @ bytes
         \<and> error_reply ev (Raw raw) code message (ss_user_id u) bytes" by blast
    have "r = (case q of Inl e \<Rightarrow> Inl e | Inr _ \<Rightarrow> Inr (code \<noteq> INVALID_USER_ID))
        \<and> t = (if q = Inr () \<and> code = INVALID_USER_ID then v\<lparr>ss_state := CLOSING\<rparr> else v)"
      using assms(2) sent Some a no_peer
      by (cases q) (auto simp: turn serve_failure_def bindS_def set_state_def updateS_def)
    with names v u Some a show ?thesis by (cases q) (auto simp: reads_only_def intro!: exI [of _ k'])
  qed
qed

definition unknown_example :: session where
  "unknown_example = example_session IDLE [Segment [0, 0, 0, 4, 0, 99, 0, 1]]"

theorem undecodable_frame_answered_witness:
  "ss_files (snd (serve_turn example_environment unknown_example)) = example_files"
proof -
  obtain r t where turn: "serve_turn example_environment unknown_example = (r, t)" by fastforce
  have "\<exists>m. fst (session_receive example_environment unknown_example)
      = Inl (ProtocolError UNSUPPORTED_OPCODE m (Some 99) True)"
    by (simp add: unknown_example_def run_actions run_session login_states run_socket receive_failure_def)
  then obtain m u where "session_receive example_environment unknown_example
      = (Inl (ProtocolError UNSUPPORTED_OPCODE m (Some 99) True), u)" by (metis prod.collapse)
  from undecodable_frame_answered [OF this turn] have "ss_files t = ss_files unknown_example"
    by (cases r) (auto split: if_splits)
  with turn show ?thesis by (simp add: unknown_example_def)
qed

end
