(* ===== verification/DownloadFailure.thy ===== *)
theory DownloadFailure
  imports DownloadSafety SessionReplies
begin

section \<open>A local error during a download\<close>

text \<open>
  What the dispatcher does when a call on the file being sent fails: the schedule of the file
  system lets the first call, which opens the file, run and has the next fault at any later one.
\<close>

subsection \<open>The fault has not been met, or it has just been met\<close>

definition failing :: "fault \<Rightarrow> fault option list \<Rightarrow> session \<Rightarrow> bool" where
  "failing f later s \<longleftrightarrow> (\<exists>n. fs_faults (ss_files s) = replicate n None @ Some f # later)"

text \<open>The state is the same, nothing has been logged, and no \<open>ERROR\<close> frame is among the frames sent.\<close>

definition unanswered :: "session \<Rightarrow> session \<Rightarrow> bool" where
  "unanswered s t \<longleftrightarrow> ss_state t = ss_state s \<and> ss_logger t = ss_logger s
     \<and> (\<exists>frames. outbound (ss_socket t) = outbound (ss_socket s) @ concat (map frame_bytes frames)
     \<and> (\<forall>fr \<in> set frames. fr_opcode fr \<noteq> ERROR))"

definition met :: "fault option list \<Rightarrow> session \<Rightarrow> session \<Rightarrow> bool" where
  "met later s t \<longleftrightarrow> fs_faults (ss_files t) = later \<and> unanswered s t"

interpretation faultless: step_relation "\<lambda>s t. fs_faults (ss_files t) = fs_faults (ss_files s)"
  by unfold_locales simp_all

interpretation answering: step_relation unanswered
proof
  show "unanswered s s" for s by (auto simp: unanswered_def intro: exI [of _ "[]"])
  show "unanswered s u" if "unanswered s t" "unanswered t u" for s t u
    using that by (auto simp: unanswered_def) (metis Un_iff append.assoc concat_append map_append set_append)
qed

lemma faultless_socket:
  "faultless.keeps (session_send ev fr)" "faultless.keeps (session_receive ev)" "faultless.keeps (consume_bandwidth n)"
  "faultless.keeps (log_command ev fr res error)" "faultless.keeps (updateS (\<lambda>s. s\<lparr>ss_state := st\<rparr>))"
proof -
  show "faultless.keeps (session_send ev fr)" by (rule faultless.keepsI, erule session_sendE) simp
  show "faultless.keeps (session_receive ev)" by (rule faultless.keepsI, erule session_receiveE) simp
  show "faultless.keeps (consume_bandwidth n)"
    by (rule faultless.keepsI) (auto simp: consume_bandwidth_def split: option.splits sum.splits prod.splits)
  show "faultless.keeps (log_command ev fr res error)"
    by (rule faultless.keepsI) (auto simp: logger_step_def dest!: log_command_step)
  show "faultless.keeps (updateS (\<lambda>s. s\<lparr>ss_state := st\<rparr>))"
    by (rule faultless.keepsI) (auto simp: updateS_def)
qed

lemma faultless_replies:
  "faultless.keeps (dl_send_error ev op code message)" "faultless.keeps (dl_fail ev name n code message op)"
  "faultless.keeps (session_send_error ev failed code message)" "faultless.keeps (dispatch_failure ev fr error)"
  "faultless.keeps (begin_request op)" "faultless.keeps finish_request" "faultless.keeps (session_storage_directory ev)"
  unfolding dl_fail_def dl_send_error_def session_send_error_def dispatch_failure_def begin_request_def finish_request_def
    set_state_def session_storage_directory_def
  by (intro faultless.keep_intros faultless_socket)+

lemmas faultless_intros = faultless.keep_intros faultless_socket faultless_replies

lemma faultless_finish: "faultless.keeps (dl_finish ev request total_size content n)"
  unfolding dl_finish_def Let_def by (intro faultless_intros)

lemma wp_faultless:
  assumes "faultless.keeps a" "failing f later s"
  shows "wp a (\<lambda>_. failing f later) (\<lambda>_. failing f later) s"
  by (rule wpI) (use assms in \<open>auto simp: failing_def dest: faultless.keepsD split: sum.split\<close>)

subsection \<open>The transfer\<close>

text \<open>
  \<open>steady\<close>: as long as the fault has not been met the action goes on unanswered; it may raise
  before the fault, or because of it.
\<close>

definition steady :: "fault \<Rightarrow> fault option list \<Rightarrow> session \<Rightarrow> 'a session_action \<Rightarrow> bool" where
  "steady f later s0 a \<longleftrightarrow> (\<forall>s. failing f later s \<and> unanswered s0 s \<longrightarrow>
     wp a (\<lambda>_ t. failing f later t \<and> unanswered s0 t) (\<lambda>e t. failing f later t \<or> e = fault_exc f \<and> met later s0 t) s)"

lemma steadyD: "steady f later s0 a \<Longrightarrow> failing f later s \<Longrightarrow> unanswered s0 s \<Longrightarrow>
    wp a (\<lambda>_ t. failing f later t \<and> unanswered s0 t) (\<lambda>e t. failing f later t \<or> e = fault_exc f \<and> met later s0 t) s"
  by (simp add: steady_def)

lemma steady_bind: "steady f later s0 a \<Longrightarrow> (\<And>v. steady f later s0 (g v)) \<Longrightarrow> steady f later s0 (bindS a g)"
  unfolding steady_def wp_bind by (auto intro: wp_mono)

lemma steady_basic: "steady f later s0 (returnS v)" "steady f later s0 (liftS x)" "steady f later s0 (readS g)"
  by (auto simp: steady_def wp_simps split: sum.split)

lemma steady_socket:
  assumes "faultless.keeps a" "\<And>s v t. a s = (Inr v, t) \<Longrightarrow> unanswered s t"
  shows "steady f later s0 a"
  unfolding steady_def
proof (intro allI impI wpI)
  fix s r t
  assume s: "failing f later s \<and> unanswered s0 s" and run: "a s = (r, t)"
  have "failing f later t" using s faultless.keepsD [OF assms(1) run] by (simp add: failing_def)
  moreover have "unanswered s0 t" if "r = Inr v" for v using s assms(2) [of s v t] run that answering.R_trans by blast
  ultimately show "case r of Inl e \<Rightarrow> failing f later t \<or> e = fault_exc f \<and> met later s0 t
      | Inr v \<Rightarrow> failing f later t \<and> unanswered s0 t"
    by (simp split: sum.split)
qed

lemma steady_receive: "steady f later s0 (session_receive ev)"
  by (rule steady_socket [OF faultless_socket(2)])
    (auto simp: unanswered_def reads_only_def intro: exI [of _ "[]"] elim!: session_receiveE)

lemma steady_bandwidth: "steady f later s0 (consume_bandwidth n)"
  by (rule steady_socket [OF faultless_socket(3)])
    (auto simp: consume_bandwidth_def unanswered_def intro: exI [of _ "[]"] split: option.splits sum.splits prod.splits)

lemma steady_send: "fr_opcode fr \<noteq> ERROR \<Longrightarrow> steady f later s0 (session_send ev fr)"
  by (rule steady_socket [OF faultless_socket(1)])
    (auto simp: unanswered_def intro!: exI [of _ "[fr]"] dest: serialize_is_frame_bytes elim!: session_sendE)

lemma steady_reply:
  assumes "\<And>fr. reply = Inr fr \<Longrightarrow> fr_opcode fr \<noteq> ERROR"
  shows "steady f later s0 (bindS (liftS reply) (session_send ev))"
proof (cases reply)
  case (Inl e)
  then show ?thesis by (simp add: steady_def wp_simps)
next
  case (Inr fr)
  then show ?thesis using steady_send [OF assms] by (simp add: steady_def wp_simps)
qed

lemma steady_files:
  assumes "\<And>fs. fs_faults (snd (act fs)) = fs_faults fs"
  shows "steady f later s0 (on_files (os_call act))"
  unfolding steady_def
proof (intro allI impI wpI)
  fix s r t
  assume s: "failing f later s \<and> unanswered s0 s" and run: "on_files (os_call act) s = (r, t)"
  then obtain n where n: "fs_faults (ss_files s) = replicate n None @ Some f # later" by (auto simp: failing_def)
  obtain fs where t: "t = s\<lparr>ss_files := fs\<rparr>" and call: "os_call act (ss_files s) = (r, fs)"
    using run by (auto simp: on_files_apply split: prod.splits)
  have "unanswered s0 t" using s by (simp add: t unanswered_def)
  moreover have "r = Inl (fault_exc f) \<and> fs_faults fs = later \<or> failing f later t"
  proof (cases n)
    case 0
    then show ?thesis using call n by (auto simp: os_call_def)
  next
    case (Suc m)
    then have "act ((ss_files s)\<lparr>fs_faults := replicate m None @ Some f # later\<rparr>) = (r, fs)"
      using call n by (simp add: os_call_def)
    then have "fs_faults fs = replicate m None @ Some f # later" using assms by (metis file_system.select_convs(2) file_system.surjective file_system.update_convs(2) snd_conv)
    then show ?thesis by (auto simp: failing_def t)
  qed
  ultimately show "case r of Inl e \<Rightarrow> failing f later t \<or> e = fault_exc f \<and> met later s0 t
      | Inr v \<Rightarrow> failing f later t \<and> unanswered s0 t"
    by (cases r) (auto simp: met_def t)
qed

lemma steady_calls: "steady f later s0 (on_files (fstat_size q))" "steady f later s0 (on_files (read_handle q pos n))"
  unfolding fstat_size_def read_handle_def by (rule steady_files, simp)+

lemma steady_chunk: "steady f later s0 (dl_send_chunk ev off data)"
  unfolding dl_send_chunk_def
  by (intro steady_bind steady_bandwidth steady_basic steady_reply) (auto dest: make_chunk_frame simp: chunk_frame_def)

lemma if_cases: "P \<Longrightarrow> Q \<Longrightarrow> if c then Q else P"
  by simp

text \<open>A loop: the value of its first step decides whether there is another turn.\<close>

lemma steady_step:
  assumes "steady f later s0 a" "failing f later s" "unanswered s0 s"
    and "\<And>v t. a s = (Inr v, t) \<Longrightarrow> failing f later t \<Longrightarrow> unanswered s0 t \<Longrightarrow> wp (g v) Q E t"
    and "\<And>e t. failing f later t \<or> e = fault_exc f \<and> met later s0 t \<Longrightarrow> E e t"
  shows "wp (bindS a g) Q E s"
proof -
  obtain r t where run: "a s = (r, t)" by fastforce
  from wpD [OF steadyD [OF assms(1-3)] run] show ?thesis
    using assms(4,5) run by (cases r) (auto simp: wp_def bindS_def)
qed

lemma read_all_turn: "on_files (read_all_loop source got) s
  = bindS (on_files (read_handle source (length got) READ_SIZE)) (\<lambda>chunk.
      if chunk = [] then returnS got else on_files (read_all_loop source (got @ chunk))) s"
proof (cases "read_handle source (length got) READ_SIZE (ss_files s)")
  case (Pair r fs1)
  show ?thesis
  proof (cases r)
    case (Inl e)
    show ?thesis by (simp add: Pair Inl on_files_apply read_all_loop.simps [of source got "ss_files s"] bindS_apply)
  next
    case (Inr chunk)
    have run: "on_files (read_handle source (length got) READ_SIZE) s = (Inr chunk, s\<lparr>ss_files := fs1\<rparr>)"
      by (simp add: Pair Inr on_files_apply)
    show ?thesis
    proof (cases chunk)
      case Nil
      show ?thesis unfolding bindS_apply run by (simp add: Pair Inr Nil on_files_apply read_all_loop.simps [of source got "ss_files s"])
    next
      case (Cons b bs)
      show ?thesis unfolding bindS_apply run by (simp add: Pair Inr Cons on_files_apply read_all_loop.simps [of source got "ss_files s"] split del: prod.split sum.split)
    qed
  qed
qed
lemma steady_read_all: "steady f later s0 (on_files (read_all_loop source got))"
proof -
  let ?Q = "\<lambda>_ t. failing f later t \<and> unanswered s0 t"
  let ?E = "\<lambda>e t. failing f later t \<or> e = fault_exc f \<and> met later s0 t"
  have "failing f later s \<Longrightarrow> unanswered s0 s \<Longrightarrow> wp (on_files (read_all_loop source got)) ?Q ?E s"
    if "fs = ss_files s" for fs s
    using that
  proof (induction source got fs arbitrary: s rule: read_all_loop.induct)
    case (1 source got fs)
    let ?turn = "\<lambda>chunk. if chunk = [] then returnS got else on_files (read_all_loop source (got @ chunk))"
    have "wp (bindS (on_files (read_handle source (length got) READ_SIZE)) ?turn) ?Q ?E s"
    proof (rule steady_step [OF steady_calls(2) "1.prems"(1,2)])
      fix chunk t
      assume rd: "on_files (read_handle source (length got) READ_SIZE) s = (Inr chunk, t)" and t: "failing f later t" "unanswered s0 t"
      show "wp (?turn chunk) ?Q ?E t"
      proof (cases chunk)
        case Nil
        then show ?thesis using t by (simp add: wp_simps)
      next
        case (Cons b bs)
        have "(Inr chunk, ss_files t) = read_handle source (length got) READ_SIZE fs"
          using rd "1.prems"(3) by (auto simp: on_files_apply split: prod.splits)
        from "1.IH" [OF this refl Cons t refl] show ?thesis by (simp only: Cons list.distinct if_False)
      qed
    qed
    then show ?case unfolding wp_def read_all_turn [of source got s] .
  qed
  then show ?thesis by (simp add: steady_def)
qed

lemma steady_send_loop: "steady f later s0 (send_loop_from ev source off)"
proof -
  have "failing f later s \<Longrightarrow> unanswered s0 s \<Longrightarrow> wp (send_loop_from ev source off)
      (\<lambda>_ t. failing f later t \<and> unanswered s0 t) (\<lambda>e t. failing f later t \<or> e = fault_exc f \<and> met later s0 t) s" for s
  proof (induction ev source off s rule: send_loop_from.induct)
    case (1 ev source off s)
    let ?read = "on_files (read_handle source (nat off) (nat (chunk_size ev)))"
    let ?turn = "\<lambda>data. if data = [] then returnS off
          else bindS (dl_send_chunk ev off data) (\<lambda>_. send_loop_from ev source (off + int (length data)))"
    have loop: "send_loop_from ev source off s = bindS ?read ?turn s"
      by (auto simp: send_loop_from.simps [of ev source off s] bindS_def split: prod.split sum.split list.split)
    have "wp (bindS ?read ?turn)
        (\<lambda>_ t. failing f later t \<and> unanswered s0 t) (\<lambda>e t. failing f later t \<or> e = fault_exc f \<and> met later s0 t) s"
    proof (rule steady_step [OF steady_calls(2) "1.prems"])
      fix data t
      assume rd: "?read s = (Inr data, t)" and t: "failing f later t" "unanswered s0 t"
      show "wp (?turn data)
        (\<lambda>_ t. failing f later t \<and> unanswered s0 t) (\<lambda>e t. failing f later t \<or> e = fault_exc f \<and> met later s0 t) t"
      proof (cases data)
        case Nil
        then show ?thesis using t by (simp add: wp_simps)
      next
        case (Cons b bs)
        have "wp (bindS (dl_send_chunk ev off (b # bs)) (\<lambda>_. send_loop_from ev source (off + int (length (b # bs)))))
            (\<lambda>_ t. failing f later t \<and> unanswered s0 t) (\<lambda>e t. failing f later t \<or> e = fault_exc f \<and> met later s0 t) t"
          by (rule steady_step [OF steady_chunk t])
            (use "1.IH" [OF rd [symmetric] refl Cons] in \<open>auto simp: Cons\<close>)
        then show ?thesis by (simp add: Cons)
      qed
    qed
    then show ?case by (simp add: wp_def loop)
  qed
  then show ?thesis by (simp add: steady_def)
qed

text \<open>Parts that may also end the transfer: when they do, the fault has not been met.\<close>

lemma wp_bindF: "wp (bindF a g) Q E s
    = wp a (\<lambda>x t. case x of Return res \<Rightarrow> Q (Return res) t | Proceed v \<Rightarrow> wp (g v) Q E t) E s"
proof -
  have "wp (case x of Return res \<Rightarrow> returnS (Return res) | Proceed v \<Rightarrow> g v) Q E
      = (\<lambda>t. case x of Return res \<Rightarrow> Q (Return res) t | Proceed v \<Rightarrow> wp (g v) Q E t)" for x
    by (cases x) (auto simp: wp_return)
  then show ?thesis by (simp add: bindF_def wp_bind)
qed

lemma wp_return_all: "wp (returnS v) Q E = Q v"
  by (rule ext) (rule wp_return)

definition goes_on :: "fault \<Rightarrow> fault option list \<Rightarrow> session \<Rightarrow> ('r, 'a) flow \<Rightarrow> session \<Rightarrow> bool" where
  "goes_on f later s0 x t \<longleftrightarrow> failing f later t \<and> (\<forall>v. x = Proceed v \<longrightarrow> unanswered s0 t)"

lemma goes_on_simps [simp]:
  "goes_on f later s0 (Return res) t \<longleftrightarrow> failing f later t"
  "goes_on f later s0 (Proceed v) t \<longleftrightarrow> failing f later t \<and> unanswered s0 t"
  by (simp_all add: goes_on_def)

lemma wp_dl_fail_ends:
  assumes "failing f later t"
  shows "wp (dl_fail ev name n code message op) (\<lambda>x t. (\<exists>res. x = Return res) \<and> failing f later t) (\<lambda>_. failing f later) t"
proof (rule wpI)
  fix r u
  assume run: "dl_fail ev name n code message op t = (r, u)"
  have "\<exists>res. x = Return res" if "r = Inr x" for x
    using run that by (cases x) (auto simp: dl_fail_not_Proceed)
  then show "case r of Inl e \<Rightarrow> failing f later u | Inr x \<Rightarrow> (\<exists>res. x = Return res) \<and> failing f later u"
    using wpD [OF wp_faultless [OF faultless_replies(2) assms] run] by (auto split: sum.splits)
qed

lemma wp_dl_fail:
  assumes "failing f later t"
  shows "wp (dl_fail ev name n code message op) (goes_on f later s0) (\<lambda>_. failing f later) t"
  by (rule wp_mono [OF wp_dl_fail_ends [OF assms]]) auto

definition steady_flow :: "fault \<Rightarrow> fault option list \<Rightarrow> session \<Rightarrow> ('r, 'a) flow session_action \<Rightarrow> bool" where
  "steady_flow f later s0 a \<longleftrightarrow> (\<forall>s. failing f later s \<and> unanswered s0 s \<longrightarrow>
     wp a (goes_on f later s0) (\<lambda>e t. failing f later t \<or> e = fault_exc f \<and> met later s0 t) s)"

lemma steady_offer: "steady_flow f later s0 (dl_offer ev request total_size)"
proof -
  have "wp (dl_offer ev request total_size) (goes_on f later s0)
       (\<lambda>e t. failing f later t \<or> e = fault_exc f \<and> met later s0 t) s"
    if s: "failing f later s" "unanswered s0 s" for s
  proof -
    let ?offer = "bindS (liftS (make_file_info_frame \<lparr>fi_filename = fd_filename request, fi_total_size = total_size,
        fi_start_offset = fd_requested_offset request\<rparr> (max_payload ev) (ss_user_id s))) (session_send ev)"
    have offer: "steady f later s0 ?offer"
      by (rule steady_reply) (auto dest: info.make_wf)
    let ?rest = "\<lambda>response. bindS (liftS (validate_ack response FILE_INFO (fd_requested_offset request) (max_payload ev))) (\<lambda>response_error.
      case response_error of
        None \<Rightarrow> returnS (Proceed ())
      | Some (code, message) \<Rightarrow>
          bindS (if fr_opcode response \<noteq> ERROR then dl_send_error ev FILE_INFO code message else returnS ()) (\<lambda>_.
          returnS (Return (dl_result (fd_filename request) 0 False None (Some code)))))"
    have rest: "wp (?rest response) (goes_on f later s0)
       (\<lambda>e t. failing f later t \<or> e = fault_exc f \<and> met later s0 t) t"
      if "failing f later t" "unanswered s0 t" for response t
      using that by (auto simp: wp_simps split: sum.split option.split
          intro!: wp_mono [OF wp_faultless [OF faultless_replies(1)]])
    have "wp (bindS ?offer (\<lambda>_. bindS (session_receive ev) ?rest))
       (goes_on f later s0)
       (\<lambda>e t. failing f later t \<or> e = fault_exc f \<and> met later s0 t) s"
    proof (rule steady_step [OF offer s])
      fix v t
      assume t: "failing f later t" "unanswered s0 t"
      show "wp (bindS (session_receive ev) ?rest) (goes_on f later s0)
          (\<lambda>e t. failing f later t \<or> e = fault_exc f \<and> met later s0 t) t"
        by (rule steady_step [OF steady_receive t]) (rule rest)
    qed
    then show ?thesis by (simp add: dl_offer_def Let_def wp_bind [of "readS _"] wp_read bindS_assoc)
  qed
  then show ?thesis by (simp add: steady_flow_def)
qed

lemma steady_transfer:
  assumes s: "failing f later s" "unanswered s0 s"
  shows "wp (dl_transfer ev request source) (\<lambda>_. failing f later)
    (\<lambda>e t. failing f later t \<or> e = fault_exc f \<and> met later s0 t) s"
proof -
  let ?E = "\<lambda>e t. failing f later t \<or> e = fault_exc f \<and> met later s0 t"
  have finish: "wp (bindS (on_files (read_all_loop source [])) (\<lambda>content.
       bindS (send_loop_from ev source (fd_requested_offset request)) (\<lambda>sent.
       dl_finish ev request total_size content sent))) (\<lambda>_. failing f later) ?E t"
    if t: "failing f later t" "unanswered s0 t" for total_size t
    by (rule steady_step [OF steady_read_all t], rule steady_step [OF steady_send_loop])
      (auto intro: wp_mono [OF wp_faultless [OF faultless_finish]])
  show ?thesis
    unfolding dl_transfer_def Let_def
  proof (rule steady_step [OF steady_calls(1) s])
    fix total_size t
    assume t: "failing f later t" "unanswered s0 t"
    have "wp (dl_offer ev request total_size) (goes_on f later s0) ?E t"
      using steady_offer t by (simp add: steady_flow_def)
    then have "wp (bindF (dl_offer ev request total_size) (\<lambda>_. bindS (on_files (read_all_loop source [])) (\<lambda>content.
       bindS (send_loop_from ev source (fd_requested_offset request)) (\<lambda>sent.
       dl_finish ev request total_size content sent)))) (\<lambda>_. failing f later) ?E t"
      unfolding bindF_def wp_bind [of "dl_offer ev request total_size"]
      by (rule wp_mono) (auto simp: wp_return goes_on_def split: flow.split intro: finish)
    moreover have "wp (dl_fail ev name 0 code message op) (\<lambda>_. failing f later) ?E t" for name code message op
      by (rule wp_mono [OF wp_faultless [OF faultless_replies(2) t(1)]]) auto
    ultimately show "wp (if fd_requested_offset request < 0 \<or> total_size < fd_requested_offset request then
         dl_fail ev (fd_filename request) 0 INVALID_PAYLOAD
           (lit ''invalid resume offset '' @ dec_int (fd_requested_offset request) @ lit '' for file size '' @ dec_int total_size)
           FILE_DOWNLOAD
       else bindF (dl_offer ev request total_size) (\<lambda>_. bindS (on_files (read_all_loop source [])) (\<lambda>content.
         bindS (send_loop_from ev source (fd_requested_offset request)) (\<lambda>sent.
         dl_finish ev request total_size content sent)))) (\<lambda>_. failing f later) ?E t"
      unfolding wp_if by (rule if_cases)
  qed auto
qed

subsection \<open>The handler and the dispatcher\<close>

text \<open>The first call on a file is the one that opens it; the fault is a later one.\<close>

definition unopened :: "fault \<Rightarrow> fault option list \<Rightarrow> session \<Rightarrow> bool" where
  "unopened f later s \<longleftrightarrow> (\<exists>n. fs_faults (ss_files s) = None # replicate n None @ Some f # later)"

lemma unopened_failing: "unopened f later s \<Longrightarrow> failing f later s"
  by (auto simp: unopened_def failing_def) (metis append_Cons replicate_Suc)

lemma opened:
  assumes "unopened f later s" "on_files (open_existing p) s = (r, t)"
  shows "failing f later t \<and> unanswered s t"
  using assms
  by (auto simp: unopened_def failing_def unanswered_def open_existing_def os_call_def on_files_apply
      intro: exI [of _ "[]"] split: prod.splits option.splits node.splits)

lemma wp_dl_open:
  assumes "unopened f later s"
  shows "wp (dl_open ev request p) (goes_on f later s)
    (\<lambda>_. failing f later) s"
proof -
  have "wp (on_files (open_existing p)) (\<lambda>_ t. failing f later t \<and> unanswered s t) (\<lambda>_. failing f later) s"
    by (rule wpI) (use opened [OF assms] in \<open>auto split: sum.split\<close>)
  then show ?thesis
    unfolding dl_open_def wp_try wp_bind
    by (rule wp_mono) (auto simp: wp_simps dl_open_cases intro: wp_dl_fail split: if_splits)
qed

text \<open>What the handler has after the fault: the name \<open>offset\<close> its clause asks for does not exist.\<close>

definition broken :: "fault option list \<Rightarrow> session \<Rightarrow> exc \<Rightarrow> session \<Rightarrow> bool" where
  "broken later s0 e t \<longleftrightarrow> (\<exists>text. e = AttributeError text) \<and> met later s0 t"

lemma wp_guarded:
  assumes "failing f later s" "unanswered s0 s"
  shows "wp (tryS (dl_transfer ev request source) dl_guard) (\<lambda>_. failing f later)
    (\<lambda>e t. failing f later t \<or> broken later s0 e t) s"
  unfolding wp_try
  by (rule wp_mono [OF steady_transfer [OF assms, of ev request source]])
    (cases f; auto simp: dl_guard_def wp_simps broken_def)+

lemma wp_handle_download:
  assumes "unopened f later s"
  shows "wp (handle_download_frame ev fr) (\<lambda>_. failing f later) (\<lambda>e t. failing f later t \<or> broken later s e t) s"
proof -
  let ?E = "\<lambda>e t. failing f later t \<or> broken later s e t"
  note fs = unopened_failing [OF assms]
  have fail: "wp (dl_fail ev name n code message op) (\<lambda>_. failing f later) ?E s" for name n code message op
    by (rule wp_mono [OF wp_faultless [OF faultless_replies(2) fs]]) auto
  have transfer: "wp (bindF (dl_open ev request p) (\<lambda>source. tryS (dl_transfer ev request source) dl_guard))
      (\<lambda>_. failing f later) ?E s" for request p
    unfolding bindF_def wp_bind [of "dl_open ev request p"]
    by (rule wp_mono [OF wp_dl_open [OF assms]])
      (auto simp: wp_return goes_on_def split: flow.split intro: wp_guarded)
  have check: "wp (dl_check_request ev request) (\<lambda>x t. case x of Return res \<Rightarrow> failing f later t | Proceed v \<Rightarrow> t = s)
      ?E s" for request
    by (auto simp: dl_check_request_def except_protocol_def wp_simps fs split: sum.split option.split
        intro!: wp_mono [OF wp_dl_fail_ends [OF fs]])
  have handle: "wp (handle_download ev request) (\<lambda>_. failing f later) ?E s" for request
    unfolding handle_download_def wp_bind [of "bindF _ _"] wp_bindF [of "dl_check_request ev request"] wp_return_all
    by (rule wp_mono [OF check])
      (auto simp: session_storage_directory_def wp_simps fs split: flow.splits sum.split option.split intro: fail transfer)
  show ?thesis
    unfolding handle_download_frame_def by (simp add: wp_simps fs handle split: sum.split)
qed

lemma wp_dispatch_request:
  assumes "unopened f later s" "ss_state s = IDLE" "fr_opcode fr = FILE_DOWNLOAD"
  shows "wp (dispatch_request ev fr) (\<lambda>_. failing f later)
    (\<lambda>e t. failing f later t \<or> broken later (s\<lparr>ss_state := SENDING_DOWNLOAD\<rparr>) e t) s"
proof -
  let ?s = "s\<lparr>ss_state := SENDING_DOWNLOAD\<rparr>"
  let ?E = "\<lambda>e t. failing f later t \<or> broken later ?s e t"
  let ?ended = "\<lambda>result. bindS (readS (\<lambda>s. closing (ss_state s))) (\<lambda>ending.
     bindS (if ending then returnS () else finish_request) (\<lambda>_. log_command ev fr result None))"
  have un: "unopened f later ?s" and fs: "failing f later s" "failing f later ?s"
    using assms(1) unopened_failing [OF assms(1)] by (auto simp: unopened_def failing_def)
  have ended: "wp (?ended result) (\<lambda>_. failing f later) ?E t" if "failing f later t" for result t
    by (rule wp_mono [OF wp_faultless [OF _ that]]) (intro faultless_intros, auto)
  have handler: "wp (bindS (run_handler ev fr) ?ended) (\<lambda>_. failing f later) ?E ?s"
    unfolding run_handler_def wp_bind [of "If _ _ _"]
    by (auto simp: assms(3) wp_bind [of "handle_download_frame ev fr"] wp_return_all
        intro!: wp_mono [OF wp_handle_download [OF un]] ended)
  show ?thesis
    unfolding dispatch_request_def
    by (auto simp: begin_request_def set_state_def assms(2,3) wp_bind [of "liftS _"] wp_bind [of "bindS _ _"]
        wp_bind [of "readS _"] wp_return_all wp_lift wp_read wp_update fs handler split: sum.split)
qed

lemma wp_dispatch:
  assumes "unopened f later s" "ss_state s = IDLE" "fr_opcode fr = FILE_DOWNLOAD"
  shows "wp (dispatch ev fr) (\<lambda>_. failing f later)
    (\<lambda>e t. failing f later t \<or> broken later (s\<lparr>ss_state := SENDING_DOWNLOAD\<rparr>) e t) s"
proof -
  have "wp (dispatch_failure ev fr e) (\<lambda>_. failing f later)
      (\<lambda>e t. failing f later t \<or> broken later s1 e t) t" if "failing f later t \<or> broken later s1 e t" for e t s1
    using that
  proof
    assume "failing f later t"
    then show ?thesis by (rule wp_mono [OF wp_faultless [OF faultless_replies(4)]]) auto
  next
    assume "broken later s1 e t"
    then show ?thesis by (auto simp: broken_def dispatch_failure_def wp_raise)
  qed
  then show ?thesis
    unfolding dispatch_def wp_bind wp_read
    by (simp add: assms(2) wp_try wp_mono [OF wp_dispatch_request [OF assms]])
qed

text \<open>
  C40. A local I/O error during a download is never answered.  Take a dispatched \<open>FILE_DOWNLOAD\<close>
  frame on an idle session, and let any call on the open file after the one that opens it (the
  size, a read for the digest, a read for a chunk) fail with an \<open>OSError\<close>, whatever the client has
  sent and however the connection behaves; the failure is met, as later calls go by the rest of the
  schedule.  Then \<open>_dispatch\<close> itself raises \<open>AttributeError\<close> (the \<open>except OSError\<close> clause of
  \<open>handle_download\<close> names \<open>request.offset\<close>, which \<open>FileDownload\<close> does not have): no \<open>ERROR\<close> frame
  is among the frames sent since the request, nothing is logged, and the state is still
  \<open>SENDING_DOWNLOAD\<close>.
\<close>

theorem download_local_error_unanswered:
  assumes "ss_state s = IDLE" and "fr_opcode fr = FILE_DOWNLOAD"
    and "fs_faults (ss_files s) = None # replicate n None @ Some f # later"
    and "dispatch ev fr s = (r, t)" and "fs_faults (ss_files t) = later"
  shows "(\<exists>text. r = Inl (AttributeError text)) \<and> ss_state t = SENDING_DOWNLOAD \<and> ss_logger t = ss_logger s
    \<and> (\<exists>frames. outbound (ss_socket t) = outbound (ss_socket s) @ concat (map frame_bytes frames)
      \<and> (\<forall>fr \<in> set frames. fr_opcode fr \<noteq> ERROR))"
proof -
  have "unopened f later s" using assms(3) by (auto simp: unopened_def)
  from wpD [OF wp_dispatch [OF this assms(1,2)] assms(4)]
  have "failing f later t \<or> (\<exists>e. r = Inl e \<and> broken later (s\<lparr>ss_state := SENDING_DOWNLOAD\<rparr>) e t)"
    by (auto split: sum.splits)
  moreover have "\<not> failing f later t"
  proof
    assume "failing f later t"
    then obtain m where "later = replicate m None @ Some f # later" using assms(5) by (auto simp: failing_def)
    then have "length later = length (replicate m (None :: fault option) @ Some f # later)" by (rule arg_cong)
    then show False by simp
  qed
  ultimately show ?thesis by (auto simp: broken_def met_def unanswered_def)
qed

subsection \<open>An example\<close>

text \<open>The disk fails when the size of the file is asked.\<close>

definition failing_files :: "fault option list \<Rightarrow> file_system" where
  "failing_files faults = example_files\<lparr>fs_faults := faults\<rparr>"

definition failing_session :: "session_state \<Rightarrow> fault option list \<Rightarrow> session" where
  "failing_session st faults = (frames_session st [] [])\<lparr>ss_files := failing_files faults\<rparr>"

definition request_frame :: frame where
  "request_frame = file_frame FILE_DOWNLOAD [0, 1, 102, 0, 0, 0, 0, 0, 0, 0, 0]"

lemma failing_fields [simp]:
  "ss_state (failing_session st faults) = st" "ss_files (failing_session st faults) = failing_files faults"
  "(failing_session st faults)\<lparr>ss_state := st'\<rparr> = failing_session st' faults"
  "(failing_session st faults)\<lparr>ss_files := failing_files faults'\<rparr> = failing_session st faults'"
  "ss_user_id (failing_session st faults) = 1" "ss_username (failing_session st faults) = Some [97]"
  "\<not> ss_has_filename_locks (failing_session st faults)"
  by (simp_all add: failing_session_def frames_session_def example_session_def)

lemma failing_nodes: "same_nodes example_files (failing_files faults)"
  by (auto simp: same_nodes_def only_changes_def failing_files_def node_at_def)

lemma failing_lookups:
  "resolve_download_path (failing_files faults) [[115], [97]] [102] = Inr ([[115], [97], [102]], None)"
  "open_existing [[115], [97], [102]] (failing_files (None # faults)) = (Inr [[115], [97], [102]], failing_files faults)"
proof -
  have "node_at (failing_files faults) p = node_at example_files p" for p by (simp add: failing_files_def node_at_def)
  note same = lookup_same_nodes [OF failing_nodes] this
  show "resolve_download_path (failing_files faults) [[115], [97]] [102] = Inr ([[115], [97], [102]], None)"
    using example_request(2) by (simp only: resolve_download_path_def resolve_namespace_path_def resolve_or_raise_def same)
  have "(failing_files (None # faults))\<lparr>fs_faults := faults\<rparr> = failing_files faults" "fs_faults (failing_files (None # faults)) = None # faults"
    by (simp_all add: failing_files_def)
  then show "open_existing [[115], [97], [102]] (failing_files (None # faults)) = (Inr [[115], [97], [102]], failing_files faults)"
    by (simp add: open_existing_def os_call_def same example_resolves example_nodes)
qed

lemma failing_transfer:
  "dl_transfer example_environment example_download [[115], [97], [102]] (failing_session st [Some f])
     = (Inl (fault_exc f), failing_session st [])"
proof -
  have "(failing_files [Some f])\<lparr>fs_faults := []\<rparr> = failing_files []" "fs_faults (failing_files [Some f]) = [Some f]"
    by (simp_all add: failing_files_def)
  then show ?thesis
    by (simp add: dl_transfer_def bindS_def on_files_apply fstat_size_def os_call_def)
qed

lemma failing_handler:
  "\<exists>text. handle_download example_environment example_download (failing_session st [None, Some (IoFault why)])
     = (Inl (AttributeError text), failing_session st [])"
proof -
  have check: "dl_check_request example_environment example_download (failing_session st faults)
      = (Inr (Proceed ()), failing_session st faults)" for faults
    by (simp add: dl_check_request_def bindS_def readS_def except_protocol_def example_download_def example_frames)
  have opened: "dl_open example_environment example_download [[115], [97], [102]] (failing_session st [None, Some (IoFault why)])
      = (Inr (Proceed [[115], [97], [102]]), failing_session st [Some (IoFault why)])"
    by (simp add: dl_open_def tryS_def bindS_def on_files_apply failing_lookups)
  have "fd_filename example_download = [102]" by (simp add: example_download_def)
  then show ?thesis
    by (simp add: handle_download_def bindF_def bindS_def readS_def session_storage_directory_def check opened
        failing_lookups tryS_def failing_transfer dl_guard_def)
qed

theorem download_local_error_unanswered_witness:
  "\<exists>text t. dispatch example_environment request_frame (failing_session IDLE [None, Some (IoFault [120])])
     = (Inl (AttributeError text), t) \<and> ss_state t = SENDING_DOWNLOAD"
proof -
  have fr: "fr_opcode request_frame = FILE_DOWNLOAD" by (simp add: request_frame_def file_frame_def)
  have parse: "parse_file_download request_frame 1024 = Inr example_download"
    unfolding request_frame_def example_download_def
    by (rule download.parse_make [OF example_frames(1)]) simp
  have valid: "validate_message request_frame 1024 512 = Inr ()"
    by (simp add: validate_message_def decode_message_def fr parse)
  obtain msg where handle: "handle_download example_environment example_download (failing_session SENDING_DOWNLOAD [None, Some (IoFault [120])])
     = (Inl (AttributeError msg), failing_session SENDING_DOWNLOAD [])"
    using failing_handler by blast
  have "dispatch_request example_environment request_frame (failing_session IDLE [None, Some (IoFault [120])])
      = (Inl (AttributeError msg), failing_session SENDING_DOWNLOAD [])"
    by (simp add: dispatch_request_def bindS_def readS_def valid fr has_handler_def begin_request_def set_state_def
        updateS_def filename_guard_def run_handler_def handle_download_frame_def parse handle)
  then have run: "dispatch example_environment request_frame (failing_session IDLE [None, Some (IoFault [120])])
      = (Inl (AttributeError msg), failing_session SENDING_DOWNLOAD [])"
    by (simp add: dispatch_def bindS_def readS_def tryS_def dispatch_failure_def)
  have "ss_state (failing_session SENDING_DOWNLOAD []) = SENDING_DOWNLOAD"
    using download_local_error_unanswered [of "failing_session IDLE [None, Some (IoFault [120])]" request_frame 0 "IoFault [120]" "[]", OF _ fr _ run]
    by (simp add: failing_files_def)
  with run show ?thesis by blast
qed

end
