(* ===== verification/ClientSession.thy ===== *)
theory ClientSession
  imports Codecs Config Logger
begin

section \<open>The client's session\<close>

text \<open>
  \<open>src/hcmus_socket/client/session.py\<close>.  The record holds what \<open>ClientSession\<close> keeps and the
  socket and the local files it works on; \<open>cl_connected\<close> is \<open>self._socket is not None\<close>.  The
  result of \<open>socket_factory\<close> is an argument of \<open>client_connect\<close>: a connected socket or the
  exception it raises.  \<open>shutdown\<close> and \<open>close\<close> of the socket are taken to succeed.
\<close>

record client =
  cl_socket :: sock
  cl_connected :: bool
  cl_username :: "pystr option"
  cl_user_id :: int
  cl_authenticated :: bool
  cl_files :: file_system

type_synonym 'a client_action = "(exc, client, 'a) action"

definition make_client :: "pystr option \<Rightarrow> file_system \<Rightarrow> client" where
  "make_client username files =
     \<lparr>cl_socket = \<lparr>inbound = [], outbound = [], send_plan = []\<rparr>, cl_connected = False,
      cl_username = username, cl_user_id = USER_ID, cl_authenticated = False, cl_files = files\<rparr>"

definition with_socket :: "(exc, sock, 'a) action \<Rightarrow> 'a client_action" where
  "with_socket act =
     bindS (readS cl_connected) (\<lambda>connected.
     if \<not> connected then raiseS (SessionError (lit ''client is not connected''))
     else partS cl_socket (\<lambda>x s. s\<lparr>cl_socket := x\<rparr>) act)"

definition client_close :: "unit client_action" where
  "client_close = updateS (\<lambda>s. s\<lparr>cl_connected := False, cl_authenticated := False, cl_user_id := USER_ID\<rparr>)"

text \<open>\<open>self.close(abort=True); raise error\<close>\<close>

definition close_raise :: "exc \<Rightarrow> 'a client_action" where
  "close_raise error = bindS client_close (\<lambda>_. raiseS error)"

subsection \<open>\<open>USER_ID\<close> checks\<close>

definition validate_outgoing_user_id :: "frame \<Rightarrow> client \<Rightarrow> exc + unit" where
  "validate_outgoing_user_id fr s =
     (if \<not> cl_authenticated s \<and> fr_opcode fr \<noteq> LOGIN then
        Inl (protocol_error AUTHENTICATION_REQUIRED (lit ''LOGIN is required before sending file commands''))
      else
        let expected = (if fr_opcode fr = LOGIN then USER_ID else cl_user_id s) in
        guardE (fr_user_id fr = expected)
          (protocol_error INVALID_USER_ID
            (lit ''outgoing '' @ opcode_name (fr_opcode fr) @ lit '' USER_ID must be '' @ dec_int expected)))"

text \<open>The last check of \<open>_validate_incoming_user_id\<close>.\<close>

definition matches_session :: "frame \<Rightarrow> client \<Rightarrow> exc + unit" where
  "matches_session fr s =
     guardE (fr_user_id fr = cl_user_id s)
       (protocol_error INVALID_USER_ID
         (lit ''incoming '' @ opcode_name (fr_opcode fr) @ lit '' USER_ID does not match the session''))"

definition validate_incoming_user_id :: "environment \<Rightarrow> frame \<Rightarrow> unit client_action" where
  "validate_incoming_user_id ev fr =
     bindS (readS (\<lambda>s. s)) (\<lambda>s.
     if \<not> cl_authenticated s \<and> fr_opcode fr = ACK then
       bindS (liftS (parse_acknowledgement fr (max_payload ev))) (\<lambda>ack.
       if ak_acknowledged_opcode ack = LOGIN then
         bindS (liftS (guardE (1 \<le> fr_user_id fr \<and> fr_user_id fr \<le> MAX_USER_ID)
           (protocol_error INVALID_USER_ID (lit ''LOGIN ACK must assign a nonzero USER_ID'')))) (\<lambda>_.
         updateS (\<lambda>s. s\<lparr>cl_user_id := fr_user_id fr\<rparr>))
       else liftS (matches_session fr s))
     else if \<not> cl_authenticated s \<and> fr_opcode fr = ERROR then
       liftS (guardE (fr_user_id fr = USER_ID)
         (protocol_error INVALID_USER_ID (lit ''pre-login ERROR frame USER_ID must be zero'')))
     else liftS (matches_session fr s))"

subsection \<open>\<open>send\<close> and \<open>receive\<close>\<close>

definition client_send :: "environment \<Rightarrow> frame \<Rightarrow> unit client_action" where
  "client_send ev fr =
     tryS
       (bindS (readS (validate_outgoing_user_id fr)) (\<lambda>checked.
        bindS (liftS checked) (\<lambda>_.
        with_socket (send_frame fr (max_payload ev)))))
       (\<lambda>error.
          if is_os_error error then close_raise (SessionError (lit ''failed to send frame: '' @ exc_text error))
          else raiseS error)"

definition client_receive :: "environment \<Rightarrow> frame client_action" where
  "client_receive ev =
     bindS
       (tryS (with_socket (receive_frame (max_payload ev)))
         (\<lambda>error.
            if is_os_error error \<or> is_protocol_error error then
              close_raise (SessionError (lit ''failed to receive a complete frame: '' @ exc_text error))
            else raiseS error)) (\<lambda>frame_or_none.
     case frame_or_none of
       None \<Rightarrow> close_raise (SessionError (lit ''server closed the connection''))
     | Some fr \<Rightarrow>
         bindS
           (tryS (validate_incoming_user_id ev fr)
             (\<lambda>error.
                if is_protocol_error error then
                  close_raise (SessionError (lit ''server sent an invalid session frame: '' @ exc_text error))
                else raiseS error)) (\<lambda>_.
         returnS fr))"

subsection \<open>Login\<close>

definition complete_login :: "environment \<Rightarrow> frame \<Rightarrow> unit client_action" where
  "complete_login ev fr =
     (if fr_opcode fr = ERROR then
        bindS (liftS (parse_error fr (max_payload ev))) (\<lambda>error.
        raiseS (AuthenticationError (em_error_code error)
          (lit ''LOGIN failed ('' @ error_name (em_error_code error) @ lit ''): '' @ em_message error)))
      else if fr_opcode fr \<noteq> ACK then
        raiseS (AuthenticationError INVALID_STATE (lit ''expected ACK(LOGIN), got '' @ opcode_name (fr_opcode fr)))
      else
        bindS (liftS (parse_acknowledgement fr (max_payload ev))) (\<lambda>ack.
        if ak_acknowledged_opcode ack \<noteq> LOGIN then
          raiseS (AuthenticationError INVALID_STATE (lit ''server acknowledged the wrong opcode during LOGIN''))
        else if ak_next_offset ack \<noteq> 0 then
          raiseS (AuthenticationError INVALID_PAYLOAD (lit ''LOGIN ACK next_offset must be zero''))
        else
          bindS (readS cl_user_id) (\<lambda>user_id.
          if \<not> (MIN_USER_ID \<le> user_id \<and> user_id \<le> MAX_USER_ID) then
            raiseS (AuthenticationError INVALID_USER_ID (lit ''LOGIN ACK did not assign a valid user ID''))
          else updateS (\<lambda>s. s\<lparr>cl_authenticated := True\<rparr>))))"

text \<open>The exchange on the new socket.\<close>

definition client_handshake :: "environment \<Rightarrow> frame \<Rightarrow> unit client_action" where
  "client_handshake ev login_frame =
     bindS (with_socket (send_all encode_preface)) (\<lambda>_.
     bindS (with_socket (recv_exact PREFACE_SIZE_BYTES)) (\<lambda>response_or_none.
     case response_or_none of
       None \<Rightarrow> raiseS (SessionError (lit ''server closed before returning protocol preface''))
     | Some response \<Rightarrow>
         bindS (liftS (bindE (decode_preface response) validate_preface)) (\<lambda>_.
         bindS (client_send ev login_frame) (\<lambda>_.
         bindS (client_receive ev) (\<lambda>fr.
         complete_login ev fr)))))"

definition client_connect :: "environment \<Rightarrow> exc + sock \<Rightarrow> pystr option \<Rightarrow> unit client_action" where
  "client_connect ev socket_factory username =
     bindS (readS (\<lambda>s. s)) (\<lambda>s.
     if cl_connected s then raiseS (SessionError (lit ''client is already connected''))
     else
       (case (case username of Some name \<Rightarrow> Some name | None \<Rightarrow> cl_username s) of
          None \<Rightarrow> raiseS (SessionError (lit ''username is required to connect''))
        | Some selected \<Rightarrow>
            bindS (liftS (make_login_frame \<lparr>lr_username = selected\<rparr> (max_payload ev) USER_ID)) (\<lambda>login_frame.
            bindS (liftS (case utf8_encode selected of
                None \<Rightarrow> Inl (ValueError (lit ''surrogates not allowed''))
              | Some encoded \<Rightarrow> guardE (int (length encoded) \<le> ac_max_username_bytes (cf_auth (ev_config ev)))
                  (AuthenticationError INVALID_USERNAME (lit ''username exceeds the configured byte limit'')))) (\<lambda>_.
            bindS (updateS (\<lambda>s. s\<lparr>cl_username := Some selected\<rparr>)) (\<lambda>_.
            bindS (liftS socket_factory) (\<lambda>sock.
            bindS (updateS (\<lambda>s. s\<lparr>cl_socket := sock, cl_connected := True\<rparr>)) (\<lambda>_.
            tryS (client_handshake ev login_frame) close_raise)))))))"

subsection \<open>Disconnecting\<close>

definition disconnect_exchange :: "environment \<Rightarrow> unit client_action" where
  "disconnect_exchange ev =
     bindS (readS cl_user_id) (\<lambda>user_id.
     bindS (liftS (make_disconnect_frame (max_payload ev) user_id)) (\<lambda>fr.
     bindS (client_send ev fr) (\<lambda>_.
     bindS (client_receive ev) (\<lambda>response.
     if fr_opcode response = ERROR then
       bindS (liftS (parse_error response (max_payload ev))) (\<lambda>error.
       raiseS (SessionError (lit ''server rejected DISCONNECT: '' @ em_message error)))
     else
       bindS (liftS (parse_acknowledgement response (max_payload ev))) (\<lambda>ack.
       if ak_acknowledged_opcode ack \<noteq> DISCONNECT then
         raiseS (SessionError (lit ''server acknowledged the wrong opcode''))
       else if ak_next_offset ack \<noteq> 0 then
         raiseS (SessionError (lit ''DISCONNECT ACK next_offset must be zero''))
       else returnS ())))))"

definition client_disconnect :: "environment \<Rightarrow> unit client_action" where
  "client_disconnect ev =
     bindS (readS cl_connected) (\<lambda>connected.
     if \<not> connected then returnS () else finallyS (disconnect_exchange ev) client_close)"

subsection \<open>What sending and receiving do\<close>

lemma with_socket_Inr:
  "with_socket act s = (Inr a, t) \<longleftrightarrow> cl_connected s \<and> (\<exists>k. act (cl_socket s) = (Inr a, k) \<and> t = s\<lparr>cl_socket := k\<rparr>)"
  by (auto simp: with_socket_def bindS_def readS_def partS_def split: prod.splits)

lemma close_raise_run [simp]:
  "close_raise e s = (Inl e, s\<lparr>cl_connected := False, cl_authenticated := False, cl_user_id := USER_ID\<rparr>)"
  by (simp add: close_raise_def client_close_def bindS_def updateS_def)

lemma client_send_Inr:
  assumes "client_send ev fr s = (Inr (), t)"
  shows "cl_connected s \<and> validate_outgoing_user_id fr s = Inr () \<and> (\<exists>k. t = s\<lparr>cl_socket := k\<rparr>
    \<and> inbound k = inbound (cl_socket s)
    \<and> (\<exists>bs. serialize_frame fr (max_payload ev) = Inr bs \<and> outbound k = outbound (cl_socket s) @ bs))"
proof -
  have "with_socket (send_frame fr (max_payload ev)) s = (Inr (), t) \<and> validate_outgoing_user_id fr s = Inr ()"
    using assms by (auto simp: client_send_def tryS_def bindS_def readS_def split: prod.splits sum.splits if_splits)
  then obtain k where "cl_connected s" "validate_outgoing_user_id fr s = Inr ()" "t = s\<lparr>cl_socket := k\<rparr>"
    "send_frame fr (max_payload ev) (cl_socket s) = (Inr (), k)" by (auto simp: with_socket_Inr)
  with send_frame_Inr [OF this(4)] show ?thesis by blast
qed

lemma client_receive_Inr:
  assumes "client_receive ev s = (Inr fr, t)"
  shows "cl_connected s \<and> (\<exists>k. receive_frame (max_payload ev) (cl_socket s) = (Inr (Some fr), k)
    \<and> validate_incoming_user_id ev fr (s\<lparr>cl_socket := k\<rparr>) = (Inr (), t))"
  using assms
  by (auto simp: client_receive_def tryS_def bindS_def with_socket_Inr split: prod.splits sum.splits if_splits option.splits)

lemma receive_frame_pending:
  "receive_frame maximum k = (Inr (Some fr), k') \<Longrightarrow> outbound k' = outbound k
     \<and> (delivers k \<longrightarrow> delivers k' \<and> wf_frame maximum fr \<and> pending k = frame_bytes fr @ pending k')"
  using receive_frame_reads [of maximum k "Inr (Some fr)" k']
    receive_frame_parse [of k maximum "Inr (Some fr)" k'] parse_frame_Some [of maximum "pending k" fr "pending k'"]
  by (auto simp: reads_only_def)

lemma recv_exact_bytes:
  "recv_exact n k = (Inr (Some v), k') \<Longrightarrow> outbound k' = outbound k \<and> pending k = v @ pending k'"
  by (drule recv_exact_pending) (simp add: reads_only_def)

lemma recv_exact_delivers: "recv_exact n k = (r, k') \<Longrightarrow> delivers k \<Longrightarrow> delivers k'"
  by (drule (1) recv_exact_refines [rotated]) simp

lemma validate_incoming_Inr:
  assumes "validate_incoming_user_id ev fr s = (Inr (), t)"
  shows "t = s \<and> cl_user_id s = fr_user_id fr
    \<or> \<not> cl_authenticated s \<and> fr_opcode fr = ERROR \<and> t = s
    \<or> \<not> cl_authenticated s \<and> 1 \<le> fr_user_id fr \<and> fr_user_id fr \<le> MAX_USER_ID \<and> t = s\<lparr>cl_user_id := fr_user_id fr\<rparr>"
  using assms
  by (auto simp: validate_incoming_user_id_def matches_session_def state_simps guardE_eq_Inr split: if_splits)

end
