(* ===== verification/ConfigFile.thy ===== *)
theory ConfigFile
  imports Config
begin

section \<open>Loading the configuration file\<close>

text \<open>
  \<open>load_config\<close> of \<open>src/hcmus_socket/config.py\<close>.  What \<open>configparser\<close> makes of the file is the
  argument \<open>ini_read\<close>: one of the three errors that \<open>load_config\<close> catches, or the options of the
  default section and of the sections, in the order of the file.  Relative directories are
  taken from the current directory \<open>cwd\<close>, as \<open>Path\<close> does when it is used.
\<close>

record ini_file =
  ini_defaults :: "(pystr \<times> pystr) list"
  ini_sections :: "(pystr \<times> (pystr \<times> pystr) list) list"

datatype ini_read =
    ReadOSError pystr
  | ReadUnicodeError
  | ReadSyntaxError "pystr option" "pystr option" "int option" pystr \<comment> \<open>section, option, lineno, text\<close>
  | ReadIni ini_file

subsection \<open>Text\<close>

text \<open>The characters that \<open>str.strip\<close> removes.\<close>

definition is_space :: "nat \<Rightarrow> bool" where
  "is_space c \<longleftrightarrow> 9 \<le> c \<and> c \<le> 13 \<or> 28 \<le> c \<and> c \<le> 32
     \<or> c \<in> {0x85, 0xA0, 0x1680, 0x2028, 0x2029, 0x202F, 0x205F, 0x3000} \<or> 0x2000 \<le> c \<and> c \<le> 0x200A"

definition strip :: "pystr \<Rightarrow> pystr" where
  "strip t = rev (dropWhile is_space (rev (dropWhile is_space t)))"

definition decimal_integer :: "pystr \<Rightarrow> bool" where
  "decimal_integer t \<longleftrightarrow> t \<noteq> [] \<and> list_all (\<lambda>c. 48 \<le> c \<and> c \<le> 57) t"

text \<open>\<open>int(text)\<close> of decimal digits; CPython refuses more than 4300 of them.\<close>

definition MAX_STR_DIGITS :: nat where "MAX_STR_DIGITS = 4300"

definition int_of_digits :: "pystr \<Rightarrow> exc + int" where
  "int_of_digits t =
     (if MAX_STR_DIGITS < length t then
        Inl (ValueError (lit ''Exceeds the limit ('' @ dec_nat MAX_STR_DIGITS @ lit '' digits) for integer string conversion''))
      else Inr (foldl (\<lambda>n c. 10 * n + (int c - 48)) 0 t))"

fun split_at :: "nat \<Rightarrow> pystr \<Rightarrow> pystr \<Rightarrow> pystr list" where
  "split_at sep part [] = [part]"
| "split_at sep part (c # cs) = (if c = sep then part # split_at sep [] cs else split_at sep (part @ [c]) cs)"

definition to_path :: "path \<Rightarrow> pystr \<Rightarrow> path" where
  "to_path cwd t =
     (if take 1 t = [47] then [] else cwd) @ filter (\<lambda>part. part \<noteq> [] \<and> part \<noteq> lit ''.'') (split_at 47 [] t)"

subsection \<open>Errors\<close>

definition fail_config :: "pystr \<Rightarrow> pystr \<Rightarrow> pystr option \<Rightarrow> pystr \<Rightarrow> exc + 'a" where
  "fail_config path section key reason =
     (let setting = lit ''['' @ section @ lit '']'' @ (case key of None \<Rightarrow> [] | Some k \<Rightarrow> lit ''.'' @ k) in
      Inl (ConfigError (path @ lit '': '' @ setting @ lit '': '' @ reason)))"

definition format_parser_error :: "pystr \<Rightarrow> pystr option \<Rightarrow> pystr option \<Rightarrow> int option \<Rightarrow> pystr \<Rightarrow> pystr" where
  "format_parser_error path section key line_number error =
     (let truthy = (\<lambda>x. case x of Some (c # cs) \<Rightarrow> Some (c # cs) | _ \<Rightarrow> None);
          location = path @ (case line_number of None \<Rightarrow> [] | Some n \<Rightarrow> lit '':'' @ dec_int n);
          context = (case truthy section of None \<Rightarrow> [] | Some t \<Rightarrow> lit '' ['' @ t @ lit '']'')
            @ (case truthy key of None \<Rightarrow> [] | Some k \<Rightarrow> lit ''.'' @ k) in
      location @ lit '':'' @ context @ lit '' invalid INI syntax: '' @ error)"

subsection \<open>The schema\<close>

definition SECTION_KEYS :: "(pystr \<times> pystr list) list" where
  "SECTION_KEYS =
     [(lit ''server'', [lit ''bind_address'', lit ''port'', lit ''storage_directory'', lit ''max_clients'',
         lit ''partial_ttl_seconds'']),
      (lit ''client'', [lit ''server_address'', lit ''server_port'', lit ''connect_timeout_ms'',
         lit ''download_directory'']),
      (lit ''network'', [lit ''max_payload_bytes'', lit ''chunk_size_bytes'',
         lit ''bandwidth_limit_kib_per_second'']),
      (lit ''auth'', [lit ''max_username_bytes''])]"

text \<open>\<open>parser.items(section, raw=True)\<close>: the defaults, overridden by the section's own options.\<close>

definition ini_items :: "ini_file \<Rightarrow> (pystr \<times> pystr) list \<Rightarrow> (pystr \<times> pystr) list" where
  "ini_items ini own = fold (\<lambda>(k, v). AList.update k v) own (ini_defaults ini)"

fun validate_items :: "pystr \<Rightarrow> pystr \<Rightarrow> pystr list \<Rightarrow> (pystr \<times> pystr) list \<Rightarrow> exc + unit" where
  "validate_items path section known [] = Inr ()"
| "validate_items path section known ((key, value) # items) =
     (if key \<notin> set known then fail_config path section (Some key) (lit ''unknown key'')
      else if 10 \<in> set value then
        fail_config path section (Some key) (lit ''multiline values are not supported'')
      else validate_items path section known items)"

fun validate_sections :: "pystr \<Rightarrow> ini_file \<Rightarrow> (pystr \<times> (pystr \<times> pystr) list) list \<Rightarrow> exc + unit" where
  "validate_sections path ini [] = Inr ()"
| "validate_sections path ini ((section, own) # later) =
     (case map_of SECTION_KEYS section of
        None \<Rightarrow> fail_config path section None (lit ''unknown section'')
      | Some known \<Rightarrow>
          bindE (validate_items path section known (ini_items ini own)) (\<lambda>_.
          validate_sections path ini later))"

definition validate_schema :: "pystr \<Rightarrow> ini_file \<Rightarrow> exc + unit" where
  "validate_schema path ini = validate_sections path ini (ini_sections ini)"

subsection \<open>Values\<close>

text \<open>\<open>has_option\<close> and \<open>get(raw=True)\<close>: \<open>None\<close> when the option is missing.\<close>

definition option_value :: "ini_file \<Rightarrow> pystr \<Rightarrow> pystr \<Rightarrow> pystr option" where
  "option_value ini section key =
     (case map_of (ini_sections ini) section of
        None \<Rightarrow> None
      | Some own \<Rightarrow> (case map_of own key of Some v \<Rightarrow> Some v | None \<Rightarrow> map_of (ini_defaults ini) key))"

definition text_value :: "pystr \<Rightarrow> ini_file \<Rightarrow> pystr \<Rightarrow> pystr \<Rightarrow> pystr \<Rightarrow> exc + pystr" where
  "text_value path ini section key fallback =
     (case option_value ini section key of
        None \<Rightarrow> Inr fallback
      | Some raw \<Rightarrow>
          let value = strip raw in
          if value = [] then fail_config path section (Some key) (lit ''value cannot be empty'')
          else Inr value)"

definition integer_value ::
  "pystr \<Rightarrow> ini_file \<Rightarrow> pystr \<Rightarrow> pystr \<Rightarrow> int \<Rightarrow> int \<Rightarrow> int option \<Rightarrow> exc + int" where
  "integer_value path ini section key fallback minimum maximum =
     (if option_value ini section key = None then Inr fallback
      else
        bindE (text_value path ini section key (dec_int fallback)) (\<lambda>text.
        if \<not> decimal_integer text then
          fail_config path section (Some key) (lit ''value must be a decimal integer'')
        else
          bindE (int_of_digits text) (\<lambda>value.
          if value < minimum then
            fail_config path section (Some key) (lit ''value must be at least '' @ dec_int minimum)
          else
            (case maximum of
               None \<Rightarrow> Inr value
             | Some m \<Rightarrow>
                 if value > m then
                   fail_config path section (Some key)
                     (lit ''value must be from '' @ dec_int minimum @ lit '' to '' @ dec_int m)
                 else Inr value))))"

subsection \<open>\<open>load_config\<close>\<close>

definition load_server :: "path \<Rightarrow> pystr \<Rightarrow> ini_file \<Rightarrow> exc + server_config" where
  "load_server cwd path ini =
     bindE (text_value path ini (lit ''server'') (lit ''bind_address'') (lit ''0.0.0.0'')) (\<lambda>bind_address.
     bindE (integer_value path ini (lit ''server'') (lit ''port'') 4567 1 (Some 65535)) (\<lambda>port.
     bindE (text_value path ini (lit ''server'') (lit ''storage_directory'') (lit ''runtime/server_storage'')) (\<lambda>storage.
     bindE (integer_value path ini (lit ''server'') (lit ''max_clients'') 10 1 (Some 1000)) (\<lambda>max_clients.
     bindE (integer_value path ini (lit ''server'') (lit ''partial_ttl_seconds'') 86400 0 None) (\<lambda>ttl.
     Inr \<lparr>sc_bind_address = bind_address, sc_port = port, sc_storage_directory = to_path cwd storage,
       sc_max_clients = max_clients, sc_partial_ttl_seconds = ttl\<rparr>)))))"

definition load_client :: "path \<Rightarrow> pystr \<Rightarrow> ini_file \<Rightarrow> exc + client_config" where
  "load_client cwd path ini =
     bindE (text_value path ini (lit ''client'') (lit ''server_address'') (lit ''127.0.0.1'')) (\<lambda>server_address.
     bindE (integer_value path ini (lit ''client'') (lit ''server_port'') 4567 1 (Some 65535)) (\<lambda>server_port.
     bindE (integer_value path ini (lit ''client'') (lit ''connect_timeout_ms'') 5000 1 (Some 300000)) (\<lambda>timeout.
     bindE (text_value path ini (lit ''client'') (lit ''download_directory'') (lit ''runtime/client_downloads'')) (\<lambda>directory.
     Inr \<lparr>cc_server_address = server_address, cc_server_port = server_port,
       cc_connect_timeout_ms = timeout, cc_download_directory = to_path cwd directory\<rparr>))))"

definition load_network :: "pystr \<Rightarrow> ini_file \<Rightarrow> exc + network_config" where
  "load_network path ini =
     bindE (integer_value path ini (lit ''network'') (lit ''max_payload_bytes'') MAX_PAYLOAD_BYTES 1
       (Some MAX_CONFIG_PAYLOAD_BYTES)) (\<lambda>max_payload_bytes.
     bindE (integer_value path ini (lit ''network'') (lit ''chunk_size_bytes'') CHUNK_SIZE_BYTES
       MIN_CHUNK_SIZE_BYTES (Some MAX_CHUNK_SIZE_BYTES)) (\<lambda>chunk_size_bytes.
     bindE (integer_value path ini (lit ''network'') (lit ''bandwidth_limit_kib_per_second'') 500 0 None) (\<lambda>limit.
     if max_payload_bytes < chunk_size_bytes + CHUNK_OFFSET_SIZE_BYTES then
       fail_config path (lit ''network'') (Some (lit ''max_payload_bytes''))
         (lit ''must be at least network.chunk_size_bytes + 8'')
     else
       Inr \<lparr>nc_max_payload_bytes = max_payload_bytes, nc_chunk_size_bytes = chunk_size_bytes,
         nc_bandwidth_limit_kib_per_second = limit\<rparr>)))"

definition load_auth :: "pystr \<Rightarrow> ini_file \<Rightarrow> exc + auth_config" where
  "load_auth path ini =
     bindE (integer_value path ini (lit ''auth'') (lit ''max_username_bytes'') MAX_USERNAME_BYTES 1
       (Some MAX_USERNAME_BYTES)) (\<lambda>n. Inr \<lparr>ac_max_username_bytes = n\<rparr>)"

definition load_config :: "path \<Rightarrow> pystr \<Rightarrow> ini_read \<Rightarrow> exc + app_config" where
  "load_config cwd path read =
     (case read of
        ReadOSError text \<Rightarrow> Inl (ConfigError (path @ lit '': cannot read config file: '' @ text))
      | ReadUnicodeError \<Rightarrow> Inl (ConfigError (path @ lit '': config file is not valid UTF-8''))
      | ReadSyntaxError section key line_number text \<Rightarrow>
          Inl (ConfigError (format_parser_error path section key line_number text))
      | ReadIni ini \<Rightarrow>
          bindE (validate_schema path ini) (\<lambda>_.
          bindE (load_server cwd path ini) (\<lambda>server.
          bindE (load_client cwd path ini) (\<lambda>client.
          bindE (load_network path ini) (\<lambda>network.
          bindE (load_auth path ini) (\<lambda>auth.
          Inr \<lparr>cf_server = server, cf_client = client, cf_network = network, cf_auth = auth\<rparr>))))))"

subsection \<open>What an accepted configuration guarantees\<close>

lemma fail_config_Inl: "fail_config path section key reason = Inl e \<longleftrightarrow> e = projl (fail_config path section key reason :: exc + unit)"
  "fail_config path section key reason \<noteq> Inr a"
  by (auto simp: fail_config_def Let_def)

lemma integer_value_Inr:
  assumes "integer_value path ini section key d lo hi = Inr v" "lo \<le> d" "\<forall>m \<in> set_option hi. d \<le> m"
  shows "lo \<le> v \<and> (\<forall>m \<in> set_option hi. v \<le> m)"
  using assms by (auto simp: integer_value_def result_simps fail_config_Inl split: if_splits option.splits)

definition configuration_ok :: "app_config \<Rightarrow> bool" where
  "configuration_ok cfg \<longleftrightarrow>
     1 \<le> sc_port (cf_server cfg) \<and> sc_port (cf_server cfg) \<le> 65535
     \<and> 1 \<le> sc_max_clients (cf_server cfg) \<and> sc_max_clients (cf_server cfg) \<le> 1000
     \<and> 0 \<le> sc_partial_ttl_seconds (cf_server cfg)
     \<and> 1 \<le> cc_server_port (cf_client cfg) \<and> cc_server_port (cf_client cfg) \<le> 65535
     \<and> 1 \<le> cc_connect_timeout_ms (cf_client cfg) \<and> cc_connect_timeout_ms (cf_client cfg) \<le> 300000
     \<and> MIN_CHUNK_SIZE_BYTES \<le> nc_chunk_size_bytes (cf_network cfg)
     \<and> nc_chunk_size_bytes (cf_network cfg) \<le> MAX_CHUNK_SIZE_BYTES
     \<and> nc_chunk_size_bytes (cf_network cfg) + CHUNK_OFFSET_SIZE_BYTES \<le> nc_max_payload_bytes (cf_network cfg)
     \<and> nc_max_payload_bytes (cf_network cfg) \<le> MAX_CONFIG_PAYLOAD_BYTES
     \<and> 0 \<le> nc_bandwidth_limit_kib_per_second (cf_network cfg)
     \<and> 1 \<le> ac_max_username_bytes (cf_auth cfg) \<and> ac_max_username_bytes (cf_auth cfg) \<le> MAX_USERNAME_BYTES"

lemma load_server_Inr:
  assumes "load_server cwd path ini = Inr c"
  shows "1 \<le> sc_port c \<and> sc_port c \<le> 65535 \<and> 1 \<le> sc_max_clients c \<and> sc_max_clients c \<le> 1000
    \<and> 0 \<le> sc_partial_ttl_seconds c"
  using assms by (auto simp: load_server_def result_simps dest!: integer_value_Inr)

lemma load_client_Inr:
  assumes "load_client cwd path ini = Inr c"
  shows "1 \<le> cc_server_port c \<and> cc_server_port c \<le> 65535 \<and> 1 \<le> cc_connect_timeout_ms c
    \<and> cc_connect_timeout_ms c \<le> 300000"
  using assms by (auto simp: load_client_def result_simps dest!: integer_value_Inr)

lemma load_network_Inr:
  assumes "load_network path ini = Inr c"
  shows "MIN_CHUNK_SIZE_BYTES \<le> nc_chunk_size_bytes c \<and> nc_chunk_size_bytes c \<le> MAX_CHUNK_SIZE_BYTES
    \<and> nc_chunk_size_bytes c + CHUNK_OFFSET_SIZE_BYTES \<le> nc_max_payload_bytes c
    \<and> nc_max_payload_bytes c \<le> MAX_CONFIG_PAYLOAD_BYTES \<and> 0 \<le> nc_bandwidth_limit_kib_per_second c"
  using assms
  by (auto simp: load_network_def result_simps fail_config_Inl protocol_constants MAX_CONFIG_PAYLOAD_BYTES_def
      dest!: integer_value_Inr split: if_splits)

lemma load_auth_Inr:
  "load_auth path ini = Inr c \<Longrightarrow> 1 \<le> ac_max_username_bytes c \<and> ac_max_username_bytes c \<le> MAX_USERNAME_BYTES"
  by (auto simp: load_auth_def result_simps MAX_USERNAME_BYTES_def dest!: integer_value_Inr)

text \<open>A file the schema accepts: known sections, known options, no value over several lines.\<close>

definition strict_ini :: "ini_file \<Rightarrow> bool" where
  "strict_ini ini \<longleftrightarrow> (\<forall>(section, own) \<in> set (ini_sections ini). \<exists>known. map_of SECTION_KEYS section = Some known
     \<and> (\<forall>(key, value) \<in> set (ini_items ini own). key \<in> set known \<and> 10 \<notin> set value))"

lemma validate_items_Inr:
  "validate_items path section known items = Inr () \<longleftrightarrow> (\<forall>(key, value) \<in> set items. key \<in> set known \<and> 10 \<notin> set value)"
  by (induction path "section" known items rule: validate_items.induct) (auto simp: fail_config_Inl)

lemma validate_schema_Inr: "validate_schema path ini = Inr () \<longleftrightarrow> strict_ini ini"
proof -
  have "validate_sections path ini sections = Inr () \<longleftrightarrow> (\<forall>(section, own) \<in> set sections.
      \<exists>known. map_of SECTION_KEYS section = Some known
        \<and> (\<forall>(key, value) \<in> set (ini_items ini own). key \<in> set known \<and> 10 \<notin> set value))" for sections
    by (induction path ini sections rule: validate_sections.induct)
      (auto simp: fail_config_Inl result_simps validate_items_Inr split: option.splits)
  then show ?thesis by (simp add: validate_schema_def strict_ini_def)
qed

text \<open>Which exceptions the loader raises.\<close>

definition config_failure :: "exc + 'a \<Rightarrow> bool" where
  "config_failure r \<longleftrightarrow> (\<forall>e. r = Inl e \<longrightarrow> (\<exists>t. e = ConfigError t \<or> e = ValueError t))"

named_theorems config_intros \<open>the loader fails with its own errors only\<close>

lemma config_basic [config_intros]:
  "config_failure (Inr a)" "config_failure (fail_config path section key reason)"
  "config_failure (int_of_digits t)"
  by (auto simp: config_failure_def fail_config_def int_of_digits_def Let_def)

lemma config_bind [config_intros]:
  "config_failure m \<Longrightarrow> (\<And>a. config_failure (f a)) \<Longrightarrow> config_failure (bindE m f)"
  by (cases m) (auto simp: config_failure_def)

lemma config_if [config_intros]:
  "config_failure a \<Longrightarrow> config_failure b \<Longrightarrow> config_failure (if c then a else b)"
  by simp

lemma config_option [config_intros]:
  "config_failure a \<Longrightarrow> (\<And>v. config_failure (f v)) \<Longrightarrow> config_failure (case x of None \<Rightarrow> a | Some v \<Rightarrow> f v)"
  by (cases x) simp_all

lemma config_values [config_intros]:
  "config_failure (text_value path ini section key t)"
  "config_failure (integer_value path ini section key d lo hi)"
  unfolding text_value_def integer_value_def Let_def by (intro config_intros)+

lemma config_items [config_intros]: "config_failure (validate_items path section known items)"
  by (induction path "section" known items rule: validate_items.induct) (auto intro!: config_intros)

lemma config_schema [config_intros]: "config_failure (validate_schema path ini)"
proof -
  have "config_failure (validate_sections path ini sections)" for sections
    by (induction sections) (auto intro!: config_intros split: option.splits)
  then show ?thesis by (simp add: validate_schema_def)
qed

lemma config_parts [config_intros]:
  "config_failure (load_server cwd path ini)" "config_failure (load_client cwd path ini)"
  "config_failure (load_network path ini)" "config_failure (load_auth path ini)"
  unfolding load_server_def load_client_def load_network_def load_auth_def by (intro config_intros)+

lemma load_without_sections:
  "ini_sections ini = [] \<Longrightarrow> load_config cwd path (ReadIni ini) = load_config cwd path (ReadIni \<lparr>ini_defaults = [], ini_sections = []\<rparr>)"
  by (simp add: load_config_def validate_schema_def load_server_def load_client_def load_network_def load_auth_def
      text_value_def integer_value_def option_value_def)

text \<open>
  C32. A configuration that loads is valid: if \<open>load_config\<close> returns, every section the parser
  lists is known and has only known options with single-line values, those it inherits from the
  default section included, every number is within its documented range, and a chunk with its
  offset fits into a payload (so the payload limit is also far below what the length field of a
  frame can hold).  A file for which the parser lists no section gives the defaults, whatever its
  default section holds.  Otherwise \<open>load_config\<close> raises \<open>ConfigError\<close>, or the \<open>ValueError\<close> of
  \<open>int\<close> on an overlong digit string.
\<close>

theorem load_config_outcome:
  "case load_config cwd path read of
      Inr cfg \<Rightarrow> configuration_ok cfg \<and> (\<exists>ini. read = ReadIni ini \<and> strict_ini ini
        \<and> (ini_sections ini = [] \<longrightarrow> load_config cwd path (ReadIni \<lparr>ini_defaults = [], ini_sections = []\<rparr>) = Inr cfg))
    | Inl e \<Rightarrow> \<exists>t. e = ConfigError t \<or> e = ValueError t"
proof (cases read)
  case (ReadIni ini)
  show ?thesis
  proof (cases "load_config cwd path read")
    case (Inl e)
    have "config_failure (load_config cwd path read)"
      unfolding load_config_def ReadIni ini_read.case by (intro config_intros)
    with Inl show ?thesis by (simp add: config_failure_def)
  next
    case (Inr cfg)
    then obtain server client network auth where "validate_schema path ini = Inr ()"
      "load_server cwd path ini = Inr server" "load_client cwd path ini = Inr client"
      "load_network path ini = Inr network" "load_auth path ini = Inr auth"
      "cfg = \<lparr>cf_server = server, cf_client = client, cf_network = network, cf_auth = auth\<rparr>"
      by (auto simp: load_config_def ReadIni result_simps)
    moreover have "ini_sections ini = [] \<longrightarrow> load_config cwd path (ReadIni \<lparr>ini_defaults = [], ini_sections = []\<rparr>) = Inr cfg"
      using load_without_sections [of ini cwd path] Inr ReadIni by simp
    ultimately show ?thesis
      using load_server_Inr load_client_Inr load_network_Inr load_auth_Inr ReadIni Inr
      by (simp add: configuration_ok_def validate_schema_Inr)
  qed
qed (simp_all add: load_config_def)

lemma default_configuration: "\<exists>cfg. load_config [[114]] [99] (ReadIni \<lparr>ini_defaults = [], ini_sections = []\<rparr>) = Inr cfg"
  by (simp add: load_config_def validate_schema_def load_server_def load_client_def load_network_def load_auth_def
      text_value_def integer_value_def option_value_def protocol_constants)

theorem load_config_outcome_witness:
  "\<exists>cfg. load_config [[114]] [99] (ReadIni \<lparr>ini_defaults = [], ini_sections = []\<rparr>) = Inr cfg \<and> configuration_ok cfg"
  using load_config_outcome [where cwd = "[[114]]" and path = "[99]" and read = "ReadIni \<lparr>ini_defaults = [], ini_sections = []\<rparr>"] default_configuration
  by auto

end
