(* ===== verification/ClientTransfers.thy ===== *)
theory ClientTransfers
  imports ClientSession ConfigFile "HOL-Library.List_Lexorder"
begin

section \<open>The client's LIST and UPLOAD\<close>

text \<open>
  \<open>src/hcmus_socket/client/listing.py\<close> and \<open>upload.py\<close>.  The progress callbacks are left out.
  \<open>SessionError\<close> is a \<open>ConnectionError\<close> and so an \<open>OSError\<close>: the \<open>except OSError\<close> around
  the streaming part of \<open>upload_file\<close> also catches the errors of the session, closes it and
  reports them as \<open>local upload read failed\<close>; the model does the same.
\<close>

definition on_client_files :: "'a fs_action \<Rightarrow> 'a client_action" where
  "on_client_files = partS cl_files (\<lambda>x s. s\<lparr>cl_files := x\<rparr>)"

definition path_text :: "path \<Rightarrow> pystr" where
  "path_text p = concat (map (\<lambda>c. 47 # c) p)"

text \<open>\<open>error.failed_opcode.name\<close>: an opcode the client does not know is a plain \<open>int\<close>.\<close>

fun failed_opcode_name :: "opcode_or_raw \<Rightarrow> exc + pystr" where
  "failed_opcode_name (Known op) = Inr (opcode_name op)"
| "failed_opcode_name (Raw n) = Inl (AttributeError ([39] @ lit ''int'' @ [39] @ lit '' object has no attribute ''
     @ [39] @ lit ''name'' @ [39]))"

subsection \<open>LIST\<close>

definition list_files :: "environment \<Rightarrow> file_entry list client_action" where
  "list_files ev =
     bindS (readS cl_user_id) (\<lambda>user_id.
     bindS (liftS (make_file_list_frame (max_payload ev) user_id)) (\<lambda>request.
     bindS (client_send ev request) (\<lambda>_.
     bindS (client_receive ev) (\<lambda>fr.
     if fr_opcode fr = ERROR then
       bindS (liftS (parse_error fr (max_payload ev))) (\<lambda>error.
       if em_failed_opcode error \<noteq> Known FILE_LIST then
         bindS (liftS (failed_opcode_name (em_failed_opcode error))) (\<lambda>name.
         raiseS (protocol_error INVALID_STATE (lit ''server returned ERROR for '' @ name @ lit '' during LIST'')))
       else raiseS (protocol_error (em_error_code error) (lit ''server: '' @ em_message error)))
     else if fr_opcode fr \<noteq> FILE_LIST_RESP then
       raiseS (protocol_error INVALID_STATE (lit ''expected FILE_LIST_RESP, got '' @ opcode_name (fr_opcode fr)))
     else
       bindS (liftS (parse_file_list_response fr (max_payload ev))) (\<lambda>entries.
       returnS (sort_key fe_filename entries))))))"

subsection \<open>UPLOAD\<close>

record client_upload_result =
  cu_source :: path
  cu_remote_filename :: pystr
  cu_bytes_sent :: int
  cu_sha256_digest :: "byte list"

definition abort_protocol :: "pystr \<Rightarrow> 'a client_action" where
  "abort_protocol message = close_raise (SessionError message)"

definition expect_ack :: "environment \<Rightarrow> opcode \<Rightarrow> int option \<Rightarrow> int client_action" where
  "expect_ack ev expected_opcode expected_offset =
     bindS (client_receive ev) (\<lambda>fr.
     if fr_opcode fr = ERROR then
       bindS (liftS (parse_error fr (max_payload ev))) (\<lambda>error.
       if em_failed_opcode error \<noteq> Known expected_opcode then
         bindS client_close (\<lambda>_.
         bindS (liftS (failed_opcode_name (em_failed_opcode error))) (\<lambda>name.
         raiseS (SessionError (lit ''server returned ERROR for '' @ name @ lit '' while waiting for ''
           @ opcode_name expected_opcode))))
       else raiseS (protocol_error (em_error_code error) (lit ''server: '' @ em_message error)))
     else if fr_opcode fr \<noteq> ACK then
       abort_protocol (lit ''expected ACK for '' @ opcode_name expected_opcode @ lit '', got '' @ opcode_name (fr_opcode fr))
     else
       bindS (liftS (parse_acknowledgement fr (max_payload ev))) (\<lambda>ack.
       if ak_acknowledged_opcode ack \<noteq> expected_opcode then
         abort_protocol (lit ''expected ACK for '' @ opcode_name expected_opcode @ lit '', got ACK for ''
           @ opcode_name (ak_acknowledged_opcode ack))
       else
         (case expected_offset of
            None \<Rightarrow> returnS (ak_next_offset ack)
          | Some n \<Rightarrow>
              if ak_next_offset ack \<noteq> n then
                abort_protocol (lit ''expected ACK next_offset '' @ dec_int n @ lit '', got '' @ dec_int (ak_next_offset ack))
              else returnS (ak_next_offset ack))))"

text \<open>The bytes the server already has are read and hashed.\<close>

function hash_prefix :: "environment \<Rightarrow> path \<Rightarrow> nat \<Rightarrow> byte list \<Rightarrow> byte list client_action" where
  "hash_prefix ev source remaining hashed s =
     (if remaining = 0 then (Inr hashed, s)
      else
        let read_len = min remaining (nat (chunk_size ev)) in
        case on_client_files (read_handle source (length hashed) read_len) s of
          (Inl e, t) \<Rightarrow> (Inl e, t)
        | (Inr data, t) \<Rightarrow>
            if data = [] \<or> length data \<noteq> read_len then
              close_raise (SessionError (lit ''failed to read prefix data for hashing during resume'')) t
            else hash_prefix ev source (remaining - length data) (hashed @ data) t)"
  by pat_completeness auto
termination
  by (relation "measure (\<lambda>(ev, source, remaining, hashed, s). remaining)") (auto simp flip: length_greater_0_conv)

declare hash_prefix.simps [simp del]

text \<open>The rest is read, hashed and sent in chunks.\<close>

definition send_chunk :: "environment \<Rightarrow> int \<Rightarrow> byte list \<Rightarrow> unit client_action" where
  "send_chunk ev sent data =
     bindS (readS cl_user_id) (\<lambda>user_id.
     bindS (liftS (make_file_chunk_frame \<lparr>fc_offset = sent, fc_data = data\<rparr> (chunk_size ev) (max_payload ev) user_id))
       (client_send ev))"

function send_chunks ::
  "environment \<Rightarrow> path \<Rightarrow> int \<Rightarrow> int \<Rightarrow> byte list \<Rightarrow> (int \<times> byte list) client_action" where
  "send_chunks ev source total_size sent hashed s =
     (case on_client_files (read_handle source (nat sent) (nat (chunk_size ev))) s of
        (Inl e, t) \<Rightarrow> (Inl e, t)
      | (Inr [], t) \<Rightarrow> (Inr (sent, hashed), t)
      | (Inr (b # bs), t) \<Rightarrow>
          if sent + int (length (b # bs)) > total_size then
            close_raise (SessionError (lit ''local upload source grew while being read; session aborted'')) t
          else
            (case send_chunk ev sent (b # bs) t of
               (Inl e, u) \<Rightarrow> (Inl e, u)
             | (Inr _, u) \<Rightarrow> send_chunks ev source total_size (sent + int (length (b # bs))) (hashed @ b # bs) u))"
  by pat_completeness auto
termination
  by (relation "measure (\<lambda>(ev, source, total_size, sent, hashed, s). nat (total_size - sent))") auto

declare send_chunks.simps [simp del]

definition upload_stream ::
  "environment \<Rightarrow> path \<Rightarrow> pystr \<Rightarrow> int \<Rightarrow> (int \<times> byte list) client_action" where
  "upload_stream ev source filename total_size =
     bindS (readS cl_user_id) (\<lambda>user_id.
     bindS (liftS (make_file_upload_frame
       \<lparr>fu_filename = filename, fu_total_size = total_size, fu_start_offset = 0\<rparr> (max_payload ev) user_id)) (\<lambda>request.
     bindS (client_send ev request) (\<lambda>_.
     bindS (expect_ack ev FILE_UPLOAD None) (\<lambda>resume_offset.
     if resume_offset > total_size then
       close_raise (SessionError (lit ''server returned resume_offset '' @ dec_int resume_offset
         @ lit '' greater than total_size '' @ dec_int total_size))
     else
       bindS (hash_prefix ev source (nat resume_offset) []) (\<lambda>hashed.
       send_chunks ev source total_size resume_offset hashed)))))"

definition upload_file :: "environment \<Rightarrow> path \<Rightarrow> pystr option \<Rightarrow> client_upload_result client_action" where
  "upload_file ev source remote_filename =
     bindS (readS (\<lambda>s. is_symlink (cl_files s) source)) (\<lambda>link.
     if link then
       raiseS (FileNotFoundError (lit ''local upload source must not be a symlink: '' @ path_text source))
     else
       bindS (on_client_files (open_existing source)) (\<lambda>source_file.
       bindS (on_client_files (fstat_size source_file)) (\<lambda>total_size.
       let filename = (case remote_filename of None \<Rightarrow> path_name source | Some name \<Rightarrow> name) in
       bindS
         (tryS (upload_stream ev source_file filename total_size)
           (\<lambda>error.
              if is_os_error error then
                close_raise (SessionError (lit ''local upload read failed: '' @ exc_text error))
              else raiseS error)) (\<lambda>(sent, hashed).
       if sent \<noteq> total_size then
         close_raise (SessionError (lit ''local upload source shrank while being read; session aborted''))
       else
         let checksum = ev_sha256 ev hashed in
         bindS (readS cl_user_id) (\<lambda>user_id.
         bindS (liftS (make_file_checksum_frame
           \<lparr>fk_final_size = sent, fk_sha256_digest = checksum\<rparr> (max_payload ev) user_id)) (\<lambda>fr.
         bindS (client_send ev fr) (\<lambda>_.
         bindS (expect_ack ev FILE_CHECKSUM (Some sent)) (\<lambda>_.
         returnS \<lparr>cu_source = source, cu_remote_filename = filename, cu_bytes_sent = sent,
           cu_sha256_digest = checksum\<rparr>))))))))"

end
