(* ===== verification/ClientDownload.thy ===== *)
theory ClientDownload
  imports ClientTransfers
begin

section \<open>The client's DOWNLOAD\<close>

text \<open>
  \<open>src/hcmus_socket/client/download.py\<close>.  The bytes fed to \<open>hashlib.sha256()\<close> are kept as a
  list; the progress callbacks are left out; a write reaches the file at once, so the error a
  buffered write delays is that of \<open>append_handle\<close> or \<open>flush_handle\<close>.
\<close>

record client_download_result =
  cd_path :: path
  cd_bytes_received :: int
  cd_sha256_digest :: "byte list"

text \<open>The receiver's variables: the bytes counted, and the bytes fed to the digest.\<close>

record download_progress =
  dp_received :: int
  dp_hashed :: "byte list"

subsection \<open>Reporting\<close>

definition remove_stale_part :: "path \<Rightarrow> unit client_action" where
  "remove_stale_part part =
     tryS (on_client_files (unlink True part))
       (\<lambda>error.
          if is_os_error error then
            raiseS (protocol_error FILE_IO_ERROR
              (lit ''cannot remove stale partial download '' @ path_text part @ lit '': '' @ exc_text error))
          else raiseS error)"

definition raise_remote_error :: "environment \<Rightarrow> frame \<Rightarrow> 'a client_action" where
  "raise_remote_error ev fr =
     bindS (liftS (parse_error fr (max_payload ev))) (\<lambda>error.
     raiseS (protocol_error (em_error_code error) (lit ''server: '' @ em_message error)))"

definition send_failure :: "environment \<Rightarrow> opcode \<Rightarrow> error_code \<Rightarrow> pystr \<Rightarrow> unit client_action" where
  "send_failure ev failed_opcode code message =
     bindS (readS cl_user_id) (\<lambda>user_id.
     bindS (liftS (make_error_frame
       \<lparr>em_failed_opcode = Known failed_opcode, em_error_code = code, em_message = message\<rparr>
       (max_payload ev) user_id))
       (client_send ev))"

text \<open>\<open>_send_failure(...)\<close> followed by \<open>raise ProtocolError(...)\<close> with the same code and text.\<close>

definition refuse :: "environment \<Rightarrow> opcode \<Rightarrow> error_code \<Rightarrow> pystr \<Rightarrow> 'a client_action" where
  "refuse ev failed_opcode code message =
     bindS (send_failure ev failed_opcode code message) (\<lambda>_. raiseS (protocol_error code message))"

definition raise_local_failure :: "environment \<Rightarrow> opcode \<Rightarrow> exc \<Rightarrow> bool \<Rightarrow> 'a client_action" where
  "raise_local_failure ev failed_opcode error fatal =
     (let code = (if is_permission_error error then ACCESS_DENIED else FILE_IO_ERROR);
          message = lit ''local file operation failed: '' @ exc_text error in
      bindS
        (tryS (send_failure ev failed_opcode code message)
          (\<lambda>send_error.
             if is_connection_error send_error \<or> is_timeout_error send_error then
               close_raise (SessionError (lit ''connection failed while reporting local file error''))
             else raiseS send_error)) (\<lambda>_.
      if fatal then close_raise (SessionError message)
      else raiseS (protocol_error code message)))"

text \<open>\<open>try: act\<close>, \<open>except OSError as error: _raise_local_failure(...)\<close>\<close>

definition local_step :: "environment \<Rightarrow> opcode \<Rightarrow> bool \<Rightarrow> 'a fs_action \<Rightarrow> 'a client_action" where
  "local_step ev failed_opcode fatal act =
     tryS (on_client_files act)
       (\<lambda>error. if is_os_error error then raise_local_failure ev failed_opcode error fatal else raiseS error)"

definition send_download_ack :: "environment \<Rightarrow> opcode \<Rightarrow> int \<Rightarrow> unit client_action" where
  "send_download_ack ev acknowledged next_offset =
     bindS (readS cl_user_id) (\<lambda>user_id.
     bindS (liftS (make_acknowledgement_frame
       \<lparr>ak_acknowledged_opcode = acknowledged, ak_next_offset = next_offset\<rparr> (max_payload ev) user_id))
       (client_send ev))"

subsection \<open>The request and the offer\<close>

definition resume_offset :: "path \<Rightarrow> int client_action" where
  "resume_offset part =
     bindS (readS (\<lambda>s. path_exists (cl_files s) part)) (\<lambda>exists.
     if \<not> exists then returnS 0
     else tryS (bindS (on_client_files (stat_size part)) (\<lambda>n. returnS (int n)))
       (\<lambda>error. if is_os_error error then returnS 0 else raiseS error))"

definition request_download :: "environment \<Rightarrow> pystr \<Rightarrow> int \<Rightarrow> file_info client_action" where
  "request_download ev filename offset =
     bindS (readS cl_user_id) (\<lambda>user_id.
     bindS (liftS (make_file_download_frame
       \<lparr>fd_filename = filename, fd_requested_offset = offset\<rparr> (max_payload ev) user_id)) (\<lambda>request.
     bindS (client_send ev request) (\<lambda>_.
     bindS (client_receive ev) (\<lambda>first.
     if fr_opcode first = ERROR then raise_remote_error ev first
     else
       bindS (liftS (parse_file_info first (max_payload ev))) (\<lambda>info.
       if fi_filename info \<noteq> filename then
         refuse ev FILE_INFO INVALID_PAYLOAD (lit ''FILE_INFO filename does not match the requested filename'')
       else returnS info)))))"

text \<open>The bytes of the part file that are kept, fed to the digest.\<close>

definition EXISTING_READ_SIZE :: nat where "EXISTING_READ_SIZE = 65536"

function hash_existing :: "path \<Rightarrow> nat \<Rightarrow> byte list \<Rightarrow> byte list fs_action" where
  "hash_existing existing start_offset hashed fs =
     (if start_offset \<le> length hashed then (Inr hashed, fs)
      else
        case read_handle existing (length hashed) (min EXISTING_READ_SIZE (start_offset - length hashed)) fs of
          (Inl e, fs') \<Rightarrow> (Inl e, fs')
        | (Inr [], fs') \<Rightarrow> (Inr hashed, fs')
        | (Inr (b # bs), fs') \<Rightarrow> hash_existing existing start_offset (hashed @ b # bs) fs')"
  by pat_completeness auto
termination
  by (relation "measure (\<lambda>(existing, start_offset, hashed, fs). start_offset - length hashed)") auto

declare hash_existing.simps [simp del]

definition hash_part :: "environment \<Rightarrow> path \<Rightarrow> int \<Rightarrow> byte list client_action" where
  "hash_part ev part start_offset =
     bindS (readS (\<lambda>s. path_exists (cl_files s) part)) (\<lambda>exists.
     if 0 < start_offset \<and> exists then
       tryS (on_client_files (bindS (open_existing part) (\<lambda>existing.
           hash_existing existing (nat start_offset) [])))
         (\<lambda>error.
            if is_os_error error then
              bindS (remove_stale_part part) (\<lambda>_. raise_local_failure ev FILE_INFO error False)
            else raiseS error)
     else returnS [])"

subsection \<open>The body of the transfer\<close>

definition download_chunk ::
  "environment \<Rightarrow> file_info \<Rightarrow> path \<Rightarrow> download_progress \<Rightarrow> frame \<Rightarrow> download_progress client_action" where
  "download_chunk ev info part_file progress fr =
     bindS (liftS (parse_file_chunk fr (chunk_size ev) (max_payload ev))) (\<lambda>chunk.
     let received = dp_received progress in
     if fc_offset chunk \<noteq> received then
       refuse ev FILE_CHUNK OFFSET_MISMATCH
         (lit ''expected chunk offset '' @ dec_int received @ lit '', got '' @ dec_int (fc_offset chunk))
     else if received + int (length (fc_data chunk)) > fi_total_size info then
       refuse ev FILE_CHUNK SIZE_MISMATCH (lit ''chunk data exceeds the advertised file size'')
     else
       bindS (local_step ev FILE_CHUNK True (append_handle part_file (fc_data chunk))) (\<lambda>_.
       returnS \<lparr>dp_received = received + int (length (fc_data chunk)),
         dp_hashed = dp_hashed progress @ fc_data chunk\<rparr>))"

definition download_checksum ::
  "environment \<Rightarrow> file_info \<Rightarrow> path \<Rightarrow> download_progress \<Rightarrow> frame \<Rightarrow> byte list client_action" where
  "download_checksum ev info part_file progress fr =
     bindS (liftS (parse_file_checksum fr (max_payload ev))) (\<lambda>checksum.
     let actual_digest = ev_sha256 ev (dp_hashed progress) in
     if fk_final_size checksum \<noteq> fi_total_size info \<or> dp_received progress \<noteq> fi_total_size info then
       refuse ev FILE_CHECKSUM SIZE_MISMATCH (lit ''download size does not match FILE_INFO/FILE_CHECKSUM'')
     else if fk_sha256_digest checksum \<noteq> actual_digest then
       refuse ev FILE_CHECKSUM CHECKSUM_MISMATCH (lit ''download SHA-256 does not match'')
     else
       bindS (on_client_files (flush_handle part_file)) (\<lambda>_.
       bindS (local_step ev FILE_CHECKSUM False (flush_handle part_file)) (\<lambda>_.
       returnS actual_digest)))"

text \<open>One turn of the loop: a chunk continues it, the checksum ends it.\<close>

definition download_turn ::
  "environment \<Rightarrow> file_info \<Rightarrow> path \<Rightarrow> download_progress \<Rightarrow> frame \<Rightarrow> (byte list, download_progress) flow client_action" where
  "download_turn ev info part_file progress fr =
     (if fr_opcode fr = ERROR then raise_remote_error ev fr
      else if fr_opcode fr = FILE_CHUNK then
        bindS (download_chunk ev info part_file progress fr) (\<lambda>later. returnS (Proceed later))
      else if fr_opcode fr \<noteq> FILE_CHECKSUM then
        refuse ev (fr_opcode fr) INVALID_STATE
          (lit ''unexpected '' @ opcode_name (fr_opcode fr) @ lit '' during DOWNLOAD'')
      else
        bindS (download_checksum ev info part_file progress fr) (\<lambda>digest. returnS (Return digest)))"

lemma on_client_files_apply:
  "on_client_files act s = (case act (cl_files s) of (r, fs) \<Rightarrow> (r, s\<lparr>cl_files := fs\<rparr>))"
  by (simp add: on_client_files_def partS_def)

text \<open>The loop ends: each turn takes a frame from the stream, and nothing puts bytes back.\<close>

definition unread_step :: "client \<Rightarrow> client \<Rightarrow> bool" where
  "unread_step s t \<longleftrightarrow> length (pending (cl_socket t)) \<le> length (pending (cl_socket s))"

interpretation unread: step_relation unread_step
  by unfold_locales (auto simp: unread_step_def)

lemma unread_files: "unread.keeps (on_client_files act)"
  by (rule unread.keepsI) (auto simp: on_client_files_apply unread_step_def split: prod.splits)

lemma unread_close: "unread.keeps (close_raise e)"
  by (rule unread.keepsI) (auto simp: unread_step_def)

lemma unread_with_socket:
  assumes "\<And>k r k'. act k = (r, k') \<Longrightarrow> length (pending k') \<le> length (pending k)"
  shows "unread.keeps (with_socket act)"
  by (rule unread.keepsI)
    (auto simp: with_socket_def bindS_def readS_def partS_def unread_step_def dest: assms split: prod.splits if_splits)

lemma unread_send: "unread.keeps (client_send ev fr)"
  unfolding client_send_def
  by (intro unread.keep_intros unread_close unread_with_socket)
    (auto dest: send_frame_inbound simp: pending_def)

lemmas unread_intros = unread.keep_intros unread_files unread_close unread_send

lemma unread_turn: "unread.keeps (download_turn ev info part_file progress fr)"
  unfolding download_turn_def download_chunk_def download_checksum_def raise_remote_error_def refuse_def send_failure_def
    local_step_def raise_local_failure_def Let_def
  by (intro unread_intros)

lemma client_receive_progress:
  assumes "client_receive ev s = (Inr fr, t)"
  shows "length (pending (cl_socket t)) < length (pending (cl_socket s)) \<and> wf_frame (max_payload ev) fr"
proof -
  obtain k where k: "receive_frame (max_payload ev) (cl_socket s) = (Inr (Some fr), k)"
    and v: "validate_incoming_user_id ev fr (s\<lparr>cl_socket := k\<rparr>) = (Inr (), t)"
    using client_receive_Inr [OF assms] by blast
  have "cl_socket t = k" using validate_incoming_Inr [OF v] by auto
  then show ?thesis using receive_frame_progress [OF k] by simp
qed

function receive_download ::
  "environment \<Rightarrow> file_info \<Rightarrow> path \<Rightarrow> download_progress \<Rightarrow> (download_progress \<times> byte list) client_action" where
  "receive_download ev info part_file progress s =
     (case client_receive ev s of
        (Inl e, t) \<Rightarrow> (Inl e, t)
      | (Inr fr, t) \<Rightarrow>
          (case download_turn ev info part_file progress fr t of
             (Inl e, u) \<Rightarrow> (Inl e, u)
           | (Inr (Return digest), u) \<Rightarrow> (Inr (progress, digest), u)
           | (Inr (Proceed later), u) \<Rightarrow> receive_download ev info part_file later u))"
  by pat_completeness auto
termination
  by (relation "measure (\<lambda>(ev, info, part_file, progress, s). length (pending (cl_socket s)))")
    (auto simp: unread_step_def dest!: client_receive_progress [OF sym] unread.keepsD [OF unread_turn, OF sym])

declare receive_download.simps [simp del]

subsection \<open>\<open>download_file\<close>\<close>

definition publish_download :: "environment \<Rightarrow> path \<Rightarrow> path \<Rightarrow> unit client_action" where
  "publish_download ev part final =
     local_step ev FILE_CHECKSUM False (bindS (hard_link part final) (\<lambda>_. unlink True part))"

text \<open>Everything inside the outer \<open>try\<close>.\<close>

definition prepare_part :: "environment \<Rightarrow> path \<Rightarrow> path \<Rightarrow> int \<Rightarrow> int \<Rightarrow> (byte list \<times> path) client_action" where
  "prepare_part ev final part offset start_offset =
     bindS (readS (\<lambda>s. path_exists (cl_files s) part)) (\<lambda>exists.
     bindS (if start_offset \<noteq> offset \<and> start_offset = 0 \<and> exists then remove_stale_part part else returnS ()) (\<lambda>_.
     bindS (local_step ev FILE_INFO False (mkdir_parents (parent final))) (\<lambda>_.
     bindS (hash_part ev part start_offset) (\<lambda>hashed.
     bindS (local_step ev FILE_INFO False (open_appending part)) (\<lambda>part_file.
     returnS (hashed, part_file))))))"

definition download_body ::
  "environment \<Rightarrow> pystr \<Rightarrow> path \<Rightarrow> path \<Rightarrow> client_download_result client_action" where
  "download_body ev filename final part =
     bindS (resume_offset part) (\<lambda>offset.
     bindS (request_download ev filename offset) (\<lambda>info.
     let start_offset = fi_start_offset info in
     bindS (prepare_part ev final part offset start_offset) (\<lambda>(hashed, part_file).
     bindS (send_download_ack ev FILE_INFO start_offset) (\<lambda>_.
     bindS (receive_download ev info part_file \<lparr>dp_received = start_offset, dp_hashed = hashed\<rparr>) (\<lambda>(progress, digest).
     bindS (publish_download ev part final) (\<lambda>_.
     bindS (send_download_ack ev FILE_CHECKSUM (dp_received progress)) (\<lambda>_.
     returnS \<lparr>cd_path = final, cd_bytes_received = dp_received progress, cd_sha256_digest = digest\<rparr>)))))))"

definition final_path :: "environment \<Rightarrow> pystr \<Rightarrow> path option \<Rightarrow> path" where
  "final_path ev filename destination =
     (case destination of
        Some p \<Rightarrow> p
      | None \<Rightarrow> to_path (cc_download_directory (cf_client (ev_config ev))) filename)"

definition part_path :: "path \<Rightarrow> path" where
  "part_path final = with_name final (path_name final @ lit ''.part'')"

definition download_file ::
  "environment \<Rightarrow> pystr \<Rightarrow> path option \<Rightarrow> client_download_result client_action" where
  "download_file ev filename destination =
     (let final = final_path ev filename destination; part = part_path final in
      if final = [] then raiseS (ValueError (lit ''the path has an empty name''))
      else
        bindS (readS (\<lambda>s. path_exists (cl_files s) final)) (\<lambda>exists.
        if exists then
          raiseS (protocol_error FILE_EXISTS (lit ''local destination already exists: '' @ path_text final))
        else
          tryS (download_body ev filename final part)
            (\<lambda>error.
               if is_protocol_error error then bindS (remove_stale_part part) (\<lambda>_. raiseS error)
               else raiseS error)))"

end
