(* ===== verification/ClientDownloadSafety.thy ===== *)
theory ClientDownloadSafety
  imports ClientDownload FileSteps DownloadSafety
begin

section \<open>What the client's download publishes\<close>

subsection \<open>Bytes sent and received\<close>

text \<open>
  From \<open>s\<close> to \<open>t\<close> an authenticated client has sent \<open>out\<close> and, on a connection that
  delivers its bytes, taken \<open>inp\<close> from the stream.
\<close>

definition exchanged :: "client \<Rightarrow> byte list \<Rightarrow> byte list \<Rightarrow> client \<Rightarrow> bool" where
  "exchanged s out inp t \<longleftrightarrow> cl_authenticated s \<and> cl_authenticated t \<and> cl_user_id t = cl_user_id s
     \<and> outbound (cl_socket t) = outbound (cl_socket s) @ out
     \<and> (delivers (cl_socket s) \<longrightarrow> delivers (cl_socket t) \<and> pending (cl_socket s) = inp @ pending (cl_socket t))"

lemma exchanged_trans: "exchanged s o1 i1 t \<Longrightarrow> exchanged t o2 i2 u \<Longrightarrow> exchanged s (o1 @ o2) (i1 @ i2) u"
  by (auto simp: exchanged_def)

lemma exchanged_authenticated: "exchanged s out inp t \<Longrightarrow> cl_authenticated t \<and> cl_user_id t = cl_user_id s"
  by (simp add: exchanged_def)

lemma exchanged_refl: "cl_authenticated s \<Longrightarrow> exchanged s [] [] s"
  by (simp add: exchanged_def)

lemma exchanged_send:
  assumes "client_send ev fr s = (Inr (), t)" "cl_authenticated s"
  shows "exchanged s (frame_bytes fr) [] t \<and> cl_files t = cl_files s"
  using client_send_Inr [OF assms(1)] assms(2)
  by (auto simp: exchanged_def delivers_def pending_def dest: serialize_is_frame_bytes)

lemma exchanged_receive:
  assumes "client_receive ev s = (Inr fr, t)" "cl_authenticated s"
  shows "exchanged s [] (frame_bytes fr) t \<and> cl_files t = cl_files s \<and> fr_user_id fr = cl_user_id s
    \<and> wf_frame (max_payload ev) fr"
proof -
  obtain k where k: "receive_frame (max_payload ev) (cl_socket s) = (Inr (Some fr), k)"
    and v: "validate_incoming_user_id ev fr (s\<lparr>cl_socket := k\<rparr>) = (Inr (), t)"
    using client_receive_Inr [OF assms(1)] by blast
  have "t = s\<lparr>cl_socket := k\<rparr> \<and> fr_user_id fr = cl_user_id s"
    using validate_incoming_Inr [OF v] assms(2) by auto
  then show ?thesis
    using receive_frame_pending [OF k] assms(2) client_receive_progress [OF assms(1)]
    by (auto simp: exchanged_def)
qed

lemma exchanged_files:
  "on_client_files act s = (r, t) \<Longrightarrow> cl_authenticated s \<Longrightarrow> exchanged s [] [] t \<and> act (cl_files s) = (r, cl_files t)"
  by (auto simp: on_client_files_apply exchanged_def split: prod.splits)

subsection \<open>Steps that only return when nothing went wrong\<close>

lemma never_returns:
  "raise_local_failure ev op e fatal s \<noteq> (Inr v, t)" "refuse ev op code message s \<noteq> (Inr v, t)"
  "raise_remote_error ev fr s \<noteq> (Inr v, t)"
  by (auto simp: raise_local_failure_def refuse_def raise_remote_error_def Let_def bindS_def tryS_def
      split: prod.splits sum.splits if_splits)

lemma local_step_Inr: "local_step ev op fatal act s = (Inr v, t) \<longleftrightarrow> on_client_files act s = (Inr v, t)"
  by (auto simp: local_step_def tryS_def never_returns split: prod.splits sum.splits if_splits)

lemma download_ack_Inr:
  assumes "send_download_ack ev op n s = (Inr u, t)" "cl_authenticated s"
  shows "\<exists>fr. make_acknowledgement_frame \<lparr>ak_acknowledged_opcode = op, ak_next_offset = n\<rparr> (max_payload ev) (cl_user_id s) = Inr fr
    \<and> exchanged s (frame_bytes fr) [] t \<and> cl_files t = cl_files s"
  using assms by (auto simp: send_download_ack_def state_simps dest!: exchanged_send)

subsection \<open>The chunks\<close>

lemma parse_chunk_frame:
  "wf_frame mx fr \<Longrightarrow> parse_file_chunk fr n mx = Inr m \<Longrightarrow> fr = chunk_frame (fr_user_id fr) (fc_offset m) (fc_data m)"
  using chunk.parse_iff_make [of mx fr n m] make_chunk_frame [of "fc_offset m" "fc_data m" n mx "fr_user_id fr" fr]
  by (cases m) simp

definition checksum_message :: "int \<Rightarrow> int \<Rightarrow> byte list \<Rightarrow> frame" where
  "checksum_message user_id length_sent digest =
     \<lparr>fr_opcode = FILE_CHECKSUM, fr_payload = pack_uint 8 length_sent @ digest, fr_user_id = user_id\<rparr>"

lemma parse_checksum_frame:
  "wf_frame mx fr \<Longrightarrow> parse_file_checksum fr mx = Inr m \<Longrightarrow>
     fr = checksum_message (fr_user_id fr) (fk_final_size m) (fk_sha256_digest m)"
  using checksum.parse_Inr [of mx fr m] by (cases fr) (simp add: checksum_message_def checksum_body_def)

lemma append_handle_Inr:
  assumes "append_handle q new fs = (Inr u, fs')"
  shows "spares {q} fs fs' \<and> (\<exists>tm. node_at fs' q = Some (RegularFile (file_data fs q @ new) tm))"
  using assms unfolding append_handle_def
proof (cases rule: os_callE)
  case (fault f)
  then show ?thesis by simp
next
  case (run fs1)
  have "spares {q} fs1 fs'" using run(2) by (auto simp: spares_set)
  then show ?thesis
    using run spares_after [OF run(1)] by (auto simp: lookup_same_nodes(7) [OF run(1)])
qed

definition piece_ok :: "environment \<Rightarrow> byte list \<Rightarrow> bool" where
  "piece_ok ev piece \<longleftrightarrow> piece \<noteq> [] \<and> int (length piece) \<le> chunk_size ev"

lemma download_chunk_Inr:
  assumes "download_chunk ev info q progress fr s = (Inr later, t)" "cl_authenticated s" "wf_frame (max_payload ev) fr"
  shows "\<exists>piece tm. fr = chunk_frame (fr_user_id fr) (dp_received progress) piece \<and> exchanged s [] [] t
    \<and> piece_ok ev piece
    \<and> later = \<lparr>dp_received = dp_received progress + int (length piece), dp_hashed = dp_hashed progress @ piece\<rparr>
    \<and> spares {q} (cl_files s) (cl_files t)
    \<and> node_at (cl_files t) q = Some (RegularFile (file_data (cl_files s) q @ piece) tm)"
proof -
  obtain m where m: "parse_file_chunk fr (chunk_size ev) (max_payload ev) = Inr m" "fc_offset m = dp_received progress"
    and ap: "on_client_files (append_handle q (fc_data m)) s = (Inr (), t)"
    and l: "later = \<lparr>dp_received = dp_received progress + int (length (fc_data m)), dp_hashed = dp_hashed progress @ fc_data m\<rparr>"
    using assms(1) by (auto simp: download_chunk_def Let_def bindS_eq_Inr local_step_Inr never_returns split: if_splits)
  have "fr = chunk_frame (fr_user_id fr) (dp_received progress) (fc_data m)"
    using parse_chunk_frame [OF assms(3) m(1)] m(2) by simp
  moreover have "piece_ok ev (fc_data m)"
    using chunk.parse_Inr [OF assms(3)] m(1) by (simp add: chunk_body_def piece_ok_def)
  ultimately show ?thesis using exchanged_files [OF ap assms(2)] l by (auto dest!: append_handle_Inr)
qed

lemma flush_handle_same: "flush_handle q fs = (r, fs') \<Longrightarrow> same_nodes fs fs'"
  unfolding flush_handle_def by (auto elim!: os_callE)

lemma download_checksum_Inr:
  assumes "download_checksum ev info q progress fr s = (Inr digest, t)" "cl_authenticated s" "wf_frame (max_payload ev) fr"
  shows "fr = checksum_message (fr_user_id fr) (fi_total_size info) digest \<and> exchanged s [] [] t
    \<and> digest = ev_sha256 ev (dp_hashed progress) \<and> dp_received progress = fi_total_size info
    \<and> same_nodes (cl_files s) (cl_files t)"
proof -
  obtain m s1 where m: "parse_file_checksum fr (max_payload ev) = Inr m" "fk_final_size m = fi_total_size info"
      "dp_received progress = fi_total_size info" "fk_sha256_digest m = digest" "digest = ev_sha256 ev (dp_hashed progress)"
    and fl: "on_client_files (flush_handle q) s = (Inr (), s1)" "on_client_files (flush_handle q) s1 = (Inr (), t)"
    using assms(1) by (auto simp: download_checksum_def Let_def bindS_eq_Inr local_step_Inr never_returns split: if_splits)
  note e1 = exchanged_files [OF fl(1) assms(2)]
  with exchanged_files [OF fl(2)] have e2: "exchanged s1 [] [] t" "flush_handle q (cl_files s1) = (Inr (), cl_files t)"
    by (auto simp: exchanged_def)
  have "same_nodes (cl_files s) (cl_files t)"
    using flush_handle_same [of q "cl_files s"] flush_handle_same [OF e2(2)] e1
    by (auto simp: same_nodes_def intro: only_changes_trans)
  then show ?thesis
    using m parse_checksum_frame [OF assms(3) m(1)] exchanged_trans [of s "[]" "[]" s1 "[]" "[]" t] e1 e2 by simp
qed

text \<open>
  What the loop leaves behind: the pieces received are appended to the part file and to the
  hashed bytes, and the digest the server announced is that of the hashed bytes.
\<close>

lemma receive_download_Inr:
  assumes "receive_download ev info q progress s = (Inr (final, digest), t)"
    and "cl_authenticated s" "node_at (cl_files s) q = Some (RegularFile d tm)"
  shows "\<exists>pieces tm'. exchanged s [] (chunk_wire (cl_user_id s) (dp_received progress) pieces
        @ frame_bytes (checksum_message (cl_user_id s) (fi_total_size info) digest)) t
    \<and> dp_received final = dp_received progress + int (length (concat pieces)) \<and> dp_received final = fi_total_size info
    \<and> digest = ev_sha256 ev (dp_hashed progress @ concat pieces) \<and> list_all (piece_ok ev) pieces
    \<and> wf_frame (max_payload ev) (checksum_message (cl_user_id s) (fi_total_size info) digest)
    \<and> spares {q} (cl_files s) (cl_files t) \<and> node_at (cl_files t) q = Some (RegularFile (d @ concat pieces) tm')"
  using assms
proof (induction ev info q progress s arbitrary: d tm rule: receive_download.induct)
  case (1 ev info q progress s)
  obtain fr s1 where rc: "client_receive ev s = (Inr fr, s1)"
    using "1.prems"(1) by (auto simp: receive_download.simps [of _ _ _ _ s] split: prod.splits sum.splits)
  note e1 = exchanged_receive [OF rc "1.prems"(2)]
  have a1: "cl_authenticated s1" "fr_user_id fr = cl_user_id s" "cl_files s1 = cl_files s" "wf_frame (max_payload ev) fr"
    using e1 by (auto simp: exchanged_def)
  obtain x s2 where tr: "download_turn ev info q progress fr s1 = (Inr x, s2)"
    and rest: "case x of Return dg \<Rightarrow> final = progress \<and> digest = dg \<and> t = s2
      | Proceed later \<Rightarrow> receive_download ev info q later s2 = (Inr (final, digest), t)"
    using "1.prems"(1) rc by (auto simp: receive_download.simps [of _ _ _ _ s] split: prod.splits sum.splits flow.splits)
  show ?case
  proof (cases x)
    case (Return dg)
    then have "download_checksum ev info q progress fr s1 = (Inr digest, t)" "final = progress"
      using tr rest by (auto simp: download_turn_def bindS_eq_Inr never_returns split: if_splits)
    with download_checksum_Inr [OF this(1) a1(1,4)] a1 exchanged_trans [of s "[]" "frame_bytes fr" s1 "[]" "[]" t] e1
      "1.prems"(3)
    show ?thesis by (intro exI [of _ "[]"] exI [of _ tm]) (auto simp: spares_same same_nodes_at)
  next
    case (Proceed later)
    then have ch: "download_chunk ev info q progress fr s1 = (Inr later, s2)"
      and more: "receive_download ev info q later s2 = (Inr (final, digest), t)"
      using tr rest by (auto simp: download_turn_def bindS_eq_Inr never_returns split: if_splits)
    obtain piece tm1 where c: "fr = chunk_frame (cl_user_id s) (dp_received progress) piece" "exchanged s1 [] [] s2"
      "later = \<lparr>dp_received = dp_received progress + int (length piece), dp_hashed = dp_hashed progress @ piece\<rparr>" "piece_ok ev piece"
      "spares {q} (cl_files s) (cl_files s2)" "node_at (cl_files s2) q = Some (RegularFile (d @ piece) tm1)"
      using download_chunk_Inr [OF ch a1(1,4)] a1(2,3) "1.prems"(3) by (auto simp: file_data_def)
    have e2: "exchanged s [] (frame_bytes fr) s2" using e1 exchanged_trans [OF _ c(2)] by fastforce
    note a2 = exchanged_authenticated [OF e2]
    from "1.IH" [OF rc [symmetric] refl tr [symmetric] _ Proceed more _ c(6)] a2 obtain pieces tm' where
      r: "exchanged s2 [] (chunk_wire (cl_user_id s) (dp_received later) pieces
        @ frame_bytes (checksum_message (cl_user_id s) (fi_total_size info) digest)) t"
      "dp_received final = dp_received later + int (length (concat pieces))" "dp_received final = fi_total_size info"
      "digest = ev_sha256 ev (dp_hashed later @ concat pieces)" "list_all (piece_ok ev) pieces"
      "wf_frame (max_payload ev) (checksum_message (cl_user_id s) (fi_total_size info) digest)" "spares {q} (cl_files s2) (cl_files t)"
      "node_at (cl_files t) q = Some (RegularFile ((d @ piece) @ concat pieces) tm')" by auto
    show ?thesis
      using r c exchanged_trans [OF e2 r(1)] sparing.R_trans [OF c(5) r(7)]
      by (intro exI [of _ "piece # pieces"] exI [of _ tm']) simp
  qed
qed

subsection \<open>Before and after the transfer\<close>

lemma taken_prefix: "xs = take k ys \<Longrightarrow> xs = take (length xs) ys"
  by (cases "k \<le> length ys") (simp_all add: min_def)

lemma hash_existing_Inr:
  "hash_existing q n hashed fs = (Inr h, fs') \<Longrightarrow> hashed = take (length hashed) (file_data fs q) \<Longrightarrow> length hashed \<le> n \<Longrightarrow>
     h = take n (file_data fs q) \<and> same_nodes fs fs'"
proof (induction q n hashed fs rule: hash_existing.induct)
  case (1 q n hashed fs)
  show ?case
  proof (cases "n \<le> length hashed")
    case True
    then have "hash_existing q n hashed fs = (Inr hashed, fs)" by (simp add: hash_existing.simps)
    then show ?thesis using "1.prems" True by auto
  next
    case False
    let ?m = "min EXISTING_READ_SIZE (n - length hashed)"
    obtain data fs1 where rd: "read_handle q (length hashed) ?m fs = (Inr data, fs1)"
      using "1.prems"(1) False by (auto simp: hash_existing.simps [of q n] split: prod.splits sum.splits)
    note r = read_handle_Inr [OF rd]
    have m: "0 < ?m" using False by (simp add: EXISTING_READ_SIZE_def)
    show ?thesis
    proof (cases data)
      case Nil
      then have "length (file_data fs q) \<le> length hashed" using r m by auto
      then have "take n (file_data fs q) = hashed" using "1.prems"(2,3) by simp
      then show ?thesis using "1.prems"(1) False rd Nil r by (simp add: hash_existing.simps [of q n])
    next
      case (Cons b bs)
      have d1: "file_data fs1 q = file_data fs q" using lookup_same_nodes(7) r by blast
      have more: "hash_existing q n (hashed @ b # bs) fs1 = (Inr h, fs')"
        using "1.prems"(1) False rd Cons by (simp add: hash_existing.simps [of q n hashed])
      have "take (length hashed + ?m) (file_data fs q) = hashed @ b # bs"
        using r Cons "1.prems"(2) by (simp only: take_add)
      then have "hashed @ b # bs = take (length hashed + ?m) (file_data fs q)" ..
      then have "hashed @ b # bs = take (length (hashed @ b # bs)) (file_data fs1 q)"
        unfolding d1 by (rule taken_prefix)
      moreover have "length (b # bs) \<le> ?m" using r Cons by (metis length_take min.cobounded2)
      then have "length (hashed @ b # bs) \<le> n" using "1.prems"(3) by (auto simp: le_diff_conv2)
      ultimately
      have "h = take n (file_data fs1 q) \<and> same_nodes fs1 fs'"
        by (rule "1.IH" [OF False rd [symmetric] refl Cons more])
      with r d1 show ?thesis by (auto simp: same_nodes_def intro: only_changes_trans)
    qed
  qed
qed

lemma resume_offset_Inr:
  assumes "resume_offset part s = (Inr n, t)" "cl_authenticated s" "canonical (cl_files s) part"
  shows "exchanged s [] [] t \<and> same_nodes (cl_files s) (cl_files t)
    \<and> (n = int (length (file_data (cl_files s) part)) \<or> n = 0 \<and> (\<exists>f later. fs_faults (cl_files s) = Some f # later))"
proof (cases "path_exists (cl_files s) part")
  case False
  then have "file_data (cl_files s) part = []"
    by (simp add: path_exists_def canonical_followed [OF assms(3)] file_data_def)
  with False show ?thesis
    using assms(1,2) by (auto simp: resume_offset_def bindS_def readS_def exchanged_refl)
next
  case True
  obtain q fs where st: "stat_size part (cl_files s) = (q, fs)" by fastforce
  have fol: "followed fs0 part = node_at (cl_files s) part" if "same_nodes (cl_files s) fs0" for fs0
    using lookup_same_nodes(2) [OF that] canonical_followed [OF assms(3)] by simp
  have same: "same_nodes (cl_files s) fs \<and> (q = Inr (length (file_data (cl_files s) part))
      \<or> (\<exists>e f later. q = Inl e \<and> fs_faults (cl_files s) = Some f # later))"
    using st True canonical_followed [OF assms(3)] unfolding stat_size_def os_call_def path_exists_def
    by (auto simp: fol file_data_def split: list.splits option.splits node.splits)
  have q: "is_os_error e" if "q = Inl e" for e
    using st that unfolding stat_size_def by (auto elim!: os_callE split: option.splits node.splits)
  have t: "t = s\<lparr>cl_files := fs\<rparr> \<and> (case q of Inr m \<Rightarrow> n = int m | Inl e \<Rightarrow> n = 0)"
    using assms(1) True st q
    by (auto simp: resume_offset_def bindS_def readS_def tryS_def on_client_files_apply split: sum.splits if_splits)
  then have "exchanged s [] [] t" using assms(2) by (simp add: exchanged_def)
  with t same show ?thesis by auto
qed

lemma request_download_Inr:
  assumes "request_download ev filename offset s = (Inr info, t)"
  shows "\<exists>request offer. make_file_download_frame \<lparr>fd_filename = filename, fd_requested_offset = offset\<rparr> (max_payload ev) (cl_user_id s) = Inr request
    \<and> make_file_info_frame info (max_payload ev) (cl_user_id s) = Inr offer \<and> fi_filename info = filename
    \<and> exchanged s (frame_bytes request) (frame_bytes offer) t \<and> cl_files t = cl_files s"
proof -
  obtain request s1 offer where r: "make_file_download_frame \<lparr>fd_filename = filename, fd_requested_offset = offset\<rparr> (max_payload ev) (cl_user_id s) = Inr request"
    and s1: "client_send ev request s = (Inr (), s1)" and rc: "client_receive ev s1 = (Inr offer, t)"
    and p: "parse_file_info offer (max_payload ev) = Inr info" "fi_filename info = filename"
    using assms by (auto simp: request_download_def bindS_eq_Inr never_returns split: if_splits)
  have "fr_opcode request \<noteq> LOGIN" using download.make_wf [OF r] by simp
  then have auth: "cl_authenticated s"
    using client_send_Inr [OF s1] by (auto simp: validate_outgoing_user_id_def split: if_splits)
  note e1 = exchanged_send [OF s1 auth]
  then have auth1: "cl_authenticated s1" "cl_user_id s1 = cl_user_id s" by (simp_all add: exchanged_def)
  note e2 = exchanged_receive [OF rc auth1(1)]
  then have "make_file_info_frame info (max_payload ev) (cl_user_id s) = Inr offer"
    using info.parse_iff_make p(1) auth1(2) by metis
  with r p(2) e1 e2 exchanged_trans [of s _ _ s1 _ _ t] show ?thesis
    by (intro exI [of _ request] exI [of _ offer]) fastforce
qed

lemma unlink_spares:
  assumes "unlink True p fs = (Inr u, fs')"
  shows "spares {p} fs fs' \<and> node_at fs' p = None"
proof -
  have "spares {p} fs fs'" using assms by (rule sparing.keepsD [OF sparing_unlink, rotated]) simp
  moreover have "node_at fs' p = None" using assms by (rule unlinkE) simp_all
  ultimately show ?thesis ..
qed

lemma remove_stale_part_Inr:
  "remove_stale_part part s = (Inr u, t) \<longleftrightarrow> on_client_files (unlink True part) s = (Inr u, t)"
  by (auto simp: remove_stale_part_def tryS_def split: prod.splits sum.splits)

lemma hash_part_Inr:
  assumes "hash_part ev part start s = (Inr hashed, t)" "cl_authenticated s" "canonical (cl_files s) part" "0 \<le> start"
  shows "hashed = take (nat start) (file_data (cl_files s) part) \<and> exchanged s [] [] t \<and> same_nodes (cl_files s) (cl_files t)"
proof (cases "0 < start \<and> path_exists (cl_files s) part")
  case False
  then have "hashed = [] \<and> t = s" using assms(1) by (auto simp: hash_part_def bindS_def readS_def)
  moreover have "take (nat start) (file_data (cl_files s) part) = []"
    using False assms(4) by (auto simp: path_exists_def canonical_followed [OF assms(3)] file_data_def)
  ultimately show ?thesis using assms(2) by (simp add: exchanged_refl)
next
  case True
  then have "on_client_files (bindS (open_existing part) (\<lambda>existing. hash_existing existing (nat start) [])) s = (Inr hashed, t)"
    using assms(1)
    by (auto simp: hash_part_def bindS_def [of "readS _"] readS_def tryS_def bindS_eq_Inr never_returns split: prod.splits sum.splits if_splits)
  note e = exchanged_files [OF this assms(2)]
  then obtain q fs1 where op: "open_existing part (cl_files s) = (Inr q, fs1)"
    and h: "hash_existing q (nat start) [] fs1 = (Inr hashed, cl_files t)" by (auto simp: bindS_eq_Inr)
  note o = open_existing_canonical [OF op assms(3)]
  have "hashed = take (nat start) (file_data fs1 q) \<and> same_nodes fs1 (cl_files t)"
    using hash_existing_Inr [OF h] by simp
  with o e show ?thesis by (auto simp: lookup_same_nodes(7) [of _ fs1] same_nodes_def intro: only_changes_trans)
qed

text \<open>What is in the part file when it is opened: what was there, or nothing.\<close>

definition kept_part :: "file_system \<Rightarrow> path \<Rightarrow> int \<Rightarrow> int \<Rightarrow> byte list" where
  "kept_part fs part offset start = (if start = 0 \<and> offset \<noteq> 0 then [] else file_data fs part)"

lemma prepare_part_Inr:
  assumes "prepare_part ev final part offset start s = (Inr (hashed, q), t)" "cl_authenticated s"
    and "canonical (cl_files s) part" "0 \<le> start"
  shows "q = part \<and> exchanged s [] [] t \<and> canonical (cl_files t) part
    \<and> (\<exists>tm. node_at (cl_files t) part = Some (RegularFile (kept_part (cl_files s) part offset start) tm))
    \<and> hashed = take (nat start) (kept_part (cl_files s) part offset start) \<and> retains {part} (cl_files s) (cl_files t)"
proof -
  let ?kept = "kept_part (cl_files s) part offset start"
  obtain s1 s2 s3 where
    s1: "(if start \<noteq> offset \<and> start = 0 \<and> path_exists (cl_files s) part then remove_stale_part part else returnS ()) s = (Inr (), s1)"
    and mk: "on_client_files (mkdir_parents (parent final)) s1 = (Inr (), s2)"
    and hp: "hash_part ev part start s2 = (Inr hashed, s3)"
    and op: "on_client_files (open_appending part) s3 = (Inr q, t)"
    using assms(1) by (auto simp: prepare_part_def bindS_eq_Inr local_step_Inr)
  have r1: "exchanged s [] [] s1 \<and> spares {part} (cl_files s) (cl_files s1) \<and> file_data (cl_files s1) part = ?kept"
  proof (cases "start \<noteq> offset \<and> start = 0 \<and> path_exists (cl_files s) part")
    case True
    then have "on_client_files (unlink True part) s = (Inr (), s1)" using s1 by (simp add: remove_stale_part_Inr)
    note e = exchanged_files [OF this assms(2)]
    with True unlink_spares [of part "cl_files s" "()" "cl_files s1"] show ?thesis
      by (auto simp: file_data_def kept_part_def)
  next
    case False
    then have "s1 = s" using s1 by (simp add: if_not_P del: de_Morgan_conj)
    moreover have "file_data (cl_files s) part = ?kept"
      using False by (auto simp: kept_part_def path_exists_def canonical_followed [OF assms(3)] file_data_def)
    ultimately show ?thesis using assms(2) by (simp add: exchanged_refl sparing.R_refl)
  qed
  note a1 = exchanged_authenticated [OF conjunct1 [OF r1]]
  have e2: "exchanged s1 [] [] s2" "mkdir_parents (parent final) (cl_files s1) = (Inr (), cl_files s2)"
    using exchanged_files [OF mk] a1 by auto
  note g = mkdir_parents_grows [OF e2(2)]
  have can2: "canonical (cl_files s2) part"
    using canonical_grows [OF g] canonical_spared [OF _ assms(3)] r1 by blast
  have r3: "hashed = take (nat start) (file_data (cl_files s2) part)" "exchanged s2 [] [] s3" "same_nodes (cl_files s2) (cl_files s3)"
    using hash_part_Inr [OF hp _ can2 assms(4)] exchanged_authenticated [OF e2(1)] by auto
  have e4: "exchanged s3 [] [] t" "open_appending part (cl_files s3) = (Inr q, cl_files t)"
    using exchanged_files [OF op] exchanged_authenticated [OF r3(2)] by auto
  have can3: "canonical (cl_files s3) part" using canonical_spared [OF spares_same [OF r3(3)] can2] .
  note o = open_appending_canonical [OF e4(2) can3]
  have d2: "file_data (cl_files s2) part = file_data (cl_files s1) part"
    using g unfolding grows_def by (elim allE [of _ part]) (auto simp: file_data_def)
  have d3: "file_data (cl_files s3) part = file_data (cl_files s2) part" by (rule lookup_same_nodes(7) [OF r3(3)])
  have "exchanged s [] [] t"
    using exchanged_trans [OF conjunct1 [OF r1] exchanged_trans [OF e2(1) exchanged_trans [OF r3(2) e4(1)]]] by simp
  moreover have "canonical (cl_files t) part" using canonical_spared [OF _ can3] o by blast
  moreover have "retains {part} (cl_files s) (cl_files t)"
    using r1 o retains_grows [OF g, of "{part}"] retains_spares [OF spares_same [OF r3(3), of "{part}"]]
    by (meson retaining.R_trans retains_spares subset_refl)
  ultimately show ?thesis using o r1 r3(1) d2 d3 by auto
qed

lemma publish_download_Inr:
  assumes "publish_download ev part final s = (Inr u, t)" "cl_authenticated s" "part \<noteq> final"
    and "node_at (cl_files s) part = Some (RegularFile d tm)"
  shows "exchanged s [] [] t \<and> node_at (cl_files s) final = None \<and> node_at (cl_files t) final = Some (RegularFile d tm)
    \<and> node_at (cl_files t) part = None \<and> retains {part} (cl_files s) (cl_files t)"
proof -
  have "on_client_files (bindS (hard_link part final) (\<lambda>_. unlink True part)) s = (Inr u, t)"
    using assms(1) by (simp add: publish_download_def local_step_Inr)
  note e = exchanged_files [OF this assms(2)]
  then obtain fs where hl: "hard_link part final (cl_files s) = (Inr (), fs)" and un: "unlink True part fs = (Inr u, cl_files t)"
    by (auto simp: bindS_eq_Inr)
  note l = hard_link_Inr [OF hl assms(4)] and sp = hard_link_spares [OF hl assms(4)]
  note r = unlink_spares [OF un]
  have "node_at fs p = node_at (cl_files s) p" if "node_at (cl_files s) p \<noteq> None" for p
    using that sp l by (cases "p = final") (auto simp: spares_def)
  then have "retains {part} (cl_files s) fs" by (simp add: retains_def)
  then have "retains {part} (cl_files s) (cl_files t)"
    using retains_spares [OF conjunct1 [OF r] subset_refl] by (rule retaining.R_trans)
  with e l r assms(3) show ?thesis by (auto simp: spares_def)
qed

subsection \<open>The whole download\<close>

definition stat_works :: "file_system \<Rightarrow> bool" where
  "stat_works fs \<longleftrightarrow> (case fs_faults fs of Some f # later \<Rightarrow> False | _ \<Rightarrow> True)"

lemma stat_works_iff: "stat_works fs \<longleftrightarrow> (\<forall>f later. fs_faults fs \<noteq> Some f # later)"
  by (auto simp: stat_works_def split: list.splits option.splits)

definition offer_frame :: "environment \<Rightarrow> pystr \<Rightarrow> int \<Rightarrow> int \<Rightarrow> int \<Rightarrow> exc + frame" where
  "offer_frame ev filename total_size start user_id = make_file_info_frame
     \<lparr>fi_filename = filename, fi_total_size = total_size, fi_start_offset = start\<rparr> (max_payload ev) user_id"

lemma download_body_Inr:
  assumes "download_body ev filename final part s = (Inr res, t)" "canonical (cl_files s) part" "part \<noteq> final"
  shows "\<exists>offset start total_size digest request offer ack1 ack2 pieces tm.
    make_file_download_frame \<lparr>fd_filename = filename, fd_requested_offset = offset\<rparr> (max_payload ev) (cl_user_id s) = Inr request
    \<and> offer_frame ev filename total_size start (cl_user_id s) = Inr offer \<and> 0 \<le> start
    \<and> exchanged s (frame_bytes request @ frame_bytes ack1 @ frame_bytes ack2)
        (frame_bytes offer @ chunk_wire (cl_user_id s) start pieces
          @ frame_bytes (checksum_message (cl_user_id s) total_size digest)) t
    \<and> total_size = start + int (length (concat pieces)) \<and> list_all (piece_ok ev) pieces
    \<and> wf_frame (max_payload ev) (checksum_message (cl_user_id s) total_size digest)
    \<and> digest = ev_sha256 ev (take (nat start) (kept_part (cl_files s) part offset start) @ concat pieces)
    \<and> node_at (cl_files s) final = None
    \<and> node_at (cl_files t) final = Some (RegularFile (kept_part (cl_files s) part offset start @ concat pieces) tm)
    \<and> node_at (cl_files t) part = None \<and> retains {part} (cl_files s) (cl_files t)
    \<and> res = \<lparr>cd_path = final, cd_bytes_received = total_size, cd_sha256_digest = digest\<rparr>
    \<and> (offset = int (length (file_data (cl_files s) part)) \<or> offset = 0 \<and> \<not> stat_works (cl_files s))"
proof -
  obtain offset s1 info s2 hashed q s3 s4 progress digest s5 s6 where
    ro: "resume_offset part s = (Inr offset, s1)" and rq: "request_download ev filename offset s1 = (Inr info, s2)"
    and pp: "prepare_part ev final part offset (fi_start_offset info) s2 = (Inr (hashed, q), s3)"
    and k1: "send_download_ack ev FILE_INFO (fi_start_offset info) s3 = (Inr (), s4)"
    and rd: "receive_download ev info q \<lparr>dp_received = fi_start_offset info, dp_hashed = hashed\<rparr> s4 = (Inr (progress, digest), s5)"
    and pu: "publish_download ev part final s5 = (Inr (), s6)"
    and k2: "send_download_ack ev FILE_CHECKSUM (dp_received progress) s6 = (Inr (), t)"
    and res: "res = \<lparr>cd_path = final, cd_bytes_received = dp_received progress, cd_sha256_digest = digest\<rparr>"
    using assms(1) by (auto simp: download_body_def bindS_eq_Inr Let_def split: prod.splits)
  define start where "start = fi_start_offset info"
  define kept where "kept = kept_part (cl_files s) part offset start"
  from request_download_Inr [OF rq] obtain request offer where
    req: "make_file_download_frame \<lparr>fd_filename = filename, fd_requested_offset = offset\<rparr> (max_payload ev) (cl_user_id s1) = Inr request"
    and off: "make_file_info_frame info (max_payload ev) (cl_user_id s1) = Inr offer" "fi_filename info = filename"
    and e2: "exchanged s1 (frame_bytes request) (frame_bytes offer) s2" "cl_files s2 = cl_files s1" by auto
  have auth: "cl_authenticated s" using e2(1) ro
    by (auto simp: exchanged_def resume_offset_def bindS_def readS_def tryS_def on_client_files_apply split: prod.splits sum.splits if_splits)
  note r1 = resume_offset_Inr [OF ro auth assms(2)]
  have same: "same_nodes (cl_files s) (cl_files s2)" using r1 e2(2) by simp
  have uid: "cl_user_id s1 = cl_user_id s" using r1 by (simp add: exchanged_def)
  have "uint_fits 8 start" using off(1) by (auto simp: info.make_Inr info_body_def start_def)
  then have start: "0 \<le> start" by (simp add: uint_fits_def)
  have kept2: "kept_part (cl_files s2) part offset start = kept"
    by (simp add: kept_part_def kept_def lookup_same_nodes(7) [OF same])
  note x2 = exchanged_trans [OF conjunct1 [OF r1] e2(1)]
  note p = prepare_part_Inr [OF pp [folded start_def] conjunct1 [OF exchanged_authenticated [OF x2]]
      canonical_spared [OF spares_same [OF same] assms(2)] start, unfolded kept2]
  note x3 = exchanged_trans [OF x2 conjunct1 [OF conjunct2 [OF p]]]
  from download_ack_Inr [OF k1 conjunct1 [OF exchanged_authenticated [OF x3]]] obtain ack1 where
    a1: "exchanged s3 (frame_bytes ack1) [] s4" "cl_files s4 = cl_files s3" by auto
  note x4 = exchanged_trans [OF x3 a1(1)]
  obtain tm0 where "node_at (cl_files s4) part = Some (RegularFile kept tm0)" using p a1(2) by auto
  from receive_download_Inr [OF rd _ this [folded conjunct1 [OF p]]] exchanged_authenticated [OF x4] p
  obtain pieces tm where
    r: "exchanged s4 [] (chunk_wire (cl_user_id s) start pieces @ frame_bytes (checksum_message (cl_user_id s) (fi_total_size info) digest)) s5"
      "dp_received progress = start + int (length (concat pieces))" "dp_received progress = fi_total_size info"
      "digest = ev_sha256 ev (hashed @ concat pieces)" "list_all (piece_ok ev) pieces"
      "wf_frame (max_payload ev) (checksum_message (cl_user_id s) (fi_total_size info) digest)" "spares {part} (cl_files s4) (cl_files s5)"
      "node_at (cl_files s5) part = Some (RegularFile (kept @ concat pieces) tm)"
    by (auto simp: start_def)
  note x5 = exchanged_trans [OF x4 r(1)]
  note pub = publish_download_Inr [OF pu conjunct1 [OF exchanged_authenticated [OF x5]] assms(3) r(8)]
  note x6 = exchanged_trans [OF x5 conjunct1 [OF pub]]
  from download_ack_Inr [OF k2 conjunct1 [OF exchanged_authenticated [OF x6]]] obtain ack2 where
    a2: "exchanged s6 (frame_bytes ack2) [] t" "cl_files t = cl_files s6" by auto
  have ret5: "retains {part} (cl_files s) (cl_files s5)"
    using retains_spares [OF spares_same [OF same, of "{part}"] subset_refl] p a1(2) retains_spares [OF r(7) subset_refl]
    by (metis retaining.R_trans)
  then have c7: "node_at (cl_files s) final = None" using pub assms(3) by (fastforce simp: retains_def)
  have c10: "retains {part} (cl_files s) (cl_files t)" using retaining.R_trans [OF ret5] pub a2(2) by simp
  have c2: "offer_frame ev filename (fi_total_size info) start (cl_user_id s) = Inr offer"
    using off uid by (cases info) (simp add: offer_frame_def start_def)
  have c4: "exchanged s (frame_bytes request @ frame_bytes ack1 @ frame_bytes ack2)
        (frame_bytes offer @ chunk_wire (cl_user_id s) start pieces
          @ frame_bytes (checksum_message (cl_user_id s) (fi_total_size info) digest)) t"
    using exchanged_trans [OF x6 a2(1)] by simp
  have c6: "digest = ev_sha256 ev (take (nat start) kept @ concat pieces)" using r(4) p by simp
  have c8: "node_at (cl_files t) final = Some (RegularFile (kept @ concat pieces) tm)" "node_at (cl_files t) part = None"
    using pub a2(2) by simp_all
  have c11: "res = \<lparr>cd_path = final, cd_bytes_received = fi_total_size info, cd_sha256_digest = digest\<rparr>"
    using res r(3) by simp
  have c5: "fi_total_size info = start + int (length (concat pieces))" using r(2,3) by simp
  have c12: "offset = int (length (file_data (cl_files s) part)) \<or> offset = 0 \<and> \<not> stat_works (cl_files s)"
    using r1 unfolding stat_works_iff by blast
  show ?thesis
    by (intro exI conjI) (rule req [unfolded uid], rule c2, rule start, rule c4, rule c5, rule r(5), rule r(6), rule c6 [unfolded kept_def], rule c7,
      rule c8(1) [unfolded kept_def], rule c8(2), rule c10, rule c11, rule c12)
qed

lemma part_path_other: "final \<noteq> [] \<Longrightarrow> part_path final \<noteq> final"
  by (auto simp: part_path_def with_name_def path_name_def lit_def dest: arg_cong [where f = last])

lemma download_file_Inr:
  assumes "download_file ev filename destination s = (Inr res, t)"
  shows "final_path ev filename destination \<noteq> [] \<and> download_body ev filename (final_path ev filename destination)
    (part_path (final_path ev filename destination)) s = (Inr res, t)"
  using assms
  by (auto simp: download_file_def Let_def bindS_def readS_def tryS_def split: if_splits prod.splits sum.splits)

text \<open>
  \<open>asked\<close> is the offset asked for: the size of the part file, or 0 when its \<open>stat\<close> has failed; the
  part file is then kept although the transfer starts at 0.
\<close>

lemma download_file_facts:
  assumes "download_file ev filename destination s = (Inr res, t)"
    and "canonical (cl_files s) (part_path (cd_path res))"
    and "old = file_data (cl_files s) (part_path (cd_path res))"
  shows "\<exists>asked start request offer ack1 ack2 pieces kept tm.
    (asked = int (length old) \<or> asked = 0 \<and> \<not> stat_works (cl_files s))
    \<and> kept = (if start = 0 \<and> asked \<noteq> 0 then [] else old)
    \<and> make_file_download_frame \<lparr>fd_filename = filename, fd_requested_offset = asked\<rparr> (max_payload ev) (cl_user_id s) = Inr request
    \<and> offer_frame ev filename (cd_bytes_received res) start (cl_user_id s) = Inr offer \<and> 0 \<le> start
    \<and> exchanged s (frame_bytes request @ frame_bytes ack1 @ frame_bytes ack2)
        (frame_bytes offer @ chunk_wire (cl_user_id s) start pieces
          @ frame_bytes (checksum_message (cl_user_id s) (cd_bytes_received res) (cd_sha256_digest res))) t
    \<and> cd_bytes_received res = start + int (length (concat pieces)) \<and> list_all (piece_ok ev) pieces
    \<and> wf_frame (max_payload ev) (checksum_message (cl_user_id s) (cd_bytes_received res) (cd_sha256_digest res))
    \<and> cd_sha256_digest res = ev_sha256 ev (take (nat start) kept @ concat pieces)
    \<and> node_at (cl_files s) (cd_path res) = None
    \<and> node_at (cl_files t) (cd_path res) = Some (RegularFile (kept @ concat pieces) tm)
    \<and> node_at (cl_files t) (part_path (cd_path res)) = None
    \<and> retains {part_path (cd_path res)} (cl_files s) (cl_files t) \<and> cd_path res = final_path ev filename destination"
proof -
  have path: "cd_path res = final_path ev filename destination" and fin: "final_path ev filename destination \<noteq> []"
    and body: "download_body ev filename (cd_path res) (part_path (cd_path res)) s = (Inr res, t)"
    using download_file_Inr [OF assms(1)] by (auto simp: download_body_def bindS_eq_Inr Let_def split: prod.splits)
  have kept: "kept_part (cl_files s) (part_path (cd_path res)) asked start = (if start = 0 \<and> asked \<noteq> 0 then [] else old)" for asked start
    by (simp add: kept_part_def assms(3))
  from download_body_Inr [OF body assms(2) part_path_other [OF fin, folded path], unfolded kept]
  obtain asked start total_size digest request offer ack1 ack2 pieces tm where
    b: "make_file_download_frame \<lparr>fd_filename = filename, fd_requested_offset = asked\<rparr> (max_payload ev) (cl_user_id s) = Inr request"
    "offer_frame ev filename total_size start (cl_user_id s) = Inr offer" "0 \<le> start"
    "exchanged s (frame_bytes request @ frame_bytes ack1 @ frame_bytes ack2) (frame_bytes offer @ chunk_wire (cl_user_id s) start pieces
          @ frame_bytes (checksum_message (cl_user_id s) total_size digest)) t"
    "total_size = start + int (length (concat pieces))" "list_all (piece_ok ev) pieces"
    "wf_frame (max_payload ev) (checksum_message (cl_user_id s) total_size digest)"
    "digest = ev_sha256 ev (take (nat start) (if start = 0 \<and> asked \<noteq> 0 then [] else old) @ concat pieces)"
    "node_at (cl_files s) (cd_path res) = None"
    "node_at (cl_files t) (cd_path res) = Some (RegularFile ((if start = 0 \<and> asked \<noteq> 0 then [] else old) @ concat pieces) tm)"
    "node_at (cl_files t) (part_path (cd_path res)) = None" "retains {part_path (cd_path res)} (cl_files s) (cl_files t)"
    "res = \<lparr>cd_path = cd_path res, cd_bytes_received = total_size, cd_sha256_digest = digest\<rparr>"
    "asked = int (length old) \<or> asked = 0 \<and> \<not> stat_works (cl_files s)"
    unfolding assms(3) by blast
  have r: "cd_bytes_received res = total_size" "cd_sha256_digest res = digest" using b(13) by (metis client_download_result.select_convs)+
  show ?thesis
    unfolding r
    by (intro exI conjI) (rule b(14), rule refl, rule b(1), rule b(2), rule b(3), rule b(4), rule b(5), rule b(6), rule b(7),
      rule b(8), rule b(9), rule b(10), rule b(11), rule b(12), rule path)
qed

text \<open>
  C6. What a successful download publishes, if the path of the part file has no symbolic link: the
  name was free, the part file is gone, no other file has changed; the new file holds the bytes kept
  from the part file and then the data of the chunks received.  On a stream without faults these lie
  between an offer (the size reported is the start plus the bytes received) and a \<open>FILE_CHECKSUM\<close>
  frame with the digest reported.  The offset asked for is the size of the part file, or 0 if its
  \<open>stat\<close> fails; the part file is kept unless the server starts at 0 after another offset was asked.
  The digest is that of the kept bytes up to the start and the data received; it is the SHA-256 of the
  whole new file when the size was asked for and the server starts at 0 or not before the end of the
  part file.  The length of the file is the size reported plus the bytes kept minus the start, so
  another start, or a part file kept after its \<open>stat\<close> failed, doubles or skips bytes.
\<close>

theorem client_download_publishes_verified:
  assumes "download_file ev filename destination s = (Inr res, t)"
    and "canonical (cl_files s) (part_path (cd_path res))"
  shows "\<exists>asked start request acks offer pieces kept data tm.
    let part = part_path (cd_path res); old = file_data (cl_files s) part in
    cd_path res = final_path ev filename destination \<and> node_at (cl_files s) (cd_path res) = None
    \<and> node_at (cl_files t) (cd_path res) = Some (RegularFile data tm) \<and> node_at (cl_files t) part = None
    \<and> retains {part} (cl_files s) (cl_files t)
    \<and> (asked = int (length old) \<or> asked = 0 \<and> \<not> stat_works (cl_files s))
    \<and> make_file_download_frame \<lparr>fd_filename = filename, fd_requested_offset = asked\<rparr> (max_payload ev) (cl_user_id s) = Inr request
    \<and> outbound (cl_socket t) = outbound (cl_socket s) @ frame_bytes request @ acks
    \<and> offer_frame ev filename (cd_bytes_received res) start (cl_user_id s) = Inr offer
    \<and> (delivers (cl_socket s) \<longrightarrow> pending (cl_socket s) = frame_bytes offer @ chunk_wire (cl_user_id s) start pieces
        @ frame_bytes (checksum_message (cl_user_id s) (cd_bytes_received res) (cd_sha256_digest res)) @ pending (cl_socket t))
    \<and> kept = (if start = 0 \<and> asked \<noteq> 0 then [] else old) \<and> data = kept @ concat pieces
    \<and> cd_bytes_received res = start + int (length (concat pieces))
    \<and> cd_sha256_digest res = ev_sha256 ev (take (nat start) kept @ concat pieces)
    \<and> (asked = int (length old) \<and> (start = 0 \<or> int (length old) \<le> start) \<longrightarrow> cd_sha256_digest res = ev_sha256 ev data)
    \<and> int (length data) = cd_bytes_received res + int (length kept) - start"
proof -
  define old where "old = file_data (cl_files s) (part_path (cd_path res))"
  from download_file_facts [OF assms old_def] obtain asked start request offer ack1 ack2 pieces kept tm where
    b: "asked = int (length old) \<or> asked = 0 \<and> \<not> stat_works (cl_files s)"
    "kept = (if start = 0 \<and> asked \<noteq> 0 then [] else old)"
    "make_file_download_frame \<lparr>fd_filename = filename, fd_requested_offset = asked\<rparr> (max_payload ev) (cl_user_id s) = Inr request"
    "offer_frame ev filename (cd_bytes_received res) start (cl_user_id s) = Inr offer" "0 \<le> start"
    "exchanged s (frame_bytes request @ frame_bytes ack1 @ frame_bytes ack2) (frame_bytes offer @ chunk_wire (cl_user_id s) start pieces
          @ frame_bytes (checksum_message (cl_user_id s) (cd_bytes_received res) (cd_sha256_digest res))) t"
    "cd_bytes_received res = start + int (length (concat pieces))"
    "cd_sha256_digest res = ev_sha256 ev (take (nat start) kept @ concat pieces)"
    "node_at (cl_files s) (cd_path res) = None"
    "node_at (cl_files t) (cd_path res) = Some (RegularFile (kept @ concat pieces) tm)"
    "node_at (cl_files t) (part_path (cd_path res)) = None"
    "retains {part_path (cd_path res)} (cl_files s) (cl_files t)" "cd_path res = final_path ev filename destination"
    by blast
  have whole: "take (nat start) kept = kept" if "asked = int (length old)" "start = 0 \<or> int (length old) \<le> start"
    using that b(2) by (auto split: if_splits)
  have outb: "outbound (cl_socket t) = outbound (cl_socket s) @ frame_bytes request @ frame_bytes ack1 @ frame_bytes ack2"
    and pend: "delivers (cl_socket s) \<longrightarrow> pending (cl_socket s) = frame_bytes offer @ chunk_wire (cl_user_id s) start pieces
        @ frame_bytes (checksum_message (cl_user_id s) (cd_bytes_received res) (cd_sha256_digest res)) @ pending (cl_socket t)"
    using b(6) by (simp_all add: exchanged_def)
  have len: "int (length (kept @ concat pieces)) = cd_bytes_received res + int (length kept) - start"
    using b(7) by simp
  have digest: "asked = int (length old) \<and> (start = 0 \<or> int (length old) \<le> start) \<longrightarrow>
      cd_sha256_digest res = ev_sha256 ev (kept @ concat pieces)"
    using b(8) whole by metis
  show ?thesis
    unfolding Let_def old_def [symmetric]
    by (intro exI conjI) (rule b(13), rule b(9), rule b(10), rule b(11), rule b(12), rule b(1), rule b(3), rule outb, rule b(4),
      rule pend, rule b(2), rule refl, rule b(7), rule b(8), rule digest, rule len)
qed

subsection \<open>An example\<close>

text \<open>A connected client that finds whole frames in its stream.\<close>

definition frames_client :: "file_system \<Rightarrow> frame list \<Rightarrow> byte list \<Rightarrow> client" where
  "frames_client files frames out = \<lparr>cl_socket = frames_socket frames out, cl_connected = True, cl_username = Some [97],
     cl_user_id = 1, cl_authenticated = True, cl_files = files\<rparr>"

lemma frames_client_fields [simp]:
  "cl_files (frames_client files frames out) = files" "cl_user_id (frames_client files frames out) = 1"
  "cl_socket (frames_client files frames out) = frames_socket frames out"
  by (simp_all add: frames_client_def)

lemma frames_client_run:
  assumes "wf_frame 1024 fr" "fr_user_id fr = 1"
  shows "client_receive example_environment (frames_client files (fr # frames) out) = (Inr fr, frames_client files frames out)"
    and "fr_opcode fr \<noteq> LOGIN \<Longrightarrow> client_send example_environment fr (frames_client files frames out)
      = (Inr (), frames_client files frames (out @ frame_bytes fr))"
  using assms
  by (simp_all add: client_receive_def client_send_def with_socket_def bindS_def readS_def tryS_def partS_def
      validate_incoming_user_id_def validate_outgoing_user_id_def matches_session_def frames_client_def frames_receive frames_send)

lemma frames_client_files:
  "on_client_files act (frames_client files frames out) = (case act files of (r, fs) \<Rightarrow> (r, frames_client fs frames out))"
  by (simp add: on_client_files_apply) (simp add: frames_client_def)

text \<open>The file \<open>f\<close> of three bytes, in one chunk; the download directory does not exist yet.\<close>

definition example_part :: path where "example_part = [[100], [102, 46, 112, 97, 114, 116]]"

definition fetched :: "byte list \<Rightarrow> file_system" where
  "fetched d = set_node example_part (RegularFile d 0) (set_node [[100]] Directory example_files)"

lemma example_paths:
  "final_path example_environment [102] None = [[100], [102]]" "part_path [[100], [102]] = example_part"
  by (simp_all add: final_path_def to_path_def example_environment_def example_config_def lit_def part_path_def
      with_name_def path_name_def example_part_def)

lemma example_parse:
  "parse_file_info (file_frame FILE_INFO [0, 1, 102, 0, 0, 0, 0, 0, 0, 0, 3, 0, 0, 0, 0, 0, 0, 0, 0]) 1024
     = Inr \<lparr>fi_filename = [102], fi_total_size = 3, fi_start_offset = 0\<rparr>"
  "parse_file_chunk (file_frame FILE_CHUNK [0, 0, 0, 0, 0, 0, 0, 0, 1, 2, 3]) 512 1024 = Inr \<lparr>fc_offset = 0, fc_data = [1, 2, 3]\<rparr>"
  "parse_file_checksum digest_frame 1024
     = Inr \<lparr>fk_final_size = 3, fk_sha256_digest = replicate 31 0 @ [3]\<rparr>"
  by (rule info.parse_make [OF example_frames(2) TrueI], rule chunk.parse_make [OF example_frames(3) TrueI],
      rule checksum.parse_make [OF example_frames(4) [folded digest_frame_def] TrueI])

lemma example_acks:
  "make_acknowledgement_frame \<lparr>ak_acknowledged_opcode = FILE_INFO, ak_next_offset = 0\<rparr> 1024 1 = Inr (ack_frame 22 0)"
  "make_acknowledgement_frame \<lparr>ak_acknowledged_opcode = FILE_CHECKSUM, ak_next_offset = 3\<rparr> 1024 1 = Inr (ack_frame 23 3)"
  using ack.parse_iff_make [of 1024 "ack_frame 22 0" "\<lparr>ak_acknowledged_opcode = FILE_INFO, ak_next_offset = 0\<rparr>"]
    ack.parse_iff_make [of 1024 "ack_frame 23 3" "\<lparr>ak_acknowledged_opcode = FILE_CHECKSUM, ak_next_offset = 3\<rparr>"]
  by (simp_all add: example_frames example_frames_wf)

lemma example_disk:
  "fs_faults (fetched d) = []" "fs_now (fetched d) = 0" "file_data (fetched d) example_part = d"
  "node_at example_files example_part = None" "node_at example_files [[100]] = None"
  "resolve example_files [[100], [102]] = Some [[100], [102]]" "resolve example_files example_part = Some example_part"
  "node_at example_files [[100], [102]] = None" "fs_now example_files = 0"
  by (simp_all add: fetched_def example_file file_data_def example_nodes example_part_def resolve_def MAX_LINKS_def numeral_eq_Suc)
    (simp_all add: example_files_def)

lemma example_prepare:
  "prepare_part example_environment [[100], [102]] example_part 0 0 (frames_client example_files frames out)
     = (Inr ([], example_part), frames_client (fetched []) frames out)"
proof -
  have mk: "mkdir_parents [[100]] example_files = (Inr (), set_node [[100]] Directory example_files)"
    by (simp add: mkdir_parents_def os_call_def example_file followed_def resolve_def MAX_LINKS_def example_nodes numeral_eq_Suc)
  have "resolve (set_node [[100]] Directory example_files) example_part = Some example_part"
    by (simp add: resolve_def MAX_LINKS_def example_nodes numeral_eq_Suc example_part_def)
  then have op: "open_appending example_part (set_node [[100]] Directory example_files) = (Inr example_part, fetched [])"
    by (simp add: open_appending_def os_call_def example_disk example_file fetched_def) (simp add: example_part_def)
  show ?thesis
    by (simp add: prepare_part_def bindS_def readS_def local_step_def tryS_def frames_client_files mk op parent_def hash_part_def)
qed

lemma example_receive:
  "receive_download example_environment \<lparr>fi_filename = [102], fi_total_size = 3, fi_start_offset = 0\<rparr> example_part
     \<lparr>dp_received = 0, dp_hashed = []\<rparr> (frames_client (fetched []) (tl offered_frames) out)
   = (Inr (\<lparr>dp_received = 3, dp_hashed = [1, 2, 3]\<rparr>, replicate 31 0 @ [3]), frames_client (fetched [1, 2, 3]) [] out)"
proof -
  have ap: "append_handle example_part [1, 2, 3] (fetched []) = (Inr (), fetched [1, 2, 3])"
    by (simp add: append_handle_def os_call_def example_disk) (simp add: fetched_def set_node_def)
  have fl: "flush_handle example_part (fetched [1, 2, 3]) = (Inr (), fetched [1, 2, 3])"
    by (simp add: flush_handle_def os_call_def example_disk)
  let ?chunk = "file_frame FILE_CHUNK [0, 0, 0, 0, 0, 0, 0, 0, 1, 2, 3]"
  have op: "fr_opcode (file_frame op p) = op" for op p by (simp add: file_frame_def)
  have t1: "download_turn example_environment \<lparr>fi_filename = [102], fi_total_size = 3, fi_start_offset = 0\<rparr> example_part
      \<lparr>dp_received = 0, dp_hashed = []\<rparr> ?chunk (frames_client (fetched []) frames out)
      = (Inr (Proceed \<lparr>dp_received = 3, dp_hashed = [1, 2, 3]\<rparr>), frames_client (fetched [1, 2, 3]) frames out)" for frames
    by (simp add: download_turn_def download_chunk_def op example_parse Let_def bindS_def local_step_def tryS_def frames_client_files ap)
  have t2: "download_turn example_environment \<lparr>fi_filename = [102], fi_total_size = 3, fi_start_offset = 0\<rparr> example_part
      \<lparr>dp_received = 3, dp_hashed = [1, 2, 3]\<rparr> digest_frame (frames_client (fetched [1, 2, 3]) frames out)
      = (Inr (Return (replicate 31 0 @ [3])), frames_client (fetched [1, 2, 3]) frames out)" for frames
    unfolding download_turn_def download_checksum_def digest_frame_wf example_parse example_environment_simps
    by (simp add: Let_def bindS_def local_step_def tryS_def frames_client_files fl example_digest)
  note wf = frames_client_run(1) [of ?chunk] frames_client_run(1) [of digest_frame]
  show ?thesis
    by (simp add: offered_frames_def receive_download.simps [of _ _ _ "\<lparr>dp_received = 0, dp_hashed = []\<rparr>"]
        receive_download.simps [of _ _ _ "\<lparr>dp_received = 3, dp_hashed = [1, 2, 3]\<rparr>"] wf example_frames_wf digest_frame_wf t1 t2)
qed

definition downloaded :: file_system where
  "downloaded = drop_node example_part (set_node [[100], [102]] (RegularFile [1, 2, 3] 0) (fetched [1, 2, 3]))"

lemma example_client_download:
  "download_file example_environment [102] None (frames_client example_files offered_frames [])
     = (Inr \<lparr>cd_path = [[100], [102]], cd_bytes_received = 3, cd_sha256_digest = replicate 31 0 @ [3]\<rparr>,
        frames_client downloaded [] (frame_bytes (file_frame FILE_DOWNLOAD [0, 1, 102, 0, 0, 0, 0, 0, 0, 0, 0])
          @ frame_bytes (ack_frame 22 0) @ frame_bytes (ack_frame 23 3)))"
proof -
  let ?offer = "file_frame FILE_INFO [0, 1, 102, 0, 0, 0, 0, 0, 0, 0, 3, 0, 0, 0, 0, 0, 0, 0, 0]"
  let ?asks = "file_frame FILE_DOWNLOAD [0, 1, 102, 0, 0, 0, 0, 0, 0, 0, 0]"
  have op: "fr_opcode (file_frame op p) = op" for op p by (simp add: file_frame_def)
  have ex: "path_exists example_files [[100], [102]] = False" "path_exists example_files example_part = False"
    by (simp_all add: path_exists_def followed_def example_disk)
  have ro: "resume_offset example_part (frames_client example_files frames out) = (Inr 0, frames_client example_files frames out)"
    for frames out by (simp add: resume_offset_def bindS_def readS_def ex)
  have rq: "request_download example_environment [102] 0 (frames_client example_files offered_frames out)
      = (Inr \<lparr>fi_filename = [102], fi_total_size = 3, fi_start_offset = 0\<rparr>,
         frames_client example_files (tl offered_frames) (out @ frame_bytes ?asks))" for out
    by (simp add: request_download_def bindS_def readS_def example_frames(1) offered_frames_def op example_parse
        frames_client_run [of ?asks] frames_client_run [of ?offer] example_frames_wf)
  have ack: "send_download_ack example_environment FILE_INFO 0 (frames_client files frames out)
      = (Inr (), frames_client files frames (out @ frame_bytes (ack_frame 22 0)))"
    "send_download_ack example_environment FILE_CHECKSUM 3 (frames_client files frames out)
      = (Inr (), frames_client files frames (out @ frame_bytes (ack_frame 23 3)))" for files frames out
    by (simp_all add: send_download_ack_def bindS_def readS_def example_acks frames_client_run example_frames_wf)
  have ne: "[[100], [102]] \<noteq> example_part" by (simp add: example_part_def)
  have hl: "hard_link example_part [[100], [102]] (fetched [1, 2, 3])
      = (Inr (), set_node [[100], [102]] (RegularFile [1, 2, 3] 0) (fetched [1, 2, 3]))"
    using ne by (simp add: hard_link_def os_call_def example_disk) (simp add: fetched_def example_nodes)
  have ul: "unlink True example_part (set_node [[100], [102]] (RegularFile [1, 2, 3] 0) (fetched [1, 2, 3])) = (Inr (), downloaded)"
    using ne by (simp add: unlink_def os_call_def example_disk downloaded_def) (simp add: fetched_def)
  have pu: "publish_download example_environment example_part [[100], [102]] (frames_client (fetched [1, 2, 3]) frames out)
      = (Inr (), frames_client downloaded frames out)" for frames out
    by (simp add: publish_download_def local_step_def tryS_def frames_client_files bindS_def hl ul)
  show ?thesis
    by (simp add: download_file_def Let_def example_paths bindS_def readS_def ex tryS_def download_body_def ro rq
        example_prepare ack example_receive pu)
qed

theorem client_download_publishes_verified_witness:
  "\<exists>data tm. node_at downloaded [[100], [102]] = Some (RegularFile data tm)
     \<and> ev_sha256 example_environment data = replicate 31 0 @ [3] \<and> length data = 3"
proof -
  have "canonical example_files example_part" using resolve_canonical [OF example_disk(7)] .
  moreover have "file_data example_files example_part = []" by (simp add: file_data_def example_disk)
  moreover have "node_at downloaded [[100], [102]] = Some (RegularFile [1, 2, 3] 0)"
    by (simp add: downloaded_def) (simp add: example_part_def)
  ultimately show ?thesis
    using client_download_publishes_verified [OF example_client_download] by (auto simp: example_paths Let_def split: if_splits)
qed

end
