(* ===== verification/UploadWire.thy ===== *)
theory UploadWire
  imports UploadSafety ClientDownloadSafety
begin

section \<open>What a successful upload of the server has read and sent\<close>

text \<open>
  The bytes \<open>handle_upload\<close> has taken from the stream and put on it when it reports success: the
  chunks and the digest it read, its two acknowledgements, and the file it published.
\<close>

subsection \<open>Bytes read and sent\<close>

definition conveyed :: "session \<Rightarrow> byte list \<Rightarrow> byte list \<Rightarrow> session \<Rightarrow> bool" where
  "conveyed s inp out t \<longleftrightarrow> ss_state t = ss_state s \<and> ss_user_id t = ss_user_id s
     \<and> outbound (ss_socket t) = outbound (ss_socket s) @ out
     \<and> (delivers (ss_socket s) \<longrightarrow> delivers (ss_socket t) \<and> pending (ss_socket s) = inp @ pending (ss_socket t))"

lemma conveyed_trans: "conveyed s i1 o1 t \<Longrightarrow> conveyed t i2 o2 u \<Longrightarrow> conveyed s (i1 @ i2) (o1 @ o2) u"
  by (auto simp: conveyed_def)

lemma conveyed_receive:
  assumes "session_receive ev s = (Inr fr, t)" "ss_state s \<noteq> AUTHENTICATING"
  shows "conveyed s (frame_bytes fr) [] t \<and> ss_files t = ss_files s \<and> fr_user_id fr = ss_user_id s
    \<and> wf_frame (max_payload ev) fr"
  using assms(1)
proof (rule session_receiveE)
  fix k
  assume k: "t = s\<lparr>ss_socket := k\<rparr>" "reads_only (ss_socket s) k"
    "\<And>fr'. Inr fr = Inr fr' \<Longrightarrow> receive_frame (max_payload ev) (ss_socket s) = (Inr (Some fr'), k)
       \<and> fr_user_id fr' = (if ss_state s = AUTHENTICATING then USER_ID else ss_user_id s)"
  then have rc: "receive_frame (max_payload ev) (ss_socket s) = (Inr (Some fr), k)" "fr_user_id fr = ss_user_id s"
    using assms(2) by simp_all
  have "delivers (ss_socket s) \<Longrightarrow> delivers k \<and> pending (ss_socket s) = frame_bytes fr @ pending k"
    using receive_frame_pending [OF rc(1)] by blast
  then show ?thesis
    using k(1,2) rc session_receive_progress [OF assms(1)] by (simp add: conveyed_def reads_only_def)
qed

lemma conveyed_ack:
  assumes "send_ack ev op n s = (Inr u, t)"
  shows "\<exists>fr. make_acknowledgement_frame \<lparr>ak_acknowledged_opcode = op, ak_next_offset = n\<rparr> (max_payload ev) (ss_user_id s) = Inr fr
    \<and> conveyed s [] (frame_bytes fr) t \<and> ss_files t = ss_files s"
proof -
  obtain fr where fr: "make_acknowledgement_frame \<lparr>ak_acknowledged_opcode = op, ak_next_offset = n\<rparr> (max_payload ev) (ss_user_id s) = Inr fr"
    and snd: "session_send ev fr s = (Inr u, t)"
    using assms by (auto simp: send_ack_def state_simps)
  from snd have "conveyed s [] (frame_bytes fr) t \<and> ss_files t = ss_files s"
    by (rule session_sendE) (auto simp: conveyed_def delivers_def pending_def dest: serialize_is_frame_bytes)
  with fr show ?thesis by blast
qed

text \<open>Steps that leave the connection alone.\<close>

definition unconnected :: "session \<Rightarrow> session \<Rightarrow> bool" where
  "unconnected s t \<longleftrightarrow> ss_socket t = ss_socket s \<and> ss_state t = ss_state s \<and> ss_user_id t = ss_user_id s"

interpretation unplugged: step_relation unconnected
  by unfold_locales (auto simp: unconnected_def)

lemma unconnected_conveyed: "unconnected s t \<Longrightarrow> conveyed s [] [] t"
  by (simp add: unconnected_def conveyed_def)

lemma conveyed_locally: "conveyed s inp out t \<Longrightarrow> unconnected t u \<Longrightarrow> conveyed s inp out u"
  using conveyed_trans [OF _ unconnected_conveyed, of s inp out t u] by simp

lemma unplugged_files: "unplugged.keeps (on_files act)"
  by (rule unplugged.keepsI) (auto simp: on_files_apply unconnected_def split: prod.splits)

lemma unplugged_bandwidth: "unplugged.keeps (consume_bandwidth n)"
  by (rule unplugged.keepsI)
    (auto simp: consume_bandwidth_def unconnected_def split: option.splits sum.splits prod.splits)

lemma unplugged_helpers:
  "unplugged.keeps (remove_quietly p)" "unplugged.keeps (discard_partial plan)"
  "unplugged.keeps (save_progress ev plan n)" "unplugged.keeps (session_storage_directory ev)"
  unfolding remove_quietly_def discard_partial_def save_progress_def session_storage_directory_def
  by (intro unplugged.keep_intros unplugged_files)+

lemmas unplugged_intros = unplugged.keep_intros unplugged_files unplugged_bandwidth unplugged_helpers

subsection \<open>Early returns are failures\<close>

definition refuses :: "('e, 's, 'a upload_flow) action \<Rightarrow> bool" where
  "refuses act \<longleftrightarrow> (\<forall>s res t. act s = (Inr (Return res), t) \<longrightarrow> \<not> ur_success res)"

lemma refusesD: "refuses act \<Longrightarrow> act s = (Inr (Return res), t) \<Longrightarrow> \<not> ur_success res"
  by (auto simp: refuses_def)

lemma refuses_rules:
  "refuses (returnS (Proceed a))" "refuses (raiseS e)"
  "(\<And>a. refuses (f a)) \<Longrightarrow> refuses (bindS m f)"
  "refuses m' \<Longrightarrow> (\<And>e. refuses (h e)) \<Longrightarrow> refuses (tryS m' h)"
  "refuses m' \<Longrightarrow> refuses k \<Longrightarrow> refuses (if c then m' else k)"
  "refuses k \<Longrightarrow> (\<And>v. refuses (g v)) \<Longrightarrow> refuses (case x of None \<Rightarrow> k | Some v \<Rightarrow> g v)"
  "(\<And>x y. refuses (g2 x y)) \<Longrightarrow> refuses (case p of (x, y) \<Rightarrow> g2 x y)"
  by (auto simp: refuses_def bindS_def tryS_def split: sum.splits prod.splits option.splits)

lemma refuses_bindF: "refuses m \<Longrightarrow> (\<And>a. refuses (f a)) \<Longrightarrow> refuses (bindF m f)"
  unfolding refuses_def [of "bindF m f"] by (auto simp: bindF_Inr dest: refusesD)

lemma refuses_except:
  "(\<And>code message. refuses (h code message)) \<Longrightarrow> (\<And>a. refuses (k a)) \<Longrightarrow> refuses (except_protocol x h k)"
  unfolding except_protocol_def by (cases x) (auto intro: refuses_rules split: option.splits)

lemma up_fail_result: "up_fail ev name n op code msg m s = (Inr res, t) \<Longrightarrow> \<not> ur_success res"
  by (auto simp: up_fail_def up_result_def state_simps)

lemma refuses_failures:
  "refuses (fail_with ev name n op code msg m)"
  "refuses (bindS (up_file_failure ev name n op txt e) (\<lambda>res. returnS (Return res)))"
  by (auto simp: refuses_def fail_with_def up_file_failure_def state_simps dest: up_fail_result)

lemma refuses_or_file_failure: "refuses (or_file_failure ev name n op txt act)"
  unfolding or_file_failure_def by (intro refuses_rules refuses_failures)

lemma refuses_session: "refuses act \<Longrightarrow> refuses (in_session act)"
  by (auto simp: refuses_def in_session_Inr)

lemma refuses_aborts:
  "refuses (up_abort ev plan op code msg m)" "refuses (up_clean_abort ev plan op code msg m)"
  "refuses (or_up_failure ev plan op txt act)"
  unfolding up_abort_def up_clean_abort_def or_up_failure_def
  by (intro refuses_rules refuses_session refuses_failures refuses_or_file_failure)+

lemmas refuses_intros = refuses_rules refuses_bindF refuses_except refuses_failures refuses_or_file_failure
  refuses_session refuses_aborts

lemma refuses_turn: "refuses (up_turn ev plan output)"
  unfolding up_turn_def up_chunk_def up_checksum_def Let_def by (intro refuses_intros)

lemma refuses_loop: "refuses (upload_loop ev plan output)"
proof -
  have "upload_loop ev plan output s = (Inr (Return res), t) \<Longrightarrow> \<not> ur_success res" for s res t
  proof (induction ev plan "output" s rule: upload_loop.induct)
    case (1 ev plan "output" s)
    then show ?case
      using refusesD [OF refuses_turn]
      by (auto simp: upload_loop.simps [of ev plan "output" s] split: prod.splits sum.splits flow.splits turn.splits)
  qed
  then show ?thesis by (auto simp: refuses_def)
qed

lemma refuses_publish: "refuses (up_publish ev plan)"
proof -
  have failing: "refuses (bindS (in_session (up_file_failure ev name n op message e)) (\<lambda>res. returnS (Return res)) :: unit upload_flow upload_action)"
    for name n op message e
    by (auto simp: refuses_def up_file_failure_def state_simps dest: up_fail_result)
  show ?thesis
    unfolding up_publish_def publish_rest_def publish_failure_def by (rule failing refuses_intros)+
qed

subsection \<open>Before the transfer\<close>

definition proceeds :: "'a upload_flow session_action \<Rightarrow> bool" where
  "proceeds act \<longleftrightarrow> (\<forall>s a t. act s = (Inr (Proceed a), t) \<longrightarrow> unconnected s t)"

lemma proceedsD: "proceeds act \<Longrightarrow> act s = (Inr (Proceed a), t) \<Longrightarrow> unconnected s t"
  by (auto simp: proceeds_def)

lemma proceeds_rules:
  "proceeds (returnS (Proceed a))" "proceeds (fail_with ev name n op code msg m)"
  "unplugged.keeps act \<Longrightarrow> proceeds (or_file_failure ev name n op message act)"
  "proceeds k \<Longrightarrow> proceeds k' \<Longrightarrow> proceeds (if c then k else k')"
  "proceeds k \<Longrightarrow> (\<And>v. proceeds (g v)) \<Longrightarrow> proceeds (case x of None \<Rightarrow> k | Some v \<Rightarrow> g v)"
  "(\<And>x y. proceeds (g2 x y)) \<Longrightarrow> proceeds (case p of (x, y) \<Rightarrow> g2 x y)"
  using unplugged.R_refl
  by (auto simp: proceeds_def dest: fail_with_return split: option.splits prod.splits)
    (metis or_file_failure_run unplugged.keepsD)

lemma proceeds_bind:
  "unplugged.keeps m \<Longrightarrow> (\<And>a. proceeds (f a)) \<Longrightarrow> proceeds (bindS m f)"
  "proceeds m' \<Longrightarrow> (\<And>a. proceeds (f' a)) \<Longrightarrow> proceeds (bindF m' f')"
  unfolding proceeds_def [of "bindS m f"] proceeds_def [of "bindF m' f'"]
  by (auto simp: bindF_Inr bindS_eq_Inr dest!: proceedsD dest: unplugged.keepsD intro: unplugged.R_trans)

lemma proceeds_except:
  "(\<And>code message. proceeds (h code message)) \<Longrightarrow> (\<And>a. proceeds (k a)) \<Longrightarrow> proceeds (except_protocol x h k)"
  unfolding except_protocol_def by (auto simp: proceeds_def split: sum.splits option.splits)

lemmas proceeds_intros = proceeds_rules proceeds_bind proceeds_except unplugged_intros

lemma up_prepare_straight: "refuses (up_prepare ev fr)" "proceeds (up_prepare ev fr)"
  unfolding up_prepare_def Let_def by (intro refuses_intros) (intro proceeds_intros)

lemma up_resume_straight: "refuses (up_resume ev plan)" "proceeds (up_resume ev plan)"
  unfolding up_resume_def up_resume_matching_def restart_upload_def mismatch_def Let_def
  by (intro refuses_intros) (intro proceeds_intros)

lemma up_open_straight: "refuses (up_open ev plan n)" "proceeds (up_open ev plan n)"
  unfolding up_open_def by (intro refuses_intros) (intro proceeds_intros)

subsection \<open>The receive loop\<close>

lemma up_chunk_wire:
  assumes "up_chunk ev plan output fr s = (Inr (Proceed x), t)" "wf_frame (max_payload ev) fr"
  shows "\<exists>piece. fr = chunk_frame (fr_user_id fr) (us_received s) piece \<and> piece_ok ev piece
    \<and> unconnected (us_session s) (us_session t)
    \<and> us_digest t = us_digest s @ piece \<and> us_received t = us_received s + int (length piece)"
proof -
  obtain chunk :: file_chunk and s1 :: upload_state and w u1 u2 where
    p: "parse_file_chunk fr (chunk_size ev) (max_payload ev) = Inr chunk" "fc_offset chunk = us_received s"
    and wr: "or_up_failure ev plan FILE_CHUNK (lit ''cannot write the partial upload'')
         (bindS (on_files (write_handle output (nat (us_received s)) (fc_data chunk)))
            (\<lambda>_. on_files (flush_handle output))) s = (Inr (Proceed ()), s1)"
    and bw: "consume_bandwidth (int (length (fc_data chunk))) (us_session s1) = (Inr w, u1)"
    and sv: "save_progress ev plan (us_received s + int (length (fc_data chunk))) u1 = (Inr (), u2)"
    and t: "t = s1\<lparr>us_digest := us_digest s1 @ fc_data chunk,
              us_received := us_received s1 + int (length (fc_data chunk)), us_session := u2\<rparr>"
    using assms(1) unfolding up_chunk_def Let_def except_protocol_def
    by (auto simp: state_simps dest!: aborts_return split: sum.splits option.splits if_splits)
  note wr' = or_up_failure_Proceed [OF wr]
  have "unplugged.keeps (bindS (on_files (write_handle output (nat (us_received s)) (fc_data chunk)))
            (\<lambda>_. on_files (flush_handle output)))"
    by (intro unplugged_intros)
  from unplugged.keepsD [OF this conjunct1 [OF wr']] unplugged.keepsD [OF unplugged_bandwidth bw]
    unplugged.keepsD [OF unplugged_helpers(3) sv]
  have "unconnected (us_session s) u2" by (meson unplugged.R_trans)
  moreover have "us_received s1 = us_received s \<and> us_digest s1 = us_digest s"
    using conjunct2 [OF wr'] by (metis upload_state.select_convs(2,3) upload_state.surjective upload_state.update_convs(1))
  moreover have "piece_ok ev (fc_data chunk)"
    using chunk.parse_Inr [OF assms(2)] p(1) by (simp add: chunk_body_def piece_ok_def)
  ultimately show ?thesis
    using parse_chunk_frame [OF assms(2) p(1)] p(2) t by (intro exI [of _ "fc_data chunk"]) simp
qed

lemma up_checksum_wire:
  assumes "up_checksum ev plan output fr s = (Inr (Proceed x), t)" "wf_frame (max_payload ev) fr"
  shows "fr = checksum_message (fr_user_id fr) (up_total_size plan) (ev_sha256 ev (us_digest s))
    \<and> unconnected (us_session s) (us_session t) \<and> us_digest t = us_digest s \<and> us_received t = us_received s"
proof -
  obtain checksum u where
    parsed: "parse_file_checksum fr (max_payload ev) = Inr checksum"
      "fk_final_size checksum = up_total_size plan" "fk_sha256_digest checksum = ev_sha256 ev (us_digest s)"
    and flush: "or_up_failure ev plan FILE_CHECKSUM (lit ''cannot flush the partial upload'')
         (bindS (on_files (flush_handle output)) (\<lambda>_. on_files (flush_handle output))) s = (Inr (Proceed u), t)"
    using assms(1) unfolding up_checksum_def Let_def except_protocol_def
    by (auto simp: state_simps dest!: aborts_return split: sum.splits option.splits if_splits prod.splits)
  note fl = or_up_failure_Proceed [OF flush]
  have "unplugged.keeps (bindS (on_files (flush_handle output)) (\<lambda>_. on_files (flush_handle output)))"
    by (intro unplugged_intros)
  from unplugged.keepsD [OF this conjunct1 [OF fl]] have "unconnected (us_session s) (us_session t)" .
  moreover have "us_received t = us_received s \<and> us_digest t = us_digest s"
    using conjunct2 [OF fl] by (metis upload_state.select_convs(2,3) upload_state.surjective upload_state.update_convs(1))
  ultimately show ?thesis using parse_checksum_frame [OF assms(2) parsed(1)] parsed(2,3) by simp
qed

lemma up_turn_wire:
  assumes run: "up_turn ev plan output s = (Inr (Proceed x), t)" and auth: "ss_state (us_session s) \<noteq> AUTHENTICATING"
  obtains (Again) piece where "x = Again" "piece_ok ev piece"
      "conveyed (us_session s) (frame_bytes (chunk_frame (ss_user_id (us_session s)) (us_received s) piece)) [] (us_session t)"
      "us_digest t = us_digest s @ piece" "us_received t = us_received s + int (length piece)"
  | (Complete) fr where "x = Complete" "fr = checksum_message (ss_user_id (us_session s)) (up_total_size plan) (ev_sha256 ev (us_digest s))"
      "wf_frame (max_payload ev) fr" "conveyed (us_session s) (frame_bytes fr) [] (us_session t)"
      "us_digest t = us_digest s" "us_received t = us_received s"
proof -
  obtain fr u where rc: "session_receive ev (us_session s) = (Inr fr, u)"
    and rest: "(if fr_opcode fr = FILE_CHUNK then up_chunk ev plan output fr
      else if fr_opcode fr = FILE_CHECKSUM then up_checksum ev plan output fr
      else up_clean_abort ev plan (fr_opcode fr) INVALID_STATE
        (lit ''unexpected '' @ opcode_name (fr_opcode fr) @ lit '' during UPLOAD'') None)
       (s\<lparr>us_session := u\<rparr>) = (Inr (Proceed x), t)"
    using run unfolding up_turn_def by (auto simp: bindS_eq_Inr in_session_Inr)
  note c = conveyed_receive [OF rc auth]
  show thesis
  proof (cases "fr_opcode fr = FILE_CHUNK")
    case True
    then have chunk: "up_chunk ev plan output fr (s\<lparr>us_session := u\<rparr>) = (Inr (Proceed x), t)" using rest by simp
    have "x = Again" using chunk unfolding up_chunk_def Let_def except_protocol_def
      by (auto simp: state_simps dest!: aborts_return split: sum.splits option.splits if_splits)
    with up_chunk_wire [OF chunk] c Again show thesis by (auto dest: conveyed_locally)
  next
    case False
    then have "fr_opcode fr = FILE_CHECKSUM" using rest by (auto split: if_splits dest: aborts_return)
    then have chk: "up_checksum ev plan output fr (s\<lparr>us_session := u\<rparr>) = (Inr (Proceed x), t)" using rest by simp
    have "x = Complete" using chk unfolding up_checksum_def Let_def except_protocol_def
      by (auto simp: state_simps dest!: aborts_return split: sum.splits option.splits if_splits prod.splits)
    with up_checksum_wire [OF chk] c Complete [of fr] show thesis by (auto dest: conveyed_locally)
  qed
qed

lemma upload_loop_wire:
  "upload_loop ev plan output s = (Inr (Proceed ()), t) \<Longrightarrow> ss_state (us_session s) \<noteq> AUTHENTICATING \<Longrightarrow>
     \<exists>pieces fr. fr = checksum_message (ss_user_id (us_session s)) (up_total_size plan) (ev_sha256 ev (us_digest t))
       \<and> wf_frame (max_payload ev) fr \<and> list_all (piece_ok ev) pieces \<and> us_digest t = us_digest s @ concat pieces
       \<and> us_received t = us_received s + int (length (concat pieces))
       \<and> conveyed (us_session s) (chunk_wire (ss_user_id (us_session s)) (us_received s) pieces @ frame_bytes fr) [] (us_session t)"
proof (induction ev plan "output" s arbitrary: t rule: upload_loop.induct)
  case (1 ev plan "output" s)
  obtain q u where turn: "up_turn ev plan output s = (q, u)" by fastforce
  with "1.prems"(1) obtain x where q: "q = Inr (Proceed x)"
    by (auto simp: upload_loop.simps [of ev plan "output" s] split: sum.splits flow.splits)
  from turn [unfolded q] "1.prems"(2) show ?case
  proof (cases rule: up_turn_wire)
    case (Again piece)
    have rest: "upload_loop ev plan output u = (Inr (Proceed ()), t)"
      using "1.prems"(1) turn q Again(1) by (simp add: upload_loop.simps [of ev plan "output" s])
    have user: "ss_user_id (us_session u) = ss_user_id (us_session s)" "ss_state (us_session u) \<noteq> AUTHENTICATING"
      using Again(3) "1.prems"(2) by (simp_all add: conveyed_def)
    from "1.IH" [OF turn [symmetric] _ _ _ rest user(2)] q Again(1) obtain pieces fr where
      ih: "fr = checksum_message (ss_user_id (us_session s)) (up_total_size plan) (ev_sha256 ev (us_digest t))"
        "wf_frame (max_payload ev) fr" "list_all (piece_ok ev) pieces" "us_digest t = us_digest u @ concat pieces"
        "us_received t = us_received u + int (length (concat pieces))"
        "conveyed (us_session u) (chunk_wire (ss_user_id (us_session s)) (us_received u) pieces @ frame_bytes fr) [] (us_session t)"
      unfolding user(1) by blast
    have "conveyed (us_session s) (chunk_wire (ss_user_id (us_session s)) (us_received s) (piece # pieces) @ frame_bytes fr) [] (us_session t)"
      using conveyed_trans [OF Again(3) ih(6)] Again(5) by simp
    with ih Again show ?thesis by (intro exI [of _ "piece # pieces"] exI [of _ fr]) simp
  next
    case (Complete fr)
    then have "t = u" using "1.prems"(1) turn q by (simp add: upload_loop.simps [of ev plan "output" s])
    with Complete show ?thesis by (intro exI [of _ "[]"] exI [of _ fr]) simp
  qed
qed

subsection \<open>Publication\<close>

lemma publish_failure_not_Proceed: "publish_failure ev plan e s \<noteq> (Inr (Proceed a), t)"
  by (auto simp: publish_failure_def state_simps split: if_splits dest: aborts_return)

lemma up_publish_wire:
  assumes ok: "paths_ok plan" and up: "uploading plan s" and run: "up_publish ev plan s = (Inr (Proceed u), t)"
  shows "(\<exists>tm. target_node plan (us_session t) = Some (RegularFile (us_digest s) tm))
    \<and> unconnected (us_session s) (us_session t) \<and> us_received t = us_received s"
proof -
  obtain v s1 where link: "in_session (on_files (hard_link (up_partial plan) (up_target plan))) s = (Inr v, s1)"
    and rest: "publish_rest plan s1 = (Inr (Proceed u), t)"
    using run by (auto simp: up_publish_def tryS_def bindS_eq_Inr publish_failure_not_Proceed split: prod.splits sum.splits)
  obtain fs where hl: "hard_link (up_partial plan) (up_target plan) (ss_files (us_session s)) = (Inr v, fs)"
    and s1: "s1 = s\<lparr>us_session := (us_session s)\<lparr>ss_files := fs\<rparr>\<rparr>"
    using link by (auto simp: in_session_Inr on_files_apply split: prod.splits)
  obtain u1 w u2 where un: "on_files (unlink False (up_partial plan)) (us_session s1) = (Inr w, u1)"
    and rm: "remove_quietly (up_meta plan) u1 = (Inr (), u2)" and t: "t = s1\<lparr>us_published := True, us_session := u2\<rparr>"
    using rest by (auto simp: publish_rest_def set_published_def state_simps)
  obtain tm where tm: "node_at (ss_files (us_session s)) (up_partial plan) = Some (RegularFile (us_digest s) tm)"
    using up by (auto simp: uploading_def)
  have "quiet (upload_area plan) (us_session s1) u2"
    by (rule quieting.R_trans [OF quieting.keepsD [OF quiet_files [OF sparing_unlink] un] quieting.keepsD [OF quiet_helpers(5) rm]])
      (use paths_okD [OF ok] in auto)
  then have "target_node plan u2 = Some (RegularFile (us_digest s) tm)"
    using target_quiet [OF ok] hard_link_Inr [OF hl tm] by (simp add: target_node_def s1)
  moreover have "unconnected (us_session s1) u2"
    using unplugged.keepsD [OF unplugged_files un] unplugged.keepsD [OF unplugged_helpers(1) rm] by (rule unplugged.R_trans)
  ultimately show ?thesis by (auto simp: t s1 unconnected_def)
qed

lemma up_start_wire:
  assumes "up_start ev plan output n s = (Inr u, t)"
  shows "\<exists>fr. make_acknowledgement_frame \<lparr>ak_acknowledged_opcode = FILE_UPLOAD, ak_next_offset = n\<rparr> (max_payload ev) (ss_user_id s) = Inr fr
    \<and> conveyed s [] (frame_bytes fr) t"
proof -
  obtain v s1 w s2 where st: "on_files (truncate_handle output (nat n)) s = (Inr v, s1)"
    "save_progress ev plan n s1 = (Inr w, s2)" "send_ack ev FILE_UPLOAD n s2 = (Inr u, t)"
    using assms by (auto simp: up_start_def bindS_eq_Inr)
  have "unconnected s s2"
    using unplugged.keepsD [OF unplugged_files st(1)] unplugged.keepsD [OF unplugged_helpers(3) st(2)] by (rule unplugged.R_trans)
  then show ?thesis
    using conveyed_ack [OF st(3)] conveyed_trans [OF unconnected_conveyed] by (fastforce simp: unconnected_def)
qed

text \<open>What has passed over the connection when \<open>target\<close> holds \<open>d\<close>, of which \<open>off\<close> bytes were kept.\<close>

definition upload_carried ::
  "environment \<Rightarrow> session \<Rightarrow> int \<Rightarrow> byte list \<Rightarrow> byte list list \<Rightarrow> byte list \<Rightarrow> byte list \<Rightarrow> session \<Rightarrow> bool" where
  "upload_carried ev s total_size hashed pieces inp out t \<longleftrightarrow>
     (\<exists>fr ack1 ack2. let user_id = ss_user_id s; d = hashed @ concat pieces in
        fr = checksum_message user_id total_size (ev_sha256 ev d) \<and> wf_frame (max_payload ev) fr
        \<and> list_all (piece_ok ev) pieces \<and> int (length d) = total_size
        \<and> make_acknowledgement_frame \<lparr>ak_acknowledged_opcode = FILE_UPLOAD, ak_next_offset = int (length hashed)\<rparr>
            (max_payload ev) user_id = Inr ack1
        \<and> make_acknowledgement_frame \<lparr>ak_acknowledged_opcode = FILE_CHECKSUM, ak_next_offset = int (length d)\<rparr>
            (max_payload ev) user_id = Inr ack2
        \<and> inp = chunk_wire user_id (int (length hashed)) pieces @ frame_bytes fr \<and> out = frame_bytes ack1 @ frame_bytes ack2
        \<and> conveyed s inp out t)"

lemma up_transfer_wire:
  assumes ok: "paths_ok plan" and locals: "us_received s = int (length (us_digest s))" "us_published s = False"
    and prefix: "take (length (us_digest s)) (file_data (ss_files (us_session s)) (up_partial plan)) = us_digest s"
    and auth: "ss_state (us_session s) \<noteq> AUTHENTICATING"
    and run: "up_transfer ev plan (up_partial plan) (int (length (us_digest s))) s = (Inr x, t)" "ur_success (flow_result x)"
  shows "\<exists>pieces inp out tm. upload_carried ev (us_session s) (up_total_size plan) (us_digest s) pieces inp out (us_session t)
    \<and> target_node plan (us_session t) = Some (RegularFile (us_digest s @ concat pieces) tm)"
proof -
  let ?u = "ss_user_id (us_session s)"
  obtain v x1 where st: "up_start ev plan (up_partial plan) (int (length (us_digest s))) (us_session s) = (Inr v, x1)"
    and rest: "bindF (upload_loop ev plan (up_partial plan)) (\<lambda>_.
     bindF (up_publish ev plan) (\<lambda>_.
     bindS (readS us_received) (\<lambda>received.
     bindS (in_session (send_ack ev FILE_CHECKSUM received)) (\<lambda>_.
     returnS (Proceed (up_result (up_filename plan) received True (Some True) None)))))) (s\<lparr>us_session := x1\<rparr>) = (Inr x, t)"
    using run(1) by (auto simp: up_transfer_def bindS_eq_Inr in_session_Inr)
  define s1 where "s1 = s\<lparr>us_session := x1\<rparr>"
  obtain s2 s3 x2 w1 w2 where lp: "upload_loop ev plan (up_partial plan) s1 = (Inr (Proceed w1), s2)"
    and pb: "up_publish ev plan s2 = (Inr (Proceed w2), s3)"
    and ack: "send_ack ev FILE_CHECKSUM (us_received s3) (us_session s3) = (Inr (), x2)" "t = s3\<lparr>us_session := x2\<rparr>"
    using rest run(2) refusesD [OF refuses_loop] refusesD [OF refuses_publish]
    by (auto simp: bindF_Inr s1_def state_simps)
  obtain ack1 where a1: "make_acknowledgement_frame \<lparr>ak_acknowledged_opcode = FILE_UPLOAD, ak_next_offset = int (length (us_digest s))\<rparr>
      (max_payload ev) ?u = Inr ack1" "conveyed (us_session s) [] (frame_bytes ack1) x1"
    using up_start_wire [OF st] by blast
  have user: "ss_user_id x1 = ?u" "ss_state x1 \<noteq> AUTHENTICATING" using a1(2) auth by (simp_all add: conveyed_def)
  have up1: "uploading plan s1"
    using up_start_contents [OF ok prefix st] locals by (auto simp: uploading_def s1_def)
  have up2: "uploading plan s2" "int (length (us_digest s2)) = up_total_size plan"
    using upload_loop_safe [OF ok refl up1 lp] by simp_all
  obtain pieces fr where l: "fr = checksum_message ?u (up_total_size plan) (ev_sha256 ev (us_digest s2))" "wf_frame (max_payload ev) fr"
    "list_all (piece_ok ev) pieces" "us_digest s2 = us_digest s @ concat pieces"
    "conveyed x1 (chunk_wire ?u (int (length (us_digest s))) pieces @ frame_bytes fr) [] (us_session s2)"
    using upload_loop_wire [of ev plan "up_partial plan" s1 s2] lp user locals by (auto simp: s1_def)
  obtain tm where p: "target_node plan (us_session s3) = Some (RegularFile (us_digest s2) tm)"
      "unconnected (us_session s2) (us_session s3)" "us_received s3 = us_received s2"
    using up_publish_wire [OF ok up2(1) pb] by blast
  have user3: "ss_user_id (us_session s3) = ?u" using l(5) p(2) user(1) by (simp add: conveyed_def unconnected_def)
  obtain ack2 where a2: "make_acknowledgement_frame \<lparr>ak_acknowledged_opcode = FILE_CHECKSUM, ak_next_offset = us_received s3\<rparr>
      (max_payload ev) ?u = Inr ack2" "conveyed (us_session s3) [] (frame_bytes ack2) x2" "ss_files x2 = ss_files (us_session s3)"
    using conveyed_ack [OF ack(1)] unfolding user3 by blast
  have "conveyed (us_session s) (chunk_wire ?u (int (length (us_digest s))) pieces @ frame_bytes fr) (frame_bytes ack1 @ frame_bytes ack2) x2"
    using conveyed_trans [OF a1(2) conveyed_trans [OF conveyed_locally [OF l(5) p(2)] a2(2)]] by simp
  moreover have "us_received s3 = int (length (us_digest s2))" using p(3) up2(1) by (simp add: uploading_def)
  ultimately have "upload_carried ev (us_session s) (up_total_size plan) (us_digest s) pieces
      (chunk_wire ?u (int (length (us_digest s))) pieces @ frame_bytes fr) (frame_bytes ack1 @ frame_bytes ack2) x2"
    using l a1(1) a2(1) up2(2) unfolding upload_carried_def Let_def by (intro exI [of _ fr] exI [of _ ack1] exI [of _ ack2]) simp
  moreover have "target_node plan x2 = Some (RegularFile (us_digest s @ concat pieces) tm)"
    using p(1) a2(3) l(4) by (simp add: target_node_def)
  ultimately show ?thesis using ack(2) by auto
qed

subsection \<open>The whole handler\<close>

lemma upload_carried_before:
  "unconnected s s' \<Longrightarrow> upload_carried ev s' n hashed pieces inp out t \<Longrightarrow> upload_carried ev s n hashed pieces inp out t"
  using conveyed_trans [OF unconnected_conveyed, of s s' inp out t]
  by (auto simp: upload_carried_def unconnected_def Let_def)

lemma upload_carried_after:
  "upload_carried ev s n hashed pieces inp out t \<Longrightarrow> unconnected t t' \<Longrightarrow> upload_carried ev s n hashed pieces inp out t'"
  using conveyed_locally [of s inp out t t'] by (auto simp: upload_carried_def Let_def)

lemma transfer_and_cleanup_wire:
  assumes ok: "paths_ok plan" and kept: "kept_prefix plan s (off, hashed)" and auth: "ss_state s \<noteq> AUTHENTICATING"
    and run: "with_locals (start_locals off hashed)
      (finallyS (up_transfer ev plan (up_partial plan) off) (up_finally plan)) s = (Inr x, t)" "ur_success (flow_result x)"
  shows "\<exists>pieces inp out tm. upload_carried ev s (up_total_size plan) hashed pieces inp out t
    \<and> target_node plan t = Some (RegularFile (hashed @ concat pieces) tm)"
proof -
  let ?s = "start_locals off hashed s"
  obtain v w u where tr: "up_transfer ev plan (up_partial plan) off ?s = (Inr x, v)"
    and fin: "up_finally plan v = (w, u)" and t: "t = us_session u"
    using run(1) by (auto simp: with_locals_run finallyS_def split: prod.splits sum.splits)
  have off: "off = int (length hashed)" "take (length hashed) (file_data (ss_files s) (up_partial plan)) = hashed"
    using kept by (simp_all add: kept_prefix_def)
  obtain pieces inp out tm where c: "upload_carried ev s (up_total_size plan) hashed pieces inp out (us_session v)"
    "target_node plan (us_session v) = Some (RegularFile (hashed @ concat pieces) tm)"
    using up_transfer_wire [OF ok, of ?s ev x v] off auth tr run(2) by (auto simp: start_locals_def)
  have "unconnected (us_session v) (us_session u)"
    using fin unplugged.keepsD [OF unplugged_helpers(2)]
    by (auto simp: up_finally_def bindS_def readS_def in_session_def partS_def unplugged.R_refl split: if_splits prod.splits)
  moreover have "target_node plan (us_session u) = target_node plan (us_session v)"
    using uquieting.keepsD [OF up_finally_quiet [OF ok] fin] target_quiet [OF ok] by (simp add: uquiet_def)
  ultimately show ?thesis using c t upload_carried_after by metis
qed

lemma after_prepare_wire:
  assumes ok: "paths_ok plan" and can: "canonical (ss_files s) (up_partial plan)" and auth: "ss_state s \<noteq> AUTHENTICATING"
    and run: "bindF (up_resume ev plan) (\<lambda>(resume_offset, hashed).
        bindF (up_open ev plan resume_offset) (\<lambda>output.
        with_locals (start_locals resume_offset hashed)
          (finallyS (up_transfer ev plan output resume_offset) (up_finally plan)))) s = (Inr x, t)" "ur_success (flow_result x)"
  shows "\<exists>hashed pieces inp out tm. upload_carried ev s (up_total_size plan) hashed pieces inp out t
    \<and> target_node plan t = Some (RegularFile (hashed @ concat pieces) tm)"
proof -
  obtain off hashed s1 s2 opened where rs: "up_resume ev plan s = (Inr (Proceed (off, hashed)), s1)"
    and op: "up_open ev plan off s1 = (Inr (Proceed opened), s2)"
    and rest: "with_locals (start_locals off hashed)
          (finallyS (up_transfer ev plan opened off) (up_finally plan)) s2 = (Inr x, t)"
    using run refusesD [OF up_resume_straight(1)] refusesD [OF up_open_straight(1)] by (auto simp: bindF_Inr)
  have k1: "quiet (upload_area plan) s s1" by (rule quieting.keepsD [OF up_resume_quiet [OF ok] rs])
  have kept: "kept_prefix plan s1 (off, hashed)" by (rule up_resume_prefix [OF can rs])
  have "opened = up_partial plan \<and> take (length hashed) (file_data (ss_files s2) (up_partial plan)) = hashed"
    using up_open_safe [OF ok canonical_quiet [OF k1 can] _ op, of hashed] kept by (simp add: kept_prefix_def)
  then have out: "opened = up_partial plan" "kept_prefix plan s2 (off, hashed)" using kept by (auto simp: kept_prefix_def)
  have near: "unconnected s s2"
    using proceedsD [OF up_resume_straight(2) rs] proceedsD [OF up_open_straight(2) op] by (rule unplugged.R_trans)
  then have "ss_state s2 \<noteq> AUTHENTICATING" using auth by (simp add: unconnected_def)
  from transfer_and_cleanup_wire [OF ok out(2) this rest [unfolded out(1)] run(2)] upload_carried_before [OF near]
  show ?thesis by blast
qed

lemma handle_upload_wire:
  assumes "parse_file_upload fr (max_payload ev) = Inr request" and "ss_username s = Some name"
    and "resolve_namespace_path (ss_files s) (storage_root ev @ [name]) (fu_filename request) False False = Inr target"
    and "get_part_paths target = (partial, meta)" and "\<not> is_symlink (ss_files s) partial"
    and auth: "ss_state s \<noteq> AUTHENTICATING"
    and run: "handle_upload ev fr s = (Inr res, t)" "ur_success res"
  shows "\<exists>hashed pieces inp out tm. upload_carried ev s (fu_total_size request) hashed pieces inp out t
    \<and> node_at (ss_files t) target = Some (RegularFile (hashed @ concat pieces) tm)"
proof -
  obtain x where x: "bindF (up_prepare ev fr) (\<lambda>plan.
        bindF (up_resume ev plan) (\<lambda>(resume_offset, hashed).
        bindF (up_open ev plan resume_offset) (\<lambda>output.
        with_locals (start_locals resume_offset hashed)
          (finallyS (up_transfer ev plan output resume_offset) (up_finally plan))))) s = (Inr x, t)" "ur_success (flow_result x)"
    using run by (auto simp: handle_upload_def bindS_eq_Inr)
  obtain plan u where pr: "up_prepare ev fr s = (Inr (Proceed plan), u)"
    and rest: "bindF (up_resume ev plan) (\<lambda>(resume_offset, hashed).
        bindF (up_open ev plan resume_offset) (\<lambda>output.
        with_locals (start_locals resume_offset hashed)
          (finallyS (up_transfer ev plan output resume_offset) (up_finally plan)))) u = (Inr x, t)"
    using x refusesD [OF up_prepare_straight(1)] by (auto simp: bindF_Inr)
  obtain s1 where s1: "grows (ss_files s) (ss_files s1)" "quiet {partial, meta} s1 u"
    and plan: "up_target plan = target" "up_partial plan = partial" "up_meta plan = meta" "up_total_size plan = fu_total_size request"
    by (rule up_prepare_safe [OF assms(1-4) pr]) blast
  have "canonical (ss_files s) target"
    using resolve_namespace_path_Inr [OF assms(3)] resolve_canonical by blast
  from canonical_grows [OF s1(1) partial_canonical [OF this assms(4,5)]]
  have can: "canonical (ss_files u) (up_partial plan)" unfolding plan(2) by (rule canonical_quiet [OF s1(2)])
  have near: "unconnected s u" by (rule proceedsD [OF up_prepare_straight(2) pr])
  have ok: "paths_ok plan" using plan assms(4) by (simp add: paths_ok_def)
  have "ss_state u \<noteq> AUTHENTICATING" using auth near by (simp add: unconnected_def)
  from after_prepare_wire [OF ok can this rest x(2)] upload_carried_before [OF near] show ?thesis
    unfolding plan(4) target_node_def plan(1) by blast
qed

end
