(* ===== verification/ClientUploadSafety.thy ===== *)
theory ClientUploadSafety
  imports ClientDownloadSafety
begin

section \<open>What a successful upload of the client has sent\<close>

text \<open>
  From the request to the final acknowledgement: the frames sent and received, and that the bytes
  off and hashed are those of the source file.
\<close>

subsection \<open>Acknowledgements\<close>

lemma expect_ack_Inr:
  assumes "expect_ack ev op wanted s = (Inr n, t)" "cl_authenticated s"
  shows "\<exists>fr. exchanged s [] (frame_bytes fr) t \<and> cl_files t = cl_files s
    \<and> make_acknowledgement_frame \<lparr>ak_acknowledged_opcode = op, ak_next_offset = n\<rparr> (max_payload ev) (cl_user_id s) = Inr fr
    \<and> (\<forall>m. wanted = Some m \<longrightarrow> n = m)"
proof -
  obtain fr s1 where rc: "client_receive ev s = (Inr fr, s1)"
    using assms(1) unfolding expect_ack_def by (auto simp: bindS_eq_Inr)
  have no_error: "fr_opcode fr \<noteq> ERROR"
    using assms(1) rc by (auto simp: expect_ack_def bindS_eq_Inr client_close_def updateS_def split: if_splits)
  have is_ack: "fr_opcode fr = ACK"
    using assms(1) rc no_error by (auto simp: expect_ack_def abort_protocol_def bindS_eq_Inr split: if_splits)
  have "bindS (liftS (parse_acknowledgement fr (max_payload ev))) (\<lambda>ack.
       if ak_acknowledged_opcode ack \<noteq> op then
         abort_protocol (lit ''expected ACK for '' @ opcode_name op @ lit '', got ACK for ''
           @ opcode_name (ak_acknowledged_opcode ack))
       else
         (case wanted of
            None \<Rightarrow> returnS (ak_next_offset ack)
          | Some n \<Rightarrow>
              if ak_next_offset ack \<noteq> n then
                abort_protocol (lit ''expected ACK next_offset '' @ dec_int n @ lit '', got '' @ dec_int (ak_next_offset ack))
              else returnS (ak_next_offset ack))) s1 = (Inr n, t)"
    using assms(1) rc is_ack by (simp add: expect_ack_def)
  then obtain ack where
    p: "parse_acknowledgement fr (max_payload ev) = Inr ack" "ak_acknowledged_opcode ack = op" "ak_next_offset ack = n"
    and t: "t = s1" "\<forall>m. wanted = Some m \<longrightarrow> n = m"
    by (cases wanted; cases "parse_acknowledgement fr (max_payload ev)")
      (auto simp: bindS_eq_Inr abort_protocol_def split: if_splits)
  note e = exchanged_receive [OF rc assms(2)]
  have "make_acknowledgement_frame \<lparr>ak_acknowledged_opcode = op, ak_next_offset = n\<rparr> (max_payload ev) (cl_user_id s) = Inr fr"
    using ack.parse_iff_make [of "max_payload ev" fr ack] e p by (cases ack) auto
  with e t show ?thesis by blast
qed

subsection \<open>Reading the source\<close>

lemma client_read_Inr:
  assumes "on_client_files (read_handle q pos n) s = (Inr chunk, t)" "cl_authenticated s"
  shows "chunk = take n (drop pos (file_data (cl_files s) q)) \<and> exchanged s [] [] t \<and> same_nodes (cl_files s) (cl_files t)"
  using exchanged_files [OF assms] by (auto dest: read_handle_Inr)

lemma same_data: "same_nodes fs fs' \<Longrightarrow> file_data fs' q = file_data fs q"
  by (rule lookup_same_nodes(7))

lemma hash_prefix_Inr:
  "hash_prefix ev q remaining hashed s = (Inr all, t) \<Longrightarrow> cl_authenticated s \<Longrightarrow>
     hashed = take (length hashed) (file_data (cl_files s) q) \<Longrightarrow>
     all = take (length hashed + remaining) (file_data (cl_files s) q) \<and> length all = length hashed + remaining
     \<and> exchanged s [] [] t \<and> same_nodes (cl_files s) (cl_files t)"
proof (induction ev q remaining hashed s rule: hash_prefix.induct)
  case (1 ev q remaining hashed s)
  let ?n = "min remaining (nat (chunk_size ev))"
  show ?case
  proof (cases "remaining = 0")
    case True
    then show ?thesis using "1.prems" by (simp add: hash_prefix.simps [of ev q 0] exchanged_refl)
  next
    case False
    obtain p u where rd: "on_client_files (read_handle q (length hashed) ?n) s = (p, u)" by fastforce
    then obtain data where p: "p = Inr data" and len: "\<not> (data = [] \<or> length data \<noteq> ?n)"
      and rest: "hash_prefix ev q (remaining - length data) (hashed @ data) u = (Inr all, t)"
      using "1.prems"(1) False
      by (cases p) (auto simp: hash_prefix.simps [of ev q remaining] Let_def split: if_splits)
    note c = client_read_Inr [OF rd [unfolded p] "1.prems"(2)]
    have d: "file_data (cl_files u) q = file_data (cl_files s) q" by (rule same_data) (use c in simp)
    have "hashed @ data = take (length hashed + length data) (file_data (cl_files s) q)"
      using c len "1.prems"(3) by (simp add: take_add)
    then have "hashed @ data = take (length (hashed @ data)) (file_data (cl_files u) q)" unfolding d length_append .
    moreover have "cl_authenticated u" using c by (simp add: exchanged_def)
    ultimately have "all = take (length (hashed @ data) + (remaining - length data)) (file_data (cl_files s) q)
        \<and> length all = length (hashed @ data) + (remaining - length data)
        \<and> exchanged u [] [] t \<and> same_nodes (cl_files u) (cl_files t)"
      using "1.IH" [OF False refl rd [unfolded p, symmetric] refl len rest] unfolding d by blast
    moreover have "length data \<le> remaining" using len by simp
    ultimately show ?thesis
      using c d exchanged_trans [of s "[]" "[]" u "[]" "[]" t] same_nodes_trans by auto
  qed
qed

lemma send_chunk_Inr:
  assumes "send_chunk ev off piece s = (Inr u, t)" "cl_authenticated s"
  shows "exchanged s (frame_bytes (chunk_frame (cl_user_id s) off piece)) [] t \<and> cl_files t = cl_files s \<and> piece_ok ev piece"
proof -
  obtain fr where fr: "make_file_chunk_frame \<lparr>fc_offset = off, fc_data = piece\<rparr> (chunk_size ev) (max_payload ev) (cl_user_id s) = Inr fr"
    and snd: "client_send ev fr s = (Inr (), t)"
    using assms(1) by (auto simp: send_chunk_def state_simps)
  have "piece_ok ev piece" using fr chunk.make_Inr by (simp add: chunk_body_def piece_ok_def)
  then show ?thesis using exchanged_send [OF snd assms(2)] make_chunk_frame [OF fr] by simp
qed

lemma send_chunks_Inr:
  assumes "0 < chunk_size ev"
  shows "send_chunks ev q total_size off hashed s = (Inr (n, all), t) \<Longrightarrow> cl_authenticated s \<Longrightarrow> 0 \<le> off \<Longrightarrow>
     \<exists>pieces. exchanged s (chunk_wire (cl_user_id s) off pieces) [] t \<and> list_all (piece_ok ev) pieces
       \<and> all = hashed @ concat pieces \<and> n = off + int (length (concat pieces))
       \<and> concat pieces = drop (nat off) (file_data (cl_files s) q) \<and> same_nodes (cl_files s) (cl_files t)"
  using assms
proof (induction ev q total_size off hashed s arbitrary: n all t rule: send_chunks.induct)
  case (1 ev q total_size off hashed s)
  let ?n = "nat (chunk_size ev)"
  obtain p u where rd: "on_client_files (read_handle q (nat off) ?n) s = (p, u)" by fastforce
  then obtain data where p: "p = Inr data"
    using "1.prems"(1) by (cases p) (auto simp: send_chunks.simps [of ev q])
  note c = client_read_Inr [OF rd [unfolded p] "1.prems"(2)]
  have auth: "cl_authenticated u" "cl_user_id u = cl_user_id s" using c by (auto simp: exchanged_def)
  show ?case
  proof (cases data)
    case Nil
    then have "(n, all) = (off, hashed) \<and> t = u" using "1.prems"(1) rd p by (simp add: send_chunks.simps [of ev q])
    moreover have "drop (nat off) (file_data (cl_files s) q) = []" using c Nil "1.prems"(4) by simp
    ultimately show ?thesis using c by (intro exI [of _ "[]"]) simp
  next
    case (Cons b bs)
    then have small: "\<not> off + int (length (b # bs)) > total_size"
      using "1.prems"(1) rd p by (auto simp: send_chunks.simps [of ev q] split: if_splits)
    obtain w v where sc: "send_chunk ev off (b # bs) u = (w, v)" by fastforce
    with small have w: "w = Inr ()" and rest: "send_chunks ev q total_size (off + int (length (b # bs))) (hashed @ b # bs) v = (Inr (n, all), t)"
      using "1.prems"(1) rd p Cons by (auto simp: send_chunks.simps [of ev q total_size off] split: sum.splits)
    note e = send_chunk_Inr [OF sc [unfolded w] auth(1)]
    have v: "cl_authenticated v" "cl_user_id v = cl_user_id s" using e auth(2) by (auto simp: exchanged_def)
    have "file_data (cl_files v) q = file_data (cl_files s) q" using c e by (simp add: same_data)
    with "1.IH" [OF rd [symmetric] p Cons small sc [symmetric] w rest v(1) _ "1.prems"(4)] v(2) "1.prems"(3) obtain pieces where
      ih: "exchanged v (chunk_wire (cl_user_id s) (off + int (length (b # bs))) pieces) [] t" "list_all (piece_ok ev) pieces"
        "all = (hashed @ b # bs) @ concat pieces" "n = off + int (length (b # bs)) + int (length (concat pieces))"
        "concat pieces = drop (nat (off + int (length (b # bs)))) (file_data (cl_files s) q)" "same_nodes (cl_files v) (cl_files t)"
      by auto
    define piece where "piece = b # bs"
    let ?rest = "drop (nat off) (file_data (cl_files s) q)"
    have piece: "piece = take ?n ?rest" using c Cons by (simp add: piece_def)
    have "piece @ drop (length piece) ?rest = ?rest"
      unfolding piece by (metis append_take_drop_id length_take min.cobounded2 min_def take_all)
    moreover have "concat pieces = drop (length piece) ?rest"
      using ih(5) "1.prems"(3) by (simp add: piece_def nat_add_distrib add.commute)
    ultimately have whole: "piece @ concat pieces = ?rest" by simp
    have "exchanged s ([] @ (frame_bytes (chunk_frame (cl_user_id s) off piece)
        @ chunk_wire (cl_user_id s) (off + int (length piece)) pieces)) ([] @ [] @ []) t"
      using exchanged_trans [OF conjunct1 [OF conjunct2 [OF c]] exchanged_trans [OF conjunct1 [OF e] ih(1)]]
      by (simp only: auth(2) piece_def)
    then have wire: "exchanged s (chunk_wire (cl_user_id s) off (piece # pieces)) [] t" by simp
    have same: "same_nodes (cl_files s) (cl_files t)"
      using c e ih(6) same_nodes_trans [of "cl_files s" "cl_files u" "cl_files t"] by simp
    have ok: "list_all (piece_ok ev) (piece # pieces)" using e ih(2) by (simp add: piece_def)
    have sums: "all = hashed @ concat (piece # pieces)" "n = off + int (length (concat (piece # pieces)))"
      using ih(3,4) by (simp_all add: piece_def)
    show ?thesis
      using wire ok sums same whole by (intro exI [of _ "piece # pieces"]) simp
  qed
qed

subsection \<open>The whole upload\<close>

lemma upload_stream_Inr:
  assumes "upload_stream ev q filename total_size s = (Inr (n, hashed), t)" "0 < chunk_size ev" "data = file_data (cl_files s) q"
  shows "\<exists>request ack1 off pieces. make_file_upload_frame
      \<lparr>fu_filename = filename, fu_total_size = total_size, fu_start_offset = 0\<rparr> (max_payload ev) (cl_user_id s) = Inr request
    \<and> make_acknowledgement_frame \<lparr>ak_acknowledged_opcode = FILE_UPLOAD, ak_next_offset = int off\<rparr> (max_payload ev) (cl_user_id s) = Inr ack1
    \<and> exchanged s (frame_bytes request @ chunk_wire (cl_user_id s) (int off) pieces) (frame_bytes ack1) t
    \<and> list_all (piece_ok ev) pieces \<and> concat pieces = drop off data \<and> off \<le> length data
    \<and> hashed = data \<and> n = int (length data) \<and> same_nodes (cl_files s) (cl_files t)"
proof -
  obtain request s1 off s2 prefix s3 where
    rq: "make_file_upload_frame \<lparr>fu_filename = filename, fu_total_size = total_size, fu_start_offset = 0\<rparr> (max_payload ev) (cl_user_id s) = Inr request"
    and snd: "client_send ev request s = (Inr (), s1)" and ack: "expect_ack ev FILE_UPLOAD None s1 = (Inr off, s2)"
    and hp: "hash_prefix ev q (nat off) [] s2 = (Inr prefix, s3)"
    and sc: "send_chunks ev q total_size off prefix s3 = (Inr (n, hashed), t)"
    using assms(1) by (auto simp: upload_stream_def bindS_eq_Inr client_close_def updateS_def split: if_splits)
  have "fr_opcode request \<noteq> LOGIN" using upload.make_wf [OF rq] by simp
  then have auth: "cl_authenticated s"
    using client_send_Inr [OF snd] by (auto simp: validate_outgoing_user_id_def split: if_splits)
  note e1 = exchanged_send [OF snd auth]
  then have auth1: "cl_authenticated s1" "cl_user_id s1 = cl_user_id s" by (simp_all add: exchanged_def)
  obtain ack1 where a: "exchanged s1 [] (frame_bytes ack1) s2" "cl_files s2 = cl_files s1"
    "make_acknowledgement_frame \<lparr>ak_acknowledged_opcode = FILE_UPLOAD, ak_next_offset = off\<rparr> (max_payload ev) (cl_user_id s) = Inr ack1"
    using expect_ack_Inr [OF ack auth1(1)] auth1(2) by auto
  have off: "0 \<le> off" using a(3) by (simp add: ack.make_Inr ack_body_def uint_fits_def)
  have auth2: "cl_authenticated s2" using a(1) by (simp add: exchanged_def)
  have files: "cl_files s2 = cl_files s" using e1 a(2) by simp
  have "prefix = take (length ([] :: byte list) + nat off) (file_data (cl_files s2) q) \<and> length prefix = length ([] :: byte list) + nat off
      \<and> exchanged s2 [] [] s3 \<and> same_nodes (cl_files s2) (cl_files s3)"
    by (rule hash_prefix_Inr [OF hp auth2]) simp
  then have h: "prefix = take (nat off) data" "length prefix = nat off" "exchanged s2 [] [] s3" "same_nodes (cl_files s2) (cl_files s3)"
    unfolding files assms(3) list.size add_0 by blast+
  have auth3: "cl_authenticated s3" "cl_user_id s3 = cl_user_id s"
    using exchanged_authenticated [OF h(3)] exchanged_authenticated [OF a(1)] auth1(2) by simp_all
  have data: "file_data (cl_files s3) q = data" using same_data [OF h(4)] by (simp add: files assms(3))
  obtain pieces where c: "exchanged s3 (chunk_wire (cl_user_id s) off pieces) [] t" "list_all (piece_ok ev) pieces"
    "hashed = prefix @ concat pieces" "n = off + int (length (concat pieces))" "concat pieces = drop (nat off) data"
    "same_nodes (cl_files s3) (cl_files t)"
    using send_chunks_Inr [OF assms(2) sc auth3(1) off] unfolding auth3(2) data by blast
  have "nat off \<le> length data" using h(1,2) by (simp add: min_def split: if_splits)
  moreover have "exchanged s (frame_bytes request @ chunk_wire (cl_user_id s) off pieces) (frame_bytes ack1) t"
    using exchanged_trans [OF exchanged_trans [OF exchanged_trans [OF conjunct1 [OF e1] a(1)] h(3)] c(1)] by simp
  moreover have "same_nodes (cl_files s) (cl_files t)" using same_nodes_trans [OF h(4) c(6)] by (simp add: files)
  ultimately show ?thesis
    using rq a(3) c(2-5) h(1) off
    by (intro exI [of _ request] exI [of _ ack1] exI [of _ "nat off"] exI [of _ pieces]) simp
qed

lemma relabelled_Inr:
  "tryS act (\<lambda>error. if is_os_error error then close_raise (m error) else raiseS error) s = (Inr v, t)
     \<longleftrightarrow> act s = (Inr v, t)"
  by (auto simp: tryS_def client_close_def updateS_def bindS_def split: prod.splits sum.splits)

lemma upload_file_facts:
  assumes "upload_file ev source remote s = (Inr res, t)" "canonical (cl_files s) source" "0 < chunk_size ev"
    and "data = file_data (cl_files s) source"
  shows "\<exists>request ack1 ack2 fr off pieces. make_file_upload_frame
      \<lparr>fu_filename = cu_remote_filename res, fu_total_size = int (length data), fu_start_offset = 0\<rparr> (max_payload ev) (cl_user_id s) = Inr request
    \<and> make_acknowledgement_frame \<lparr>ak_acknowledged_opcode = FILE_UPLOAD, ak_next_offset = int off\<rparr> (max_payload ev) (cl_user_id s) = Inr ack1
    \<and> make_acknowledgement_frame \<lparr>ak_acknowledged_opcode = FILE_CHECKSUM, ak_next_offset = int (length data)\<rparr> (max_payload ev) (cl_user_id s) = Inr ack2
    \<and> fr = checksum_message (cl_user_id s) (int (length data)) (ev_sha256 ev data) \<and> wf_frame (max_payload ev) fr
    \<and> exchanged s (frame_bytes request @ chunk_wire (cl_user_id s) (int off) pieces @ frame_bytes fr)
        (frame_bytes ack1 @ frame_bytes ack2) t
    \<and> list_all (piece_ok ev) pieces \<and> concat pieces = drop off data \<and> off \<le> length data
    \<and> same_nodes (cl_files s) (cl_files t) \<and> cu_bytes_sent res = int (length data)
    \<and> cu_sha256_digest res = ev_sha256 ev data"
proof -
  define filename where "filename = (case remote of None \<Rightarrow> path_name source | Some name \<Rightarrow> name)"
  obtain q s1 total_size s2 n hashed s3 fr s4 m where
    op: "on_client_files (open_existing source) s = (Inr q, s1)" and st: "on_client_files (fstat_size q) s1 = (Inr total_size, s2)"
    and us: "upload_stream ev q filename total_size s2 = (Inr (n, hashed), s3)" and n: "n = total_size"
    and mk: "make_file_checksum_frame \<lparr>fk_final_size = n, fk_sha256_digest = ev_sha256 ev hashed\<rparr> (max_payload ev) (cl_user_id s3) = Inr fr"
    and snd: "client_send ev fr s3 = (Inr (), s4)" and ack: "expect_ack ev FILE_CHECKSUM (Some n) s4 = (Inr m, t)"
    and res: "res = \<lparr>cu_source = source, cu_remote_filename = filename, cu_bytes_sent = n, cu_sha256_digest = ev_sha256 ev hashed\<rparr>"
    using assms(1) unfolding upload_file_def filename_def [symmetric] Let_def
    by (auto simp: bindS_eq_Inr relabelled_Inr client_close_def updateS_def split: prod.splits if_splits)
  have s12: "s1 = s\<lparr>cl_files := cl_files s1\<rparr>" "open_existing source (cl_files s) = (Inr q, cl_files s1)"
    "s2 = s1\<lparr>cl_files := cl_files s2\<rparr>" "fstat_size q (cl_files s1) = (Inr total_size, cl_files s2)"
    using op st by (auto simp: on_client_files_apply split: prod.splits)
  have q: "q = source" "same_nodes (cl_files s) (cl_files s1)" using open_existing_canonical [OF s12(2) assms(2)] by simp_all
  have "same_nodes (cl_files s1) (cl_files s2)"
    using s12(4) unfolding fstat_size_def by (auto elim!: os_callE)
  then have same: "same_nodes (cl_files s) (cl_files s2)" using same_nodes_trans [OF q(2)] by simp
  have data: "file_data (cl_files s2) q = data" unfolding q(1) assms(4) by (rule same_data [OF same])
  have user: "cl_user_id s2 = cl_user_id s" by (subst s12(3), simp, subst s12(1), simp)
  obtain request ack1 off pieces where u:
    "make_file_upload_frame \<lparr>fu_filename = filename, fu_total_size = total_size, fu_start_offset = 0\<rparr> (max_payload ev) (cl_user_id s) = Inr request"
    "make_acknowledgement_frame \<lparr>ak_acknowledged_opcode = FILE_UPLOAD, ak_next_offset = int off\<rparr> (max_payload ev) (cl_user_id s) = Inr ack1"
    "exchanged s2 (frame_bytes request @ chunk_wire (cl_user_id s) (int off) pieces) (frame_bytes ack1) s3"
    "list_all (piece_ok ev) pieces" "concat pieces = drop off data" "off \<le> length data" "hashed = data" "n = int (length data)"
    "same_nodes (cl_files s2) (cl_files s3)"
    using upload_stream_Inr [OF us assms(3) data [symmetric]] unfolding user by blast
  have auth: "cl_authenticated s2" "cl_authenticated s3" "cl_user_id s3 = cl_user_id s" using u(3) user by (simp_all add: exchanged_def)
  have "exchanged s [] [] s2"
  proof -
    have "cl_authenticated s" using auth(1) by (metis client.select_convs client.surjective client.update_convs s12(1,3))
    then show ?thesis using exchanged_files [OF op] exchanged_files [OF st] exchanged_trans [of s "[]" "[]" s1 "[]" "[]" s2]
      by (auto dest: exchanged_authenticated)
  qed
  note x3 = exchanged_trans [OF this u(3)]
  note e4 = exchanged_send [OF snd auth(2)]
  have auth4: "cl_authenticated s4" "cl_user_id s4 = cl_user_id s" using e4 auth(3) by (simp_all add: exchanged_def)
  obtain ack2 where a2: "exchanged s4 [] (frame_bytes ack2) t" "cl_files t = cl_files s4"
    "make_acknowledgement_frame \<lparr>ak_acknowledged_opcode = FILE_CHECKSUM, ak_next_offset = n\<rparr> (max_payload ev) (cl_user_id s) = Inr ack2"
    using expect_ack_Inr [OF ack auth4(1)] auth4(2) by auto
  have "exchanged s (frame_bytes request @ chunk_wire (cl_user_id s) (int off) pieces @ frame_bytes fr) (frame_bytes ack1 @ frame_bytes ack2) t"
    using exchanged_trans [OF exchanged_trans [OF x3 conjunct1 [OF e4]] a2(1)] by simp
  moreover have "fr = checksum_message (cl_user_id s) n (ev_sha256 ev data)" "wf_frame (max_payload ev) fr"
    using mk u(7) auth(3) checksum.make_wf [OF mk] by (auto simp: checksum.make_Inr checksum_body_def checksum_message_def)
  moreover have "same_nodes (cl_files s) (cl_files t)" using same_nodes_trans [OF same u(9)] e4 a2(2) by simp
  ultimately show ?thesis
    using u(1,2,4-8) a2(3) res n
    by (intro exI [of _ request] exI [of _ ack1] exI [of _ ack2] exI [of _ fr] exI [of _ off] exI [of _ pieces]) simp
qed

end
