(* ===== verification/UploadExample.thy ===== *)
theory UploadExample
  imports UploadWire ClientUploadSafety
begin

section \<open>An example upload\<close>

text \<open>
  The client uploads the three bytes of a file as \<open>g\<close>, in one chunk; the server has no such file.
  Both sides are evaluated on the frames of this transfer.
\<close>

subsection \<open>The client\<close>

definition upload_request :: frame where
  "upload_request = file_frame FILE_UPLOAD [0, 1, 103, 0, 0, 0, 0, 0, 0, 0, 3, 0, 0, 0, 0, 0, 0, 0, 0]"

definition upload_chunk :: frame where
  "upload_chunk = file_frame FILE_CHUNK [0, 0, 0, 0, 0, 0, 0, 0, 1, 2, 3]"

lemma upload_frames_wf:
  "wf_frame 1024 upload_request" "fr_user_id upload_request = 1" "fr_opcode upload_request = FILE_UPLOAD"
  "wf_frame 1024 upload_chunk" "fr_user_id upload_chunk = 1" "fr_opcode upload_chunk = FILE_CHUNK"
  unfolding upload_request_def upload_chunk_def by (simp_all add: example_frames_wf) (simp_all add: file_frame_def)

lemma upload_frames:
  "make_file_upload_frame \<lparr>fu_filename = [103], fu_total_size = 3, fu_start_offset = 0\<rparr> 1024 1 = Inr upload_request"
  "make_file_chunk_frame \<lparr>fc_offset = 0, fc_data = [1, 2, 3]\<rparr> 512 1024 1 = Inr upload_chunk"
  "make_file_checksum_frame \<lparr>fk_final_size = 3, fk_sha256_digest = replicate 31 0 @ [3]\<rparr> 1024 1 = Inr digest_frame"
  "parse_acknowledgement (ack_frame 18 0) 1024 = Inr \<lparr>ak_acknowledged_opcode = FILE_UPLOAD, ak_next_offset = 0\<rparr>"
  "parse_acknowledgement (ack_frame 23 3) 1024 = Inr \<lparr>ak_acknowledged_opcode = FILE_CHECKSUM, ak_next_offset = 3\<rparr>"
proof -
  have "utf8_encode [103] = Some [103]" by code_simp
  then have "filename_payload [103] = Inr [0, 1, 103]"
    by (simp add: filename_payload_def encode_filename_def lit_def MAX_FILENAME_BYTES_def eval_bytes)
  then show "make_file_upload_frame \<lparr>fu_filename = [103], fu_total_size = 3, fu_start_offset = 0\<rparr> 1024 1 = Inr upload_request"
    by (simp add: make_file_upload_frame_def run_make upload_request_def file_frame_def)
qed (simp_all add: upload_chunk_def digest_frame_def example_frames, simp add: run_make run_parse ack_frame_def)

lemma upload_acks:
  "make_acknowledgement_frame \<lparr>ak_acknowledged_opcode = FILE_UPLOAD, ak_next_offset = 0\<rparr> 1024 1 = Inr (ack_frame 18 0)"
  using ack.parse_iff_make [of 1024 "ack_frame 18 0" "\<lparr>ak_acknowledged_opcode = FILE_UPLOAD, ak_next_offset = 0\<rparr>"]
  by (simp add: upload_frames example_frames_wf)

lemma parse_upload_request:
  "parse_file_upload upload_request 1024 = Inr \<lparr>fu_filename = [103], fu_total_size = 3, fu_start_offset = 0\<rparr>"
  by (rule upload.parse_make [OF upload_frames(1) TrueI])

lemma expect_example_ack:
  assumes "parse_acknowledgement (ack_frame op n) 1024 = Inr \<lparr>ak_acknowledged_opcode = oc, ak_next_offset = m\<rparr>"
    and "wanted = None \<or> wanted = Some m"
  shows "expect_ack example_environment oc wanted (frames_client files (ack_frame op n # frames) out)
    = (Inr m, frames_client files frames out)"
  using assms by (auto simp: expect_ack_def bindS_def frames_client_run example_frames_wf)

lemma example_chunks:
  "send_chunks example_environment [[115], [97], [102]] 3 0 [] (frames_client example_files frames out)
     = (Inr (3, [1, 2, 3]), frames_client example_files frames (out @ frame_bytes upload_chunk))"
proof -
  have "send_chunk example_environment 0 [1, 2, 3] (frames_client example_files frames out)
      = (Inr (), frames_client example_files frames (out @ frame_bytes upload_chunk))"
    by (simp add: send_chunk_def bindS_def readS_def upload_frames frames_client_run upload_frames_wf)
  then show ?thesis
    by (simp add: send_chunks.simps [of _ _ _ 0] send_chunks.simps [of _ _ _ 3] frames_client_files read_example)
qed

definition upload_wire :: "byte list" where
  "upload_wire = frame_bytes upload_chunk @ frame_bytes digest_frame"

lemma example_client_upload:
  "upload_file example_environment [[115], [97], [102]] (Some [103]) (frames_client example_files [ack_frame 18 0, ack_frame 23 3] [])
     = (Inr \<lparr>cu_source = [[115], [97], [102]], cu_remote_filename = [103], cu_bytes_sent = 3,
          cu_sha256_digest = replicate 31 0 @ [3]\<rparr>,
        frames_client example_files [] (frame_bytes upload_request @ upload_wire))"
proof -
  have op: "open_existing [[115], [97], [102]] example_files = (Inr [[115], [97], [102]], example_files)"
    by (simp add: open_existing_def os_call_def example_file example_resolves example_nodes)
  have st: "fstat_size [[115], [97], [102]] example_files = (Inr 3, example_files)"
    by (simp add: fstat_size_def os_call_def example_file)
  have us: "upload_stream example_environment [[115], [97], [102]] [103] 3 (frames_client example_files [ack_frame 18 0, ack_frame 23 3] [])
      = (Inr (3, [1, 2, 3]), frames_client example_files [ack_frame 23 3] (frame_bytes upload_request @ frame_bytes upload_chunk))"
    by (simp add: upload_stream_def bindS_def readS_def upload_frames frames_client_run upload_frames_wf
        expect_example_ack hash_prefix.simps [of _ _ 0] example_chunks)
  show ?thesis
    by (simp add: upload_file_def bindS_def readS_def tryS_def is_symlink_def example_nodes frames_client_files op st us Let_def
        example_digest upload_frames frames_client_run digest_frame_wf expect_example_ack upload_wire_def)
qed

subsection \<open>The server\<close>

definition upload_target :: path where "upload_target = [[115], [97], [103]]"
definition upload_part :: path where "upload_part = [[115], [97], [103, 46, 112, 97, 114, 116]]"
definition upload_meta :: path where "upload_meta = [[115], [97], [103, 46, 112, 97, 114, 116, 46, 109, 101, 116, 97]]"
definition upload_temporary :: "pystr \<Rightarrow> path" where
  "upload_temporary r = [[115], [97], [46, 103, 46, 112, 97, 114, 116, 46, 109, 101, 116, 97, 46] @ r @ lit ''.tmp'']"

lemmas upload_paths = upload_target_def upload_part_def upload_meta_def upload_temporary_def

lemma upload_paths_distinct [simp]:
  "upload_part \<noteq> upload_target" "upload_meta \<noteq> upload_target" "upload_part \<noteq> upload_meta" "upload_meta \<noteq> upload_part"
  "upload_target \<noteq> upload_part" "upload_target \<noteq> upload_meta"
  "upload_temporary r \<noteq> upload_meta" "upload_temporary r \<noteq> upload_part" "upload_temporary r \<noteq> upload_target"
  "upload_part \<noteq> upload_temporary r" "upload_target \<noteq> upload_temporary r" "upload_meta \<noteq> upload_temporary r"
  by (simp_all add: upload_paths)

definition example_plan :: upload_plan where
  "example_plan = \<lparr>up_filename = [103], up_total_size = 3, up_start_offset = 0, up_target = upload_target,
     up_partial = upload_part, up_meta = upload_meta, up_username = [97]\<rparr>"

lemma example_plan_fields [simp]:
  "up_filename example_plan = [103]" "up_total_size example_plan = 3" "up_target example_plan = upload_target"
  "up_partial example_plan = upload_part" "up_meta example_plan = upload_meta" "up_start_offset example_plan = 0"
  by (simp_all add: example_plan_def)

definition serving :: "file_system \<Rightarrow> frame list \<Rightarrow> byte list \<Rightarrow> session" where
  "serving fs frames out = (frames_session RECEIVING_UPLOAD frames out)\<lparr>ss_files := fs\<rparr>"

lemma serving_fields [simp]:
  "ss_files (serving fs frames out) = fs" "ss_user_id (serving fs frames out) = 1" "ss_username (serving fs frames out) = Some [97]"
  "ss_state (serving fs frames out) = RECEIVING_UPLOAD" "ss_socket (serving fs frames out) = frames_socket frames out"
  "(serving fs frames out)\<lparr>ss_files := fs'\<rparr> = serving fs' frames out"
  "consume_bandwidth n (serving fs frames out) = (Inr 0, serving fs frames out)"
  by (simp_all add: serving_def consume_bandwidth_def)

lemma serving_run:
  assumes "wf_frame 1024 fr" "fr_user_id fr = 1"
  shows "session_send example_environment fr (serving fs frames out) = (Inr (), serving fs frames (out @ frame_bytes fr))"
    and "session_receive example_environment (serving fs (fr # frames) out) = (Inr fr, serving fs frames out)"
  using assms
  by (simp_all add: session_send_def session_receive_def bindS_def readS_def tryS_def on_socket_apply Let_def
      frames_send frames_receive) (simp_all add: serving_def frames_session_def)

lemma serving_files: "on_files act (serving fs frames out) = (case act fs of (r, fs') \<Rightarrow> (r, serving fs' frames out))"
  by (simp add: on_files_apply)

text \<open>A disk without faults on which the partial file holds \<open>d\<close>.\<close>

definition ready :: "file_system \<Rightarrow> byte list \<Rightarrow> pystr list \<Rightarrow> bool" where
  "ready fs d rs \<longleftrightarrow> fs_faults fs = [] \<and> fs_random fs = rs \<and> (\<exists>t. node_at fs upload_part = Some (RegularFile d t))
     \<and> node_at fs upload_target = None \<and> node_at fs upload_meta \<noteq> Some Directory
     \<and> (\<forall>r. node_at fs (upload_temporary r) = None)"

lemma save_example:
  assumes "ready fs d (r # rs)" "0 \<le> n" "n \<le> 3"
  obtains fs' where "save_progress example_environment example_plan n (serving fs frames out) = (Inr (), serving fs' frames out)"
    "ready fs' d rs"
proof -
  let ?tmp = "upload_temporary r"
  let ?json = "ev_json_dumps example_environment (metadata_json (up_username example_plan) [103] 3 n (fs_now fs))"
  define fs1 where "fs1 = set_node ?tmp (RegularFile [] (fs_now fs)) (fs\<lparr>fs_random := rs\<rparr>)"
  define fs2 where "fs2 = set_node ?tmp (RegularFile ?json (fs_now fs)) fs1"
  define fs3 where "fs3 = set_node upload_meta (RegularFile ?json (fs_now fs)) (drop_node ?tmp fs2)"
  have name: "parent upload_meta = [[115], [97]]"
    "[lit ''.'' @ path_name upload_meta @ lit ''.'' @ r @ lit ''.tmp''] = [last ?tmp]"
    by (simp_all add: upload_paths parent_def path_name_def lit_def)
  have mk: "mkstemp (parent upload_meta) (lit ''.'' @ path_name upload_meta @ lit ''.'') (lit ''.tmp'') fs = (Inr ?tmp, fs1)"
    using assms(1) name by (simp add: mkstemp_def os_call_def ready_def Let_def fs1_def upload_temporary_def)
  have wr: "write_handle ?tmp 0 ?json fs1 = (Inr (), fs2)"
    using assms(1) by (simp add: write_handle_def os_call_def ready_def fs1_def fs2_def file_data_def)
  have rp: "replace_with_retry METADATA_REPLACE_ATTEMPTS ?tmp upload_meta fs2 = (Inr (), fs3)"
    using assms(1)
    by (simp add: METADATA_REPLACE_ATTEMPTS_def numeral_eq_Suc tryS_def replace_file_def os_call_def ready_def fs1_def fs2_def fs3_def)
  have un: "unlink True ?tmp fs3 = (Inr (), fs3)"
    using assms(1) by (simp add: unlink_def os_call_def ready_def fs1_def fs2_def fs3_def)
  have "save_progress example_environment example_plan n (serving fs frames out) = (Inr (), serving fs3 frames out)"
    using assms(2,3)
    by (simp add: save_progress_def serving_files save_part_metadata_def bindS_def readS_def Let_def mk wr rp un finallyS_def)
  moreover have "ready fs3 d rs"
    using assms(1) by (auto simp: ready_def fs1_def fs2_def fs3_def)
  ultimately show thesis by (rule that)
qed

lemma start_example:
  assumes "ready fs [] (r # rs)"
  obtains fs' where "up_start example_environment example_plan upload_part 0 (serving fs frames out)
      = (Inr (), serving fs' frames (out @ frame_bytes (ack_frame 18 0)))" "ready fs' [] rs"
proof -
  define fs1 where "fs1 = set_node upload_part (RegularFile [] (fs_now fs)) fs"
  have tr: "truncate_handle upload_part 0 fs = (Inr (), fs1)"
    using assms by (auto simp: truncate_handle_def os_call_def ready_def fs1_def file_data_def)
  have "ready fs1 [] (r # rs)" using assms by (auto simp: ready_def fs1_def)
  then obtain fs' where "save_progress example_environment example_plan 0 (serving fs1 frames out) = (Inr (), serving fs' frames out)"
    "ready fs' [] rs" using save_example [of fs1 "[]" r rs 0 frames out] by auto
  then show thesis
    by (intro that [of fs'])
      (simp_all add: up_start_def bindS_def readS_def serving_files tr send_ack_def upload_acks serving_run example_frames_wf)
qed

definition locals :: "session \<Rightarrow> byte list \<Rightarrow> upload_state" where
  "locals s d = \<lparr>us_session = s, us_received = int (length d), us_digest = d, us_published = False, us_clean = False\<rparr>"

lemma locals_fields [simp]:
  "us_session (locals s d) = s" "us_received (locals s d) = int (length d)" "us_digest (locals s d) = d"
  "us_published (locals s d) = False" "us_clean (locals s d) = False"
  "(locals s d)\<lparr>us_session := s'\<rparr> = locals s' d"
  by (simp_all add: locals_def)

lemma in_session_locals: "in_session act (locals s d) = (case act s of (r, t) \<Rightarrow> (r, locals t d))"
  by (simp add: in_session_def partS_def)

lemma chunk_example:
  assumes "ready fs [] (r # rs)"
  obtains fs' where "up_turn example_environment example_plan upload_part (locals (serving fs (upload_chunk # frames) out) [])
      = (Inr (Proceed Again), locals (serving fs' frames out) [1, 2, 3])" "ready fs' [1, 2, 3] rs"
proof -
  define fs1 where "fs1 = set_node upload_part (RegularFile [1, 2, 3] (fs_now fs)) fs"
  have wr: "write_handle upload_part 0 [1, 2, 3] fs = (Inr (), fs1)" "flush_handle upload_part fs1 = (Inr (), fs1)"
    using assms by (auto simp: write_handle_def flush_handle_def os_call_def ready_def fs1_def file_data_def)
  have "ready fs1 [1, 2, 3] (r # rs)" using assms by (auto simp: ready_def fs1_def)
  then obtain fs' where "save_progress example_environment example_plan 3 (serving fs1 frames out) = (Inr (), serving fs' frames out)"
    and fs': "ready fs' [1, 2, 3] rs" using save_example [of fs1 "[1, 2, 3]" r rs 3 frames out] by auto
  then have sv: "in_session (save_progress example_environment example_plan 3) (locals (serving fs1 frames out) [1, 2, 3])
      = (Inr (), locals (serving fs' frames out) [1, 2, 3])" by (simp add: in_session_locals)
  have parsed: "parse_file_chunk upload_chunk 512 1024 = Inr \<lparr>fc_offset = 0, fc_data = [1, 2, 3]\<rparr>"
    using example_parse by (simp add: upload_chunk_def)
  have wf: "or_up_failure example_environment example_plan FILE_CHUNK message
        (bindS (on_files (write_handle upload_part 0 [1, 2, 3])) (\<lambda>_. on_files (flush_handle upload_part))) (locals (serving fs frames out) [])
      = (Inr (Proceed ()), locals (serving fs1 frames out) [])" for message
    by (simp add: or_up_failure_def or_file_failure_def bindS_def readS_def tryS_def in_session_locals serving_files wr)
  have up: "(locals s [])\<lparr>us_digest := [1, 2, 3], us_received := 3\<rparr> = locals s [1, 2, 3]" for s
    by (simp add: locals_def)
  have "up_chunk example_environment example_plan upload_part upload_chunk (locals (serving fs frames out) [])
      = (Inr (Proceed Again), locals (serving fs' frames out) [1, 2, 3])"
    by (simp add: up_chunk_def parsed except_protocol_def Let_def bindF_def bindS_apply readS_def wf updateS_def up
        in_session_locals [of "consume_bandwidth 3"] sv)
  then have "up_turn example_environment example_plan upload_part (locals (serving fs (upload_chunk # frames) out) [])
      = (Inr (Proceed Again), locals (serving fs' frames out) [1, 2, 3])"
    by (simp add: up_turn_def bindS_def in_session_locals serving_run upload_frames_wf)
  then show thesis using fs' by (rule that)
qed

lemma digest_example:
  assumes "ready fs [1, 2, 3] rs"
  shows "up_turn example_environment example_plan upload_part (locals (serving fs (digest_frame # frames) out) [1, 2, 3])
      = (Inr (Proceed Complete), locals (serving fs frames out) [1, 2, 3])"
proof -
  have fl: "flush_handle upload_part fs = (Inr (), fs)" using assms by (simp add: flush_handle_def os_call_def ready_def)
  have rc: "session_receive example_environment (serving fs (digest_frame # frames) out) = (Inr digest_frame, serving fs frames out)"
    by (rule serving_run(2) [OF digest_frame_wf(1,2)])
  have ck: "up_checksum example_environment example_plan upload_part digest_frame (locals (serving fs frames out) [1, 2, 3])
      = (Inr (Proceed Complete), locals (serving fs frames out) [1, 2, 3])"
    unfolding up_checksum_def example_environment_simps example_parse except_protocol_def
    by (simp add: bindS_def readS_def bindF_def or_up_failure_def or_file_failure_def tryS_def in_session_locals serving_files fl example_digest)
  show ?thesis
    unfolding up_turn_def by (simp add: bindS_def in_session_locals rc digest_frame_wf ck)
qed

lemma publish_example:
  assumes "ready fs [1, 2, 3] rs"
  obtains fs' t where "up_publish example_environment example_plan (locals (serving fs frames out) [1, 2, 3])
      = (Inr (Proceed ()), (locals (serving fs' frames out) [1, 2, 3])\<lparr>us_published := True\<rparr>)" "fs_faults fs' = []"
      "node_at fs' upload_part = None" "node_at fs' upload_meta = None"
proof -
  obtain t where t: "node_at fs upload_part = Some (RegularFile [1, 2, 3] t)" using assms by (auto simp: ready_def)
  define fs1 where "fs1 = set_node upload_target (RegularFile [1, 2, 3] t) fs"
  define fs2 where "fs2 = drop_node upload_part fs1"
  define fs' where "fs' = (if node_at fs upload_meta = None then fs2 else drop_node upload_meta fs2)"
  have "hard_link upload_part upload_target fs = (Inr (), fs1)" "unlink False upload_part fs1 = (Inr (), fs2)"
      "unlink True upload_meta fs2 = (Inr (), fs')"
    using assms t by (auto simp: hard_link_def unlink_def os_call_def ready_def fs1_def fs2_def fs'_def split: node.splits option.splits)
  then have "up_publish example_environment example_plan (locals (serving fs frames out) [1, 2, 3])
      = (Inr (Proceed ()), (locals (serving fs' frames out) [1, 2, 3])\<lparr>us_published := True\<rparr>)"
    by (simp add: up_publish_def publish_rest_def bindS_def tryS_def in_session_locals serving_files set_published_def updateS_def
        remove_quietly_def) (simp add: locals_def in_session_def partS_def serving_files tryS_def)
  moreover have "fs_faults fs' = []" "node_at fs' upload_part = None" "node_at fs' upload_meta = None"
    using assms by (auto simp: ready_def fs'_def fs2_def fs1_def)
  ultimately show thesis by (rule that)
qed

subsection \<open>The whole handler\<close>

definition upload_files :: file_system where
  "upload_files = example_files\<lparr>fs_random := [[120], [121]]\<rparr>"

lemma upload_files_nodes: "node_at upload_files p = node_at example_files p" "fs_faults upload_files = []"
  "fs_random upload_files = [[120], [121]]"
  by (simp_all add: upload_files_def node_at_def) (simp add: example_files_def)

lemma upload_files_resolve:
  "resolve upload_files [[115]] = Some [[115]]" "resolve upload_files [[115], [97]] = Some [[115], [97]]"
  "resolve upload_files upload_target = Some upload_target" "resolve upload_files upload_part = Some upload_part"
  "resolve upload_files upload_meta = Some upload_meta"
  by (simp_all add: resolve_def MAX_LINKS_def upload_files_nodes example_nodes upload_paths numeral_eq_Suc)

lemma upload_files_missing:
  "node_at upload_files upload_target = None" "node_at upload_files upload_part = None" "node_at upload_files upload_meta = None"
  "path_exists upload_files upload_target = False" "path_exists upload_files upload_part = False"
  "path_exists upload_files upload_meta = False" "is_symlink upload_files upload_part = False"
  "is_symlink upload_files upload_meta = False" "is_symlink upload_files upload_target = False"
  by (simp_all add: path_exists_def followed_def is_symlink_def upload_files_resolve)
    (simp_all add: upload_files_nodes example_nodes upload_paths)

lemma resolve_upload: "resolve_namespace_path upload_files [[115], [97]] [103] False False = Inr upload_target"
proof -
  have "check_namespace_name [103] False = Inr ()"
    by (simp add: check_namespace_name_def is_internal_file_def ends_with_def INTERNAL_EXACT_NAMES_def lit_def)
  moreover have "[[115], [97], [103]] = upload_target" by (simp add: upload_paths)
  ultimately show ?thesis
    by (simp add: resolve_namespace_path_def resolve_or_raise_def relative_to_def upload_files_resolve upload_files_missing)
      (simp add: upload_paths)
qed

lemma upload_part_paths: "get_part_paths upload_target = (upload_part, upload_meta)"
  by (simp add: get_part_paths_def with_name_def path_name_def upload_paths lit_def)

lemma prepare_upload:
  "up_prepare example_environment upload_request (serving upload_files frames out)
     = (Inr (Proceed example_plan), serving upload_files frames out)"
proof -
  have mk: "mkdir_parents [[115], [97]] upload_files = (Inr (), upload_files)"
    by (simp add: mkdir_parents_def os_call_def upload_files_nodes followed_def upload_files_resolve example_nodes)
  have cl: "cleanup_expired_partial_pair upload_part upload_meta 60 upload_files = (Inr False, upload_files)"
    using upload_files_missing
    by (simp add: cleanup_expired_partial_pair_def path_test_def os_call_def upload_files_nodes(2) bindS_def readS_def
        tryS_def is_file_def path_exists_def is_expired_def)
  have st: "session_storage_directory example_environment (serving upload_files frames out)
      = (Inr [[115], [97]], serving upload_files frames out)"
    by (simp add: session_storage_directory_def bindS_def readS_def)
  show ?thesis
    by (simp add: up_prepare_def parse_upload_request bindS_apply readS_def st except_protocol_def Let_def bindF_def
        resolve_upload upload_part_paths or_file_failure_def tryS_def serving_files mk cl upload_files_missing)
      (simp add: example_plan_def)
qed

lemma begin_upload:
  "up_resume example_environment example_plan (serving upload_files frames out)
     = (Inr (Proceed (0, [])), serving upload_files frames out)"
  "up_open example_environment example_plan 0 (serving upload_files frames out)
     = (Inr (Proceed upload_part), serving (set_node upload_part (RegularFile [] (fs_now upload_files)) upload_files) frames out)"
proof -
  have "open_truncating upload_part upload_files
      = (Inr upload_part, set_node upload_part (RegularFile [] (fs_now upload_files)) upload_files)"
    by (simp add: open_truncating_def os_call_def upload_files_nodes(2) upload_files_resolve upload_files_missing)
  then show "up_open example_environment example_plan 0 (serving upload_files frames out)
     = (Inr (Proceed upload_part), serving (set_node upload_part (RegularFile [] (fs_now upload_files)) upload_files) frames out)"
    by (simp add: up_open_def or_file_failure_def bindS_def readS_def tryS_def upload_files_missing serving_files)
qed (simp add: up_resume_def bindS_def readS_def upload_files_missing)

lemma ready_upload: "ready (set_node upload_part (RegularFile [] t) upload_files) [] [[120], [121]]"
  by (simp add: ready_def upload_files_missing upload_files_nodes(2,3))
    (simp add: upload_temporary_def upload_files_nodes example_nodes)

lemma upload_turns:
  assumes "ready fs [] (r # rs)"
  obtains fs' where "upload_loop example_environment example_plan upload_part (locals (serving fs [upload_chunk, digest_frame] out) [])
      = (Inr (Proceed ()), locals (serving fs' [] out) [1, 2, 3])" "ready fs' [1, 2, 3] rs"
proof -
  obtain fs' where c: "up_turn example_environment example_plan upload_part (locals (serving fs [upload_chunk, digest_frame] out) [])
      = (Inr (Proceed Again), locals (serving fs' [digest_frame] out) [1, 2, 3])" "ready fs' [1, 2, 3] rs"
    using chunk_example [OF assms] .
  show thesis
    by (rule that [OF _ c(2)])
      (simp add: upload_loop.simps [of _ _ _ "locals _ []"] upload_loop.simps [of _ _ _ "locals _ [1, 2, 3]"] c(1) digest_example [OF c(2)])
qed

lemma finally_example:
  assumes "fs_faults fs = []" "node_at fs upload_part = None" "node_at fs upload_meta = None" "us_published s"
    and "us_session s = serving fs frames out"
  shows "up_finally example_plan s = (Inr (), s)"
proof -
  have "unlink True upload_part fs = (Inr (), fs)" "unlink True upload_meta fs = (Inr (), fs)"
    using assms by (simp_all add: unlink_def os_call_def)
  then show ?thesis
    using assms by (simp add: up_finally_def bindS_def readS_def discard_partial_def remove_quietly_def in_session_def
        partS_def tryS_def serving_files)
qed

definition upload_acknowledgements :: "byte list" where
  "upload_acknowledgements = frame_bytes (ack_frame 18 0) @ frame_bytes (ack_frame 23 3)"

lemma example_upload:
  obtains fs where "handle_upload example_environment upload_request (serving upload_files [upload_chunk, digest_frame] [])
     = (Inr (up_result [103] 3 True (Some True) None), serving fs [] upload_acknowledgements)"
proof -
  define fs0 where "fs0 = set_node upload_part (RegularFile [] (fs_now upload_files)) upload_files"
  have "ready fs0 [] [[120], [121]]" unfolding fs0_def by (rule ready_upload)
  then obtain fs1 where st: "up_start example_environment example_plan upload_part 0 (serving fs0 [upload_chunk, digest_frame] [])
      = (Inr (), serving fs1 [upload_chunk, digest_frame] ([] @ frame_bytes (ack_frame 18 0)))" and r1: "ready fs1 [] [[121]]"
    by (rule start_example)
  obtain fs2 where lp: "upload_loop example_environment example_plan upload_part
        (locals (serving fs1 [upload_chunk, digest_frame] ([] @ frame_bytes (ack_frame 18 0))) [])
      = (Inr (Proceed ()), locals (serving fs2 [] ([] @ frame_bytes (ack_frame 18 0))) [1, 2, 3])" and r2: "ready fs2 [1, 2, 3] []"
    using upload_turns [OF r1] .
  obtain fs3 t where pb: "up_publish example_environment example_plan (locals (serving fs2 [] ([] @ frame_bytes (ack_frame 18 0))) [1, 2, 3])
      = (Inr (Proceed ()), (locals (serving fs3 [] ([] @ frame_bytes (ack_frame 18 0))) [1, 2, 3])\<lparr>us_published := True\<rparr>)"
    and f3: "fs_faults fs3 = []" "node_at fs3 upload_part = None" "node_at fs3 upload_meta = None"
    using publish_example [OF r2] .
  let ?last = "(locals (serving fs3 [] upload_acknowledgements) [1, 2, 3])\<lparr>us_published := True\<rparr>"
  have ak: "send_ack example_environment FILE_CHECKSUM 3 (serving fs3 [] ([] @ frame_bytes (ack_frame 18 0)))
      = (Inr (), serving fs3 [] upload_acknowledgements)"
    by (simp add: send_ack_def bindS_def readS_def example_acks serving_run example_frames_wf upload_acknowledgements_def)
  have tr: "up_transfer example_environment example_plan upload_part 0 (locals (serving fs0 [upload_chunk, digest_frame] []) [])
      = (Inr (Proceed (up_result [103] 3 True (Some True) None)), ?last)"
    using st lp pb ak
    by (simp add: up_transfer_def bindS_def bindF_def readS_def in_session_locals)
      (simp add: in_session_def partS_def locals_def)
  have fi: "up_finally example_plan ?last = (Inr (), ?last)"
    using f3 by (intro finally_example [of fs3 _ "[]" upload_acknowledgements]) simp_all
  have "start_locals 0 [] s = locals s []" for s by (simp add: start_locals_def locals_def)
  then have "with_locals (start_locals 0 []) (finallyS (up_transfer example_environment example_plan upload_part 0) (up_finally example_plan))
        (serving fs0 [upload_chunk, digest_frame] [])
      = (Inr (Proceed (up_result [103] 3 True (Some True) None)), serving fs3 [] upload_acknowledgements)"
    by (simp add: with_locals_def finallyS_def tr fi)
  then show thesis
    by (intro that [of fs3])
      (simp add: handle_upload_def bindS_apply bindF_def prepare_upload begin_upload fs0_def [symmetric])
qed

end
