(* ===== verification/DownloadEndToEnd.thy ===== *)
theory DownloadEndToEnd
  imports ClientDownloadSafety
begin

section \<open>A download seen from both ends\<close>

text \<open>
  The server's \<open>handle_download\<close> and the client's \<open>download_file\<close> run on the two ends of one
  connection: the bytes the one sends are the bytes the other finds in its stream.  Frames are
  self-delimiting, so both ends see the same offer, the same chunks and the same digest.
\<close>

subsection \<open>Frames are self-delimiting\<close>

lemma frame_bytes_unique:
  assumes "wf_frame mx a" "wf_frame mx b" "mx < 2 ^ 32 - 4" "frame_bytes a @ x = frame_bytes b @ y"
  shows "a = b \<and> x = y"
proof -
  have "((Inr (Some a) :: exc + frame option), x) = (Inr (Some b), y)"
    using parse_frame_bytes [OF assms(1,3), of x] unfolding assms(4) parse_frame_bytes [OF assms(2,3), of y] by (rule sym)
  then show ?thesis by simp
qed

lemma chunk_frame_wf:
  "piece_ok ev piece \<Longrightarrow> 8 + chunk_size ev \<le> max_payload ev \<Longrightarrow> 0 \<le> u \<Longrightarrow> u \<le> MAX_USER_ID \<Longrightarrow>
     wf_frame (max_payload ev) (chunk_frame u off piece)"
  by (simp add: wf_frame_def chunk_frame_def piece_ok_def)

lemma chunk_wire_unique:
  assumes "chunk_wire u off ps @ frame_bytes a @ x = chunk_wire u off qs @ frame_bytes b @ y"
    and "list_all (piece_ok ev) ps" "list_all (piece_ok ev) qs"
    and config: "8 + chunk_size ev \<le> max_payload ev" "max_payload ev < 2 ^ 32 - 4" "0 \<le> u" "u \<le> MAX_USER_ID"
    and ends: "wf_frame (max_payload ev) a" "wf_frame (max_payload ev) b" "fr_opcode a = FILE_CHECKSUM" "fr_opcode b = FILE_CHECKSUM"
  shows "ps = qs \<and> a = b \<and> x = y"
  using assms(1-3)
proof (induction ps arbitrary: off qs)
  case Nil
  show ?case
  proof (cases qs)
    case Nil
    then show ?thesis using frame_bytes_unique [OF ends(1,2) config(2)] Nil.prems(1) by simp
  next
    case (Cons q qs')
    then have "a = chunk_frame u off q"
      using frame_bytes_unique [OF ends(1) chunk_frame_wf [of ev q u off] config(2)] Nil.prems config by simp
    then show ?thesis using ends(3) by (simp add: chunk_frame_def)
  qed
next
  case (Cons p ps)
  have p: "wf_frame (max_payload ev) (chunk_frame u off p)" using Cons.prems(2) config by (simp add: chunk_frame_wf)
  show ?case
  proof (cases qs)
    case Nil
    then have "chunk_frame u off p = b"
      using frame_bytes_unique [OF p ends(2) config(2)] Cons.prems(1) by simp
    then show ?thesis using ends(4) by (auto simp: chunk_frame_def)
  next
    case (Cons q qs')
    have "wf_frame (max_payload ev) (chunk_frame u off q)" using Cons.prems(3) Cons config by (simp add: chunk_frame_wf)
    from frame_bytes_unique [OF p this config(2)] Cons Cons.prems(1)
    have eq: "chunk_frame u off p = chunk_frame u off q"
      and rest: "chunk_wire u (off + int (length p)) ps @ frame_bytes a @ x = chunk_wire u (off + int (length q)) qs' @ frame_bytes b @ y"
      by auto
    have "p = q" using eq by (simp add: chunk_frame_def)
    then show ?thesis using Cons.IH [of "off + int (length p)" qs'] rest Cons.prems(2,3) Cons by simp
  qed
qed

subsection \<open>Both ends\<close>

text \<open>One stream read as two transfers: the offer, the chunks, the digest and the rest agree.\<close>

lemma transfers_agree:
  assumes "frame_bytes info @ chunk_wire u off qs @ frame_bytes (checksum_frame ev u content) @ later
      = frame_bytes offer @ chunk_wire u' start pieces @ frame_bytes (checksum_message u' total_size digest) @ rest"
    and offers: "make_file_info_frame \<lparr>fi_filename = n, fi_total_size = tsize, fi_start_offset = off\<rparr> (max_payload ev) u = Inr info"
      "make_file_info_frame \<lparr>fi_filename = n', fi_total_size = total_size, fi_start_offset = start\<rparr> (max_payload ev) u' = Inr offer"
    and config: "8 + chunk_size ev \<le> max_payload ev" "max_payload ev < 2 ^ 32 - 4"
    and "list_all (piece_ok ev) qs" "list_all (piece_ok ev) pieces"
    and "wf_frame (max_payload ev) (checksum_frame ev u content)" "wf_frame (max_payload ev) (checksum_message u' total_size digest)"
  shows "u = u' \<and> start = off \<and> total_size = tsize \<and> qs = pieces \<and> digest = ev_sha256 ev content \<and> rest = later"
proof -
  have wf: "wf_frame (max_payload ev) info" "wf_frame (max_payload ev) offer" "fr_user_id info = u" "fr_user_id offer = u'"
    using info.make_wf [OF offers(1)] info.make_wf [OF offers(2)] by simp_all
  note same = frame_bytes_unique [OF wf(1,2) config(2) assms(1)]
  then have start: "start = off" "total_size = tsize" "u' = u"
    using info.parse_make [OF offers(1)] info.parse_make [OF offers(2)] wf(3,4) by simp_all
  have "0 \<le> u" "u \<le> MAX_USER_ID" using wf(1,3) by (simp_all add: wf_frame_def)
  from chunk_wire_unique [OF conjunct2 [OF same, unfolded start] assms(6,7) config this assms(8) assms(9) [unfolded start]]
  show ?thesis using start by (simp add: checksum_frame_def checksum_message_def)
qed

text \<open>
  C3. A download joins the two ends: when the server's handler and the client both finish
  successfully on one connection (each reads what the other sent) and the path of the part file has
  no symbolic link, the client's new file has the length and the SHA-256 of the file the server read
  in the user's namespace, provided the client has asked to go on from the end of its part file;
  without a part file it has exactly its contents.  The client asks so unless \<open>stat\<close> of an existing
  part file fails: it then asks for the whole file and the new file is the part file with the
  server's file after it.  The client has read all the server sent.  (The configuration's bounds:
  a chunk with its offset fits into a payload, a payload with its header into a length field.)
\<close>

theorem download_end_to_end:
  assumes server: "handle_download ev request srv = (Inr sres, srv')" "dr_success sres"
    and client: "download_file ev filename destination cl = (Inr res, cl')"
      "canonical (cl_files cl) (part_path (cd_path res))"
    and config: "8 + chunk_size ev \<le> max_payload ev" "max_payload ev < 2 ^ 32 - 4"
    and down: "delivers (cl_socket cl)" "outbound (ss_socket srv') = outbound (ss_socket srv) @ wire"
      "pending (cl_socket cl) = wire @ later"
    and up: "make_file_download_frame request (max_payload ev) (cl_user_id cl) = Inr asked"
      "outbound (cl_socket cl') = outbound (cl_socket cl) @ frame_bytes asked @ acks"
  shows "\<exists>name p content tm old data tm'. ss_username srv = Some name
    \<and> resolve_namespace_path (ss_files srv) (storage_root ev @ [name]) filename False True = Inr p
    \<and> node_at (ss_files srv) p = Some (RegularFile content tm)
    \<and> node_at (cl_files cl') (cd_path res) = Some (RegularFile data tm')
    \<and> old = file_data (cl_files cl) (part_path (cd_path res))
    \<and> (if fd_requested_offset request = int (length old)
        then length data = length content \<and> ev_sha256 ev data = ev_sha256 ev content \<and> (old = [] \<longrightarrow> data = content)
        else \<not> stat_works (cl_files cl) \<and> fd_requested_offset request = 0 \<and> data = old @ content)
    \<and> pending (cl_socket cl') = later"
proof -
  define old where "old = file_data (cl_files cl) (part_path (cd_path res))"
  define off where "off = fd_requested_offset request"
  let ?u = "cl_user_id cl"
  from download_file_facts [OF client old_def] obtain from_offset start rq offer ack1 ack2 pieces kept tm' where
    b: "make_file_download_frame \<lparr>fd_filename = filename, fd_requested_offset = from_offset\<rparr> (max_payload ev) ?u = Inr rq"
    "offer_frame ev filename (cd_bytes_received res) start ?u = Inr offer"
    "exchanged cl (frame_bytes rq @ frame_bytes ack1 @ frame_bytes ack2) (frame_bytes offer @ chunk_wire ?u start pieces
          @ frame_bytes (checksum_message ?u (cd_bytes_received res) (cd_sha256_digest res))) cl'"
    "list_all (piece_ok ev) pieces" "wf_frame (max_payload ev) (checksum_message ?u (cd_bytes_received res) (cd_sha256_digest res))"
    "cd_sha256_digest res = ev_sha256 ev (take (nat start) kept @ concat pieces)"
    "node_at (cl_files cl') (cd_path res) = Some (RegularFile (kept @ concat pieces) tm')"
    and offset: "from_offset = int (length old) \<or> from_offset = 0 \<and> \<not> stat_works (cl_files cl)"
    and kept: "kept = (if start = 0 \<and> from_offset \<noteq> 0 then [] else old)"
    by blast
  have "rq = asked"
    using frame_bytes_unique [of "max_payload ev" rq asked "frame_bytes ack1 @ frame_bytes ack2" acks]
      download.make_wf [OF b(1)] download.make_wf [OF up(1)] config(2) b(3) up(2) by (simp add: exchanged_def)
  then have request: "request = \<lparr>fd_filename = filename, fd_requested_offset = from_offset\<rparr>"
    using download.parse_make [OF b(1)] download.parse_make [OF up(1)] by simp
  then have off: "off = from_offset" "0 \<le> off" using offset by (auto simp: off_def)
  from handle_download_wire [OF server] obtain name p content tm info qs where
    v: "ss_username srv = Some name"
      "resolve_namespace_path (ss_files srv) (storage_root ev @ [name]) filename False True = Inr p"
      "node_at (ss_files srv) p = Some (RegularFile content tm)" "off \<le> int (length content)"
      "info_of ev request (int (length content)) (ss_user_id srv) = Inr info" "concat qs = drop (nat off) content"
      "list_all (piece_ok ev) qs"
      "wire = frame_bytes info @ chunk_wire (ss_user_id srv) off qs @ frame_bytes (checksum_frame ev (ss_user_id srv) content)"
      "wf_frame (max_payload ev) (checksum_frame ev (ss_user_id srv) content)"
    using request down(2) off by (auto simp: Let_def list_all_iff piece_ok_def)
  have wire: "frame_bytes info @ chunk_wire (ss_user_id srv) off qs @ frame_bytes (checksum_frame ev (ss_user_id srv) content) @ later
    = frame_bytes offer @ chunk_wire ?u start pieces
      @ frame_bytes (checksum_message ?u (cd_bytes_received res) (cd_sha256_digest res)) @ pending (cl_socket cl')"
    using b(3) down(1,3) v(8) by (simp add: exchanged_def)
  have agree: "start = off" "qs = pieces" "cd_sha256_digest res = ev_sha256 ev content" "pending (cl_socket cl') = later"
    using transfers_agree [OF wire _ _ config v(7) b(4) v(9) b(5)] v(5) b(2) request off
    by (simp_all add: info_of_def offer_frame_def)
  have "kept = old" using kept agree(1) off(1) by (cases "off = 0") auto
  then have result: "if off = int (length old)
      then length (kept @ concat pieces) = length content \<and> ev_sha256 ev (kept @ concat pieces) = ev_sha256 ev content
        \<and> (old = [] \<longrightarrow> kept @ concat pieces = content)
      else \<not> stat_works (cl_files cl) \<and> off = 0 \<and> kept @ concat pieces = old @ content"
    using v(4,6) agree b(6) offset off(1) by auto
  show ?thesis
    unfolding old_def [symmetric] off_def [symmetric]
    by (intro exI conjI) (rule v(1), rule v(2), rule v(3), rule b(7), rule refl, rule result, rule agree(4))
qed

lemma frames_stream: "delivers (frames_socket frames out)" "pending (frames_socket frames out) = concat (map frame_bytes frames)"
  by (induction frames) (auto simp: frames_socket_def delivers_def pending_def frame_bytes_ne)

theorem download_end_to_end_witness:
  "\<exists>data tm. node_at downloaded [[100], [102]] = Some (RegularFile data tm) \<and> data = [1, 2, 3]"
proof -
  have "fd_filename example_download = [102]" "fd_requested_offset example_download = 0" "dr_success (dl_result [102] 3 True (Some True) None)"
    by (simp_all add: example_download_def dl_result_def)
  moreover have "canonical example_files example_part" using resolve_canonical [OF example_disk(7)] .
  moreover have "file_data example_files example_part = []" by (simp add: file_data_def example_disk)
  moreover have "make_file_download_frame example_download 1024 1 = Inr (file_frame FILE_DOWNLOAD [0, 1, 102, 0, 0, 0, 0, 0, 0, 0, 0])"
    using example_frames(1) by (simp add: example_download_def)
  ultimately show ?thesis
    using download_end_to_end [OF example_served _ example_client_download, where later = "[]" and wire = "concat (map frame_bytes offered_frames)"]
    by (simp add: example_paths frames_stream resolve_example example_nodes) (auto simp: frames_socket_def)
qed

end
