(* ===== verification/UploadEndToEnd.thy ===== *)
theory UploadEndToEnd
  imports UploadExample DownloadEndToEnd
begin

section \<open>An upload seen from both ends\<close>

text \<open>
  The client's \<open>upload_file\<close> and the server's \<open>handle_upload\<close> run on the two ends of one
  connection, after the server's dispatcher has read the request.  The acknowledged offset makes
  both ends agree on where the chunks start, and the frames on what they hold.
\<close>

lemma uploads_agree:
  assumes "frame_bytes a1 @ frame_bytes a2 @ x = frame_bytes b1 @ frame_bytes b2 @ y"
    and acks: "make_acknowledgement_frame \<lparr>ak_acknowledged_opcode = FILE_UPLOAD, ak_next_offset = int off\<rparr> (max_payload ev) u = Inr a1"
      "make_acknowledgement_frame \<lparr>ak_acknowledged_opcode = FILE_UPLOAD, ak_next_offset = int off'\<rparr> (max_payload ev) u = Inr b1"
      "make_acknowledgement_frame m (max_payload ev) u = Inr a2" "make_acknowledgement_frame m' (max_payload ev) u = Inr b2"
    and "max_payload ev < 2 ^ 32 - 4"
  shows "off = off' \<and> a1 = b1 \<and> x = y"
proof -
  note same = frame_bytes_unique [OF _ _ assms(6)]
  have "a1 = b1 \<and> frame_bytes a2 @ x = frame_bytes b2 @ y"
    using assms(1) ack.make_wf [OF acks(1)] ack.make_wf [OF acks(2)] by (intro same) simp_all
  moreover from this have "a2 = b2 \<and> x = y"
    using ack.make_wf [OF acks(3)] ack.make_wf [OF acks(4)] by (intro same) simp_all
  ultimately show ?thesis
    using ack.parse_make [OF acks(1)] ack.parse_make [OF acks(2)] by simp
qed

text \<open>
  C2. An upload joins the two ends: when the client's \<open>upload_file\<close> returns and the server's
  handler reports success on one connection (each reads what the other sent), the file published in
  the user's namespace has the length and the SHA-256 of the client's file, and from the offset the
  server acknowledged on it is the client's file byte for byte; all of it when nothing was
  resumed.  Each end has then read all the other sent.
\<close>

theorem upload_end_to_end:
  assumes client: "upload_file ev source remote cl = (Inr cres, cl')" "canonical (cl_files cl) source"
    and server: "handle_upload ev fr srv = (Inr sres, srv')" "ur_success sres"
      "parse_file_upload fr (max_payload ev) = Inr request" "ss_username srv = Some name"
      "resolve_namespace_path (ss_files srv) (storage_root ev @ [name]) (fu_filename request) False False = Inr target"
      "get_part_paths target = (partial, meta)" "\<not> is_symlink (ss_files srv) partial" "ss_state srv \<noteq> AUTHENTICATING"
    and config: "0 < chunk_size ev" "8 + chunk_size ev \<le> max_payload ev" "max_payload ev < 2 ^ 32 - 4"
    and up: "wf_frame (max_payload ev) fr" "fr_user_id fr = ss_user_id srv"
      "outbound (cl_socket cl') = outbound (cl_socket cl) @ frame_bytes fr @ wire"
      "delivers (ss_socket srv)" "pending (ss_socket srv) = wire @ later"
    and down: "outbound (ss_socket srv') = outbound (ss_socket srv) @ acks"
      "delivers (cl_socket cl)" "pending (cl_socket cl) = acks @ rest"
  shows "\<exists>d tm off ack. let data = file_data (cl_files cl) source in
    node_at (ss_files srv') target = Some (RegularFile d tm) \<and> fu_filename request = cu_remote_filename cres
    \<and> length d = length data \<and> ev_sha256 ev d = ev_sha256 ev data \<and> off \<le> length data \<and> drop off d = drop off data
    \<and> make_acknowledgement_frame \<lparr>ak_acknowledged_opcode = FILE_UPLOAD, ak_next_offset = int off\<rparr> (max_payload ev) (ss_user_id srv) = Inr ack
    \<and> take (length (frame_bytes ack)) acks = frame_bytes ack
    \<and> pending (ss_socket srv') = later \<and> pending (cl_socket cl') = rest"
proof -
  define data where "data = file_data (cl_files cl) source"
  let ?u = "cl_user_id cl"
  obtain rq ack1 ack2 fk off pieces where c:
    "make_file_upload_frame \<lparr>fu_filename = cu_remote_filename cres, fu_total_size = int (length data), fu_start_offset = 0\<rparr> (max_payload ev) ?u = Inr rq"
    "make_acknowledgement_frame \<lparr>ak_acknowledged_opcode = FILE_UPLOAD, ak_next_offset = int off\<rparr> (max_payload ev) ?u = Inr ack1"
    "make_acknowledgement_frame \<lparr>ak_acknowledged_opcode = FILE_CHECKSUM, ak_next_offset = int (length data)\<rparr> (max_payload ev) ?u = Inr ack2"
    "fk = checksum_message ?u (int (length data)) (ev_sha256 ev data)" "wf_frame (max_payload ev) fk"
    "exchanged cl (frame_bytes rq @ chunk_wire ?u (int off) pieces @ frame_bytes fk) (frame_bytes ack1 @ frame_bytes ack2) cl'"
    "list_all (piece_ok ev) pieces" "concat pieces = drop off data" "off \<le> length data"
    using upload_file_facts [OF client config(1) data_def] by blast
  have first: "frame_bytes rq @ chunk_wire ?u (int off) pieces @ frame_bytes fk = frame_bytes fr @ wire"
    using c(6) up(3) by (simp add: exchanged_def)
  have rq: "rq = fr" "wire = chunk_wire ?u (int off) pieces @ frame_bytes fk"
    using frame_bytes_unique [OF conjunct1 [OF upload.make_wf [OF c(1)]] up(1) config(3) first] by blast+
  have request: "request = \<lparr>fu_filename = cu_remote_filename cres, fu_total_size = int (length data), fu_start_offset = 0\<rparr>"
    using upload.parse_make [OF c(1)] server(3) rq(1) by simp
  have total: "fu_total_size request = int (length data)" using request by simp
  have user: "ss_user_id srv = ?u" using upload.make_wf [OF c(1)] rq(1) up(2) by simp
  obtain hashed qs inp out tm where s: "upload_carried ev srv (int (length data)) hashed qs inp out srv'"
    "node_at (ss_files srv') target = Some (RegularFile (hashed @ concat qs) tm)"
    using handle_upload_wire [OF server(3-8,1,2)] unfolding total by blast
  from s(1) obtain fk' b1 b2 where v: "fk' = checksum_message ?u (int (length data)) (ev_sha256 ev (hashed @ concat qs))"
    "wf_frame (max_payload ev) fk'" "list_all (piece_ok ev) qs" "length (hashed @ concat qs) = length data"
    "make_acknowledgement_frame \<lparr>ak_acknowledged_opcode = FILE_UPLOAD, ak_next_offset = int (length hashed)\<rparr> (max_payload ev) ?u = Inr b1"
    "make_acknowledgement_frame \<lparr>ak_acknowledged_opcode = FILE_CHECKSUM, ak_next_offset = int (length (hashed @ concat qs))\<rparr> (max_payload ev) ?u = Inr b2"
    "inp = chunk_wire ?u (int (length hashed)) qs @ frame_bytes fk'" "out = frame_bytes b1 @ frame_bytes b2" "conveyed srv inp out srv'"
    unfolding upload_carried_def user Let_def by auto
  have acks: "acks = frame_bytes b1 @ frame_bytes b2" using v(8,9) down(1) by (simp add: conveyed_def)
  have "frame_bytes ack1 @ frame_bytes ack2 @ pending (cl_socket cl') = frame_bytes b1 @ frame_bytes b2 @ rest"
    using c(6) down(2,3) acks by (simp add: exchanged_def)
  from uploads_agree [OF this c(2) v(5) c(3) v(6) config(3)]
  have off: "off = length hashed" "pending (cl_socket cl') = rest" by simp_all
  have "chunk_wire ?u (int off) pieces @ frame_bytes fk @ later = chunk_wire ?u (int off) qs @ frame_bytes fk' @ pending (ss_socket srv')"
    using v(7,9) up(4,5) rq(2) off(1) by (simp add: conveyed_def)
  moreover have "0 \<le> ?u" "?u \<le> MAX_USER_ID" using up(1,2) user by (simp_all add: wf_frame_def)
  ultimately have same: "pieces = qs \<and> fk = fk' \<and> later = pending (ss_socket srv')"
    using chunk_wire_unique [of ?u "int off" pieces fk later qs fk' "pending (ss_socket srv')" ev] c(4,5,7) v(1-3) config
    by (simp add: checksum_message_def)
  have "drop off (hashed @ concat qs) = drop off data" using same c(8) off(1) by simp
  moreover have "ev_sha256 ev (hashed @ concat qs) = ev_sha256 ev data" using same c(4) v(1) by (simp add: checksum_message_def)
  ultimately show ?thesis
    unfolding data_def [symmetric] Let_def user
    using s(2) v(4,5) acks same off request c(9)
    by (intro exI [of _ "hashed @ concat qs"] exI [of _ tm] exI [of _ off] exI [of _ b1]) simp
qed

theorem upload_end_to_end_witness:
  "\<exists>fs d tm. handle_upload example_environment upload_request (serving upload_files [upload_chunk, digest_frame] [])
       = (Inr (up_result [103] 3 True (Some True) None), serving fs [] upload_acknowledgements)
     \<and> node_at fs upload_target = Some (RegularFile d tm) \<and> length d = 3"
proof -
  obtain fs where srv: "handle_upload example_environment upload_request (serving upload_files [upload_chunk, digest_frame] [])
      = (Inr (up_result [103] 3 True (Some True) None), serving fs [] upload_acknowledgements)"
    by (rule example_upload)
  let ?cl = "frames_client example_files [ack_frame 18 0, ack_frame 23 3] []"
  let ?srv = "serving upload_files [upload_chunk, digest_frame] []"
  have side: "canonical (cl_files ?cl) [[115], [97], [102]]" "ur_success (up_result [103] 3 True (Some True) None)"
      "parse_file_upload upload_request (max_payload example_environment) = Inr \<lparr>fu_filename = [103], fu_total_size = 3, fu_start_offset = 0\<rparr>"
      "ss_username ?srv = Some [97]"
    using resolve_canonical [OF example_resolves(2)] by (simp_all add: up_result_def parse_upload_request)
  have target: "resolve_namespace_path (ss_files ?srv) (storage_root example_environment @ [[97]])
        (fu_filename \<lparr>fu_filename = [103], fu_total_size = 3, fu_start_offset = 0\<rparr>) False False = Inr upload_target"
      "\<not> is_symlink (ss_files ?srv) upload_part" "ss_state ?srv \<noteq> AUTHENTICATING"
    by (simp_all add: resolve_upload upload_files_missing)
  have sizes: "0 < chunk_size example_environment" "8 + chunk_size example_environment \<le> max_payload example_environment"
      "max_payload example_environment < 2 ^ 32 - 4"
      "wf_frame (max_payload example_environment) upload_request" "fr_user_id upload_request = ss_user_id ?srv"
    by (simp_all add: upload_frames_wf)
  have wires: "outbound (cl_socket (frames_client example_files [] (frame_bytes upload_request @ upload_wire)))
        = outbound (cl_socket ?cl) @ frame_bytes upload_request @ upload_wire"
      "delivers (ss_socket ?srv)" "pending (ss_socket ?srv) = upload_wire @ []"
      "outbound (ss_socket (serving fs [] upload_acknowledgements)) = outbound (ss_socket ?srv) @ upload_acknowledgements"
      "delivers (cl_socket ?cl)" "pending (cl_socket ?cl) = upload_acknowledgements @ []"
    by (simp_all add: frames_stream upload_wire_def upload_acknowledgements_def) (simp_all add: frames_socket_def)
  have "file_data (cl_files ?cl) [[115], [97], [102]] = [1, 2, 3]" by (simp add: example_file)
  with upload_end_to_end [OF example_client_upload side(1) srv side(2-) target(1) upload_part_paths target(2,3) sizes wires]
  have "\<exists>d tm. node_at fs upload_target = Some (RegularFile d tm) \<and> length d = 3"
    by (auto simp: Let_def)
  with srv show ?thesis by blast
qed

end
