(* ===== verification/ListingSafety.thy ===== *)
theory ListingSafety
  imports Listing Examples
begin

section \<open>What a listing contains\<close>

text \<open>
  \<open>list_storage\<close> against its specification: the public regular files of the directory, once
  each, with their sizes, in the order of their names.
\<close>

definition public_files :: "file_system \<Rightarrow> path \<Rightarrow> file_entry set" where
  "public_files fs dir = {\<lparr>fe_filename = name, fe_file_size = int (length d)\<rparr> | name d t.
     node_at fs (dir @ [name]) = Some (RegularFile d t) \<and> \<not> is_internal_file name}"

definition children_of :: "file_system \<Rightarrow> path \<Rightarrow> path list" where
  "children_of fs dir = filter (\<lambda>c. c \<noteq> [] \<and> butlast c = dir) (map fst (fs_nodes fs))"

definition entry_of :: "file_system \<Rightarrow> path \<Rightarrow> file_entry list" where
  "entry_of fs p =
     (if is_internal_file (path_name p) then []
      else case node_at fs p of Some x \<Rightarrow> regular_entry p x | None \<Rightarrow> [])"

lemma os_call_nodes:
  "os_call act fs = (Inr a, fs') \<Longrightarrow> \<exists>x. fs_nodes x = fs_nodes fs \<and> act x = (Inr a, fs')"
  by (auto simp: os_call_def intro: exI [of _ fs] exI [of _ "fs\<lparr>fs_faults := tl (fs_faults fs)\<rparr>"]
      split: list.splits option.splits)

lemma same_lookup:
  assumes "fs_nodes x = fs_nodes fs"
  shows "node_at x p = node_at fs p" "resolve x p = resolve fs p" "followed x p = followed fs p"
    "is_symlink x p = is_symlink fs p" "children_of x d = children_of fs d" "public_files x d = public_files fs d"
    "entry_of x p = entry_of fs p" "canonical x p = canonical fs p"
proof -
  have at: "node_at x = node_at fs" using assms by (simp add: fun_eq_iff node_at_def)
  have res: "resolve x = resolve fs" by (simp add: fun_eq_iff resolve_def resolve_from_cong [OF at])
  show "node_at x p = node_at fs p" "resolve x p = resolve fs p" "followed x p = followed fs p"
    "is_symlink x p = is_symlink fs p" "children_of x d = children_of fs d" "public_files x d = public_files fs d"
    "entry_of x p = entry_of fs p" "canonical x p = canonical fs p"
    by (simp_all add: at res followed_def is_symlink_def children_of_def assms public_files_def entry_of_def canonical_def
        split: option.split)
qed

lemma iterdir_Inr:
  assumes "iterdir dir fs = (Inr children, fs')" "resolve fs dir = Some dir"
  shows "children = children_of fs dir \<and> fs_nodes fs' = fs_nodes fs"
proof -
  obtain x where x: "fs_nodes x = fs_nodes fs" and run: "(case resolve x dir of
       None \<Rightarrow> (Inl (OSError (lit ''[Errno 40] Too many levels of symbolic links'')), x)
     | Some q \<Rightarrow>
         (case node_at x q of
            None \<Rightarrow> (Inl not_found, x)
          | Some Directory \<Rightarrow>
              (Inr (map (\<lambda>c. dir @ [last c]) (filter (\<lambda>c. c \<noteq> [] \<and> butlast c = q) (map fst (fs_nodes x)))), x)
          | Some _ \<Rightarrow> (Inl (OSError (lit ''[Errno 20] Not a directory'')), x))) = (Inr children, fs')"
    using assms(1) unfolding iterdir_def by (blast dest: os_call_nodes)
  have "map (\<lambda>c. dir @ [last c]) (children_of x dir) = children_of x dir"
    by (rule map_idI) (auto simp: children_of_def)
  then show ?thesis
    using run x assms(2) same_lookup(2) [OF x, of dir] same_lookup(5) [OF x, of dir]
    by (auto simp: children_of_def split: option.splits node.splits)
qed

lemma stat_node_Inr:
  "stat_node p fs = (Inr x, fs') \<Longrightarrow> followed fs p = Some x \<and> fs_nodes fs' = fs_nodes fs"
  unfolding stat_node_def by (drule os_call_nodes) (metis (no_types, lifting) same_lookup(3) option.case_eq_if
      option.collapse Pair_inject Inl_Inr_False Inr_inject)

lemma collect_entries_Inr:
  "collect_entries ps fs = (Inr entries, fs') \<Longrightarrow> canonical fs dir \<Longrightarrow> (\<forall>p \<in> set ps. p \<noteq> [] \<and> butlast p = dir) \<Longrightarrow>
     entries = concat (map (entry_of fs) ps) \<and> fs_nodes fs' = fs_nodes fs"
proof (induction ps arbitrary: fs entries)
  case Nil
  then show ?case by simp
next
  case (Cons p ps)
  show ?case
  proof (cases "is_internal_file (path_name p) \<or> is_symlink fs p")
    case True
    then have "collect_entries ps fs = (Inr entries, fs')" using Cons.prems(1) by (simp add: bindS_def readS_def)
    moreover have "entry_of fs p = []"
      using True by (auto simp: entry_of_def is_symlink_def regular_entry_def split: option.splits node.splits)
    ultimately show ?thesis using Cons by simp
  next
    case False
    then obtain x fs1 rest where st: "stat_node p fs = (Inr x, fs1)"
      and rec: "collect_entries ps fs1 = (Inr rest, fs')" and entries: "entries = regular_entry p x @ rest"
      using Cons.prems(1) by (auto simp: state_simps)
    note n = stat_node_Inr [OF st]
    have "p = dir @ [last p]" using Cons.prems(3) by (metis append_butlast_last_id list.set_intros(1))
    then have "canonical fs p" using False Cons.prems(2) canonical_snoc [of fs dir "last p"] by simp
    then have "entry_of fs p = regular_entry p x"
      using n False by (simp add: entry_of_def canonical_followed)
    moreover have "rest = concat (map (entry_of fs1) ps) \<and> fs_nodes fs' = fs_nodes fs1"
      using Cons.IH [OF rec] Cons.prems(2,3) same_lookup(8) [of fs1 fs dir] n by simp
    moreover have "entry_of fs1 = entry_of fs" using same_lookup(7) [of fs1 fs] n by (simp add: fun_eq_iff)
    ultimately show ?thesis using entries n by simp
  qed
qed

lemma entry_of_child:
  "e \<in> set (entry_of fs (dir @ [name])) \<longleftrightarrow> \<not> is_internal_file name
     \<and> (\<exists>d t. node_at fs (dir @ [name]) = Some (RegularFile d t) \<and> e = \<lparr>fe_filename = name, fe_file_size = int (length d)\<rparr>)"
proof (cases "node_at fs (dir @ [name])")
  case (Some x)
  then show ?thesis by (cases x) (auto simp: entry_of_def regular_entry_def path_name_def)
qed (simp add: entry_of_def)

lemma children_are:
  "p \<in> set (children_of fs dir) \<longleftrightarrow> (\<exists>name. p = dir @ [name] \<and> node_at fs p \<noteq> None)"
proof -
  have "p \<noteq> [] \<and> butlast p = dir \<longleftrightarrow> (\<exists>name. p = dir @ [name])"
    by (metis append_butlast_last_id butlast_snoc snoc_eq_iff_butlast)
  moreover have "p \<in> set (map fst (fs_nodes fs)) \<longleftrightarrow> node_at fs p \<noteq> None"
    by (simp add: node_at_def map_of_eq_None_iff)
  ultimately show ?thesis by (auto simp: children_of_def simp del: set_map)
qed

lemma entries_are_public: "set (concat (map (entry_of fs) (children_of fs dir))) = public_files fs dir"
proof -
  have "set (concat (map (entry_of fs) (children_of fs dir)))
      = (\<Union>p \<in> set (children_of fs dir). set (entry_of fs p))" by simp
  also have "\<dots> = public_files fs dir"
    by (auto simp: public_files_def entry_of_child children_are Bex_def) (auto simp: entry_of_child intro!: exI)
  finally show ?thesis .
qed

lemma entry_names: "map fe_filename (entry_of fs p) = [] \<or> map fe_filename (entry_of fs p) = [path_name p]"
  by (auto simp: entry_of_def regular_entry_def split: option.splits node.splits)

lemma entries_distinct:
  "distinct ps \<Longrightarrow> (\<forall>p \<in> set ps. \<exists>name. p = dir @ [name]) \<Longrightarrow> distinct (map fe_filename (concat (map (entry_of fs) ps)))"
proof (induction ps)
  case Nil
  then show ?case by simp
next
  case (Cons p ps)
  obtain name where p: "p = dir @ [name]" using Cons.prems(2) by auto
  have "name \<notin> fe_filename ` set (concat (map (entry_of fs) ps))"
    using Cons.prems p by (force simp: entry_of_child)
  then show ?case using Cons entry_names [of fs p] p by (auto simp: path_name_def)
qed

lemma collect_entries_returns:
  "fs_faults fs = [] \<Longrightarrow> canonical fs dir \<Longrightarrow> (\<forall>p \<in> set ps. \<exists>name. p = dir @ [name] \<and> node_at fs p \<noteq> None) \<Longrightarrow>
     \<exists>entries. collect_entries ps fs = (Inr entries, fs)"
proof (induction ps)
  case Nil
  then show ?case by simp
next
  case (Cons p ps)
  then obtain name entries where p: "p = dir @ [name]" "node_at fs p \<noteq> None"
    and rest: "collect_entries ps fs = (Inr entries, fs)" by auto
  show ?case
  proof (cases "is_internal_file (path_name p) \<or> is_symlink fs p")
    case False
    then have "canonical fs p" using Cons.prems(2) p(1) by (simp add: canonical_snoc)
    then have "\<exists>x. stat_node p fs = (Inr x, fs)"
      using Cons.prems(1) p(2) by (auto simp: stat_node_def os_call_def canonical_followed)
    then show ?thesis using rest False by (auto simp: bindS_def readS_def)
  qed (use rest in \<open>simp add: bindS_def readS_def\<close>)
qed

lemma list_storage_Inr:
  assumes "list_storage dir fs = (Inr entries, fs')" and "resolve fs dir = Some dir"
    and "distinct (map fst (fs_nodes fs))"
  shows "set entries = public_files fs dir \<and> sorted (map fe_filename entries)
    \<and> distinct (map fe_filename entries) \<and> fs_nodes fs' = fs_nodes fs"
proof -
  obtain children fs1 found where it: "iterdir dir fs = (Inr children, fs1)"
    and col: "collect_entries children fs1 = (Inr found, fs')" and entries: "entries = sort_key fe_filename found"
    using assms(1) by (auto simp: list_storage_def state_simps)
  note ch = iterdir_Inr [OF it assms(2)]
  have "canonical fs1 dir" using resolve_canonical [OF assms(2)] same_lookup(8) [of fs1 fs dir] ch by simp
  moreover have kids: "\<forall>p \<in> set children. \<exists>name. p = dir @ [name]" using ch children_are [of _ fs dir] by auto
  ultimately have "found = concat (map (entry_of fs1) children) \<and> fs_nodes fs' = fs_nodes fs1"
    by (intro collect_entries_Inr [OF col]) auto
  moreover have "entry_of fs1 = entry_of fs" using same_lookup(7) [of fs1 fs] ch by (simp add: fun_eq_iff)
  ultimately have found: "found = concat (map (entry_of fs) (children_of fs dir))" "fs_nodes fs' = fs_nodes fs"
    using ch by simp_all
  have "distinct (children_of fs dir)" using assms(3) by (simp add: children_of_def)
  then have "distinct (map fe_filename found)" using entries_distinct kids ch found by blast
  moreover have "mset (map fe_filename entries) = mset (map fe_filename found)" by (simp add: entries)
  ultimately have "distinct (map fe_filename entries)" by (metis mset_eq_imp_distinct_iff)
  then show ?thesis using found entries_are_public by (simp add: entries)
qed

text \<open>
  C30. The listing is exact: \<open>list_storage\<close> on an existing directory returns one entry for each
  public regular file of it, with the file's size, and for nothing else (no internal file, no
  link, no directory), in the order of the names; it changes no file, and it can only fail when
  a call of the operating system fails.
\<close>

theorem listing_is_exact:
  assumes "resolve fs dir = Some dir" and "node_at fs dir = Some Directory"
    and "distinct (map fst (fs_nodes fs))" and "list_storage dir fs = (r, fs')"
  shows "case r of
      Inl e \<Rightarrow> fs_faults fs \<noteq> []
    | Inr entries \<Rightarrow> set entries = public_files fs dir \<and> sorted (map fe_filename entries)
        \<and> distinct (map fe_filename entries) \<and> fs_nodes fs' = fs_nodes fs"
proof (cases r)
  case (Inr entries)
  with list_storage_Inr assms show ?thesis by simp
next
  case (Inl e)
  have "fs_faults fs \<noteq> []"
  proof
    assume none: "fs_faults fs = []"
    obtain q fs1 where it: "iterdir dir fs = (q, fs1)" by fastforce
    then have "q = Inr (children_of fs dir) \<and> fs1 = fs"
      using none assms(1,2) iterdir_Inr [of dir fs "projr q" fs1] by (auto simp: iterdir_def os_call_def)
    moreover obtain entries where "collect_entries (children_of fs dir) fs = (Inr entries, fs)"
      using collect_entries_returns [OF none resolve_canonical [OF assms(1)]] children_are [of _ fs dir] by blast
    ultimately show False using assms(4) Inl it by (simp add: list_storage_def)
  qed
  with Inl show ?thesis by simp
qed

theorem listing_is_exact_witness:
  "\<exists>entries fs'. list_storage [[115], [97]] example_files = (Inr entries, fs')
     \<and> set entries = public_files example_files [[115], [97]]"
proof -
  obtain r fs' where run: "list_storage [[115], [97]] example_files = (r, fs')" by fastforce
  have "distinct (map fst (fs_nodes example_files))" "fs_faults example_files = []" by (simp_all add: example_files_def)
  with listing_is_exact [OF example_resolves(1) _ _ run] run show ?thesis
    by (auto simp: example_nodes split: sum.splits)
qed

end
