(* ===== verification/ClientSafety.thy ===== *)
theory ClientSafety
  imports ClientSession Examples
begin

section \<open>What the client's session guarantees\<close>

lemma complete_login_Inr:
  assumes "complete_login ev fr s = (Inr (), t)"
  shows "fr_opcode fr = ACK \<and> parse_acknowledgement fr (max_payload ev) = Inr \<lparr>ak_acknowledged_opcode = LOGIN, ak_next_offset = 0\<rparr>
    \<and> 1 \<le> cl_user_id s \<and> cl_user_id s \<le> MAX_USER_ID \<and> t = s\<lparr>cl_authenticated := True\<rparr>"
  using assms
  by (auto simp: complete_login_def state_simps MIN_USER_ID_def split: if_splits)

lemma login_ack_user_id:
  assumes "validate_incoming_user_id ev fr s = (Inr (), t)" "\<not> cl_authenticated s" "fr_opcode fr = ACK"
    "parse_acknowledgement fr (max_payload ev) = Inr \<lparr>ak_acknowledged_opcode = LOGIN, ak_next_offset = 0\<rparr>"
  shows "t = s\<lparr>cl_user_id := fr_user_id fr\<rparr> \<and> 1 \<le> fr_user_id fr \<and> fr_user_id fr \<le> MAX_USER_ID"
  using assms by (simp add: validate_incoming_user_id_def state_simps guardE_eq_Inr)

lemma client_handshake_Inr:
  assumes "client_handshake ev login s = (Inr (), t)" "\<not> cl_authenticated s"
  shows "\<exists>k reply. cl_connected s \<and> fr_opcode reply = ACK \<and> fr_user_id reply = cl_user_id t
    \<and> parse_acknowledgement reply (max_payload ev) = Inr \<lparr>ak_acknowledged_opcode = LOGIN, ak_next_offset = 0\<rparr>
    \<and> 1 \<le> cl_user_id t \<and> cl_user_id t \<le> MAX_USER_ID
    \<and> t = s\<lparr>cl_socket := k, cl_user_id := fr_user_id reply, cl_authenticated := True\<rparr>
    \<and> outbound k = outbound (cl_socket s) @ encode_preface @ frame_bytes login
    \<and> (delivers (cl_socket s) \<longrightarrow> wf_frame (max_payload ev) reply \<and> delivers k
         \<and> pending (cl_socket s) = encode_preface @ frame_bytes reply @ pending k)"
proof -
  obtain k1 where k1: "cl_connected s" "send_all encode_preface (cl_socket s) = (Inr (), k1)"
    and r1: "bindS (with_socket (recv_exact PREFACE_SIZE_BYTES)) (\<lambda>response_or_none.
     case response_or_none of
       None \<Rightarrow> raiseS (SessionError (lit ''server closed before returning protocol preface''))
     | Some response \<Rightarrow>
         bindS (liftS (bindE (decode_preface response) validate_preface)) (\<lambda>_.
         bindS (client_send ev login) (\<lambda>_.
         bindS (client_receive ev) (\<lambda>fr. complete_login ev fr)))) (s\<lparr>cl_socket := k1\<rparr>) = (Inr (), t)"
    using assms(1) by (auto simp: client_handshake_def bindS_eq_Inr with_socket_Inr)
  then obtain k2 response s3 fr s4 where k2: "recv_exact PREFACE_SIZE_BYTES k1 = (Inr (Some response), k2)"
    and ok: "bindE (decode_preface response) validate_preface = Inr ()"
    and s3: "client_send ev login (s\<lparr>cl_socket := k2\<rparr>) = (Inr (), s3)"
    and s4: "client_receive ev s3 = (Inr fr, s4)" and t: "complete_login ev fr s4 = (Inr (), t)"
    by (auto simp: bindS_eq_Inr with_socket_Inr split: option.splits)
  have o1: "outbound k1 = outbound (cl_socket s) @ encode_preface" "inbound k1 = inbound (cl_socket s)"
    using send_all_prefix [OF k1(2)] by auto
  note o2 = recv_exact_bytes [OF k2]
  from client_send_Inr [OF s3] obtain k3 bs where k3: "s3 = s\<lparr>cl_socket := k3\<rparr>" "inbound k3 = inbound k2"
    "serialize_frame login (max_payload ev) = Inr bs" "outbound k3 = outbound k2 @ bs" by auto
  from client_receive_Inr [OF s4] k3(1) obtain k4 where
    rf: "receive_frame (max_payload ev) k3 = (Inr (Some fr), k4)"
    and v: "validate_incoming_user_id ev fr (s\<lparr>cl_socket := k4\<rparr>) = (Inr (), s4)" by auto
  note done_login = complete_login_Inr [OF t]
  note uid = login_ack_user_id [OF v, simplified, OF assms(2)]
  have s4': "s4 = s\<lparr>cl_socket := k4, cl_user_id := fr_user_id fr\<rparr>"
    using uid done_login by simp
  have "bs = frame_bytes login" using k3(3) by (rule serialize_is_frame_bytes)
  moreover have "response = encode_preface" using ok preface_bytes_iff by blast
  moreover have "delivers k3" if "delivers (cl_socket s)"
    using that recv_exact_delivers [OF k2] o1 k3(2) by (simp add: delivers_def)
  moreover have "pending k1 = pending (cl_socket s)" "pending k3 = pending k2" using o1 k3(2) by (simp_all add: pending_def)
  ultimately show ?thesis
    using done_login o1 o2 k3 receive_frame_pending [OF rf] s4' k1(1)
    by (intro exI [of _ k4] exI [of _ fr]) auto
qed

lemma client_connect_Inr:
  assumes "client_connect ev socket_factory username s = (Inr (), t)" "\<not> cl_connected s" "\<not> cl_authenticated s"
  shows "\<exists>name sock login reply. cl_connected t \<and> cl_files t = cl_files s \<and> cl_authenticated t \<and> 1 \<le> cl_user_id t \<and> cl_user_id t \<le> MAX_USER_ID
    \<and> cl_username t = Some name \<and> socket_factory = Inr sock
    \<and> make_login_frame \<lparr>lr_username = name\<rparr> (max_payload ev) USER_ID = Inr login
    \<and> outbound (cl_socket t) = outbound sock @ encode_preface @ frame_bytes login
    \<and> fr_opcode reply = ACK \<and> fr_user_id reply = cl_user_id t
    \<and> parse_acknowledgement reply (max_payload ev) = Inr \<lparr>ak_acknowledged_opcode = LOGIN, ak_next_offset = 0\<rparr>
    \<and> (delivers sock \<longrightarrow> wf_frame (max_payload ev) reply \<and> delivers (cl_socket t)
         \<and> pending sock = encode_preface @ frame_bytes reply @ pending (cl_socket t))"
proof -
  obtain name login sock where login: "make_login_frame \<lparr>lr_username = name\<rparr> (max_payload ev) USER_ID = Inr login"
    and sock: "socket_factory = Inr sock"
    and hs: "client_handshake ev login (s\<lparr>cl_username := Some name, cl_socket := sock, cl_connected := True\<rparr>) = (Inr (), t)"
    using assms
    by (auto simp: client_connect_def bindS_def readS_def updateS_def tryS_def
        split: option.splits sum.splits prod.splits)
  from client_handshake_Inr [OF hs] assms(3) login sock show ?thesis by auto
qed

text \<open>
  C23. The client logs in exactly when the server lets it: after \<open>connect\<close> the session is either
  connected and authenticated (the bytes sent were the preface and the \<open>LOGIN\<close> frame of its
  user name, the bytes received were the preface and an \<open>ACK\<close> of \<open>LOGIN\<close> with offset 0, and
  the user number, between 1 and 65535, is the one of that frame), or \<open>connect\<close> has raised and
  the session is closed and not authenticated.
\<close>

theorem client_login_outcome:
  assumes "\<not> cl_connected s" and "\<not> cl_authenticated s"
    and "client_connect ev socket_factory username s = (r, t)"
  shows "case r of
      Inl e \<Rightarrow> \<not> cl_connected t \<and> \<not> cl_authenticated t
    | Inr u \<Rightarrow> cl_connected t \<and> cl_authenticated t \<and> 1 \<le> cl_user_id t \<and> cl_user_id t \<le> MAX_USER_ID
        \<and> (\<exists>name sock login reply. cl_username t = Some name \<and> socket_factory = Inr sock
           \<and> make_login_frame \<lparr>lr_username = name\<rparr> (max_payload ev) USER_ID = Inr login
           \<and> outbound (cl_socket t) = outbound sock @ encode_preface @ frame_bytes login
           \<and> fr_opcode reply = ACK \<and> fr_user_id reply = cl_user_id t
           \<and> parse_acknowledgement reply (max_payload ev) = Inr \<lparr>ak_acknowledged_opcode = LOGIN, ak_next_offset = 0\<rparr>
           \<and> (delivers sock \<longrightarrow> pending sock = encode_preface @ frame_bytes reply @ pending (cl_socket t)))"
proof (cases r)
  case (Inl e)
  then show ?thesis
    using assms
    by (auto simp: client_connect_def bindS_def readS_def updateS_def tryS_def
        split: option.splits sum.splits prod.splits)
next
  case (Inr u)
  with client_connect_Inr [of ev socket_factory username s t] assms show ?thesis by auto
qed

text \<open>A server that returns the preface and acknowledges the login as user 1.\<close>

definition accepting_server :: sock where
  "accepting_server = \<lparr>inbound = [Segment encode_preface,
     Segment (frame_bytes \<lparr>fr_opcode = ACK, fr_payload = [0, 1, 0, 0, 0, 0, 0, 0, 0, 0], fr_user_id = 1\<rparr>)],
     outbound = [], send_plan = []\<rparr>"

lemma accepted_login: "\<exists>t. client_connect example_environment (Inr accepting_server) None (make_client (Some [97]) example_files) = (Inr (), t)
    \<and> cl_username t = Some [97]"
proof -
  let ?ack = "\<lparr>fr_opcode = ACK, fr_payload = [0, 1, 0, 0, 0, 0, 0, 0, 0, 0], fr_user_id = 1\<rparr>"
  let ?login = "\<lparr>fr_opcode = LOGIN, fr_payload = [0, 1, 97], fr_user_id = 0\<rparr>"
  let ?s = "\<lambda>frames out. (make_client (Some [97]) example_files)\<lparr>cl_socket := frames_socket frames out, cl_connected := True\<rparr>"
  have wf: "wf_frame 1024 ?ack" "wf_frame 1024 ?login" by (simp_all add: wf_frame_def MAX_USER_ID_def)
  have enc: "utf8_encode [97] = Some [97]" by code_simp
  have login: "make_login_frame \<lparr>lr_username = [97]\<rparr> 1024 USER_ID = Inr ?login"
    by (simp add: make_login_frame_def encode_username_def enc username_pattern_fullmatch_def is_username_byte_def
        make_frame_def make_frame_object_def validate_payload_size_def MAX_USER_ID_def USER_ID_def MAX_USERNAME_BYTES_def eval_bytes)
  have parse: "parse_acknowledgement ?ack 1024 = Inr \<lparr>ak_acknowledged_opcode = LOGIN, ak_next_offset = 0\<rparr>"
    by (simp add: parse_acknowledgement_def validate_frame_def validate_payload_size_def decode_opcode_def opcode_of_def
        all_opcodes_def eval_bytes)
  have len: "length encode_preface = 8" by (simp add: encode_preface_def)
  then have ne: "encode_preface \<noteq> []" by auto
  have preface: "recv_exact PREFACE_SIZE_BYTES (accepting_server\<lparr>outbound := out\<rparr>) = (Inr (Some encode_preface), frames_socket [?ack] out)" for out
    using recv_exact_arriving [where v = encode_preface and rest = "[]" and later = "[Segment (frame_bytes ?ack)]"
        and k = "frames_socket [?ack] out" and n = PREFACE_SIZE_BYTES]
    by (simp add: arriving_def accepting_server_def frames_socket_def len ne PREFACE_SIZE_BYTES_def)
  have ok: "bindE (decode_preface encode_preface) validate_preface = Inr ()" by (simp add: preface_bytes_iff)
  have send: "client_send example_environment ?login (?s frames out) = (Inr (), ?s frames (out @ frame_bytes ?login))" for frames out
    by (simp add: client_send_def validate_outgoing_user_id_def with_socket_def tryS_def bindS_def readS_def partS_def USER_ID_def
        frames_send wf)
  have receive: "client_receive example_environment (?s [?ack] out) = (Inr ?ack, (?s [] out)\<lparr>cl_user_id := 1\<rparr>)" for out
    by (simp add: client_receive_def with_socket_def tryS_def bindS_def readS_def partS_def frames_receive wf
        validate_incoming_user_id_def make_client_def parse updateS_def MAX_USER_ID_def)
  have "client_handshake example_environment ?login ((make_client (Some [97]) example_files)\<lparr>cl_username := Some [97],
      cl_socket := accepting_server, cl_connected := True\<rparr>) = (Inr (), t)"
    if "t = (?s [] (encode_preface @ frame_bytes ?login))\<lparr>cl_user_id := 1, cl_authenticated := True\<rparr>" for t
    using that ok preface [of encode_preface] send [of "[?ack]" encode_preface] receive [of "encode_preface @ frame_bytes ?login"] parse
    by (simp add: client_handshake_def complete_login_def with_socket_def bindS_def readS_def partS_def updateS_def
        send_unlimited accepting_server_def make_client_def MIN_USER_ID_def MAX_USER_ID_def)
  moreover have "ac_max_username_bytes (cf_auth (ev_config example_environment)) = 32"
    "\<not> cl_connected (make_client (Some [97]) example_files)" "cl_username (make_client (Some [97]) example_files) = Some [97]"
    by (simp_all add: example_environment_def example_config_def make_client_def)
  ultimately show ?thesis
    using login enc by (simp add: client_connect_def bindS_def readS_def updateS_def tryS_def)
qed

theorem client_login_outcome_witness:
  "\<exists>t. client_connect example_environment (Inr accepting_server) None (make_client (Some [97]) example_files) = (Inr (), t)
     \<and> cl_authenticated t"
proof -
  obtain t where run: "client_connect example_environment (Inr accepting_server) None (make_client (Some [97]) example_files) = (Inr (), t)"
    using accepted_login by blast
  have "\<not> cl_connected (make_client (Some [97]) example_files)" "\<not> cl_authenticated (make_client (Some [97]) example_files)"
    by (simp_all add: make_client_def)
  from client_login_outcome [OF this run] run show ?thesis by auto
qed

end
