(* ===== verification/SessionEndToEnd.thy ===== *)
theory SessionEndToEnd
  imports UploadEndToEnd SessionReplies ListingSafety ClientSafety
begin

section \<open>A login and a listing seen from both ends\<close>

text \<open>
  The client's \<open>connect\<close> and \<open>list_files\<close> and the server's handshake and one turn of its
  dispatcher on the two ends of one connection: each reads what the other sent.  A turn that
  ends normally answers with exactly one frame, so the client's success decides which branch
  the server took.
\<close>

subsection \<open>What a turn of the server writes\<close>

lemma send_loop_fault: "send_loop view n s = (Inl e, t) \<Longrightarrow> protocol_parts e = None"
proof (induction view n s rule: send_loop.induct)
  case (1 view n s)
  have fault: "protocol_parts (sock_fault_exc f) = None" for f by (cases f) simp_all
  obtain q u where q: "sock_send (drop n view) s = (q, u)" by fastforce
  then have "protocol_parts x = None" if "q = Inl x" for x
    using that fault by (auto simp: sock_send_def split: list.splits send_reply.splits)
  then show ?case
    using "1.prems" "1.IH" q by (auto simp: send_loop.simps [of view n s] split: if_splits sum.splits)
qed

text \<open>A frame is sent, or the connection is broken, or nothing at all was written.\<close>

definition unsent :: "session \<Rightarrow> exc \<Rightarrow> session \<Rightarrow> bool" where
  "unsent s e t \<longleftrightarrow> (protocol_parts e \<noteq> None \<longrightarrow> ss_socket t = ss_socket s)"

lemma wp_send_frame:
  assumes "\<And>k. outbound k = outbound (ss_socket s) @ frame_bytes fr \<Longrightarrow> inbound k = inbound (ss_socket s) \<Longrightarrow>
      fr_user_id fr = ss_user_id s \<Longrightarrow> Q () (s\<lparr>ss_socket := k\<rparr>)"
    and "\<And>e k. unsent s e (s\<lparr>ss_socket := k\<rparr>) \<Longrightarrow> E e (s\<lparr>ss_socket := k\<rparr>)"
  shows "wp (session_send ev fr) Q E s"
proof (rule wpI)
  fix r t
  assume run: "session_send ev fr s = (r, t)"
  then obtain k where k: "t = s\<lparr>ss_socket := k\<rparr>" "inbound k = inbound (ss_socket s)"
    "r = Inr () \<Longrightarrow> fr_user_id fr = ss_user_id s \<and>
       (\<exists>bs. serialize_frame fr (max_payload ev) = Inr bs \<and> outbound k = outbound (ss_socket s) @ bs)"
    by (rule session_sendE) blast
  have "unsent s e t" if "r = Inl e" for e
    using run that
    by (auto simp: unsent_def session_send_def bindS_def readS_def on_socket_apply send_frame_def send_all_def
        dest!: send_loop_fault split: if_splits prod.splits sum.splits)
  with k assms show "case r of Inr v \<Rightarrow> Q v t | Inl e \<Rightarrow> E e t"
    by (cases r) (auto dest: serialize_is_frame_bytes)
qed

lemma wp_send_ack:
  assumes "\<And>k ack. make_acknowledgement_frame \<lparr>ak_acknowledged_opcode = op, ak_next_offset = n\<rparr> (max_payload ev) (ss_user_id s) = Inr ack \<Longrightarrow>
      outbound k = outbound (ss_socket s) @ frame_bytes ack \<Longrightarrow> inbound k = inbound (ss_socket s) \<Longrightarrow> Q () (s\<lparr>ss_socket := k\<rparr>)"
    and "\<And>e k. unsent s e (s\<lparr>ss_socket := k\<rparr>) \<Longrightarrow> E e (s\<lparr>ss_socket := k\<rparr>)"
  shows "wp (send_ack ev op n) Q E s"
  using assms(2) [where k = "ss_socket s"]
  by (auto simp: send_ack_def wp_simps unsent_def split: sum.split intro!: wp_send_frame assms)

lemma wp_files:
  assumes "\<And>v fs. act (ss_files s) = (Inr v, fs) \<Longrightarrow> Q v (s\<lparr>ss_files := fs\<rparr>)" "\<And>e fs. E e (s\<lparr>ss_files := fs\<rparr>)"
  shows "wp (on_files act) Q E s"
  by (rule wpI) (use assms in \<open>auto simp: on_files_apply split: prod.splits sum.split\<close>)

text \<open>The answer starts with an \<open>ERROR\<close> frame.\<close>

definition refused :: "environment \<Rightarrow> session \<Rightarrow> session \<Rightarrow> bool" where
  "refused ev s t \<longleftrightarrow> (\<exists>reply extra. fr_opcode reply = ERROR \<and> wf_frame (max_payload ev) reply
     \<and> outbound (ss_socket t) = outbound (ss_socket s) @ frame_bytes reply @ extra)"

lemma refusedI:
  "fr_opcode reply = ERROR \<Longrightarrow> wf_frame (max_payload ev) reply \<Longrightarrow>
     outbound (ss_socket t) = outbound (ss_socket s) @ frame_bytes reply @ extra \<Longrightarrow> refused ev s t"
  unfolding refused_def by blast

lemma wp_send_error:
  assumes "\<And>k reply. wf_frame (max_payload ev) reply \<Longrightarrow> fr_opcode reply = ERROR \<Longrightarrow>
      outbound k = outbound (ss_socket s) @ frame_bytes reply \<Longrightarrow> Q () (s\<lparr>ss_socket := k\<rparr>)"
    and "\<And>e k. E e (s\<lparr>ss_socket := k\<rparr>)"
  shows "wp (session_send_error ev op code message) Q E s"
  using assms(2) [where k = "ss_socket s"]
  by (auto simp: session_send_error_def wp_simps dest!: error.make_wf split: sum.split intro!: wp_send_frame assms)

subsection \<open>One turn that lists\<close>

text \<open>A turn on a \<open>FILE_LIST\<close> frame that ends normally.\<close>

definition listed :: "environment \<Rightarrow> session \<Rightarrow> session \<Rightarrow> bool" where
  "listed ev s t \<longleftrightarrow> (\<exists>name entries reply. ss_username s = Some name
     \<and> list_storage (storage_root ev @ [name]) (ss_files s) = (Inr entries, ss_files t)
     \<and> make_file_list_response_frame entries (max_payload ev) (ss_user_id s) = Inr reply
     \<and> outbound (ss_socket t) = outbound (ss_socket s) @ frame_bytes reply
     \<and> inbound (ss_socket t) = inbound (ss_socket s) \<and> ss_user_id t = ss_user_id s)"

lemma wp_listing_error:
  assumes "\<And>e. E e s" "\<And>reply. wf_frame (max_payload ev) reply \<Longrightarrow> fr_opcode reply = ERROR \<Longrightarrow> Q reply s"
  shows "wp (listing_error ev code message) Q E s"
  using assms by (auto simp: listing_error_def wp_simps dest!: error.make_wf split: sum.split)

lemma list_handler_answers:
  "wp (handle_file_list ev fr)
     (\<lambda>reply t. ss_state t = ss_state s \<and> (if fr_opcode reply = ERROR then refused ev s t else listed ev s t)) (unsent s) s"
    (is "wp _ ?Q _ s")
proof -
  let ?made = "\<lambda>reply t. ss_socket t = ss_socket s \<and> ss_user_id t = ss_user_id s \<and> ss_state t = ss_state s
      \<and> wf_frame (max_payload ev) reply \<and> (fr_opcode reply = ERROR \<or> (\<exists>name entries. ss_username s = Some name
        \<and> list_storage (storage_root ev @ [name]) (ss_files s) = (Inr entries, ss_files t)
        \<and> make_file_list_response_frame entries (max_payload ev) (ss_user_id s) = Inr reply) \<and> fr_opcode reply \<noteq> ERROR)"
  let ?lost = "\<lambda>e t. ss_socket t = ss_socket s \<and> ss_user_id t = ss_user_id s \<and> ss_state t = ss_state s"
  have send: "wp (bindS (session_send ev reply) (\<lambda>_. returnS reply))
      ?Q (unsent s) t" if "?made reply t" for reply t
    using that
    by (auto simp: wp_simps unsent_def listed_def intro!: wp_send_frame refusedI [where reply = reply and extra = "[]"])
  have body: "wp (bindS (session_storage_directory ev) (\<lambda>storage.
          bindS (on_files (list_storage storage)) (\<lambda>entries.
          bindS (readS ss_user_id) (\<lambda>user_id.
          liftS (make_file_list_response_frame entries (max_payload ev) user_id))))) ?made ?lost s"
    by (auto simp: session_storage_directory_def wp_simps dest: entries.make_wf split: option.split sum.split intro!: wp_files)
  have answer: "wp (if is_permission_error error then listing_error ev ACCESS_DENIED (exc_text error)
            else if is_os_error error then listing_error ev FILE_IO_ERROR (exc_text error)
            else
              (case protocol_parts error of
                 None \<Rightarrow> raiseS error
               | Some (code, _) \<Rightarrow>
                   if code \<noteq> PAYLOAD_TOO_LARGE then raiseS error
                   else listing_error ev LIST_TOO_LARGE (lit ''file list exceeds the configured payload limit'')))
      ?made ?lost t" if "?lost error t" for error t
    using that by (auto simp: wp_simps split: option.split intro!: wp_listing_error)
  have whole: "wp (bindS (tryS body recover) (\<lambda>reply. bindS (session_send ev reply) (\<lambda>_. returnS reply)))
      ?Q (unsent s) s"
    if "wp body ?made ?lost s" "\<And>e t. ?lost e t \<Longrightarrow> wp (recover e) ?made ?lost t" for body recover
  proof (rule wp_seq)
    show "wp (tryS body recover) ?made (unsent s) s"
      unfolding wp_try
      by (rule wp_mono [OF that(1)], assumption, drule that(2), erule wp_mono, assumption) (simp add: unsent_def)
  qed (rule send)
  show ?thesis
    unfolding handle_file_list_def
    by (rule wp_seq [where P = "\<lambda>_ t. t = s"], simp add: wp_lift unsent_def split: sum.split)
      (clarify, rule whole [OF body], erule answer)
qed

lemma wp_log_listing:
  assumes "fr_opcode fr = FILE_LIST" "\<And>lg. Q () (s\<lparr>ss_logger := lg\<rparr>)"
    and "\<And>e lg. protocol_parts e = None \<or> fr_opcode reply = ERROR \<Longrightarrow> E e (s\<lparr>ss_logger := lg\<rparr>)"
  shows "wp (log_command ev fr (FrameResult reply) None) Q E s"
proof (rule wpI)
  fix r t
  assume run: "log_command ev fr (FrameResult reply) None s = (r, t)"
  have plain: "log_transfer client command report cx lg = (Inl e, lg') \<Longrightarrow> protocol_parts e = None"
    for client command report cx lg lg' e
    by (auto simp: log_transfer_def Let_def state_simps guardE_def client_fields_def log_write_def bindE_def
        split: if_splits prod.splits option.splits list.splits)
  have "protocol_parts e = None" if "r = Inl e" "fr_opcode reply \<noteq> ERROR" for e
    using run that assms(1)
    by (auto simp: log_command_def transfer_log_def resume_offset_of_def on_logger_def bindS_def bindE_def readS_def
        dest: plain split: if_splits prod.splits option.splits sum.splits)
  moreover obtain lg where "t = s\<lparr>ss_logger := lg\<rparr>" using log_command_step [OF run] by (auto simp: logger_step_def)
  ultimately show "case r of Inr v \<Rightarrow> Q v t | Inl e \<Rightarrow> E e t"
    using assms(2,3) by (cases r) auto
qed

lemma list_request_answers:
  assumes "ss_state s = IDLE" "fr_opcode fr = FILE_LIST"
  shows "wp (dispatch_request ev fr) (\<lambda>_ t. ss_state t = IDLE \<and> (refused ev s t \<or> listed ev s t))
    (\<lambda>e t. unsent s e t \<or> refused ev s t) s"
proof -
  have finish: "wp (bindS (readS (\<lambda>s. closing (ss_state s))) (\<lambda>ending.
      bindS (if ending then returnS () else finish_request) (\<lambda>_. log_command ev fr (FrameResult reply) None)))
      (\<lambda>_ t. ss_state t = IDLE \<and> (refused ev s t \<or> listed ev s t)) (\<lambda>e t. unsent s e t \<or> refused ev s t) t"
    if "ss_state t = IDLE" "if fr_opcode reply = ERROR then refused ev s t else listed ev s t" for reply t
    using that assms
    by (auto simp: wp_simps closing_def finish_request_def set_state_def unsent_def refused_def listed_def
        split: if_splits intro!: wp_log_listing)
  have answers: "wp (handle_file_list ev fr) (\<lambda>reply t. ss_state t = IDLE
      \<and> (if fr_opcode reply = ERROR then refused ev s t else listed ev s t)) (\<lambda>e t. unsent s e t \<or> refused ev s t) s"
    by (rule wp_mono [OF list_handler_answers]) (use assms in auto)
  have handler: "wp (run_handler ev fr) (\<lambda>res t. \<exists>reply. res = FrameResult reply \<and> ss_state t = IDLE
      \<and> (if fr_opcode reply = ERROR then refused ev s t else listed ev s t)) (\<lambda>e t. unsent s e t \<or> refused ev s t) s"
    using assms(2) by (simp add: run_handler_def del: if_split) (rule wp_seq [OF answers], auto simp: wp_return)
  have stay: "wp m (\<lambda>_ t. t = s) (\<lambda>e t. unsent s e t \<or> refused ev s t) s" if "wp m (\<lambda>_ t. t = s) (\<lambda>_ t. t = s) s" for m :: "unit session_action"
    by (rule wp_mono [OF that]) (auto simp: unsent_def)
  show ?thesis
    unfolding dispatch_request_def
    by (rule wp_seq [OF stay], use assms in \<open>simp add: wp_simps split: sum.split\<close>)
      (clarify, rule wp_seq [OF stay], use assms in \<open>simp add: wp_simps has_handler_def guardE_def\<close>,
        clarify, rule wp_seq [OF stay], use assms in \<open>simp add: wp_simps begin_request_def\<close>,
        clarify, rule wp_seq [where P = "\<lambda>g t. t = s \<and> g = Inr None"], use assms in \<open>simp add: wp_simps filename_guard_def\<close>,
        clarify, rule wp_seq [where P = "\<lambda>_ t. t = s"], simp add: wp_simps,
        clarify, rule wp_seq [OF handler], clarsimp, erule (1) finish)
qed

text \<open>After a failure the dispatcher answers with an \<open>ERROR\<close> frame, or the connection ends.\<close>

lemma failure_refuses:
  assumes "unsent s e u \<or> refused ev s u"
  shows "wp (dispatch_failure ev fr e) (\<lambda>_ t. refused ev s t) (\<lambda>_ _. True) u"
proof (cases "protocol_parts e")
  case None
  then show ?thesis by (auto simp: dispatch_failure_def wp_simps intro!: wp_log_command)
next
  case (Some cm)
  have send: "wp (bindS (session_send_error ev (Known (fr_opcode fr)) code message) (\<lambda>_. log_command ev fr NoResult (Some e)))
      (\<lambda>_ t. refused ev s t) (\<lambda>_ _. True) v" if "ss_socket v = ss_socket u" for v code message
    using that assms Some
    by (auto simp: wp_bind unsent_def refused_def intro!: wp_send_error wp_log_command)
  show ?thesis
    using Some
    by (cases cm) (simp add: dispatch_failure_def wp_simps set_state_def send [unfolded wp_simps])
qed

lemma list_turn:
  assumes "session_receive ev s = (Inr fr, u)" "ss_state s = IDLE" "fr_opcode fr = FILE_LIST"
    and "serve_turn ev s = (Inr b, t)"
  shows "b \<and> (refused ev u t \<or> ss_state t = IDLE \<and> listed ev u t)"
proof -
  have u: "ss_state u = IDLE"
    using transfer.keepsD [OF transfer_receive assms(1)] assms(2) by (simp add: transfer_step_def)
  have "wp (tryS (dispatch_request ev fr) (dispatch_failure ev fr))
      (\<lambda>_ t. refused ev u t \<or> ss_state t = IDLE \<and> listed ev u t) (\<lambda>_ _. True) u"
    unfolding wp_try
    by (rule wp_mono [OF list_request_answers [OF u assms(3)]], blast, rule wp_mono, erule failure_refuses) blast+
  moreover have "tryS (dispatch_request ev fr) (dispatch_failure ev fr) u = (Inr (), t) \<and> b"
    using assms u by (auto simp: serve_turn_def bindF_def bindS_def tryS_def readS_def dispatch_def split: prod.splits sum.splits)
  ultimately show ?thesis using wpD by fastforce
qed

subsection \<open>Both ends of a listing\<close>

lemma receive_sent:
  assumes "delivers (ss_socket s)" "pending (ss_socket s) = frame_bytes fr @ rest" "wf_frame (max_payload ev) fr"
    and "max_payload ev < 2 ^ 32 - 4" "fr_user_id fr = (if ss_state s = AUTHENTICATING then USER_ID else ss_user_id s)"
  shows "\<exists>k. session_receive ev s = (Inr fr, s\<lparr>ss_socket := k\<rparr>) \<and> delivers k \<and> pending k = rest
    \<and> outbound k = outbound (ss_socket s)"
proof -
  obtain r k where run: "receive_frame (max_payload ev) (ss_socket s) = (r, k)" by fastforce
  from receive_frame_parse [OF assms(1) run] parse_frame_bytes [OF assms(3,4), of rest] assms(2)
  have k: "r = Inr (Some fr)" "delivers k" "pending k = rest" by simp_all
  moreover have "outbound k = outbound (ss_socket s)" using receive_frame_reads [OF run] by (simp add: reads_only_def)
  ultimately show ?thesis
    using run assms(5) by (auto simp: session_receive_def bindS_def readS_def tryS_def on_socket_apply Let_def)
qed

lemma list_files_facts:
  assumes "list_files ev cl = (Inr entries, cl')" "cl_authenticated cl"
  shows "\<exists>asked reply found. make_file_list_frame (max_payload ev) (cl_user_id cl) = Inr asked
    \<and> exchanged cl (frame_bytes asked) (frame_bytes reply) cl' \<and> wf_frame (max_payload ev) reply \<and> fr_opcode reply = FILE_LIST_RESP
    \<and> parse_file_list_response reply (max_payload ev) = Inr found \<and> entries = sort_key fe_filename found"
proof -
  obtain asked s1 reply found where a: "make_file_list_frame (max_payload ev) (cl_user_id cl) = Inr asked"
    "client_send ev asked cl = (Inr (), s1)" "client_receive ev s1 = (Inr reply, cl')" "fr_opcode reply = FILE_LIST_RESP"
    "parse_file_list_response reply (max_payload ev) = Inr found" "entries = sort_key fe_filename found"
    using assms(1) by (auto simp: list_files_def state_simps split: if_splits)
  note e1 = exchanged_send [OF a(2) assms(2)]
  then have "cl_authenticated s1" by (simp add: exchanged_def)
  note e2 = exchanged_receive [OF a(3) this]
  have "exchanged cl (frame_bytes asked) (frame_bytes reply) cl'"
    using exchanged_trans [of cl "frame_bytes asked" "[]" s1 "[]" "frame_bytes reply" cl'] e1 e2 by simp
  with a e2 show ?thesis by blast
qed

text \<open>
  C5. A listing joins the two ends: when the client's \<open>list_files\<close> returns and a turn of an idle
  session ends normally on the same connection, the client has one entry for each public
  regular file of its own namespace, with its size, once each and sorted by name; the server has
  changed no file and is idle again, and each end has read exactly what the other sent.
\<close>

theorem listing_end_to_end:
  assumes client: "list_files ev cl = (Inr entries, cl')" "cl_authenticated cl" "cl_user_id cl = ss_user_id srv"
    and server: "serve_turn ev srv = (Inr go, srv')" "ss_state srv = IDLE" "ss_username srv = Some name"
      "resolve (ss_files srv) (storage_root ev @ [name]) = Some (storage_root ev @ [name])"
      "distinct (map fst (fs_nodes (ss_files srv)))"
    and config: "max_payload ev < 2 ^ 32 - 4"
    and up: "outbound (cl_socket cl') = outbound (cl_socket cl) @ asked"
      "delivers (ss_socket srv)" "pending (ss_socket srv) = asked @ later"
    and down: "outbound (ss_socket srv') = outbound (ss_socket srv) @ answer"
      "delivers (cl_socket cl)" "pending (cl_socket cl) = answer @ rest"
  shows "set entries = public_files (ss_files srv) (storage_root ev @ [name]) \<and> sorted (map fe_filename entries)
    \<and> distinct (map fe_filename entries) \<and> fs_nodes (ss_files srv') = fs_nodes (ss_files srv)
    \<and> go \<and> ss_state srv' = IDLE \<and> pending (ss_socket srv') = later \<and> pending (cl_socket cl') = rest"
proof -
  obtain rq reply found where c: "make_file_list_frame (max_payload ev) (cl_user_id cl) = Inr rq"
    "exchanged cl (frame_bytes rq) (frame_bytes reply) cl'" "wf_frame (max_payload ev) reply" "fr_opcode reply = FILE_LIST_RESP"
    "parse_file_list_response reply (max_payload ev) = Inr found" "entries = sort_key fe_filename found"
    using list_files_facts [OF client(1,2)] by blast
  note rq = listing.make_wf [OF c(1)]
  have "asked = frame_bytes rq" using c(2) up(1) by (simp add: exchanged_def)
  then obtain k where k: "session_receive ev srv = (Inr rq, srv\<lparr>ss_socket := k\<rparr>)" "pending k = later"
      "outbound k = outbound (ss_socket srv)"
    using receive_sent [OF up(2), of rq later ev] up(3) rq config client(3) server(2) by auto
  let ?u = "srv\<lparr>ss_socket := k\<rparr>"
  note turn = list_turn [OF k(1) server(2) _ server(1)]
  have got: "frame_bytes reply @ pending (cl_socket cl') = answer @ rest" using c(2) down by (simp add: exchanged_def)
  have "\<not> refused ev ?u srv'"
  proof
    assume "refused ev ?u srv'"
    then obtain er extra where "fr_opcode er = ERROR" "wf_frame (max_payload ev) er" "answer = frame_bytes er @ extra"
      using down(1) k(3) by (auto simp: refused_def)
    with frame_bytes_unique [OF c(3) _ config, of er "pending (cl_socket cl')" "extra @ rest"] got c(4) show False by auto
  qed
  with turn rq have "go" "ss_state srv' = IDLE" "listed ev ?u srv'" by auto
  then obtain entries' fr where v: "list_storage (storage_root ev @ [name]) (ss_files srv) = (Inr entries', ss_files srv')"
    "make_file_list_response_frame entries' (max_payload ev) (ss_user_id srv) = Inr fr" "answer = frame_bytes fr"
    "inbound (ss_socket srv') = inbound k"
    using server(3) down(1) k(3) by (auto simp: listed_def)
  note fr = entries.make_wf [OF v(2)]
  have "reply = fr" "pending (cl_socket cl') = rest"
    using frame_bytes_unique [OF c(3) conjunct1 [OF fr] config] got v(3) by auto
  moreover have "entries' = found" using entries.parse_make [OF v(2)] c(5) \<open>reply = fr\<close> by simp
  moreover note exact = list_storage_Inr [OF v(1) server(4,5)]
  moreover have "sort_key fe_filename entries' = entries'" using exact by (simp add: sort_key_id_if_sorted)
  ultimately show ?thesis
    using c(6) \<open>go\<close> \<open>ss_state srv' = IDLE\<close> v(4) k(2) by (simp add: pending_def)
qed

subsection \<open>One turn that logs in\<close>

lemma handshake_wire:
  assumes "perform_handshake s = (Inr (), t)"
  shows "\<exists>k. t = s\<lparr>ss_socket := k, ss_state := AUTHENTICATING\<rparr> \<and> ss_state s = CONNECTED
    \<and> outbound k = outbound (ss_socket s) @ encode_preface
    \<and> (delivers (ss_socket s) \<longrightarrow> delivers k \<and> pending (ss_socket s) = encode_preface @ pending k)"
proof -
  obtain k1 k2 v where a: "ss_state s = CONNECTED" "recv_exact PREFACE_SIZE_BYTES (ss_socket s) = (Inr (Some v), k1)"
    "bindE (decode_preface v) validate_preface = Inr ()" "send_all encode_preface k1 = (Inr (), k2)"
    "t = s\<lparr>ss_socket := k2, ss_state := AUTHENTICATING\<rparr>"
    using assms by (auto simp: perform_handshake_def state_simps on_socket_apply set_state_def split: if_splits prod.splits)
  have "v = encode_preface" using a(3) preface_bytes_iff by blast
  moreover have "inbound k2 = inbound k1" "outbound k2 = outbound k1 @ encode_preface" using send_all_prefix [OF a(4)] by auto
  ultimately show ?thesis
    using a recv_exact_bytes [OF a(2)] recv_exact_delivers [OF a(2)]
    by (intro exI [of _ k2]) (auto simp: delivers_def pending_def)
qed

text \<open>The answer of a successful login.\<close>

definition acknowledged :: "environment \<Rightarrow> session \<Rightarrow> session \<Rightarrow> bool" where
  "acknowledged ev s t \<longleftrightarrow> (\<exists>ack.
     make_acknowledgement_frame \<lparr>ak_acknowledged_opcode = LOGIN, ak_next_offset = 0\<rparr> (max_payload ev) (ss_user_id t) = Inr ack
     \<and> outbound (ss_socket t) = outbound (ss_socket s) @ frame_bytes ack \<and> inbound (ss_socket t) = inbound (ss_socket s))"

lemma wp_registry:
  assumes "\<And>v reg. Q v (s\<lparr>ss_registry := reg\<rparr>)" "\<And>e reg. E e (s\<lparr>ss_registry := reg\<rparr>)"
  shows "wp (partS ss_registry (\<lambda>x s. s\<lparr>ss_registry := x\<rparr>) act) Q E s"
  by (rule wpI) (use assms in \<open>auto simp: partS_def split: prod.splits sum.split\<close>)

lemma authenticate_answers: "wp (authenticate ev name) (\<lambda>_ t. acknowledged ev s t) (unsent s) s"
  unfolding authenticate_def wp_bind wp_try wp_read wp_update
  by (intro wp_files wp_registry wp_send_ack)
    (auto simp: wp_simps unsent_def acknowledged_def)

lemma login_turn:
  assumes "session_receive ev s = (Inr fr, u)" "ss_state s = AUTHENTICATING" "session_ok s"
    and "parse_login fr (max_payload ev) = Inr \<lparr>lr_username = name\<rparr>" "fr_opcode fr = LOGIN"
    and "serve_turn ev s = (Inr b, t)"
  shows "b \<and> (refused ev u t \<or> acknowledged ev u t \<and> session_ok t \<and> ss_state t = IDLE
    \<and> ss_authenticated t \<and> ss_username t = Some name)"
proof -
  have u: "ss_state u = AUTHENTICATING" "session_ok u"
    using transfer_keeps_ok [OF transfer.keepsD [OF transfer_receive assms(1)] assms(3)] assms(2) by simp_all
  have "wp (authenticate ev name) (\<lambda>_ t. session_ok t \<and> ss_state t = IDLE \<and> ss_authenticated t \<and> ss_username t = Some name)
      (\<lambda>_ _. True) u"
    by (rule wpI, drule authenticate_ok [OF u(2,1)]) (auto split: sum.splits)
  note logged_in = wp_conj [OF authenticate_answers this]
  have refuse: "wp (case protocol_parts e of None \<Rightarrow> raiseS e
        | Some (code, message) \<Rightarrow> session_send_error ev (Known LOGIN) code message) (\<lambda>_ t. refused ev u t) (\<lambda>_ _. True) v"
    if "unsent u e v" for e v
    using that by (auto simp: wp_simps unsent_def split: option.split intro!: wp_send_error intro: refusedI [where extra = "[]"])
  have "wp (dispatch_authentication ev fr) (\<lambda>_ t. refused ev u t \<or> acknowledged ev u t \<and> session_ok t \<and> ss_state t = IDLE
    \<and> ss_authenticated t \<and> ss_username t = Some name) (\<lambda>_ _. True) u"
    using assms(4,5)
    by (auto simp: dispatch_authentication_def wp_try wp_bind wp_lift unsent_def split: sum.split
        intro!: wp_mono [OF logged_in] wp_mono [OF refuse])
  moreover have "dispatch_authentication ev fr u = (Inr (), t) \<and> b"
    using assms u by (auto simp: serve_turn_def bindF_def bindS_def tryS_def readS_def split: prod.splits sum.splits)
  ultimately show ?thesis using wpD by fastforce
qed

text \<open>
  C4. A login joins the two ends: when the client's \<open>connect\<close> returns and the server's handshake
  and first turn end normally on the same connection, both sides are authenticated under the same
  user name and the same user number, between 1 and 65535, the registry holds this identity for
  the session, the session is idle, and each end has read exactly what the other sent.
\<close>

theorem login_end_to_end:
  assumes client: "client_connect ev (Inr sock) username cl = (Inr (), cl')" "\<not> cl_connected cl" "\<not> cl_authenticated cl"
    and server: "perform_handshake srv = (Inr (), srv1)" "serve_turn ev srv1 = (Inr go, srv')" "session_ok srv"
    and config: "max_payload ev < 2 ^ 32 - 4"
    and up: "outbound (cl_socket cl') = outbound sock @ said" "delivers (ss_socket srv)" "pending (ss_socket srv) = said @ later"
    and down: "outbound (ss_socket srv') = outbound (ss_socket srv) @ answer" "delivers sock" "pending sock = answer @ rest"
  shows "\<exists>name. cl_username cl' = Some name \<and> ss_username srv' = Some name \<and> ss_user_id srv' = cl_user_id cl'
    \<and> 1 \<le> cl_user_id cl' \<and> cl_user_id cl' \<le> MAX_USER_ID
    \<and> cl_connected cl' \<and> cl_authenticated cl' \<and> ss_authenticated srv' \<and> ss_state srv' = IDLE \<and> go
    \<and> (\<exists>identity. session_at (ss_registry srv') (ss_registry_session_id srv') = Some identity
         \<and> sn_username identity = Some name \<and> sn_user_id identity = Some (cl_user_id cl'))
    \<and> pending (ss_socket srv') = later \<and> pending (cl_socket cl') = rest"
proof -
  obtain name login reply where c: "cl_username cl' = Some name" "make_login_frame \<lparr>lr_username = name\<rparr> (max_payload ev) USER_ID = Inr login"
    "said = encode_preface @ frame_bytes login" "fr_opcode reply = ACK" "fr_user_id reply = cl_user_id cl'"
    "parse_acknowledgement reply (max_payload ev) = Inr \<lparr>ak_acknowledged_opcode = LOGIN, ak_next_offset = 0\<rparr>"
    "pending sock = encode_preface @ frame_bytes reply @ pending (cl_socket cl')" "wf_frame (max_payload ev) reply"
    "cl_connected cl'" "cl_authenticated cl'" "1 \<le> cl_user_id cl'" "cl_user_id cl' \<le> MAX_USER_ID"
    using client_connect_Inr [OF client] up(1) down(2) by auto
  obtain k where k: "srv1 = srv\<lparr>ss_socket := k, ss_state := AUTHENTICATING\<rparr>" "ss_state srv = CONNECTED"
    "outbound k = outbound (ss_socket srv) @ encode_preface" "delivers k" "pending k = frame_bytes login @ later"
    using handshake_wire [OF server(1)] up(2,3) c(3) by auto
  note login = login.make_wf [OF c(2)]
  have ok: "session_ok srv1" "ss_state srv1 = AUTHENTICATING"
    using server(3) k(1,2) by (simp_all add: session_ok_def registered_def serving_def)
  obtain k2 where k2: "session_receive ev srv1 = (Inr login, srv1\<lparr>ss_socket := k2\<rparr>)" "pending k2 = later" "outbound k2 = outbound k"
    using receive_sent [of srv1 login later ev] login config k(1,4,5) by auto
  let ?u = "srv1\<lparr>ss_socket := k2\<rparr>"
  note turn = login_turn [OF k2(1) ok(2,1) login.parse_make [OF c(2) TrueI] _ server(2)]
  have got: "frame_bytes reply @ pending (cl_socket cl') = tail @ rest" if "answer = encode_preface @ tail" for tail
    using that c(7) down(3) by simp
  have "\<not> refused ev ?u srv'"
  proof
    assume "refused ev ?u srv'"
    then obtain er extra where "fr_opcode er = ERROR" "wf_frame (max_payload ev) er" "answer = encode_preface @ frame_bytes er @ extra"
      using down(1) k(3) k2(3) by (auto simp: refused_def)
    with frame_bytes_unique [OF c(8) _ config, of er "pending (cl_socket cl')" "extra @ rest"] got c(4) show False by auto
  qed
  with turn login have t: "go" "acknowledged ev ?u srv'" "session_ok srv'" "ss_state srv' = IDLE" "ss_authenticated srv'"
    "ss_username srv' = Some name" by auto
  then obtain ack where ack: "make_acknowledgement_frame \<lparr>ak_acknowledged_opcode = LOGIN, ak_next_offset = 0\<rparr> (max_payload ev) (ss_user_id srv') = Inr ack"
    "answer = encode_preface @ frame_bytes ack" "inbound (ss_socket srv') = inbound k2"
    using down(1) k(3) k2(3) by (auto simp: acknowledged_def)
  have "reply = ack" "pending (cl_socket cl') = rest"
    using frame_bytes_unique [OF c(8) _ config, of ack "pending (cl_socket cl')" rest] ack.make_wf [OF ack(1)] got ack(2) by auto
  moreover have "fr_user_id ack = ss_user_id srv'" using ack.make_wf [OF ack(1)] by simp
  moreover have "pending (ss_socket srv') = later" using ack(3) k2(2) by (simp add: pending_def)
  moreover have "registered srv'" using t(3,5) by (simp add: session_ok_def)
  ultimately show ?thesis
    using c t by (auto simp: registered_def)
qed

subsection \<open>An example listing\<close>

lemma example_listing:
  "list_storage [[115], [97]] example_files = (Inr [\<lparr>fe_filename = [102], fe_file_size = 3\<rparr>], example_files)"
proof -
  have "map fst (fs_nodes example_files) = [[[115]], [[115], [97]], [[115], [97], [102]], [[115], [97], [108]]]"
    "fs_faults example_files = []" by (simp_all add: example_files_def)
  then have it: "iterdir [[115], [97]] example_files = (Inr [[[115], [97], [102]], [[115], [97], [108]]], example_files)"
    by (simp add: iterdir_def os_call_def example_resolves example_nodes)
  have "stat_node [[115], [97], [102]] example_files = (Inr (RegularFile [1, 2, 3] 0), example_files)"
    by (simp add: stat_node_def os_call_def \<open>fs_faults example_files = []\<close> followed_def example_resolves example_nodes)
  moreover have "\<not> is_internal_file [102]"
    by (simp add: is_internal_file_def ends_with_def INTERNAL_EXACT_NAMES_def lit_def)
  ultimately have "collect_entries [[[115], [97], [102]], [[115], [97], [108]]] example_files
      = (Inr [\<lparr>fe_filename = [102], fe_file_size = 3\<rparr>], example_files)"
    by (simp add: bindS_def readS_def path_name_def is_symlink_def example_nodes regular_entry_def)
  with it show ?thesis by (simp add: list_storage_def)
qed

lemma list_frames:
  "make_file_list_frame 1024 1 = Inr (file_frame FILE_LIST [])"
  "make_file_list_response_frame [\<lparr>fe_filename = [102], fe_file_size = 3\<rparr>] 1024 1
     = Inr (file_frame FILE_LIST_RESP [0, 0, 0, 1, 0, 1, 102, 0, 0, 0, 0, 0, 0, 0, 3])"
proof -
  show "make_file_list_frame 1024 1 = Inr (file_frame FILE_LIST [])"
    by (simp add: make_file_list_frame_def run_make file_frame_def)
  show "make_file_list_response_frame [\<lparr>fe_filename = [102], fe_file_size = 3\<rparr>] 1024 1
     = Inr (file_frame FILE_LIST_RESP [0, 0, 0, 1, 0, 1, 102, 0, 0, 0, 0, 0, 0, 0, 3])"
    by (simp add: make_file_list_response_frame_def run_make file_frame_def)
qed

definition listed_frame :: frame where
  "listed_frame = file_frame FILE_LIST_RESP [0, 0, 0, 1, 0, 1, 102, 0, 0, 0, 0, 0, 0, 0, 3]"

lemma listed_frame_wf: "wf_frame 1024 listed_frame" "fr_user_id listed_frame = 1" "fr_opcode listed_frame = FILE_LIST_RESP"
  "wf_frame 1024 (file_frame FILE_LIST [])" "fr_opcode (file_frame FILE_LIST []) = FILE_LIST"
  unfolding listed_frame_def by (simp_all add: example_frames_wf) (simp_all add: file_frame_def)

lemma frames_session_files:
  "on_files act (frames_session st frames out) =
     (case act example_files of (r, fs) \<Rightarrow> (r, (frames_session st frames out)\<lparr>ss_files := fs\<rparr>))"
  by (simp add: on_files_apply)

lemma example_list_turn:
  "serve_turn example_environment (frames_session IDLE [file_frame FILE_LIST []] [])
     = (Inr True, frames_session IDLE [] (frame_bytes listed_frame))"
proof -
  let ?s = "frames_session IDLE []"
  note parse = listing.parse_make [OF list_frames(1) TrueI]
  have same: "(?s out)\<lparr>ss_files := example_files\<rparr> = ?s out" "(?s out)\<lparr>ss_state := IDLE\<rparr> = ?s out"
    "ss_logger (?s out) = None" "\<not> ss_has_filename_locks (?s out)" for out
    by (simp_all add: frames_session_def example_session_def)
  have handler: "handle_file_list example_environment (file_frame FILE_LIST []) (?s []) = (Inr listed_frame, ?s (frame_bytes listed_frame))"
    using frames_session_run(1) [OF listed_frame_wf(1,2), of IDLE "[]" "[]"] parse
    by (simp add: handle_file_list_def session_storage_directory_def bindS_def readS_def tryS_def frames_session_files
        example_listing same list_frames flip: listed_frame_def)
  have "validate_message (file_frame FILE_LIST []) 1024 512 = Inr ()"
    using parse by (simp add: validate_message_def decode_message_def Let_def listed_frame_wf)
  then have "dispatch_request example_environment (file_frame FILE_LIST []) (?s []) = (Inr (), ?s (frame_bytes listed_frame))"
    using handler
    by (simp add: dispatch_request_def bindS_def readS_def has_handler_def begin_request_def listed_frame_wf filename_guard_def
        same run_handler_def closing_def finish_request_def set_state_def log_command_def updateS_def)
  then show ?thesis
    using frames_session_run(2) [OF listed_frame_wf(4), of IDLE "[]" "[]"]
    by (simp add: serve_turn_def bindF_def bindS_def tryS_def readS_def dispatch_def example_frames_wf)
qed

lemma example_list_files:
  "list_files example_environment (frames_client example_files [listed_frame] [])
     = (Inr [\<lparr>fe_filename = [102], fe_file_size = 3\<rparr>], frames_client example_files [] (frame_bytes (file_frame FILE_LIST [])))"
  using entries.parse_make [OF list_frames(2) [folded listed_frame_def] TrueI]
  by (simp add: list_files_def bindS_def readS_def list_frames frames_client_run listed_frame_wf example_frames_wf)

theorem listing_end_to_end_witness:
  "set [\<lparr>fe_filename = [102], fe_file_size = 3\<rparr>] = public_files example_files [[115], [97]]"
proof -
  let ?cl = "frames_client example_files [listed_frame] []"
  let ?srv = "frames_session IDLE [file_frame FILE_LIST []] []"
  have side: "cl_authenticated ?cl" "cl_user_id ?cl = ss_user_id ?srv" "ss_state ?srv = IDLE" "ss_username ?srv = Some [97]"
    "resolve (ss_files ?srv) (storage_root example_environment @ [[97]]) = Some (storage_root example_environment @ [[97]])"
    "distinct (map fst (fs_nodes (ss_files ?srv)))" "max_payload example_environment < 2 ^ 32 - 4"
    by (simp_all add: example_resolves) (simp_all add: frames_client_def example_files_def)
  have wires: "outbound (cl_socket (frames_client example_files [] (frame_bytes (file_frame FILE_LIST []))))
        = outbound (cl_socket ?cl) @ frame_bytes (file_frame FILE_LIST [])"
      "delivers (ss_socket ?srv)" "pending (ss_socket ?srv) = frame_bytes (file_frame FILE_LIST []) @ []"
      "outbound (ss_socket (frames_session IDLE [] (frame_bytes listed_frame))) = outbound (ss_socket ?srv) @ frame_bytes listed_frame"
      "delivers (cl_socket ?cl)" "pending (cl_socket ?cl) = frame_bytes listed_frame @ []"
    by (simp_all add: frames_stream) (simp_all add: frames_socket_def)
  from listing_end_to_end [OF example_list_files side(1,2) example_list_turn side(3-) wires] show ?thesis by simp
qed

subsection \<open>An example login\<close>

text \<open>A server that has greeted the client, and one that the client's bytes have just reached.\<close>

definition greeted :: "byte list \<Rightarrow> frame list \<Rightarrow> session" where
  "greeted out frames = login_example\<lparr>ss_socket := frames_socket frames out\<rparr>"

definition arriving_client :: session where
  "arriving_client = login_example\<lparr>ss_state := CONNECTED, ss_socket :=
     \<lparr>inbound = [Segment encode_preface, Segment (frame_bytes login_frame)], outbound = [], send_plan = []\<rparr>\<rparr>"

lemma login_frame_wf: "wf_frame 1024 login_frame" "fr_opcode login_frame = LOGIN" "fr_user_id login_frame = 0"
  by (simp_all add: login_frame_def wf_frame_def MAX_USER_ID_def)

lemma example_handshake: "perform_handshake arriving_client = (Inr (), greeted encode_preface [login_frame])"
proof -
  have len: "length encode_preface = 8" by (simp add: encode_preface_def)
  then have ne: "encode_preface \<noteq> []" by auto
  have "recv_exact PREFACE_SIZE_BYTES (ss_socket arriving_client) = (Inr (Some encode_preface), frames_socket [login_frame] [])"
    using recv_exact_arriving [where v = encode_preface and rest = "[]" and later = "[Segment (frame_bytes login_frame)]"
        and k = "frames_socket [login_frame] []" and n = PREFACE_SIZE_BYTES]
    by (simp add: arriving_def arriving_client_def frames_socket_def len ne PREFACE_SIZE_BYTES_def)
  moreover have "bindE (decode_preface encode_preface) validate_preface = Inr ()" by (simp add: preface_bytes_iff)
  moreover have "send_all encode_preface (frames_socket [login_frame] []) = (Inr (), frames_socket [login_frame] encode_preface)"
    by (simp add: frames_socket_def send_unlimited)
  ultimately show ?thesis
    by (simp add: perform_handshake_def bindS_def readS_def on_socket_apply set_state_def updateS_def)
      (simp add: arriving_client_def greeted_def login_states)
qed

lemma greeted_authenticate:
  "\<exists>t. authenticate example_environment [97] (greeted out []) = (Inr (), t)
     \<and> ss_socket t = frames_socket [] (out @ frame_bytes (ack_frame 1 0))"
proof -
  let ?a = "authenticate example_environment [97] (greeted out [])"
  have "make_acknowledgement_frame \<lparr>ak_acknowledged_opcode = LOGIN, ak_next_offset = 0\<rparr> 1024 1 = Inr (ack_frame 1 0)"
    by (simp add: run_frames ack_frame_def)
  then have "fst ?a = Inr () \<and> ss_socket (snd ?a) = frames_socket [] (out @ frame_bytes (ack_frame 1 0))"
    by (simp add: greeted_def frames_send example_frames_wf run_actions run_session run_files run_registry login_states USER_ID_def MAX_USER_ID_def)
  then show ?thesis by (metis prod.collapse)
qed


lemma greeted_turn:
  "\<exists>t. serve_turn example_environment (greeted out [login_frame]) = (Inr True, t)
     \<and> outbound (ss_socket t) = out @ frame_bytes (ack_frame 1 0)"
proof -
  obtain t where a: "authenticate example_environment [97] (greeted out []) = (Inr (), t)"
    "ss_socket t = frames_socket [] (out @ frame_bytes (ack_frame 1 0))" using greeted_authenticate by blast
  have s: "ss_state (greeted out frames) = AUTHENTICATING" for frames by (simp add: greeted_def login_states)
  have start: "ss_state login_example = AUTHENTICATING" by (simp add: login_states)
  have rc: "session_receive example_environment (greeted out [login_frame]) = (Inr login_frame, greeted out [])"
    using s by (simp add: session_receive_def bindS_def readS_def tryS_def on_socket_apply Let_def)
      (simp add: greeted_def frames_receive login_frame_wf USER_ID_def start)
  have "ac_max_username_bytes (cf_auth (ev_config example_environment)) = 32"
    by (simp add: example_environment_def example_config_def)
  then have "dispatch_authentication example_environment login_frame (greeted out []) = (Inr (), t)"
    using a(1) parse_login_frame utf8_encode_a by (simp add: dispatch_authentication_def bindS_def tryS_def login_frame_wf)
  then show ?thesis using rc s a(2)
    by (simp add: serve_turn_def bindF_def bindS_def tryS_def readS_def frames_socket_def)
qed

theorem login_end_to_end_witness:
  "\<exists>cl' srv'. client_connect example_environment (Inr accepting_server) None (make_client (Some [97]) example_files) = (Inr (), cl')
     \<and> serve_turn example_environment (greeted encode_preface [login_frame]) = (Inr True, srv')
     \<and> cl_username cl' = Some [97] \<and> ss_username srv' = Some [97] \<and> ss_user_id srv' = cl_user_id cl'"
proof -
  obtain cl' where cl: "client_connect example_environment (Inr accepting_server) None (make_client (Some [97]) example_files) = (Inr (), cl')"
    "cl_username cl' = Some [97]" using accepted_login by blast
  obtain srv' where srv: "serve_turn example_environment (greeted encode_preface [login_frame]) = (Inr True, srv')"
    "outbound (ss_socket srv') = encode_preface @ frame_bytes (ack_frame 1 0)" using greeted_turn by blast
  have out: "\<not> cl_connected (make_client (Some [97]) example_files)" "\<not> cl_authenticated (make_client (Some [97]) example_files)"
    by (simp_all add: make_client_def)
  obtain login where login: "make_login_frame \<lparr>lr_username = [97]\<rparr> 1024 USER_ID = Inr login"
    "outbound (cl_socket cl') = outbound accepting_server @ encode_preface @ frame_bytes login"
    using client_connect_Inr [OF cl(1) out] cl(2) by auto
  have "login = login_frame"
    using login.parse_iff_make [OF login_frame_wf(1), of "\<lparr>lr_username = [97]\<rparr>"] parse_login_frame login(1)
    by (simp add: login_frame_wf USER_ID_def)
  then have said: "outbound (cl_socket cl') = outbound accepting_server @ encode_preface @ frame_bytes login_frame"
    using login(2) by simp
  have "make_registry 9 = Inr fresh_registry"
    by (simp add: make_registry_def fresh_registry_def MIN_USER_ID_def MAX_USER_ID_def)
  then have ok: "session_ok arriving_client"
    by (simp add: session_ok_def arriving_client_def login_example_def make_registry_ok register_session_ok serving_def)
  have "encode_preface \<noteq> []" by (simp add: encode_preface_def flip: length_greater_0_conv)
  then have wires: "delivers (ss_socket arriving_client)" "pending (ss_socket arriving_client) = (encode_preface @ frame_bytes login_frame) @ []"
    "outbound (ss_socket srv') = outbound (ss_socket arriving_client) @ encode_preface @ frame_bytes (ack_frame 1 0)"
    "delivers accepting_server" "pending accepting_server = (encode_preface @ frame_bytes (ack_frame 1 0)) @ []"
    by (simp_all add: arriving_client_def accepting_server_def delivers_def pending_def frame_bytes_ne srv(2) ack_frame_def)
  from login_end_to_end [OF cl(1) out example_handshake srv(1) ok _ said wires] cl srv(1) show ?thesis by auto
qed

end
