(* ===== verification/Workers.thy ===== *)
theory Workers
  imports Session
begin

section \<open>Client threads of the server\<close>

text \<open>
  \<open>src/hcmus_socket/server/app.py\<close>.  \<open>ClientWorkerGroup\<close> is shared by the accepting thread and
  the client threads: its operations are given as the sections each thread runs without being
  interleaved (a call on the semaphore, a body under \<open>_lock\<close>, a call of the registry), and
  \<open>worker_step\<close> interleaves them.  A thread and its accepted socket carry one number.
\<close>

subsection \<open>The group\<close>

record worker_group =
  wg_limit :: int \<comment> \<open>\<open>config.server.max_clients\<close>\<close>
  wg_slots :: int \<comment> \<open>what is left of the semaphore\<close>
  wg_workers :: "(nat \<times> nat) list" \<comment> \<open>thread and socket, in insertion order\<close>
  wg_closing :: bool
  wg_closed_sockets :: "nat list"

definition make_group :: "int \<Rightarrow> exc + worker_group" where
  "make_group max_clients =
     (if max_clients < 0 then Inl (ValueError (lit ''semaphore initial value must be >= 0''))
      else Inr \<lparr>wg_limit = max_clients, wg_slots = max_clients, wg_workers = [], wg_closing = False,
        wg_closed_sockets = []\<rparr>)"

text \<open>\<open>self._slots.acquire(blocking=False)\<close>; \<open>None\<close> is the answer \<open>False\<close>.\<close>

definition acquire_slot :: "worker_group \<Rightarrow> worker_group option" where
  "acquire_slot g = (if wg_slots g = 0 then None else Some (g\<lparr>wg_slots := wg_slots g - 1\<rparr>))"

text \<open>\<open>self._slots.release()\<close> of a \<open>BoundedSemaphore\<close>\<close>

definition release_slot :: "(exc, worker_group, unit) action" where
  "release_slot g =
     (if wg_limit g \<le> wg_slots g then (Inl (ValueError (lit ''Semaphore released too many times'')), g)
      else (Inr (), g\<lparr>wg_slots := wg_slots g + 1\<rparr>))"

definition close_socket :: "nat \<Rightarrow> (exc, worker_group, unit) action" where
  "close_socket socket g = (Inr (), g\<lparr>wg_closed_sockets := socket # wg_closed_sockets g\<rparr>)"

text \<open>The section of \<open>start\<close> under the lock.\<close>

definition record_worker :: "nat \<Rightarrow> nat \<Rightarrow> (exc, worker_group, unit) action" where
  "record_worker worker accepted_socket =
     bindS (readS wg_closing) (\<lambda>closing.
     if closing then
       bindS release_slot (\<lambda>_. bindS (close_socket accepted_socket) (\<lambda>_.
       raiseS (RuntimeError (lit ''client worker group is shutting down''))))
     else updateS (\<lambda>g. g\<lparr>wg_workers := AList.update worker accepted_socket (wg_workers g)\<rparr>))"

text \<open>\<open>with self._lock: self._workers.pop(worker, None)\<close>\<close>

definition forget_worker :: "nat \<Rightarrow> worker_group \<Rightarrow> worker_group" where
  "forget_worker worker g = g\<lparr>wg_workers := AList.delete worker (wg_workers g)\<rparr>"

text \<open>The section of \<open>close\<close> under the lock: the workers it will join.\<close>

definition begin_close :: "(exc, worker_group, (nat \<times> nat) list) action" where
  "begin_close g = (Inr (wg_workers g), g\<lparr>wg_closing := True\<rparr>)"

definition active_workers :: "worker_group \<Rightarrow> nat" where
  "active_workers g = length (wg_workers g)"

subsection \<open>Slots\<close>

text \<open>
  What the group needs of its semaphore: the free slots are the limit less the holders.  Then no
  release can be one too many, and admission fails exactly when every slot has a holder.
\<close>

locale counted_slots =
  fixes acquire :: "'g \<Rightarrow> 'g option"
    and release :: "('e, 'g, unit) action"
    and free :: "'g \<Rightarrow> int"
    and limit :: "'g \<Rightarrow> int"
  assumes acquire_Some: "acquire g = Some g' \<Longrightarrow> free g \<noteq> 0 \<and> free g' = free g - 1 \<and> limit g' = limit g"
    and acquire_None: "acquire g = None \<Longrightarrow> free g = 0"
    and release_below: "free g < limit g \<Longrightarrow> release g = (r, g') \<Longrightarrow>
      r = Inr () \<and> free g' = free g + 1 \<and> limit g' = limit g"
begin

definition taken :: "'g \<Rightarrow> 'w set \<Rightarrow> bool" where
  "taken g A \<longleftrightarrow> finite A \<and> free g = limit g - int (card A) \<and> 0 \<le> free g"

lemma taken_acquire: "taken g A \<Longrightarrow> w \<notin> A \<Longrightarrow> acquire g = Some g' \<Longrightarrow> taken g' (insert w A) \<and> limit g' = limit g"
  using acquire_Some [of g g'] by (auto simp: taken_def)

lemma taken_release:
  assumes "taken g A" "w \<in> A" "release g = (r, g')"
  shows "r = Inr () \<and> taken g' (A - {w}) \<and> limit g' = limit g"
proof -
  have "0 < card A" using assms(1,2) by (auto simp: taken_def card_gt_0_iff)
  then show ?thesis using release_below [OF _ assms(3)] assms(1,2) by (auto simp: taken_def)
qed

lemma taken_all: "taken g A \<Longrightarrow> acquire g = None \<Longrightarrow> int (card A) = limit g"
  using acquire_None [of g] by (simp add: taken_def)

lemma taken_bound: "taken g A \<Longrightarrow> finite A \<and> int (card A) \<le> limit g"
  by (simp add: taken_def)

end

interpretation slots: counted_slots acquire_slot release_slot wg_slots wg_limit
  by unfold_locales (auto simp: acquire_slot_def release_slot_def split: if_splits)

subsection \<open>The threads\<close>

datatype worker_state =
    NotStarted
  | Admitted              \<comment> \<open>\<open>start\<close> has a slot\<close>
  | Recorded              \<comment> \<open>in the dictionary, before \<open>worker.start()\<close>\<close>
  | StartFailed           \<comment> \<open>\<open>worker.start()\<close> has raised\<close>
  | StartForgotten        \<comment> \<open>taken out again, slot not yet released\<close>
  | Running               \<comment> \<open>\<open>_run_client\<close> before \<open>register_session\<close>\<close>
  | Serving int           \<comment> \<open>inside \<open>serve_client\<close>, with its session id\<close>
  | Ending "int option"   \<comment> \<open>in the \<open>finally\<close>, with the registration\<close>
  | Released              \<comment> \<open>registry session released\<close>
  | Forgotten             \<comment> \<open>out of the dictionary\<close>
  | Finished

text \<open>\<open>awaited\<close> is the tuple of workers that \<open>close\<close> has taken, once it has.\<close>

record server_world =
  sw_group :: worker_group
  sw_registry :: registry
  sw_pcs :: "nat \<Rightarrow> worker_state"
  sw_awaited :: "(nat \<times> nat) list option"

definition move :: "nat \<Rightarrow> worker_state \<Rightarrow> server_world \<Rightarrow> server_world" where
  "move w pc s = s\<lparr>sw_pcs := (sw_pcs s)(w := pc)\<rparr>"

inductive worker_step :: "server_world \<Rightarrow> server_world \<Rightarrow> bool" where
  admit: "sw_pcs s w = NotStarted \<Longrightarrow> acquire_slot (sw_group s) = Some g \<Longrightarrow>
    worker_step s (move w Admitted (s\<lparr>sw_group := g\<rparr>))"
| enter: "sw_pcs s w = Admitted \<Longrightarrow> record_worker w w (sw_group s) = (Inr (), g) \<Longrightarrow>
    worker_step s (move w Recorded (s\<lparr>sw_group := g\<rparr>))"
| refuse: "sw_pcs s w = Admitted \<Longrightarrow> record_worker w w (sw_group s) = (Inl e, g) \<Longrightarrow>
    worker_step s (move w Finished (s\<lparr>sw_group := g\<rparr>))"
| begins: "sw_pcs s w = Recorded \<Longrightarrow> worker_step s (move w Running s)"
| begins_not: "sw_pcs s w = Recorded \<Longrightarrow> worker_step s (move w StartFailed s)"
| undo: "sw_pcs s w = StartFailed \<Longrightarrow>
    worker_step s (move w StartForgotten (s\<lparr>sw_group := forget_worker w (sw_group s)\<rparr>))"
| undone: "sw_pcs s w = StartForgotten \<Longrightarrow>
    bindS release_slot (\<lambda>_. close_socket w) (sw_group s) = (r, g) \<Longrightarrow>
    worker_step s (move w Finished (s\<lparr>sw_group := g\<rparr>))"
| register: "sw_pcs s w = Running \<Longrightarrow> register_session peer (sw_registry s) = (Inr rec, reg) \<Longrightarrow>
    worker_step s (move w (Serving (sn_session_id rec)) (s\<lparr>sw_registry := reg\<rparr>))"
| claim: "sw_pcs s w = Serving k \<Longrightarrow> claim_username k name (sw_registry s) = (r, reg) \<Longrightarrow>
    worker_step s (s\<lparr>sw_registry := reg\<rparr>)"
| served: "sw_pcs s w = Serving k \<Longrightarrow> close_socket w (sw_group s) = (r, g) \<Longrightarrow>
    worker_step s (move w (Ending (Some k)) (s\<lparr>sw_group := g\<rparr>))"
| unregistered: "sw_pcs s w = Running \<Longrightarrow> close_socket w (sw_group s) = (r, g) \<Longrightarrow>
    worker_step s (move w (Ending None) (s\<lparr>sw_group := g\<rparr>))"
| release: "sw_pcs s w = Ending (Some k) \<Longrightarrow> release_session k (sw_registry s) = (r, reg) \<Longrightarrow>
    worker_step s (move w Released (s\<lparr>sw_registry := reg\<rparr>))"
| release_none: "sw_pcs s w = Ending None \<Longrightarrow> worker_step s (move w Released s)"
| forget: "sw_pcs s w = Released \<Longrightarrow>
    worker_step s (move w Forgotten (s\<lparr>sw_group := forget_worker w (sw_group s)\<rparr>))"
| free: "sw_pcs s w = Forgotten \<Longrightarrow> release_slot (sw_group s) = (r, g) \<Longrightarrow>
    worker_step s (move w Finished (s\<lparr>sw_group := g\<rparr>))"
| shut: "begin_close (sw_group s) = (Inr workers, g) \<Longrightarrow> sw_awaited s = None \<Longrightarrow>
    worker_step s (s\<lparr>sw_group := g, sw_awaited := Some workers\<rparr>)"

definition server_start :: "worker_group \<Rightarrow> registry \<Rightarrow> server_world" where
  "server_start g reg = \<lparr>sw_group = g, sw_registry = reg, sw_pcs = (\<lambda>_. NotStarted), sw_awaited = None\<rparr>"

inductive server_reaches :: "server_world \<Rightarrow> server_world \<Rightarrow> bool" for s where
  here: "server_reaches s s"
| later: "server_reaches s t \<Longrightarrow> worker_step t u \<Longrightarrow> server_reaches s u"

subsection \<open>The invariant\<close>

fun holds_slot :: "worker_state \<Rightarrow> bool" where
  "holds_slot NotStarted = False"
| "holds_slot Finished = False"
| "holds_slot _ = True"

fun in_group :: "worker_state \<Rightarrow> bool" where
  "in_group Recorded = True"
| "in_group StartFailed = True"
| "in_group Running = True"
| "in_group (Serving _) = True"
| "in_group (Ending _) = True"
| "in_group Released = True"
| "in_group _ = False"

fun session_of :: "worker_state \<Rightarrow> int option" where
  "session_of (Serving k) = Some k"
| "session_of (Ending k) = k"
| "session_of _ = None"

definition slot_holders :: "server_world \<Rightarrow> nat set" where
  "slot_holders s = {w. holds_slot (sw_pcs s w)}"

definition members :: "server_world \<Rightarrow> nat set" where
  "members s = {w. in_group (sw_pcs s w)}"

definition sessions_match :: "registry \<Rightarrow> (nat \<Rightarrow> worker_state) \<Rightarrow> bool" where
  "sessions_match reg pcs \<longleftrightarrow> registry_ok reg
     \<and> (\<forall>k. session_at reg k \<noteq> None \<longleftrightarrow> (\<exists>w. session_of (pcs w) = Some k))
     \<and> (\<forall>v w k. session_of (pcs v) = Some k \<longrightarrow> session_of (pcs w) = Some k \<longrightarrow> v = w)"

definition group_ok :: "worker_group \<Rightarrow> nat set \<Rightarrow> bool" where
  "group_ok g A \<longleftrightarrow> distinct (map fst (wg_workers g)) \<and> dom (map_of (wg_workers g)) = A"

definition closing_ok :: "server_world \<Rightarrow> bool" where
  "closing_ok s \<longleftrightarrow> (case sw_awaited s of None \<Rightarrow> \<not> wg_closing (sw_group s)
     | Some ws \<Rightarrow> wg_closing (sw_group s) \<and> members s \<subseteq> fst ` set ws)"

definition server_ok :: "server_world \<Rightarrow> bool" where
  "server_ok s \<longleftrightarrow> slots.taken (sw_group s) (slot_holders s) \<and> group_ok (sw_group s) (members s)
     \<and> sessions_match (sw_registry s) (sw_pcs s) \<and> closing_ok s"

lemma move_simps [simp]:
  "sw_group (move w pc s) = sw_group s" "sw_registry (move w pc s) = sw_registry s" "sw_awaited (move w pc s) = sw_awaited s"
  "sw_pcs (move w pc s) = (sw_pcs s)(w := pc)"
  by (simp_all add: move_def)

lemma holders_move: "slot_holders (move w pc s) = (if holds_slot pc then insert w (slot_holders s) else slot_holders s - {w})"
  by (auto simp: slot_holders_def)

lemma members_move: "members (move w pc s) = (if in_group pc then insert w (members s) else members s - {w})"
  by (auto simp: members_def)

lemma holders_fields [simp]: "slot_holders (s\<lparr>sw_group := g\<rparr>) = slot_holders s" "slot_holders (s\<lparr>sw_registry := reg\<rparr>) = slot_holders s"
  "slot_holders (s\<lparr>sw_awaited := a\<rparr>) = slot_holders s" "members (s\<lparr>sw_group := g\<rparr>) = members s"
  "members (s\<lparr>sw_registry := reg\<rparr>) = members s" "members (s\<lparr>sw_awaited := a\<rparr>) = members s"
  by (simp_all add: slot_holders_def members_def)

lemma sessions_match_same:
  assumes "sessions_match reg pcs" "session_of pc = session_of (pcs w)"
  shows "sessions_match reg (pcs(w := pc))"
proof -
  have "session_of ((pcs(w := pc)) v) = session_of (pcs v)" for v using assms(2) by simp
  then show ?thesis using assms(1) unfolding sessions_match_def by presburger
qed

lemma sessions_match_register:
  assumes "sessions_match reg pcs" "session_of (pcs w) = None" "register_session peer reg = (Inr rec, reg')"
  shows "sessions_match reg' (pcs(w := Serving (sn_session_id rec)))"
proof -
  let ?k = "rg_next_session_id reg"
  have r: "reg' = snd (register_session peer reg)" "sn_session_id rec = ?k"
    using assms(3) by (auto simp: register_session_def Let_def)
  have fresh: "session_at reg ?k = None"
    using assms(1) registry_okD(1) [of reg ?k] by (cases "session_at reg ?k") (auto simp: sessions_match_def)
  then have none: "session_of (pcs v) \<noteq> Some ?k" for v using assms(1) unfolding sessions_match_def by metis
  show ?thesis
    unfolding sessions_match_def r register_session_at
    using assms(1) register_session_ok [of reg peer] none
    by (auto simp: sessions_match_def) (metis assms(2) option.distinct(1))+
qed

lemma sessions_match_release:
  assumes "sessions_match reg pcs" "session_of (pcs w) = Some k" "session_of pc = None"
  shows "sessions_match (snd (release_session k reg)) (pcs(w := pc))"
proof -
  let ?pcs = "pcs(w := pc)"
  have uniq: "v = w" if "session_of (pcs v) = Some k" for v
    using assms(1,2) that unfolding sessions_match_def by blast
  have owned: "session_at reg j \<noteq> None \<longleftrightarrow> (\<exists>v. session_of (pcs v) = Some j)" for j
    using assms(1) unfolding sessions_match_def by blast
  have "((session_at reg)(k := None)) j \<noteq> None \<longleftrightarrow> (\<exists>v. session_of (?pcs v) = Some j)" for j
  proof (cases "j = k")
    case True
    then show ?thesis using uniq assms(3) by auto
  next
    case False
    have "session_of (?pcs v) = Some j \<longleftrightarrow> session_of (pcs v) = Some j" for v
      using assms(2,3) False by (cases "v = w") auto
    with False owned [of j] show ?thesis by simp
  qed
  moreover have "v = x" if "session_of (?pcs v) = Some j" "session_of (?pcs x) = Some j" for v x j
    using assms(1,3) that unfolding sessions_match_def by (auto split: if_splits)
  ultimately show ?thesis
    using assms(1) release_session_ok [of reg k] unfolding sessions_match_def release_session_at by blast
qed

lemma claim_keeps_sessions:
  assumes "registry_ok reg" "claim_username k u reg = (r, reg')"
  shows "registry_ok reg' \<and> (\<forall>j. session_at reg' j = None \<longleftrightarrow> session_at reg j = None)"
proof -
  have "registry_ok reg'" using claim_username_ok [OF assms(1), of k u] assms(2) by simp
  moreover have "\<forall>j. session_at reg' j = None \<longleftrightarrow> session_at reg j = None"
    using assms
  proof (cases rule: claim_username_cases)
    case (claimed x i reg1)
    then show ?thesis using claim_stored [OF assms(1) claimed(2-5) refl claimed(7)] by simp
  qed simp_all
  ultimately show ?thesis ..
qed

subsection \<open>Every step keeps it\<close>

lemma slot_fields:
  "acquire_slot g = Some g' \<Longrightarrow> wg_workers g' = wg_workers g \<and> wg_closing g' = wg_closing g"
  "release_slot g = (r, g') \<Longrightarrow> wg_workers g' = wg_workers g \<and> wg_closing g' = wg_closing g"
  "close_socket w g = (q, g') \<Longrightarrow> wg_workers g' = wg_workers g \<and> wg_closing g' = wg_closing g
     \<and> wg_slots g' = wg_slots g \<and> wg_limit g' = wg_limit g"
  by (auto simp: acquire_slot_def release_slot_def close_socket_def split: if_splits)

lemma taken_cong:
  "wg_slots g' = wg_slots g \<Longrightarrow> wg_limit g' = wg_limit g \<Longrightarrow> slots.taken g' A = slots.taken g A"
  by (simp add: slots.taken_def)

lemma group_ok_cong: "wg_workers g' = wg_workers g \<Longrightarrow> group_ok g' A = group_ok g A"
  by (simp add: group_ok_def)

lemma group_ok_record:
  "group_ok g A \<Longrightarrow> group_ok (g\<lparr>wg_workers := AList.update w x (wg_workers g)\<rparr>) (insert w A)"
  by (auto simp: group_ok_def AList.update_conv' distinct_update)

lemma group_ok_forget: "group_ok g A \<Longrightarrow> group_ok (forget_worker w g) (A - {w})"
  by (auto simp: group_ok_def forget_worker_def AList.delete_conv' distinct_delete)

lemma forget_fields [simp]: "wg_slots (forget_worker w g) = wg_slots g" "wg_limit (forget_worker w g) = wg_limit g"
  "wg_closing (forget_worker w g) = wg_closing g"
  by (simp_all add: forget_worker_def)

lemma record_worker_Inr:
  "record_worker w x g = (Inr u, g') \<longleftrightarrow> \<not> wg_closing g \<and> g' = g\<lparr>wg_workers := AList.update w x (wg_workers g)\<rparr>"
  by (auto simp: record_worker_def bindS_def readS_def updateS_def split: prod.splits sum.splits)

lemma record_worker_Inl:
  assumes "record_worker w x g = (Inl e, g')" "slots.taken g A" "w \<in> A"
  shows "slots.taken g' (A - {w}) \<and> wg_workers g' = wg_workers g \<and> wg_closing g' = wg_closing g"
proof -
  obtain r g1 where rel: "release_slot g = (r, g1)" by fastforce
  note t = slots.taken_release [OF assms(2,3) rel]
  obtain q g2 where cl: "close_socket x g1 = (q, g2)" by fastforce
  have "q = Inr ()" using cl by (simp add: close_socket_def)
  have "wg_closing g" using assms(1) by (auto simp: record_worker_def bindS_def readS_def updateS_def split: if_splits)
  then have "g' = g2"
    using assms(1) rel cl t \<open>q = Inr ()\<close> by (simp add: record_worker_def bindS_def readS_def)
  with t slot_fields(2) [OF rel] slot_fields(3) [OF cl] show ?thesis by (simp add: taken_cong [of g2 g1])
qed

lemma closing_ok_sub:
  "closing_ok s \<Longrightarrow> sw_awaited t = sw_awaited s \<Longrightarrow> wg_closing (sw_group t) = wg_closing (sw_group s) \<Longrightarrow>
     members t \<subseteq> members s \<or> \<not> wg_closing (sw_group s) \<Longrightarrow> closing_ok t"
  by (auto simp: closing_ok_def split: option.splits)

text \<open>A step of a thread that keeps its slot, its place in the dictionary and the closing flag.\<close>

lemma server_ok_quiet:
  assumes "server_ok s" "holds_slot pc = holds_slot (sw_pcs s w)" "in_group pc = in_group (sw_pcs s w)"
    and "wg_slots g = wg_slots (sw_group s)" "wg_limit g = wg_limit (sw_group s)" "wg_workers g = wg_workers (sw_group s)"
    and "wg_closing g = wg_closing (sw_group s)" "sessions_match reg ((sw_pcs s)(w := pc))"
  shows "server_ok (move w pc (s\<lparr>sw_group := g, sw_registry := reg\<rparr>))"
proof -
  have "(if holds_slot pc then insert w (slot_holders s) else slot_holders s - {w}) = slot_holders s"
    "(if in_group pc then insert w (members s) else members s - {w}) = members s"
    using assms(2,3) by (auto simp: slot_holders_def members_def)
  then have "slot_holders (move w pc (s\<lparr>sw_group := g, sw_registry := reg\<rparr>)) = slot_holders s"
    "members (move w pc (s\<lparr>sw_group := g, sw_registry := reg\<rparr>)) = members s"
    by (simp_all only: holders_move members_move holders_fields)
  moreover have "closing_ok (move w pc (s\<lparr>sw_group := g, sw_registry := reg\<rparr>))"
    using assms(1,7) calculation(2) closing_ok_sub [of s] by (simp add: server_ok_def)
  ultimately show ?thesis
    using assms by (simp add: server_ok_def taken_cong [of g "sw_group s"] group_ok_cong [of g "sw_group s"])
qed

lemma server_ok_step:
  assumes "server_ok s" "worker_step s t"
  shows "server_ok t"
  using assms(2,1)
proof cases
  case (admit w g)
  have w: "w \<notin> slot_holders s" "w \<notin> members s" using admit by (auto simp: slot_holders_def members_def)
  have "slots.taken (sw_group s) (slot_holders s)" using assms(1) by (simp add: server_ok_def)
  from slots.taken_acquire [OF this w(1) admit(3)] w(2) admit(1)
  have "slots.taken g (insert w (slot_holders s))" "members t = members s" by (simp_all add: members_move)
  then show ?thesis
    using assms(1) admit slot_fields(1) [OF admit(3)] closing_ok_sub [of s t]
    by (auto simp: server_ok_def holders_move group_ok_cong [of g "sw_group s"] intro: sessions_match_same)
next
  case (enter w g)
  have w: "w \<in> slot_holders s" using enter by (simp add: slot_holders_def)
  note g = enter(3) [unfolded record_worker_Inr]
  show ?thesis
    using assms(1) enter g w closing_ok_sub [of s t] group_ok_record [of "sw_group s" "members s" w w]
    by (auto simp: server_ok_def holders_move members_move insert_absorb slots.taken_def intro: sessions_match_same)
next
  case (refuse w e g)
  have w: "w \<in> slot_holders s" "w \<notin> members s" using refuse by (simp_all add: slot_holders_def members_def)
  have "slots.taken (sw_group s) (slot_holders s)" using assms(1) by (simp add: server_ok_def)
  note g = record_worker_Inl [OF refuse(3) this w(1)]
  show ?thesis
    using assms(1) refuse g w closing_ok_sub [of s t]
    by (auto simp: server_ok_def holders_move members_move group_ok_cong [of g "sw_group s"] intro: sessions_match_same)
next
  case (begins w)
  then show ?thesis
    using server_ok_quiet [OF assms(1), of Running w "sw_group s" "sw_registry s"] assms(1)
    by (simp add: server_ok_def sessions_match_same)
next
  case (begins_not w)
  then show ?thesis
    using server_ok_quiet [OF assms(1), of StartFailed w "sw_group s" "sw_registry s"] assms(1)
    by (simp add: server_ok_def sessions_match_same)
next
  case (undo w)
  then have "w \<in> slot_holders s" by (simp add: slot_holders_def)
  with undo assms(1) closing_ok_sub [of s t] group_ok_forget [of "sw_group s" "members s" w]
  show ?thesis
    by (auto simp: server_ok_def holders_move members_move insert_absorb taken_cong [of "forget_worker w (sw_group s)" "sw_group s"]
        intro: sessions_match_same)
next
  case (undone w r g)
  have w: "w \<in> slot_holders s" "w \<notin> members s" using undone by (simp_all add: slot_holders_def members_def)
  obtain r1 g1 where rel: "release_slot (sw_group s) = (r1, g1)" by fastforce
  have tk: "slots.taken (sw_group s) (slot_holders s)" using assms(1) by (simp add: server_ok_def)
  note t1 = slots.taken_release [OF tk w(1) rel]
  then have cl: "close_socket w g1 = (r, g)" using undone(3) rel by (simp add: bindS_def)
  show ?thesis
    using assms(1) undone t1 w slot_fields(2) [OF rel] slot_fields(3) [OF cl] closing_ok_sub [of s t]
    by (auto simp: server_ok_def holders_move members_move group_ok_cong [of g "sw_group s"] taken_cong [of g g1] intro: sessions_match_same)
next
  case (register w peer rec reg)
  then show ?thesis
    using server_ok_quiet [OF assms(1), of "Serving (sn_session_id rec)" w "sw_group s" reg] assms(1)
      sessions_match_register [of "sw_registry s" "sw_pcs s" w peer rec reg]
    by (simp add: server_ok_def)
next
  case (claim w k name r reg)
  have "sessions_match reg (sw_pcs s)"
    using assms(1) claim_keeps_sessions [OF _ claim(3)] by (auto simp: server_ok_def sessions_match_def)
  then show ?thesis using assms(1) claim(1) closing_ok_sub [of s t] by (auto simp: server_ok_def)
next
  case (served w k r g)
  then show ?thesis
    using server_ok_quiet [OF assms(1), of "Ending (Some k)" w g "sw_registry s"] assms(1) slot_fields(3) [OF served(3)]
    by (simp add: server_ok_def sessions_match_same)
next
  case (unregistered w r g)
  then show ?thesis
    using server_ok_quiet [OF assms(1), of "Ending None" w g "sw_registry s"] assms(1) slot_fields(3) [OF unregistered(3)]
    by (simp add: server_ok_def sessions_match_same)
next
  case (release w k r reg)
  have "sessions_match (sw_registry s) (sw_pcs s)" using assms(1) by (simp add: server_ok_def)
  from sessions_match_release [OF this, of w k Released] release(2,3)
  have "sessions_match reg ((sw_pcs s)(w := Released))" by simp
  then show ?thesis
    using server_ok_quiet [OF assms(1), of Released w "sw_group s" reg] release(1,2) by simp
next
  case (release_none w)
  then show ?thesis
    using server_ok_quiet [OF assms(1), of Released w "sw_group s" "sw_registry s"] assms(1)
    by (simp add: server_ok_def sessions_match_same)
next
  case (forget w)
  then have "w \<in> slot_holders s" by (simp add: slot_holders_def)
  with forget assms(1) closing_ok_sub [of s t] group_ok_forget [of "sw_group s" "members s" w]
  show ?thesis
    by (auto simp: server_ok_def holders_move members_move insert_absorb taken_cong [of "forget_worker w (sw_group s)" "sw_group s"]
        intro: sessions_match_same)
next
  case (free w r g)
  have w: "w \<in> slot_holders s" "w \<notin> members s" using free by (simp_all add: slot_holders_def members_def)
  have tk: "slots.taken (sw_group s) (slot_holders s)" using assms(1) by (simp add: server_ok_def)
  show ?thesis
    using assms(1) free w slots.taken_release [OF tk w(1) free(3)] slot_fields(2) [OF free(3)] closing_ok_sub [of s t]
    by (auto simp: server_ok_def holders_move members_move group_ok_cong [of g "sw_group s"] intro: sessions_match_same)
next
  case (shut workers g)
  have g: "workers = wg_workers (sw_group s)" "g = (sw_group s)\<lparr>wg_closing := True\<rparr>"
    using shut(2) by (simp_all add: begin_close_def)
  have "fst ` set workers = members s"
    using assms(1) g(1) by (simp add: server_ok_def group_ok_def dom_map_of_conv_image_fst)
  then have "closing_ok t" using shut(1) g by (simp add: closing_ok_def)
  then show ?thesis
    using assms(1) shut(1) g by (simp add: server_ok_def slots.taken_def group_ok_def)
qed

lemma server_ok_start:
  assumes "make_group max_clients = Inr g" "registry_ok reg" "rg_sessions reg = []"
  shows "server_ok (server_start g reg)"
  using assms
  by (auto simp: make_group_def server_start_def server_ok_def slots.taken_def slot_holders_def members_def group_ok_def
      sessions_match_def session_at_def closing_ok_def split: if_splits)

lemma server_ok_reaches: "server_reaches s t \<Longrightarrow> server_ok s \<Longrightarrow> server_ok t"
  by (induction rule: server_reaches.induct) (auto intro: server_ok_step)

lemma limit_step: "worker_step s t \<Longrightarrow> server_ok s \<Longrightarrow> wg_limit (sw_group t) = wg_limit (sw_group s)"
  by (induction rule: worker_step.induct)
    (auto simp: acquire_slot_def release_slot_def record_worker_def close_socket_def begin_close_def bindS_def readS_def updateS_def
      split: if_splits)

lemma limit_reaches: "server_reaches s t \<Longrightarrow> server_ok s \<Longrightarrow> wg_limit (sw_group t) = wg_limit (sw_group s)"
  by (induction rule: server_reaches.induct) (simp_all add: limit_step server_ok_reaches)

end
