(* ===== verification/WorkerSafety.thy ===== *)
theory WorkerSafety
  imports Workers
begin

section \<open>The number of clients is bounded\<close>

lemma session_holds_slot: "session_of pc = Some k \<Longrightarrow> holds_slot pc"
  by (cases pc) simp_all

lemma in_group_holds_slot: "in_group pc \<Longrightarrow> holds_slot pc"
  by (cases pc) simp_all

lemma sessions_bounded:
  assumes "server_ok s"
  shows "finite {k. session_at (sw_registry s) k \<noteq> None}
    \<and> card {k. session_at (sw_registry s) k \<noteq> None} \<le> card (slot_holders s)"
proof -
  let ?f = "\<lambda>w. the (session_of (sw_pcs s w))"
  have fin: "finite (slot_holders s)" using assms by (simp add: server_ok_def slots.taken_def)
  have "{k. session_at (sw_registry s) k \<noteq> None} \<subseteq> ?f ` slot_holders s"
  proof
    fix k
    assume "k \<in> {k. session_at (sw_registry s) k \<noteq> None}"
    then obtain w where "session_of (sw_pcs s w) = Some k"
      using assms unfolding server_ok_def sessions_match_def by blast
    then show "k \<in> ?f ` slot_holders s"
      by (intro image_eqI [of _ _ w]) (auto simp: slot_holders_def session_holds_slot)
  qed
  with fin show ?thesis using surj_card_le [OF fin] finite_subset by blast
qed

lemma members_count: "server_ok s \<Longrightarrow> active_workers (sw_group s) \<le> card (slot_holders s)"
proof -
  assume ok: "server_ok s"
  have "length (wg_workers (sw_group s)) = card (set (map fst (wg_workers (sw_group s))))"
    using ok by (metis distinct_card group_ok_def length_map server_ok_def)
  also have "set (map fst (wg_workers (sw_group s))) = members s"
    using ok by (simp add: server_ok_def group_ok_def dom_map_of_conv_image_fst)
  also have "card (members s) \<le> card (slot_holders s)"
    using ok by (intro card_mono) (auto simp: server_ok_def slots.taken_def members_def slot_holders_def in_group_holds_slot)
  finally show ?thesis by (simp add: active_workers_def)
qed

text \<open>
  C14. The server never serves more clients than configured, however its threads interleave:
  the free slots and the threads that hold one add up to \<open>max_clients\<close>; a client is turned away
  exactly when all slots are held; returning a slot never fails; the dictionary and the session
  registry hold at most \<open>max_clients\<close> entries; once the group is closing, every thread in the
  dictionary is one \<open>close\<close> waits for; and when no thread is left, every slot is free again
  and dictionary and registry are empty.
\<close>

theorem worker_group_safe:
  assumes "make_group max_clients = Inr g" and "make_registry maximum = Inr reg"
    and "server_reaches (server_start g reg) s"
  shows "0 \<le> wg_slots (sw_group s)
    \<and> wg_slots (sw_group s) + int (card {w. holds_slot (sw_pcs s w)}) = max_clients
    \<and> (acquire_slot (sw_group s) = None \<longleftrightarrow> int (card {w. holds_slot (sw_pcs s w)}) = max_clients)
    \<and> (\<forall>w. holds_slot (sw_pcs s w) \<longrightarrow> fst (release_slot (sw_group s)) = Inr ())
    \<and> int (active_workers (sw_group s)) \<le> max_clients
    \<and> int (card {k. session_at (sw_registry s) k \<noteq> None}) \<le> max_clients
    \<and> (\<forall>ws. sw_awaited s = Some ws \<longrightarrow> {w. in_group (sw_pcs s w)} \<subseteq> fst ` set ws)
    \<and> ((\<forall>w. sw_pcs s w \<in> {NotStarted, Finished}) \<longrightarrow> wg_slots (sw_group s) = max_clients
        \<and> wg_workers (sw_group s) = [] \<and> rg_sessions (sw_registry s) = [])"
proof -
  have start: "server_ok (server_start g reg)" and limit: "wg_limit g = max_clients"
    using server_ok_start [OF assms(1) make_registry_ok [OF assms(2)]] assms(1,2)
    by (auto simp: make_registry_def result_simps make_group_def split: if_splits)
  have ok: "server_ok s" by (rule server_ok_reaches [OF assms(3) start])
  have lim: "wg_limit (sw_group s) = max_clients"
    using limit_reaches [OF assms(3) start] limit by (simp add: server_start_def)
  have tk: "slots.taken (sw_group s) (slot_holders s)" using ok by (simp add: server_ok_def)
  then have count: "0 \<le> wg_slots (sw_group s)" "finite (slot_holders s)"
    "wg_slots (sw_group s) + int (card (slot_holders s)) = max_clients"
    using lim by (simp_all add: slots.taken_def)
  have rel: "fst (release_slot (sw_group s)) = Inr ()" if "holds_slot (sw_pcs s w)" for w
    using slots.taken_release [OF tk _ prod.collapse [symmetric]] that by (auto simp: slot_holders_def)
  have close: "{w. in_group (sw_pcs s w)} \<subseteq> fst ` set ws" if "sw_awaited s = Some ws" for ws
    using ok that by (simp add: server_ok_def closing_ok_def members_def)
  have "wg_slots (sw_group s) = max_clients \<and> wg_workers (sw_group s) = [] \<and> rg_sessions (sw_registry s) = []"
    if "\<forall>w. sw_pcs s w \<in> {NotStarted, Finished}"
  proof -
    have "\<not> holds_slot (sw_pcs s w) \<and> \<not> in_group (sw_pcs s w) \<and> session_of (sw_pcs s w) = None" for w
    proof -
      have "sw_pcs s w = NotStarted \<or> sw_pcs s w = Finished" using that by simp
      then show ?thesis by auto
    qed
    then have "slot_holders s = {}" "members s = {}" "\<forall>k. session_at (sw_registry s) k = None"
      using ok by (auto simp: slot_holders_def members_def server_ok_def sessions_match_def)
    then show ?thesis
      using ok count(3) by (auto simp: server_ok_def group_ok_def session_at_def dom_map_of_conv_image_fst map_of_eq_None_iff)
  qed
  then show ?thesis
    using count rel close sessions_bounded [OF ok] members_count [OF ok]
    unfolding slot_holders_def [symmetric] by (auto simp: acquire_slot_def)
qed

text \<open>A server for one client; the first is being served, the second is turned away.\<close>

definition one_client :: server_world where
  "one_client = (let g = \<lparr>wg_limit = 1, wg_slots = 0, wg_workers = [(0, 0)], wg_closing = False, wg_closed_sockets = []\<rparr> in
     \<lparr>sw_group = g, sw_registry = snd (register_session example_peer example_registry0),
      sw_pcs = (\<lambda>_. NotStarted)(0 := Serving 1), sw_awaited = None\<rparr>)"

lemma one_client_reached:
  "server_reaches (server_start \<lparr>wg_limit = 1, wg_slots = 1, wg_workers = [], wg_closing = False, wg_closed_sockets = []\<rparr>
     example_registry0) one_client"
proof -
  let ?g = "\<lparr>wg_limit = 1, wg_slots = 1, wg_workers = [], wg_closing = False, wg_closed_sockets = []\<rparr>"
  let ?s0 = "server_start ?g example_registry0"
  let ?s1 = "move 0 Admitted (?s0\<lparr>sw_group := ?g\<lparr>wg_slots := 0\<rparr>\<rparr>)"
  let ?s2 = "move 0 Recorded (?s1\<lparr>sw_group := ?g\<lparr>wg_slots := 0, wg_workers := [(0, 0)]\<rparr>\<rparr>)"
  let ?s3 = "move 0 Running ?s2"
  have r1: "worker_step ?s0 ?s1" by (rule worker_step.admit) (simp_all add: server_start_def acquire_slot_def)
  have r2: "worker_step ?s1 ?s2" by (rule worker_step.enter) (simp_all add: record_worker_Inr)
  have r3: "worker_step ?s2 ?s3" by (rule worker_step.begins) simp
  have reg: "register_session example_peer (sw_registry ?s3)
      = (Inr \<lparr>sn_session_id = 1, sn_peer_address = example_peer, sn_username = None, sn_user_id = None\<rparr>,
         snd (register_session example_peer example_registry0))"
    by (simp add: register_session_def Let_def server_start_def example_registry0_def)
  have r4: "worker_step ?s3 (move 0 (Serving 1) (?s3\<lparr>sw_registry := snd (register_session example_peer example_registry0)\<rparr>))"
    using worker_step.register [of ?s3 0, OF _ reg] by simp
  have r5: "move 0 (Serving 1) (?s3\<lparr>sw_registry := snd (register_session example_peer example_registry0)\<rparr>) = one_client"
    by (simp add: one_client_def move_def server_start_def)
  show ?thesis
    by (rule server_reaches.later [OF server_reaches.later [OF server_reaches.later [OF server_reaches.later
      [OF server_reaches.here r1] r2] r3] r4, unfolded r5])
qed

theorem worker_group_safe_witness:
  "acquire_slot (sw_group one_client) = None \<and> int (card {w. holds_slot (sw_pcs one_client w)}) = 1"
proof -
  have "make_group 1 = Inr \<lparr>wg_limit = 1, wg_slots = 1, wg_workers = [], wg_closing = False, wg_closed_sockets = []\<rparr>"
    by (simp add: make_group_def)
  moreover have "acquire_slot (sw_group one_client) = None" by (simp add: one_client_def acquire_slot_def Let_def)
  ultimately show ?thesis
    using worker_group_safe [OF _ make_example_registry one_client_reached] by blast
qed

end
