(* ===== verification/Admission.thy ===== *)
theory Admission
  imports Workers Examples
begin

section \<open>Admitting and turning away clients\<close>

text \<open>
  The rest of \<open>src/hcmus_socket/server/app.py\<close>: \<open>ClientWorkerGroup.start\<close> as one thread runs it,
  \<open>serve_client\<close>, what \<open>serve_forever\<close> does before it accepts, and \<open>reject_busy\<close>.  Creating
  threads and sockets, the accept loop itself and signals are the operating system's;
  \<open>settimeout\<close> and \<open>shutdown\<close> are taken to succeed.
\<close>

subsection \<open>Starting a worker\<close>

text \<open>\<open>start\<close> without interference; \<open>starts\<close> says whether \<open>worker.start()\<close> succeeds.\<close>

definition start_worker :: "(exc + unit) \<Rightarrow> nat \<Rightarrow> (exc, worker_group, bool) action" where
  "start_worker starts accepted_socket g =
     (case acquire_slot g of
        None \<Rightarrow> (Inr False, g)
      | Some g1 \<Rightarrow>
          bindS (record_worker accepted_socket accepted_socket) (\<lambda>_.
          tryS (bindS (liftS starts) (\<lambda>_. returnS True))
            (\<lambda>error.
               bindS (updateS (forget_worker accepted_socket)) (\<lambda>_.
               bindS release_slot (\<lambda>_.
               bindS (close_socket accepted_socket) (\<lambda>_. raiseS error))))) g1)"

definition serve_client ::
  "environment \<Rightarrow> sock \<Rightarrow> address \<Rightarrow> server_logger option \<Rightarrow> registry \<Rightarrow> int option \<Rightarrow> bool \<Rightarrow>
     timing \<Rightarrow> file_system \<Rightarrow> exc + (exc + unit) \<times> session" where
  "serve_client ev accepted_socket peer_address logger reg registry_session_id filename_locks tm files =
     bindE (make_session ev accepted_socket peer_address logger reg registry_session_id filename_locks tm files)
       (\<lambda>s. Inr (run ev s))"

text \<open>The start of \<open>serve_forever\<close>.\<close>

definition prepare_storage :: "environment \<Rightarrow> nat fs_action" where
  "prepare_storage ev =
     bindS (mkdir_parents (storage_root ev)) (\<lambda>_.
     cleanup_expired_partials (storage_root ev) (sc_partial_ttl_seconds (cf_server (ev_config ev))))"

subsection \<open>Turning a client away\<close>

text \<open>The peer address is a Python object: a pair of host and port, or anything else with its \<open>str\<close>.\<close>

datatype peer_object = PeerPair pystr int | PeerOther pystr

fun client_address :: "peer_object \<Rightarrow> pystr \<times> int" where
  "client_address (PeerPair host port) = (host, port)"
| "client_address (PeerOther text) = (text, 0)"

record busy_client =
  bc_socket :: sock
  bc_open :: bool
  bc_logger :: server_logger
  bc_rejection_sent :: bool

definition on_busy_socket :: "(exc, sock, 'a) action \<Rightarrow> (exc, busy_client, 'a) action" where
  "on_busy_socket = partS bc_socket (\<lambda>x s. s\<lparr>bc_socket := x\<rparr>)"

definition busy_message :: pystr where
  "busy_message = lit ''server client limit reached''"

definition busy_error :: "environment \<Rightarrow> exc + frame" where
  "busy_error ev = make_error_frame
     \<lparr>em_failed_opcode = Raw 0, em_error_code = SERVER_BUSY, em_message = busy_message\<rparr> (max_payload ev) USER_ID"

definition busy_exchange :: "environment \<Rightarrow> (exc, busy_client, unit) action" where
  "busy_exchange ev =
     bindS (on_busy_socket (recv_exact PREFACE_SIZE_BYTES)) (\<lambda>preface_or_none.
     case preface_or_none of
       None \<Rightarrow> raiseS (protocol_error INVALID_FRAME (lit ''busy client closed before sending the connection preface''))
     | Some preface \<Rightarrow>
         bindS (liftS (bindE (decode_preface preface) validate_preface)) (\<lambda>_.
         bindS (on_busy_socket (send_all encode_preface)) (\<lambda>_.
         bindS (liftS (busy_error ev)) (\<lambda>fr.
         on_busy_socket (send_frame fr (max_payload ev))))))"

text \<open>\<open>while accepted_socket.recv(4096): pass\<close>\<close>

function drain :: "(exc, sock, unit) action" where
  "drain k =
     (case sock_recv 4096 k of
        (Inl e, k') \<Rightarrow> (Inl e, k')
      | (Inr [], k') \<Rightarrow> (Inr (), k')
      | (Inr (b # bs), k') \<Rightarrow> drain k')"
  by pat_completeness auto
termination
  by (relation "measure (\<lambda>k. length (pending k))")
    (auto simp: sock_recv_def pending_def split: list.splits arrival.splits if_splits)

declare drain.simps [simp del]

definition graceful_write_close :: "(exc, busy_client, unit) action" where
  "graceful_write_close =
     tryS (on_busy_socket drain) (\<lambda>error. if is_os_error error then returnS () else raiseS error)"

definition close_busy :: "(exc, busy_client, unit) action" where
  "close_busy = updateS (\<lambda>s. s\<lparr>bc_open := False\<rparr>)"

definition log_busy :: "peer_object \<Rightarrow> (exc, busy_client, unit) action" where
  "log_busy peer_address =
     bindS (partS bc_logger (\<lambda>x s. s\<lparr>bc_logger := x\<rparr>)
       (log_connection (client_address peer_address) False (Some SERVER_BUSY) (Some busy_message) None)) (\<lambda>_. returnS ())"

text \<open>\<open>bc_rejection_sent\<close> is the local variable that the \<open>finally\<close> clause reads.\<close>

definition reject_busy :: "environment \<Rightarrow> peer_object \<Rightarrow> (exc, busy_client, unit) action" where
  "reject_busy ev peer_address =
     bindS (updateS (\<lambda>s. s\<lparr>bc_rejection_sent := False\<rparr>)) (\<lambda>_.
     finallyS
       (tryS
         (bindS (busy_exchange ev) (\<lambda>_.
          bindS (updateS (\<lambda>s. s\<lparr>bc_rejection_sent := True\<rparr>)) (\<lambda>_.
          log_busy peer_address)))
         (\<lambda>error. if is_os_error error \<or> is_protocol_error error then returnS () else raiseS error))
       (bindS (readS bc_rejection_sent) (\<lambda>rejection_sent.
        bindS (if rejection_sent then graceful_write_close else returnS ()) (\<lambda>_. close_busy))))"

subsection \<open>The message and the reads\<close>

lemma drain_all:
  "delivers k \<Longrightarrow> drain k = (r, k') \<Longrightarrow> r = Inr () \<and> pending k' = [] \<and> outbound k' = outbound k"
proof (induction k arbitrary: r k' rule: drain.induct)
  case (1 k)
  show ?case
  proof (cases "inbound k")
    case Nil
    then show ?thesis using "1.prems" by (simp add: drain.simps [of k] sock_recv_def pending_def)
  next
    case (Cons a later)
    then obtain bs where a: "a = Segment bs" "bs \<noteq> []"
      using "1.prems"(1) by (cases a) (auto simp: delivers_def)
    let ?k = "k\<lparr>inbound := (if drop 4096 bs = [] then later else Segment (drop 4096 bs) # later)\<rparr>"
    obtain b cs where bs: "take 4096 bs = b # cs" using a(2) by (cases "take 4096 bs") auto
    then have rv: "sock_recv 4096 k = (Inr (b # cs), ?k)" using Cons a by (simp add: sock_recv_def)
    have "delivers ?k" using "1.prems"(1) Cons by (simp add: delivers_def)
    moreover have "drain ?k = (r, k')" using "1.prems"(2) rv by (simp add: drain.simps [of k])
    ultimately show ?thesis using "1.IH" [OF rv [symmetric] refl refl] by simp
  qed
qed

text \<open>The frame the client is told with; a payload limit below its 33 bytes leaves no room for it.\<close>

definition busy_frame :: frame where
  "busy_frame = \<lparr>fr_opcode = ERROR, fr_payload = pack_uint 2 0 @ pack_uint 2 (error_value SERVER_BUSY)
     @ pack_uint 2 27 @ map of_nat busy_message, fr_user_id = 0\<rparr>"

lemma busy_message_bytes: "utf8_encode busy_message = Some (map of_nat busy_message)" "length busy_message = 27"
  by (rule utf8_encode_ascii) (auto simp: busy_message_def lit_def)

lemma busy_error_cases:
  "if 33 \<le> max_payload ev then busy_error ev = Inr busy_frame else \<exists>e. busy_error ev = Inl e \<and> is_protocol_error e"
proof -
  have "0 \<le> UINT16_MAX" "27 \<le> UINT16_MAX" by (simp_all add: uint_max_defs)
  then have "busy_error ev = make_frame ERROR (fr_payload busy_frame) (max_payload ev) 0"
    by (simp add: busy_error_def make_error_frame_def busy_message_bytes busy_frame_def USER_ID_def)
  moreover have "length (fr_payload busy_frame) = 33" by (simp add: busy_frame_def busy_message_bytes)
  moreover have "\<lparr>fr_opcode = ERROR, fr_payload = fr_payload busy_frame, fr_user_id = 0\<rparr> = busy_frame"
    by (simp add: busy_frame_def)
  ultimately show ?thesis
    by (simp add: make_frame_def make_frame_object_def validate_payload_size_def MAX_USER_ID_def)
qed

lemma serialize_busy:
  assumes "33 \<le> mx"
  shows "serialize_frame busy_frame mx = Inr (frame_bytes busy_frame)"
proof -
  have "wf_frame 100 busy_frame" by (simp add: wf_frame_def busy_frame_def busy_message_bytes MAX_USER_ID_def)
  then have "serialize_frame busy_frame 100 = Inr (frame_bytes busy_frame)" by (rule serialize_frame_Inr) simp
  moreover have "length (fr_payload busy_frame) = 33" by (simp add: busy_frame_def busy_message_bytes)
  ultimately show ?thesis using assms by (simp add: serialize_frame_def Let_def)
qed

subsection \<open>Faults of the connection\<close>

lemma sock_fault_os: "is_os_error (sock_fault_exc f)"
  by (cases f) simp_all

lemma send_loop_fails: "send_loop data n k = (Inl e, k') \<Longrightarrow> is_os_error e"
proof (induction data n k rule: send_loop.induct)
  case (1 data n k)
  then show ?case
    by (auto simp: send_loop.simps [of data n k] sock_send_def sock_fault_os split: if_splits list.splits send_reply.splits)
qed

lemma recv_loop_fails: "recv_loop n got k = (Inl e, k') \<Longrightarrow> is_os_error e \<or> is_protocol_error e"
proof (induction n got k rule: recv_loop.induct)
  case (1 n got k)
  then show ?case
    by (auto simp: recv_loop.simps [of n got k] sock_recv_def sock_fault_os truncated_error_def split: if_splits list.splits arrival.splits)
qed

lemma sock_recv_keeps: "sock_recv n k = (r, k') \<Longrightarrow> outbound k' = outbound k \<and> (\<forall>e. r = Inl e \<longrightarrow> is_os_error e)"
  by (auto simp: sock_recv_def sock_fault_os split: if_splits list.splits arrival.splits)

lemma drain_outcome: "drain k = (r, k') \<Longrightarrow> outbound k' = outbound k \<and> (\<forall>e. r = Inl e \<longrightarrow> is_os_error e)"
proof (induction k arbitrary: r k' rule: drain.induct)
  case (1 k)
  obtain q k1 where rc: "sock_recv 4096 k = (q, k1)" by fastforce
  note one = sock_recv_keeps [OF rc]
  consider (stop) "k' = k1" "\<forall>e. r = Inl e \<longrightarrow> q = Inl e" | (more) b bs where "q = Inr (b # bs)" "drain k1 = (r, k')"
    using "1.prems" by (cases q; cases "projr q") (auto simp: drain.simps [of k] rc)
  then show ?case
  proof cases
    case stop
    then show ?thesis using one by auto
  next
    case more
    from "1.IH" [OF rc [symmetric] more(1) refl more(2)] one show ?thesis by simp
  qed
qed

text \<open>A connection without faults may still take the bytes in pieces.\<close>

definition accepting :: "sock \<Rightarrow> bool" where
  "accepting k \<longleftrightarrow> (\<forall>reply \<in> set (send_plan k). \<exists>n > 0. reply = Accepts n)"

lemma send_loop_accepting:
  "accepting k \<Longrightarrow> send_loop data n k = (r, k') \<Longrightarrow> r = Inr () \<and> accepting k'"
proof (induction data n k arbitrary: r k' rule: send_loop.induct)
  case (1 data n k)
  then show ?case
    by (cases "send_plan k")
      (auto simp: send_loop.simps [of data n k] sock_send_def accepting_def split: if_splits send_reply.splits)
qed

subsection \<open>The exchange\<close>

abbreviation busy_answer :: "byte list" where
  "busy_answer \<equiv> encode_preface @ frame_bytes busy_frame"

lemma preface_fails: "bindE (decode_preface preface) validate_preface = Inl e \<Longrightarrow> is_protocol_error e"
  by (auto simp: decode_preface_def validate_preface_def result_simps split: if_splits)

definition answers :: "sock \<Rightarrow> byte list \<Rightarrow> exc + unit \<Rightarrow> sock \<Rightarrow> bool" where
  "answers k data r k' \<longleftrightarrow> (\<forall>e. r = Inl e \<longrightarrow> is_os_error e \<or> is_protocol_error e)
     \<and> (\<exists>n \<le> length data. outbound k' = outbound k @ take n data \<and> (r = Inr () \<longrightarrow> n = length data))"

lemma answers_send: "send_all data k = (r, k') \<Longrightarrow> answers k data r k'"
  using send_all_prefix [of data k r k'] by (auto simp: answers_def send_all_def dest: send_loop_fails)

lemma answers_more:
  assumes "answers k data (Inl e) k'"
  shows "answers k (data @ others) (Inl e) k'"
proof -
  obtain n where "n \<le> length data" "outbound k' = outbound k @ take n data" using assms by (auto simp: answers_def)
  then show ?thesis using assms by (simp add: answers_def) (intro exI [of _ n]; simp)
qed

lemma answers_from: "outbound k = outbound j \<Longrightarrow> answers k data r k' \<Longrightarrow> answers j data r k'"
  by (simp add: answers_def)

lemma answers_then:
  assumes "answers k data (Inr ()) k1" "answers k1 others r k2"
  shows "answers k (data @ others) r k2"
proof -
  obtain n where "n \<le> length others" "outbound k2 = outbound k1 @ take n others" "r = Inr () \<longrightarrow> n = length others"
    using assms(2) by (auto simp: answers_def)
  then show ?thesis using assms by (auto simp: answers_def intro!: exI [of _ "length data + n"])
qed

lemma answers_reply:
  assumes "bindS (liftS (busy_error ev)) (\<lambda>fr. on_busy_socket (send_frame fr (max_payload ev))) s = (r, t)"
  shows "\<exists>k. t = s\<lparr>bc_socket := k\<rparr> \<and> answers (bc_socket s) (frame_bytes busy_frame) r k"
proof (cases "33 \<le> max_payload ev")
  case True
  have "send_frame busy_frame (max_payload ev) = send_all (frame_bytes busy_frame)"
    by (rule ext) (simp add: send_frame_def serialize_busy [OF True])
  then have "on_busy_socket (send_all (frame_bytes busy_frame)) s = (r, t)"
    using True assms busy_error_cases [of ev] by simp
  then show ?thesis by (auto simp: on_busy_socket_def partS_def split: prod.splits dest: answers_send)
next
  case False
  then obtain e where "busy_error ev = Inl e" "is_protocol_error e" using busy_error_cases [of ev] by auto
  then have "r = Inl e" "t = s\<lparr>bc_socket := bc_socket s\<rparr>" using assms by simp_all
  then show ?thesis using \<open>is_protocol_error e\<close>
    by (auto simp: answers_def intro!: exI [of _ "bc_socket s"] exI [of _ 0])
qed

lemma busy_exchange_any:
  assumes "busy_exchange ev s = (r, t)"
  shows "\<exists>k. t = s\<lparr>bc_socket := k\<rparr> \<and> answers (bc_socket s) busy_answer r k"
proof -
  obtain q k where rc: "recv_exact PREFACE_SIZE_BYTES (bc_socket s) = (q, k)" by fastforce
  have k: "outbound k = outbound (bc_socket s)" using recv_exact_pending [OF rc] by (auto simp: reads_only_def)
  have q: "is_os_error e \<or> is_protocol_error e" if "q = Inl e" for e
    using rc that recv_loop_fails by (auto simp: recv_exact_def PREFACE_SIZE_BYTES_def)
  have stop: "\<exists>k. t = s\<lparr>bc_socket := k\<rparr> \<and> answers (bc_socket s) busy_answer r k"
    if "r = Inl e" "t = s\<lparr>bc_socket := k\<rparr>" "is_os_error e \<or> is_protocol_error e" for e
    using that k by (auto simp: answers_def intro!: exI [of _ k] exI [of _ 0])
  show ?thesis
  proof (cases "\<exists>preface. q = Inr (Some preface) \<and> bindE (decode_preface preface) validate_preface = Inr ()")
    case False
    then consider (broken) e where "q = Inl e" | (nothing) "q = Inr None"
      | (bad) preface e where "q = Inr (Some preface)" "bindE (decode_preface preface) validate_preface = Inl e"
    proof (cases q)
      case (Inr v)
      then show thesis
      proof (cases v)
        case (Some preface)
        then show thesis using False Inr bad by (cases "bindE (decode_preface preface) validate_preface") auto
      qed (rule nothing, simp add: Inr)
    qed (rule broken)
    then have "\<exists>e. r = Inl e \<and> t = s\<lparr>bc_socket := k\<rparr> \<and> (is_os_error e \<or> is_protocol_error e)"
    proof cases
      case broken
      then show ?thesis using assms rc q by (auto simp: busy_exchange_def on_busy_socket_def partS_def bindS_def)
    next
      case nothing
      then show ?thesis using assms rc by (auto simp: busy_exchange_def on_busy_socket_def partS_def bindS_def)
    next
      case bad
      then have "r = Inl e \<and> t = s\<lparr>bc_socket := k\<rparr>"
        using assms rc by (simp add: busy_exchange_def on_busy_socket_def partS_def bindS_def)
      then show ?thesis using preface_fails [OF bad(2)] by blast
    qed
    then show ?thesis using stop by blast
  next
    case True
    let ?s = "s\<lparr>bc_socket := k\<rparr>"
    obtain v k1 where sent: "send_all encode_preface k = (v, k1)" by fastforce
    note one = answers_send [OF sent]
    show ?thesis
    proof (cases v)
      case (Inl e)
      then have "r = Inl e" "t = s\<lparr>bc_socket := k1\<rparr>"
        using True assms rc sent by (auto simp: busy_exchange_def on_busy_socket_def partS_def bindS_def)
      then show ?thesis using answers_from [OF k answers_more [OF one [unfolded Inl]]] by blast
    next
      case (Inr u)
      then have "bindS (liftS (busy_error ev)) (\<lambda>fr. on_busy_socket (send_frame fr (max_payload ev))) (s\<lparr>bc_socket := k1\<rparr>) = (r, t)"
        using True assms rc sent by (auto simp: busy_exchange_def on_busy_socket_def partS_def bindS_def)
      from answers_reply [OF this] obtain k2 where "t = s\<lparr>bc_socket := k2\<rparr>" "answers k1 (frame_bytes busy_frame) r k2" by auto
      then show ?thesis using answers_from [OF k answers_then [of k encode_preface k1]] one Inr by auto
    qed
  qed
qed

lemma send_all_accepting:
  assumes "accepting k" "send_all data k = (r, k')"
  shows "r = Inr () \<and> accepting k' \<and> inbound k' = inbound k"
  using send_loop_accepting [OF assms(1), of data 0 r k'] assms(2) send_all_prefix [OF assms(2)]
  by (simp add: send_all_def)

lemma busy_exchange_delivered:
  assumes "delivers (bc_socket s)" "accepting (bc_socket s)" "33 \<le> max_payload ev" "busy_exchange ev s = (r, t)"
  shows "delivers (bc_socket t)
    \<and> (if \<exists>rest. pending (bc_socket s) = encode_preface @ rest then r = Inr ()
       else (\<exists>e. r = Inl e) \<and> outbound (bc_socket t) = outbound (bc_socket s))"
proof -
  obtain q k where rc: "recv_exact PREFACE_SIZE_BYTES (bc_socket s) = (q, k)" by fastforce
  have k: "delivers k" "read_exact PREFACE_SIZE_BYTES (pending (bc_socket s)) = (q, pending k)"
    "outbound k = outbound (bc_socket s)" "accepting k"
    using recv_exact_refines [OF assms(1) rc] recv_exact_pending [OF rc] assms(2) by (auto simp: reads_only_def accepting_def)
  have len: "length encode_preface = 8" by (simp add: encode_preface_def)
  then have ne: "encode_preface \<noteq> []" by auto
  have no: "\<nexists>rest. pending (bc_socket s) = encode_preface @ rest" if "q \<noteq> Inr (Some encode_preface)"
    using k(2) read_exact_append [OF ne, of PREFACE_SIZE_BYTES] len that by (auto simp: PREFACE_SIZE_BYTES_def)
  consider (stop) "q \<noteq> Inr (Some encode_preface)" "\<exists>e. r = Inl e" "t = s\<lparr>bc_socket := k\<rparr>"
    | (told) "q = Inr (Some encode_preface)"
  proof (cases q)
    case (Inl e)
    then show thesis using stop assms(4) rc by (auto simp: busy_exchange_def on_busy_socket_def partS_def bindS_def)
  next
    case (Inr v)
    show thesis
    proof (cases v)
      case None
      then show thesis using stop Inr assms(4) rc by (auto simp: busy_exchange_def on_busy_socket_def partS_def bindS_def)
    next
      case (Some preface)
      show thesis
      proof (cases "bindE (decode_preface preface) validate_preface")
        case (Inl e)
        then have "preface \<noteq> encode_preface" using preface_bytes_iff [of preface] by auto
        moreover have "r = Inl e \<and> t = s\<lparr>bc_socket := k\<rparr>"
          using Inl Some Inr assms(4) rc by (simp add: busy_exchange_def on_busy_socket_def partS_def bindS_def)
        ultimately show thesis using stop Inr Some by blast
      next
        case (Inr u)
        then show thesis using told \<open>q = Inr v\<close> Some preface_bytes_iff [of preface] by simp
      qed
    qed
  qed
  then show ?thesis
  proof cases
    case stop
    with no k show ?thesis by auto
  next
    case told
    obtain v k1 where sent: "send_all encode_preface k = (v, k1)" by fastforce
    note one = send_all_accepting [OF k(4) sent]
    obtain w k2 where reply: "send_all (frame_bytes busy_frame) k1 = (w, k2)" by fastforce
    note two = send_all_accepting [OF _ reply]
    have "send_frame busy_frame (max_payload ev) k1 = (w, k2)"
      by (simp add: send_frame_def serialize_busy [OF assms(3)] reply)
    then have "r = w \<and> t = s\<lparr>bc_socket := k2\<rparr>"
      using told assms(3,4) rc sent one busy_error_cases [of ev] preface_bytes_iff [of encode_preface]
      by (simp add: busy_exchange_def on_busy_socket_def partS_def bindS_def)
    moreover have "\<exists>rest. pending (bc_socket s) = encode_preface @ rest"
      using told k(2) read_exact_Some by blast
    ultimately show ?thesis using one two k(1) by (auto simp: delivers_def)
  qed
qed

subsection \<open>What a client that is turned away receives\<close>

lemma log_busy_Inr:
  assumes "client_fields (client_address peer) = Inr a"
  shows "\<exists>lg. log_busy peer s = (Inr (), s\<lparr>bc_logger := lg\<rparr>)
    \<and> lg_successful_writes lg + lg_failed_writes lg = lg_successful_writes (bc_logger s) + lg_failed_writes (bc_logger s) + 1"
  using assms
  by (cases a) (auto simp: log_busy_def partS_def log_connection_def bindS_def readS_def log_write_def write_failed_def
      split: option.splits list.splits)

lemma log_busy_Inl: "client_fields (client_address peer) = Inl e \<Longrightarrow> log_busy peer s = (Inl e, s)"
  by (simp add: log_busy_def partS_def log_connection_def bindS_def)

lemma client_fields_error: "client_fields c = Inl e \<Longrightarrow> \<not> is_os_error e \<and> \<not> is_protocol_error e"
  by (auto simp: client_fields_def result_simps split: prod.splits)

text \<open>The \<open>finally\<close> clause closes the socket and raises nothing.\<close>

lemma busy_cleanup:
  "\<exists>k. bindS (readS bc_rejection_sent) (\<lambda>rejection_sent.
      bindS (if rejection_sent then graceful_write_close else returnS ()) (\<lambda>_. close_busy)) s
     = (Inr (), s\<lparr>bc_socket := k, bc_open := False\<rparr>)
   \<and> outbound k = outbound (bc_socket s)
   \<and> (bc_rejection_sent s \<longrightarrow> delivers (bc_socket s) \<longrightarrow> pending k = [])"
proof -
  obtain d k where dr: "drain (bc_socket s) = (d, k)" by fastforce
  have "graceful_write_close s = (Inr (), s\<lparr>bc_socket := k\<rparr>)"
    using dr drain_outcome [OF dr] by (cases d) (auto simp: graceful_write_close_def on_busy_socket_def partS_def tryS_def)
  then show ?thesis
    using drain_outcome [OF dr] drain_all [OF _ dr]
    by (cases "bc_rejection_sent s")
      (auto simp: bindS_def readS_def close_busy_def updateS_def intro: exI [of _ k] exI [of _ "bc_socket s"])
qed

text \<open>
  C34. A client the server has no room for is told so, and its socket is closed whatever happens.
  For every connection and every fault on it: the socket is closed; no exception leaves
  \<open>reject_busy\<close>, except the \<open>ValueError\<close> that \<open>log_connection\<close> raises for a peer address with an
  empty host or a port out of range; what is sent is a prefix of the server's preface followed by
  one \<open>ERROR\<close> frame \<open>SERVER_BUSY\<close>, and the rejection is only logged once all of it is sent.  On a
  connection without faults (each arrival brings bytes, each \<open>send\<close> takes at least one) and with a
  payload limit that has room for the 33 bytes of the message: if the client's first eight bytes
  are the protocol's preface, it receives all of that, what it has sent is read to the end, and,
  if its address is a valid one, one write of the log is attempted; otherwise nothing is sent and
  nothing logged.
\<close>

theorem busy_client_is_told:
  assumes "reject_busy ev peer s = (r, t)"
  shows "\<not> bc_open t
    \<and> (r = Inr () \<or> (\<exists>e. r = Inl e \<and> client_fields (client_address peer) = Inl e))
    \<and> (\<exists>n \<le> length busy_answer. outbound (bc_socket t) = outbound (bc_socket s) @ take n busy_answer
        \<and> (n = length busy_answer \<or> bc_logger t = bc_logger s))
    \<and> (delivers (bc_socket s) \<and> accepting (bc_socket s) \<and> 33 \<le> max_payload ev \<longrightarrow>
        (if \<exists>rest. pending (bc_socket s) = encode_preface @ rest
         then outbound (bc_socket t) = outbound (bc_socket s) @ busy_answer \<and> pending (bc_socket t) = []
           \<and> (\<forall>a. client_fields (client_address peer) = Inr a \<longrightarrow>
               lg_successful_writes (bc_logger t) + lg_failed_writes (bc_logger t)
                 = lg_successful_writes (bc_logger s) + lg_failed_writes (bc_logger s) + 1)
         else outbound (bc_socket t) = outbound (bc_socket s) \<and> bc_logger t = bc_logger s))"
proof -
  let ?s = "s\<lparr>bc_rejection_sent := False\<rparr>"
  obtain q s1 where ex: "busy_exchange ev ?s = (q, s1)" by fastforce
  obtain k where k: "s1 = ?s\<lparr>bc_socket := k\<rparr>" "answers (bc_socket s) busy_answer q k" using busy_exchange_any [OF ex] by auto
  have dl: "delivers k \<and> (if \<exists>rest. pending (bc_socket s) = encode_preface @ rest then q = Inr ()
       else (\<exists>e. q = Inl e) \<and> outbound k = outbound (bc_socket s))"
    if "delivers (bc_socket s)" "accepting (bc_socket s)" "33 \<le> max_payload ev"
    using busy_exchange_delivered [OF _ _ that(3) ex] that unfolding k(1) by (simp split: if_splits)
  show ?thesis
  proof (cases q)
    case (Inl e)
    then have "reject_busy ev peer s = (Inr (), s1\<lparr>bc_open := False\<rparr>)"
      using ex k by (auto simp: reject_busy_def answers_def tryS_def bindS_def finallyS_def close_busy_def updateS_def readS_def)
    then have t: "r = Inr ()" "t = s1\<lparr>bc_open := False\<rparr>" using assms by simp_all
    then show ?thesis using k dl Inl by (auto simp: answers_def)
  next
    case (Inr u)
    let ?told = "s1\<lparr>bc_rejection_sent := True\<rparr>"
    obtain w lg where lg: "log_busy peer ?told = (w, ?told\<lparr>bc_logger := lg\<rparr>)"
      and w: "case client_fields (client_address peer) of Inl e \<Rightarrow> w = Inl e
        | Inr a \<Rightarrow> w = Inr () \<and> lg_successful_writes lg + lg_failed_writes lg
            = lg_successful_writes (bc_logger s) + lg_failed_writes (bc_logger s) + 1"
    proof (cases "client_fields (client_address peer)")
      case (Inl e)
      then show thesis using that [of "Inl e" "bc_logger s1"] log_busy_Inl [OF Inl, of ?told] by simp
    next
      case (Inr a)
      then show thesis using that [of "Inr ()"] log_busy_Inr [OF Inr, of ?told] k(1) by auto
    qed
    obtain k' where k': "bindS (readS bc_rejection_sent) (\<lambda>rejection_sent.
          bindS (if rejection_sent then graceful_write_close else returnS ()) (\<lambda>_. close_busy)) (?told\<lparr>bc_logger := lg\<rparr>)
        = (Inr (), ?told\<lparr>bc_logger := lg, bc_socket := k', bc_open := False\<rparr>)"
      "outbound k' = outbound k" "delivers k \<longrightarrow> pending k' = []"
      using busy_cleanup [of "?told\<lparr>bc_logger := lg\<rparr>"] k(1) by auto
    have "tryS (bindS (busy_exchange ev) (\<lambda>_. bindS (updateS (\<lambda>s. s\<lparr>bc_rejection_sent := True\<rparr>)) (\<lambda>_. log_busy peer)))
         (\<lambda>error. if is_os_error error \<or> is_protocol_error error then returnS () else raiseS error) ?s
       = (w, ?told\<lparr>bc_logger := lg\<rparr>)"
      using ex Inr lg w client_fields_error [of "client_address peer"]
      by (auto simp: tryS_def bindS_def updateS_def split: sum.splits)
    then have "reject_busy ev peer s = (w, ?told\<lparr>bc_logger := lg, bc_socket := k', bc_open := False\<rparr>)"
      using k'(1) by (simp add: reject_busy_def bindS_apply [of "updateS _"] updateS_def finallyS_def)
    then have t: "r = w" "t = ?told\<lparr>bc_logger := lg, bc_socket := k', bc_open := False\<rparr>" using assms by simp_all
    have sent: "outbound k = outbound (bc_socket s) @ busy_answer" using k(2) Inr by (auto simp: answers_def)
    show ?thesis
      using t sent w k' dl Inr by (auto intro!: exI [of _ "length busy_answer"] split: sum.splits)
  qed
qed

definition turned_away :: busy_client where
  "turned_away = \<lparr>bc_socket = \<lparr>inbound = [Segment encode_preface], outbound = [], send_plan = []\<rparr>, bc_open = True,
     bc_logger = open_logger [] [], bc_rejection_sent = False\<rparr>"

theorem busy_client_is_told_witness:
  "\<exists>t. reject_busy example_environment (PeerPair (lit ''127.0.0.1'') 5000) turned_away = (Inr (), t)
     \<and> outbound (bc_socket t) = encode_preface @ frame_bytes busy_frame \<and> \<not> bc_open t"
proof -
  have "length encode_preface = 8" by (simp add: encode_preface_def)
  then have "encode_preface \<noteq> []" by auto
  then have start: "delivers (bc_socket turned_away)" "accepting (bc_socket turned_away)" "outbound (bc_socket turned_away) = []"
    "pending (bc_socket turned_away) = encode_preface @ []"
    by (simp_all add: turned_away_def delivers_def accepting_def pending_def)
  have peer: "client_fields (client_address (PeerPair (lit ''127.0.0.1'') 5000)) = Inr (lit ''127.0.0.1'', 5000)"
    by (simp add: client_fields_def lit_def)
  obtain r t where run: "reject_busy example_environment (PeerPair (lit ''127.0.0.1'') 5000) turned_away = (r, t)" by fastforce
  show ?thesis
    using busy_client_is_told [OF run] run start peer by auto
qed

end
