(* ===== verification/ServerProcess.thy ===== *)
theory ServerProcess
  imports Admission ConfigFile
begin

section \<open>The server process\<close>

text \<open>
  The accepting thread of \<open>src/hcmus_socket/server/app.py\<close>: \<open>create_listener\<close>, \<open>serve_forever\<close> and
  \<open>main\<close>.  What \<open>accept\<close> brings is a list of \<open>accepted\<close> connections and the way the last call
  ends; between two calls whole client threads may end (their steps are interleaved in
  \<open>Workers\<close>).  \<open>KeyboardInterrupt\<close> is taken to arrive while \<open>accept\<close> waits.  Threads and
  sockets are numbered in the order of acceptance.  \<open>join\<close> returns once the thread has run
  its \<open>finally\<close> block.
\<close>

subsection \<open>State\<close>

text \<open>What becomes of an accepted connection; \<open>TurnedAway\<close> also has the threads in the dictionary then.\<close>

datatype accept_event = WorkerStarted nat | TurnedAway nat "nat list" | StartRaised nat

fun event_client :: "accept_event \<Rightarrow> nat" where
  "event_client (WorkerStarted n) = n"
| "event_client (TurnedAway n ws) = n"
| "event_client (StartRaised n) = n"

text \<open>The local variables of \<open>serve_forever\<close>; \<open>pr_listener\<close> is \<open>None\<close> before there is a listener.\<close>

record server_process =
  pr_group :: worker_group
  pr_registry :: registry
  pr_logger :: server_logger
  pr_listener :: "bool option" \<comment> \<open>is it open\<close>
  pr_graceful_stop :: bool
  pr_accepted :: nat
  pr_trace :: "accept_event list"
  pr_shut :: "nat list" \<comment> \<open>client sockets that \<open>close\<close> has shut down\<close>

type_synonym 'a process_action = "(exc, server_process, 'a) action"

record accepted =
  ac_ended :: "nat list" \<comment> \<open>threads that end while \<open>accept\<close> waits\<close>
  ac_socket :: sock
  ac_peer_address :: peer_object
  ac_thread :: "exc + unit" \<comment> \<open>does \<open>worker.start()\<close> succeed\<close>

datatype last_accept = KeyboardInterrupt | AcceptRaises exc

record listener_calls =
  lc_socket :: "exc + unit"
  lc_setsockopt :: "exc + unit"
  lc_bind :: "exc + unit"
  lc_listen :: "exc + unit"

definition in_workers :: "(exc, worker_group, 'a) action \<Rightarrow> 'a process_action" where
  "in_workers = partS pr_group (\<lambda>x s. s\<lparr>pr_group := x\<rparr>)"

definition set_listener :: "bool \<Rightarrow> unit process_action" where
  "set_listener b = updateS (\<lambda>s. s\<lparr>pr_listener := Some b\<rparr>)"

definition note_event :: "accept_event \<Rightarrow> unit process_action" where
  "note_event x = updateS (\<lambda>s. s\<lparr>pr_trace := pr_trace s @ [x]\<rparr>)"

subsection \<open>Listener, accept loop, shutdown\<close>

definition create_listener :: "listener_calls \<Rightarrow> unit process_action" where
  "create_listener calls =
     bindS (liftS (lc_socket calls)) (\<lambda>_.
     bindS (set_listener True) (\<lambda>_.
     tryS
       (bindS (liftS (lc_setsockopt calls)) (\<lambda>_.
        bindS (liftS (lc_bind calls)) (\<lambda>_.
        liftS (lc_listen calls))))
       (\<lambda>error. bindS (set_listener False) (\<lambda>_. raiseS error))))"

text \<open>The \<open>finally\<close> block of \<open>_run_client\<close>, as far as the group sees it.\<close>

definition worker_ends :: "nat \<Rightarrow> worker_group \<Rightarrow> worker_group" where
  "worker_ends w g =
     (if w \<in> fst ` set (wg_workers g) then
        snd (bindS (close_socket w) (\<lambda>_. bindS (updateS (forget_worker w)) (\<lambda>_. release_slot)) g)
      else g)"

definition reject_accepted :: "environment \<Rightarrow> accepted \<Rightarrow> unit process_action" where
  "reject_accepted ev a s =
     (case reject_busy ev (ac_peer_address a) \<lparr>bc_socket = ac_socket a, bc_open = True, bc_logger = pr_logger s, bc_rejection_sent = False\<rparr> of
        (r, b) \<Rightarrow> (r, s\<lparr>pr_logger := bc_logger b\<rparr>))"

text \<open>One turn of the accept loop.\<close>

definition accept_client :: "environment \<Rightarrow> accepted \<Rightarrow> unit process_action" where
  "accept_client ev a =
     bindS (in_workers (updateS (fold worker_ends (ac_ended a)))) (\<lambda>_.
     bindS (readS pr_accepted) (\<lambda>n.
     bindS (updateS (\<lambda>s. s\<lparr>pr_accepted := n + 1\<rparr>)) (\<lambda>_.
     bindS (tryS (in_workers (start_worker (ac_thread a) n))
       (\<lambda>error. bindS (note_event (StartRaised n)) (\<lambda>_. raiseS error))) (\<lambda>started.
     if started then note_event (WorkerStarted n)
     else
       bindS (readS (\<lambda>s. map fst (wg_workers (pr_group s)))) (\<lambda>ws.
       bindS (note_event (TurnedAway n ws)) (\<lambda>_.
       reject_accepted ev a))))))"

fun accept_loop :: "environment \<Rightarrow> accepted list \<Rightarrow> last_accept \<Rightarrow> unit process_action" where
  "accept_loop ev [] KeyboardInterrupt = updateS (\<lambda>s. s\<lparr>pr_graceful_stop := True\<rparr>)"
| "accept_loop ev [] (AcceptRaises error) = raiseS error"
| "accept_loop ev (a # as) final = bindS (accept_client ev a) (\<lambda>_. accept_loop ev as final)"

text \<open>\<open>ClientWorkerGroup.close\<close>: an \<open>OSError\<close> of \<open>shutdown\<close> is ignored.\<close>

definition shut_client :: "nat \<Rightarrow> unit process_action" where
  "shut_client w =
     bindS (updateS (\<lambda>s. s\<lparr>pr_shut := pr_shut s @ [w]\<rparr>)) (\<lambda>_. in_workers (close_socket w))"

fun each_worker :: "(nat \<Rightarrow> unit process_action) \<Rightarrow> (nat \<times> nat) list \<Rightarrow> unit process_action" where
  "each_worker act [] = returnS ()"
| "each_worker act ((worker, client_socket) # workers) = bindS (act worker) (\<lambda>_. each_worker act workers)"

definition close_workers :: "bool \<Rightarrow> unit process_action" where
  "close_workers abort_active =
     bindS (in_workers begin_close) (\<lambda>workers.
     bindS (if abort_active then each_worker shut_client workers else returnS ()) (\<lambda>_.
     each_worker (\<lambda>worker. in_workers (updateS (worker_ends worker))) workers))"

definition serve_listening :: "environment \<Rightarrow> accepted list \<Rightarrow> last_accept \<Rightarrow> unit process_action" where
  "serve_listening ev turns final =
     finallyS (accept_loop ev turns final)
       (bindS (set_listener False) (\<lambda>_.
        bindS (readS pr_graceful_stop) (\<lambda>graceful_stop. close_workers (\<not> graceful_stop))))"

definition close_owned_logger :: "bool \<Rightarrow> fault option \<Rightarrow> unit process_action" where
  "close_owned_logger owns_logger f =
     updateS (\<lambda>s. if owns_logger then s\<lparr>pr_logger := close_logger f (pr_logger s)\<rparr> else s)"

text \<open>\<open>given_listener\<close>: the caller has passed one, which listens.\<close>

definition serve_accepted ::
  "environment \<Rightarrow> bool \<Rightarrow> bool \<Rightarrow> listener_calls \<Rightarrow> accepted list \<Rightarrow> last_accept \<Rightarrow> fault option \<Rightarrow> unit process_action" where
  "serve_accepted ev owns_logger given_listener calls turns final f =
     finallyS
       (bindS (if given_listener then set_listener True else create_listener calls) (\<lambda>_.
        serve_listening ev turns final))
       (close_owned_logger owns_logger f)"

subsection \<open>\<open>serve_forever\<close> and \<open>main\<close>\<close>

definition logger_from_config :: "environment \<Rightarrow> pystr \<Rightarrow> fault option list \<Rightarrow> server_logger fs_action" where
  "logger_from_config ev timestamp faults =
     (let path = storage_root ev @ [lit ''server.log''] in
      bindS (mkdir_parents (parent path)) (\<lambda>_.
      bindS (open_appending path) (\<lambda>_.
      returnS (open_logger timestamp faults))))"

definition start_process :: "server_logger \<Rightarrow> registry \<Rightarrow> worker_group \<Rightarrow> server_process" where
  "start_process logger reg workers = \<lparr>pr_group = workers, pr_registry = reg, pr_logger = logger, pr_listener = None,
     pr_graceful_stop = False, pr_accepted = 0, pr_trace = [], pr_shut = []\<rparr>"

definition set_up ::
  "environment \<Rightarrow> server_logger option \<Rightarrow> registry option \<Rightarrow> pystr \<Rightarrow> fault option list \<Rightarrow> server_process fs_action" where
  "set_up ev logger registry timestamp faults =
     bindS (prepare_storage ev) (\<lambda>_.
     bindS (case logger of Some lg \<Rightarrow> returnS lg | None \<Rightarrow> logger_from_config ev timestamp faults) (\<lambda>active_logger.
     bindS (liftS (case registry of Some reg \<Rightarrow> Inr reg | None \<Rightarrow> make_registry MAX_USER_ID)) (\<lambda>active_registry.
     bindS (liftS (make_group (sc_max_clients (cf_server (ev_config ev))))) (\<lambda>workers.
     returnS (start_process active_logger active_registry workers)))))"

text \<open>
  \<open>Inl\<close>: raised before the \<open>try\<close>, else the end of the process.  \<open>schedule\<close> is what the outside
  does from then on.
\<close>

record schedule =
  sh_timestamp :: pystr
  sh_log_faults :: "fault option list"
  sh_calls :: listener_calls
  sh_turns :: "accepted list"
  sh_final :: last_accept
  sh_close_fault :: "fault option"

definition serve_forever ::
  "environment \<Rightarrow> bool \<Rightarrow> server_logger option \<Rightarrow> registry option \<Rightarrow> schedule \<Rightarrow> ((exc + unit) \<times> server_process) fs_action" where
  "serve_forever ev given_listener logger registry sh =
     bindS (set_up ev logger registry (sh_timestamp sh) (sh_log_faults sh)) (\<lambda>p.
     returnS (serve_accepted ev (logger = None) given_listener (sh_calls sh) (sh_turns sh) (sh_final sh) (sh_close_fault sh) p))"

text \<open>\<open>main\<close>, with the configuration path that \<open>argparse\<close> has found; \<open>ev\<close> has the digest and the JSON codec.\<close>

definition server_main :: "environment \<Rightarrow> path \<Rightarrow> pystr \<Rightarrow> ini_read \<Rightarrow> schedule \<Rightarrow> int fs_action" where
  "server_main ev cwd config_path read sh =
     bindS (liftS (load_config cwd config_path read)) (\<lambda>config.
     bindS (serve_forever (ev\<lparr>ev_config := config\<rparr>) False None None sh) (\<lambda>(ended, p).
     bindS (liftS ended) (\<lambda>_. returnS 0)))"

subsection \<open>Slots and threads agree whenever \<open>accept\<close> is called\<close>

definition threads :: "worker_group \<Rightarrow> nat set" where
  "threads g = fst ` set (wg_workers g)"

definition group_fine :: "worker_group \<Rightarrow> bool" where
  "group_fine g \<longleftrightarrow> slots.taken g (threads g) \<and> distinct (map fst (wg_workers g))"

lemma group_fine_count: "group_fine g \<Longrightarrow> int (length (wg_workers g)) = wg_limit g - wg_slots g \<and> 0 \<le> wg_slots g"
  using distinct_card [of "map fst (wg_workers g)"] by (simp add: group_fine_def slots.taken_def threads_def)

lemma threads_workers: "threads (g\<lparr>wg_workers := AList.update w x (wg_workers g)\<rparr>) = insert w (threads g)"
  "threads (forget_worker w g) = threads g - {w}"
  by (auto simp: threads_def forget_worker_def AList.dom_update AList.delete_keys simp flip: dom_map_of_conv_image_fst)
    (auto simp: AList.update_conv' AList.delete_conv' split: if_splits)

lemma threads_cong: "wg_workers g' = wg_workers g \<Longrightarrow> threads g' = threads g"
  by (simp add: threads_def)

lemma worker_ends_fine:
  assumes "group_fine g"
  shows "group_fine (worker_ends w g) \<and> threads (worker_ends w g) = threads g - {w}
    \<and> wg_limit (worker_ends w g) = wg_limit g \<and> wg_closing (worker_ends w g) = wg_closing g"
proof (cases "w \<in> threads g")
  case False
  then show ?thesis using assms by (auto simp: worker_ends_def threads_def)
next
  case True
  define g1 where "g1 = forget_worker w (g\<lparr>wg_closed_sockets := w # wg_closed_sockets g\<rparr>)"
  obtain r g2 where rel: "release_slot g1 = (r, g2)" by fastforce
  have g1: "slots.taken g1 (threads g)" "threads g1 = threads g - {w}" "distinct (map fst (wg_workers g1))"
    using assms by (auto simp: g1_def group_fine_def threads_workers taken_cong [of g1 g] slots.taken_def threads_cong [of "g\<lparr>wg_closed_sockets := _\<rparr>" g])
      (simp add: forget_worker_def distinct_delete)
  note r = slots.taken_release [OF g1(1) True rel]
  have "worker_ends w g = g2"
    using True rel by (simp add: worker_ends_def threads_def bindS_def close_socket_def updateS_def g1_def)
  then show ?thesis
    using r g1 slot_fields(2) [OF rel] threads_cong [of g2 g1] by (simp add: group_fine_def g1_def)
qed

lemma workers_end_fine:
  "group_fine g \<Longrightarrow> group_fine (fold worker_ends ws g) \<and> threads (fold worker_ends ws g) = threads g - set ws
     \<and> wg_limit (fold worker_ends ws g) = wg_limit g \<and> wg_closing (fold worker_ends ws g) = wg_closing g"
proof (induction ws arbitrary: g)
  case (Cons w ws)
  from worker_ends_fine [OF Cons.prems, of w] Cons.IH [of "worker_ends w g"] show ?case by auto
qed simp

lemma start_worker_fine:
  assumes "group_fine g" "\<not> wg_closing g" "n \<notin> threads g"
  shows "wp (start_worker starts n)
    (\<lambda>started g'. group_fine g' \<and> wg_limit g' = wg_limit g \<and> \<not> wg_closing g'
       \<and> (if started then threads g' = insert n (threads g) else g' = g \<and> int (length (wg_workers g)) = wg_limit g))
    (\<lambda>e g'. group_fine g' \<and> wg_limit g' = wg_limit g \<and> \<not> wg_closing g' \<and> threads g' = threads g) g"
proof (cases "acquire_slot g")
  case None
  then show ?thesis
    using assms group_fine_count [OF assms(1)] by (simp add: start_worker_def wp_def acquire_slot_def split: if_splits)
next
  case (Some g1)
  define g2 where "g2 = g1\<lparr>wg_workers := AList.update n n (wg_workers g1)\<rparr>"
  have f: "wg_workers g1 = wg_workers g" "wg_closing g1 = wg_closing g" using slot_fields(1) [OF Some] by simp_all
  have t1: "slots.taken g1 (insert n (threads g))" "wg_limit g1 = wg_limit g"
    using slots.taken_acquire [OF _ assms(3) Some] assms(1) by (simp_all add: group_fine_def)
  have th: "threads g2 = insert n (threads g)" using f threads_workers(1) [where w = n and x = n and g = g1] threads_cong [of g1 g] by (simp add: g2_def)
  have g2: "group_fine g2" "wg_limit g2 = wg_limit g" "\<not> wg_closing g2"
    using assms t1 f th by (simp_all add: group_fine_def g2_def slots.taken_def distinct_update)
  have rec: "record_worker n n g1 = (Inr (), g2)" using assms(2) f by (simp add: record_worker_Inr g2_def)
  show ?thesis
  proof (cases starts)
    case (Inr u)
    then show ?thesis using Some rec g2 th by (simp add: start_worker_def wp_def tryS_def)
  next
    case (Inl e)
    obtain r g3 where rel: "release_slot (forget_worker n g2) = (r, g3)" by fastforce
    have "slots.taken (forget_worker n g2) (insert n (threads g))" using g2(1) th by (simp add: group_fine_def slots.taken_def)
    note r = slots.taken_release [OF this insertI1 rel]
    have "threads g3 = threads g" using slot_fields(2) [OF rel] threads_cong [of g3 "forget_worker n g2"] th assms(3)
      by (simp add: threads_workers)
    moreover have "distinct (map fst (wg_workers g3))"
      using slot_fields(2) [OF rel] g2(1) by (simp add: group_fine_def forget_worker_def distinct_delete)
    ultimately show ?thesis
      using Some rec Inl rel r g2 th assms(3) slot_fields(2) [OF rel]
      by (auto simp: start_worker_def wp_def tryS_def bindS_def updateS_def close_socket_def group_fine_def slots.taken_def threads_def)
  qed
qed

text \<open>The state of the accepting thread when it calls \<open>accept\<close>.\<close>

definition process_ok :: "int \<Rightarrow> server_process \<Rightarrow> bool" where
  "process_ok limit p \<longleftrightarrow> group_fine (pr_group p) \<and> wg_limit (pr_group p) = limit
     \<and> threads (pr_group p) \<subseteq> {..<pr_accepted p} \<and> map event_client (pr_trace p) = [0..<pr_accepted p]
     \<and> (\<forall>n ws. TurnedAway n ws \<in> set (pr_trace p) \<longrightarrow> int (length ws) = limit)"

definition listening :: "int \<Rightarrow> server_process \<Rightarrow> bool" where
  "listening limit p \<longleftrightarrow> process_ok limit p \<and> \<not> wg_closing (pr_group p) \<and> pr_listener p = Some True
     \<and> \<not> pr_graceful_stop p \<and> pr_shut p = []"

lemma accept_client_ok:
  assumes "listening limit p"
  shows "wp (accept_client ev a) (\<lambda>_ q. listening limit q \<and> pr_accepted q = pr_accepted p + 1)
    (\<lambda>_ q. listening limit q \<and> pr_accepted q = pr_accepted p + 1) p"
proof -
  let ?g = "fold worker_ends (ac_ended a) (pr_group p)" and ?n = "pr_accepted p"
  have g: "group_fine ?g" "wg_limit ?g = limit" "\<not> wg_closing ?g" "?n \<notin> threads ?g" "threads ?g \<subseteq> {..<?n}"
    using assms workers_end_fine [of "pr_group p" "ac_ended a"] by (auto simp: listening_def process_ok_def)
  note start = start_worker_fine [OF g(1,3,4), of "ac_thread a"]
  show ?thesis
    using assms g
    by (auto simp: accept_client_def in_workers_def note_event_def wp_simps listening_def process_ok_def wp_def [of "reject_accepted ev a"]
        reject_accepted_def split: prod.splits sum.splits intro!: wp_mono [OF start])
qed

lemma accept_loop_ok:
  "listening limit p \<Longrightarrow> wp (accept_loop ev turns final)
     (\<lambda>_ q. \<exists>q'. q = q'\<lparr>pr_graceful_stop := True\<rparr> \<and> listening limit q' \<and> final = KeyboardInterrupt
        \<and> pr_accepted q = pr_accepted p + length turns)
     (\<lambda>_ q. listening limit q) p"
proof (induction ev turns final arbitrary: p rule: accept_loop.induct)
  case (1 ev)
  then show ?case by (auto simp: wp_simps)
next
  case (2 ev error)
  then show ?case by (simp add: wp_def)
next
  case (3 ev a as final)
  show ?case
    unfolding accept_loop.simps wp_bind
    by (rule wp_mono [OF accept_client_ok [OF "3.prems"]]) (auto intro!: wp_mono [OF "3.IH"])
qed

lemma each_shut: "each_worker shut_client ws p = (Inr (), p\<lparr>pr_shut := pr_shut p @ map fst ws,
    pr_group := (pr_group p)\<lparr>wg_closed_sockets := rev (map fst ws) @ wg_closed_sockets (pr_group p)\<rparr>\<rparr>)"
  by (induction ws arbitrary: p) (auto simp: shut_client_def in_workers_def bindS_def updateS_def partS_def close_socket_def)

lemma each_join: "each_worker (\<lambda>worker. in_workers (updateS (worker_ends worker))) ws p
    = (Inr (), p\<lparr>pr_group := fold worker_ends (map fst ws) (pr_group p)\<rparr>)"
  by (induction ws arbitrary: p) (auto simp: in_workers_def bindS_def updateS_def partS_def)

lemma close_workers_ok:
  assumes "process_ok limit p"
  obtains q where "close_workers abort_active p = (Inr (), q)" "process_ok limit q" "wg_workers (pr_group q) = []"
    "wg_slots (pr_group q) = limit" "pr_listener q = pr_listener p" "pr_logger q = pr_logger p" "pr_accepted q = pr_accepted p"
    "pr_shut q = (if abort_active then pr_shut p @ map fst (wg_workers (pr_group p)) else pr_shut p)"
proof -
  define ws where "ws = wg_workers (pr_group p)"
  define closed where "closed = (if abort_active then rev (map fst ws) else []) @ wg_closed_sockets (pr_group p)"
  define g where "g = (pr_group p)\<lparr>wg_closing := True, wg_closed_sockets := closed\<rparr>"
  define q where "q = p\<lparr>pr_group := fold worker_ends (map fst ws) g, pr_shut := (if abort_active then pr_shut p @ map fst ws else pr_shut p)\<rparr>"
  have "group_fine g" "wg_limit g = limit" "threads g = set (map fst ws)"
    using assms by (simp_all add: process_ok_def group_fine_def g_def slots.taken_def threads_def ws_def)
  with workers_end_fine [of g "map fst ws"]
  have g': "group_fine (pr_group q)" "wg_limit (pr_group q) = limit" "threads (pr_group q) = {}" by (simp_all add: q_def)
  then have "wg_workers (pr_group q) = []" "wg_slots (pr_group q) = limit"
    using group_fine_count [OF g'(1)] by (simp_all add: threads_def)
  moreover have "in_workers begin_close p = (Inr ws, p\<lparr>pr_group := (pr_group p)\<lparr>wg_closing := True\<rparr>\<rparr>)"
    by (simp add: in_workers_def partS_def begin_close_def ws_def)
  then have "close_workers abort_active p = (Inr (), q)"
    by (cases abort_active) (simp_all add: close_workers_def bindS_apply each_shut each_join q_def g_def closed_def ws_def)
  ultimately show thesis using assms g' that by (simp add: process_ok_def q_def ws_def)
qed

lemma create_listener_outcome:
  "wp (create_listener calls) (\<lambda>_ q. q = p\<lparr>pr_listener := Some True\<rparr>) (\<lambda>_ q. q = p \<or> q = p\<lparr>pr_listener := Some False\<rparr>) p"
  by (simp add: create_listener_def set_listener_def wp_simps split: sum.split)

definition process_done :: "int \<Rightarrow> server_process \<Rightarrow> bool" where
  "process_done limit p \<longleftrightarrow> process_ok limit p \<and> pr_listener p \<noteq> Some True \<and> wg_workers (pr_group p) = [] \<and> wg_slots (pr_group p) = limit"

lemma serve_listening_done:
  assumes "listening limit p"
  shows "wp (serve_listening ev turns final)
    (\<lambda>_ q. process_done limit q \<and> pr_accepted q = pr_accepted p + length turns \<and> pr_shut q = [] \<and> final = KeyboardInterrupt)
    (\<lambda>_ q. process_done limit q) p"
proof -
  have stop: "wp (bindS (set_listener False) (\<lambda>_. bindS (readS pr_graceful_stop) (\<lambda>graceful_stop. close_workers (\<not> graceful_stop)))) 
      (\<lambda>_ t. process_done limit t \<and> pr_accepted t = pr_accepted q \<and> (pr_graceful_stop q \<longrightarrow> pr_shut t = pr_shut q)) (\<lambda>_ t. False) q"
    if "process_ok limit q" for q
  proof -
    have "process_ok limit (q\<lparr>pr_listener := Some False\<rparr>)" using that by (simp add: process_ok_def)
    then obtain t where "close_workers (\<not> pr_graceful_stop q) (q\<lparr>pr_listener := Some False\<rparr>) = (Inr (), t)" "process_done limit t"
      "pr_accepted t = pr_accepted q" "pr_graceful_stop q \<longrightarrow> pr_shut t = pr_shut q"
      by (rule close_workers_ok [of _ _ "\<not> pr_graceful_stop q"]) (simp add: process_done_def)
    then show ?thesis by (simp add: wp_simps set_listener_def wp_def [of "close_workers _"])
  qed
  show ?thesis
    unfolding serve_listening_def wp_finally
    by (rule wp_mono [OF accept_loop_ok [OF assms]])
      (auto simp: listening_def process_ok_def intro!: wp_mono [OF stop])
qed

lemma set_up_ok:
  assumes "set_up ev logger registry timestamp faults fs = (Inr p, fs')"
  shows "\<exists>lg reg g. p = start_process lg reg g \<and> (logger \<noteq> None \<longrightarrow> logger = Some lg)
    \<and> make_group (sc_max_clients (cf_server (ev_config ev))) = Inr g"
  using assms by (auto simp: set_up_def bindS_eq_Inr split: option.splits)

text \<open>
  C17. However the server ends, it leaves nothing behind: when \<open>serve_forever\<close> ends, by
  \<open>KeyboardInterrupt\<close>, by an error of \<open>accept\<close>, of the listener or of a thread that cannot start,
  the listener is closed, all client threads have ended, every slot is free, and a logger it has
  made is closed.  It returns only after \<open>KeyboardInterrupt\<close>, and then no client has been cut off.
  Connections are dealt with one by one in the order of acceptance, none twice and none
  forgotten, and a client is turned away only while \<open>max_clients\<close> others have threads.
\<close>

theorem server_stops_cleanly:
  assumes "serve_forever ev given_listener logger registry sh fs = (Inr (r, t), fs')"
  shows "pr_listener t \<noteq> Some True \<and> wg_workers (pr_group t) = []
    \<and> wg_slots (pr_group t) = sc_max_clients (cf_server (ev_config ev))
    \<and> (logger = None \<longrightarrow> lg_stream (pr_logger t) = None)
    \<and> (r = Inr () \<longrightarrow> sh_final sh = KeyboardInterrupt \<and> pr_accepted t = length (sh_turns sh) \<and> pr_shut t = [])
    \<and> map event_client (pr_trace t) = [0..<pr_accepted t]
    \<and> (\<forall>n ws. TurnedAway n ws \<in> set (pr_trace t) \<longrightarrow> int (length ws) = sc_max_clients (cf_server (ev_config ev)))"
proof -
  define limit where "limit = sc_max_clients (cf_server (ev_config ev))"
  obtain p where p: "set_up ev logger registry (sh_timestamp sh) (sh_log_faults sh) fs = (Inr p, fs')"
    and run: "serve_accepted ev (logger = None) given_listener (sh_calls sh) (sh_turns sh) (sh_final sh) (sh_close_fault sh) p = (r, t)"
    using assms by (auto simp: serve_forever_def bindS_eq_Inr)
  obtain lg reg g where init: "p = start_process lg reg g" "make_group limit = Inr g"
    using set_up_ok [OF p] limit_def by auto
  have g: "group_fine g" "wg_limit g = limit" "threads g = {}" "\<not> wg_closing g" "wg_slots g = limit" "wg_workers g = []"
    using init(2) by (auto simp: make_group_def group_fine_def slots.taken_def threads_def split: if_splits)
  have ended: "process_done limit p" "process_done limit (p\<lparr>pr_listener := Some False\<rparr>)"
    and opened: "listening limit (p\<lparr>pr_listener := Some True\<rparr>)" and zero: "pr_accepted (p\<lparr>pr_listener := Some True\<rparr>) = 0"
    using g init(1) by (simp_all add: process_ok_def process_done_def listening_def start_process_def)
  let ?Q = "\<lambda>_ q. process_done limit q \<and> pr_accepted q = length (sh_turns sh) \<and> pr_shut q = [] \<and> sh_final sh = KeyboardInterrupt"
  note serve = serve_listening_done [OF opened, of ev "sh_turns sh" "sh_final sh", unfolded zero add_0]
  have "wp (bindS (if given_listener then set_listener True else create_listener (sh_calls sh))
      (\<lambda>_. serve_listening ev (sh_turns sh) (sh_final sh))) ?Q (\<lambda>_ q. process_done limit q) p"
    unfolding wp_bind wp_if
    using serve ended by (auto simp: set_listener_def wp_simps intro!: wp_mono [OF create_listener_outcome])
  then have "wp (serve_accepted ev (logger = None) given_listener (sh_calls sh) (sh_turns sh) (sh_final sh) (sh_close_fault sh))
      (\<lambda>_ q. ?Q () q \<and> (logger = None \<longrightarrow> lg_stream (pr_logger q) = None))
      (\<lambda>_ q. process_done limit q \<and> (logger = None \<longrightarrow> lg_stream (pr_logger q) = None)) p"
    unfolding serve_accepted_def wp_finally
    by (rule wp_mono) (auto simp: close_owned_logger_def wp_simps process_done_def process_ok_def close_logger_def split: option.splits)
  from wpD [OF this run] show ?thesis
    unfolding limit_def [symmetric]
    by (cases r) (auto simp: process_done_def process_ok_def)
qed

text \<open>Two clients of the example configuration, the first of which has left when the second comes.\<close>

definition two_visits :: schedule where
  "two_visits =
     (let client = \<lambda>left. \<lparr>ac_ended = left, ac_socket = frames_socket [] [], ac_peer_address = PeerPair (lit ''127.0.0.1'') 5000,
        ac_thread = Inr ()\<rparr> in
      \<lparr>sh_timestamp = [], sh_log_faults = [], sh_calls = \<lparr>lc_socket = Inr (), lc_setsockopt = Inr (), lc_bind = Inr (), lc_listen = Inr ()\<rparr>,
       sh_turns = [client [], client [0]], sh_final = KeyboardInterrupt, sh_close_fault = None\<rparr>)"

lemma example_storage: "prepare_storage example_environment example_files = (Inr 0, example_files)"
proof -
  have faults: "fs_faults example_files = []" by (simp add: example_files_def)
  have "resolve example_files [[115]] = Some [[115]]"
    by (simp add: resolve_def MAX_LINKS_def example_nodes numeral_eq_Suc)
  then have follow: "followed example_files [[115]] = Some Directory" by (simp add: followed_def example_nodes)
  then have "mkdir_parents [[115]] example_files = (Inr (), example_files)"
    by (simp add: mkdir_parents_def os_call_def faults)
  moreover have test: "path_test tst example_files = (Inr (tst example_files), example_files)" for tst
    by (simp add: path_test_def os_call_def faults)
  moreover have "walk [[115]] example_files = (Inr [[[115], [97], [102]], [[115], [97], [108]]], example_files)"
  proof -
    have "list_directories ds [] example_files = (Inr [], example_files)" for ds
      by (induction ds) (simp_all add: is_below_def test tryS_def bindS_def)
    moreover have "walked_files example_files [[115]] = [[[115], [97], [102]], [[115], [97], [108]]]"
      by (simp add: walked_files_def walked_below_def example_nodes numeral_eq_Suc) (simp add: example_files_def)
    ultimately show ?thesis by (simp add: walk_def bindS_def readS_def is_below_def)
  qed
  moreover have "partial_pairs [[[115], [97], [102]], [[115], [97], [108]]] [] = returnS []"
    by (simp add: part_of_def ends_with_def path_name_def lit_def)
  moreover have "is_dir example_files [[115]]" "\<not> is_symlink example_files [[115]]"
    using follow by (simp_all add: is_dir_def is_symlink_def example_nodes)
  moreover have "sc_partial_ttl_seconds (cf_server (ev_config example_environment)) = 60"
    by (simp add: example_environment_def example_config_def)
  ultimately show ?thesis
    by (simp add: prepare_storage_def bindS_def readS_def tryS_def cleanup_expired_partials_def)
qed

theorem server_stops_cleanly_witness:
  "\<exists>r t. serve_forever example_environment True (Some (open_logger [] [])) None two_visits example_files = (Inr (r, t), example_files)
     \<and> pr_listener t \<noteq> Some True \<and> wg_slots (pr_group t) = 4"
proof -
  have four: "sc_max_clients (cf_server (ev_config example_environment)) = 4"
    by (simp add: example_environment_def example_config_def)
  then obtain p where "set_up example_environment (Some (open_logger [] [])) None [] [] example_files = (Inr p, example_files)"
    by (simp add: set_up_def example_storage bindS_def make_registry_def make_group_def MIN_USER_ID_def MAX_USER_ID_def)
  moreover have "sh_timestamp two_visits = []" "sh_log_faults two_visits = []" by (simp_all add: two_visits_def Let_def)
  ultimately obtain r t where "serve_forever example_environment True (Some (open_logger [] [])) None two_visits example_files = (Inr (r, t), example_files)"
    by (simp add: serve_forever_def) (meson surj_pair)
  with server_stops_cleanly [OF this] four show ?thesis by auto
qed

end
