(* ===== verification/ClientApi.thy ===== *)
theory ClientApi
  imports ClientDownload ClientSafety
begin

section \<open>The API of the client\<close>

text \<open>
  \<open>src/hcmus_socket/client/api.py\<close>.  \<open>ClientApi\<close> owns one \<open>ClientSession\<close>, whose state is the
  record \<open>client\<close>, and lets transfers through only for a session that is connected and
  authenticated.  The operations are the built-in ones (\<open>list_files\<close>, \<open>upload_file\<close>,
  \<open>download_file\<close>); the progress callbacks are left out.
\<close>

definition require_authenticated :: "unit client_action" where
  "require_authenticated =
     bindS (readS (\<lambda>s. \<not> cl_connected s \<or> \<not> cl_authenticated s)) (\<lambda>refused.
     if refused then raiseS (SessionError (lit ''client must be connected and authenticated'')) else returnS ())"

definition api_list_files :: "environment \<Rightarrow> file_entry list client_action" where
  "api_list_files ev = bindS require_authenticated (\<lambda>_. list_files ev)"

definition api_upload_file :: "environment \<Rightarrow> path \<Rightarrow> pystr option \<Rightarrow> client_upload_result client_action" where
  "api_upload_file ev source remote_filename = bindS require_authenticated (\<lambda>_. upload_file ev source remote_filename)"

definition api_download_file :: "environment \<Rightarrow> pystr \<Rightarrow> path option \<Rightarrow> client_download_result client_action" where
  "api_download_file ev filename destination =
     bindS require_authenticated (\<lambda>_. download_file ev filename destination)"

text \<open>\<open>__enter__\<close> with the socket it gets, and \<open>__exit__\<close>\<close>

definition api_enter :: "environment \<Rightarrow> exc + sock \<Rightarrow> unit client_action" where
  "api_enter ev socket_factory = client_connect ev socket_factory None"

definition api_exit :: "environment \<Rightarrow> unit client_action" where
  "api_exit ev = bindS (readS cl_connected) (\<lambda>connected. if connected then client_disconnect ev else returnS ())"

datatype api_call =
    Connect "exc + sock" "pystr option"
  | Disconnect
  | Close
  | ListFiles
  | UploadFile path "pystr option"
  | DownloadFile pystr "path option"

datatype api_result =
    Done
  | Listed "file_entry list"
  | Uploaded client_upload_result
  | Downloaded client_download_result

fun api_action :: "environment \<Rightarrow> api_call \<Rightarrow> api_result client_action" where
  "api_action ev (Connect socket_factory username) = bindS (client_connect ev socket_factory username) (\<lambda>_. returnS Done)"
| "api_action ev Disconnect = bindS (client_disconnect ev) (\<lambda>_. returnS Done)"
| "api_action ev Close = bindS client_close (\<lambda>_. returnS Done)"
| "api_action ev ListFiles = bindS (api_list_files ev) (\<lambda>entries. returnS (Listed entries))"
| "api_action ev (UploadFile source remote_filename) =
     bindS (api_upload_file ev source remote_filename) (\<lambda>result. returnS (Uploaded result))"
| "api_action ev (DownloadFile filename destination) =
     bindS (api_download_file ev filename destination) (\<lambda>result. returnS (Downloaded result))"

text \<open>A front end makes calls one after the other and goes on after an exception.\<close>

fun api_session :: "environment \<Rightarrow> api_call list \<Rightarrow> client \<Rightarrow> client" where
  "api_session ev [] s = s"
| "api_session ev (call # calls) s = api_session ev calls (snd (api_action ev call s))"

subsection \<open>The type of the client's state\<close>

text \<open>
  Between two calls a session is either closed, with user number 0, or connected and logged in,
  with a user name and a number of the protocol's range.
\<close>

definition client_ok :: "client \<Rightarrow> bool" where
  "client_ok s \<longleftrightarrow> cl_connected s = cl_authenticated s
     \<and> (if cl_authenticated s then MIN_USER_ID \<le> cl_user_id s \<and> cl_user_id s \<le> MAX_USER_ID \<and> cl_username s \<noteq> None
        else cl_user_id s = USER_ID)"

definition same_identity :: "client \<Rightarrow> client \<Rightarrow> bool" where
  "same_identity s t \<longleftrightarrow> (client_ok s \<longrightarrow> client_ok t
     \<and> (cl_authenticated t \<longrightarrow> cl_authenticated s \<and> cl_user_id t = cl_user_id s \<and> cl_username t = cl_username s))"

interpretation identity: step_relation same_identity
  by unfold_locales (auto simp: same_identity_def)

lemma identity_files: "identity.keeps (on_client_files act)"
  by (rule identity.keepsI) (auto simp: on_client_files_apply same_identity_def client_ok_def split: prod.splits)

lemma identity_close: "identity.keeps client_close"
  by (rule identity.keepsI) (auto simp: client_close_def updateS_def same_identity_def client_ok_def)

lemma identity_close_raise: "identity.keeps (close_raise e)"
  unfolding close_raise_def by (intro identity.keep_intros identity_close)

lemma identity_with_socket: "identity.keeps (with_socket act)"
  by (rule identity.keepsI)
    (auto simp: with_socket_def bindS_def readS_def partS_def same_identity_def client_ok_def split: prod.splits if_splits)

lemma identity_send: "identity.keeps (client_send ev fr)"
  unfolding client_send_def by (intro identity.keep_intros identity_close_raise identity_with_socket)

lemma validate_incoming_kept:
  "cl_authenticated s \<Longrightarrow> snd (validate_incoming_user_id ev fr s) = s"
  by (simp add: validate_incoming_user_id_def bindS_def readS_def)

lemma identity_receive: "identity.keeps (client_receive ev)"
proof (rule identity.keepsI)
  fix s r t
  assume run: "client_receive ev s = (r, t)"
  obtain q u where ws: "with_socket (receive_frame (max_payload ev)) s = (q, u)" by fastforce
  have su: "same_identity s u" by (rule identity.keepsD [OF identity_with_socket ws])
  have "same_identity u t" if "cl_authenticated u \<or> (\<exists>e. q = Inl e)"
  proof (cases "\<exists>fr. q = Inr (Some fr)")
    case True
    then obtain fr where q: "q = Inr (Some fr)" ..
    obtain p v where vi: "validate_incoming_user_id ev fr u = (p, v)" by fastforce
    then have "v = u" using validate_incoming_kept [of u ev fr] that q by auto
    then show ?thesis
      using run ws q vi
      by (cases p) (auto simp: client_receive_def tryS_def bindS_def same_identity_def client_ok_def split: if_splits)
  next
    case False
    then show ?thesis
      using run ws
      by (cases q) (auto simp: client_receive_def tryS_def bindS_def same_identity_def client_ok_def split: if_splits option.splits)
  qed
  moreover have "cl_authenticated u \<or> (\<exists>e. q = Inl e)" if "client_ok s"
    using ws that by (auto simp: with_socket_def bindS_def readS_def partS_def client_ok_def split: prod.splits if_splits)
  ultimately show "same_identity s t" using su by (auto simp: same_identity_def)
qed

lemmas identity_intros = identity.keep_intros identity_files identity_close identity_close_raise identity_with_socket
  identity_send identity_receive

subsection \<open>Every operation keeps it\<close>

lemma identity_list: "identity.keeps (list_files ev)"
  unfolding list_files_def by (intro identity_intros)

lemma identity_expect_ack: "identity.keeps (expect_ack ev op n)"
  unfolding expect_ack_def abort_protocol_def by (intro identity_intros)

lemma identity_hash_prefix: "identity.keeps (hash_prefix ev source remaining hashed)"
proof (rule identity.keepsI)
  show "hash_prefix ev source remaining hashed s = (r, t) \<Longrightarrow> same_identity s t" for s r t
  proof (induction ev source remaining hashed s arbitrary: r t rule: hash_prefix.induct)
    case (1 ev source remaining hashed s)
    let ?n = "min remaining (nat (chunk_size ev))"
    obtain q u where rd: "on_client_files (read_handle source (length hashed) ?n) s = (q, u)" by fastforce
    have su: "same_identity s u" by (rule identity.keepsD [OF identity_files rd])
    consider "remaining = 0" | e where "q = Inl e" | data where "remaining \<noteq> 0" "q = Inr data" "data = [] \<or> length data \<noteq> ?n"
      | data where "remaining \<noteq> 0" "q = Inr data" "\<not> (data = [] \<or> length data \<noteq> ?n)" by (cases q) auto
    then show ?case
    proof cases
      case 1
      then show ?thesis using "1.prems" by (simp add: hash_prefix.simps [of ev source 0] identity.R_refl)
    next
      case 2
      then show ?thesis
        using "1.prems" rd su by (auto simp: hash_prefix.simps [of ev source remaining] identity.R_refl split: if_splits)
    next
      case 3
      then have "close_raise (SessionError (lit ''failed to read prefix data for hashing during resume'')) u = (r, t)"
        using "1.prems" rd by (auto simp: hash_prefix.simps [of ev source remaining] Let_def)
      from identity.R_trans [OF su identity.keepsD [OF identity_close_raise this]] show ?thesis .
    next
      case 4
      then have "hash_prefix ev source (remaining - length data) (hashed @ data) u = (r, t)"
        using "1.prems" rd by (simp add: hash_prefix.simps [of ev source remaining] Let_def)
      from identity.R_trans [OF su "1.IH" [OF 4(1) refl rd [unfolded 4(2), symmetric] refl 4(3) this]] show ?thesis .
    qed
  qed
qed

lemma identity_send_chunk: "identity.keeps (send_chunk ev sent data)"
  unfolding send_chunk_def by (intro identity_intros)

lemma identity_send_chunks: "identity.keeps (send_chunks ev source total_size sent hashed)"
proof (rule identity.keepsI)
  show "send_chunks ev source total_size sent hashed s = (r, t) \<Longrightarrow> same_identity s t" for s r t
  proof (induction ev source total_size sent hashed s arbitrary: r t rule: send_chunks.induct)
    case (1 ev source total_size sent hashed s)
    obtain q u where rd: "on_client_files (read_handle source (nat sent) (nat (chunk_size ev))) s = (q, u)" by fastforce
    have su: "same_identity s u" by (rule identity.keepsD [OF identity_files rd])
    consider e where "q = Inl e" | "q = Inr []" | b bs where "q = Inr (b # bs)" "sent + int (length (b # bs)) > total_size"
      | b bs where "q = Inr (b # bs)" "\<not> sent + int (length (b # bs)) > total_size"
      by (cases q; cases "projr q") auto
    then show ?case
    proof cases
      case 3
      then have "close_raise (SessionError (lit ''local upload source grew while being read; session aborted'')) u = (r, t)"
        using "1.prems" rd by (simp add: send_chunks.simps [of ev source total_size])
      from identity.R_trans [OF su identity.keepsD [OF identity_close_raise this]] show ?thesis .
    next
      case 4
      obtain p v where sc: "send_chunk ev sent (b # bs) u = (p, v)" by fastforce
      have sv: "same_identity s v" by (rule identity.R_trans [OF su identity.keepsD [OF identity_send_chunk sc]])
      show ?thesis
      proof (cases p)
        case (Inl e)
        then show ?thesis using "1.prems" rd 4 sc sv by (simp add: send_chunks.simps [of ev source total_size])
      next
        case (Inr x)
        then have "send_chunks ev source total_size (sent + int (length (b # bs))) (hashed @ b # bs) v = (r, t)"
          using "1.prems" rd 4 sc by (simp add: send_chunks.simps [of ev source total_size])
        from identity.R_trans [OF sv "1.IH" [OF rd [symmetric] 4(1) refl 4(2) sc [symmetric] Inr this]] show ?thesis .
      qed
    qed (use "1.prems" rd su in \<open>simp_all add: send_chunks.simps [of ev source total_size]\<close>)
  qed
qed

lemma identity_upload: "identity.keeps (upload_file ev source remote_filename)"
  unfolding upload_file_def upload_stream_def Let_def
  by (intro identity_intros identity_expect_ack identity_hash_prefix identity_send_chunks)

lemma identity_failures: "identity.keeps (remove_stale_part p)" "identity.keeps (raise_remote_error ev fr)"
  "identity.keeps (send_failure ev op code message)" "identity.keeps (refuse ev op code message)"
  "identity.keeps (raise_local_failure ev op e fatal)" "identity.keeps (local_step ev op fatal act)"
  "identity.keeps (send_download_ack ev op n)"
proof -
  show r: "identity.keeps (remove_stale_part p)" "identity.keeps (raise_remote_error ev fr)" for p fr
    unfolding remove_stale_part_def raise_remote_error_def by (intro identity_intros)+
  show f: "identity.keeps (send_failure ev op code message)" for op code message
    unfolding send_failure_def by (intro identity_intros)
  show "identity.keeps (refuse ev op code message)" unfolding refuse_def by (intro identity_intros f)
  show l: "identity.keeps (raise_local_failure ev op e fatal)" for e
    unfolding raise_local_failure_def Let_def by (intro identity_intros f)
  show "identity.keeps (local_step ev op fatal act)" unfolding local_step_def by (intro identity_intros l)
  show "identity.keeps (send_download_ack ev op n)" unfolding send_download_ack_def by (intro identity_intros)
qed

lemma identity_turn: "identity.keeps (download_turn ev info part_file progress fr)"
  unfolding download_turn_def download_chunk_def download_checksum_def Let_def
  by (intro identity_intros identity_failures)

lemma identity_receive_download: "identity.keeps (receive_download ev info part_file progress)"
proof (rule identity.keepsI)
  show "receive_download ev info part_file progress s = (r, t) \<Longrightarrow> same_identity s t" for s r t
  proof (induction ev info part_file progress s arbitrary: r t rule: receive_download.induct)
    case (1 ev info part_file progress s)
    obtain q u where rc: "client_receive ev s = (q, u)" by fastforce
    have su: "same_identity s u" by (rule identity.keepsD [OF identity_receive rc])
    show ?case
    proof (cases q)
      case (Inl e)
      then show ?thesis using "1.prems" rc su by (simp add: receive_download.simps [of ev info])
    next
      case (Inr fr)
      obtain p v where tn: "download_turn ev info part_file progress fr u = (p, v)" by fastforce
      have sv: "same_identity s v" by (rule identity.R_trans [OF su identity.keepsD [OF identity_turn tn]])
      show ?thesis
      proof (cases "\<exists>later. p = Inr (Proceed later)")
        case True
        then obtain later where p: "p = Inr (Proceed later)" ..
        then have "receive_download ev info part_file later v = (r, t)"
          using "1.prems" rc Inr tn by (simp add: receive_download.simps [of ev info])
        from identity.R_trans [OF sv "1.IH" [OF rc [symmetric] Inr tn [symmetric] p refl this]] show ?thesis .
      next
        case False
        then show ?thesis
          using "1.prems" rc Inr tn sv
          by (cases p) (auto simp: receive_download.simps [of ev info] split: flow.splits)
      qed
    qed
  qed
qed

lemma identity_download: "identity.keeps (download_file ev filename destination)"
  unfolding download_file_def download_body_def prepare_part_def hash_part_def resume_offset_def request_download_def
    publish_download_def Let_def
  by (intro identity_intros identity_failures identity_receive_download)

lemma identity_disconnect: "identity.keeps (client_disconnect ev)"
  unfolding client_disconnect_def disconnect_exchange_def by (intro identity_intros)

lemma connect_ok:
  assumes "client_ok s" "client_connect ev socket_factory username s = (r, t)"
  shows "client_ok t"
proof (cases "cl_connected s")
  case True
  then show ?thesis using assms by (simp add: client_connect_def bindS_def readS_def)
next
  case False
  then have out: "\<not> cl_authenticated s" "cl_user_id s = USER_ID" using assms(1) by (auto simp: client_ok_def)
  show ?thesis
  proof (cases r)
    case (Inl e)
    then show ?thesis
      using assms(2) False out
      by (auto simp: client_connect_def bindS_def readS_def updateS_def tryS_def client_ok_def
          split: option.splits sum.splits prod.splits)
  next
    case (Inr u)
    then obtain name login sock where
      "client_handshake ev login (s\<lparr>cl_username := Some name, cl_socket := sock, cl_connected := True\<rparr>) = (Inr (), t)"
      using assms(2) False
      by (auto simp: client_connect_def bindS_def readS_def updateS_def tryS_def
          split: option.splits sum.splits prod.splits)
    from client_handshake_Inr [OF this] show ?thesis using out(1) by (auto simp: client_ok_def MIN_USER_ID_def)
  qed
qed

lemma make_client_ok: "client_ok (make_client username files)"
  by (simp add: client_ok_def make_client_def)

fun is_connect :: "api_call \<Rightarrow> bool" where
  "is_connect (Connect socket_factory username) = True"
| "is_connect _ = False"

lemma identity_call: "\<not> is_connect call \<Longrightarrow> identity.keeps (api_action ev call)"
  by (cases call) (simp_all add: api_list_files_def api_upload_file_def api_download_file_def require_authenticated_def,
    (intro identity_intros identity_list identity_upload identity_download identity_disconnect)+)

lemma api_action_ok:
  assumes "client_ok s" "api_action ev call s = (r, t)"
  shows "client_ok t"
proof (cases "is_connect call")
  case True
  then obtain socket_factory username where "call = Connect socket_factory username" by (cases call) auto
  then show ?thesis
    using assms connect_ok [OF assms(1)] by (auto simp: bindS_def split: prod.splits sum.splits)
next
  case False
  then show ?thesis using identity.keepsD [OF identity_call assms(2)] assms(1) by (simp add: same_identity_def)
qed

lemma api_session_ok: "client_ok s \<Longrightarrow> client_ok (api_session ev calls s)"
  by (induction calls arbitrary: s) (simp, metis api_action_ok api_session.simps(2) prod.collapse)

fun is_transfer :: "api_call \<Rightarrow> bool" where
  "is_transfer ListFiles = True"
| "is_transfer (UploadFile source remote_filename) = True"
| "is_transfer (DownloadFile filename destination) = True"
| "is_transfer _ = False"

lemma transfer_refused:
  "is_transfer call \<Longrightarrow> \<not> cl_authenticated s \<Longrightarrow>
     api_action ev call s = (Inl (SessionError (lit ''client must be connected and authenticated'')), s)"
  by (cases call) (simp_all add: api_list_files_def api_upload_file_def api_download_file_def require_authenticated_def
      bindS_def readS_def)

text \<open>
  C24. The client's session is well typed after any calls, in any order, whatever they raise: it is
  closed, with user number 0, or connected, authenticated, named and numbered between 1 and
  65535.  Only \<open>connect\<close> gives an identity: any other call keeps user name and number or closes
  the session.  A transfer on a session that is not logged in does nothing but raise \<open>SessionError\<close>.
\<close>

theorem client_state_typed:
  assumes "s = api_session ev calls (make_client username files)" and "api_action ev call s = (r, t)"
  shows "client_ok t
    \<and> (\<not> is_connect call \<and> cl_authenticated t \<longrightarrow>
         cl_authenticated s \<and> cl_user_id t = cl_user_id s \<and> cl_username t = cl_username s)
    \<and> (is_transfer call \<and> \<not> cl_authenticated s \<longrightarrow>
         t = s \<and> r = Inl (SessionError (lit ''client must be connected and authenticated'')))"
proof -
  have s: "client_ok s" unfolding assms(1) by (rule api_session_ok [OF make_client_ok])
  have "\<not> is_connect call \<Longrightarrow> same_identity s t" by (rule identity.keepsD [OF identity_call assms(2)])
  then show ?thesis
    using api_action_ok [OF s assms(2)] s assms(2) transfer_refused [of call s ev] by (auto simp: same_identity_def)
qed

theorem client_state_typed_witness:
  "\<exists>t. api_action example_environment (Connect (Inr accepting_server) None) (make_client (Some [97]) example_files) = (Inr Done, t)
     \<and> client_ok t \<and> cl_authenticated t"
proof -
  obtain t where t: "api_action example_environment (Connect (Inr accepting_server) None)
      (make_client (Some [97]) example_files) = (Inr Done, t)"
    using accepted_login by (auto simp: bindS_def)
  have "cl_connected t"
    using t by (auto simp: client_connect_def bindS_def readS_def updateS_def tryS_def make_client_def
        dest!: client_handshake_Inr split: option.splits sum.splits prod.splits)
  with client_state_typed [OF _ t, of "[]"] t show ?thesis by (auto simp: client_ok_def)
qed

end
