(* ===== verification/Commands.thy ===== *)
theory Commands
  imports Protocol
begin

section \<open>The command line of the client\<close>

text \<open>
  \<open>src/hcmus_socket/client/commands.py\<close>.  A line is split by the standard library's
  \<open>shlex.split(line, posix=True)\<close>, given here as the automaton of \<open>shlex.read_token\<close> with the
  settings \<open>split\<close> makes (\<open>whitespace_split\<close>, no comments, both quotes, backslash).
\<close>

subsection \<open>\<open>shlex.split\<close>\<close>

text \<open>The lexer's \<open>state\<close>: between tokens, in a word, in a quotation, after a backslash (and in which of them).\<close>

datatype lex_state = Blank | InWord | Quoted nat | Escaped "nat option"

definition is_blank :: "nat \<Rightarrow> bool" where
  "is_blank c \<longleftrightarrow> c \<in> {32, 9, 13, 10}"

definition is_quote :: "nat \<Rightarrow> bool" where
  "is_quote c \<longleftrightarrow> c = 39 \<or> c = 34"

fun lex :: "lex_state \<Rightarrow> pystr \<Rightarrow> bool \<Rightarrow> pystr \<Rightarrow> exc + pystr list" where
  "lex Blank token quoted [] = Inr []"
| "lex Blank token quoted (c # cs) =
     (if is_blank c then lex Blank token quoted cs
      else if c = 92 then lex (Escaped None) token quoted cs
      else if is_quote c then lex (Quoted c) token quoted cs
      else lex InWord [c] quoted cs)"
| "lex (Quoted q) token quoted [] = Inl (ValueError (lit ''No closing quotation''))"
| "lex (Quoted q) token quoted (c # cs) =
     (if c = q then lex InWord token True cs
      else if c = 92 \<and> q = 34 then lex (Escaped (Some q)) token True cs
      else lex (Quoted q) (token @ [c]) True cs)"
| "lex (Escaped origin) token quoted [] = Inl (ValueError (lit ''No escaped character''))"
| "lex (Escaped None) token quoted (c # cs) = lex InWord (token @ [c]) quoted cs"
| "lex (Escaped (Some q)) token quoted (c # cs) =
     lex (Quoted q) (if c \<noteq> 92 \<and> c \<noteq> q then token @ [92, c] else token @ [c]) quoted cs"
| "lex InWord token quoted [] = Inr (if token = [] \<and> \<not> quoted then [] else [token])"
| "lex InWord token quoted (c # cs) =
     (if is_blank c then
        if token \<noteq> [] \<or> quoted then bindE (lex Blank [] False cs) (\<lambda>tokens. Inr (token # tokens))
        else lex Blank token quoted cs
      else if is_quote c then lex (Quoted c) token quoted cs
      else if c = 92 then lex (Escaped None) token quoted cs
      else lex InWord (token @ [c]) quoted cs)"

definition shlex_split :: "pystr \<Rightarrow> exc + pystr list" where
  "shlex_split line = lex Blank [] False line"

subsection \<open>\<open>str.upper\<close>\<close>

text \<open>
  The characters whose upper case is ASCII.  Any other yields at least one character that is not,
  which is all that matters to the comparison with the ASCII names of the commands.
\<close>

definition upper_char :: "nat \<Rightarrow> pystr" where
  "upper_char c =
     (if 97 \<le> c \<and> c \<le> 122 then [c - 32]
      else if c = 0x131 then lit ''I''
      else if c = 0x17F then lit ''S''
      else if c = 0xDF then lit ''SS''
      else if c = 0xFB00 then lit ''FF''
      else if c = 0xFB01 then lit ''FI''
      else if c = 0xFB02 then lit ''FL''
      else if c = 0xFB03 then lit ''FFI''
      else if c = 0xFB04 then lit ''FFL''
      else if c = 0xFB05 \<or> c = 0xFB06 then lit ''ST''
      else [c])"

definition str_upper :: "pystr \<Rightarrow> pystr" where
  "str_upper t = concat (map upper_char t)"

subsection \<open>Commands\<close>

datatype command_name = LIST | UPLOAD | DOWNLOAD | QUIT

fun command_value :: "command_name \<Rightarrow> pystr" where
  "command_value LIST = lit ''LIST''"
| "command_value UPLOAD = lit ''UPLOAD''"
| "command_value DOWNLOAD = lit ''DOWNLOAD''"
| "command_value QUIT = lit ''QUIT''"

record command =
  cm_name :: command_name
  cm_filename :: "pystr option"

text \<open>\<open>CommandName(verb)\<close>; \<open>None\<close> is the \<open>ValueError\<close>.\<close>

definition command_of :: "pystr \<Rightarrow> command_name option" where
  "command_of verb = List.find (\<lambda>name. command_value name = verb) [LIST, UPLOAD, DOWNLOAD, QUIT]"

fun is_value_error :: "exc \<Rightarrow> bool" where
  "is_value_error (ValueError _) = True"
| "is_value_error (CommandSyntaxError _) = True"
| "is_value_error _ = False"

definition parse_parts :: "pystr list \<Rightarrow> exc + command" where
  "parse_parts parts =
     (case parts of
        [] \<Rightarrow> Inl (CommandSyntaxError (lit ''command must not be empty''))
      | first # arguments \<Rightarrow>
          (case command_of (str_upper first) of
             None \<Rightarrow> Inl (CommandSyntaxError
               (lit ''unknown command; use LIST, UPLOAD <filename>, or DOWNLOAD <filename>''))
           | Some name \<Rightarrow>
               if name \<in> {LIST, QUIT} then
                 if arguments \<noteq> [] then Inl (CommandSyntaxError (command_value name @ lit '' does not accept arguments''))
                 else Inr \<lparr>cm_name = name, cm_filename = None\<rparr>
               else if length arguments \<noteq> 1 then
                 Inl (CommandSyntaxError (lit ''usage: '' @ command_value name @ lit '' <filename>''))
               else Inr \<lparr>cm_name = name, cm_filename = Some (arguments ! 0)\<rparr>))"

definition parse_command :: "pystr \<Rightarrow> exc + command" where
  "parse_command line =
     (case shlex_split line of
        Inl e \<Rightarrow> Inl (if is_value_error e then CommandSyntaxError (lit ''invalid quoting: '' @ exc_text e) else e)
      | Inr parts \<Rightarrow> parse_parts parts)"

subsection \<open>Every line parses or is a syntax error\<close>

lemma lex_error: "lex st token quoted line = Inl e \<Longrightarrow> is_value_error e"
  by (induction st token quoted line rule: lex.induct) (auto simp: result_simps split: if_splits)

lemma parse_command_error: "parse_command line = Inl e \<Longrightarrow> \<exists>t. e = CommandSyntaxError t"
  by (auto simp: parse_command_def shlex_split_def parse_parts_def dest: lex_error split: sum.splits list.splits option.splits if_splits)

lemma parse_command_filename:
  "parse_command line = Inr c \<Longrightarrow> cm_filename c = None \<longleftrightarrow> cm_name c \<in> {LIST, QUIT}"
  by (auto simp: parse_command_def parse_parts_def split: sum.splits list.splits option.splits if_splits)

subsection \<open>Quoted names come through\<close>

text \<open>How a name is quoted for such a line (\<open>shlex.quote\<close>): in single quotes, each single quote in double ones.\<close>

fun quote_inner :: "pystr \<Rightarrow> pystr" where
  "quote_inner [] = []"
| "quote_inner (c # cs) = (if c = 39 then [39, 34, 39, 34, 39] else [c]) @ quote_inner cs"

definition quote_name :: "pystr \<Rightarrow> pystr" where
  "quote_name name = [39] @ quote_inner name @ [39]"

lemma lex_quoted: "lex (Quoted 39) token quoted (quote_inner name @ 39 # rest) = lex InWord (token @ name) True rest"
proof (induction name arbitrary: token quoted)
  case (Cons c cs)
  then show ?case by (auto simp: is_blank_def is_quote_def)
qed simp

lemma lex_word: "(\<And>c. c \<in> set w \<Longrightarrow> \<not> is_blank c \<and> \<not> is_quote c \<and> c \<noteq> 92) \<Longrightarrow>
    lex InWord token quoted (w @ rest) = lex InWord (token @ w) quoted rest"
  by (induction w arbitrary: token) auto

definition plain_char :: "nat \<Rightarrow> bool" where
  "plain_char c \<longleftrightarrow> \<not> is_blank c \<and> \<not> is_quote c \<and> c \<noteq> 92"

lemma lex_blanks: "list_all is_blank bs \<Longrightarrow> lex Blank [] False (bs @ rest) = lex Blank [] False rest"
  by (induction bs) auto

lemma split_quoted:
  assumes "verb \<noteq> []" "list_all plain_char verb" "list_all is_blank before" "list_all is_blank between" "between \<noteq> []"
    "list_all is_blank after"
  shows "shlex_split (before @ verb @ between @ quote_name name @ after) = Inr [verb, name]"
proof -
  obtain v vs where v: "verb = v # vs" "plain_char v" "list_all plain_char vs" using assms(1,2) by (cases verb) auto
  obtain b bs where b: "between = b # bs" "is_blank b" "list_all is_blank bs" using assms(4,5) by (cases between) auto
  have tail: "lex InWord name True after = Inr [name]"
    using assms(6) lex_blanks [of "tl after" "[]"] by (cases after) auto
  have "lex Blank [] False (quote_name name @ after) = Inr [name]"
    using lex_quoted [of "[]" False name after] tail by (simp add: quote_name_def is_blank_def is_quote_def)
  then have "lex Blank [] False (bs @ quote_name name @ after) = Inr [name]"
    using lex_blanks [OF b(3)] by simp
  moreover have "lex InWord [v] False (vs @ b # bs @ quote_name name @ after)
      = lex InWord (v # vs) False (b # bs @ quote_name name @ after)"
    using lex_word [of vs "[v]" False] v(3) by (simp add: list_all_iff plain_char_def)
  ultimately show ?thesis
    using v b assms(3) by (simp add: shlex_split_def lex_blanks plain_char_def)
qed

lemma upper_letters:
  assumes "\<forall>c \<in> set (str_upper verb). 65 \<le> c \<and> c \<le> 90"
  shows "list_all plain_char verb"
proof -
  have "plain_char c" if "c \<in> set verb" for c
  proof -
    have "\<forall>d \<in> set (upper_char c). 65 \<le> d \<and> d \<le> 90" using assms that by (auto simp: str_upper_def)
    then show ?thesis by (auto simp: upper_char_def plain_char_def is_blank_def is_quote_def split: if_splits)
  qed
  then show ?thesis by (simp add: list_all_iff)
qed

lemma command_of_value: "command_of (command_value name) = Some name"
  by (cases name) (simp_all add: command_of_def lit_def)

text \<open>
  Any filename can be typed: in a line made of \<open>UPLOAD\<close> or \<open>DOWNLOAD\<close> in any letter case,
  blanks, and the filename quoted the shell's way, \<open>parse_command\<close> finds that command and exactly
  that filename (with blanks, quotes, backslashes or a line feed in it, or empty).  And no line
  does anything but parse or raise \<open>CommandSyntaxError\<close>, a parsed command having a filename
  precisely when it is one of those two.
\<close>

theorem quoted_filename_parses:
  assumes "name = UPLOAD \<or> name = DOWNLOAD" and "str_upper verb = command_value name"
    and "list_all is_blank before" and "list_all is_blank between" and "between \<noteq> []" and "list_all is_blank after"
  shows "parse_command (before @ verb @ between @ quote_name filename @ after) = Inr \<lparr>cm_name = name, cm_filename = Some filename\<rparr>
    \<and> (case parse_command line of
         Inl e \<Rightarrow> \<exists>t. e = CommandSyntaxError t
       | Inr c \<Rightarrow> cm_filename c = None \<longleftrightarrow> cm_name c \<in> {LIST, QUIT})"
proof -
  have "\<forall>c \<in> set (command_value name). 65 \<le> c \<and> c \<le> 90" "command_value name \<noteq> []"
    using assms(1) by (auto simp: lit_def)
  with assms(2) have "list_all plain_char verb" "str_upper verb \<noteq> []"
    using upper_letters [of verb] by simp_all
  then have verb: "list_all plain_char verb" "verb \<noteq> []" by (auto simp: str_upper_def)
  have "shlex_split (before @ verb @ between @ quote_name filename @ after) = Inr [verb, filename]"
    by (rule split_quoted [OF verb(2,1) assms(3-6)])
  then have "parse_command (before @ verb @ between @ quote_name filename @ after) = Inr \<lparr>cm_name = name, cm_filename = Some filename\<rparr>"
    using assms(1,2) command_of_value [of name] by (auto simp: parse_command_def parse_parts_def)
  then show ?thesis
    using parse_command_error [of line] parse_command_filename [of line] by (auto split: sum.split)
qed

theorem quoted_filename_parses_witness:
  "parse_command (lit ''upLoad '' @ [39, 97, 32, 39, 34, 39, 34, 39, 98, 39, 10])
     = Inr \<lparr>cm_name = UPLOAD, cm_filename = Some [97, 32, 39, 98]\<rparr>"
proof -
  have "str_upper (lit ''upLoad'') = command_value UPLOAD" by (simp add: str_upper_def upper_char_def lit_def)
  from quoted_filename_parses [OF _ this, of "[]" "[32]" "[10]" "[97, 32, 39, 98]"]
  show ?thesis by (simp add: is_blank_def quote_name_def lit_def)
qed

end
