(* ===== verification/ClientApp.thy ===== *)
theory ClientApp
  imports ClientApi Commands
begin

section \<open>The interactive client\<close>

text \<open>
  \<open>src/hcmus_socket/client/app.py\<close>.  The record holds the session and what was printed on the
  two streams, one entry for each \<open>print\<close>; the lines that \<open>readline\<close> returns are the argument of
  \<open>run_cli\<close>, an empty one standing for the end of the input.  Relative paths start at \<open>cwd\<close>; paths
  are printed in absolute form.  The lines of the progress callbacks are left out, as the
  callbacks are.
\<close>

record cli =
  ci_client :: client
  ci_output :: "pystr list"
  ci_errors :: "pystr list"

type_synonym 'a cli_action = "(exc, cli, 'a) action"

definition on_client :: "'a client_action \<Rightarrow> 'a cli_action" where
  "on_client = partS ci_client (\<lambda>x s. s\<lparr>ci_client := x\<rparr>)"

definition print_text :: "pystr \<Rightarrow> unit cli_action" where
  "print_text text = updateS (\<lambda>s. s\<lparr>ci_output := ci_output s @ [text]\<rparr>)"

definition print_error :: "pystr \<Rightarrow> unit cli_action" where
  "print_error text = updateS (\<lambda>s. s\<lparr>ci_errors := ci_errors s @ [text]\<rparr>)"

subsection \<open>Handlers\<close>

text \<open>The format specifications \<open><n\<close> and \<open>>n\<close>\<close>

definition pad_right :: "nat \<Rightarrow> pystr \<Rightarrow> pystr" where
  "pad_right n t = t @ replicate (n - length t) 32"

definition pad_left :: "nat \<Rightarrow> pystr \<Rightarrow> pystr" where
  "pad_left n t = replicate (n - length t) 32 @ t"

definition entry_line :: "file_entry \<Rightarrow> pystr" where
  "entry_line entry =
     pad_right 30 (fe_filename entry) @ lit '' '' @ pad_left 12 (dec_int (fe_file_size entry)) @ lit '' bytes'' @ [10]"

fun print_entries :: "file_entry list \<Rightarrow> unit cli_action" where
  "print_entries [] = returnS ()"
| "print_entries (entry # entries) = bindS (print_text (entry_line entry)) (\<lambda>_. print_entries entries)"

definition handle_list :: "environment \<Rightarrow> command \<Rightarrow> unit cli_action" where
  "handle_list ev command =
     (if cm_filename command \<noteq> None then raiseS (CommandSyntaxError (lit ''LIST does not accept arguments''))
      else
        bindS (on_client (list_files ev)) (\<lambda>entries.
        if entries = [] then print_text (lit ''No files available.'' @ [10]) else print_entries entries))"

definition cli_download :: "environment \<Rightarrow> command \<Rightarrow> unit cli_action" where
  "cli_download ev command =
     (case cm_filename command of
        None \<Rightarrow> raiseS (CommandSyntaxError (lit ''usage: DOWNLOAD <filename>''))
      | Some filename \<Rightarrow>
          bindS (on_client (download_file ev filename None)) (\<lambda>result.
          print_text ([10] @ lit ''Downloaded '' @ path_text (cd_path result) @ lit '' (''
            @ dec_int (cd_bytes_received result) @ lit '' bytes, SHA-256 matched)'' @ [10])))"

definition cli_upload :: "environment \<Rightarrow> path \<Rightarrow> command \<Rightarrow> unit cli_action" where
  "cli_upload ev cwd command =
     (case cm_filename command of
        None \<Rightarrow> raiseS (CommandSyntaxError (lit ''usage: UPLOAD <filename>''))
      | Some source \<Rightarrow>
          bindS (on_client (upload_file ev (to_path cwd source) (Some (path_name (to_path [] source))))) (\<lambda>result.
          print_text ([10] @ lit ''Uploaded '' @ cu_remote_filename result @ lit '' (''
            @ dec_int (cu_bytes_sent result) @ lit '' bytes, SHA-256 matched)'' @ [10])))"

text \<open>The mapping that \<open>main\<close> passes.\<close>

definition main_handlers :: "environment \<Rightarrow> path \<Rightarrow> command_name \<Rightarrow> (command \<Rightarrow> unit cli_action) option" where
  "main_handlers ev cwd name =
     (case name of
        LIST \<Rightarrow> Some (handle_list ev)
      | UPLOAD \<Rightarrow> Some (cli_upload ev cwd)
      | DOWNLOAD \<Rightarrow> Some (cli_download ev)
      | QUIT \<Rightarrow> None)"

subsection \<open>The command loop\<close>

text \<open>What one line does; the value tells whether to go on.\<close>

definition run_line ::
  "(command_name \<Rightarrow> (command \<Rightarrow> unit cli_action) option) \<Rightarrow> pystr \<Rightarrow> bool cli_action" where
  "run_line handlers line =
     (case parse_command line of
        Inl error \<Rightarrow> bindS (print_error (lit ''Command error: '' @ exc_text error @ [10])) (\<lambda>_. returnS True)
      | Inr command \<Rightarrow>
          if cm_name command = QUIT then returnS False
          else
            (case handlers (cm_name command) of
               None \<Rightarrow>
                 bindS (print_error (command_value (cm_name command) @ lit '' handler is not integrated yet'' @ [10])) (\<lambda>_.
                 returnS True)
             | Some handler \<Rightarrow>
                 tryS (bindS (handler command) (\<lambda>_. returnS True))
                   (\<lambda>error.
                      let message = command_value (cm_name command) @ lit '' failed: '' @ exc_text error @ [10] in
                      if is_connection_error error \<or> is_timeout_error error then
                        bindS (print_error message) (\<lambda>_. returnS False)
                      else if is_os_error error \<or> is_protocol_error error then
                        bindS (print_error message) (\<lambda>_. returnS True)
                      else raiseS error)))"

fun command_loop ::
  "(command_name \<Rightarrow> (command \<Rightarrow> unit cli_action) option) \<Rightarrow> pystr list \<Rightarrow> unit cli_action" where
  "command_loop handlers [] = print_text (lit ''> '')"
| "command_loop handlers (line # lines) =
     bindS (print_text (lit ''> '')) (\<lambda>_.
     if line = [] then returnS ()
     else bindS (run_line handlers line) (\<lambda>again. if again then command_loop handlers lines else returnS ()))"

definition run_cli ::
  "(command_name \<Rightarrow> (command \<Rightarrow> unit cli_action) option) \<Rightarrow> pystr list \<Rightarrow> unit cli_action" where
  "run_cli handlers lines =
     bindS (print_text (lit ''Commands: LIST, UPLOAD <filename>, DOWNLOAD <filename>'' @ [10])) (\<lambda>_.
     command_loop handlers lines)"

subsection \<open>\<open>main\<close>\<close>

definition connected_message :: "environment \<Rightarrow> client \<Rightarrow> pystr" where
  "connected_message ev s =
     lit ''Connected to '' @ cc_server_address (cf_client (ev_config ev)) @ lit '':''
     @ dec_int (cc_server_port (cf_client (ev_config ev))) @ lit '' as ''
     @ (case cl_username s of None \<Rightarrow> lit ''None'' | Some name \<Rightarrow> name)
     @ lit '' (user ID '' @ dec_int (cl_user_id s) @ lit '')'' @ [10]"

text \<open>The body of the outer \<open>try\<close>, once the configuration is loaded and the session made.\<close>

definition cli_session :: "environment \<Rightarrow> path \<Rightarrow> exc + sock \<Rightarrow> pystr list \<Rightarrow> int cli_action" where
  "cli_session ev cwd socket_factory lines =
     bindS (on_client (client_connect ev socket_factory None)) (\<lambda>_.
     bindS
       (finallyS
         (bindS (readS ci_client) (\<lambda>s.
          bindS (print_text (connected_message ev s)) (\<lambda>_.
          bindS (run_cli (main_handlers ev cwd) lines) (\<lambda>_.
          on_client (client_disconnect ev)))))
         (on_client client_close)) (\<lambda>_.
     returnS 0))"

definition is_config_error :: "exc \<Rightarrow> bool" where
  "is_config_error e = (case e of ConfigError _ \<Rightarrow> True | _ \<Rightarrow> False)"

definition client_main ::
  "exc + environment \<Rightarrow> path \<Rightarrow> exc + sock \<Rightarrow> pystr list \<Rightarrow> int cli_action" where
  "client_main loaded cwd socket_factory lines =
     tryS (bindS (liftS loaded) (\<lambda>ev. cli_session ev cwd socket_factory lines))
       (\<lambda>error.
          if is_config_error error \<or> is_os_error error \<or> is_protocol_error error then
            bindS (print_error (lit ''Client error: '' @ exc_text error @ [10])) (\<lambda>_. returnS 1)
          else raiseS error)"

text \<open>The state in which \<open>main\<close> makes its session.\<close>

definition cli_start :: "pystr \<Rightarrow> file_system \<Rightarrow> cli" where
  "cli_start username files = \<lparr>ci_client = make_client (Some username) files, ci_output = [], ci_errors = []\<rparr>"

end
