(* ===== verification/ClientAppSafety.thy ===== *)
theory ClientAppSafety
  imports ClientApp
begin

section \<open>What the interactive client guarantees\<close>

subsection \<open>A session that breaks is reported as broken\<close>

text \<open>
  Errors that end the session: connection errors, and the \<open>AttributeError\<close> of
  \<open>failed_opcode_name\<close>.  Code \<open>reports\<close> if, from an authenticated session, it can only end with
  another error, or none, when the session still is authenticated.
\<close>

fun is_attribute_error :: "exc \<Rightarrow> bool" where
  "is_attribute_error (AttributeError _) = True"
| "is_attribute_error _ = False"

definition ends_session :: "exc \<Rightarrow> bool" where
  "ends_session e \<longleftrightarrow> is_connection_error e \<or> is_attribute_error e"

definition reported :: "exc + 'a \<Rightarrow> client \<Rightarrow> bool" where
  "reported r t \<longleftrightarrow> cl_authenticated t \<or> (\<exists>e. r = Inl e \<and> ends_session e)"

definition reports :: "'a client_action \<Rightarrow> bool" where
  "reports a \<longleftrightarrow> (\<forall>s r t. cl_authenticated s \<longrightarrow> a s = (r, t) \<longrightarrow> reported r t)"

definition always_ends :: "'a client_action \<Rightarrow> bool" where
  "always_ends a \<longleftrightarrow> (\<forall>s. \<exists>e t. a s = (Inl e, t) \<and> ends_session e)"

lemma ends_session_simps [simp]: "ends_session (SessionError m)" "ends_session (AttributeError m)"
  "\<not> ends_session (protocol_error code m)"
  by (simp_all add: ends_session_def)

lemma reportsI: "(\<And>s r t. cl_authenticated s \<Longrightarrow> a s = (r, t) \<Longrightarrow> reported r t) \<Longrightarrow> reports a"
  by (simp add: reports_def)

lemma reportsD: "reports a \<Longrightarrow> cl_authenticated s \<Longrightarrow> a s = (r, t) \<Longrightarrow> reported r t"
  by (simp add: reports_def)

lemma reported_Inr [simp]: "reported (Inr v) t \<longleftrightarrow> cl_authenticated t"
  by (simp add: reported_def)

lemma reported_Inl: "reported (Inl e) t \<longleftrightarrow> cl_authenticated t \<or> ends_session e"
  by (auto simp: reported_def)

lemma reports_basic: "reports (returnS v)" "reports (raiseS e)" "reports (liftS r)" "reports (readS f)"
  by (auto simp: reports_def readS_def reported_def)

lemma reports_files: "reports (on_client_files act)"
  by (rule reportsI) (auto simp: on_client_files_apply reported_def split: prod.splits)

lemma reports_ends: "always_ends a \<Longrightarrow> reports a"
  unfolding always_ends_def reports_def reported_def by (metis prod.inject)

lemma always_close_raise: "ends_session e \<Longrightarrow> always_ends (close_raise e)"
  by (simp add: always_ends_def)

lemma always_raise: "ends_session e \<Longrightarrow> always_ends (raiseS e)"
  by (simp add: always_ends_def)

lemma reports_bind:
  assumes "reports m" "\<And>v. reports (f v)"
  shows "reports (bindS m f)"
proof (rule reportsI)
  fix s r t
  assume s: "cl_authenticated s" and run: "bindS m f s = (r, t)"
  obtain q u where m: "m s = (q, u)" by fastforce
  from reportsD [OF assms(1) s m] have u: "reported q u" .
  show "reported r t"
  proof (cases q)
    case (Inl e)
    then show ?thesis using run m u by (auto simp: bindS_def reported_Inl)
  next
    case (Inr v)
    then show ?thesis using run m u reportsD [OF assms(2), of u v r t] by (simp add: bindS_def)
  qed
qed

lemma reports_try:
  assumes "reports m" "\<And>e. reports (h e)" "\<And>e. ends_session e \<Longrightarrow> always_ends (h e)"
  shows "reports (tryS m h)"
proof (rule reportsI)
  fix s r t
  assume s: "cl_authenticated s" and run: "tryS m h s = (r, t)"
  obtain q u where m: "m s = (q, u)" by fastforce
  from reportsD [OF assms(1) s m] have u: "reported q u" .
  show "reported r t"
  proof (cases q)
    case (Inl e)
    then have h: "h e u = (r, t)" using run m by (simp add: tryS_def)
    show ?thesis
    proof (cases "ends_session e")
      case True
      then obtain e' t' where "h e u = (Inl e', t')" "ends_session e'"
        using assms(3) unfolding always_ends_def by blast
      then show ?thesis using h by (simp add: reported_def)
    next
      case False
      then show ?thesis using u Inl reportsD [OF assms(2) _ h] by (simp add: reported_Inl)
    qed
  next
    case (Inr v)
    then show ?thesis using run m u by (auto simp: tryS_def)
  qed
qed

text \<open>Local file operations never end the session.\<close>

lemma reports_try_files:
  assumes "\<And>e. reports (h e)"
  shows "reports (tryS (on_client_files act) h)"
proof (rule reportsI)
  fix s r t
  assume s: "cl_authenticated s" and run: "tryS (on_client_files act) h s = (r, t)"
  obtain q fs where "act (cl_files s) = (q, fs)" by fastforce
  then show "reported r t"
    using run s reportsD [OF assms, of "s\<lparr>cl_files := fs\<rparr>" _ r t]
    by (cases q) (auto simp: tryS_def on_client_files_apply)
qed

lemma reports_if: "(c \<Longrightarrow> reports a) \<Longrightarrow> (\<not> c \<Longrightarrow> reports b) \<Longrightarrow> reports (if c then a else b)"
  by simp

lemma reports_option: "reports a \<Longrightarrow> (\<And>v. reports (f v)) \<Longrightarrow> reports (case x of None \<Rightarrow> a | Some v \<Rightarrow> f v)"
  by (cases x) simp_all

lemma reports_prod: "(\<And>x y. reports (f x y)) \<Longrightarrow> reports (case p of (x, y) \<Rightarrow> f x y)"
  by (cases p) simp

lemma reports_close_raise: "ends_session e \<Longrightarrow> reports (close_raise e)"
  by (intro reports_ends always_close_raise)

lemma reports_with_socket: "reports (with_socket act)"
  by (rule reportsI) (auto simp: with_socket_def bindS_def readS_def partS_def reported_def split: prod.splits if_splits)

lemma os_error_kept: "ends_session e \<Longrightarrow> is_os_error e \<or> is_attribute_error e"
  by (cases e) (auto simp: ends_session_def)

lemma reports_send: "reports (client_send ev fr)"
  unfolding client_send_def
  by (intro reports_try reports_bind reports_basic reports_with_socket)
    (auto intro: reports_close_raise reports_basic always_close_raise always_raise)

lemma reports_receive: "reports (client_receive ev)"
proof (rule reportsI)
  fix s r t
  assume s: "cl_authenticated s" and run: "client_receive ev s = (r, t)"
  have keep: "u = v" if "validate_incoming_user_id ev fr v = (q, u)" "cl_authenticated v" for fr v q u
    using validate_incoming_kept [OF that(2), of ev fr] that by simp
  show "reported r t"
    using s run
    by (auto simp: client_receive_def tryS_def bindS_def with_socket_def readS_def partS_def reported_def
        split: prod.splits sum.splits if_splits option.splits dest!: keep)
qed

lemmas reports_intros = reports_bind reports_basic reports_files reports_try_files reports_if reports_option reports_prod
  reports_close_raise reports_send reports_receive

subsection \<open>The operations\<close>

lemma reports_list: "reports (list_files ev)"
  unfolding list_files_def by (intro reports_intros)

lemma reports_wrong_error:
  "reports (bindS client_close (\<lambda>_. bindS (liftS (failed_opcode_name op)) (\<lambda>name. raiseS (SessionError (f name)))))"
proof (rule reports_ends)
  show "always_ends (bindS client_close (\<lambda>_. bindS (liftS (failed_opcode_name op)) (\<lambda>name. raiseS (SessionError (f name)))))"
    by (cases op) (simp_all add: always_ends_def bindS_def client_close_def updateS_def)
qed

lemma reports_expect_ack: "reports (expect_ack ev op n)"
  unfolding expect_ack_def abort_protocol_def by (intro reports_intros reports_wrong_error) simp_all

lemma reports_hash_prefix: "reports (hash_prefix ev source remaining hashed)"
proof (rule reportsI)
  show "cl_authenticated s \<Longrightarrow> hash_prefix ev source remaining hashed s = (r, t) \<Longrightarrow> reported r t" for s r t
  proof (induction ev source remaining hashed s arbitrary: r t rule: hash_prefix.induct)
    case (1 ev source remaining hashed s)
    let ?n = "min remaining (nat (chunk_size ev))"
    obtain q u where rd: "on_client_files (read_handle source (length hashed) ?n) s = (q, u)" by fastforce
    then have u: "cl_authenticated u" using "1.prems"(1) by (auto simp: on_client_files_apply split: prod.splits)
    consider "remaining = 0" | e where "remaining \<noteq> 0" "q = Inl e"
      | data where "remaining \<noteq> 0" "q = Inr data" "data = [] \<or> length data \<noteq> ?n"
      | data where "remaining \<noteq> 0" "q = Inr data" "\<not> (data = [] \<or> length data \<noteq> ?n)" by (cases q) auto
    then show ?case
    proof cases
      case 1
      then show ?thesis using "1.prems" by (auto simp: hash_prefix.simps [of ev source 0])
    next
      case 2
      then show ?thesis using "1.prems" rd u by (auto simp: hash_prefix.simps [of ev source remaining] reported_def)
    next
      case 3
      then show ?thesis
        using "1.prems" rd by (auto simp: hash_prefix.simps [of ev source remaining] Let_def reported_def)
    next
      case 4
      then have "hash_prefix ev source (remaining - length data) (hashed @ data) u = (r, t)"
        using "1.prems" rd by (simp add: hash_prefix.simps [of ev source remaining] Let_def)
      from "1.IH" [OF 4(1) refl rd [unfolded 4(2), symmetric] refl 4(3) u this] show ?thesis .
    qed
  qed
qed

lemma reports_send_chunk: "reports (send_chunk ev sent data)"
  unfolding send_chunk_def by (intro reports_intros)

lemma reports_send_chunks: "reports (send_chunks ev source total_size sent hashed)"
proof (rule reportsI)
  show "cl_authenticated s \<Longrightarrow> send_chunks ev source total_size sent hashed s = (r, t) \<Longrightarrow> reported r t" for s r t
  proof (induction ev source total_size sent hashed s arbitrary: r t rule: send_chunks.induct)
    case (1 ev source total_size sent hashed s)
    obtain q u where rd: "on_client_files (read_handle source (nat sent) (nat (chunk_size ev))) s = (q, u)" by fastforce
    then have u: "cl_authenticated u" using "1.prems"(1) by (auto simp: on_client_files_apply split: prod.splits)
    consider e where "q = Inl e" | "q = Inr []" | b bs where "q = Inr (b # bs)" "sent + int (length (b # bs)) > total_size"
      | b bs where "q = Inr (b # bs)" "\<not> sent + int (length (b # bs)) > total_size"
      by (cases q; cases "projr q") auto
    then show ?case
    proof cases
      case 4
      obtain p v where sc: "send_chunk ev sent (b # bs) u = (p, v)" by fastforce
      from reportsD [OF reports_send_chunk u sc] have v: "reported p v" .
      show ?thesis
      proof (cases p)
        case (Inl e)
        then show ?thesis using "1.prems" rd 4 sc v by (auto simp: send_chunks.simps [of ev source total_size] reported_Inl)
      next
        case (Inr x)
        then have "send_chunks ev source total_size (sent + int (length (b # bs))) (hashed @ b # bs) v = (r, t)"
          using "1.prems" rd 4 sc by (simp add: send_chunks.simps [of ev source total_size])
        moreover have "cl_authenticated v" using v Inr by simp
        ultimately show ?thesis using "1.IH" [OF rd [symmetric] 4(1) refl 4(2) sc [symmetric] Inr] by simp
      qed
    qed (use "1.prems" rd u in \<open>auto simp: send_chunks.simps [of ev source total_size] reported_def\<close>)
  qed
qed

lemma reports_upload: "reports (upload_file ev source remote_filename)"
  unfolding upload_file_def upload_stream_def Let_def
  by (intro reports_intros reports_try reports_expect_ack reports_hash_prefix reports_send_chunks)
    (auto intro: reports_close_raise reports_basic always_close_raise always_raise)

lemma reports_failures: "reports (remove_stale_part p)" "reports (raise_remote_error ev fr)"
  "reports (send_failure ev op code message)" "reports (refuse ev op code message)"
  "reports (raise_local_failure ev op e fatal)" "reports (local_step ev op fatal act)"
  "reports (send_download_ack ev op n)"
proof -
  show r: "reports (remove_stale_part p)" "reports (raise_remote_error ev fr)" for p fr
    unfolding remove_stale_part_def raise_remote_error_def by (intro reports_intros)+
  show f: "reports (send_failure ev op code message)" for op code message
    unfolding send_failure_def by (intro reports_intros)
  show "reports (refuse ev op code message)" unfolding refuse_def by (intro reports_intros f)
  show l: "reports (raise_local_failure ev op e fatal)" for e
    unfolding raise_local_failure_def Let_def
    by (intro reports_bind reports_if reports_try reports_basic f)
      (auto intro: reports_close_raise reports_basic always_close_raise always_raise)
  show "reports (local_step ev op fatal act)" unfolding local_step_def by (intro reports_intros l)
  show "reports (send_download_ack ev op n)" unfolding send_download_ack_def by (intro reports_intros)
qed

lemma reports_turn: "reports (download_turn ev info part_file progress fr)"
  unfolding download_turn_def download_chunk_def download_checksum_def Let_def
  by (intro reports_intros reports_failures)

lemma reports_receive_download: "reports (receive_download ev info part_file progress)"
proof (rule reportsI)
  show "cl_authenticated s \<Longrightarrow> receive_download ev info part_file progress s = (r, t) \<Longrightarrow> reported r t" for s r t
  proof (induction ev info part_file progress s arbitrary: r t rule: receive_download.induct)
    case (1 ev info part_file progress s)
    obtain q u where rc: "client_receive ev s = (q, u)" by fastforce
    from reportsD [OF reports_receive "1.prems"(1) rc] have u: "reported q u" .
    show ?case
    proof (cases q)
      case (Inl e)
      then show ?thesis using "1.prems" rc u by (auto simp: receive_download.simps [of ev info] reported_Inl)
    next
      case (Inr fr)
      obtain p v where tn: "download_turn ev info part_file progress fr u = (p, v)" by fastforce
      have v: "reported p v" using reportsD [OF reports_turn _ tn] u Inr by simp
      show ?thesis
      proof (cases "\<exists>later. p = Inr (Proceed later)")
        case True
        then obtain later where p: "p = Inr (Proceed later)" ..
        then have "receive_download ev info part_file later v = (r, t)"
          using "1.prems" rc Inr tn by (simp add: receive_download.simps [of ev info])
        with v p show ?thesis using "1.IH" [OF rc [symmetric] Inr tn [symmetric] p refl] by simp
      next
        case False
        then show ?thesis
          using "1.prems" rc Inr tn v
          by (cases p) (auto simp: receive_download.simps [of ev info] reported_Inl split: flow.splits)
      qed
    qed
  qed
qed

lemma reports_resume_offset: "reports (resume_offset part)"
  by (rule reportsI) (auto simp: resume_offset_def bindS_def readS_def tryS_def on_client_files_apply reported_def
      split: if_splits prod.splits sum.splits)

lemma ends_session_no_protocol: "ends_session e \<Longrightarrow> \<not> is_protocol_error e"
  by (cases e) (auto simp: ends_session_def)

lemma reports_download: "reports (download_file ev filename destination)"
  unfolding download_file_def download_body_def prepare_part_def hash_part_def request_download_def publish_download_def
    Let_def
  by (intro reports_intros reports_failures reports_receive_download reports_resume_offset reports_try)
    (auto intro: always_raise dest: ends_session_no_protocol)

subsection \<open>The command loop and \<open>main\<close>\<close>

lemma on_client_apply: "on_client act s = (case act (ci_client s) of (r, x) \<Rightarrow> (r, s\<lparr>ci_client := x\<rparr>))"
  by (simp add: on_client_def partS_def)

definition cli_reports :: "'a cli_action \<Rightarrow> bool" where
  "cli_reports a \<longleftrightarrow> (\<forall>s r t. cl_authenticated (ci_client s) \<longrightarrow> a s = (r, t) \<longrightarrow> reported r (ci_client t))"

lemma cli_reports_client: "reports a \<Longrightarrow> cli_reports (on_client a)"
  by (auto simp: cli_reports_def on_client_apply dest: reportsD split: prod.splits)

lemma cli_reports_pure: "(\<And>s. ci_client (snd (a s)) = ci_client s) \<Longrightarrow> cli_reports a"
  by (metis cli_reports_def reported_def snd_conv)

lemma cli_reports_bind:
  assumes "cli_reports m" "\<And>v. cli_reports (f v)"
  shows "cli_reports (bindS m f)"
  unfolding cli_reports_def
proof (intro allI impI)
  fix s r t
  assume s: "cl_authenticated (ci_client s)" and run: "bindS m f s = (r, t)"
  obtain q u where m: "m s = (q, u)" by fastforce
  with s assms(1) have u: "reported q (ci_client u)" unfolding cli_reports_def by blast
  show "reported r (ci_client t)"
  proof (cases q)
    case (Inl e)
    then show ?thesis using run m u by (auto simp: bindS_def reported_Inl)
  next
    case (Inr v)
    then have "f v u = (r, t)" "cl_authenticated (ci_client u)" using run m u by (auto simp: bindS_def)
    then show ?thesis using assms(2) unfolding cli_reports_def by blast
  qed
qed

lemma print_client [simp]: "ci_client (snd (print_text t s)) = ci_client s" "ci_client (snd (print_error t s)) = ci_client s"
  by (simp_all add: print_text_def print_error_def updateS_def)

lemma print_entries_client [simp]: "ci_client (snd (print_entries es s)) = ci_client s"
  by (induction es arbitrary: s) (simp_all add: bindS_def print_text_def updateS_def)

lemma cli_reports_basic: "cli_reports (raiseS e)" "cli_reports (print_text t)" "cli_reports (print_entries es)"
  by (rule cli_reports_pure, simp)+

lemma handlers_report:
  assumes "main_handlers ev cwd name = Some handler"
  shows "cli_reports (handler command)"
proof -
  have "cli_reports (handle_list ev command)"
    by (auto simp: handle_list_def intro!: cli_reports_bind cli_reports_client cli_reports_basic reports_list)
  moreover have "cli_reports (cli_upload ev cwd command)"
    by (cases "cm_filename command")
      (simp_all add: cli_upload_def cli_reports_bind cli_reports_client cli_reports_basic reports_upload)
  moreover have "cli_reports (cli_download ev command)"
    by (cases "cm_filename command")
      (simp_all add: cli_download_def cli_reports_bind cli_reports_client cli_reports_basic reports_download)
  ultimately show ?thesis using assms by (cases name) (auto simp: main_handlers_def)
qed

text \<open>A line after which the loop goes on leaves the session open.\<close>

lemma run_line_continues:
  assumes "cl_authenticated (ci_client s)" "run_line (main_handlers ev cwd) line s = (Inr True, t)"
  shows "cl_authenticated (ci_client t)"
proof (cases "parse_command line")
  case (Inl e)
  then show ?thesis using assms by (auto simp: run_line_def bindS_def print_error_def updateS_def)
next
  case (Inr command)
  show ?thesis
  proof (cases "main_handlers ev cwd (cm_name command)")
    case None
    then show ?thesis
      using assms Inr by (auto simp: run_line_def bindS_def print_error_def updateS_def split: if_splits)
  next
    case (Some handler)
    obtain q u where h: "handler command s = (q, u)" by fastforce
    then have u: "reported q (ci_client u)" using handlers_report [OF Some] assms(1) unfolding cli_reports_def by blast
    show ?thesis
      using assms(2) Inr Some h u
      by (cases q) (auto simp: run_line_def tryS_def bindS_def print_error_def updateS_def Let_def reported_Inl ends_session_def
          split: if_splits elim: is_attribute_error.elims)
  qed
qed

definition closed_client :: "client \<Rightarrow> bool" where
  "closed_client s \<longleftrightarrow> \<not> cl_connected s \<and> \<not> cl_authenticated s \<and> cl_user_id s = USER_ID"

lemma connect_fails_closed:
  assumes "client_connect ev socket_factory username s = (Inl e, t)" "closed_client s"
  shows "closed_client t"
  using assms
  by (auto simp: client_connect_def bindS_def readS_def updateS_def tryS_def closed_client_def
      split: option.splits sum.splits prod.splits)

lemma finally_close: "finallyS m (on_client client_close) s = (r, t) \<Longrightarrow> closed_client (ci_client t)"
  by (auto simp: finallyS_def on_client_apply client_close_def updateS_def closed_client_def split: prod.splits)

lemma cli_session_closes:
  assumes "closed_client (ci_client s)" "cli_session ev cwd socket_factory lines s = (r, t)"
  shows "closed_client (ci_client t) \<and> (\<forall>n. r = Inr n \<longrightarrow> n = 0)"
proof -
  obtain q c where c: "client_connect ev socket_factory None (ci_client s) = (q, c)" by fastforce
  show ?thesis
  proof (cases q)
    case (Inl e)
    then show ?thesis
      using assms(2) c connect_fails_closed [of ev socket_factory None "ci_client s" e c] assms(1)
      by (auto simp: cli_session_def bindS_def on_client_apply)
  next
    case (Inr v)
    then show ?thesis
      using assms(2) c
      by (auto simp: cli_session_def bindS_def [of "on_client (client_connect ev socket_factory None)"] on_client_apply
          bindS_def [of "finallyS m a" for m a] dest: finally_close split: prod.splits sum.splits)
  qed
qed

text \<open>
  C33. The command line client always cleans up and tells the truth: however \<open>main\<close> ends, the session
  is closed and without an identity; it returns 0, or 1 after a line \<open>Client error: ...\<close>, and only
  an exception outside the three families it catches can leave it.  And its loop prompts again
  only while the session is open: a command that broke the session (whatever the server sent and
  whichever local file operation failed) ends the loop.
\<close>

theorem client_main_outcome:
  assumes "client_main loaded cwd socket_factory lines (cli_start username files) = (r, t)"
  shows "closed_client (ci_client t)
    \<and> (case r of
         Inl e \<Rightarrow> \<not> is_config_error e \<and> \<not> is_os_error e \<and> \<not> is_protocol_error e
       | Inr n \<Rightarrow> n = 0 \<or> n = 1 \<and> (\<exists>before m. ci_errors t = before @ [lit ''Client error: '' @ m @ [10]]))
    \<and> (\<forall>ev line s u. cl_authenticated (ci_client s) \<longrightarrow> run_line (main_handlers ev cwd) line s = (Inr True, u)
         \<longrightarrow> cl_authenticated (ci_client u))"
proof -
  let ?s = "cli_start username files"
  let ?body = "bindS (liftS loaded) (\<lambda>ev. cli_session ev cwd socket_factory lines)"
  have start: "closed_client (ci_client ?s)" by (simp add: cli_start_def make_client_def closed_client_def)
  obtain q u where body: "?body ?s = (q, u)" by fastforce
  have u: "closed_client (ci_client u) \<and> (\<forall>n. q = Inr n \<longrightarrow> n = 0)"
  proof (cases loaded)
    case (Inl e)
    then show ?thesis using body start by (auto simp: bindS_def)
  next
    case (Inr ev)
    then show ?thesis using body cli_session_closes [OF start, of ev] by (simp add: bindS_def)
  qed
  then have "closed_client (ci_client t)
    \<and> (case r of
         Inl e \<Rightarrow> \<not> is_config_error e \<and> \<not> is_os_error e \<and> \<not> is_protocol_error e
       | Inr n \<Rightarrow> n = 0 \<or> n = 1 \<and> (\<exists>before m. ci_errors t = before @ [lit ''Client error: '' @ m @ [10]]))"
    using assms body
    by (cases q) (auto simp: client_main_def tryS_def bindS_def [of "print_error m" for m] print_error_def updateS_def split: if_splits)
  then show ?thesis using run_line_continues by blast
qed

theorem client_main_outcome_witness:
  "closed_client (ci_client (snd (client_main (Inr example_environment) [] (Inr accepting_server) [lit ''list'' @ [10]]
     (cli_start [97] example_files))))"
proof -
  obtain r t where "client_main (Inr example_environment) [] (Inr accepting_server) [lit ''list'' @ [10]]
     (cli_start [97] example_files) = (r, t)" by fastforce
  with client_main_outcome [OF this] show ?thesis by simp
qed

end
