(* ===== verification/UiWorker.thy ===== *)
theory UiWorker
  imports Protocol
begin

section \<open>The background thread of the desktop client\<close>

text \<open>
  \<open>src/hcmus_socket/ui/worker.py\<close>.  \<open>BackgroundWorker\<close> runs submitted operations one after the
  other on a thread of its own and reports to the interface through a queue of events.  The two
  queues, the flag and the lock are shared by both threads: an operation of the class is given as
  the sections between which the other thread may run, and \<open>ui_step\<close> interleaves them.  What an
  operation does and returns is left open; \<open>'f\<close> is the type of operations, \<open>'p\<close> that of the
  objects they return (\<open>None\<close> is Python's).  The lists hold the queues in the order of \<open>get\<close>.
\<close>

subsection \<open>Events and the worker's state\<close>

datatype ui_event_kind = TASK_STARTED | TASK_COMPLETED | TASK_FAILED | TRANSFER_PROGRESS

record 'p ui_event =
  ev_kind :: ui_event_kind
  ev_task_name :: pystr
  ev_payload :: "'p option"
  ev_error :: "exc option"

datatype 'f task_item = Stop | Task pystr 'f

text \<open>Where the thread stands in \<open>_run\<close>; \<open>Died\<close>: an operation raised what \<open>except Exception\<close> lets pass.\<close>

datatype ('p, 'f) ui_thread =
    Getting
  | Announcing pystr 'f       \<comment> \<open>task taken, \<open>TASK_STARTED\<close> not yet put\<close>
  | Operating pystr 'f        \<comment> \<open>inside \<open>operation()\<close>\<close>
  | Emitting pystr 'f pystr "'p option"  \<comment> \<open>there, inside \<open>emit_progress\<close> after its test\<close>
  | Ended
  | Died pystr

record ('p, 'f) background_worker =
  bw_events :: "'p ui_event list"
  bw_tasks :: "'f task_item list"
  bw_closed :: bool
  bw_thread :: "('p, 'f) ui_thread"

definition new_worker :: "('p, 'f) background_worker" where
  "new_worker = \<lparr>bw_events = [], bw_tasks = [], bw_closed = False, bw_thread = Getting\<rparr>"

definition alive :: "('p, 'f) background_worker \<Rightarrow> bool" where
  "alive w = (case bw_thread w of Ended \<Rightarrow> False | Died _ \<Rightarrow> False | _ \<Rightarrow> True)"

definition put_event :: "'p ui_event \<Rightarrow> ('p, 'f) background_worker \<Rightarrow> ('p, 'f) background_worker" where
  "put_event event w = w\<lparr>bw_events := bw_events w @ [event]\<rparr>"

definition started_event :: "pystr \<Rightarrow> 'p ui_event" where
  "started_event name = \<lparr>ev_kind = TASK_STARTED, ev_task_name = name, ev_payload = None, ev_error = None\<rparr>"

definition progress_event :: "pystr \<Rightarrow> 'p option \<Rightarrow> 'p ui_event" where
  "progress_event name payload =
     \<lparr>ev_kind = TRANSFER_PROGRESS, ev_task_name = name, ev_payload = payload, ev_error = None\<rparr>"

text \<open>What \<open>operation()\<close> ends with; an \<open>Exception\<close> is \<open>Inl\<close>.\<close>

fun outcome_event :: "pystr \<Rightarrow> exc + 'p option \<Rightarrow> 'p ui_event" where
  "outcome_event name (Inl e) = \<lparr>ev_kind = TASK_FAILED, ev_task_name = name, ev_payload = None, ev_error = Some e\<rparr>"
| "outcome_event name (Inr result) =
     \<lparr>ev_kind = TASK_COMPLETED, ev_task_name = name, ev_payload = result, ev_error = None\<rparr>"

subsection \<open>Operations of the interface's thread\<close>

text \<open>\<open>submit\<close>; \<open>None\<close> for an object that is not callable.\<close>

definition submit :: "pystr \<Rightarrow> 'f option \<Rightarrow> (exc, ('p, 'f) background_worker, unit) action" where
  "submit task_name operation =
     (if task_name = [] then raiseS (ValueError (lit ''task_name must not be empty''))
      else case operation of
          None \<Rightarrow> raiseS (TypeError (lit ''operation must be callable''))
        | Some f \<Rightarrow>
            bindS (readS bw_closed) (\<lambda>closed.
            if closed then raiseS (RuntimeError (lit ''background worker is closed''))
            else updateS (\<lambda>w. w\<lparr>bw_tasks := bw_tasks w @ [Task task_name f]\<rparr>)))"

definition poll :: "('p, 'f) background_worker \<Rightarrow> 'p ui_event option \<times> ('p, 'f) background_worker" where
  "poll w = (case bw_events w of [] \<Rightarrow> (None, w) | e # rest \<Rightarrow> (Some e, w\<lparr>bw_events := rest\<rparr>))"

text \<open>\<open>close\<close>; the \<open>join\<close> that follows only waits.\<close>

definition close_worker :: "('p, 'f) background_worker \<Rightarrow> ('p, 'f) background_worker" where
  "close_worker w = (if bw_closed w then w else w\<lparr>bw_closed := True, bw_tasks := bw_tasks w @ [Stop]\<rparr>)"

text \<open>\<open>emit_progress\<close> when nothing comes between its test and its \<open>put\<close>\<close>

definition emit_progress :: "pystr \<Rightarrow> 'p option \<Rightarrow> ('p, 'f) background_worker \<Rightarrow> ('p, 'f) background_worker" where
  "emit_progress task_name payload w =
     (if bw_closed w then w else put_event (progress_event task_name payload) w)"

subsection \<open>The thread\<close>

text \<open>\<open>self._tasks.get()\<close> and the branch on it; \<open>None\<close>: it blocks.\<close>

definition take_task :: "('p, 'f) background_worker \<Rightarrow> ('p, 'f) background_worker option" where
  "take_task w = (case bw_tasks w of
       [] \<Rightarrow> None
     | Stop # rest \<Rightarrow> Some (w\<lparr>bw_tasks := rest, bw_thread := Ended\<rparr>)
     | Task name f # rest \<Rightarrow> Some (w\<lparr>bw_tasks := rest, bw_thread := Announcing name f\<rparr>))"

definition announce :: "pystr \<Rightarrow> 'f \<Rightarrow> ('p, 'f) background_worker \<Rightarrow> ('p, 'f) background_worker" where
  "announce name f w = put_event (started_event name) w\<lparr>bw_thread := Operating name f\<rparr>"

definition report :: "pystr \<Rightarrow> exc + 'p option \<Rightarrow> ('p, 'f) background_worker \<Rightarrow> ('p, 'f) background_worker" where
  "report name outcome w = put_event (outcome_event name outcome) w\<lparr>bw_thread := Getting\<rparr>"

subsection \<open>Interleaving\<close>

datatype ('p, 'f) ui_action =
    Submitted pystr 'f
  | Rejected exc
  | Polled "'p ui_event"
  | PolledNothing
  | CloseCalled

inductive ui_step ::
  "('p, 'f) background_worker \<Rightarrow> ('p, 'f) ui_action list \<Rightarrow> ('p, 'f) background_worker \<Rightarrow> bool" where
  accepted: "submit name (Some f) w = (Inr (), w') \<Longrightarrow> ui_step w [Submitted name f] w'"
| rejected: "submit name operation w = (Inl e, w') \<Longrightarrow> ui_step w [Rejected e] w'"
| event: "poll w = (Some e, w') \<Longrightarrow> ui_step w [Polled e] w'"
| no_event: "poll w = (None, w') \<Longrightarrow> ui_step w [PolledNothing] w'"
| close: "ui_step w [CloseCalled] (close_worker w)"
| take: "bw_thread w = Getting \<Longrightarrow> take_task w = Some w' \<Longrightarrow> ui_step w [] w'"
| announced: "bw_thread w = Announcing name f \<Longrightarrow> ui_step w [] (announce name f w)"
| emit_test: "bw_thread w = Operating name f \<Longrightarrow> \<not> bw_closed w \<Longrightarrow>
    ui_step w [] (w\<lparr>bw_thread := Emitting name f task_name payload\<rparr>)"
| emit_put: "bw_thread w = Emitting name f task_name payload \<Longrightarrow>
    ui_step w [] (put_event (progress_event task_name payload) w\<lparr>bw_thread := Operating name f\<rparr>)"
| finish: "bw_thread w = Operating name f \<Longrightarrow> ui_step w [] (report name outcome w)"
| dies: "bw_thread w = Operating name f \<Longrightarrow> ui_step w [] (w\<lparr>bw_thread := Died name\<rparr>)"

subsection \<open>The invariant\<close>

text \<open>The sentinel is last, there once the worker is closed, and only its arrival ends the thread.\<close>

definition worker_ok :: "('p, 'f) background_worker \<Rightarrow> bool" where
  "worker_ok w \<longleftrightarrow>
     (if bw_thread w = Ended then bw_closed w \<and> bw_tasks w = []
      else if bw_closed w then \<exists>ts. bw_tasks w = ts @ [Stop] \<and> Stop \<notin> set ts
      else Stop \<notin> set (bw_tasks w))"

lemma new_worker_ok: "worker_ok new_worker"
  by (simp add: worker_ok_def new_worker_def)

lemma submit_Inr: "submit name (Some f) w = (Inr u, w') \<longleftrightarrow>
    name \<noteq> [] \<and> \<not> bw_closed w \<and> w' = w\<lparr>bw_tasks := bw_tasks w @ [Task name f]\<rparr>"
  by (auto simp: submit_def bindS_def readS_def updateS_def)

lemma submit_Inl: "submit name operation w = (Inl e, w') \<Longrightarrow> w' = w"
  by (auto simp: submit_def bindS_def readS_def updateS_def split: if_splits option.splits)

lemma take_task_ok:
  assumes "worker_ok w" "bw_thread w = Getting" "take_task w = Some w'"
  shows "worker_ok w'"
proof (cases "bw_tasks w")
  case Nil
  then show ?thesis using assms(3) by (simp add: take_task_def)
next
  case (Cons t rest)
  show ?thesis
  proof (cases t)
    case Stop
    with Cons assms show ?thesis
      by (auto simp: take_task_def worker_ok_def Cons_eq_append_conv split: if_splits)
  next
    case (Task name f)
    with Cons assms show ?thesis
      by (auto simp: take_task_def worker_ok_def Cons_eq_append_conv split: if_splits)
  qed
qed

lemma ui_step_ok: "ui_step w ls w' \<Longrightarrow> worker_ok w \<Longrightarrow> worker_ok w'"
proof (induction rule: ui_step.induct)
  case (take w w')
  then show ?case using take_task_ok by metis
qed (auto simp: worker_ok_def submit_Inr poll_def close_worker_def announce_def report_def put_event_def
    dest!: submit_Inl split: if_splits list.splits)

subsection \<open>What a serial executor promises\<close>

text \<open>
  The contract: operations wait in one list, the first is started when none runs, what is put on
  the event queue is delivered in order, no operation is accepted after \<open>close\<close>, and the executor
  retires only when nothing is left to do.  No sentinel, no phases of a thread.
\<close>

record ('p, 'f) executor =
  ex_backlog :: "(pystr \<times> 'f) list"
  ex_current :: "pystr option"
  ex_events :: "'p ui_event list"
  ex_open :: bool
  ex_stopped :: bool

definition enqueue_event :: "'p ui_event \<Rightarrow> ('p, 'f) executor \<Rightarrow> ('p, 'f) executor" where
  "enqueue_event e x = x\<lparr>ex_events := ex_events x @ [e]\<rparr>"

inductive executor_step :: "('p, 'f) executor \<Rightarrow> ('p, 'f) ui_action list \<Rightarrow> ('p, 'f) executor \<Rightarrow> bool" where
  accept: "ex_open x \<Longrightarrow> executor_step x [Submitted name f] (x\<lparr>ex_backlog := ex_backlog x @ [(name, f)]\<rparr>)"
| reject: "executor_step x [Rejected e] x"
| deliver: "ex_events x = e # rest \<Longrightarrow> executor_step x [Polled e] (x\<lparr>ex_events := rest\<rparr>)"
| nothing: "ex_events x = [] \<Longrightarrow> executor_step x [PolledNothing] x"
| shut: "executor_step x [CloseCalled] (x\<lparr>ex_open := False\<rparr>)"
| begins: "ex_current x = None \<Longrightarrow> \<not> ex_stopped x \<Longrightarrow> ex_backlog x = (name, f) # rest \<Longrightarrow>
    executor_step x [] (enqueue_event (started_event name) (x\<lparr>ex_backlog := rest, ex_current := Some name\<rparr>))"
| progress: "ex_current x = Some name \<Longrightarrow> \<not> ex_stopped x \<Longrightarrow>
    executor_step x [] (enqueue_event (progress_event n payload) x)"
| ends: "ex_current x = Some name \<Longrightarrow> \<not> ex_stopped x \<Longrightarrow>
    executor_step x [] (enqueue_event (outcome_event name outcome) (x\<lparr>ex_current := None\<rparr>))"
| crash: "ex_current x = Some name \<Longrightarrow> executor_step x [] (x\<lparr>ex_stopped := True\<rparr>)"
| retire: "ex_current x = None \<Longrightarrow> ex_backlog x = [] \<Longrightarrow> \<not> ex_open x \<Longrightarrow> executor_step x [] (x\<lparr>ex_stopped := True\<rparr>)"
| idle: "executor_step x [] x"

subsection \<open>The worker is a serial executor\<close>

fun item_task :: "'f task_item \<Rightarrow> (pystr \<times> 'f) option" where
  "item_task Stop = None"
| "item_task (Task name f) = Some (name, f)"

fun announced_task :: "('p, 'f) ui_thread \<Rightarrow> (pystr \<times> 'f) list" where
  "announced_task (Announcing name f) = [(name, f)]"
| "announced_task _ = []"

fun current_task :: "('p, 'f) ui_thread \<Rightarrow> pystr option" where
  "current_task (Operating name f) = Some name"
| "current_task (Emitting name f task_name payload) = Some name"
| "current_task (Died name) = Some name"
| "current_task _ = None"

definition as_executor :: "('p, 'f) background_worker \<Rightarrow> ('p, 'f) executor" where
  "as_executor w = \<lparr>ex_backlog = announced_task (bw_thread w) @ List.map_filter item_task (bw_tasks w),
     ex_current = current_task (bw_thread w), ex_events = bw_events w, ex_open = (\<not> bw_closed w),
     ex_stopped = (\<not> alive w)\<rparr>"

lemma tasks_append [simp]:
  "List.map_filter item_task (ts @ us) = List.map_filter item_task ts @ List.map_filter item_task us"
  by (simp add: map_filter_def)

lemma tasks_items [simp]: "List.map_filter item_task [] = []"
  "List.map_filter item_task (Stop # ts) = List.map_filter item_task ts"
  "List.map_filter item_task (Task name f # ts) = (name, f) # List.map_filter item_task ts"
  by (simp_all add: map_filter_def)

lemma executor_take:
  assumes "worker_ok w" "bw_thread w = Getting" "take_task w = Some w'"
  shows "executor_step (as_executor w) [] (as_executor w')"
proof (cases "bw_tasks w")
  case Nil
  then show ?thesis using assms(3) by (simp add: take_task_def)
next
  case (Cons t rest)
  show ?thesis
  proof (cases t)
    case Stop
    then have "rest = [] \<and> bw_closed w"
      using Cons assms(1,2) by (auto simp: worker_ok_def Cons_eq_append_conv split: if_splits)
    moreover have "w' = w\<lparr>bw_tasks := rest, bw_thread := Ended\<rparr>" using assms(3) Cons Stop by (simp add: take_task_def)
    ultimately show ?thesis
      using Stop Cons assms(2) executor_step.retire [of "as_executor w"] by (simp add: as_executor_def alive_def)
  next
    case (Task name f)
    then have "as_executor w' = as_executor w"
      using Cons assms(2,3) by (auto simp: take_task_def as_executor_def alive_def)
    then show ?thesis by (simp add: executor_step.idle)
  qed
qed

lemma executor_simulates:
  "ui_step w ls w' \<Longrightarrow> worker_ok w \<Longrightarrow> executor_step (as_executor w) ls (as_executor w')"
proof (induction rule: ui_step.induct)
  case (accepted name f w w')
  then show ?case
    using executor_step.accept [of "as_executor w" name f] by (auto simp: submit_Inr as_executor_def alive_def)
next
  case (rejected name operation w e w')
  then show ?case using submit_Inl executor_step.reject by metis
next
  case (event w e w')
  then have "bw_events w = e # bw_events w' \<and> w' = w\<lparr>bw_events := bw_events w'\<rparr>"
    by (auto simp: poll_def split: list.splits)
  then show ?case
    using executor_step.deliver [of "as_executor w" e "bw_events w'"] by (cases w') (auto simp: as_executor_def alive_def)
next
  case (no_event w w')
  then show ?case
    using executor_step.nothing [of "as_executor w"] by (auto simp: poll_def as_executor_def split: list.splits)
next
  case (close w)
  then show ?case
    using executor_step.shut [of "as_executor w"] by (auto simp: close_worker_def as_executor_def alive_def)
next
  case (take w w')
  then show ?case using executor_take by blast
next
  case (announced w name f)
  then show ?case
    using executor_step.begins [of "as_executor w" name f "List.map_filter item_task (bw_tasks w)"]
    by (simp add: announce_def put_event_def enqueue_event_def as_executor_def alive_def)
next
  case (emit_test w name f task_name payload)
  then show ?case using executor_step.idle [of "as_executor w"] by (simp add: as_executor_def alive_def)
next
  case (emit_put w name f task_name payload)
  then show ?case
    using executor_step.progress [of "as_executor w" name task_name payload]
    by (simp add: put_event_def enqueue_event_def as_executor_def alive_def)
next
  case (finish w name f outcome)
  then show ?case
    using executor_step.ends [of "as_executor w" name outcome]
    by (simp add: report_def put_event_def enqueue_event_def as_executor_def alive_def)
next
  case (dies w name f)
  then show ?case
    using executor_step.crash [of "as_executor w" name] by (simp add: as_executor_def alive_def)
qed

interpretation serial: forward_simulation ui_step executor_step as_executor worker_ok
  by unfold_locales (blast intro: executor_simulates ui_step_ok)+

subsection \<open>What the interface sees\<close>

text \<open>
  \<open>follows\<close> reads a stream of events against the names of the accepted tasks: each is announced in
  turn, while none runs; progress comes while one runs; each ends before the next begins.  The
  result is the running task and the names not yet announced.
\<close>

fun see :: "pystr option \<times> pystr list \<Rightarrow> 'p ui_event \<Rightarrow> (pystr option \<times> pystr list) option" where
  "see (current, names) e =
     (case ev_kind e of
        TASK_STARTED \<Rightarrow>
          if current = None \<and> names \<noteq> [] \<and> hd names = ev_task_name e then Some (Some (hd names), tl names) else None
      | TRANSFER_PROGRESS \<Rightarrow> if current = None then None else Some (current, names)
      | _ \<Rightarrow> if current = Some (ev_task_name e) then Some (None, names) else None)"

fun follows :: "pystr option \<times> pystr list \<Rightarrow> 'p ui_event list \<Rightarrow> (pystr option \<times> pystr list) option" where
  "follows q [] = Some q"
| "follows q (e # es) = (case see q e of None \<Rightarrow> None | Some q' \<Rightarrow> follows q' es)"

fun accepted_names :: "('p, 'f) ui_action list \<Rightarrow> pystr list" where
  "accepted_names [] = []"
| "accepted_names (Submitted name f # tr) = name # accepted_names tr"
| "accepted_names (_ # tr) = accepted_names tr"

fun polled_events :: "('p, 'f) ui_action list \<Rightarrow> 'p ui_event list" where
  "polled_events [] = []"
| "polled_events (Polled e # tr) = e # polled_events tr"
| "polled_events (_ # tr) = polled_events tr"

lemma accepted_append [simp]: "accepted_names (tr @ us) = accepted_names tr @ accepted_names us"
  by (induction tr rule: accepted_names.induct) simp_all

lemma polled_append [simp]: "polled_events (tr @ us) = polled_events tr @ polled_events us"
  by (induction tr rule: polled_events.induct) simp_all

lemma follows_append: "follows q es = Some q' \<Longrightarrow> follows q (es @ fs) = follows q' fs"
  by (induction q es rule: follows.induct) (auto split: option.splits)

lemma see_more_names: "see (c, names) e = Some (c', rest) \<Longrightarrow> see (c, names @ extra) e = Some (c', rest @ extra)"
  by (auto split: ui_event_kind.splits if_splits)

lemma follows_more_names:
  "follows (c, names) es = Some (c', rest) \<Longrightarrow> follows (c, names @ extra) es = Some (c', rest @ extra)"
proof (induction es arbitrary: c names)
  case (Cons e es)
  then obtain d ns where "see (c, names) e = Some (d, ns)" "follows (d, ns) es = Some (c', rest)"
    by (auto split: option.splits)
  then show ?case using see_more_names [of c names e d ns extra] Cons.IH by simp
qed simp

definition serial_so_far :: "('p, 'f) ui_action list \<Rightarrow> ('p, 'f) executor \<Rightarrow> bool" where
  "serial_so_far tr x \<longleftrightarrow>
     follows (None, accepted_names tr) (polled_events tr @ ex_events x) = Some (ex_current x, map fst (ex_backlog x))"

lemma serial_put:
  assumes "serial_so_far tr x" "see (ex_current x, map fst (ex_backlog x)) e = Some (c, map fst b)"
  shows "serial_so_far tr (enqueue_event e (x\<lparr>ex_backlog := b, ex_current := c\<rparr>))"
  using assms follows_append [of "(None, accepted_names tr)" "polled_events tr @ ex_events x" _ "[e]"]
  by (simp add: serial_so_far_def enqueue_event_def)

lemma executor_serial:
  "executor_step x ls y \<Longrightarrow> serial_so_far tr x \<Longrightarrow> serial_so_far (tr @ ls) y"
proof (induction rule: executor_step.induct)
  case (accept x name f)
  then show ?case using follows_more_names [of None "accepted_names tr"] by (auto simp: serial_so_far_def)
next
  case (begins x name f rest)
  then show ?case using serial_put [of tr x "started_event name" "Some name" rest] by (simp add: started_event_def)
next
  case (progress x name n payload)
  then show ?case using serial_put [of tr x "progress_event n payload" "ex_current x" "ex_backlog x"]
    by (cases x) (simp add: progress_event_def)
next
  case (ends x name outcome)
  then show ?case using serial_put [of tr x "outcome_event name outcome" None "ex_backlog x"]
    by (cases outcome) simp_all
qed (auto simp: serial_so_far_def)

lemma runs_serial: "runs executor_step x tr y \<Longrightarrow> serial_so_far [] x \<Longrightarrow> serial_so_far tr y"
  by (induction rule: runs.induct) (auto intro: executor_serial)

subsection \<open>Refinement\<close>

definition idle_executor :: "('p, 'f) executor" where
  "idle_executor = \<lparr>ex_backlog = [], ex_current = None, ex_events = [], ex_open = True, ex_stopped = False\<rparr>"

lemma new_worker_executor: "as_executor new_worker = idle_executor"
  by (simp add: as_executor_def new_worker_def idle_executor_def alive_def)

lemma ui_enabled:
  assumes "alive w" "bw_thread w = Getting \<Longrightarrow> bw_tasks w \<noteq> []"
  shows "\<exists>w'. ui_step w [] w'"
proof (cases "bw_thread w")
  case Getting
  then obtain w' where "take_task w = Some w'"
    using assms(2) by (cases "bw_tasks w"; cases "hd (bw_tasks w)") (auto simp: take_task_def)
  with Getting show ?thesis using ui_step.take by blast
next
  case (Announcing name f)
  then show ?thesis by (intro exI) (rule ui_step.announced)
next
  case (Operating name f)
  then show ?thesis by (intro exI) (rule ui_step.finish)
next
  case (Emitting name f task_name payload)
  then show ?thesis by (intro exI) (rule ui_step.emit_put)
qed (use assms(1) in \<open>simp_all add: alive_def\<close>)

text \<open>
  C15. The background worker is a serial executor: every interleaving of the interface's calls with
  the thread is a run, with the same calls, answers and polled events, of the abstract executor
  (one backlog, one task at a time, events in order, nothing accepted after \<open>close\<close>, which needs
  no sentinel).  So the events the interface has polled, followed by those still queued, announce
  the accepted tasks in order of submission, each ended before the next begins; a thread that
  has ended has run every accepted task; and one that has work can go on.
\<close>

theorem worker_refines_executor:
  assumes "runs ui_step new_worker tr w"
  shows "runs executor_step idle_executor tr (as_executor w)
    \<and> follows (None, accepted_names tr) (polled_events tr @ bw_events w)
        = Some (current_task (bw_thread w), map fst (ex_backlog (as_executor w)))
    \<and> (bw_thread w = Ended \<longrightarrow> follows (None, accepted_names tr) (polled_events tr @ bw_events w) = Some (None, []))
    \<and> (alive w \<and> (bw_thread w = Getting \<longrightarrow> bw_tasks w \<noteq> []) \<longrightarrow> (\<exists>w'. ui_step w [] w'))"
proof -
  have r: "worker_ok w" "runs executor_step idle_executor tr (as_executor w)"
    using serial.runs_simulate [OF assms new_worker_ok] by (simp_all add: new_worker_executor)
  have "serial_so_far [] idle_executor" by (simp add: serial_so_far_def idle_executor_def)
  then have log: "follows (None, accepted_names tr) (polled_events tr @ bw_events w)
      = Some (current_task (bw_thread w), map fst (ex_backlog (as_executor w)))"
    using runs_serial [OF r(2)] by (simp add: serial_so_far_def as_executor_def)
  moreover have "bw_thread w = Ended \<Longrightarrow> ex_backlog (as_executor w) = []"
    using r(1) by (simp add: worker_ok_def as_executor_def)
  ultimately show ?thesis using r(2) ui_enabled [of w] by auto
qed

definition one_task :: "(nat, nat) ui_action list" where
  "one_task = [Submitted (lit ''refresh'') 7, CloseCalled, Polled (started_event (lit ''refresh''))]"

definition one_task_done :: "(nat, nat) background_worker" where
  "one_task_done = \<lparr>bw_events = [outcome_event (lit ''refresh'') (Inr (Some 3))], bw_tasks = [], bw_closed = True,
     bw_thread = Ended\<rparr>"

theorem worker_refines_executor_witness:
  "runs executor_step idle_executor one_task (as_executor one_task_done)"
proof -
  let ?n = "lit ''refresh'' :: pystr"
  let ?w = "\<lambda>es ts c th. \<lparr>bw_events = es, bw_tasks = ts, bw_closed = c, bw_thread = th\<rparr> :: (nat, nat) background_worker"
  let ?fin = "outcome_event ?n (Inr (Some 3)) :: nat ui_event"
  have "runs ui_step new_worker ([] @ [Submitted ?n 7]) (?w [] [Task ?n 7] False Getting)"
    by (rule runs_snoc [OF runs_none], rule accepted) (simp add: submit_Inr new_worker_def lit_def)
  then have "runs ui_step new_worker (([] @ [Submitted ?n 7]) @ []) (?w [] [] False (Announcing ?n 7))"
    by (rule runs_snoc) (rule take; simp add: take_task_def)
  then have "runs ui_step new_worker ((([] @ [Submitted ?n 7]) @ []) @ []) (?w [started_event ?n] [] False (Operating ?n 7))"
    by (rule runs_snoc) (use announced [of "?w [] [] False (Announcing ?n 7)"] in \<open>simp add: announce_def put_event_def\<close>)
  then have "runs ui_step new_worker (((([] @ [Submitted ?n 7]) @ []) @ []) @ [CloseCalled])
      (?w [started_event ?n] [Stop] True (Operating ?n 7))"
    by (rule runs_snoc) (use close [of "?w [started_event ?n] [] False (Operating ?n 7)"] in \<open>simp add: close_worker_def\<close>)
  then have "runs ui_step new_worker ((((([] @ [Submitted ?n 7]) @ []) @ []) @ [CloseCalled]) @ [])
      (?w [started_event ?n, ?fin] [Stop] True Getting)"
    by (rule runs_snoc) (use finish [of "?w [started_event ?n] [Stop] True (Operating ?n 7)" ?n 7 "Inr (Some 3)"]
        in \<open>simp add: report_def put_event_def\<close>)
  then have "runs ui_step new_worker (((((([] @ [Submitted ?n 7]) @ []) @ []) @ [CloseCalled]) @ []) @ [Polled (started_event ?n)])
      (?w [?fin] [Stop] True Getting)"
    by (rule runs_snoc) (rule event; simp add: poll_def)
  then have "runs ui_step new_worker
      ((((((([] @ [Submitted ?n 7]) @ []) @ []) @ [CloseCalled]) @ []) @ [Polled (started_event ?n)]) @ []) one_task_done"
    by (rule runs_snoc) (rule take; simp add: take_task_def one_task_done_def)
  then have "runs ui_step new_worker one_task one_task_done" by (simp add: one_task_def)
  from worker_refines_executor [OF this] show ?thesis by simp
qed

end
