(* ===== verification/DesktopViews.thy ===== *)
theory DesktopViews
  imports Complex_Main Messages "HOL-Library.List_Lexorder"
begin

section \<open>The views of the desktop client\<close>

text \<open>
  The state that the connection, file and transfer cards of the desktop client keep and show
  (\<open>src/hcmus_socket/ui/connection_view.py\<close>, \<open>file_view.py\<close>, \<open>transfer_view.py\<close>): enabled controls,
  texts, the listed files and the selection, the progress bar.  Widgets, styles and geometry are
  left out.  Speeds and durations are exact reals where the code has floats; the clock is an
  argument, and so is \<open>str.casefold\<close>.
\<close>

subsection \<open>Numbers as text\<close>

definition two_digits :: "int \<Rightarrow> pystr" where
  "two_digits n = (if n < 10 then lit ''0'' else []) @ dec_int n"

text \<open>\<open>n / d\<close> in hundredths, rounded to the nearest, ties to even\<close>

definition hundredths :: "int \<Rightarrow> int \<Rightarrow> int" where
  "hundredths n d =
     (let q = 100 * n div d; r = 100 * n mod d in if 2 * r > d \<or> 2 * r = d \<and> odd q then q + 1 else q)"

fun size_text :: "int \<Rightarrow> int \<Rightarrow> pystr list \<Rightarrow> pystr" where
  "size_text n d [] = []"
| "size_text n d (unit # units) =
     (if n < 1024 * d \<or> units = [] then
        if unit = lit ''B'' then dec_int n @ lit '' B''
        else dec_int (hundredths n d div 100) @ lit ''.'' @ two_digits (hundredths n d mod 100) @ lit '' '' @ unit
      else size_text n (1024 * d) units)"

definition format_size :: "int \<Rightarrow> exc + pystr" where
  "format_size n =
     (if n < 0 then Inl (ValueError (lit ''size must not be negative''))
      else Inr (size_text n 1 [lit ''B'', lit ''KiB'', lit ''MiB'', lit ''GiB'', lit ''TiB'']))"

definition format_duration :: "real \<Rightarrow> pystr" where
  "format_duration seconds =
     (let rounded = max 0 \<lceil>seconds\<rceil>;
          hours = rounded div 3600; minutes = rounded mod 3600 div 60; remaining_seconds = rounded mod 60 in
      if hours \<noteq> 0 then dec_int hours @ lit ''h '' @ dec_int minutes @ lit ''m''
      else if minutes \<noteq> 0 then dec_int minutes @ lit ''m '' @ dec_int remaining_seconds @ lit ''s''
      else dec_int remaining_seconds @ lit ''s'')"

text \<open>The format \<open>{n:,}\<close> of a number that is not negative\<close>

function grouped :: "int \<Rightarrow> pystr" where
  "grouped n =
     (if n < 1000 then dec_int n
      else grouped (n div 1000) @ lit '','' @ (if n mod 1000 < 100 then lit ''0'' else []) @ two_digits (n mod 1000))"
  by auto
termination
  by (relation "measure nat") auto

text \<open>\<open>round(x)\<close>\<close>

definition py_round :: "real \<Rightarrow> int" where
  "py_round x =
     (let f = \<lfloor>x\<rfloor>; d = x - of_int f in if d < 1 / 2 \<or> d = 1 / 2 \<and> even f then f else f + 1)"

subsection \<open>Speed and remaining time\<close>

record transfer_snapshot =
  ts_bytes_per_second :: real
  ts_eta_seconds :: "real option"
  ts_resumed_from :: int

text \<open>\<open>TransferTracker\<close>: \<open>_baseline_done\<close> and \<open>_baseline_time\<close>, set together\<close>

type_synonym tracker = "(int \<times> real) option"

definition tracker_update :: "int \<Rightarrow> int \<Rightarrow> real \<Rightarrow> tracker \<Rightarrow> transfer_snapshot \<times> tracker" where
  "tracker_update done_bytes total_bytes sample_time baseline =
     (case baseline of
        None \<Rightarrow>
          (\<lparr>ts_bytes_per_second = 0, ts_eta_seconds = None, ts_resumed_from = max 0 done_bytes\<rparr>, Some (done_bytes, sample_time))
      | Some (baseline_done, baseline_time) \<Rightarrow>
          let elapsed = max 0 (sample_time - baseline_time);
              transferred = max 0 (done_bytes - baseline_done);
              rate = (if elapsed > 0 then of_int transferred / elapsed else 0);
              remaining = max 0 (total_bytes - done_bytes) in
          (\<lparr>ts_bytes_per_second = rate,
            ts_eta_seconds = (if rate > 0 \<and> remaining > 0 then Some (of_int remaining / rate) else None),
            ts_resumed_from = max 0 baseline_done\<rparr>, baseline))"

fun joined :: "pystr \<Rightarrow> pystr list \<Rightarrow> pystr" where
  "joined sep [] = []"
| "joined sep [t] = t"
| "joined sep (t # ts) = t @ sep @ joined sep ts"

definition format_transfer_detail :: "int \<Rightarrow> int \<Rightarrow> int \<Rightarrow> transfer_snapshot \<Rightarrow> exc + pystr" where
  "format_transfer_detail done_bytes total_bytes percent snapshot =
     bindE (format_size done_bytes) (\<lambda>done_text.
     bindE (format_size total_bytes) (\<lambda>total_text.
     bindE (if ts_bytes_per_second snapshot > 0 then
              bindE (format_size (py_round (ts_bytes_per_second snapshot))) (\<lambda>t. Inr [t @ lit ''/s''])
            else Inr []) (\<lambda>speed.
     bindE (if ts_resumed_from snapshot > 0 then
              bindE (format_size (ts_resumed_from snapshot)) (\<lambda>t. Inr [lit ''resumed at '' @ t])
            else Inr []) (\<lambda>resumed.
     Inr (joined (lit '' | '')
       ([done_text @ lit '' / '' @ total_text @ lit '' ('' @ dec_int percent @ lit ''%)''] @ speed
         @ (case ts_eta_seconds snapshot of None \<Rightarrow> [] | Some eta \<Rightarrow> [lit ''ETA '' @ format_duration eta])
         @ resumed))))))"

subsection \<open>The transfer card\<close>

record transfer_view =
  tv_description :: pystr
  tv_detail :: pystr
  tv_percent :: int
  tv_cancel_enabled :: bool
  tv_tracker :: tracker

definition transfer_reset :: "transfer_view \<Rightarrow> transfer_view" where
  "transfer_reset v = v\<lparr>tv_description := lit ''No active transfer'', tv_detail := [], tv_percent := 0,
     tv_tracker := None, tv_cancel_enabled := False\<rparr>"

definition transfer_start :: "pystr \<Rightarrow> pystr \<Rightarrow> transfer_view \<Rightarrow> transfer_view" where
  "transfer_start act filename v = v\<lparr>tv_description := act @ lit '': '' @ filename, tv_detail := lit ''Starting...'',
     tv_percent := 0, tv_tracker := None, tv_cancel_enabled := True\<rparr>"

definition update_progress ::
  "pystr \<Rightarrow> pystr \<Rightarrow> int \<Rightarrow> int \<Rightarrow> int \<Rightarrow> real \<Rightarrow> (exc, transfer_view, unit) action" where
  "update_progress act filename done_bytes total_bytes percent sample_time =
     bindS (updateS (\<lambda>v. v\<lparr>tv_description := act @ lit '': '' @ filename\<rparr>)) (\<lambda>_.
     bindS (readS (\<lambda>v. tracker_update done_bytes total_bytes sample_time (tv_tracker v))) (\<lambda>(snapshot, tracker).
     bindS (updateS (\<lambda>v. v\<lparr>tv_tracker := tracker\<rparr>)) (\<lambda>_.
     bindS (liftS (format_transfer_detail done_bytes total_bytes percent snapshot)) (\<lambda>detail.
     updateS (\<lambda>v. v\<lparr>tv_detail := detail, tv_percent := max (tv_percent v) (max 0 (min 100 percent))\<rparr>)))))"

definition transfer_complete :: "pystr \<Rightarrow> pystr \<Rightarrow> int \<Rightarrow> transfer_view \<Rightarrow> transfer_view" where
  "transfer_complete act filename total_bytes v = v\<lparr>tv_description := act @ lit '' complete: '' @ filename,
     tv_detail := grouped total_bytes @ lit '' bytes - checksum verified'', tv_percent := 100, tv_cancel_enabled := False\<rparr>"

definition transfer_fail :: "pystr \<Rightarrow> pystr \<Rightarrow> pystr \<Rightarrow> transfer_view \<Rightarrow> transfer_view" where
  "transfer_fail act filename message v = v\<lparr>tv_description := act @ lit '' failed: '' @ filename,
     tv_detail := message, tv_cancel_enabled := False\<rparr>"

definition transfer_cancelled :: "pystr \<Rightarrow> pystr \<Rightarrow> transfer_view \<Rightarrow> transfer_view" where
  "transfer_cancelled act filename v = v\<lparr>tv_description := act @ lit '' cancelled: '' @ filename,
     tv_detail := lit ''Reconnect to continue the transfer later'', tv_cancel_enabled := False\<rparr>"

definition set_cancel_enabled :: "bool \<Rightarrow> transfer_view \<Rightarrow> transfer_view" where
  "set_cancel_enabled enabled v = v\<lparr>tv_cancel_enabled := enabled\<rparr>"

subsection \<open>The connection card\<close>

record connection_view =
  cv_connected :: bool
  cv_entries_enabled :: bool
  cv_connect_enabled :: bool
  cv_disconnect_enabled :: bool

definition set_connected :: "bool \<Rightarrow> connection_view \<Rightarrow> connection_view" where
  "set_connected online v = v\<lparr>cv_connected := online, cv_entries_enabled := \<not> online,
     cv_connect_enabled := \<not> online, cv_disconnect_enabled := online\<rparr>"

definition set_busy :: "bool \<Rightarrow> connection_view \<Rightarrow> connection_view" where
  "set_busy busy v =
     (if busy then v\<lparr>cv_entries_enabled := False, cv_connect_enabled := False, cv_disconnect_enabled := False\<rparr> else v)"

definition set_state :: "bool \<Rightarrow> bool \<Rightarrow> connection_view \<Rightarrow> connection_view" where
  "set_state online busy v = (if busy then set_busy True (set_connected online v) else set_connected online v)"

text \<open>\<open>credentials\<close> on the stripped entries; the port is what \<open>int\<close> makes of it, \<open>None\<close> its \<open>ValueError\<close>.\<close>

definition credentials :: "pystr \<Rightarrow> int option \<Rightarrow> pystr \<Rightarrow> exc + pystr \<times> int \<times> pystr" where
  "credentials host port_number username =
     (case port_number of
        None \<Rightarrow> Inl (ValueError (lit ''port must be a decimal integer''))
      | Some port \<Rightarrow>
          if host = [] then Inl (ValueError (lit ''server address is required''))
          else if \<not> (1 \<le> port \<and> port \<le> 65535) then Inl (ValueError (lit ''port must be from 1 to 65535''))
          else if username = [] then Inl (ValueError (lit ''username is required''))
          else Inr (host, port, username))"

subsection \<open>The file card\<close>

datatype file_layout = ListLayout | GridLayout

record file_view =
  fv_enabled :: bool
  fv_entries :: "file_entry list"
  fv_layout :: file_layout
  fv_tree_selection :: "pystr option" \<comment> \<open>the row selected in the list\<close>
  fv_selected_filename :: "pystr option" \<comment> \<open>\<open>_selected_filename\<close>\<close>
  fv_summary :: pystr
  fv_download_enabled :: bool

definition selected_filename :: "file_view \<Rightarrow> pystr option" where
  "selected_filename v = (if fv_layout v = GridLayout then fv_selected_filename v else fv_tree_selection v)"

definition update_download_state :: "file_view \<Rightarrow> file_view" where
  "update_download_state v = v\<lparr>fv_download_enabled := fv_enabled v \<and> selected_filename v \<noteq> None\<rparr>"

text \<open>\<open>replace_files\<close>; a negative size makes \<open>format_size\<close> raise when its row is inserted.\<close>

definition replace_files :: "(pystr \<Rightarrow> pystr) \<Rightarrow> file_entry list \<Rightarrow> (exc, file_view, unit) action" where
  "replace_files casefold entries =
     bindS (updateS (\<lambda>v. v\<lparr>fv_entries := sort_key (\<lambda>entry. casefold (fe_filename entry)) entries,
       fv_selected_filename := None, fv_tree_selection := None\<rparr>)) (\<lambda>_.
     if \<exists>entry \<in> set entries. fe_file_size entry < 0 then raiseS (ValueError (lit ''size must not be negative''))
     else
       updateS (\<lambda>v. update_download_state (v\<lparr>fv_summary := dec_nat (length entries)
         @ (if length entries = 1 then lit '' file'' else lit '' files'')\<rparr>)))"

definition set_layout :: "file_layout \<Rightarrow> file_view \<Rightarrow> file_view" where
  "set_layout layout v = update_download_state (v\<lparr>fv_layout := layout, fv_selected_filename := selected_filename v\<rparr>)"

definition set_enabled :: "bool \<Rightarrow> file_view \<Rightarrow> file_view" where
  "set_enabled enabled v = update_download_state (v\<lparr>fv_enabled := enabled\<rparr>)"

definition select_grid_file :: "pystr \<Rightarrow> file_view \<Rightarrow> file_view" where
  "select_grid_file filename v = update_download_state (v\<lparr>fv_selected_filename := Some filename\<rparr>)"

definition selection_changed :: "pystr option \<Rightarrow> file_view \<Rightarrow> file_view" where
  "selection_changed row v =
     (let w = v\<lparr>fv_tree_selection := row\<rparr> in update_download_state (w\<lparr>fv_selected_filename := selected_filename w\<rparr>))"

end
