(* ===== verification/Desktop.thy ===== *)
theory Desktop
  imports ClientApi UiWorker DesktopViews
begin

section \<open>The desktop client\<close>

text \<open>
  The controller of \<open>src/hcmus_socket/ui/app.py\<close>: \<open>DesktopApp\<close> owns at most one \<open>ClientApi\<close>, hands
  its operations to the background worker and turns the worker's events into the state of the
  views.  The \<open>ClientApi\<close> objects made so far are a list, \<open>self.api\<close> an index into it, since the
  operations that wait in the worker keep theirs.  What the user enters or chooses (credentials, the file
  of a dialog) are arguments, as are the clock and \<open>str.casefold\<close>; dialogs shown are listed.
  Navigation, themes, geometry and widgets are left out.  The calls of one callback are not
  interleaved with another's.
\<close>

subsection \<open>State\<close>

record transfer_progress =
  tp_action :: pystr
  tp_filename :: pystr
  tp_done :: int
  tp_total :: int
  tp_percent :: int

text \<open>What comes through the event queue, and the operations that are submitted, with their \<open>api\<close>.\<close>

datatype ui_payload =
    FileListPayload "file_entry list"
  | UploadPayload client_upload_result
  | DownloadPayload client_download_result
  | ProgressPayload transfer_progress

datatype ui_operation =
    RunConnect nat
  | RunDisconnect nat
  | RunListFiles nat
  | RunUpload nat path pystr
  | RunDownload nat pystr path

record dialog =
  dg_error :: bool
  dg_title :: pystr
  dg_message :: pystr

record desktop =
  dk_base_config :: app_config
  dk_apis :: "(app_config \<times> client) list"
  dk_api :: "nat option"
  dk_file_task_pending :: bool
  dk_active_transfer :: "(pystr \<times> pystr) option"
  dk_cancel_requested :: "pystr option"
  dk_closing :: bool
  dk_worker :: "(ui_payload, ui_operation) background_worker"
  dk_status :: pystr
  dk_connection :: connection_view
  dk_file_view :: file_view
  dk_transfer :: transfer_view
  dk_dialogs :: "dialog list"
  dk_destroyed :: bool
  dk_poll_scheduled :: bool
  dk_disk :: file_system

type_synonym 'a desktop_action = "(exc, desktop, 'a) action"

definition CONNECT_TASK :: pystr where "CONNECT_TASK = lit ''connect''"
definition DISCONNECT_TASK :: pystr where "DISCONNECT_TASK = lit ''disconnect''"
definition REFRESH_TASK :: pystr where "REFRESH_TASK = lit ''refresh''"
definition UPLOAD_TASK :: pystr where "UPLOAD_TASK = lit ''upload''"
definition DOWNLOAD_TASK :: pystr where "DOWNLOAD_TASK = lit ''download''"

definition ellipsis :: pystr where "ellipsis = [0x2026]"
definition em_dash :: pystr where "em_dash = [0x2014]"

text \<open>\<open>self.api\<close> with its session, and its \<open>close\<close>\<close>

definition current_api :: "desktop \<Rightarrow> (app_config \<times> client) option" where
  "current_api s = (case dk_api s of None \<Rightarrow> None | Some i \<Rightarrow> Some (dk_apis s ! i))"

definition api_connected :: "desktop \<Rightarrow> bool" where
  "api_connected s = (case current_api s of None \<Rightarrow> False | Some (config, c) \<Rightarrow> cl_connected c)"

definition api_authenticated :: "desktop \<Rightarrow> bool" where
  "api_authenticated s = (case current_api s of None \<Rightarrow> False | Some (config, c) \<Rightarrow> cl_authenticated c)"

definition close_api :: "unit desktop_action" where
  "close_api = updateS (\<lambda>s. case dk_api s of None \<Rightarrow> s
     | Some i \<Rightarrow> s\<lparr>dk_apis := (dk_apis s)[i := apsnd (\<lambda>c. snd (client_close c)) (dk_apis s ! i)]\<rparr>)"

definition forget_api :: "unit desktop_action" where
  "forget_api = updateS (\<lambda>s. s\<lparr>dk_api := None\<rparr>)"

subsection \<open>Helpers on the views\<close>

definition show_connection :: "bool \<Rightarrow> bool \<Rightarrow> unit desktop_action" where
  "show_connection online busy = updateS (\<lambda>s. s\<lparr>dk_connection := set_state online busy (dk_connection s)\<rparr>)"

definition enable_files :: "bool \<Rightarrow> unit desktop_action" where
  "enable_files enabled = updateS (\<lambda>s. s\<lparr>dk_file_view := set_enabled enabled (dk_file_view s)\<rparr>)"

definition show_files :: "(pystr \<Rightarrow> pystr) \<Rightarrow> file_entry list \<Rightarrow> unit desktop_action" where
  "show_files casefold entries = partS dk_file_view (\<lambda>v s. s\<lparr>dk_file_view := v\<rparr>) (replace_files casefold entries)"

definition change_transfer :: "(transfer_view \<Rightarrow> transfer_view) \<Rightarrow> unit desktop_action" where
  "change_transfer f = updateS (\<lambda>s. s\<lparr>dk_transfer := f (dk_transfer s)\<rparr>)"

definition set_status :: "pystr \<Rightarrow> unit desktop_action" where
  "set_status text = updateS (\<lambda>s. s\<lparr>dk_status := text\<rparr>)"

definition show_dialog :: "bool \<Rightarrow> pystr \<Rightarrow> pystr \<Rightarrow> unit desktop_action" where
  "show_dialog is_error title message =
     updateS (\<lambda>s. s\<lparr>dk_dialogs := dk_dialogs s @ [\<lparr>dg_error = is_error, dg_title = title, dg_message = message\<rparr>]\<rparr>)"

definition submit_task :: "pystr \<Rightarrow> ui_operation \<Rightarrow> unit desktop_action" where
  "submit_task task_name operation = partS dk_worker (\<lambda>w s. s\<lparr>dk_worker := w\<rparr>) (submit task_name (Some operation))"

definition set_pending :: "bool \<Rightarrow> unit desktop_action" where
  "set_pending pending_now = updateS (\<lambda>s. s\<lparr>dk_file_task_pending := pending_now\<rparr>)"

definition set_active :: "(pystr \<times> pystr) option \<Rightarrow> unit desktop_action" where
  "set_active active = updateS (\<lambda>s. s\<lparr>dk_active_transfer := active\<rparr>)"

definition set_cancel :: "pystr option \<Rightarrow> unit desktop_action" where
  "set_cancel requested = updateS (\<lambda>s. s\<lparr>dk_cancel_requested := requested\<rparr>)"

subsection \<open>Module functions\<close>

definition connection_config :: "app_config \<Rightarrow> pystr \<Rightarrow> int \<Rightarrow> app_config" where
  "connection_config base host port =
     base\<lparr>cf_client := (cf_client base)\<lparr>cc_server_address := host, cc_server_port := port\<rparr>\<rparr>"

definition transfer_task_name :: "pystr \<Rightarrow> pystr option" where
  "transfer_task_name act =
     (if act = lit ''Upload'' then Some UPLOAD_TASK
      else if act = lit ''Download'' then Some DOWNLOAD_TASK
      else None)"

definition validate_upload_source :: "path \<Rightarrow> (exc, file_system, pystr option) action" where
  "validate_upload_source p =
     tryS
       (bindS (readS (\<lambda>fs. path_exists fs p)) (\<lambda>exists.
        if \<not> exists then returnS (Some (lit ''The selected file no longer exists. Choose it again.''))
        else
          bindS (readS (\<lambda>fs. is_file fs p)) (\<lambda>regular.
          if \<not> regular then returnS (Some (lit ''The selected path is not a regular file.''))
          else bindS (stat_size p) (\<lambda>_. returnS None))))
       (\<lambda>error.
          if is_os_error error then returnS (Some (lit ''The selected file cannot be read: '' @ exc_text error))
          else raiseS error)"

text \<open>Existence tests do not fail in the model, so that \<open>except OSError\<close> is not reached.\<close>

definition validate_download_destination :: "path \<Rightarrow> file_system \<Rightarrow> pystr option" where
  "validate_download_destination p fs =
     (if path_exists fs p then
        Some (lit ''A file or folder already exists at that location. Choose a new name.'')
      else if path_exists fs (parent p) \<and> \<not> is_dir fs (parent p) then
        Some (lit ''The selected destination folder is not a directory.'')
      else None)"

fun friendly_message :: "error_code \<Rightarrow> pystr option" where
  "friendly_message SERVER_BUSY = Some (lit ''The server already has 10 active clients. Try again later.'')"
| "friendly_message USERNAME_IN_USE = Some (lit ''That username is already connected. Choose another username.'')"
| "friendly_message INVALID_USERNAME = Some (lit ''The username is not accepted by the server.'')"
| "friendly_message FILE_EXISTS = Some (lit ''A file with that name already exists.'')"
| "friendly_message FILE_NOT_FOUND = Some (lit ''The requested remote file no longer exists.'')"
| "friendly_message ACCESS_DENIED = Some (lit ''Access to that file or location was denied.'')"
| "friendly_message CHECKSUM_MISMATCH =
     Some (lit ''Checksum verification failed. The incomplete result was not published.'')"
| "friendly_message RESUME_METADATA_MISMATCH =
     Some (lit ''The partial file does not match the remote transfer metadata.'')"
| "friendly_message TRANSFER_IN_PROGRESS = Some (lit ''Another client is currently transferring the same file.'')"
| "friendly_message _ = None"

text \<open>\<open>error.code\<close> of the two classes that have one\<close>

fun coded_error :: "exc \<Rightarrow> error_code option" where
  "coded_error (AuthenticationError code _) = Some code"
| "coded_error (ProtocolError code _ _ _) = Some code"
| "coded_error _ = None"

definition connection_error_message :: "exc option \<Rightarrow> pystr" where
  "connection_error_message error =
     (case error of
        None \<Rightarrow> lit ''unknown connection error''
      | Some e \<Rightarrow>
          (case coded_error e of
             Some code \<Rightarrow> (case friendly_message code of Some text \<Rightarrow> text | None \<Rightarrow> exc_text e)
           | None \<Rightarrow> if is_os_error e then exc_text e else lit ''unexpected error: '' @ exc_text e))"

text \<open>\<open>str.capitalize\<close> on the ASCII task names\<close>

fun capitalized :: "pystr \<Rightarrow> pystr" where
  "capitalized [] = []"
| "capitalized (c # cs) = (if 97 \<le> c \<and> c \<le> 122 then c - 32 else c)
     # map (\<lambda>d. if 65 \<le> d \<and> d \<le> 90 then d + 32 else d) cs"

subsection \<open>User actions\<close>

text \<open>\<open>connect\<close> with what \<open>credentials()\<close> gives\<close>

definition desktop_connect :: "exc + pystr \<times> int \<times> pystr \<Rightarrow> unit desktop_action" where
  "desktop_connect entered =
     bindS (readS (\<lambda>s. s)) (\<lambda>s.
     if dk_api s \<noteq> None \<or> bw_closed (dk_worker s) then returnS ()
     else
       (case entered of
          Inl error \<Rightarrow> show_dialog True (lit ''Invalid connection'') (exc_text error)
        | Inr (host, port, username) \<Rightarrow>
            let config = connection_config (dk_base_config s) host port; api = length (dk_apis s) in
            bindS (updateS (\<lambda>s. s\<lparr>dk_apis := dk_apis s @ [(config, make_client (Some username) (dk_disk s))],
              dk_api := Some api\<rparr>)) (\<lambda>_.
            bindS (show_connection False True) (\<lambda>_.
            bindS (enable_files False) (\<lambda>_.
            bindS (set_status (lit ''Connecting to '' @ host @ lit '':'' @ dec_int port @ ellipsis)) (\<lambda>_.
            submit_task CONNECT_TASK (RunConnect api)))))))"

definition desktop_disconnect :: "unit desktop_action" where
  "desktop_disconnect =
     bindS (readS (\<lambda>s. s)) (\<lambda>s.
     if \<not> api_connected s then returnS ()
     else
       bindS (show_connection True True) (\<lambda>_.
       bindS (enable_files False) (\<lambda>_.
       bindS (set_status (lit ''Disconnecting'' @ ellipsis)) (\<lambda>_.
       submit_task DISCONNECT_TASK (RunDisconnect (the (dk_api s)))))))"

definition refresh_files :: "unit desktop_action" where
  "refresh_files =
     bindS (readS (\<lambda>s. s)) (\<lambda>s.
     if \<not> api_authenticated s \<or> dk_file_task_pending s then returnS ()
     else
       bindS (set_pending True) (\<lambda>_.
       bindS (enable_files False) (\<lambda>_.
       bindS (set_status (lit ''Refreshing remote files'' @ ellipsis)) (\<lambda>_.
       submit_task REFRESH_TASK (RunListFiles (the (dk_api s)))))))"

text \<open>The part the two transfers share once their file is chosen.\<close>

definition begin_transfer :: "pystr \<Rightarrow> pystr \<Rightarrow> pystr \<Rightarrow> pystr \<Rightarrow> unit desktop_action" where
  "begin_transfer act verb filename status =
     bindS (set_pending True) (\<lambda>_.
     bindS (set_active (Some (act, filename))) (\<lambda>_.
     bindS (show_connection True True) (\<lambda>_.
     bindS (enable_files False) (\<lambda>_.
     bindS (change_transfer (transfer_start verb filename)) (\<lambda>_.
     set_status (verb @ lit '' '' @ filename @ status))))))"

text \<open>\<open>selected\<close> is the answer of the file dialog, \<open>None\<close> when it is cancelled.\<close>

definition desktop_upload :: "path option \<Rightarrow> unit desktop_action" where
  "desktop_upload selected =
     bindS (readS (\<lambda>s. s)) (\<lambda>s.
     if \<not> api_authenticated s \<or> dk_file_task_pending s then returnS ()
     else
       (case selected of
          None \<Rightarrow> returnS ()
        | Some source \<Rightarrow>
            bindS (partS dk_disk (\<lambda>x s. s\<lparr>dk_disk := x\<rparr>) (validate_upload_source source)) (\<lambda>validation_error.
            case validation_error of
              Some message \<Rightarrow> show_dialog True (lit ''Cannot upload file'') message
            | None \<Rightarrow>
                bindS (begin_transfer (lit ''Upload'') (lit ''Uploading'') (path_name source) ellipsis) (\<lambda>_.
                submit_task UPLOAD_TASK (RunUpload (the (dk_api s)) source (path_name source))))))"

definition cancel_transfer :: "unit desktop_action" where
  "cancel_transfer =
     bindS (readS (\<lambda>s. s)) (\<lambda>s.
     case dk_active_transfer s of
       None \<Rightarrow> returnS ()
     | Some (act, filename) \<Rightarrow>
         if dk_api s = None then returnS ()
         else
           (case transfer_task_name act of
              None \<Rightarrow> returnS ()
            | Some task_name \<Rightarrow>
                if dk_cancel_requested s \<noteq> None then returnS ()
                else
                  bindS (set_cancel (Some task_name)) (\<lambda>_.
                  bindS (change_transfer (set_cancel_enabled False)) (\<lambda>_.
                  bindS (show_connection True True) (\<lambda>_.
                  bindS (enable_files False) (\<lambda>_.
                  bindS (set_status (lit ''Cancelling '' @ filename @ lit ''...'')) (\<lambda>_.
                  close_api)))))))"

definition desktop_download :: "path option \<Rightarrow> unit desktop_action" where
  "desktop_download selected =
     bindS (readS (\<lambda>s. s)) (\<lambda>s.
     if \<not> api_authenticated s \<or> dk_file_task_pending s then returnS ()
     else
       (case selected_filename (dk_file_view s) of
          None \<Rightarrow> show_dialog False (lit ''Choose a file'') (lit ''Select a remote file to download.'')
        | Some filename \<Rightarrow>
            (case selected of
               None \<Rightarrow> returnS ()
             | Some destination \<Rightarrow>
                 (case validate_download_destination destination (dk_disk s) of
                    Some message \<Rightarrow> show_dialog True (lit ''Cannot save download'') message
                  | None \<Rightarrow>
                      bindS (begin_transfer (lit ''Download'') (lit ''Downloading'') filename (lit ''...'')) (\<lambda>_.
                      submit_task DOWNLOAD_TASK (RunDownload (the (dk_api s)) filename destination))))))"

definition desktop_close :: "unit desktop_action" where
  "desktop_close =
     bindS (readS dk_closing) (\<lambda>closing.
     if closing then returnS ()
     else
       bindS (updateS (\<lambda>s. s\<lparr>dk_closing := True\<rparr>)) (\<lambda>_.
       bindS close_api (\<lambda>_.
       bindS forget_api (\<lambda>_.
       bindS (updateS (\<lambda>s. s\<lparr>dk_worker := close_worker (dk_worker s)\<rparr>)) (\<lambda>_.
       updateS (\<lambda>s. s\<lparr>dk_destroyed := True\<rparr>))))))"

subsection \<open>What the worker runs\<close>

text \<open>The submitted callables, on the client they were made with (nothing else touching it meanwhile).\<close>

fun operation_call :: "exc + sock \<Rightarrow> ui_operation \<Rightarrow> nat \<times> api_call" where
  "operation_call socket_factory (RunConnect i) = (i, Connect socket_factory None)"
| "operation_call socket_factory (RunDisconnect i) = (i, Disconnect)"
| "operation_call socket_factory (RunListFiles i) = (i, ListFiles)"
| "operation_call socket_factory (RunUpload i source filename) = (i, UploadFile source (Some filename))"
| "operation_call socket_factory (RunDownload i filename destination) = (i, DownloadFile filename (Some destination))"

fun result_payload :: "api_result \<Rightarrow> ui_payload option" where
  "result_payload Done = None"
| "result_payload (Listed entries) = Some (FileListPayload entries)"
| "result_payload (Uploaded result) = Some (UploadPayload result)"
| "result_payload (Downloaded result) = Some (DownloadPayload result)"

definition perform_operation ::
  "environment \<Rightarrow> exc + sock \<Rightarrow> ui_operation \<Rightarrow> (exc, (app_config \<times> client) list, ui_payload option) action" where
  "perform_operation ev socket_factory operation apis =
     (case operation_call socket_factory operation of (i, call) \<Rightarrow>
      (case apis ! i of (config, c) \<Rightarrow>
       (case api_action (ev\<lparr>ev_config := config\<rparr>) call c of (r, c') \<Rightarrow>
        (map_sum (\<lambda>e. e) result_payload r, apis[i := (config, c')]))))"

subsection \<open>Events\<close>

definition handle_file_failure :: "(pystr \<Rightarrow> pystr) \<Rightarrow> pystr \<Rightarrow> exc option \<Rightarrow> unit desktop_action" where
  "handle_file_failure casefold task_name error =
     bindS (set_pending False) (\<lambda>_.
     let message = connection_error_message error; title = capitalized task_name @ lit '' failed'' in
     bindS (readS api_connected) (\<lambda>still_connected.
     bindS (enable_files still_connected) (\<lambda>_.
     bindS (if still_connected then
              bindS (show_connection True False) (\<lambda>_. set_status (title @ lit '': '' @ message))
            else
              bindS close_api (\<lambda>_.
              bindS forget_api (\<lambda>_.
              bindS (show_connection False False) (\<lambda>_.
              bindS (show_files casefold []) (\<lambda>_.
              set_status (lit ''Disconnected'')))))) (\<lambda>_.
     bindS (if task_name = UPLOAD_TASK \<or> task_name = DOWNLOAD_TASK then
              bindS (readS dk_active_transfer) (\<lambda>active.
              let default_action = (if task_name = UPLOAD_TASK then lit ''Upload'' else lit ''Download'') in
              case (case active of None \<Rightarrow> (default_action, lit ''file'') | Some pair \<Rightarrow> pair) of
                (act, filename) \<Rightarrow>
                  bindS (change_transfer (transfer_fail act filename message)) (\<lambda>_. set_active None))
            else returnS ()) (\<lambda>_.
     show_dialog True title message)))))"

definition handle_failure :: "(pystr \<Rightarrow> pystr) \<Rightarrow> pystr \<Rightarrow> exc option \<Rightarrow> unit desktop_action" where
  "handle_failure casefold task_name error =
     (if task_name \<in> {REFRESH_TASK, UPLOAD_TASK, DOWNLOAD_TASK} then handle_file_failure casefold task_name error
      else
        let message = connection_error_message error; title = capitalized task_name @ lit '' failed'' in
        bindS close_api (\<lambda>_.
        bindS forget_api (\<lambda>_.
        bindS (show_connection False False) (\<lambda>_.
        bindS (enable_files False) (\<lambda>_.
        bindS (set_status (title @ lit '': '' @ message)) (\<lambda>_.
        show_dialog True title message))))))"

definition handle_connected :: "unit desktop_action" where
  "handle_connected =
     bindS (readS current_api) (\<lambda>api.
     case api of
       None \<Rightarrow> returnS ()
     | Some (config, c) \<Rightarrow>
         bindS (show_connection True False) (\<lambda>_.
         bindS (enable_files True) (\<lambda>_.
         bindS (set_status (lit ''Connected as '' @ (case cl_username c of None \<Rightarrow> lit ''None'' | Some name \<Rightarrow> name)
           @ lit '' (user ID '' @ dec_int (cl_user_id c) @ lit '')'')) (\<lambda>_.
         refresh_files))))"

definition handle_refreshed :: "(pystr \<Rightarrow> pystr) \<Rightarrow> ui_payload option \<Rightarrow> unit desktop_action" where
  "handle_refreshed casefold payload =
     bindS (set_pending False) (\<lambda>_.
     case payload of
       Some (FileListPayload entries) \<Rightarrow>
         bindS (show_files casefold entries) (\<lambda>_.
         bindS (enable_files True) (\<lambda>_.
         set_status (lit ''Connected '' @ em_dash @ lit '' '' @ dec_nat (length entries) @ lit '' remote ''
           @ (if length entries = 1 then lit ''file'' else lit ''files''))))
     | _ \<Rightarrow> handle_file_failure casefold REFRESH_TASK
              (Some (RuntimeError (lit ''worker returned an invalid file-list result''))))"

definition handle_transfer_progress :: "real \<Rightarrow> ui_payload option \<Rightarrow> unit desktop_action" where
  "handle_transfer_progress now payload =
     bindS (readS dk_cancel_requested) (\<lambda>cancel.
     case payload of
       Some (ProgressPayload p) \<Rightarrow>
         if cancel \<noteq> None then returnS ()
         else partS dk_transfer (\<lambda>v s. s\<lparr>dk_transfer := v\<rparr>)
           (update_progress (tp_action p) (tp_filename p) (tp_done p) (tp_total p) (tp_percent p) now)
     | _ \<Rightarrow> returnS ())"

definition handle_uploaded :: "(pystr \<Rightarrow> pystr) \<Rightarrow> ui_payload option \<Rightarrow> unit desktop_action" where
  "handle_uploaded casefold payload =
     bindS (set_pending False) (\<lambda>_.
     case payload of
       Some (UploadPayload result) \<Rightarrow>
         bindS (show_connection True False) (\<lambda>_.
         bindS (enable_files True) (\<lambda>_.
         bindS (change_transfer (transfer_complete (lit ''Upload'') (cu_remote_filename result) (cu_bytes_sent result))) (\<lambda>_.
         bindS (set_active None) (\<lambda>_.
         bindS (set_status (lit ''Uploaded '' @ cu_remote_filename result)) (\<lambda>_.
         bindS (show_dialog False (lit ''Upload complete'') (lit ''Uploaded '' @ cu_remote_filename result @ lit '' (''
           @ grouped (cu_bytes_sent result) @ lit '' bytes).'')) (\<lambda>_.
         refresh_files))))))
     | _ \<Rightarrow> handle_file_failure casefold UPLOAD_TASK (Some (RuntimeError (lit ''worker returned an invalid upload result''))))"

definition handle_downloaded :: "(pystr \<Rightarrow> pystr) \<Rightarrow> ui_payload option \<Rightarrow> unit desktop_action" where
  "handle_downloaded casefold payload =
     bindS (set_pending False) (\<lambda>_.
     case payload of
       Some (DownloadPayload result) \<Rightarrow>
         let name = path_name (cd_path result) in
         bindS (show_connection True False) (\<lambda>_.
         bindS (enable_files True) (\<lambda>_.
         bindS (change_transfer (transfer_complete (lit ''Download'') name (cd_bytes_received result))) (\<lambda>_.
         bindS (set_active None) (\<lambda>_.
         bindS (set_status (lit ''Downloaded '' @ name)) (\<lambda>_.
         show_dialog False (lit ''Download complete'') (lit ''Saved '' @ name @ lit '' ('' @ grouped (cd_bytes_received result)
           @ lit '' bytes) to:'' @ [10] @ path_text (cd_path result)))))))
     | _ \<Rightarrow> handle_file_failure casefold DOWNLOAD_TASK (Some (RuntimeError (lit ''worker returned an invalid download result''))))"

definition handle_disconnected :: "(pystr \<Rightarrow> pystr) \<Rightarrow> unit desktop_action" where
  "handle_disconnected casefold =
     bindS forget_api (\<lambda>_.
     bindS (set_pending False) (\<lambda>_.
     bindS (set_active None) (\<lambda>_.
     bindS (set_cancel None) (\<lambda>_.
     bindS (show_connection False False) (\<lambda>_.
     bindS (enable_files False) (\<lambda>_.
     bindS (show_files casefold []) (\<lambda>_.
     bindS (change_transfer transfer_reset) (\<lambda>_.
     set_status (lit ''Disconnected'')))))))))"

definition handle_cancelled :: "(pystr \<Rightarrow> pystr) \<Rightarrow> unit desktop_action" where
  "handle_cancelled casefold =
     bindS (readS dk_active_transfer) (\<lambda>active.
     case (case active of None \<Rightarrow> (lit ''Transfer'', lit ''file'') | Some pair \<Rightarrow> pair) of
       (act, filename) \<Rightarrow>
         bindS (set_pending False) (\<lambda>_.
         bindS (set_active None) (\<lambda>_.
         bindS (set_cancel None) (\<lambda>_.
         bindS close_api (\<lambda>_.
         bindS forget_api (\<lambda>_.
         bindS (show_connection False False) (\<lambda>_.
         bindS (enable_files False) (\<lambda>_.
         bindS (show_files casefold []) (\<lambda>_.
         bindS (change_transfer (transfer_cancelled act filename)) (\<lambda>_.
         set_status (act @ lit '' cancelled '' @ em_dash @ lit '' reconnect to continue'')))))))))))"

definition handle_completed :: "(pystr \<Rightarrow> pystr) \<Rightarrow> pystr \<Rightarrow> ui_payload option \<Rightarrow> unit desktop_action" where
  "handle_completed casefold task_name payload =
     bindS (updateS (\<lambda>s. if dk_cancel_requested s = Some task_name then s\<lparr>dk_cancel_requested := None\<rparr> else s)) (\<lambda>_.
     if task_name = CONNECT_TASK then handle_connected
     else if task_name = DISCONNECT_TASK then handle_disconnected casefold
     else if task_name = REFRESH_TASK then handle_refreshed casefold payload
     else if task_name = UPLOAD_TASK then handle_uploaded casefold payload
     else if task_name = DOWNLOAD_TASK then handle_downloaded casefold payload
     else returnS ())"

definition handle_event :: "(pystr \<Rightarrow> pystr) \<Rightarrow> real \<Rightarrow> ui_payload ui_event \<Rightarrow> unit desktop_action" where
  "handle_event casefold now event =
     (case ev_kind event of
        TASK_STARTED \<Rightarrow> returnS ()
      | TASK_FAILED \<Rightarrow>
          bindS (readS dk_cancel_requested) (\<lambda>cancel.
          if cancel = Some (ev_task_name event) then handle_cancelled casefold
          else handle_failure casefold (ev_task_name event) (ev_error event))
      | TRANSFER_PROGRESS \<Rightarrow> handle_transfer_progress now (ev_payload event)
      | TASK_COMPLETED \<Rightarrow> handle_completed casefold (ev_task_name event) (ev_payload event))"

subsection \<open>The poll loop\<close>

text \<open>No handler touches the event queue, so the loop ends.\<close>

definition undelivered :: "desktop \<Rightarrow> desktop \<Rightarrow> bool" where
  "undelivered s t \<longleftrightarrow> bw_events (dk_worker t) = bw_events (dk_worker s)"

interpretation queue: step_relation undelivered
  by unfold_locales (auto simp: undelivered_def)

lemma queue_update: "(\<And>s. bw_events (dk_worker (f s)) = bw_events (dk_worker s)) \<Longrightarrow> queue.keeps (updateS f)"
  by (rule queue.keepsI) (auto simp: updateS_def undelivered_def)

lemma queue_part: "(\<And>x s. bw_events (dk_worker (put x s)) = bw_events (dk_worker s)) \<Longrightarrow> queue.keeps (partS get put act)"
  by (rule queue.keepsI) (auto simp: partS_def undelivered_def split: prod.splits)

lemma queue_submit: "queue.keeps (submit_task name operation)"
  by (rule queue.keepsI)
    (auto simp: submit_task_def partS_def undelivered_def submit_def bindS_def readS_def updateS_def split: prod.splits if_splits)

lemma queue_setters: "queue.keeps (show_connection online busy)" "queue.keeps (enable_files b)" "queue.keeps (set_status t)"
  "queue.keeps (show_dialog e title message)" "queue.keeps (set_pending b)" "queue.keeps (set_active a)"
  "queue.keeps (set_cancel n)" "queue.keeps close_api" "queue.keeps forget_api" "queue.keeps (change_transfer f)"
  "queue.keeps (show_files casefold entries)"
  unfolding show_connection_def enable_files_def set_status_def show_dialog_def set_pending_def set_active_def set_cancel_def
    close_api_def forget_api_def change_transfer_def show_files_def
  by (rule queue_update queue_part; simp split: option.split)+

lemma queue_payload:
  assumes "queue.keeps n" "\<And>x. queue.keeps (f x)" "\<And>x. queue.keeps (g x)" "\<And>x. queue.keeps (h x)" "\<And>x. queue.keeps (k x)"
  shows "queue.keeps (case p of None \<Rightarrow> n | Some q \<Rightarrow>
     (case q of FileListPayload x \<Rightarrow> f x | UploadPayload x \<Rightarrow> g x | DownloadPayload x \<Rightarrow> h x | ProgressPayload x \<Rightarrow> k x))"
proof (cases p)
  case None
  then show ?thesis using assms(1) by simp
next
  case (Some q)
  then show ?thesis using assms(2-5) by (cases q) simp_all
qed

lemma queue_refresh: "queue.keeps refresh_files"
  unfolding refresh_files_def by (intro queue.keep_intros queue_setters queue_submit)

lemma queue_failures: "queue.keeps (handle_file_failure casefold name e)" "queue.keeps (handle_failure casefold name e)"
proof -
  show f: "queue.keeps (handle_file_failure casefold name e)" for name
    unfolding handle_file_failure_def Let_def by (intro queue.keep_intros queue_setters)
  show "queue.keeps (handle_failure casefold name e)"
    unfolding handle_failure_def Let_def by (intro queue.keep_intros queue_setters f)
qed

lemma queue_completed: "queue.keeps (handle_completed casefold name p)"
  unfolding handle_completed_def handle_connected_def handle_disconnected_def handle_refreshed_def handle_uploaded_def
    handle_downloaded_def Let_def
  by (intro queue.keep_intros queue_payload queue_setters queue_refresh queue_failures queue_update) simp

lemma queue_event: "queue.keeps (handle_event casefold now event)"
proof -
  have "queue.keeps (handle_cancelled casefold)"
    unfolding handle_cancelled_def by (intro queue.keep_intros queue_setters)
  moreover have "queue.keeps (handle_transfer_progress now (ev_payload event))"
    unfolding handle_transfer_progress_def
    by (intro queue.keep_intros queue_payload queue_part) simp
  ultimately show ?thesis
    using queue_failures(2) queue_completed
    by (cases "ev_kind event") (simp_all add: handle_event_def queue.keep_intros)
qed

text \<open>\<open>_poll_worker\<close>; the timer that called it has run out, and is set again at the end.\<close>

function poll_worker :: "(pystr \<Rightarrow> pystr) \<Rightarrow> (nat \<Rightarrow> real) \<Rightarrow> unit desktop_action" where
  "poll_worker casefold clock s =
     (case poll (dk_worker s) of
        (None, w) \<Rightarrow> (Inr (), s\<lparr>dk_poll_scheduled := \<not> bw_closed (dk_worker s)\<rparr>)
      | (Some event, w) \<Rightarrow>
          (case handle_event casefold (clock (length (bw_events w))) event (s\<lparr>dk_worker := w, dk_poll_scheduled := False\<rparr>) of
             (Inl e, t) \<Rightarrow> (Inl e, t)
           | (Inr _, t) \<Rightarrow> poll_worker casefold clock t))"
  by pat_completeness auto
termination
  by (relation "measure (\<lambda>(casefold, clock, s). length (bw_events (dk_worker s)))")
    (auto simp: poll_def undelivered_def dest!: queue.keepsD [OF queue_event, OF sym] split: list.splits)

declare poll_worker.simps [simp del]

end
