(* ===== verification/DesktopSafety.thy ===== *)
theory DesktopSafety
  imports Desktop Examples
begin

section \<open>What the desktop client guarantees\<close>

subsection \<open>The invariant\<close>

text \<open>
  Sizes in a payload are not negative: those of a listing come out of the decoder, those of a
  progress report are counts.
\<close>

fun payload_ok :: "ui_payload option \<Rightarrow> bool" where
  "payload_ok (Some (FileListPayload entries)) = (\<forall>entry \<in> set entries. 0 \<le> fe_file_size entry)"
| "payload_ok (Some (ProgressPayload p)) = (0 \<le> tp_done p \<and> 0 \<le> tp_total p)"
| "payload_ok _ = True"

definition views_ok :: "desktop \<Rightarrow> bool" where
  "views_ok s \<longleftrightarrow> 0 \<le> tv_percent (dk_transfer s) \<and> tv_percent (dk_transfer s) \<le> 100
     \<and> fv_download_enabled (dk_file_view s) = (fv_enabled (dk_file_view s) \<and> selected_filename (dk_file_view s) \<noteq> None)"

definition desktop_ok :: "desktop \<Rightarrow> bool" where
  "desktop_ok s \<longleftrightarrow> worker_ok (dk_worker s) \<and> bw_closed (dk_worker s) = dk_closing s \<and> dk_destroyed s = dk_closing s
     \<and> (dk_closing s \<longrightarrow> dk_api s = None) \<and> (\<forall>i. dk_api s = Some i \<longrightarrow> i < length (dk_apis s)) \<and> views_ok s"

text \<open>
  An action is sound if, from a state with the invariant, it raises nothing, keeps the invariant, and
  changes neither the flag \<open>_closing\<close>, which is \<open>c\<close>, nor the event queue.
\<close>

definition sound :: "bool \<Rightarrow> 'a desktop_action \<Rightarrow> bool" where
  "sound c a \<longleftrightarrow> (\<forall>s r t. desktop_ok s \<longrightarrow> dk_closing s = c \<longrightarrow> a s = (r, t) \<longrightarrow>
     (\<exists>v. r = Inr v) \<and> desktop_ok t \<and> dk_closing t = c \<and> bw_events (dk_worker t) = bw_events (dk_worker s))"

lemma soundI:
  "(\<And>s. desktop_ok s \<Longrightarrow> dk_closing s = c \<Longrightarrow> \<exists>v t. a s = (Inr v, t) \<and> desktop_ok t \<and> dk_closing t = c
     \<and> bw_events (dk_worker t) = bw_events (dk_worker s)) \<Longrightarrow> sound c a"
  unfolding sound_def by (metis prod.inject)

lemma soundD: "sound c a \<Longrightarrow> desktop_ok s \<Longrightarrow> dk_closing s = c \<Longrightarrow>
    \<exists>v t. a s = (Inr v, t) \<and> desktop_ok t \<and> dk_closing t = c \<and> bw_events (dk_worker t) = bw_events (dk_worker s)"
  unfolding sound_def by (metis surj_pair)

lemma sound_update:
  "(\<And>s. desktop_ok s \<Longrightarrow> dk_closing s = c \<Longrightarrow> desktop_ok (f s) \<and> dk_closing (f s) = c
     \<and> bw_events (dk_worker (f s)) = bw_events (dk_worker s)) \<Longrightarrow> sound c (updateS f)"
  by (rule soundI) (simp add: updateS_def)

lemma sound_basic: "sound c (returnS v)" "sound c (readS f)"
  by (auto simp: sound_def readS_def)

lemma sound_bind:
  assumes "sound c m" "\<And>v. sound c (f v)"
  shows "sound c (bindS m f)"
proof (rule soundI)
  fix s
  assume s: "desktop_ok s" "dk_closing s = c"
  from soundD [OF assms(1) s] obtain v t where m: "m s = (Inr v, t)" "desktop_ok t" "dk_closing t = c"
    "bw_events (dk_worker t) = bw_events (dk_worker s)" by blast
  with soundD [OF assms(2) [of v] m(2,3)]
  show "\<exists>v t. bindS m f s = (Inr v, t) \<and> desktop_ok t \<and> dk_closing t = c \<and> bw_events (dk_worker t) = bw_events (dk_worker s)"
    by simp
qed

lemma sound_if: "(b \<Longrightarrow> sound c x) \<Longrightarrow> (\<not> b \<Longrightarrow> sound c y) \<Longrightarrow> sound c (if b then x else y)"
  by simp

lemma sound_option: "sound c x \<Longrightarrow> (\<And>v. sound c (f v)) \<Longrightarrow> sound c (case o1 of None \<Rightarrow> x | Some v \<Rightarrow> f v)"
  by (cases o1) simp_all

lemma sound_prod: "(\<And>x y. sound c (f x y)) \<Longrightarrow> sound c (case p of (x, y) \<Rightarrow> f x y)"
  by (cases p) simp

subsection \<open>The small actions\<close>

lemma download_state [simp]:
  "fv_download_enabled (update_download_state v) = (fv_enabled (update_download_state v) \<and> selected_filename (update_download_state v) \<noteq> None)"
  by (simp add: update_download_state_def selected_filename_def)

lemma sound_setters:
  "sound c (show_connection online busy)" "sound c (enable_files b)" "sound c (set_status t)"
  "sound c (show_dialog e title message)" "sound c (set_pending b)" "sound c (set_active a)" "sound c (set_cancel n)"
  "sound c close_api" "sound c forget_api"
  unfolding show_connection_def enable_files_def set_status_def show_dialog_def set_pending_def set_active_def set_cancel_def
    close_api_def forget_api_def
  by (rule sound_update; auto simp: desktop_ok_def views_ok_def set_enabled_def split: option.splits)+

definition keeps_percent :: "(transfer_view \<Rightarrow> transfer_view) \<Rightarrow> bool" where
  "keeps_percent f \<longleftrightarrow> (\<forall>v. 0 \<le> tv_percent v \<and> tv_percent v \<le> 100 \<longrightarrow> 0 \<le> tv_percent (f v) \<and> tv_percent (f v) \<le> 100)"

lemma sound_transfer: "keeps_percent f \<Longrightarrow> sound c (change_transfer f)"
  unfolding change_transfer_def by (rule sound_update) (auto simp: desktop_ok_def views_ok_def keeps_percent_def)

lemma percent_kept: "keeps_percent transfer_reset" "keeps_percent (transfer_start x y)" "keeps_percent (transfer_complete x y n)"
  "keeps_percent (transfer_fail x y m)" "keeps_percent (transfer_cancelled x y)" "keeps_percent (set_cancel_enabled b)"
  by (simp_all add: keeps_percent_def transfer_reset_def transfer_start_def transfer_complete_def transfer_fail_def
      transfer_cancelled_def set_cancel_enabled_def)

lemma sound_show_files: "\<forall>entry \<in> set entries. 0 \<le> fe_file_size entry \<Longrightarrow> sound c (show_files casefold entries)"
  by (rule soundI) (auto simp: show_files_def partS_def replace_files_def bindS_def updateS_def desktop_ok_def views_ok_def not_less)

lemma submit_kept: "name \<noteq> [] \<Longrightarrow> \<not> bw_closed w \<Longrightarrow> submit name (Some f) w = (Inr (), w\<lparr>bw_tasks := bw_tasks w @ [Task name f]\<rparr>)"
  by (simp add: submit_Inr)

lemma sound_submit: "name \<noteq> [] \<Longrightarrow> sound False (submit_task name op)"
  by (rule soundI) (auto simp: submit_task_def partS_def submit_kept desktop_ok_def worker_ok_def views_ok_def)

lemmas sound_intros = sound_bind sound_basic sound_if sound_option sound_prod sound_setters sound_transfer percent_kept

lemma task_names [simp]: "CONNECT_TASK \<noteq> []" "DISCONNECT_TASK \<noteq> []" "REFRESH_TASK \<noteq> []" "UPLOAD_TASK \<noteq> []" "DOWNLOAD_TASK \<noteq> []"
  by (simp_all add: CONNECT_TASK_def DISCONNECT_TASK_def REFRESH_TASK_def UPLOAD_TASK_def DOWNLOAD_TASK_def lit_def)

text \<open>An action that only acts on the state it reads.\<close>

lemma sound_read:
  assumes "\<And>s. desktop_ok s \<Longrightarrow> dk_closing s = c \<Longrightarrow> sound c (f s)"
  shows "sound c (bindS (readS (\<lambda>s. s)) f)"
proof (rule soundI)
  fix s
  assume s: "desktop_ok s" "dk_closing s = c"
  from soundD [OF assms [OF s] s]
  show "\<exists>v t. bindS (readS (\<lambda>s. s)) f s = (Inr v, t) \<and> desktop_ok t \<and> dk_closing t = c
      \<and> bw_events (dk_worker t) = bw_events (dk_worker s)" by (simp add: bindS_def readS_def)
qed

lemma api_open: "desktop_ok s \<Longrightarrow> api_authenticated s \<or> api_connected s \<Longrightarrow> \<not> dk_closing s"
  by (auto simp: desktop_ok_def api_authenticated_def api_connected_def current_api_def)

lemma sound_refresh: "sound c refresh_files"
  unfolding refresh_files_def
proof (rule sound_read, rule sound_if)
  fix s
  assume s: "desktop_ok s" "dk_closing s = c" "\<not> (\<not> api_authenticated s \<or> dk_file_task_pending s)"
  then have "c = False" using api_open [OF s(1)] by simp
  then show "sound c (bindS (set_pending True) (\<lambda>_. bindS (enable_files False) (\<lambda>_.
      bindS (set_status (lit ''Refreshing remote files'' @ ellipsis)) (\<lambda>_. submit_task REFRESH_TASK (RunListFiles (the (dk_api s)))))))"
    by (simp add: sound_intros sound_submit)
qed (intro sound_intros)

subsection \<open>The callbacks\<close>

lemma validate_source_Inr: "\<exists>m fs'. validate_upload_source p fs = (Inr m, fs')"
proof -
  have "(\<exists>n. fst (stat_size p fs) = Inr n) \<or> (\<exists>e. fst (stat_size p fs) = Inl e \<and> is_os_error e)"
    by (auto simp: stat_size_def os_call_def split: list.split option.split node.split)
  then show ?thesis
    by (auto simp: validate_upload_source_def tryS_def bindS_def readS_def split: prod.splits sum.splits)
qed

lemma sound_validate: "sound c (partS dk_disk (\<lambda>x s. s\<lparr>dk_disk := x\<rparr>) (validate_upload_source p))"
proof (rule soundI)
  fix s
  assume "desktop_ok s" "dk_closing s = c"
  moreover obtain m fs' where "validate_upload_source p (dk_disk s) = (Inr m, fs')" using validate_source_Inr by blast
  ultimately show "\<exists>v t. partS dk_disk (\<lambda>x s. s\<lparr>dk_disk := x\<rparr>) (validate_upload_source p) s = (Inr v, t) \<and> desktop_ok t
      \<and> dk_closing t = c \<and> bw_events (dk_worker t) = bw_events (dk_worker s)"
    by (simp add: partS_def desktop_ok_def views_ok_def)
qed

lemma sound_begin: "sound c (begin_transfer act verb filename status)"
  unfolding begin_transfer_def by (intro sound_intros)

lemma sound_upload: "sound c (desktop_upload selected)"
  unfolding desktop_upload_def
proof (rule sound_read, rule sound_if)
  fix s
  assume s: "desktop_ok s" "dk_closing s = c" "\<not> (\<not> api_authenticated s \<or> dk_file_task_pending s)"
  then have "c = False" using api_open [OF s(1)] by simp
  then show "sound c (case selected of None \<Rightarrow> returnS () | Some source \<Rightarrow>
      bindS (partS dk_disk (\<lambda>x s. s\<lparr>dk_disk := x\<rparr>) (validate_upload_source source)) (\<lambda>validation_error.
            case validation_error of
              Some message \<Rightarrow> show_dialog True (lit ''Cannot upload file'') message
            | None \<Rightarrow>
                bindS (begin_transfer (lit ''Upload'') (lit ''Uploading'') (path_name source) ellipsis) (\<lambda>_.
                submit_task UPLOAD_TASK (RunUpload (the (dk_api s)) source (path_name source)))))"
    by (simp add: sound_intros sound_submit sound_begin sound_validate split: option.split)
qed (intro sound_intros)

lemma sound_download: "sound c (desktop_download selected)"
  unfolding desktop_download_def
proof (rule sound_read, rule sound_if)
  fix s
  assume s: "desktop_ok s" "dk_closing s = c" "\<not> (\<not> api_authenticated s \<or> dk_file_task_pending s)"
  then have "c = False" using api_open [OF s(1)] by simp
  then show "sound c (case selected_filename (dk_file_view s) of
          None \<Rightarrow> show_dialog False (lit ''Choose a file'') (lit ''Select a remote file to download.'')
        | Some filename \<Rightarrow>
            (case selected of
               None \<Rightarrow> returnS ()
             | Some destination \<Rightarrow>
                 (case validate_download_destination destination (dk_disk s) of
                    Some message \<Rightarrow> show_dialog True (lit ''Cannot save download'') message
                  | None \<Rightarrow>
                      bindS (begin_transfer (lit ''Download'') (lit ''Downloading'') filename (lit ''...'')) (\<lambda>_.
                      submit_task DOWNLOAD_TASK (RunDownload (the (dk_api s)) filename destination)))))"
    by (simp add: sound_intros sound_submit sound_begin split: option.split)
qed (intro sound_intros)

lemma sound_disconnect: "sound c desktop_disconnect"
  unfolding desktop_disconnect_def
proof (rule sound_read, rule sound_if)
  fix s
  assume s: "desktop_ok s" "dk_closing s = c" "\<not> \<not> api_connected s"
  then have "c = False" using api_open [OF s(1)] by simp
  then show "sound c (bindS (show_connection True True) (\<lambda>_. bindS (enable_files False) (\<lambda>_.
       bindS (set_status (lit ''Disconnecting'' @ ellipsis)) (\<lambda>_.
       submit_task DISCONNECT_TASK (RunDisconnect (the (dk_api s)))))))"
    by (simp add: sound_intros sound_submit)
qed (intro sound_intros)

lemma sound_cancel: "sound c cancel_transfer"
  unfolding cancel_transfer_def
  by (rule sound_read) (auto intro!: sound_intros split: option.split)

lemma sound_file_failure: "sound c (handle_file_failure casefold name e)"
  unfolding handle_file_failure_def Let_def by (intro sound_intros sound_show_files) simp_all

lemma sound_failure: "sound c (handle_failure casefold name e)"
  unfolding handle_failure_def Let_def by (intro sound_intros sound_file_failure)

lemma sound_connected: "sound c handle_connected"
  unfolding handle_connected_def by (intro sound_intros sound_refresh)

lemma sound_payload:
  assumes "sound c n" "\<And>x. p = Some (FileListPayload x) \<Longrightarrow> sound c (f x)" "\<And>x. sound c (g x)" "\<And>x. sound c (h x)"
    "\<And>x. sound c (k x)"
  shows "sound c (case p of None \<Rightarrow> n | Some q \<Rightarrow>
     (case q of FileListPayload x \<Rightarrow> f x | UploadPayload x \<Rightarrow> g x | DownloadPayload x \<Rightarrow> h x | ProgressPayload x \<Rightarrow> k x))"
proof (cases p)
  case None
  then show ?thesis using assms(1) by simp
next
  case (Some q)
  then show ?thesis using assms(2-5) by (cases q) simp_all
qed

lemma sound_refreshed: "payload_ok p \<Longrightarrow> sound c (handle_refreshed casefold p)"
  unfolding handle_refreshed_def
  by (intro sound_bind sound_payload sound_setters sound_file_failure sound_show_files) simp_all

lemma sound_uploaded: "sound c (handle_uploaded casefold p)"
  unfolding handle_uploaded_def
  by (intro sound_bind sound_payload sound_setters sound_file_failure sound_transfer percent_kept sound_refresh)

lemma sound_downloaded: "sound c (handle_downloaded casefold p)"
  unfolding handle_downloaded_def Let_def
  by (intro sound_bind sound_payload sound_setters sound_file_failure sound_transfer percent_kept)

lemma sound_disconnected: "sound c (handle_disconnected casefold)"
  unfolding handle_disconnected_def by (intro sound_intros sound_show_files) simp_all

lemma sound_cancelled: "sound c (handle_cancelled casefold)"
  unfolding handle_cancelled_def by (intro sound_intros sound_show_files) simp_all

lemma format_size_Inr: "0 \<le> n \<Longrightarrow> \<exists>t. format_size n = Inr t"
  by (simp add: format_size_def)

lemma py_round_nonneg: "0 \<le> x \<Longrightarrow> 0 \<le> py_round x"
  by (simp add: py_round_def Let_def)

lemma transfer_detail_Inr:
  assumes "0 \<le> n" "0 \<le> m" "tracker_update n m now tr = (snapshot, tr')"
  shows "\<exists>t. format_transfer_detail n m percent snapshot = Inr t"
proof -
  have "0 \<le> ts_bytes_per_second snapshot"
    using assms by (auto simp: tracker_update_def Let_def split: option.splits)
  then obtain a b c where "format_size n = Inr a" "format_size m = Inr b"
    "format_size (py_round (ts_bytes_per_second snapshot)) = Inr c"
    using assms(1,2) format_size_Inr py_round_nonneg by metis
  moreover have "ts_resumed_from snapshot > 0 \<Longrightarrow> \<exists>d. format_size (ts_resumed_from snapshot) = Inr d"
    by (simp add: format_size_Inr)
  ultimately show ?thesis by (auto simp: format_transfer_detail_def)
qed

lemma sound_progress: "payload_ok p \<Longrightarrow> sound c (handle_transfer_progress now p)"
proof (rule soundI)
  fix s
  assume p: "payload_ok p" and s: "desktop_ok s" "dk_closing s = c"
  show "\<exists>v t. handle_transfer_progress now p s = (Inr v, t) \<and> desktop_ok t \<and> dk_closing t = c
      \<and> bw_events (dk_worker t) = bw_events (dk_worker s)"
  proof (cases "\<exists>q. p = Some (ProgressPayload q) \<and> dk_cancel_requested s = None")
    case True
    then obtain q where q: "p = Some (ProgressPayload q)" "dk_cancel_requested s = None" by blast
    obtain snapshot tr where tr: "tracker_update (tp_done q) (tp_total q) now (tv_tracker (dk_transfer s)) = (snapshot, tr)"
      by fastforce
    obtain detail where "format_transfer_detail (tp_done q) (tp_total q) (tp_percent q) snapshot = Inr detail"
      using transfer_detail_Inr [OF _ _ tr] p q(1) by auto
    then show ?thesis
      using q s tr
      by (auto simp: handle_transfer_progress_def update_progress_def partS_def bindS_def readS_def updateS_def desktop_ok_def views_ok_def)
  next
    case False
    then have "handle_transfer_progress now p s = (Inr (), s)"
      by (auto simp: handle_transfer_progress_def bindS_def readS_def split: option.splits ui_payload.splits)
    with s show ?thesis by simp
  qed
qed

lemma sound_event: "payload_ok (ev_payload e) \<Longrightarrow> sound c (handle_event casefold now e)"
proof -
  assume "payload_ok (ev_payload e)"
  note p = sound_refreshed [OF this] sound_progress [OF this]
  have "sound c (updateS (\<lambda>s. if dk_cancel_requested s = Some n then s\<lparr>dk_cancel_requested := None\<rparr> else s))" for n
    by (rule sound_update) (auto simp: desktop_ok_def views_ok_def)
  then have "sound c (handle_completed casefold (ev_task_name e) (ev_payload e))"
    unfolding handle_completed_def
    by (intro sound_intros sound_connected sound_disconnected p sound_uploaded sound_downloaded)
  then show ?thesis
    by (auto simp: handle_event_def intro!: sound_intros sound_cancelled sound_failure p split: ui_event_kind.split)
qed

subsection \<open>Runs of the desktop client\<close>

text \<open>What the user can do; the actions of the file card come last.\<close>

datatype user_input =
    PressConnect "exc + pystr \<times> int \<times> pystr"
  | PressDisconnect
  | PressRefresh
  | PressUpload "path option"
  | PressDownload "path option"
  | PressCancel
  | CloseWindow
  | SelectRow "pystr option"
  | SelectCard pystr
  | SwitchLayout file_layout

fun user_action :: "user_input \<Rightarrow> unit desktop_action" where
  "user_action (PressConnect entered) = desktop_connect entered"
| "user_action PressDisconnect = desktop_disconnect"
| "user_action PressRefresh = refresh_files"
| "user_action (PressUpload selected) = desktop_upload selected"
| "user_action (PressDownload selected) = desktop_download selected"
| "user_action PressCancel = cancel_transfer"
| "user_action CloseWindow = desktop_close"
| "user_action (SelectRow row) = updateS (\<lambda>s. s\<lparr>dk_file_view := selection_changed row (dk_file_view s)\<rparr>)"
| "user_action (SelectCard name) = updateS (\<lambda>s. s\<lparr>dk_file_view := select_grid_file name (dk_file_view s)\<rparr>)"
| "user_action (SwitchLayout layout) = updateS (\<lambda>s. s\<lparr>dk_file_view := set_layout layout (dk_file_view s)\<rparr>)"

definition desktop_start :: "app_config \<Rightarrow> file_system \<Rightarrow> desktop" where
  "desktop_start config disk = \<lparr>dk_base_config = config, dk_apis = [], dk_api = None, dk_file_task_pending = False,
     dk_active_transfer = None, dk_cancel_requested = None, dk_closing = False, dk_worker = new_worker,
     dk_status = lit ''Disconnected'',
     dk_connection = \<lparr>cv_connected = False, cv_entries_enabled = True, cv_connect_enabled = True, cv_disconnect_enabled = False\<rparr>,
     dk_file_view = \<lparr>fv_enabled = False, fv_entries = [], fv_layout = ListLayout, fv_tree_selection = None,
       fv_selected_filename = None, fv_summary = lit ''0 files'', fv_download_enabled = False\<rparr>,
     dk_transfer = \<lparr>tv_description = lit ''No active transfer'', tv_detail = [], tv_percent = 0, tv_cancel_enabled = False,
       tv_tracker = None\<rparr>,
     dk_dialogs = [], dk_destroyed = False, dk_poll_scheduled = True, dk_disk = disk\<rparr>"

definition queue_ok :: "desktop \<Rightarrow> bool" where
  "queue_ok s \<longleftrightarrow> (\<forall>e \<in> set (bw_events (dk_worker s)). payload_ok (ev_payload e))"

text \<open>
  The user acts until the window is destroyed, an event is polled and handled, the worker's thread
  makes a step (reporting no negative sizes), and what an operation does to a client shows.
\<close>

inductive desktop_step :: "desktop \<Rightarrow> desktop \<Rightarrow> bool" where
  user: "\<not> dk_destroyed s \<Longrightarrow> user_action input s = (r, t) \<Longrightarrow> desktop_step s t"
| event: "poll (dk_worker s) = (Some e, w) \<Longrightarrow> handle_event casefold now e (s\<lparr>dk_worker := w\<rparr>) = (r, t) \<Longrightarrow> desktop_step s t"
| thread: "ui_step (dk_worker s) [] w \<Longrightarrow> queue_ok (s\<lparr>dk_worker := w\<rparr>) \<Longrightarrow> desktop_step s (s\<lparr>dk_worker := w\<rparr>)"
| network: "desktop_step s (s\<lparr>dk_apis := (dk_apis s)[i := (config, c)]\<rparr>)"

inductive desktop_reaches :: "desktop \<Rightarrow> desktop \<Rightarrow> bool" for s where
  at_start: "desktop_reaches s s"
| further: "desktop_reaches s t \<Longrightarrow> desktop_step t u \<Longrightarrow> desktop_reaches s u"

lemma connect_outcome:
  assumes "desktop_ok s"
  shows "\<exists>t. desktop_connect entered s = (Inr (), t) \<and> desktop_ok t \<and> dk_closing t = dk_closing s
    \<and> bw_events (dk_worker t) = bw_events (dk_worker s) \<and> (dk_closing s \<longrightarrow> t = s)"
proof (cases "dk_api s \<noteq> None \<or> bw_closed (dk_worker s)")
  case True
  then show ?thesis using assms by (simp add: desktop_connect_def bindS_def readS_def)
next
  case False
  then have open_now: "dk_closing s = False" using assms by (simp add: desktop_ok_def)
  show ?thesis
  proof (cases entered)
    case (Inl e)
    then show ?thesis
      using soundD [OF sound_setters(4) assms open_now, of True "lit ''Invalid connection''" "exc_text e"] False open_now
      by (auto simp: desktop_connect_def bindS_def readS_def)
  next
    case (Inr pair)
    obtain host port username where pair: "pair = (host, port, username)" by (cases pair)
    let ?config = "connection_config (dk_base_config s) host port" and ?api = "length (dk_apis s)"
    let ?s = "s\<lparr>dk_apis := dk_apis s @ [(?config, make_client (Some username) (dk_disk s))], dk_api := Some ?api\<rparr>"
    have "desktop_ok ?s" "dk_closing ?s = False" using assms open_now by (auto simp: desktop_ok_def views_ok_def)
    moreover have "sound False (bindS (show_connection False True) (\<lambda>_. bindS (enable_files False) (\<lambda>_.
        bindS (set_status (lit ''Connecting to '' @ host @ lit '':'' @ dec_int port @ ellipsis)) (\<lambda>_.
        submit_task CONNECT_TASK (RunConnect ?api)))))"
      by (intro sound_bind sound_setters sound_submit) simp
    ultimately obtain t where "bindS (show_connection False True) (\<lambda>_. bindS (enable_files False) (\<lambda>_.
        bindS (set_status (lit ''Connecting to '' @ host @ lit '':'' @ dec_int port @ ellipsis)) (\<lambda>_.
        submit_task CONNECT_TASK (RunConnect ?api)))) ?s = (Inr (), t)" "desktop_ok t" "dk_closing t = False"
        "bw_events (dk_worker t) = bw_events (dk_worker s)"
      using soundD [of False _ ?s] by fastforce
    then show ?thesis
      using False Inr pair open_now by (simp add: desktop_connect_def bindS_def [of "readS f" for f] readS_def Let_def bindS_def [of "updateS f" for f] updateS_def)
  qed
qed

lemma close_outcome:
  assumes "desktop_ok s"
  shows "\<exists>t. desktop_close s = (Inr (), t) \<and> desktop_ok t \<and> dk_closing t
    \<and> bw_events (dk_worker t) = bw_events (dk_worker s) \<and> (dk_closing s \<longrightarrow> t = s)"
  using assms
  by (auto simp: desktop_close_def bindS_def readS_def updateS_def close_api_def forget_api_def desktop_ok_def views_ok_def
      close_worker_def worker_ok_def split: option.split if_splits)

lemma select_sound: "sound c (user_action (SelectRow row))" "sound c (user_action (SelectCard name))"
  "sound c (user_action (SwitchLayout layout))"
  unfolding user_action.simps
  by (rule sound_update; auto simp: desktop_ok_def views_ok_def selection_changed_def select_grid_file_def set_layout_def Let_def)+

lemma user_outcome:
  assumes "desktop_ok s"
  shows "\<exists>t. user_action input s = (Inr (), t) \<and> desktop_ok t \<and> (dk_closing s \<longrightarrow> dk_closing t)
    \<and> bw_events (dk_worker t) = bw_events (dk_worker s)"
proof -
  note s = soundD [OF _ assms refl]
  show ?thesis
  proof (cases input)
    case PressDisconnect then show ?thesis using s [OF sound_disconnect] by fastforce
  next
    case PressRefresh then show ?thesis using s [OF sound_refresh] by fastforce
  next
    case (PressUpload selected) then show ?thesis using s [OF sound_upload] by fastforce
  next
    case (PressDownload selected) then show ?thesis using s [OF sound_download] by fastforce
  next
    case PressCancel then show ?thesis using s [OF sound_cancel] by fastforce
  qed (use connect_outcome [OF assms] close_outcome [OF assms] s [OF select_sound(1)] s [OF select_sound(2)] s [OF select_sound(3)]
      in \<open>fastforce+\<close>)
qed

lemma event_outcome:
  assumes "desktop_ok s" "queue_ok s" "poll (dk_worker s) = (Some e, w)"
  shows "\<exists>t. handle_event casefold now e (s\<lparr>dk_worker := w\<rparr>) = (Inr (), t) \<and> desktop_ok t \<and> queue_ok t
    \<and> dk_closing t = dk_closing s"
proof -
  have w: "bw_events (dk_worker s) = e # bw_events w" "w = (dk_worker s)\<lparr>bw_events := bw_events w\<rparr>"
    using assms(3) by (auto simp: poll_def split: list.splits)
  then have p: "payload_ok (ev_payload e)" using assms(2) by (simp add: queue_ok_def)
  have "desktop_ok (s\<lparr>dk_worker := w\<rparr>)"
    using assms(1) w(2) by (cases w) (auto simp: desktop_ok_def views_ok_def worker_ok_def)
  from soundD [OF sound_event [OF p] this refl]
  obtain t where "handle_event casefold now e (s\<lparr>dk_worker := w\<rparr>) = (Inr (), t)" "desktop_ok t" "dk_closing t = dk_closing s"
    "bw_events (dk_worker t) = bw_events w" by fastforce
  with w(1) assms(2) show ?thesis by (auto simp: queue_ok_def)
qed

lemma desktop_step_ok:
  assumes "desktop_step s t" "desktop_ok s" "queue_ok s"
  shows "desktop_ok t \<and> queue_ok t"
  using assms
proof (cases rule: desktop_step.cases)
  case (user input r)
  then show ?thesis using user_outcome [OF assms(2), of input] assms(3) by (auto simp: queue_ok_def)
next
  case (event e w casefold now r)
  then show ?thesis using event_outcome [OF assms(2,3) event(1), of casefold now] by auto
next
  case (thread w)
  then have "worker_ok w" "bw_closed w = bw_closed (dk_worker s)"
    using assms(2) ui_step_ok [OF thread(2)]
    by (auto simp: desktop_ok_def elim!: ui_step.cases simp: take_task_def announce_def report_def put_event_def split: list.splits task_item.splits)
  then show ?thesis using thread assms(2) by (simp add: desktop_ok_def views_ok_def)
next
  case (network i config c)
  then show ?thesis using assms(2,3) by (simp add: desktop_ok_def views_ok_def queue_ok_def)
qed

lemma desktop_start_ok: "desktop_ok (desktop_start config disk)" "queue_ok (desktop_start config disk)"
  by (auto simp: desktop_start_def desktop_ok_def views_ok_def queue_ok_def new_worker_def worker_ok_def)

lemma desktop_reaches_ok:
  "desktop_reaches s t \<Longrightarrow> desktop_ok s \<Longrightarrow> queue_ok s \<Longrightarrow> desktop_ok t \<and> queue_ok t"
  by (induction rule: desktop_reaches.induct) (auto dest: desktop_step_ok)

text \<open>Once the window is closed, nothing reaches the worker.\<close>

lemma closed_inert:
  assumes "desktop_ok s" "dk_closing s" "user_action input s = (r, t)"
  shows "dk_api t = None \<and> bw_tasks (dk_worker t) = bw_tasks (dk_worker s)"
proof -
  have none: "dk_api s = None" "bw_closed (dk_worker s)" using assms(1,2) by (auto simp: desktop_ok_def)
  then have "\<not> api_authenticated s" "\<not> api_connected s"
    by (simp_all add: api_authenticated_def api_connected_def current_api_def)
  with none assms(2,3) show ?thesis
    by (cases input) (auto simp: desktop_connect_def desktop_disconnect_def refresh_files_def desktop_upload_def desktop_download_def
        cancel_transfer_def desktop_close_def bindS_def readS_def updateS_def split: option.splits prod.splits)
qed

text \<open>
  C22. The desktop client keeps itself together: in every state it can reach, by the user's actions,
  the worker's events, the thread's steps and changes of the network in any order, the worker is
  closed exactly when the application is, which then has no API left; \<open>self.api\<close> is one that was made;
  the progress bar is between 0 and 100; the download button is enabled exactly when the card
  is and a file is selected.  No callback raises there: neither what the user does next nor the
  handling of the next event (so the worker is never handed a task after \<open>close\<close>).
\<close>

theorem desktop_never_raises:
  assumes "desktop_reaches (desktop_start config disk) s"
  shows "desktop_ok s
    \<and> (\<forall>input r t. user_action input s = (r, t) \<longrightarrow> r = Inr ()
         \<and> (dk_closing s \<longrightarrow> dk_api t = None \<and> bw_tasks (dk_worker t) = bw_tasks (dk_worker s)))
    \<and> (\<forall>e w casefold now r t. poll (dk_worker s) = (Some e, w)
         \<longrightarrow> handle_event casefold now e (s\<lparr>dk_worker := w\<rparr>) = (r, t) \<longrightarrow> r = Inr ())"
proof -
  have s: "desktop_ok s" "queue_ok s" using desktop_reaches_ok [OF assms] desktop_start_ok by blast+
  have "r = Inr ()" if "user_action input s = (r, t)" for input r t using user_outcome [OF s(1), of input] that by auto
  moreover have "r = Inr ()" if "poll (dk_worker s) = (Some e, w)" "handle_event casefold now e (s\<lparr>dk_worker := w\<rparr>) = (r, t)"
    for e w casefold now r t using event_outcome [OF s that(1), of casefold now] that(2) by auto
  ultimately show ?thesis using s(1) closed_inert [OF s(1)] by blast
qed

theorem desktop_never_raises_witness:
  "\<exists>t. user_action (PressConnect (Inr (lit ''localhost'', 9000, lit ''ann''))) (desktop_start example_config example_files) = (Inr (), t)
     \<and> desktop_ok t"
proof -
  let ?input = "PressConnect (Inr (lit ''localhost'', 9000, lit ''ann''))"
  obtain r t where run: "user_action ?input (desktop_start example_config example_files) = (r, t)" by fastforce
  have "desktop_reaches (desktop_start example_config example_files) t"
    by (rule further [OF at_start user [OF _ run]]) (simp add: desktop_start_def)
  from desktop_never_raises [OF this] have "desktop_ok t" ..
  moreover from desktop_never_raises [OF at_start] run have "r = Inr ()" by blast
  ultimately show ?thesis using run by blast
qed

subsection \<open>A cancelled upload that had completed\<close>

fun is_button :: "user_input \<Rightarrow> bool" where
  "is_button CloseWindow = False"
| "is_button (SelectRow row) = False"
| "is_button (SelectCard name) = False"
| "is_button (SwitchLayout layout) = False"
| "is_button _ = True"

text \<open>A session that is closed under an API that is kept: no button does anything.\<close>

lemma stuck:
  assumes "dk_api s = Some i" "\<not> cl_connected (snd (dk_apis s ! i))" "\<not> cl_authenticated (snd (dk_apis s ! i))"
    "dk_active_transfer s = None" "is_button input"
  shows "user_action input s = (Inr (), s)"
proof -
  have "\<not> api_authenticated s" "\<not> api_connected s"
    using assms(1-3) by (auto simp: api_authenticated_def api_connected_def current_api_def split: prod.splits)
  then show ?thesis
    using assms(1,4,5)
    by (cases input) (simp_all add: desktop_connect_def desktop_disconnect_def refresh_files_def desktop_upload_def
        desktop_download_def cancel_transfer_def bindS_def readS_def)
qed

lemma refresh_closed: "\<not> api_authenticated s \<Longrightarrow> refresh_files s = (Inr (), s)"
  by (simp add: refresh_files_def bindS_def readS_def)

lemma api_authenticated_cong: "dk_api s = dk_api t \<Longrightarrow> dk_apis s = dk_apis t \<Longrightarrow> api_authenticated s = api_authenticated t"
  by (cases "dk_api t") (simp_all add: api_authenticated_def current_api_def)

lemma uploaded_on_closed:
  assumes "\<not> api_authenticated s"
  shows "\<exists>u. handle_uploaded casefold (Some (UploadPayload result)) s = (Inr (), u)
    \<and> dk_api u = dk_api s \<and> dk_apis u = dk_apis s \<and> dk_active_transfer u = None \<and> dk_worker u = dk_worker s
    \<and> dk_status u = lit ''Uploaded '' @ cu_remote_filename result
    \<and> cv_connected (dk_connection u) \<and> cv_disconnect_enabled (dk_connection u) \<and> \<not> cv_connect_enabled (dk_connection u)"
proof -
  have *: "refresh_files u = (Inr (), u)" if "dk_api u = dk_api s" "dk_apis u = dk_apis s" for u
    using refresh_closed api_authenticated_cong [OF that] assms by simp
  show ?thesis
    by (simp add: handle_uploaded_def bindS_def updateS_def set_pending_def show_connection_def set_state_def set_connected_def
        enable_files_def change_transfer_def set_active_def set_status_def show_dialog_def *)
qed

text \<open>
  C39. Cancelling an upload whose success is still in the event queue leaves the client stuck: the
  session is closed, the event then polled is handled as a success (the card says connected,
  with only the disconnect button enabled), and from there no button of the interface does
  anything: the API is kept, so \<open>connect\<close> returns, and its session is closed, so \<open>disconnect\<close> and
  the transfers return.
\<close>

theorem cancel_after_completion_sticks:
  assumes "dk_api s = Some i" and "i < length (dk_apis s)" and "dk_active_transfer s = Some (lit ''Upload'', filename)"
    and "dk_cancel_requested s = None" and "\<not> bw_closed (dk_worker s)" and "bw_events (dk_worker s) = [e]"
    and "ev_kind e = TASK_COMPLETED" and "ev_task_name e = UPLOAD_TASK" and "ev_payload e = Some (UploadPayload result)"
    and "cancel_transfer s = (q, s1)" and "poll_worker casefold clock s1 = (r, t)"
  shows "q = Inr () \<and> r = Inr () \<and> dk_status t = lit ''Uploaded '' @ cu_remote_filename result
    \<and> cv_connected (dk_connection t) \<and> cv_disconnect_enabled (dk_connection t) \<and> \<not> cv_connect_enabled (dk_connection t)
    \<and> \<not> cl_connected (snd (dk_apis t ! i))
    \<and> (\<forall>input. is_button input \<longrightarrow> user_action input t = (Inr (), t))"
proof -
  obtain config c where api: "dk_apis s ! i = (config, c)" by fastforce
  let ?c = "c\<lparr>cl_connected := False, cl_authenticated := False, cl_user_id := USER_ID\<rparr>"
  have s1: "q = Inr ()" "dk_api s1 = Some i" "dk_apis s1 = (dk_apis s)[i := (config, ?c)]" "dk_cancel_requested s1 = Some UPLOAD_TASK"
    "dk_worker s1 = dk_worker s"
    using assms(1-4,10) api
    by (auto simp: cancel_transfer_def bindS_def readS_def transfer_task_name_def set_cancel_def updateS_def change_transfer_def
        show_connection_def enable_files_def set_status_def close_api_def client_close_def apsnd_def map_prod_def)
  define w where "w = (dk_worker s)\<lparr>bw_events := []\<rparr>"
  have poll: "poll (dk_worker s) = (Some e, w)" using assms(6) by (simp add: poll_def w_def)
  have closed: "\<not> cl_authenticated (snd (dk_apis s1 ! i))" "\<not> cl_connected (snd (dk_apis s1 ! i))"
    using s1(3) assms(2) by simp_all
  obtain u where u: "handle_event casefold (clock (length (bw_events w))) e (s1\<lparr>dk_worker := w, dk_poll_scheduled := False\<rparr>) = (Inr (), u)"
    "dk_api u = Some i" "dk_apis u = dk_apis s1" "dk_active_transfer u = None" "dk_worker u = w"
    "dk_status u = lit ''Uploaded '' @ cu_remote_filename result"
    "cv_connected (dk_connection u)" "cv_disconnect_enabled (dk_connection u)" "\<not> cv_connect_enabled (dk_connection u)"
  proof -
    let ?s = "s1\<lparr>dk_worker := w, dk_poll_scheduled := False, dk_cancel_requested := None\<rparr>"
    have "\<not> api_authenticated ?s" using closed(1) s1(2) by (auto simp: api_authenticated_def current_api_def)
    from uploaded_on_closed [OF this, of casefold result] obtain u where
      "handle_uploaded casefold (Some (UploadPayload result)) ?s = (Inr (), u)" "dk_api u = Some i" "dk_apis u = dk_apis s1"
      "dk_active_transfer u = None" "dk_worker u = w" "dk_status u = lit ''Uploaded '' @ cu_remote_filename result"
      "cv_connected (dk_connection u)" "cv_disconnect_enabled (dk_connection u)" "\<not> cv_connect_enabled (dk_connection u)"
      using s1(2) by auto
    moreover have "UPLOAD_TASK \<noteq> CONNECT_TASK" "UPLOAD_TASK \<noteq> DISCONNECT_TASK" "UPLOAD_TASK \<noteq> REFRESH_TASK"
      by (simp_all add: UPLOAD_TASK_def CONNECT_TASK_def DISCONNECT_TASK_def REFRESH_TASK_def lit_def)
    ultimately show thesis
      using that s1(4) assms(7-9) by (simp add: handle_event_def handle_completed_def bindS_def updateS_def)
  qed
  then have "r = Inr ()" "t = u\<lparr>dk_poll_scheduled := True\<rparr>"
    using assms(5,11) poll s1(5)
    by (simp_all add: poll_worker.simps [of casefold clock s1] poll_worker.simps [of casefold clock u] w_def poll_def)
  with s1(1) u closed stuck [of t i] show ?thesis by simp
qed

definition uploaded_desktop :: desktop where
  "uploaded_desktop = (desktop_start example_config example_files)\<lparr>
     dk_apis := [(example_config, make_client (Some [97]) example_files)], dk_api := Some 0, dk_file_task_pending := True,
     dk_active_transfer := Some (lit ''Upload'', [102]),
     dk_worker := new_worker\<lparr>bw_events := [outcome_event UPLOAD_TASK (Inr (Some (UploadPayload
       \<lparr>cu_source = [[102]], cu_remote_filename = [102], cu_bytes_sent = 3, cu_sha256_digest = []\<rparr>)))]\<rparr>\<rparr>"

theorem cancel_after_completion_sticks_witness:
  "\<exists>t. poll_worker id (\<lambda>n. 0) (snd (cancel_transfer uploaded_desktop)) = (Inr (), t)
     \<and> user_action (PressConnect (Inr (lit ''localhost'', 9000, [97]))) t = (Inr (), t)"
proof -
  obtain q s1 where c: "cancel_transfer uploaded_desktop = (q, s1)" by fastforce
  obtain r t where p: "poll_worker id (\<lambda>n. 0) s1 = (r, t)" by fastforce
  from cancel_after_completion_sticks [OF _ _ _ _ _ _ _ _ _ c p, of 0 "[102]"
      "outcome_event UPLOAD_TASK (Inr (Some (UploadPayload
       \<lparr>cu_source = [[102]], cu_remote_filename = [102], cu_bytes_sent = 3, cu_sha256_digest = []\<rparr>)))"]
  have done_all: "r = Inr () \<and> (\<forall>input. is_button input \<longrightarrow> user_action input t = (Inr (), t))"
    by (simp add: uploaded_desktop_def desktop_start_def new_worker_def)
  then have "is_button input \<Longrightarrow> user_action input t = (Inr (), t)" for input by blast
  from this [of "PressConnect (Inr (lit ''localhost'', 9000, [97]))"] show ?thesis using c p done_all by simp
qed

end
