(* ===== verification/Shell.thy ===== *)
theory Shell
  imports DesktopViews
begin

section \<open>The window of the desktop client\<close>

text \<open>
  What \<open>src/hcmus_socket/ui/app.py\<close> does besides the transfers: pages, themes, the layout of the
  file list and the compact layout of narrow windows, with the parts of \<open>theme.py\<close>,
  \<open>settings_view.py\<close>, \<open>file_view.py\<close>, \<open>connection_view.py\<close> and \<open>transfer_view.py\<close> that take part.
  The state holds what is shown: which frames are packed, which button is highlighted, the texts
  that change and the file cards of the grid.  Sizes in pixels, fonts and style
  options are left out.
\<close>

subsection \<open>Palettes\<close>

type_synonym palette = "(pystr \<times> pystr) list"

definition PALETTES :: "(pystr \<times> palette) list" where
  "PALETTES =
     [(lit ''light'',
       [(lit ''window'', lit ''#F5F9FD''), (lit ''sidebar'', lit ''#ECF8FB''), (lit ''card'', lit ''#FFFFFF''),
        (lit ''border'', lit ''#DDE8F2''), (lit ''text'', lit ''#112344''), (lit ''muted'', lit ''#61708C''),
        (lit ''accent'', lit ''#079C91''), (lit ''accent_hover'', lit ''#087F79''), (lit ''cyan'', lit ''#089FC1''),
        (lit ''success'', lit ''#159447''), (lit ''danger'', lit ''#EF4B55''), (lit ''disabled'', lit ''#A5AFC2''),
        (lit ''track'', lit ''#E7EDF4''), (lit ''input'', lit ''#FFFFFF''), (lit ''soft'', lit ''#EFF8FC''),
        (lit ''selection'', lit ''#DDF5F4''), (lit ''heading'', lit ''#F8FBFE'')]),
      (lit ''dark'',
       [(lit ''window'', lit ''#0E1726''), (lit ''sidebar'', lit ''#101F31''), (lit ''card'', lit ''#17263A''),
        (lit ''border'', lit ''#2A3D55''), (lit ''text'', lit ''#EAF2FF''), (lit ''muted'', lit ''#9EB0C8''),
        (lit ''accent'', lit ''#16B8AA''), (lit ''accent_hover'', lit ''#0E958B''), (lit ''cyan'', lit ''#42C7E8''),
        (lit ''success'', lit ''#55D68A''), (lit ''danger'', lit ''#FF747D''), (lit ''disabled'', lit ''#66758A''),
        (lit ''track'', lit ''#2A3A50''), (lit ''input'', lit ''#101C2C''), (lit ''soft'', lit ''#20344A''),
        (lit ''selection'', lit ''#245A59''), (lit ''heading'', lit ''#1C2D43'')])]"

definition palette_for :: "pystr \<Rightarrow> exc + palette" where
  "palette_for mode =
     (case map_of PALETTES mode of
        None \<Rightarrow> Inl (ValueError (lit ''theme mode must be '' @ [39] @ lit ''light'' @ [39] @ lit '' or '' @ [39] @ lit ''dark'' @ [39]))
      | Some colors \<Rightarrow> Inr colors)"

text \<open>The colour of the cards, which \<open>apply_palette\<close> gives the canvas of the grid.\<close>

definition card_color :: "palette \<Rightarrow> pystr" where
  "card_color colors = the (map_of colors (lit ''card''))"

subsection \<open>The file browser\<close>

record grid_card =
  gc_filename :: pystr
  gc_size_text :: pystr
  gc_active :: bool
  gc_row :: int
  gc_column :: int

record file_browser =
  fb_view :: file_view
  fb_compact :: bool
  fb_grid_columns :: int
  fb_cards :: "grid_card list"
  fb_table_shown :: bool
  fb_canvas_shown :: bool
  fb_list_active :: bool
  fb_grid_active :: bool
  fb_empty_message :: pystr
  fb_empty_shown :: bool
  fb_canvas_background :: pystr
  fb_controls_placed :: bool \<comment> \<open>beside the header, or packed below it\<close>
  fb_tree_height :: int
  fb_upload_text :: pystr
  fb_download_text :: pystr

type_synonym 'a browser_action = "(exc, file_browser, 'a) action"

definition connect_hint :: pystr where
  "connect_hint = lit ''No files to display'' @ [10] @ lit ''Connect to a server and refresh the file list.''"

definition upload_hint :: pystr where
  "upload_hint = lit ''No files to display'' @ [10] @ lit ''Upload a file or refresh the remote file list.''"

definition change_view :: "(file_view \<Rightarrow> file_view) \<Rightarrow> file_browser \<Rightarrow> file_browser" where
  "change_view f b = b\<lparr>fb_view := f (fb_view b)\<rparr>"

fun add_cards :: "int \<Rightarrow> file_entry list \<Rightarrow> unit browser_action" where
  "add_cards index [] = returnS ()"
| "add_cards index (entry # entries) =
     bindS (liftS (format_size (fe_file_size entry))) (\<lambda>size_text.
     bindS (updateS (\<lambda>b. b\<lparr>fb_cards := fb_cards b @ [\<lparr>gc_filename = fe_filename entry, gc_size_text = size_text,
       gc_active = (Some (fe_filename entry) = fv_selected_filename (fb_view b)),
       gc_row = index div fb_grid_columns b, gc_column = index mod fb_grid_columns b\<rparr>]\<rparr>)) (\<lambda>_.
     add_cards (index + 1) entries))"

definition render_grid :: "unit browser_action" where
  "render_grid =
     bindS (updateS (\<lambda>b. b\<lparr>fb_cards := []\<rparr>)) (\<lambda>_.
     bindS (readS (\<lambda>b. fv_entries (fb_view b))) (\<lambda>entries. add_cards 0 entries))"

definition update_empty_state :: "file_browser \<Rightarrow> file_browser" where
  "update_empty_state b =
     (if fv_entries (fb_view b) \<noteq> [] then b\<lparr>fb_empty_shown := False\<rparr>
      else b\<lparr>fb_empty_message := (if fv_enabled (fb_view b) then upload_hint else fb_empty_message b), fb_empty_shown := True\<rparr>)"

definition browser_replace :: "(pystr \<Rightarrow> pystr) \<Rightarrow> file_entry list \<Rightarrow> unit browser_action" where
  "browser_replace casefold entries =
     bindS (partS fb_view (\<lambda>v b. b\<lparr>fb_view := v\<rparr>) (replace_files casefold entries)) (\<lambda>_.
     bindS render_grid (\<lambda>_. updateS update_empty_state))"

text \<open>Up to the call of \<open>_on_layout_change\<close>, which the window makes.\<close>

definition browser_set_layout :: "file_layout \<Rightarrow> unit browser_action" where
  "browser_set_layout layout =
     bindS (updateS (\<lambda>b. b\<lparr>fb_view := set_layout layout (fb_view b), fb_table_shown := (layout = ListLayout),
       fb_canvas_shown := (layout = GridLayout)\<rparr>)) (\<lambda>_.
     bindS (if layout = GridLayout then render_grid else returnS ()) (\<lambda>_.
     updateS (\<lambda>b. update_empty_state (b\<lparr>fb_list_active := (layout = ListLayout), fb_grid_active := (layout = GridLayout)\<rparr>))))"

definition browser_set_compact :: "bool \<Rightarrow> unit browser_action" where
  "browser_set_compact narrow =
     bindS (readS fb_compact) (\<lambda>now.
     if now = narrow then returnS ()
     else
       bindS (updateS (\<lambda>b. b\<lparr>fb_compact := narrow, fb_grid_columns := (if narrow then 1 else 3),
         fb_controls_placed := \<not> narrow, fb_tree_height := (if narrow then 3 else 9),
         fb_upload_text := (if narrow then lit ''Upload...'' else [0x2601] @ lit ''  Upload...''),
         fb_download_text := (if narrow then lit ''Download'' else [0x21E9] @ lit ''  Download'')\<rparr>)) (\<lambda>_.
       bindS render_grid (\<lambda>_. updateS update_empty_state)))"

definition browser_set_enabled :: "bool \<Rightarrow> file_browser \<Rightarrow> file_browser" where
  "browser_set_enabled enabled b =
     change_view (set_enabled enabled)
       (if \<not> enabled \<and> fv_entries (fb_view b) = [] then b\<lparr>fb_empty_message := connect_hint\<rparr> else b)"

definition browser_select_card :: "pystr \<Rightarrow> unit browser_action" where
  "browser_select_card filename =
     bindS (updateS (change_view (\<lambda>v. v\<lparr>fv_selected_filename := Some filename\<rparr>))) (\<lambda>_.
     bindS render_grid (\<lambda>_. updateS (change_view update_download_state)))"

text \<open>Does a double click call \<open>_on_download\<close>?\<close>

definition on_double_click :: "file_browser \<Rightarrow> bool" where
  "on_double_click b \<longleftrightarrow> fv_enabled (fb_view b) \<and> selected_filename (fb_view b) \<noteq> None"

definition on_grid_double_click :: "file_browser \<Rightarrow> bool" where
  "on_grid_double_click b \<longleftrightarrow> fv_enabled (fb_view b) \<and> fv_selected_filename (fb_view b) \<noteq> None"

subsection \<open>The cells of the two other cards\<close>

text \<open>\<open>widget.grid(row, column, rowspan, columnspan)\<close>\<close>

record cell =
  ce_widget :: pystr
  ce_row :: nat
  ce_column :: nat
  ce_rowspan :: nat
  ce_columnspan :: nat

definition grid_cell :: "pystr \<Rightarrow> nat \<Rightarrow> nat \<Rightarrow> nat \<Rightarrow> nat \<Rightarrow> cell" where
  "grid_cell widget row column rowspan columnspan =
     \<lparr>ce_widget = widget, ce_row = row, ce_column = column, ce_rowspan = rowspan, ce_columnspan = columnspan\<rparr>"

datatype connection_layout = NormalLayout | CompactLayout | CompactConnectedLayout

definition connection_fields :: "(pystr \<times> pystr) list" where
  "connection_fields = [(lit ''host_label'', lit ''host_entry''), (lit ''port_label'', lit ''port_entry''),
     (lit ''username_label'', lit ''username_entry'')]"

definition layout_normal :: "cell list" where
  "layout_normal =
     grid_cell (lit ''header'') 0 0 1 5
     # concat (map (\<lambda>(column, label, entry). [grid_cell label 1 column 1 1, grid_cell entry 2 column 1 1])
         (zip [0..<3] connection_fields))
     @ [grid_cell (lit ''connect_button'') 2 3 1 1, grid_cell (lit ''disconnect_button'') 2 4 1 1]"

definition layout_compact :: "cell list" where
  "layout_compact =
     grid_cell (lit ''header'') 0 0 1 2
     # concat (map (\<lambda>(index, label, entry). let row = 1 + index * 2 in [grid_cell label row 0 1 2, grid_cell entry (row + 1) 0 1 2])
         (zip [0..<3] connection_fields))
     @ [grid_cell (lit ''connect_button'') 7 0 1 1, grid_cell (lit ''disconnect_button'') 7 1 1 1]"

definition layout_compact_connected :: "cell list" where
  "layout_compact_connected = [grid_cell (lit ''header'') 0 0 1 1, grid_cell (lit ''disconnect_button'') 1 0 1 1]"

fun connection_cells :: "connection_layout \<Rightarrow> cell list" where
  "connection_cells NormalLayout = layout_normal"
| "connection_cells CompactLayout = layout_compact"
| "connection_cells CompactConnectedLayout = layout_compact_connected"

text \<open>The transfer card: its two titles stay, the other four widgets move.\<close>

definition transfer_titles :: "cell list" where
  "transfer_titles = [grid_cell (lit ''title'') 0 0 1 1, grid_cell (lit ''subtitle'') 1 0 1 1]"

definition transfer_cells :: "bool \<Rightarrow> cell list" where
  "transfer_cells narrow =
     (if narrow then
        [grid_cell (lit ''description_label'') 2 0 1 2, grid_cell (lit ''detail_label'') 3 0 1 2,
         grid_cell (lit ''progress'') 4 0 1 2, grid_cell (lit ''cancel_button'') 0 1 2 1]
      else
        [grid_cell (lit ''description_label'') 2 0 1 1, grid_cell (lit ''detail_label'') 2 1 1 1,
         grid_cell (lit ''progress'') 3 0 1 2, grid_cell (lit ''cancel_button'') 0 1 2 1])"

definition occupied :: "cell \<Rightarrow> (nat \<times> nat) list" where
  "occupied c = concat (map (\<lambda>i. map (\<lambda>j. (ce_row c + i, ce_column c + j)) [0..<ce_columnspan c]) [0..<ce_rowspan c])"

definition no_overlap :: "cell list \<Rightarrow> bool" where
  "no_overlap cells \<longleftrightarrow> distinct (concat (map occupied cells))"

subsection \<open>The window\<close>

datatype page_frame = MainFrame | SettingsFrame | AboutFrame

text \<open>Lists of buttons: the page and whether it is highlighted.\<close>

record shell =
  sl_closing :: bool
  sl_theme_mode :: pystr
  sl_file_layout :: file_layout
  sl_compact :: bool
  sl_packed :: "page_frame list"
  sl_nav_buttons :: "(pystr \<times> bool) list"
  sl_compact_nav_buttons :: "(pystr \<times> bool) list"
  sl_sidebar :: bool
  sl_compact_nav :: bool
  sl_sidebar_theme_text :: pystr
  sl_compact_theme_text :: pystr
  sl_settings_theme :: pystr
  sl_settings_layout :: file_layout
  sl_connected :: bool
  sl_connection_compact :: bool
  sl_connection_layout :: connection_layout
  sl_browser :: file_browser
  sl_transfer_compact :: bool
  sl_downloads :: nat \<comment> \<open>calls of \<open>download_file\<close>\<close>

type_synonym 'a shell_action = "(exc, shell, 'a) action"

definition in_browser :: "'a browser_action \<Rightarrow> 'a shell_action" where
  "in_browser = partS sl_browser (\<lambda>b s. s\<lparr>sl_browser := b\<rparr>)"

definition highlight :: "pystr \<Rightarrow> (pystr \<times> bool) list \<Rightarrow> (pystr \<times> bool) list" where
  "highlight page buttons = map (\<lambda>(name, active). (name, name = page)) buttons"

definition show_page :: "pystr \<Rightarrow> shell \<Rightarrow> shell" where
  "show_page page s =
     s\<lparr>sl_packed := [if page = lit ''settings'' then SettingsFrame else if page = lit ''about'' then AboutFrame else MainFrame],
       sl_nav_buttons := highlight page (sl_nav_buttons s),
       sl_compact_nav_buttons := highlight (if page \<in> {lit ''settings'', lit ''about''} then page else lit ''connection'')
         (sl_compact_nav_buttons s)\<rparr>"

definition set_theme :: "pystr \<Rightarrow> unit shell_action" where
  "set_theme mode =
     bindS (liftS (palette_for mode)) (\<lambda>colors.
     updateS (\<lambda>s. s\<lparr>sl_theme_mode := mode, sl_browser := (sl_browser s)\<lparr>fb_canvas_background := card_color colors\<rparr>,
       sl_settings_theme := mode,
       sl_sidebar_theme_text := (if mode = lit ''dark'' then [0x2600] @ lit ''  Light mode'' else [0x263E] @ lit ''  Dark mode''),
       sl_compact_theme_text := (if mode = lit ''dark'' then lit ''Light'' else lit ''Dark'')\<rparr>))"

definition toggle_theme :: "unit shell_action" where
  "toggle_theme =
     bindS (readS sl_theme_mode) (\<lambda>mode. set_theme (if mode = lit ''light'' then lit ''dark'' else lit ''light''))"

text \<open>The three cards.\<close>

definition connection_layout_for :: "shell \<Rightarrow> connection_layout" where
  "connection_layout_for s =
     (if sl_connection_compact s then if sl_connected s then CompactConnectedLayout else CompactLayout else NormalLayout)"

definition connection_set_compact :: "bool \<Rightarrow> shell \<Rightarrow> shell" where
  "connection_set_compact narrow s =
     (if sl_connection_compact s = narrow then s
      else let t = s\<lparr>sl_connection_compact := narrow\<rparr> in t\<lparr>sl_connection_layout := connection_layout_for t\<rparr>)"

definition connection_set_connected :: "bool \<Rightarrow> shell \<Rightarrow> shell" where
  "connection_set_connected online s =
     (let t = s\<lparr>sl_connected := online\<rparr> in
      if sl_connection_compact t then t\<lparr>sl_connection_layout := connection_layout_for t\<rparr> else t)"

definition transfer_set_compact :: "bool \<Rightarrow> shell \<Rightarrow> shell" where
  "transfer_set_compact narrow s = (if sl_transfer_compact s = narrow then s else s\<lparr>sl_transfer_compact := narrow\<rparr>)"

definition set_compact :: "bool \<Rightarrow> unit shell_action" where
  "set_compact narrow =
     bindS (readS sl_compact) (\<lambda>now.
     if now = narrow then returnS ()
     else
       bindS (updateS (\<lambda>s. connection_set_compact narrow
         (s\<lparr>sl_compact := narrow, sl_sidebar := \<not> narrow, sl_compact_nav := narrow\<rparr>))) (\<lambda>_.
       bindS (in_browser (browser_set_compact narrow)) (\<lambda>_.
       updateS (transfer_set_compact narrow))))"

definition COMPACT_BREAKPOINT :: int where "COMPACT_BREAKPOINT = 780"

text \<open>\<open>_on_root_configure\<close> for the root, and \<open>_initialize_responsive_layout\<close>: the width of the window\<close>

definition on_root_configure :: "int \<Rightarrow> unit shell_action" where
  "on_root_configure width =
     bindS (readS sl_closing) (\<lambda>closing. if closing then returnS () else set_compact (width < COMPACT_BREAKPOINT))"

definition set_file_layout :: "file_layout \<Rightarrow> unit shell_action" where
  "set_file_layout layout =
     bindS (updateS (\<lambda>s. s\<lparr>sl_file_layout := layout\<rparr>)) (\<lambda>_.
     bindS (readS (\<lambda>s. fv_layout (fb_view (sl_browser s)))) (\<lambda>shown.
     bindS (if shown \<noteq> layout then in_browser (browser_set_layout layout) else returnS ()) (\<lambda>_.
     updateS (\<lambda>s. s\<lparr>sl_settings_layout := layout\<rparr>))))"

text \<open>The buttons of the file card notify the window.\<close>

definition click_layout :: "file_layout \<Rightarrow> unit shell_action" where
  "click_layout layout = bindS (in_browser (browser_set_layout layout)) (\<lambda>_. set_file_layout layout)"

definition double_click :: "(file_browser \<Rightarrow> bool) \<Rightarrow> unit shell_action" where
  "double_click starts =
     updateS (\<lambda>s. if starts (sl_browser s) then s\<lparr>sl_downloads := sl_downloads s + 1\<rparr> else s)"

subsection \<open>Events\<close>

text \<open>
  What reaches the window: the user's clicks, the radio buttons of the settings page (which change
  their variable first), the size of the window, and the calls the controller makes.
\<close>

datatype shell_event =
    ShowPage pystr
  | ToggleTheme
  | ChooseTheme pystr
  | ChooseLayout file_layout
  | ClickLayout file_layout
  | Resize int
  | SelectRow "pystr option"
  | SelectCard pystr
  | DoubleClickRow
  | DoubleClickCard
  | SetConnected bool
  | SetEnabled bool
  | ReplaceFiles "file_entry list"
  | CloseWindow

fun window_event :: "(pystr \<Rightarrow> pystr) \<Rightarrow> shell_event \<Rightarrow> unit shell_action" where
  "window_event casefold (ShowPage page) = updateS (show_page page)"
| "window_event casefold ToggleTheme = toggle_theme"
| "window_event casefold (ChooseTheme mode) = bindS (updateS (\<lambda>s. s\<lparr>sl_settings_theme := mode\<rparr>)) (\<lambda>_. set_theme mode)"
| "window_event casefold (ChooseLayout layout) =
     bindS (updateS (\<lambda>s. s\<lparr>sl_settings_layout := layout\<rparr>)) (\<lambda>_. set_file_layout layout)"
| "window_event casefold (ClickLayout layout) = click_layout layout"
| "window_event casefold (Resize width) = on_root_configure width"
| "window_event casefold (SelectRow row) = in_browser (updateS (change_view (selection_changed row)))"
| "window_event casefold (SelectCard filename) = in_browser (browser_select_card filename)"
| "window_event casefold DoubleClickRow = double_click on_double_click"
| "window_event casefold DoubleClickCard = double_click on_grid_double_click"
| "window_event casefold (SetConnected online) = updateS (connection_set_connected online)"
| "window_event casefold (SetEnabled enabled) = in_browser (updateS (browser_set_enabled enabled))"
| "window_event casefold (ReplaceFiles entries) = in_browser (browser_replace casefold entries)"
| "window_event casefold CloseWindow = updateS (\<lambda>s. s\<lparr>sl_closing := True\<rparr>)"

fun shell_run :: "(pystr \<Rightarrow> pystr) \<Rightarrow> shell_event list \<Rightarrow> unit shell_action" where
  "shell_run casefold [] = returnS ()"
| "shell_run casefold (e # es) = bindS (window_event casefold e) (\<lambda>_. shell_run casefold es)"

text \<open>The state at the end of \<open>__init__\<close>.\<close>

definition shell_start :: shell where
  "shell_start = show_page (lit ''connection'')
     \<lparr>sl_closing = False, sl_theme_mode = lit ''light'', sl_file_layout = ListLayout, sl_compact = False, sl_packed = [],
      sl_nav_buttons = map (\<lambda>t. (t, False)) [lit ''connection'', lit ''files'', lit ''transfer'', lit ''settings'', lit ''about''],
      sl_compact_nav_buttons = map (\<lambda>t. (t, False)) [lit ''connection'', lit ''settings'', lit ''about''],
      sl_sidebar = True, sl_compact_nav = False, sl_sidebar_theme_text = [0x263E] @ lit ''  Dark mode'',
      sl_compact_theme_text = lit ''Dark'', sl_settings_theme = lit ''light'', sl_settings_layout = ListLayout,
      sl_connected = False, sl_connection_compact = False, sl_connection_layout = NormalLayout,
      sl_browser =
        \<lparr>fb_view = \<lparr>fv_enabled = False, fv_entries = [], fv_layout = ListLayout, fv_tree_selection = None,
           fv_selected_filename = None, fv_summary = lit ''0 files'', fv_download_enabled = False\<rparr>,
         fb_compact = False, fb_grid_columns = 3, fb_cards = [], fb_table_shown = True, fb_canvas_shown = False,
         fb_list_active = True, fb_grid_active = False, fb_empty_message = connect_hint, fb_empty_shown = True,
         fb_canvas_background = lit ''#FFFFFF'', fb_controls_placed = True, fb_tree_height = 9,
         fb_upload_text = [0x2601] @ lit ''  Upload...'', fb_download_text = [0x21E9] @ lit ''  Download''\<rparr>,
      sl_transfer_compact = False, sl_downloads = 0\<rparr>"

end
