(* ===== verification/ShellSafety.thy ===== *)
theory ShellSafety
  imports Shell
begin

section \<open>The window stays consistent\<close>

definition pages :: "pystr list" where
  "pages = [lit ''connection'', lit ''files'', lit ''transfer'', lit ''settings'', lit ''about'']"

definition compact_pages :: "pystr list" where
  "compact_pages = [lit ''connection'', lit ''settings'', lit ''about'']"

text \<open>Exactly one button of each bar is highlighted and one frame is packed, all for the same page.\<close>

definition page_shown :: "pystr \<Rightarrow> shell \<Rightarrow> bool" where
  "page_shown page s \<longleftrightarrow> page \<in> set pages
     \<and> sl_packed s = [if page = lit ''settings'' then SettingsFrame else if page = lit ''about'' then AboutFrame else MainFrame]
     \<and> sl_nav_buttons s = map (\<lambda>name. (name, name = page)) pages
     \<and> sl_compact_nav_buttons s
         = map (\<lambda>name. (name, name = (if page \<in> {lit ''settings'', lit ''about''} then page else lit ''connection''))) compact_pages"

definition browser_ok :: "bool \<Rightarrow> file_browser \<Rightarrow> bool" where
  "browser_ok narrow b \<longleftrightarrow> fb_compact b = narrow \<and> fb_grid_columns b = (if narrow then 1 else 3)
     \<and> fb_table_shown b = (fv_layout (fb_view b) = ListLayout) \<and> fb_canvas_shown b = (fv_layout (fb_view b) = GridLayout)
     \<and> fb_list_active b = fb_table_shown b \<and> fb_grid_active b = fb_canvas_shown b
     \<and> fb_empty_shown b = (fv_entries (fb_view b) = [])
     \<and> list_all (\<lambda>e. 0 \<le> fe_file_size e) (fv_entries (fb_view b))
     \<and> map gc_filename (fb_cards b) = map fe_filename (fv_entries (fb_view b))
     \<and> map (\<lambda>c. (gc_row c, gc_column c)) (fb_cards b)
         = map (\<lambda>i. (int i div fb_grid_columns b, int i mod fb_grid_columns b)) [0..<length (fb_cards b)]
     \<and> fv_download_enabled (fb_view b) = (fv_enabled (fb_view b) \<and> selected_filename (fb_view b) \<noteq> None)"

definition theme_ok :: "shell \<Rightarrow> bool" where
  "theme_ok s \<longleftrightarrow> sl_theme_mode s \<in> {lit ''light'', lit ''dark''} \<and> sl_settings_theme s = sl_theme_mode s
     \<and> (\<exists>colors. palette_for (sl_theme_mode s) = Inr colors \<and> fb_canvas_background (sl_browser s) = card_color colors)
     \<and> sl_compact_theme_text s = (if sl_theme_mode s = lit ''dark'' then lit ''Light'' else lit ''Dark'')"

definition shell_ok :: "shell \<Rightarrow> bool" where
  "shell_ok s \<longleftrightarrow> (\<exists>page. page_shown page s) \<and> theme_ok s \<and> browser_ok (sl_compact s) (sl_browser s)
     \<and> sl_sidebar s = (\<not> sl_compact s) \<and> sl_compact_nav s = sl_compact s
     \<and> sl_connection_compact s = sl_compact s \<and> sl_transfer_compact s = sl_compact s
     \<and> sl_connection_layout s = connection_layout_for s
     \<and> sl_settings_layout s = sl_file_layout s \<and> fv_layout (fb_view (sl_browser s)) = sl_file_layout s"

fun event_ok :: "shell_event \<Rightarrow> bool" where
  "event_ok (ShowPage page) = (page \<in> set pages)"
| "event_ok (ChooseTheme mode) = (mode \<in> {lit ''light'', lit ''dark''})"
| "event_ok (ReplaceFiles entries) = list_all (\<lambda>e. 0 \<le> fe_file_size e) entries"
| "event_ok _ = True"

subsection \<open>The grid\<close>

lemma add_cards_run:
  assumes "list_all (\<lambda>e. 0 \<le> fe_file_size e) entries"
  shows "\<exists>cards. add_cards index entries b = (Inr (), b\<lparr>fb_cards := fb_cards b @ cards\<rparr>) \<and> map gc_filename cards = map fe_filename entries
    \<and> map (\<lambda>c. (gc_row c, gc_column c)) cards
        = map (\<lambda>i. ((index + int i) div fb_grid_columns b, (index + int i) mod fb_grid_columns b)) [0..<length entries]"
  using assms
proof (induction entries arbitrary: index b)
  case (Cons e es)
  obtain t where t: "format_size (fe_file_size e) = Inr t" using Cons.prems by (simp add: format_size_def)
  let ?c = "\<lparr>gc_filename = fe_filename e, gc_size_text = t, gc_active = (Some (fe_filename e) = fv_selected_filename (fb_view b)),
    gc_row = index div fb_grid_columns b, gc_column = index mod fb_grid_columns b\<rparr>"
  obtain cards where c: "add_cards (index + 1) es (b\<lparr>fb_cards := fb_cards b @ [?c]\<rparr>)
      = (Inr (), b\<lparr>fb_cards := (fb_cards b @ [?c]) @ cards\<rparr>)" "map gc_filename cards = map fe_filename es"
    "map (\<lambda>c. (gc_row c, gc_column c)) cards
      = map (\<lambda>i. ((index + 1 + int i) div fb_grid_columns b, (index + 1 + int i) mod fb_grid_columns b)) [0..<length es]"
    using Cons.IH [of "index + 1" "b\<lparr>fb_cards := fb_cards b @ [?c]\<rparr>"] Cons.prems by auto
  have "[0..<length (e # es)] = 0 # map Suc [0..<length es]" by (simp add: upt_conv_Cons map_Suc_upt del: upt_Suc)
  then show ?case
    using c t by (intro exI [of _ "?c # cards"]) (simp add: bindS_def updateS_def o_def add.assoc del: upt_Suc)
qed simp

lemma render_grid_run:
  assumes "list_all (\<lambda>e. 0 \<le> fe_file_size e) (fv_entries (fb_view b))"
  obtains cards where "render_grid b = (Inr (), b\<lparr>fb_cards := cards\<rparr>)" "map gc_filename cards = map fe_filename (fv_entries (fb_view b))"
    "map (\<lambda>c. (gc_row c, gc_column c)) cards
        = map (\<lambda>i. (int i div fb_grid_columns b, int i mod fb_grid_columns b)) [0..<length cards]"
proof -
  obtain cards where c: "add_cards 0 (fv_entries (fb_view b)) (b\<lparr>fb_cards := []\<rparr>) = (Inr (), b\<lparr>fb_cards := cards\<rparr>)"
    "map gc_filename cards = map fe_filename (fv_entries (fb_view b))"
    "map (\<lambda>c. (gc_row c, gc_column c)) cards
      = map (\<lambda>i. (int i div fb_grid_columns b, int i mod fb_grid_columns b)) [0..<length (fv_entries (fb_view b))]"
    using add_cards_run [OF assms, of 0 "b\<lparr>fb_cards := []\<rparr>"] by auto
  have "length cards = length (fv_entries (fb_view b))" using c(2) by (rule map_eq_imp_length_eq)
  then show thesis using c by (intro that [of cards]) (simp_all add: render_grid_def bindS_def updateS_def readS_def)
qed

subsection \<open>Every operation keeps it\<close>

definition steady :: "bool \<Rightarrow> bool \<Rightarrow> unit browser_action \<Rightarrow> bool" where
  "steady before after act \<longleftrightarrow> (\<forall>b. browser_ok before b \<longrightarrow>
     (\<exists>t. act b = (Inr (), t) \<and> browser_ok after t \<and> fb_canvas_background t = fb_canvas_background b
        \<and> fv_layout (fb_view t) = fv_layout (fb_view b)))"

lemma steady_update:
  "(\<And>b. browser_ok c b \<Longrightarrow> browser_ok c (f b) \<and> fb_canvas_background (f b) = fb_canvas_background b
     \<and> fv_layout (fb_view (f b)) = fv_layout (fb_view b)) \<Longrightarrow> steady c c (updateS f)"
  by (simp add: steady_def updateS_def)

lemmas view_defs = change_view_def selection_changed_def update_download_state_def selected_filename_def set_enabled_def
  browser_set_enabled_def set_layout_def update_empty_state_def

lemma steady_views:
  "steady c c (updateS (change_view (selection_changed row)))" "steady c c (updateS (browser_set_enabled enabled))"
  by (rule steady_update; auto simp: browser_ok_def view_defs Let_def)+

lemma steady_select: "steady c c (browser_select_card filename)"
  unfolding steady_def
proof (intro allI impI)
  fix b
  assume b: "browser_ok c b"
  let ?b = "b\<lparr>fb_view := (fb_view b)\<lparr>fv_selected_filename := Some filename\<rparr>\<rparr>"
  obtain cards where "render_grid ?b = (Inr (), ?b\<lparr>fb_cards := cards\<rparr>)" "map gc_filename cards = map fe_filename (fv_entries (fb_view ?b))"
    "map (\<lambda>c. (gc_row c, gc_column c)) cards = map (\<lambda>i. (int i div fb_grid_columns ?b, int i mod fb_grid_columns ?b)) [0..<length cards]"
    using b by (rule_tac render_grid_run [of ?b]) (simp_all add: browser_ok_def)
  then show "\<exists>t. browser_select_card filename b = (Inr (), t) \<and> browser_ok c t \<and> fb_canvas_background t = fb_canvas_background b
      \<and> fv_layout (fb_view t) = fv_layout (fb_view b)"
    using b by (simp add: browser_select_card_def bindS_def updateS_def browser_ok_def view_defs)
qed

lemma steady_compact: "steady (\<not> c) c (browser_set_compact c)"
  unfolding steady_def
proof (intro allI impI)
  fix b
  assume b: "browser_ok (\<not> c) b"
  let ?b = "b\<lparr>fb_compact := c, fb_grid_columns := (if c then 1 else 3), fb_controls_placed := \<not> c, fb_tree_height := (if c then 3 else 9),
    fb_upload_text := (if c then lit ''Upload...'' else [0x2601] @ lit ''  Upload...''),
    fb_download_text := (if c then lit ''Download'' else [0x21E9] @ lit ''  Download'')\<rparr>"
  obtain cards where "render_grid ?b = (Inr (), ?b\<lparr>fb_cards := cards\<rparr>)" "map gc_filename cards = map fe_filename (fv_entries (fb_view ?b))"
    "map (\<lambda>c. (gc_row c, gc_column c)) cards = map (\<lambda>i. (int i div fb_grid_columns ?b, int i mod fb_grid_columns ?b)) [0..<length cards]"
    using b by (rule_tac render_grid_run [of ?b]) (simp_all add: browser_ok_def)
  moreover have "fb_compact b \<noteq> c" using b by (auto simp: browser_ok_def)
  ultimately show "\<exists>t. browser_set_compact c b = (Inr (), t) \<and> browser_ok c t \<and> fb_canvas_background t = fb_canvas_background b
      \<and> fv_layout (fb_view t) = fv_layout (fb_view b)"
    using b by (simp add: browser_set_compact_def bindS_def updateS_def readS_def browser_ok_def view_defs)
qed

lemma steady_replace:
  assumes "list_all (\<lambda>e. 0 \<le> fe_file_size e) entries"
  shows "steady c c (browser_replace casefold entries)"
  unfolding steady_def
proof (intro allI impI)
  fix b
  assume b: "browser_ok c b"
  obtain v where v: "replace_files casefold entries (fb_view b) = (Inr (), v)" "fv_entries v = sort_key (\<lambda>e. casefold (fe_filename e)) entries"
    "fv_layout v = fv_layout (fb_view b)" "fv_download_enabled v = (fv_enabled v \<and> selected_filename v \<noteq> None)"
    using assms by (auto simp: replace_files_def bindS_def updateS_def list_all_iff view_defs not_less)
  let ?b = "b\<lparr>fb_view := v\<rparr>"
  have sizes: "list_all (\<lambda>e. 0 \<le> fe_file_size e) (fv_entries (fb_view ?b))" using assms v(2) by (simp add: list_all_iff)
  then obtain cards where "render_grid ?b = (Inr (), ?b\<lparr>fb_cards := cards\<rparr>)" "map gc_filename cards = map fe_filename (fv_entries (fb_view ?b))"
    "map (\<lambda>c. (gc_row c, gc_column c)) cards = map (\<lambda>i. (int i div fb_grid_columns ?b, int i mod fb_grid_columns ?b)) [0..<length cards]"
    by (rule render_grid_run)
  then show "\<exists>t. browser_replace casefold entries b = (Inr (), t) \<and> browser_ok c t \<and> fb_canvas_background t = fb_canvas_background b
      \<and> fv_layout (fb_view t) = fv_layout (fb_view b)"
    using b v sizes by (simp add: browser_replace_def partS_def bindS_def updateS_def browser_ok_def update_empty_state_def selected_filename_def)
qed

lemma layout_run:
  assumes b: "browser_ok c b"
  shows "\<exists>t. browser_set_layout layout b = (Inr (), t) \<and> browser_ok c t \<and> fb_canvas_background t = fb_canvas_background b
      \<and> fv_layout (fb_view t) = layout"
proof -
  let ?b = "b\<lparr>fb_view := set_layout layout (fb_view b), fb_table_shown := (layout = ListLayout), fb_canvas_shown := (layout = GridLayout)\<rparr>"
  have "list_all (\<lambda>e. 0 \<le> fe_file_size e) (fv_entries (fb_view ?b))" using b by (simp add: browser_ok_def view_defs)
  then obtain cards where "render_grid ?b = (Inr (), ?b\<lparr>fb_cards := cards\<rparr>)" "map gc_filename cards = map fe_filename (fv_entries (fb_view ?b))"
    "map (\<lambda>c. (gc_row c, gc_column c)) cards = map (\<lambda>i. (int i div fb_grid_columns ?b, int i mod fb_grid_columns ?b)) [0..<length cards]"
    by (rule render_grid_run)
  then show ?thesis
    using b by (cases layout) (simp_all add: browser_set_layout_def bindS_def updateS_def browser_ok_def view_defs)
qed

subsection \<open>The events\<close>

lemma palettes: "mode \<in> {lit ''light'', lit ''dark''} \<Longrightarrow> \<exists>colors. palette_for mode = Inr colors"
  by (auto simp: palette_for_def PALETTES_def lit_def)

lemma highlight_map: "highlight page (map (\<lambda>name. (name, f name)) names) = map (\<lambda>name. (name, name = page)) names"
  by (simp add: highlight_def)

lemma show_page_shown:
  assumes "page_shown old s" "page \<in> set pages"
  shows "page_shown page (show_page page s)"
  using assms by (simp add: page_shown_def show_page_def highlight_map)

lemma page_shown_cong:
  "sl_packed t = sl_packed s \<Longrightarrow> sl_nav_buttons t = sl_nav_buttons s \<Longrightarrow> sl_compact_nav_buttons t = sl_compact_nav_buttons s \<Longrightarrow>
     page_shown page t = page_shown page s"
  by (simp add: page_shown_def)

text \<open>An operation of the browser, seen from the window.\<close>

lemma in_browser_ok:
  assumes "steady (sl_compact s) (sl_compact s) act" "shell_ok s"
  shows "\<exists>t. in_browser act s = (Inr (), t) \<and> shell_ok t"
proof -
  obtain b where b: "act (sl_browser s) = (Inr (), b)" "browser_ok (sl_compact s) b"
    "fb_canvas_background b = fb_canvas_background (sl_browser s)" "fv_layout (fb_view b) = fv_layout (fb_view (sl_browser s))"
    using assms unfolding steady_def shell_ok_def by blast
  have "shell_ok (s\<lparr>sl_browser := b\<rparr>)"
    using assms(2) b by (auto simp: shell_ok_def theme_ok_def page_shown_cong [of "s\<lparr>sl_browser := b\<rparr>" s] connection_layout_for_def)
  then show ?thesis using b by (simp add: in_browser_def partS_def)
qed

lemma set_theme_ok:
  assumes "shell_ok (s\<lparr>sl_settings_theme := sl_theme_mode s\<rparr>)" "mode \<in> {lit ''light'', lit ''dark''}"
  shows "\<exists>t. set_theme mode s = (Inr (), t) \<and> shell_ok t"
proof -
  obtain colors where c: "palette_for mode = Inr colors" using palettes [OF assms(2)] ..
  let ?t = "snd (set_theme mode s)"
  have "browser_ok (sl_compact ?t) (sl_browser ?t)" using assms(1) c by (simp add: set_theme_def bindS_def updateS_def shell_ok_def browser_ok_def)
  moreover have "page_shown page ?t = page_shown page (s\<lparr>sl_settings_theme := sl_theme_mode s\<rparr>)" for page
    using c by (intro page_shown_cong) (simp_all add: set_theme_def bindS_def updateS_def)
  moreover have "theme_ok ?t" using assms(2) c by (simp add: set_theme_def bindS_def updateS_def theme_ok_def)
  ultimately show ?thesis
    using assms(1) c by (simp add: set_theme_def bindS_def updateS_def shell_ok_def connection_layout_for_def)
qed

lemma set_compact_ok:
  assumes "shell_ok s"
  shows "\<exists>t. set_compact c s = (Inr (), t) \<and> shell_ok t"
proof (cases "sl_compact s = c")
  case True
  then show ?thesis using assms by (simp add: set_compact_def bindS_def readS_def)
next
  case False
  then have nc: "sl_compact s = (\<not> c)" by auto
  let ?s = "connection_set_compact c (s\<lparr>sl_compact := c, sl_sidebar := \<not> c, sl_compact_nav := c\<rparr>)"
  have "browser_ok (\<not> c) (sl_browser ?s)"
    using assms nc by (simp add: shell_ok_def connection_set_compact_def Let_def)
  then obtain b where b: "browser_set_compact c (sl_browser ?s) = (Inr (), b)" "browser_ok c b"
    "fb_canvas_background b = fb_canvas_background (sl_browser ?s)" "fv_layout (fb_view b) = fv_layout (fb_view (sl_browser ?s))"
    using steady_compact [of c] unfolding steady_def by blast
  let ?t = "transfer_set_compact c (?s\<lparr>sl_browser := b\<rparr>)"
  have run: "set_compact c s = (Inr (), ?t)"
    using nc b by (simp add: set_compact_def bindS_def readS_def updateS_def in_browser_def partS_def)
  have "page_shown page ?t = page_shown page s" for page
    by (rule page_shown_cong) (simp_all add: connection_set_compact_def transfer_set_compact_def Let_def)
  with run assms nc b show ?thesis
    by (auto simp: shell_ok_def theme_ok_def connection_set_compact_def transfer_set_compact_def Let_def connection_layout_for_def)
qed

lemma set_file_layout_ok:
  assumes "shell_ok (s\<lparr>sl_file_layout := l, sl_settings_layout := l\<rparr>)"
    and "fv_layout (fb_view (sl_browser s)) = l"
  shows "\<exists>t. set_file_layout layout s = (Inr (), t) \<and> shell_ok t"
proof -
  obtain b where b: "browser_set_layout layout (sl_browser s) = (Inr (), b)" "browser_ok (sl_compact s) b"
    "fb_canvas_background b = fb_canvas_background (sl_browser s)" "fv_layout (fb_view b) = layout"
    using layout_run [of "sl_compact s" "sl_browser s" layout] assms by (auto simp: shell_ok_def)
  define b' where "b' = (if l = layout then sl_browser s else b)"
  have b': "browser_ok (sl_compact s) b'" "fb_canvas_background b' = fb_canvas_background (sl_browser s)" "fv_layout (fb_view b') = layout"
    using b assms by (auto simp: b'_def shell_ok_def)
  let ?t = "s\<lparr>sl_file_layout := layout, sl_browser := b', sl_settings_layout := layout\<rparr>"
  have run: "set_file_layout layout s = (Inr (), ?t)"
    using b assms(2) by (simp add: set_file_layout_def bindS_def updateS_def readS_def in_browser_def partS_def b'_def)
  have "page_shown page ?t = page_shown page (s\<lparr>sl_file_layout := l, sl_settings_layout := l\<rparr>)" for page
    by (rule page_shown_cong) simp_all
  with run assms b' show ?thesis by (auto simp: shell_ok_def theme_ok_def connection_layout_for_def)
qed

lemma click_layout_ok:
  assumes "shell_ok s"
  shows "\<exists>t. click_layout layout s = (Inr (), t) \<and> shell_ok t"
proof -
  obtain b where b: "browser_set_layout layout (sl_browser s) = (Inr (), b)" "browser_ok (sl_compact s) b"
    "fb_canvas_background b = fb_canvas_background (sl_browser s)" "fv_layout (fb_view b) = layout"
    using layout_run [of "sl_compact s" "sl_browser s" layout] assms by (auto simp: shell_ok_def)
  have "page_shown page (s\<lparr>sl_browser := b, sl_file_layout := layout, sl_settings_layout := layout\<rparr>) = page_shown page s" for page
    by (rule page_shown_cong) simp_all
  with assms b have "shell_ok ((s\<lparr>sl_browser := b\<rparr>)\<lparr>sl_file_layout := layout, sl_settings_layout := layout\<rparr>)"
    by (auto simp: shell_ok_def theme_ok_def connection_layout_for_def)
  from set_file_layout_ok [OF this] b show ?thesis
    by (simp add: click_layout_def in_browser_def partS_def bindS_def)
qed

lemma window_event_ok:
  assumes "shell_ok s" "event_ok e"
  shows "\<exists>t. window_event casefold e s = (Inr (), t) \<and> shell_ok t"
proof -
  have quiet: "shell_ok t" if "sl_browser t = sl_browser s" "sl_compact t = sl_compact s" "\<exists>page. page_shown page t"
      "theme_ok t = theme_ok s" "sl_sidebar t = sl_sidebar s" "sl_compact_nav t = sl_compact_nav s"
      "sl_connection_compact t = sl_connection_compact s" "sl_transfer_compact t = sl_transfer_compact s"
      "sl_connection_layout t = connection_layout_for t" "sl_settings_layout t = sl_settings_layout s" "sl_file_layout t = sl_file_layout s" for t
    using that assms(1) by (simp add: shell_ok_def)
  obtain page where page: "page_shown page s" using assms(1) by (auto simp: shell_ok_def)
  show ?thesis
  proof (cases e)
    case (ShowPage p)
    then show ?thesis
      using assms quiet [of "show_page p s"] show_page_shown [OF page, of p]
      by (auto simp: updateS_def show_page_def theme_ok_def shell_ok_def connection_layout_for_def)
  next
    case ToggleTheme
    have same: "s\<lparr>sl_settings_theme := sl_theme_mode s\<rparr> = s" using assms(1) by (simp add: shell_ok_def theme_ok_def)
    show ?thesis
      using ToggleTheme assms(1) set_theme_ok [of s] unfolding same by (simp add: toggle_theme_def bindS_def readS_def)
  next
    case (ChooseTheme m)
    have "s\<lparr>sl_settings_theme := sl_theme_mode s\<rparr> = s" using assms(1) by (simp add: shell_ok_def theme_ok_def)
    with ChooseTheme assms set_theme_ok [of "s\<lparr>sl_settings_theme := m\<rparr>" m] show ?thesis by (simp add: bindS_def updateS_def)
  next
    case (ChooseLayout l)
    have same: "s\<lparr>sl_settings_layout := sl_file_layout s\<rparr> = s" and shown: "fv_layout (fb_view (sl_browser s)) = sl_file_layout s"
      using assms(1) by (simp_all add: shell_ok_def)
    have "\<exists>t. set_file_layout l (s\<lparr>sl_settings_layout := l\<rparr>) = (Inr (), t) \<and> shell_ok t"
      by (rule set_file_layout_ok [where l = "sl_file_layout s"]) (simp_all add: same shown assms(1))
    with ChooseLayout show ?thesis by (simp add: bindS_def updateS_def)
  next
    case (ReplaceFiles entries)
    then show ?thesis using in_browser_ok [OF steady_replace assms(1)] assms(2) by simp
  next
    case (SetConnected online)
    have "page_shown page (connection_set_connected online s)"
      using page by (simp add: connection_set_connected_def Let_def page_shown_def)
    with SetConnected quiet [of "connection_set_connected online s"] assms(1) show ?thesis
      by (auto simp: updateS_def connection_set_connected_def Let_def theme_ok_def connection_layout_for_def shell_ok_def)
  next
    case DoubleClickRow
    then show ?thesis
      using quiet [of "s\<lparr>sl_downloads := sl_downloads s + 1\<rparr>"] assms(1) page
      by (auto simp: double_click_def updateS_def theme_ok_def shell_ok_def connection_layout_for_def page_shown_def)
  next
    case DoubleClickCard
    then show ?thesis
      using quiet [of "s\<lparr>sl_downloads := sl_downloads s + 1\<rparr>"] assms(1) page
      by (auto simp: double_click_def updateS_def theme_ok_def shell_ok_def connection_layout_for_def page_shown_def)
  next
    case CloseWindow
    then show ?thesis
      using quiet [of "s\<lparr>sl_closing := True\<rparr>"] assms(1) page
      by (auto simp: updateS_def theme_ok_def shell_ok_def connection_layout_for_def page_shown_def)
  next
    case (Resize width)
    then show ?thesis using set_compact_ok [OF assms(1)] assms(1) by (simp add: on_root_configure_def bindS_def readS_def)
  qed (use assms(1) click_layout_ok in_browser_ok [OF steady_views(1)] in_browser_ok [OF steady_views(2)] in_browser_ok [OF steady_select] in simp_all)
qed

lemma shell_start_ok: "shell_ok shell_start"
proof -
  have "page_shown (lit ''connection'') shell_start"
    by (simp add: shell_start_def show_page_def page_shown_def pages_def compact_pages_def highlight_def lit_def)
  moreover have "theme_ok shell_start"
    by (simp add: theme_ok_def shell_start_def show_page_def palette_for_def PALETTES_def card_color_def lit_def)
  moreover have "browser_ok False (sl_browser shell_start)"
    by (simp add: shell_start_def show_page_def browser_ok_def selected_filename_def)
  ultimately show ?thesis
    by (auto simp: shell_ok_def shell_start_def show_page_def connection_layout_for_def)
qed

lemma cells_disjoint: "no_overlap (connection_cells layout)" "no_overlap (transfer_titles @ transfer_cells narrow)"
proof -
  show "no_overlap (connection_cells layout)" by (cases layout; hypsubst) code_simp+
  show "no_overlap (transfer_titles @ transfer_cells narrow)" by (cases narrow; simp only:) code_simp+
qed

text \<open>
  C36. The window never contradicts itself: whatever the user does to it, however it is resized and
  whatever the controller shows in it, no handler raises, one page is shown and the buttons of
  both bars highlight it, either the sidebar or the compact bar is there, all cards have the layout of
  the window (the connection card also that of the connection), the settings page
  shows the theme and the file layout in use, no two widgets of a card share a cell, the grid has one card
  per file in its place, and Download is enabled exactly when a file is selected and the browser is enabled.
\<close>

theorem window_stays_consistent:
  assumes "list_all event_ok events"
  shows "\<exists>s. shell_run casefold events shell_start = (Inr (), s) \<and> shell_ok s
    \<and> no_overlap (connection_cells (sl_connection_layout s)) \<and> no_overlap (transfer_titles @ transfer_cells (sl_transfer_compact s))"
proof -
  have "shell_ok s \<Longrightarrow> \<exists>t. shell_run casefold events s = (Inr (), t) \<and> shell_ok t" for s
    using assms
  proof (induction events arbitrary: s)
    case (Cons e es)
    then obtain u where "window_event casefold e s = (Inr (), u)" "shell_ok u" using window_event_ok by fastforce
    with Cons show ?case by (simp add: bindS_def)
  qed simp
  then show ?thesis using shell_start_ok cells_disjoint by blast
qed

theorem window_stays_consistent_witness:
  "\<exists>s. shell_run (\<lambda>t. t) [ShowPage (lit ''settings''), ToggleTheme, ChooseLayout GridLayout, Resize 500] shell_start = (Inr (), s)
     \<and> shell_ok s \<and> no_overlap (connection_cells (sl_connection_layout s))"
  using window_stays_consistent [of "[ShowPage (lit ''settings''), ToggleTheme, ChooseLayout GridLayout, Resize 500]" "\<lambda>t. t"]
  by (auto simp: pages_def)

text \<open>
  An empty listing is announced with the wrong hint: the controller fills the browser while it is disabled
  and enables it afterwards, so a connected user whose directory is empty is told to connect.
\<close>

theorem empty_listing_tells_to_connect:
  "\<exists>s. shell_run casefold [SetConnected True, SetEnabled True, SetEnabled False, ReplaceFiles [], SetEnabled True] shell_start = (Inr (), s)
     \<and> sl_connected s \<and> fv_enabled (fb_view (sl_browser s)) \<and> fb_empty_shown (sl_browser s)
     \<and> fb_empty_message (sl_browser s) = connect_hint"
  by (simp add: bindS_def updateS_def in_browser_def partS_def connection_set_connected_def Let_def shell_start_def show_page_def
      browser_replace_def replace_files_def render_grid_def readS_def view_defs)

end
