(* ===== verification/DemoSupport.thy ===== *)
theory DemoSupport
  imports ServerProcess Download
begin

section \<open>The acceptance scripts: fixtures, limits, waiting and the demo server\<close>

text \<open>
  \<open>src/scripts/phase2_demo_support.py\<close> with the measurements of \<open>phase2_throttling_benchmark.py\<close>
  and \<open>benchmark_phase1.py\<close>: the files the scripts generate and hash, the check that a measured
  speed respects the limit, \<open>wait_for\<close>, and the server the scripts run.
\<close>

subsection \<open>Fixtures\<close>

text \<open>\<open>open(p, "xb")\<close>: the file must not exist, not even as a dangling link.\<close>

definition open_exclusive :: "path \<Rightarrow> path fs_action" where
  "open_exclusive p = os_call (\<lambda>fs.
     case resolve fs (parent p) of
       None \<Rightarrow> (Inl (OSError (lit ''[Errno 40] Too many levels of symbolic links'')), fs)
     | Some d \<Rightarrow>
         if node_at fs d = None then (Inl not_found, fs)
         else if node_at fs d \<noteq> Some Directory then (Inl (OSError (lit ''[Errno 20] Not a directory'')), fs)
         else if node_at fs (d @ [path_name p]) \<noteq> None then (Inl exists_error, fs)
         else (Inr (d @ [path_name p]), set_node (d @ [path_name p]) (RegularFile [] (fs_now fs)) fs))"

text \<open>\<open>bytes(range(256)) * 128\<close>, and the slice \<open>xs[:n]\<close>, which counts from the end when \<open>n\<close> is negative.\<close>

definition fixture_pattern :: "byte list" where
  "fixture_pattern = concat (replicate 128 (map of_nat [0..<256]))"

definition slice_to :: "int \<Rightarrow> 'a list \<Rightarrow> 'a list" where
  "slice_to n xs = (if 0 \<le> n then take (nat n) xs else take (length xs - nat (- n)) xs)"

text \<open>\<open>while remaining:\<close> need not end; \<open>None\<close> is a loop that runs for ever.\<close>

partial_function (option) fixture_loop ::
  "path \<Rightarrow> int \<Rightarrow> byte list \<Rightarrow> file_system \<Rightarrow> ((exc + byte list) \<times> file_system) option" where
  "fixture_loop target remaining hashed fs =
     (if remaining = 0 then Some (Inr hashed, fs)
      else
        let block = slice_to (min remaining (int (length fixture_pattern))) fixture_pattern in
        case append_handle target block fs of
          (Inl e, fs') \<Rightarrow> Some (Inl e, fs')
        | (Inr _, fs') \<Rightarrow> fixture_loop target (remaining - int (length block)) (hashed @ block) fs')"

definition fixture_written ::
  "(byte list \<Rightarrow> 'a) \<Rightarrow> path \<Rightarrow> int \<Rightarrow> file_system \<Rightarrow> ((exc + 'a) \<times> file_system) option" where
  "fixture_written result p n fs =
     (case open_exclusive p fs of
        (Inl e, fs') \<Rightarrow> Some (Inl e, fs')
      | (Inr target, fs') \<Rightarrow>
          map_option (\<lambda>(r, fs''). (map_res result r, fs'')) (fixture_loop target n [] fs'))"

definition write_fixture :: "environment \<Rightarrow> path \<Rightarrow> int \<Rightarrow> file_system \<Rightarrow> ((exc + byte list) \<times> file_system) option" where
  "write_fixture ev = fixture_written (ev_sha256 ev)"

definition benchmark_write_fixture :: "path \<Rightarrow> int \<Rightarrow> file_system \<Rightarrow> ((exc + unit) \<times> file_system) option" where
  "benchmark_write_fixture = fixture_written (\<lambda>_. ())"

definition SOURCE_READ_SIZE :: nat where "SOURCE_READ_SIZE = 1024 * 1024"

function source_bytes :: "path \<Rightarrow> byte list \<Rightarrow> byte list fs_action" where
  "source_bytes source got fs =
     (case read_handle source (length got) SOURCE_READ_SIZE fs of
        (Inl e, fs') \<Rightarrow> (Inl e, fs')
      | (Inr [], fs') \<Rightarrow> (Inr got, fs')
      | (Inr (b # bs), fs') \<Rightarrow> source_bytes source (got @ b # bs) fs')"
  by pat_completeness auto
termination
  by (relation "measure (\<lambda>(source, got, fs). length (file_data fs source) - length got)")
    (auto dest!: read_handle_progress [OF sym])

declare source_bytes.simps [simp del]

definition sha256_of_file :: "environment \<Rightarrow> path \<Rightarrow> byte list fs_action" where
  "sha256_of_file ev p =
     bindS (open_existing p) (\<lambda>source.
     bindS (source_bytes source []) (\<lambda>content.
     returnS (ev_sha256 ev content)))"

subsection \<open>Speeds\<close>

definition throughput_kib_per_second :: "int \<Rightarrow> real \<Rightarrow> exc + real" where
  "throughput_kib_per_second byte_count seconds =
     (if byte_count < 0 then Inl (ValueError (lit ''byte_count must not be negative''))
      else if seconds \<le> 0 then Inl (ValueError (lit ''seconds must be positive''))
      else Inr (real_of_int byte_count / 1024 / seconds))"

definition within_limit :: "real \<Rightarrow> real \<Rightarrow> real \<Rightarrow> exc + bool" where
  "within_limit measured limit tolerance_percent =
     (if limit \<le> 0 then Inl (ValueError (lit ''limit must be positive''))
      else if tolerance_percent < 0 then Inl (ValueError (lit ''tolerance_percent must not be negative''))
      else Inr (measured \<le> limit * (1 + tolerance_percent / 100)))"

definition benchmark_speed :: "int \<Rightarrow> real \<Rightarrow> real" where
  "benchmark_speed n seconds = (if seconds \<le> 0 then 0 else round3 (real_of_int n / 1024 / seconds))"

text \<open>The arguments of \<open>phase2_throttling_benchmark.py\<close>; \<open>Inl\<close> is the text of a \<open>SystemExit\<close>.\<close>

definition minimum_size :: "int \<Rightarrow> int \<Rightarrow> int" where
  "minimum_size limit_kib_per_second chunk_size_bytes = limit_kib_per_second * 1024 * 5 + chunk_size_bytes"

definition throttle_arguments :: "int \<Rightarrow> int \<Rightarrow> int \<Rightarrow> real \<Rightarrow> int \<Rightarrow> pystr + unit" where
  "throttle_arguments clients n limit tolerance chunk_size_bytes =
     (if clients < 1 then Inl (lit ''clients must be positive'')
      else if n \<le> 0 then Inl (lit ''size must be positive'')
      else if limit \<le> 0 then Inl (lit ''limit must be positive'')
      else if tolerance < 0 then Inl (lit ''tolerance must not be negative'')
      else if n < minimum_size limit chunk_size_bytes then
        Inl (lit ''size is too small for a stable five-second measurement; use at least ''
          @ dec_int (minimum_size limit chunk_size_bytes) @ lit '' bytes for this limit'')
      else Inr ())"

text \<open>One transfer of the report: is its speed within the limit.\<close>

definition speed_ok :: "int \<Rightarrow> real \<Rightarrow> int \<Rightarrow> real \<Rightarrow> exc + bool" where
  "speed_ok n seconds limit tolerance =
     bindE (throughput_kib_per_second n seconds) (\<lambda>speed. within_limit speed (real_of_int limit) tolerance)"

subsection \<open>\<open>wait_for\<close>\<close>

text \<open>
  \<open>predicate n\<close> is what the predicate answers when it is called for the \<open>n\<close>-th time; the number of
  calls is returned beside the result.
\<close>

lemma ticks_left: "\<lceil>d * 100 - (1 + t * 100)\<rceil> < \<lceil>d * 100 - t * 100\<rceil>" for d t :: real
  using ceiling_diff_one [of "d * 100 - t * 100"] by (simp add: diff_diff_eq add.commute)

function wait_loop :: "(nat \<Rightarrow> bool) \<Rightarrow> nat \<Rightarrow> real \<Rightarrow> timing \<Rightarrow> (exc + unit) \<times> nat \<times> timing" where
  "wait_loop predicate n deadline tm =
     (if predicate n then (Inr (), Suc n, tm)
      else
        case read_clock tm of (now, tm1) \<Rightarrow>
          if now \<ge> deadline then (Inl (TimeoutError (lit ''timed out waiting for server state'')), Suc n, tm1)
          else wait_loop predicate (Suc n) deadline (sleep_for (1 / 100) tm1))"
  by pat_completeness auto
termination
  by (relation "measures [\<lambda>(predicate, n, deadline, tm). length (tm_delays tm),
      \<lambda>(predicate, n, deadline, tm). nat \<lceil>(deadline - tm_now tm) * 100\<rceil>]")
    (auto simp: read_clock_def sleep_for_def algebra_simps ticks_left split: list.splits)

declare wait_loop.simps [simp del]

definition wait_for :: "(nat \<Rightarrow> bool) \<Rightarrow> real \<Rightarrow> timing \<Rightarrow> (exc + unit) \<times> nat \<times> timing" where
  "wait_for predicate timeout tm =
     (case read_clock tm of (now, tm1) \<Rightarrow> wait_loop predicate 0 (now + timeout) tm1)"

subsection \<open>The demo server\<close>

text \<open>
  \<open>LocalPhaseTwoServer\<close>: its accepting thread (\<open>_run\<close>) and \<open>close\<close>, called by the script.  A turn of
  the thread is what \<open>accept\<close> brings; the list ends when the loop finds \<open>_stop\<close> set.  The bodies of
  the accept loop and of the clean-up are those of \<open>ServerProcess\<close>.  \<open>close\<close> runs beside the
  thread; its own \<open>workers.close\<close> is taken to come first.
\<close>

datatype demo_turn =
    DemoAccepts accepted
  | DemoTimesOut
  | DemoAcceptFails exc bool \<comment> \<open>an \<open>OSError\<close>; has \<open>_stop\<close> been set\<close>

fun demo_loop :: "environment \<Rightarrow> demo_turn list \<Rightarrow> unit process_action" where
  "demo_loop ev [] = returnS ()"
| "demo_loop ev (DemoAccepts a # turns) = bindS (accept_client ev a) (\<lambda>_. demo_loop ev turns)"
| "demo_loop ev (DemoTimesOut # turns) = demo_loop ev turns"
| "demo_loop ev (DemoAcceptFails error stopped # turns) = (if stopped then returnS () else raiseS error)"

text \<open>What \<open>_failures\<close> holds when the loop has been left.\<close>

definition demo_failure :: "environment \<Rightarrow> demo_turn list \<Rightarrow> exc option process_action" where
  "demo_failure ev turns =
     tryS (bindS (demo_loop ev turns) (\<lambda>_. returnS None)) (\<lambda>error. returnS (Some error))"

definition demo_cleanup :: "exc option \<Rightarrow> unit process_action" where
  "demo_cleanup failure = close_workers (failure \<noteq> None)"

text \<open>
  \<open>close\<close>, with the \<open>finally\<close> block of the thread after its own \<open>workers.close\<close>; \<open>ended\<close>: the thread has
  ended within the ten seconds of \<open>join\<close>.
\<close>

definition demo_close :: "exc option \<Rightarrow> bool \<Rightarrow> fault option \<Rightarrow> unit process_action" where
  "demo_close failure ended f =
     bindS (set_listener False) (\<lambda>_.
     bindS (close_workers True) (\<lambda>_.
     bindS (demo_cleanup failure) (\<lambda>_.
     if \<not> ended then raiseS (RuntimeError (lit ''demo server thread did not stop''))
     else
       bindS (close_owned_logger True f) (\<lambda>_.
       if failure = None then returnS () else raiseS (RuntimeError (lit ''demo server failed''))))))"

definition demo_server :: "environment \<Rightarrow> demo_turn list \<Rightarrow> bool \<Rightarrow> fault option \<Rightarrow> unit process_action" where
  "demo_server ev turns ended f = bindS (demo_failure ev turns) (\<lambda>failure. demo_close failure ended f)"

subsection \<open>A fixture holds what its digest says\<close>

text \<open>The contents of a fixture of \<open>n\<close> bytes: 0 to 255 over and over.\<close>

definition fixture_data :: "nat \<Rightarrow> byte list" where
  "fixture_data n = map (\<lambda>i. of_nat (i mod 256)) [0..<n]"

lemma nth_concat_replicate: "i < k * length xs \<Longrightarrow> concat (replicate k xs) ! i = xs ! (i mod length xs)"
proof (induction k arbitrary: i)
  case (Suc k)
  then show ?case
    using Suc.IH [of "i - length xs"] by (cases "i < length xs") (auto simp: nth_append mod_if [of i])
qed simp

lemma fixture_pattern_is: "fixture_pattern = fixture_data 32768"
  by (rule nth_equalityI)
    (auto simp: fixture_pattern_def fixture_data_def length_concat sum_list_replicate nth_concat_replicate)

lemma fixture_data_append: "256 dvd m \<Longrightarrow> k \<le> 32768 \<Longrightarrow> fixture_data m @ take k fixture_pattern = fixture_data (m + k)"
  by (rule nth_equalityI) (auto simp: fixture_pattern_is fixture_data_def nth_append mod_add_eq dvd_imp_mod_0
      elim!: dvdE split: nat_diff_split)

lemma length_fixture_data [simp]: "length (fixture_data n) = n"
  by (simp add: fixture_data_def)

lemma append_undisturbed:
  "fs_faults fs = [] \<Longrightarrow> append_handle q new fs = (Inr (), set_node q (RegularFile (file_data fs q @ new) (fs_now fs)) fs)"
  by (simp add: append_handle_def os_call_def)

lemma fixture_loop_writes:
  "fs_faults fs = [] \<Longrightarrow> node_at fs q = Some (RegularFile (fixture_data m) t0) \<Longrightarrow> 256 dvd m \<Longrightarrow>
     \<exists>fs' t. fixture_loop q (int r) (fixture_data m) fs = Some (Inr (fixture_data (m + r)), fs')
       \<and> node_at fs' q = Some (RegularFile (fixture_data (m + r)) t) \<and> fs_faults fs' = [] \<and> only_changes {q} fs fs'"
proof (induction r arbitrary: m fs t0 rule: less_induct)
  case (less r)
  show ?case
  proof (cases "r = 0")
    case True
    then show ?thesis using less.prems by (intro exI [of _ fs]) (simp add: fixture_loop.simps)
  next
    case False
    define k where "k = min r 32768"
    define fs1 where "fs1 = set_node q (RegularFile (fixture_data (m + k)) (fs_now fs)) fs"
    have k: "0 < k" "k \<le> r" "k \<le> 32768" using False by (simp_all add: k_def)
    have block: "slice_to (min (int r) (int (length fixture_pattern))) fixture_pattern = take k fixture_pattern"
      by (simp add: slice_to_def fixture_pattern_is k_def min_def)
    have grown: "fixture_data m @ take k fixture_pattern = fixture_data (m + k)"
      using less.prems(3) k(3) by (rule fixture_data_append)
    have size: "min (length fixture_pattern) k = k" using k(3) by (simp add: fixture_pattern_is)
    have turn: "fixture_loop q (int r) (fixture_data m) fs = fixture_loop q (int (r - k)) (fixture_data (m + k)) fs1"
      using less.prems False k(2)
      by (simp add: fixture_loop.simps [of q "int r"] block Let_def append_undisturbed grown size fs1_def of_nat_diff
        file_data_node)
    have fs1: "fs_faults fs1 = []" "node_at fs1 q = Some (RegularFile (fixture_data (m + k)) (fs_now fs))" "only_changes {q} fs fs1"
      using less.prems by (simp_all add: fs1_def only_changes_def)
    show ?thesis
    proof (cases "r - k = 0")
      case True
      then show ?thesis using turn fs1 k(2) by (intro exI [of _ fs1]) (simp add: fixture_loop.simps)
    next
      case more: False
      then have "256 dvd m + k" using less.prems(3) by (simp add: k_def min_def split: if_splits)
      from less.IH [OF _ fs1(1,2) this, of "r - k"] k more obtain fs' t where
        "fixture_loop q (int (r - k)) (fixture_data (m + k)) fs1 = Some (Inr (fixture_data (m + r)), fs')"
        "node_at fs' q = Some (RegularFile (fixture_data (m + r)) t)" "fs_faults fs' = []" "only_changes {q} fs1 fs'"
        by auto
      with turn fs1(3) show ?thesis by (auto intro: only_changes_trans)
    qed
  qed
qed

lemma source_bytes_all:
  "fs_faults fs = [] \<Longrightarrow> got = take (length got) (file_data fs q) \<Longrightarrow> source_bytes q got fs = (Inr (file_data fs q), fs)"
proof (induction q got fs rule: source_bytes.induct)
  case (1 q got fs)
  have rd: "read_handle q (length got) SOURCE_READ_SIZE fs = (Inr (take SOURCE_READ_SIZE (drop (length got) (file_data fs q))), fs)"
    using "1.prems"(1) by (simp add: read_handle_def os_call_def)
  show ?case
  proof (cases "take SOURCE_READ_SIZE (drop (length got) (file_data fs q))")
    case Nil
    then have "length (file_data fs q) \<le> length got" by (simp add: SOURCE_READ_SIZE_def)
    then have "got = file_data fs q" using "1.prems"(2) by simp
    then show ?thesis using rd Nil by (simp add: source_bytes.simps [of q "file_data fs q"])
  next
    case (Cons b bs)
    have grown: "got @ b # bs = take (length (got @ b # bs)) (file_data fs q)"
      using "1.prems"(2) take_add [of "length got" SOURCE_READ_SIZE "file_data fs q"] unfolding Cons [symmetric]
      by (metis append_take_drop_id length_append take_append_length)
    have "source_bytes q (got @ b # bs) fs = (Inr (file_data fs q), fs)"
      by (rule "1.IH" [OF rd [symmetric, unfolded Cons] refl refl "1.prems"(1) grown])
    then show ?thesis using rd Cons by (simp add: source_bytes.simps [of q got])
  qed
qed

text \<open>
  A fixture is the file its digest stands for: on an undisturbed file system \<open>write_fixture\<close>
  creates a new file of exactly the size asked for, 0 to 255 over and over, changes no other
  file, and returns the digest that \<open>sha256\<close> finds in that file.
\<close>

theorem fixture_roundtrip:
  assumes "fs_faults fs = []" "p \<noteq> []" "canonical fs (parent p)" "node_at fs (parent p) = Some Directory" "node_at fs p = None"
    and "0 \<le> n"
  shows "\<exists>fs' t. write_fixture ev p n fs = Some (Inr (ev_sha256 ev (fixture_data (nat n))), fs')
    \<and> node_at fs' p = Some (RegularFile (fixture_data (nat n)) t) \<and> only_changes {p} fs fs'
    \<and> sha256_of_file ev p fs' = (Inr (ev_sha256 ev (fixture_data (nat n))), fs')"
proof -
  have p: "parent p @ [path_name p] = p" using assms(2) by (simp add: parent_def path_name_def)
  define fs0 where "fs0 = set_node p (RegularFile [] (fs_now fs)) fs"
  have op: "open_exclusive p fs = (Inr p, fs0)"
    using assms by (simp add: open_exclusive_def os_call_def canonical_resolve p fs0_def)
  have "fs_faults fs0 = []" "node_at fs0 p = Some (RegularFile (fixture_data 0) (fs_now fs))" "only_changes {p} fs fs0"
    using assms(1) by (simp_all add: fs0_def fixture_data_def only_changes_def)
  with fixture_loop_writes [of fs0 p 0 "fs_now fs" "nat n"] obtain fs' t where
    w: "fixture_loop p n (fixture_data 0) fs0 = Some (Inr (fixture_data (nat n)), fs')"
      "node_at fs' p = Some (RegularFile (fixture_data (nat n)) t)" "fs_faults fs' = []" "only_changes {p} fs fs'"
    using assms(6) by (auto intro: only_changes_trans)
  have "fixture_data 0 = []" by (simp add: fixture_data_def)
  with op w(1) have wrote: "write_fixture ev p n fs = Some (Inr (ev_sha256 ev (fixture_data (nat n))), fs')"
    by (simp add: write_fixture_def fixture_written_def map_res_def)
  have "canonical fs p" using canonical_snoc [of fs "parent p" "path_name p"] assms(3,5) p by (simp add: is_symlink_def)
  moreover have "is_symlink fs' q \<Longrightarrow> is_symlink fs q" for q
    using w(2,4) by (cases "q = p") (simp_all add: is_symlink_def only_changes_def)
  ultimately have "canonical fs' p" unfolding canonical_def by blast
  then have "open_existing p fs' = (Inr p, fs')"
    using w(2,3) by (simp add: open_existing_def os_call_def canonical_resolve)
  then have "sha256_of_file ev p fs' = (Inr (ev_sha256 ev (fixture_data (nat n))), fs')"
    using source_bytes_all [OF w(3), of "[]" p] w(2) by (simp add: sha256_of_file_def file_data_node)
  with wrote w show ?thesis by blast
qed

text \<open>A negative size would loop for ever; the scripts refuse it before.\<close>

lemma fixture_loop_negative:
  "fixture_loop q n hashed fs = Some y \<Longrightarrow> n < 0 \<Longrightarrow> fs_faults fs \<noteq> []"
proof (induction rule: fixture_loop.raw_induct [rotated, consumes 1])
  case (1 f q n hashed fs y)
  show ?case
  proof
    assume none: "fs_faults fs = []"
    let ?block = "slice_to (min n (int (length fixture_pattern))) fixture_pattern"
    have "f q (n - int (length ?block)) (hashed @ ?block) (set_node q (RegularFile (file_data fs q @ ?block) (fs_now fs)) fs) = Some y"
      using "1.hyps" "1.prems" none by (simp add: append_undisturbed Let_def)
    from "1.IH" [OF this] show False using "1.prems" none by simp
  qed
qed

subsection \<open>Waiting ends\<close>

lemma wait_loop_outcome:
  "wait_loop predicate n deadline tm = (r, polls, tm') \<Longrightarrow> \<forall>d \<in> set (tm_delays tm). 0 \<le> d \<Longrightarrow>
     n < polls \<and> (\<forall>k. n \<le> k \<and> Suc k < polls \<longrightarrow> \<not> predicate k)
     \<and> polls \<le> Suc n + nat \<lceil>(deadline - tm_now tm) * 100\<rceil>
     \<and> (case r of Inr u \<Rightarrow> predicate (polls - 1)
        | Inl e \<Rightarrow> \<not> predicate (polls - 1) \<and> is_timeout_error e \<and> deadline \<le> tm_now tm')"
proof (induction predicate n deadline tm rule: wait_loop.induct)
  case (1 predicate n deadline tm)
  obtain now tm1 where rd: "read_clock tm = (now, tm1)" by fastforce
  note clock = read_clock_cases [OF "1.prems"(2) rd]
  show ?case
  proof (cases "predicate n \<or> deadline \<le> now")
    case True
    then show ?thesis
      using "1.prems"(1) rd clock by (auto simp: wait_loop.simps [of predicate n] split: if_splits)
  next
    case False
    then have rec: "wait_loop predicate (Suc n) deadline (sleep_for (1 / 100) tm1) = (r, polls, tm')"
      using "1.prems"(1) rd by (simp add: wait_loop.simps [of predicate n])
    have "\<forall>d \<in> set (tm_delays (sleep_for (1 / 100) tm1)). 0 \<le> d" using clock by (simp add: sleep_for_def)
    with "1.IH" [OF _ rd [symmetric] _ rec] False have
      ih: "Suc n < polls" "\<forall>k. Suc n \<le> k \<and> Suc k < polls \<longrightarrow> \<not> predicate k"
        "polls \<le> Suc (Suc n) + nat \<lceil>(deadline - tm_now (sleep_for (1 / 100) tm1)) * 100\<rceil>"
        "case r of Inr u \<Rightarrow> predicate (polls - 1)
         | Inl e \<Rightarrow> \<not> predicate (polls - 1) \<and> is_timeout_error e \<and> deadline \<le> tm_now tm'" by auto
    have ticks: "\<lceil>(deadline - (now + 1 / 100)) * 100\<rceil> = \<lceil>(deadline - now) * 100\<rceil> - 1"
      using ceiling_diff_one [of "(deadline - now) * 100"] by (simp add: algebra_simps)
    have "tm_now (sleep_for (1 / 100) tm1) = now + 1 / 100" using clock by (simp add: sleep_for_def)
    then have "polls \<le> Suc (Suc n) + nat (\<lceil>(deadline - now) * 100\<rceil> - 1)" using ih(3) by (simp only: ticks)
    moreover have "\<lceil>(deadline - now) * 100\<rceil> \<le> \<lceil>(deadline - tm_now tm) * 100\<rceil>" using clock by (intro ceiling_mono) simp
    moreover have "0 < \<lceil>(deadline - now) * 100\<rceil>" using False by simp
    ultimately have "polls \<le> Suc n + nat \<lceil>(deadline - tm_now tm) * 100\<rceil>" by linarith
    moreover have "\<forall>k. n \<le> k \<and> Suc k < polls \<longrightarrow> \<not> predicate k" using ih(2) False by (metis le_antisym not_less_eq_eq)
    ultimately show ?thesis using ih(1,4) by auto
  qed
qed

text \<open>
  \<open>wait_for\<close> ends and tells the truth: with a clock that does not run backwards it calls the
  predicate at most once for every hundredth of a second of the timeout and once more; it returns at
  the first call that answers true, and raises \<open>TimeoutError\<close> only after calls that all
  answered false and not before the timeout has passed.
\<close>

theorem wait_for_outcome:
  assumes "wait_for predicate timeout tm = (r, polls, tm')" "\<forall>d \<in> set (tm_delays tm). 0 \<le> d"
  shows "0 < polls \<and> polls \<le> 1 + nat \<lceil>timeout * 100\<rceil> \<and> (\<forall>k. Suc k < polls \<longrightarrow> \<not> predicate k)
    \<and> (case r of Inr u \<Rightarrow> predicate (polls - 1)
       | Inl e \<Rightarrow> \<not> predicate (polls - 1) \<and> is_timeout_error e \<and> tm_now tm + timeout \<le> tm_now tm')"
proof -
  obtain now tm1 where rd: "read_clock tm = (now, tm1)" by fastforce
  note clock = read_clock_cases [OF assms(2) rd]
  have "wait_loop predicate 0 (now + timeout) tm1 = (r, polls, tm')" using assms(1) rd by (simp add: wait_for_def)
  from wait_loop_outcome [OF this] clock show ?thesis by (cases r) auto
qed

subsection \<open>A throttled transfer passes the acceptance check\<close>

lemma refill_twice:
  assumes "bucket_ok b" "tb_last_refill b \<le> t" "t \<le> now"
  shows "refill_locked now (refill_locked t b) = refill_locked now b"
proof -
  let ?r = "tb_rate_bytes_per_second b"
  define x where "x = (t - tb_last_refill b) * ?r"
  define y where "y = (now - t) * ?r"
  have "0 \<le> x" "0 \<le> y" "(now - tb_last_refill b) * ?r = x + y"
    using assms by (simp_all add: bucket_ok_def x_def y_def algebra_simps)
  then have "min (tb_burst_bytes b) (min (tb_burst_bytes b) (tb_tokens b + x) + y)
      = min (tb_burst_bytes b) (tb_tokens b + (now - tb_last_refill b) * ?r)" by (simp add: min_def)
  moreover have "min (tb_burst_bytes b) (tb_tokens b) = tb_tokens b" using assms(1) by (simp add: bucket_ok_def)
  ultimately show ?thesis
    using assms by (auto simp: refill_locked_def Let_def x_def y_def)
qed

text \<open>The bytes admitted since \<open>t\<close>, however long the bucket has been idle before.\<close>

lemma admitted_since:
  assumes "bucket_ok b" "tb_last_refill b \<le> t" "t \<le> now" "0 < remaining"
    and "b' = fold run_section (ConsumeTurn now remaining # calls) b"
  shows "tb_total_bytes_consumed b' - tb_total_bytes_consumed b
    \<le> tb_burst_bytes b + tb_rate_bytes_per_second b * (tb_last_refill b' - t)"
proof -
  let ?a = "refill_locked t b"
  have a: "bucket_ok ?a" "tb_rate_bytes_per_second ?a = tb_rate_bytes_per_second b" "tb_burst_bytes ?a = tb_burst_bytes b"
      "tb_total_bytes_consumed ?a = tb_total_bytes_consumed b" "tb_last_refill ?a = t"
    using paid_for_ok [OF refill_paid_for [OF assms(1)], of t] assms(2)
    by (auto simp: refill_locked_def Let_def)
  have "consume_section now remaining ?a = consume_section now remaining b"
    by (simp add: consume_section_def refill_twice [OF assms(1-3)])
  then have "b' = fold run_section (ConsumeTurn now remaining # calls) ?a" using assms(4,5) by simp
  then have "paid_for ?a b'" using sections_paid_for [OF a(1), of "ConsumeTurn now remaining # calls"] by metis
  moreover have "tb_tokens ?a \<le> tb_burst_bytes b" "0 \<le> tb_tokens b'"
    using a calculation by (simp_all add: bucket_ok_def paid_for_def)
  ultimately show ?thesis using a by (simp add: paid_for_def)
qed

text \<open>
  The acceptance check is sound for the limiter: a transfer of \<open>n\<close> bytes that the bucket of its
  session has let pass, in any sections, and that took at least the time between its start \<open>t\<close>
  and the last section, passes \<open>speed_ok\<close>, provided the script has accepted its arguments and
  the tolerance covers one burst in five seconds; and it takes five seconds at least.
\<close>

theorem throttled_transfer_passes:
  assumes arguments: "throttle_arguments clients n limit tolerance burst = Inr ()"
    and bucket: "bucket_ok b" "tb_rate_bytes_per_second b = real_of_int (limit * 1024)" "tb_burst_bytes b = real_of_int burst"
      "tb_last_refill b \<le> t"
    and sections: "b' = fold run_section (ConsumeTurn now remaining # calls) b" "t \<le> now" "0 < remaining"
      "tb_total_bytes_consumed b' - tb_total_bytes_consumed b = real_of_int n"
    and measured: "tb_last_refill b' - t \<le> seconds"
    and tolerance: "real_of_int burst * 100 \<le> tolerance * real_of_int limit * 1024 * 5"
  shows "speed_ok n seconds limit tolerance = Inr True \<and> 5 \<le> seconds"
proof -
  define L where "L = real_of_int limit"
  define B where "B = real_of_int burst"
  define N where "N = real_of_int n"
  have a: "0 < n" "0 < L" "0 \<le> tolerance" "minimum_size limit burst \<le> n"
    using arguments by (simp_all add: throttle_arguments_def L_def split: if_splits)
  have "N \<le> B + L * 1024 * (tb_last_refill b' - t)"
    using admitted_since [OF bucket(1,4) sections(2,3,1)] bucket(2,3) sections(4) by (simp add: L_def B_def N_def)
  also have "\<dots> \<le> B + L * 1024 * seconds" using measured a(2) by simp
  finally have n: "N \<le> B + L * 1024 * seconds" .
  have "real_of_int (minimum_size limit burst) \<le> N" using a(4) unfolding N_def by (simp only: of_int_le_iff)
  then have "L * 1024 * 5 + B \<le> N" by (simp add: minimum_size_def L_def B_def)
  then have "L * 1024 * 5 \<le> L * 1024 * seconds" using n by linarith
  then have five: "5 \<le> seconds" using a(2) by simp
  have "0 < B" using bucket(1,3) by (simp add: bucket_ok_def B_def)
  have "N / 1024 / seconds \<le> (B + L * 1024 * seconds) / 1024 / seconds"
    using n five by (intro divide_right_mono) auto
  also have "\<dots> = B / 1024 / seconds + L" using five by (simp add: field_simps)
  also have "\<dots> \<le> B / 1024 / 5 + L"
    using five \<open>0 < B\<close> by (intro add_right_mono divide_left_mono) auto
  also have "\<dots> \<le> L * (1 + tolerance / 100)"
    using tolerance unfolding L_def [symmetric] B_def [symmetric] by (simp add: field_simps)
  finally have "N / 1024 / seconds \<le> L * (1 + tolerance / 100)" .
  with a five show ?thesis
    by (simp add: speed_ok_def throughput_kib_per_second_def within_limit_def L_def N_def)
qed

subsection \<open>The demo server leaves nothing behind\<close>

lemma demo_loop_ok: "listening limit p \<Longrightarrow> wp (demo_loop ev turns) (\<lambda>_. listening limit) (\<lambda>_. listening limit) p"
proof (induction ev turns arbitrary: p rule: demo_loop.induct)
  case (2 ev a turns)
  show ?case
    unfolding demo_loop.simps wp_bind
    by (rule wp_mono [OF accept_client_ok [OF "2.prems"]]) (auto intro!: wp_mono [OF "2.IH"])
qed (auto simp: wp_simps)

lemma close_workers_done:
  assumes "process_ok limit p" "pr_listener p = Some False"
  shows "wp (close_workers abort_active) (\<lambda>_ q. process_done limit q \<and> pr_listener q = Some False) (\<lambda>_ _. False) p"
  by (rule close_workers_ok [OF assms(1), of abort_active]) (use assms(2) in \<open>simp add: wp_def process_done_def\<close>)

lemma demo_close_done:
  assumes "process_ok limit p"
  shows "wp (demo_close failure ended f)
     (\<lambda>_ t. process_done limit t \<and> pr_listener t = Some False \<and> lg_stream (pr_logger t) = None \<and> ended \<and> failure = None)
     (\<lambda>_ t. process_done limit t \<and> pr_listener t = Some False \<and> (ended \<longrightarrow> lg_stream (pr_logger t) = None)) p"
proof -
  have "wp (if \<not> ended then raiseS (RuntimeError (lit ''demo server thread did not stop''))
     else
       bindS (close_owned_logger True f) (\<lambda>_.
       if failure = None then returnS () else raiseS (RuntimeError (lit ''demo server failed''))))
     (\<lambda>_ t. process_done limit t \<and> pr_listener t = Some False \<and> lg_stream (pr_logger t) = None \<and> ended \<and> failure = None)
     (\<lambda>_ t. process_done limit t \<and> pr_listener t = Some False \<and> (ended \<longrightarrow> lg_stream (pr_logger t) = None)) q"
    if "process_done limit q \<and> pr_listener q = Some False" for q
    using that by (auto simp: process_done_def process_ok_def close_owned_logger_def wp_simps close_logger_def split: option.splits)
  then have "wp (bindS (demo_cleanup failure) (\<lambda>_. if \<not> ended then raiseS (RuntimeError (lit ''demo server thread did not stop''))
     else
       bindS (close_owned_logger True f) (\<lambda>_.
       if failure = None then returnS () else raiseS (RuntimeError (lit ''demo server failed'')))))
     (\<lambda>_ t. process_done limit t \<and> pr_listener t = Some False \<and> lg_stream (pr_logger t) = None \<and> ended \<and> failure = None)
     (\<lambda>_ t. process_done limit t \<and> pr_listener t = Some False \<and> (ended \<longrightarrow> lg_stream (pr_logger t) = None)) q"
    if "process_ok limit q" "pr_listener q = Some False" for q
    unfolding demo_cleanup_def wp_bind by (intro wp_mono [OF close_workers_done [OF that]]) auto
  note rest = this
  have "process_ok limit (p\<lparr>pr_listener := Some False\<rparr>)" using assms by (simp add: process_ok_def)
  from close_workers_done [OF this, of True, simplified] show ?thesis
    unfolding demo_close_def set_listener_def wp_bind [of "updateS _"] wp_update wp_bind [of "close_workers True"]
    by (rule wp_mono) (erule conjE, rule rest, simp_all add: process_done_def)
qed

text \<open>
  The demo server ends as the real one does: when \<open>close\<close> ends, whatever the thread has met, the
  listener is closed, no client thread is left and every slot is free; it returns only if the
  thread has ended without a failure, and then the log is closed.
\<close>

theorem demo_server_stops:
  assumes "listening limit p" "demo_server ev turns ended f p = (r, t)"
  shows "pr_listener t = Some False \<and> wg_workers (pr_group t) = [] \<and> wg_slots (pr_group t) = limit
    \<and> (ended \<longrightarrow> lg_stream (pr_logger t) = None) \<and> (r = Inr () \<longrightarrow> ended \<and> fst (demo_failure ev turns p) = Inr None)"
proof -
  obtain q p1 where fail: "demo_failure ev turns p = (q, p1)" by fastforce
  have "wp (demo_failure ev turns) (\<lambda>_. listening limit) (\<lambda>_ _. False) p"
    unfolding demo_failure_def wp_try wp_bind wp_return
    by (rule wp_mono [OF demo_loop_ok [OF assms(1)]])
  from wpD [OF this fail] obtain failure where q: "q = Inr failure" "listening limit p1" by (cases q) auto
  have closed: "demo_close failure ended f p1 = (r, t)" using assms(2) fail q(1) by (simp add: demo_server_def)
  have "process_ok limit p1" using q(2) by (simp add: listening_def)
  from wpD [OF demo_close_done [OF this, of failure ended f] closed] show ?thesis
    using fail q(1) by (cases r) (auto simp: process_done_def)
qed

subsection \<open>An example\<close>

text \<open>Six chunks of 1024 bytes at one KiB per second, in five seconds.\<close>

definition slow_bucket :: token_bucket where
  "slow_bucket = \<lparr>tb_rate_bytes_per_second = 1024, tb_burst_bytes = 1024, tb_tokens = 1024,
     tb_last_refill = 0, tb_total_bytes_consumed = 0, tb_total_wait_seconds = 0\<rparr>"

theorem throttled_transfer_passes_witness: "speed_ok 6144 5 1 20 = Inr True \<and> 5 \<le> (5 :: real)"
proof -
  define b' where "b' = fold run_section (ConsumeTurn 0 1024 # map (\<lambda>t. ConsumeTurn t 1024) [1, 2, 3, 4, 5]) slow_bucket"
  have "b' = slow_bucket\<lparr>tb_tokens := 0, tb_last_refill := 5, tb_total_bytes_consumed := 6144\<rparr>"
    by (simp add: b'_def slow_bucket_def consume_section_def refill_locked_def Let_def)
  then have b': "tb_total_bytes_consumed b' = 6144" "tb_last_refill b' = 5" by simp_all
  have "throttle_arguments 1 6144 1 20 1024 = Inr ()" by (simp add: throttle_arguments_def minimum_size_def)
  moreover have "bucket_ok slow_bucket" by (simp add: slow_bucket_def bucket_ok_def)
  ultimately show ?thesis
    using throttled_transfer_passes [OF _ _ _ _ _ b'_def, of 1 6144 1 20 1024 0 5] b' by (simp add: slow_bucket_def)
qed

end
