(* ===== verification/ResumeDemo.thy ===== *)
theory ResumeDemo
  imports DemoSupport ClientUploadSafety ClientSafety
begin

section \<open>The acceptance script that interrupts transfers\<close>

text \<open>
  \<open>src/scripts/phase2_large_resume.py\<close>: the clients that stop an upload and a download on purpose
  at a cut-off, so that the next one has something to resume.  \<open>metadata n\<close> is what reading the
  server's metadata file gives when the script looks for the \<open>n\<close>-th time.
\<close>

subsection \<open>The interrupted upload\<close>

function interrupt_chunks :: "environment \<Rightarrow> path \<Rightarrow> int \<Rightarrow> int \<Rightarrow> int client_action" where
  "interrupt_chunks ev source cutoff off s =
     (if off < cutoff then
        (case on_client_files (read_handle source (nat off) (nat (min (chunk_size ev) (cutoff - off)))) s of
           (Inl e, t) \<Rightarrow> (Inl e, t)
         | (Inr [], t) \<Rightarrow> (Inl (RuntimeError (lit ''source ended before the interruption offset'')), t)
         | (Inr (b # bs), t) \<Rightarrow>
             (case send_chunk ev off (b # bs) t of
                (Inl e, u) \<Rightarrow> (Inl e, u)
              | (Inr _, u) \<Rightarrow> interrupt_chunks ev source cutoff (off + int (length (b # bs))) u))
      else (Inr off, s))"
  by pat_completeness auto
termination
  by (relation "measure (\<lambda>(ev, source, cutoff, off, s). nat (cutoff - off))") auto

declare interrupt_chunks.simps [simp del]

text \<open>\<open>metadata is not None and metadata.get("uploaded_bytes") == sent\<close>; \<open>True\<close> counts as 1.\<close>

fun json_equals_int :: "json option \<Rightarrow> int \<Rightarrow> bool" where
  "json_equals_int (Some (JInt m)) n = (m = n)"
| "json_equals_int (Some (JFloat x)) n = (x = real_of_int n)"
| "json_equals_int (Some (JBool b)) n = ((if b then 1 else 0) = n)"
| "json_equals_int _ n = False"

definition offset_is_persisted :: "(pystr \<times> json) list option \<Rightarrow> int \<Rightarrow> bool" where
  "offset_is_persisted metadata n =
     (case metadata of None \<Rightarrow> False | Some m \<Rightarrow> json_equals_int (dict_get m (lit ''uploaded_bytes'')) n)"

definition interrupt_upload_body ::
  "environment \<Rightarrow> exc + sock \<Rightarrow> path \<Rightarrow> int \<Rightarrow> (nat \<Rightarrow> (pystr \<times> json) list option) \<Rightarrow> timing \<Rightarrow> int client_action" where
  "interrupt_upload_body ev socket_factory source cutoff metadata tm =
     bindS (client_connect ev socket_factory None) (\<lambda>_.
     bindS (on_client_files (stat_size source)) (\<lambda>total_size.
     bindS (readS cl_user_id) (\<lambda>user_id.
     bindS (liftS (make_file_upload_frame
       \<lparr>fu_filename = path_name source, fu_total_size = int total_size, fu_start_offset = 0\<rparr> (max_payload ev) user_id)) (\<lambda>request.
     bindS (client_send ev request) (\<lambda>_.
     bindS (client_receive ev) (\<lambda>fr.
     bindS (liftS (parse_acknowledgement fr (max_payload ev))) (\<lambda>ack.
     if ak_acknowledged_opcode ack \<noteq> FILE_UPLOAD \<or> ak_next_offset ack \<noteq> 0 then
       raiseS (RuntimeError (lit ''server did not start the interrupted upload at zero''))
     else
       bindS (on_client_files (open_existing source)) (\<lambda>input_file.
       bindS (interrupt_chunks ev input_file cutoff 0) (\<lambda>n.
       bindS (liftS (fst (wait_for (\<lambda>k. offset_is_persisted (metadata k) n) 15 tm))) (\<lambda>_.
       returnS n))))))))))"

definition interrupt_upload ::
  "environment \<Rightarrow> exc + sock \<Rightarrow> path \<Rightarrow> int \<Rightarrow> (nat \<Rightarrow> (pystr \<times> json) list option) \<Rightarrow> timing \<Rightarrow> int client_action" where
  "interrupt_upload ev socket_factory source cutoff metadata tm =
     finallyS (interrupt_upload_body ev socket_factory source cutoff metadata tm) client_close"

subsection \<open>The interrupted download\<close>

function interrupt_receive :: "environment \<Rightarrow> path \<Rightarrow> int \<Rightarrow> int \<Rightarrow> int client_action" where
  "interrupt_receive ev part_file cutoff received s =
     (if received < cutoff then
        (case client_receive ev s of
           (Inl e, t) \<Rightarrow> (Inl e, t)
         | (Inr fr, t) \<Rightarrow>
             (case parse_file_chunk fr (chunk_size ev) (max_payload ev) of
                Inl e \<Rightarrow> (Inl e, t)
              | Inr chunk \<Rightarrow>
                  if fc_offset chunk \<noteq> received then
                    (Inl (RuntimeError (lit ''download chunk offset is not contiguous'')), t)
                  else
                    (case on_client_files (append_handle part_file (fc_data chunk)) t of
                       (Inl e, u) \<Rightarrow> (Inl e, u)
                     | (Inr _, u) \<Rightarrow> interrupt_receive ev part_file cutoff (received + int (length (fc_data chunk))) u)))
      else (Inr received, s))"
  by pat_completeness auto
termination
  by (relation "measure (\<lambda>(ev, part_file, cutoff, received, s). length (pending (cl_socket s)))")
    (auto simp: on_client_files_apply dest!: client_receive_progress [OF sym] split: prod.splits)

declare interrupt_receive.simps [simp del]

definition interrupt_download_body ::
  "environment \<Rightarrow> exc + sock \<Rightarrow> pystr \<Rightarrow> int \<Rightarrow> (int \<times> path) client_action" where
  "interrupt_download_body ev socket_factory filename cutoff =
     bindS (client_connect ev socket_factory None) (\<lambda>_.
     bindS (readS cl_user_id) (\<lambda>user_id.
     bindS (liftS (make_file_download_frame
       \<lparr>fd_filename = filename, fd_requested_offset = 0\<rparr> (max_payload ev) user_id)) (\<lambda>request.
     bindS (client_send ev request) (\<lambda>_.
     bindS (client_receive ev) (\<lambda>fr.
     bindS (liftS (parse_file_info fr (max_payload ev))) (\<lambda>info.
     if fi_start_offset info \<noteq> 0 then
       raiseS (RuntimeError (lit ''server did not start the interrupted download at zero''))
     else
       bindS (send_download_ack ev FILE_INFO 0) (\<lambda>_.
       let part = to_path (cc_download_directory (cf_client (ev_config ev))) (filename @ lit ''.part'') in
       bindS (on_client_files (mkdir_parents (parent part))) (\<lambda>_.
       bindS (on_client_files (open_exclusive part)) (\<lambda>part_file.
       bindS (interrupt_receive ev part_file cutoff 0) (\<lambda>received.
       returnS (received, part)))))))))))"

definition interrupt_download ::
  "environment \<Rightarrow> exc + sock \<Rightarrow> pystr \<Rightarrow> int \<Rightarrow> (int \<times> path) client_action" where
  "interrupt_download ev socket_factory filename cutoff =
     finallyS (interrupt_download_body ev socket_factory filename cutoff) client_close"

text \<open>The cut-off \<open>int(size * ratio)\<close>, and the arguments the script accepts.\<close>

definition interruption_cutoff :: "int \<Rightarrow> real \<Rightarrow> int" where
  "interruption_cutoff n ratio = (if 0 \<le> real_of_int n * ratio then \<lfloor>real_of_int n * ratio\<rfloor> else \<lceil>real_of_int n * ratio\<rceil>)"

definition resume_arguments :: "int list \<Rightarrow> real \<Rightarrow> pystr + unit" where
  "resume_arguments sizes ratio =
     (if list_ex (\<lambda>n. n \<le> 0) sizes then Inl (lit ''all sizes must be positive'')
      else if \<not> (0 < ratio \<and> ratio < 1) then Inl (lit ''interrupt-ratio must be between zero and one'')
      else Inr ())"

lemma stat_size_Inr:
  assumes "stat_size p fs = (Inr n, fs')" "canonical fs p"
  shows "same_nodes fs fs' \<and> n = length (file_data fs p)"
  using assms(1) unfolding stat_size_def
proof (cases rule: os_callE)
  case (fault f)
  then show ?thesis by simp
next
  case (run fs1)
  then show ?thesis
    using canonical_followed [OF assms(2)] lookup_same_nodes(2) [OF run(1)]
    by (auto simp: file_data_def split: option.splits node.splits)
qed

subsection \<open>Exactly the bytes before the cut-off have been sent\<close>

lemma interrupt_chunks_Inr:
  "interrupt_chunks ev q cutoff off s = (Inr n, t) \<Longrightarrow> cl_authenticated s \<Longrightarrow> 0 \<le> off \<Longrightarrow> off \<le> cutoff \<Longrightarrow>
     \<exists>pieces. exchanged s (chunk_wire (cl_user_id s) off pieces) [] t \<and> n = cutoff
       \<and> n = off + int (length (concat pieces)) \<and> list_all (piece_ok ev) pieces
       \<and> concat pieces = take (nat (cutoff - off)) (drop (nat off) (file_data (cl_files s) q))
       \<and> same_nodes (cl_files s) (cl_files t)"
proof (induction ev q cutoff off s arbitrary: n t rule: interrupt_chunks.induct)
  case (1 ev q cutoff off s)
  let ?k = "nat (min (chunk_size ev) (cutoff - off))"
  show ?case
  proof (cases "off < cutoff")
    case False
    then have "n = off \<and> t = s" "off = cutoff" using "1.prems" by (simp_all add: interrupt_chunks.simps)
    then show ?thesis using "1.prems"(2) by (intro exI [of _ "[]"]) (simp add: exchanged_refl)
  next
    case True
    obtain p u where rd: "on_client_files (read_handle q (nat off) ?k) s = (p, u)" by fastforce
    then obtain b bs where p: "p = Inr (b # bs)"
      using "1.prems"(1) True by (auto simp: interrupt_chunks.simps [of ev q] split: sum.splits list.splits)
    define piece where "piece = b # bs"
    note c = client_read_Inr [OF rd [unfolded p] "1.prems"(2)]
    have auth: "cl_authenticated u" "cl_user_id u = cl_user_id s" using c by (auto simp: exchanged_def)
    obtain w v where sc: "send_chunk ev off (b # bs) u = (w, v)" by fastforce
    have w: "w = Inr ()" and rest: "interrupt_chunks ev q cutoff (off + int (length piece)) v = (Inr n, t)"
      using "1.prems"(1) rd p sc True
      by (auto simp: interrupt_chunks.simps [of ev q cutoff off] piece_def split: sum.splits)
    note e = send_chunk_Inr [OF sc [unfolded w] auth(1)]
    have v: "cl_authenticated v" "cl_user_id v = cl_user_id s" using e auth(2) by (auto simp: exchanged_def)
    have data: "file_data (cl_files v) q = file_data (cl_files s) q" using c e by (simp add: same_data)
    let ?rest = "drop (nat off) (file_data (cl_files s) q)"
    have piece: "piece = take ?k ?rest" using c by (simp add: piece_def)
    then have small: "int (length piece) \<le> cutoff - off" using True by simp
    have bounds: "0 \<le> off + int (length (b # bs))" "off + int (length (b # bs)) \<le> cutoff"
      using small "1.prems"(3) by (simp_all add: piece_def)
    obtain pieces where
      ih: "exchanged v (chunk_wire (cl_user_id s) (off + int (length piece)) pieces) [] t" "n = cutoff"
        "n = off + int (length piece) + int (length (concat pieces))" "list_all (piece_ok ev) pieces"
        "concat pieces = take (nat (cutoff - (off + int (length piece)))) (drop (nat (off + int (length piece))) (file_data (cl_files s) q))"
        "same_nodes (cl_files v) (cl_files t)"
      using "1.IH" [OF True rd [symmetric] p refl sc [symmetric] w rest [unfolded piece_def] v(1) bounds]
      unfolding v(2) data piece_def [symmetric] by blast
    have at: "nat (off + int (length piece)) = length piece + nat off" "nat (cutoff - off) = length piece + nat (cutoff - (off + int (length piece)))"
      using "1.prems"(3) small by linarith+
    have "take (length piece) ?rest = piece" unfolding piece by (simp add: min_def)
    then have whole: "piece @ concat pieces = take (nat (cutoff - off)) ?rest"
      unfolding at(2) take_add ih(5) at(1) by (simp add: add.commute)
    have "exchanged s (frame_bytes (chunk_frame (cl_user_id s) off piece) @ chunk_wire (cl_user_id s) (off + int (length piece)) pieces) [] t"
      using exchanged_trans [OF conjunct1 [OF conjunct2 [OF c]] exchanged_trans [OF conjunct1 [OF e] ih(1)]]
      by (simp add: auth(2) piece_def)
    then have wire: "exchanged s (chunk_wire (cl_user_id s) off (piece # pieces)) [] t" by simp
    have same: "same_nodes (cl_files s) (cl_files t)"
      using c e ih(6) same_nodes_trans [of "cl_files s" "cl_files u" "cl_files t"] by simp
    have ok: "list_all (piece_ok ev) (piece # pieces)" using e ih(4) by (simp add: piece_def)
    have total: "n = off + int (length (concat (piece # pieces)))" using ih(3) by simp
    have "concat (piece # pieces) = take (nat (cutoff - off)) ?rest" using whole by simp
    with wire same ok total ih(2) show ?thesis by blast
  qed
qed

lemma wait_loop_Inr: "wait_loop predicate k deadline tm = (Inr u, polls, tm') \<Longrightarrow> \<exists>k. predicate k"
proof (induction predicate k deadline tm rule: wait_loop.induct)
  case (1 predicate k deadline tm)
  then show ?case by (cases "predicate k") (auto simp: wait_loop.simps [of predicate k] split: prod.splits if_splits)
qed

lemma wait_for_Inr: "fst (wait_for predicate timeout tm) = Inr u \<Longrightarrow> \<exists>k. predicate k"
  by (cases "wait_for predicate timeout tm") (auto simp: wait_for_def dest: wait_loop_Inr split: prod.splits)

lemma interrupt_upload_body_Inr:
  assumes "interrupt_upload_body ev socket_factory source cutoff metadata tm s = (Inr n, t)"
    and "\<not> cl_connected s" "\<not> cl_authenticated s" "canonical (cl_files s) source"
  shows "n = max 0 cutoff \<and> (\<exists>k. offset_is_persisted (metadata k) n)
    \<and> (\<exists>name sock login request pieces. socket_factory = Inr sock
         \<and> make_login_frame \<lparr>lr_username = name\<rparr> (max_payload ev) USER_ID = Inr login
         \<and> make_file_upload_frame \<lparr>fu_filename = path_name source, fu_total_size = int (length (file_data (cl_files s) source)), fu_start_offset = 0\<rparr>
             (max_payload ev) (cl_user_id t) = Inr request
         \<and> outbound (cl_socket t) = outbound sock @ encode_preface @ frame_bytes login @ frame_bytes request
             @ chunk_wire (cl_user_id t) 0 pieces
         \<and> list_all (piece_ok ev) pieces \<and> concat pieces = take (nat cutoff) (file_data (cl_files s) source)
         \<and> n = int (length (concat pieces)))"
proof -
  obtain s1 total_size s2 request s3 fr s4 ack q s5 s6 where
    conn: "client_connect ev socket_factory None s = (Inr (), s1)"
    and st: "on_client_files (stat_size source) s1 = (Inr total_size, s2)"
    and mk: "make_file_upload_frame \<lparr>fu_filename = path_name source, fu_total_size = int total_size, fu_start_offset = 0\<rparr>
      (max_payload ev) (cl_user_id s2) = Inr request"
    and snd: "client_send ev request s2 = (Inr (), s3)" and rc: "client_receive ev s3 = (Inr fr, s4)"
    and op: "on_client_files (open_existing source) s4 = (Inr q, s5)"
    and ch: "interrupt_chunks ev q cutoff 0 s5 = (Inr n, s6)" and t: "t = s6"
    and wf: "fst (wait_for (\<lambda>k. offset_is_persisted (metadata k) n) 15 tm) = Inr ()"
    using assms(1) unfolding interrupt_upload_body_def by (auto simp: bindS_eq_Inr split: if_splits)
  obtain name sock login where c: "socket_factory = Inr sock" "cl_authenticated s1" "cl_files s1 = cl_files s"
    "make_login_frame \<lparr>lr_username = name\<rparr> (max_payload ev) USER_ID = Inr login"
    "outbound (cl_socket s1) = outbound sock @ encode_preface @ frame_bytes login"
    using client_connect_Inr [OF conn assms(2,3)] by auto
  note e1 = exchanged_files [OF st c(2)]
  have same: "same_nodes (cl_files s) (cl_files s2)" "total_size = length (file_data (cl_files s) source)"
    using stat_size_Inr [of source "cl_files s"] e1 assms(4) unfolding c(3) by auto
  have a2: "cl_authenticated s2" "cl_user_id s2 = cl_user_id s1" using e1 by (auto simp: exchanged_def)
  note e2 = exchanged_send [OF snd a2(1)]
  then have a3: "cl_authenticated s3" by (simp add: exchanged_def)
  note e3 = exchanged_receive [OF rc a3]
  then have a4: "cl_authenticated s4" by (simp add: exchanged_def)
  note e4 = exchanged_files [OF op a4]
  then have a5: "cl_authenticated s5" "cl_user_id s5 = cl_user_id s1" using e1 e2 e3 by (auto simp: exchanged_def)
  have files: "cl_files s4 = cl_files s2" using e2 e3 by simp
  have "canonical (cl_files s2) source" using canonical_spared [OF spares_same [OF same(1)] assms(4)] .
  with e4 have q: "q = source" "same_nodes (cl_files s2) (cl_files s5)"
    unfolding files by (auto dest: open_existing_canonical)
  have data: "file_data (cl_files s5) q = file_data (cl_files s) source"
    using same_data [OF q(2), of source] same_data [OF same(1), of source] q(1) by simp
  have out: "outbound (cl_socket s5) = outbound sock @ encode_preface @ frame_bytes login @ frame_bytes request"
    using c(5) e1 e2 e3 e4 by (auto simp: exchanged_def)
  show ?thesis
  proof (cases "0 \<le> cutoff")
    case True
    obtain pieces where
      r: "exchanged s5 (chunk_wire (cl_user_id s5) 0 pieces) [] s6" "n = cutoff" "n = int (length (concat pieces))"
        "list_all (piece_ok ev) pieces" "concat pieces = take (nat cutoff) (file_data (cl_files s) source)"
      using interrupt_chunks_Inr [OF ch a5(1) order_refl True] unfolding data nat_0 drop_0 diff_0_right add_0 by blast
    have "cl_user_id t = cl_user_id s5" using r(1) t by (simp add: exchanged_def)
    then show ?thesis
      using r True t wait_for_Inr [OF wf] c out mk same(2) a2(2) a5(2)
      by (intro conjI exI [of _ name] exI [of _ sock] exI [of _ login] exI [of _ request] exI [of _ pieces])
        (auto simp: exchanged_def)
  next
    case False
    then have "n = 0 \<and> t = s5" using ch t by (simp add: interrupt_chunks.simps)
    then show ?thesis
      using False wait_for_Inr [OF wf] c out mk same(2) a2(2) a5(2)
      by (intro conjI exI [of _ name] exI [of _ sock] exI [of _ login] exI [of _ request] exI [of _ "[]"]) auto
  qed
qed

text \<open>
  An interrupted upload has sent exactly what the script says it has: when \<open>_interrupt_upload\<close>
  returns an offset, it is the cut-off, the chunks that went out after the login and the request are the
  first bytes of the source up to it, without a gap and none larger than a chunk may be, and the server's
  metadata has been seen to record the offset.  However it ends, the client is closed.
\<close>

theorem interrupted_upload_sends_prefix:
  assumes "interrupt_upload ev socket_factory source cutoff metadata tm s = (r, t)"
    and "\<not> cl_connected s" "\<not> cl_authenticated s" "canonical (cl_files s) source" "data = file_data (cl_files s) source"
  shows "\<not> cl_connected t \<and> \<not> cl_authenticated t \<and> (\<forall>n. r = Inr n \<longrightarrow> n = max 0 cutoff
    \<and> (\<exists>k. offset_is_persisted (metadata k) n)
    \<and> (\<exists>user_id name sock login request pieces. socket_factory = Inr sock
         \<and> make_login_frame \<lparr>lr_username = name\<rparr> (max_payload ev) USER_ID = Inr login
         \<and> make_file_upload_frame \<lparr>fu_filename = path_name source, fu_total_size = int (length data), fu_start_offset = 0\<rparr>
             (max_payload ev) user_id = Inr request
         \<and> outbound (cl_socket t) = outbound sock @ encode_preface @ frame_bytes login @ frame_bytes request
             @ chunk_wire user_id 0 pieces
         \<and> list_all (piece_ok ev) pieces \<and> concat pieces = take (nat cutoff) data
         \<and> n = int (length (concat pieces))))"
proof -
  obtain p u where body: "interrupt_upload_body ev socket_factory source cutoff metadata tm s = (p, u)" by fastforce
  then have "r = p" "t = u\<lparr>cl_connected := False, cl_authenticated := False, cl_user_id := USER_ID\<rparr>"
    using assms(1) by (simp_all add: interrupt_upload_def finallyS_def client_close_def updateS_def)
  note closed = this
  show ?thesis
  proof (cases p)
    case (Inl e)
    then show ?thesis using closed by simp
  next
    case (Inr n)
    note sent_prefix = interrupt_upload_body_Inr [OF body [unfolded Inr] assms(2-4), folded assms(5)]
    have "outbound (cl_socket t) = outbound (cl_socket u)" using closed by simp
    then show ?thesis using closed Inr sent_prefix by simp blast
  qed
qed

subsection \<open>The part file holds what has been received\<close>

lemma open_exclusive_Inr:
  assumes "open_exclusive p fs = (Inr q, fs')" "canonical fs p" "p \<noteq> []"
  shows "q = p \<and> spares {p} fs fs' \<and> node_at fs p = None \<and> (\<exists>tm. node_at fs' p = Some (RegularFile [] tm))"
  using assms(1) unfolding open_exclusive_def
proof (cases rule: os_callE)
  case (fault f)
  then show ?thesis by simp
next
  case (run fs1)
  have p: "parent p @ [path_name p] = p" using assms(3) by (simp add: parent_def path_name_def)
  have "canonical fs (parent p)" using canonical_append [of fs "parent p" "[path_name p]"] assms(2) p by simp
  then have "canonical fs1 (parent p)" using canonical_spared [OF spares_same [OF run(1)]] by blast
  then have res: "resolve fs1 (parent p) = Some (parent p)" by (rule canonical_resolve)
  then have "spares {p} fs1 fs'" "q = p" "node_at fs1 p = None" "\<exists>tm. node_at fs' p = Some (RegularFile [] tm)"
    using run(2) p by (auto simp: spares_set split: if_splits)
  then show ?thesis using spares_after [OF run(1)] same_nodes_at [OF run(1)] by auto
qed

lemma interrupt_receive_Inr:
  "interrupt_receive ev q cutoff received s = (Inr n, t) \<Longrightarrow> cl_authenticated s \<Longrightarrow>
     node_at (cl_files s) q = Some (RegularFile d tm) \<Longrightarrow>
     \<exists>pieces tm'. exchanged s [] (chunk_wire (cl_user_id s) received pieces) t
       \<and> n = received + int (length (concat pieces)) \<and> cutoff \<le> n
       \<and> (n = received \<or> n < cutoff + chunk_size ev) \<and> list_all (piece_ok ev) pieces
       \<and> spares {q} (cl_files s) (cl_files t) \<and> node_at (cl_files t) q = Some (RegularFile (d @ concat pieces) tm')"
proof (induction ev q cutoff received s arbitrary: d tm rule: interrupt_receive.induct)
  case (1 ev q cutoff received s)
  show ?case
  proof (cases "received < cutoff")
    case False
    then have "n = received \<and> t = s" using "1.prems"(1) by (simp add: interrupt_receive.simps)
    then show ?thesis
      using False "1.prems"(2,3) by (intro exI [of _ "[]"] exI [of _ tm]) (simp add: exchanged_refl sparing.R_refl)
  next
    case True
    obtain x s1 where rc: "client_receive ev s = (x, s1)" by fastforce
    then obtain fr where x: "x = Inr fr"
      using "1.prems"(1) True by (auto simp: interrupt_receive.simps [of ev q] split: sum.splits)
    note e1 = exchanged_receive [OF rc [unfolded x] "1.prems"(2)]
    have a1: "cl_authenticated s1" "cl_user_id s1 = cl_user_id s" using e1 by (auto simp: exchanged_def)
    obtain m where m: "parse_file_chunk fr (chunk_size ev) (max_payload ev) = Inr m"
      using "1.prems"(1) True rc x by (auto simp: interrupt_receive.simps [of ev q] split: sum.splits)
    have off: "fc_offset m = received"
      using "1.prems"(1) True rc x m by (auto simp: interrupt_receive.simps [of ev q] split: sum.splits if_splits)
    obtain y s2 where ap: "on_client_files (append_handle q (fc_data m)) s1 = (y, s2)" by fastforce
    then have y: "y = Inr ()" and more: "interrupt_receive ev q cutoff (received + int (length (fc_data m))) s2 = (Inr n, t)"
      using "1.prems"(1) True rc x m off by (auto simp: interrupt_receive.simps [of ev q cutoff received] split: sum.splits)
    have fr: "fr = chunk_frame (cl_user_id s) received (fc_data m)"
      using parse_chunk_frame [OF _ m] e1 off by simp
    have ok: "piece_ok ev (fc_data m)"
      using chunk.parse_Inr [of "max_payload ev" fr] e1 m by (simp add: chunk_body_def piece_ok_def)
    note e2 = exchanged_files [OF ap [unfolded y] a1(1)]
    obtain tm1 where w: "spares {q} (cl_files s) (cl_files s2)" "node_at (cl_files s2) q = Some (RegularFile (d @ fc_data m) tm1)"
      using append_handle_Inr [OF conjunct2 [OF e2]] e1 "1.prems"(3) by (auto simp: file_data_def)
    have e: "exchanged s [] (frame_bytes fr) s2" using exchanged_trans [OF conjunct1 [OF e1] conjunct1 [OF e2]] by simp
    note a2 = exchanged_authenticated [OF e]
    from "1.IH" [OF True rc [symmetric] x m _ ap [symmetric] y more _ w(2)] off a2 obtain pieces tm' where
      r: "exchanged s2 [] (chunk_wire (cl_user_id s) (received + int (length (fc_data m))) pieces) t"
      "n = received + int (length (fc_data m)) + int (length (concat pieces))" "cutoff \<le> n"
      "n = received + int (length (fc_data m)) \<or> n < cutoff + chunk_size ev" "list_all (piece_ok ev) pieces"
      "spares {q} (cl_files s2) (cl_files t)" "node_at (cl_files t) q = Some (RegularFile ((d @ fc_data m) @ concat pieces) tm')"
      by auto
    have "exchanged s [] (chunk_wire (cl_user_id s) received (fc_data m # pieces)) t"
      using exchanged_trans [OF e r(1)] fr by simp
    moreover have "n < cutoff + chunk_size ev" using r(4) True ok by (auto simp: piece_ok_def)
    ultimately show ?thesis
      using r ok sparing.R_trans [OF w(1) r(6)] by (intro exI [of _ "fc_data m # pieces"] exI [of _ tm']) simp
  qed
qed

lemma interrupt_download_body_Inr:
  assumes "interrupt_download_body ev socket_factory filename cutoff s = (Inr (n, path), t)"
    and "\<not> cl_connected s" "\<not> cl_authenticated s"
    and part: "part = to_path (cc_download_directory (cf_client (ev_config ev))) (filename @ lit ''.part'')"
      "canonical (cl_files s) part" "part \<noteq> []"
  shows "path = part \<and> cutoff \<le> n \<and> (n = 0 \<or> n < cutoff + chunk_size ev)
    \<and> (\<exists>sock reply offer info pieces tm. socket_factory = Inr sock \<and> fi_start_offset info = 0
         \<and> make_file_info_frame info (max_payload ev) (cl_user_id t) = Inr offer
         \<and> (delivers sock \<longrightarrow> pending sock = encode_preface @ frame_bytes reply @ frame_bytes offer
              @ chunk_wire (cl_user_id t) 0 pieces @ pending (cl_socket t))
         \<and> n = int (length (concat pieces)) \<and> list_all (piece_ok ev) pieces
         \<and> node_at (cl_files s) part = None \<and> node_at (cl_files t) part = Some (RegularFile (concat pieces) tm))
    \<and> retains {} (cl_files s) (cl_files t)"
proof -
  obtain s1 request s2 offer s3 info s4 s5 q s6 where
    conn: "client_connect ev socket_factory None s = (Inr (), s1)"
    and mk: "make_file_download_frame \<lparr>fd_filename = filename, fd_requested_offset = 0\<rparr> (max_payload ev) (cl_user_id s1) = Inr request"
    and snd: "client_send ev request s1 = (Inr (), s2)" and rc: "client_receive ev s2 = (Inr offer, s3)"
    and info: "parse_file_info offer (max_payload ev) = Inr info" "fi_start_offset info = 0"
    and ack: "send_download_ack ev FILE_INFO 0 s3 = (Inr (), s4)"
    and dirs: "on_client_files (mkdir_parents (parent part)) s4 = (Inr (), s5)"
    and op: "on_client_files (open_exclusive part) s5 = (Inr q, s6)"
    and loop: "interrupt_receive ev q cutoff 0 s6 = (Inr n, t)" and path: "path = part"
    using assms(1) unfolding interrupt_download_body_def Let_def part(1) [symmetric]
    by (auto simp: bindS_eq_Inr split: if_splits)
  obtain sock reply where c: "socket_factory = Inr sock" "cl_authenticated s1" "cl_files s1 = cl_files s"
    "delivers sock \<Longrightarrow> delivers (cl_socket s1) \<and> pending sock = encode_preface @ frame_bytes reply @ pending (cl_socket s1)"
    using client_connect_Inr [OF conn assms(2,3)] by auto
  note e1 = exchanged_send [OF snd c(2)]
  note a2 = exchanged_authenticated [OF conjunct1 [OF e1]]
  note e2 = exchanged_receive [OF rc conjunct1 [OF a2]]
  note a3 = exchanged_authenticated [OF conjunct1 [OF e2]]
  obtain fr where e3: "exchanged s3 (frame_bytes fr) [] s4" "cl_files s4 = cl_files s3"
    using download_ack_Inr [OF ack conjunct1 [OF a3]] by auto
  note a4 = exchanged_authenticated [OF e3(1)]
  note e4 = exchanged_files [OF dirs conjunct1 [OF a4]]
  note a5 = exchanged_authenticated [OF conjunct1 [OF e4]]
  note e5 = exchanged_files [OF op conjunct1 [OF a5]]
  note a6 = exchanged_authenticated [OF conjunct1 [OF e5]]
  have files: "cl_files s4 = cl_files s" using e1 e2 e3(2) c(3) by simp
  have g: "grows (cl_files s) (cl_files s5)" using mkdir_parents_grows [OF conjunct2 [OF e4]] by (simp add: files)
  from open_exclusive_Inr [OF conjunct2 [OF e5] canonical_grows [OF g part(2)] part(3)] obtain tm where
    o: "q = part" "spares {part} (cl_files s5) (cl_files s6)" "node_at (cl_files s5) part = None"
      "node_at (cl_files s6) part = Some (RegularFile [] tm)" by auto
  obtain pieces tm' where r: "exchanged s6 [] (chunk_wire (cl_user_id s6) 0 pieces) t" "n = int (length (concat pieces))" "cutoff \<le> n"
      "n = 0 \<or> n < cutoff + chunk_size ev" "list_all (piece_ok ev) pieces" "spares {part} (cl_files s6) (cl_files t)"
      "node_at (cl_files t) part = Some (RegularFile (concat pieces) tm')"
    using interrupt_receive_Inr [OF loop conjunct1 [OF a6], unfolded o(1), OF o(4)] unfolding add_0 append_Nil by blast
  have user: "cl_user_id t = cl_user_id s2" "cl_user_id s6 = cl_user_id t"
    using exchanged_authenticated [OF r(1)] a6 a5 a4 a3 by simp_all
  have "make_file_info_frame info (max_payload ev) (cl_user_id t) = Inr offer"
    using info.parse_iff_make info(1) e2 user(1) by metis
  moreover have "pending sock = encode_preface @ frame_bytes reply @ frame_bytes offer @ chunk_wire (cl_user_id t) 0 pieces @ pending (cl_socket t)"
    if "delivers sock"
    using c(4) [OF that] e1 e2 e3(1) e4 e5 r(1) user(2) by (auto simp: exchanged_def)
  moreover have "node_at (cl_files s) part = None" using g o(3) by (auto simp: grows_def dest: spec [of _ part])
  moreover from this have "retains {} (cl_files s) (cl_files t)"
    using g o(2) r(6) unfolding retains_def grows_def spares_def by (metis singletonD)
  ultimately show ?thesis using path c(1) info(2) r by blast
qed

text \<open>
  An interrupted download keeps exactly what it has received: when \<open>_interrupt_download\<close> returns, the
  bytes taken from the server after the login are the offer, which starts at zero, and chunks without
  a gap; the new part file holds their contents, at least the cut-off and less than one chunk beyond
  it; every other file is as before.  However it ends, the client is closed.
\<close>

theorem interrupted_download_keeps_prefix:
  assumes "interrupt_download ev socket_factory filename cutoff s = (r, t)"
    and "\<not> cl_connected s" "\<not> cl_authenticated s"
    and "part = to_path (cc_download_directory (cf_client (ev_config ev))) (filename @ lit ''.part'')"
      "canonical (cl_files s) part" "part \<noteq> []"
  shows "\<not> cl_connected t \<and> \<not> cl_authenticated t \<and> (\<forall>n path. r = Inr (n, path) \<longrightarrow>
      path = part \<and> cutoff \<le> n \<and> (n = 0 \<or> n < cutoff + chunk_size ev)
    \<and> (\<exists>user_id sock reply offer info pieces tm. socket_factory = Inr sock \<and> fi_start_offset info = 0
         \<and> make_file_info_frame info (max_payload ev) user_id = Inr offer
         \<and> (delivers sock \<longrightarrow> pending sock = encode_preface @ frame_bytes reply @ frame_bytes offer
              @ chunk_wire user_id 0 pieces @ pending (cl_socket t))
         \<and> n = int (length (concat pieces)) \<and> list_all (piece_ok ev) pieces
         \<and> node_at (cl_files s) part = None \<and> node_at (cl_files t) part = Some (RegularFile (concat pieces) tm))
    \<and> retains {} (cl_files s) (cl_files t))"
proof -
  obtain p u where body: "interrupt_download_body ev socket_factory filename cutoff s = (p, u)" by fastforce
  then have closed: "r = p" "t = u\<lparr>cl_connected := False, cl_authenticated := False, cl_user_id := USER_ID\<rparr>"
    using assms(1) by (simp_all add: interrupt_download_def finallyS_def client_close_def updateS_def)
  show ?thesis
  proof (cases p)
    case (Inl e)
    then show ?thesis using closed by simp
  next
    case (Inr v)
    obtain n path where v: "v = (n, path)" by fastforce
    note kept = interrupt_download_body_Inr [OF body [unfolded Inr v] assms(2-6)]
    have "cl_socket t = cl_socket u" "cl_files t = cl_files u" using closed by simp_all
    then show ?thesis using closed Inr v kept by simp blast
  qed
qed

text \<open>With the arguments the script accepts, the cut-off lies inside the file.\<close>

theorem interruption_cutoff_inside:
  assumes "resume_arguments sizes ratio = Inr ()" "n \<in> set sizes"
  shows "0 \<le> interruption_cutoff n ratio \<and> interruption_cutoff n ratio < n"
proof -
  have n: "0 < n" "0 < ratio" "ratio < 1" using assms by (auto simp: resume_arguments_def list_ex_iff split: if_splits)
  then have "0 \<le> real_of_int n * ratio" "real_of_int n * ratio < real_of_int n" by simp_all
  then show ?thesis using n by (simp add: interruption_cutoff_def floor_less_iff)
qed

end
