(* ===== verification/Spec2Isabelle.thy ===== *)
theory Spec2Isabelle
  imports UploadSafety DownloadFailure SessionEndToEnd WorkerSafety ServerProcess
    ClientAppSafety DesktopSafety ShellSafety ResumeDemo
begin

text \<open>
  A verification library for \<open>src/src/hcmus_socket\<close>: a file server and its clients, written in
  Python, that talk a binary protocol over TCP.  File names below are relative to that directory.

  \<^bold>\<open>The program.\<close>  A client connects, both sides exchange an eight byte preface, and from then on
  frames (\<open>protocol.py\<close>, \<open>framing.py\<close>) that carry typed messages (\<open>messages.py\<close>).  The server
  (\<open>server/app.py\<close>) runs one thread per client, bounded by a semaphore; a thread registers its
  session (\<open>server/registry.py\<close>) and serves it (\<open>server/session.py\<close>): login, then LIST, UPLOAD and
  DOWNLOAD (\<open>server/listing.py\<close>, \<open>upload.py\<close>, \<open>download.py\<close>) inside the user's directory
  (\<open>server/namespace.py\<close>), one thread per filename (\<open>server/filename_locks.py\<close>), at a limited rate
  (\<open>throttling.py\<close>), with resumable partial files (\<open>common/partial_transfer.py\<close>,
  \<open>server/cleanup.py\<close>) and a log (\<open>server/logger.py\<close>).  The client side has a session, the three
  operations (\<open>client/session.py\<close>, \<open>listing.py\<close>, \<open>upload.py\<close>, \<open>download.py\<close>), a command line
  (\<open>client/commands.py\<close>, \<open>app.py\<close>) and a desktop interface over \<open>client/api.py\<close> (\<open>ui/worker.py\<close>,
  the views, \<open>ui/app.py\<close>).

  \<^bold>\<open>Conventions.\<close>  \<open>Prelude\<close> has the two shapes of Python functions: \<open>'e + 'a\<close> for one that may
  raise, \<open>('e, 's, 'a) action\<close> for one that also changes a state; \<open>bindS\<close>, \<open>tryS\<close>, \<open>finallyS\<close> are
  sequencing, \<open>try ... except\<close> and \<open>try ... finally\<close>, and \<open>flow\<close> is an early \<open>return\<close>.  Its locales
  \<open>step_relation\<close> (a reflexive and transitive relation every action of a component stays in) and
  \<open>forward_simulation\<close> carry most invariants; the components interpret them.  Every exception class
  the sources raise or catch is a constructor of \<open>exc\<close> (\<open>Protocol\<close>).  Bytes are \<open>8 word\<close>, texts are
  lists of code points (\<open>pystr\<close>), Python integers are \<open>int\<close>.

  \<^bold>\<open>Theories and code.\<close>
  \<^item> \<open>Bytes\<close>, \<open>Utf8\<close>: \<open>struct\<close> packing, and UTF-8 with its error cases, both with round trips.
  \<^item> \<open>Protocol\<close>, \<open>Framing\<close>, \<open>Messages\<close>, \<open>Codecs\<close>: the four layers of the protocol.  The socket is
    what the peer delivers, cut into segments at will, and what each \<open>send\<close> accepts.  \<open>Codecs\<close>
    has one locale for the codec of a message, interpreted for all eleven.
  \<^item> \<open>Registry\<close>, \<open>FilenameLocks\<close>, \<open>Throttling\<close>: the objects that server threads share.  The sections
    under a lock are atomic; \<open>FilenameLocks\<close> and \<open>Workers\<close> interleave them by a step relation.
  \<^item> \<open>FileSystem\<close>, \<open>FileSteps\<close>: \<open>pathlib\<close>, \<open>os\<close> and \<open>tempfile\<close> as far as they are used, with
    symbolic links and a schedule of errors that any call may meet.
  \<^item> \<open>Namespace\<close>, \<open>PartialTransfer\<close>, \<open>Config\<close>, \<open>ConfigFile\<close>, \<open>Logger\<close>: the modules of that name.
  \<^item> \<open>ServerSession\<close> (state, send, receive), \<open>Upload\<close>, \<open>Download\<close>, \<open>Listing\<close> (the handlers) and
    \<open>Session\<close> (handshake, login, dispatcher, shutdown, \<open>run\<close>); \<open>UploadSafety\<close>, \<open>DownloadSafety\<close>,
    \<open>ListingSafety\<close>, \<open>SessionSafety\<close>, \<open>SessionReplies\<close> hold their properties, \<open>DownloadFailure\<close> what
    becomes of a download whose file cannot be read to the end.
  \<^item> \<open>Workers\<close>, \<open>Admission\<close>, \<open>WorkerSafety\<close>, \<open>ServerProcess\<close>: \<open>server/app.py\<close>, the threads of the
    server with the semaphore and the registry, how a client too many is turned away, and the accepting
    thread from the listener to the end of the process.
  \<^item> \<open>ClientSession\<close>, \<open>ClientTransfers\<close> (listing, upload), \<open>ClientDownload\<close>, \<open>ClientSafety\<close>,
    \<open>ClientDownloadSafety\<close>, \<open>ClientUploadSafety\<close>: the client's operations and what they guarantee.
  \<^item> \<open>DownloadEndToEnd\<close>, \<open>UploadWire\<close>, \<open>UploadExample\<close>, \<open>UploadEndToEnd\<close>, \<open>SessionEndToEnd\<close>: the
    server's handlers and the client's functions joined through the bytes between them, for each
    of login, listing, upload and download.
  \<^item> \<open>ClientApi\<close>, \<open>Commands\<close>, \<open>ClientApp\<close>, \<open>ClientAppSafety\<close>: the API object and the command line.
  \<^item> \<open>UiWorker\<close>, \<open>DesktopViews\<close>, \<open>Desktop\<close>, \<open>DesktopSafety\<close>: the background worker of the desktop
    client, refined to a serial executor, and its controller as an event driven state machine.
  \<^item> \<open>Shell\<close>, \<open>ShellSafety\<close>: the window around them: pages, themes, file layouts and the responsive
    layout, with what each card shows where.
  \<^item> \<open>DemoSupport\<close>, \<open>ResumeDemo\<close>: the acceptance scripts of \<open>src/scripts\<close>: fixtures, hashes, speed limits,
    waiting, the demo server, and the clients that interrupt a transfer on purpose.
  \<^item> \<open>Examples\<close>: a configuration, a session and files on which the witnesses evaluate.

  \<^bold>\<open>What the lemmas show.\<close>  For the protocol: round trips, exactness and truthful errors for every
  input.  For the shared objects: uniqueness, exclusion, exact bookkeeping and rate bounds in every
  interleaving.  For the file operations: what may change on disk on every path, errors
  included, and that what is published is verified.  For the sessions: state and authentication
  invariants, replies on every branch, resources released however they end.  For the
  clients: what a returned result means, and that the interfaces keep their state consistent.

  \<^bold>\<open>Termination and bounds.\<close>  Socket loops end because delivered bytes are finite and each turn
  consumes a frame or closes (\<open>Framing\<close> and the transfer loops give the measures), file loops because
  files are finite.  Fuel appears twice: \<open>consume_loop\<close> (\<open>Throttling\<close>) counts the waits of \<open>consume\<close>,
  and \<open>consume_returns\<close> proves a number of waits that is enough, as every wait adds tokens; \<open>resolve\<close>
  follows 40 symbolic links, the limit of the operating system.  Integers that the wire limits to
  16, 32 or 64 bits are checked where the code checks them.

  \<^bold>\<open>Parameters.\<close>  SHA-256, the JSON codec, the INI parser, the clock, \<open>str.casefold\<close>, what the user
  types or chooses, and the scheduling of socket and file errors are arguments of the model.

  \<^bold>\<open>Not modelled.\<close>  The construction of Tk widgets, their styles, fonts and sizes (most of
  \<open>ui/theme.py\<close>, \<open>settings_view.py\<close> and \<open>about_view.py\<close>) and argparse, since there is nothing but calls
  of foreign libraries; progress callbacks inside the transfers, which only print or queue an event;
  replacement handlers passed to the server session; the rounding of floating point numbers; errors of
  \<open>socket.close\<close>, \<open>settimeout\<close> and \<open>shutdown\<close>, and of the tests \<open>exists\<close>, \<open>is_file\<close>, \<open>is_dir\<close> and
  \<open>is_symlink\<close> outside the clean-up of partial files (\<open>server/cleanup.py\<close>), where they are modelled;
  of \<open>src/scripts\<close> the main functions, which start threads, measure and print a report; the tests.
\<close>

end
